(* ===== verification/Prelude.thy ===== *)
theory Prelude
  imports Main "HOL-Library.List_Lexorder" "HOL-Library.Product_Lexorder" "HOL-Library.Char_ord"
begin

text \<open>
  The vocabulary every component shares: JavaScript's nullish and truthiness
  tests on optional values, decimal text, and the SQL statements the session
  storage runs over a table whose rows are kept in insertion (rowid) order.
\<close>

section \<open>Names and collections\<close>

text \<open>Epoch times and durations are whole milliseconds; the code never leaves the
  range in which a JavaScript number is exact, so they are integers here.\<close>

type_synonym ms = int

named_theorems sql "equations of the row-table statements"
named_theorems status_defs "definitions of the status predicates"

section \<open>Optional values\<close>

text \<open>A nullable string is truthy exactly when it is present and non-empty.\<close>

definition truthy :: "string option \<Rightarrow> bool" where
  "truthy s = (case s of None \<Rightarrow> False | Some t \<Rightarrow> t \<noteq> [])"

lemma truthy_simps [simp]:
  "\<not> truthy None"
  "truthy (Some t) \<longleftrightarrow> t \<noteq> []"
  by (simp_all add: truthy_def)

lemma truthyE:
  assumes "truthy s"
  obtains t where "s = Some t" and "t \<noteq> []"
  using assms by (cases s) auto

text \<open>The operator \<open>a ?? b\<close>.\<close>

definition nullish :: "'a option \<Rightarrow> 'a \<Rightarrow> 'a" where
  "nullish a b = (case a of None \<Rightarrow> b | Some x \<Rightarrow> x)"

lemma nullish_simps [simp]:
  "nullish None b = b"
  "nullish (Some a) b = a"
  by (simp_all add: nullish_def)

text \<open>The operator \<open>a ?? b\<close> where \<open>b\<close> is itself nullable.\<close>

definition or_else :: "'a option \<Rightarrow> 'a option \<Rightarrow> 'a option" where
  "or_else a b = (case a of None \<Rightarrow> b | Some x \<Rightarrow> Some x)"

lemma or_else_simps [simp]:
  "or_else None b = b"
  "or_else (Some a) b = Some a"
  by (simp_all add: or_else_def)

text \<open>\<open>x !== null && p(x)\<close> and \<open>x === null || p(x)\<close>, which compute where the quantified
  forms do not.\<close>

definition some_holds :: "('a \<Rightarrow> bool) \<Rightarrow> 'a option \<Rightarrow> bool" where
  "some_holds p x = (case x of None \<Rightarrow> False | Some a \<Rightarrow> p a)"

definition none_or :: "('a \<Rightarrow> bool) \<Rightarrow> 'a option \<Rightarrow> bool" where
  "none_or p x = (case x of None \<Rightarrow> True | Some a \<Rightarrow> p a)"

lemma some_holds_iff [simp]: "some_holds p x \<longleftrightarrow> (\<exists>a. x = Some a \<and> p a)"
  by (simp add: some_holds_def split: option.split)

lemma none_or_iff [simp]: "none_or p x \<longleftrightarrow> (\<forall>a. x = Some a \<longrightarrow> p a)"
  by (simp add: none_or_def split: option.split)

text \<open>\<open>Math.min(t, bound ?? Infinity)\<close>.\<close>

definition min_bound :: "int \<Rightarrow> int option \<Rightarrow> int" where
  "min_bound t b = (case b of None \<Rightarrow> t | Some u \<Rightarrow> min t u)"

lemma min_bound_simps [simp]:
  "min_bound t None = t"
  "min_bound t (Some u) = min t u"
  by (simp_all add: min_bound_def)

lemma min_bound_le: "min_bound t b \<le> t"
  by (cases b) auto

section \<open>Decimal text\<close>

definition digit_char :: "nat \<Rightarrow> char" where
  "digit_char d = char_of (48 + d)"

definition is_digit :: "char \<Rightarrow> bool" where
  "is_digit c \<longleftrightarrow> 48 \<le> (of_char c :: nat) \<and> (of_char c :: nat) \<le> 57"

definition digit_value :: "char \<Rightarrow> nat" where
  "digit_value c = of_char c - 48"

fun show_nat :: "nat \<Rightarrow> string" where
  "show_nat n = (if n < 10 then [digit_char n] else show_nat (n div 10) @ [digit_char (n mod 10)])"

declare show_nat.simps [simp del]

definition show_int :: "int \<Rightarrow> string" where
  "show_int i = (if i < 0 then CHR ''-'' # show_nat (nat (- i)) else show_nat (nat i))"

fun read_digits :: "nat \<Rightarrow> string \<Rightarrow> nat" where
  "read_digits acc [] = acc"
| "read_digits acc (c # cs) = read_digits (10 * acc + digit_value c) cs"

text \<open>The value of a string that matches \<open>/^\d+$/\<close>, and nothing otherwise.\<close>

definition parse_nat :: "string \<Rightarrow> nat option" where
  "parse_nat s = (if s \<noteq> [] \<and> list_all is_digit s then Some (read_digits 0 s) else None)"

lemma digit_char_value [simp]:
  assumes "d < 10"
  shows "digit_value (digit_char d) = d" and "is_digit (digit_char d)"
  using assms by (simp_all add: digit_value_def digit_char_def is_digit_def)

lemma read_digits_append: "read_digits a (xs @ ys) = read_digits (read_digits a xs) ys"
  by (induction xs arbitrary: a) auto

lemma show_nat_digits: "list_all is_digit (show_nat n)"
proof (induction n rule: show_nat.induct)
  case (1 n)
  then show ?case by (subst show_nat.simps) auto
qed

lemma show_nat_nonempty [simp]: "show_nat n \<noteq> []"
  by (subst show_nat.simps) simp

lemma read_show_nat: "read_digits 0 (show_nat n) = n"
proof (induction n rule: show_nat.induct)
  case (1 n)
  then show ?case
    by (subst show_nat.simps) (auto simp: read_digits_append)
qed

lemma parse_show_nat [simp]: "parse_nat (show_nat n) = Some n"
  by (simp add: parse_nat_def show_nat_digits read_show_nat)

lemma show_nat_inj: "show_nat m = show_nat n \<longleftrightarrow> m = n"
  by (metis parse_show_nat option.inject)

lemma parse_nat_digits: "parse_nat s = Some n \<Longrightarrow> list_all is_digit s \<and> s \<noteq> []"
  by (auto simp: parse_nat_def split: if_splits)

section \<open>Row tables\<close>

text \<open>
  \<open>UPDATE t SET f WHERE p\<close>, its \<open>rowsWritten\<close>, \<open>DELETE FROM t WHERE p\<close> and
  \<open>SELECT COUNT(*) WHERE p\<close> over a table kept as the list of its rows.
\<close>

definition sql_update :: "('r \<Rightarrow> bool) \<Rightarrow> ('r \<Rightarrow> 'r) \<Rightarrow> 'r list \<Rightarrow> 'r list" where
  "sql_update p f rows = map (\<lambda>r. if p r then f r else r) rows"

definition sql_count :: "('r \<Rightarrow> bool) \<Rightarrow> 'r list \<Rightarrow> nat" where
  "sql_count p rows = length (filter p rows)"

definition sql_delete :: "('r \<Rightarrow> bool) \<Rightarrow> 'r list \<Rightarrow> 'r list" where
  "sql_delete p rows = filter (\<lambda>r. \<not> p r) rows"

lemma sql_update_simps [simp, sql]:
  "sql_update p f [] = []"
  "sql_update p f (r # rs) = (if p r then f r else r) # sql_update p f rs"
  by (simp_all add: sql_update_def)

lemma length_sql_update [simp]: "length (sql_update p f rows) = length rows"
  by (simp add: sql_update_def)

lemma set_sql_update: "set (sql_update p f rows) = (\<lambda>r. if p r then f r else r) ` set rows"
  by (simp add: sql_update_def)

lemma sql_updateE:
  assumes "m \<in> set (sql_update p f rows)"
  obtains x where "x \<in> set rows" and "m = (if p x then f x else x)"
  using assms by (auto simp: sql_update_def)

lemma sql_update_other: "m \<in> set rows \<Longrightarrow> \<not> p m \<Longrightarrow> m \<in> set (sql_update p f rows)"
  by (induction rows) auto

lemma map_sql_update:
  assumes "\<And>r. g (f r) = g r"
  shows "map g (sql_update p f rows) = map g rows"
  using assms by (simp add: sql_update_def)

lemma sql_count_simps [simp, sql]:
  "sql_count p [] = 0"
  "sql_count p (r # rs) = (if p r then Suc (sql_count p rs) else sql_count p rs)"
  by (simp_all add: sql_count_def)

lemma sql_count_append [simp]: "sql_count p (xs @ ys) = sql_count p xs + sql_count p ys"
  by (simp add: sql_count_def)

lemma sql_count_zero: "sql_count p rows = 0 \<longleftrightarrow> (\<forall>r \<in> set rows. \<not> p r)"
  by (induction rows) auto

lemma sql_count_pos: "0 < sql_count p rows \<longleftrightarrow> (\<exists>r \<in> set rows. p r)"
  by (induction rows) auto

lemma sql_count_le: "sql_count p rows \<le> length rows"
  by (simp add: sql_count_def)

lemma sql_count_mono:
  assumes "\<And>r. r \<in> set rows \<Longrightarrow> p r \<Longrightarrow> q r"
  shows "sql_count p rows \<le> sql_count q rows"
  using assms by (induction rows) auto

lemma sql_count_update:
  "sql_count q (sql_update p f rows) = sql_count (\<lambda>r. q (if p r then f r else r)) rows"
  by (induction rows) auto

lemma sql_count_cong:
  assumes "\<And>r. r \<in> set rows \<Longrightarrow> p r = q r"
  shows "sql_count p rows = sql_count q rows"
  using assms by (induction rows) auto

lemma sql_update_idle: "(\<And>r. r \<in> set rows \<Longrightarrow> \<not> p r) \<Longrightarrow> sql_update p f rows = rows"
  by (induction rows) auto

lemma sql_delete_simps [simp, sql]:
  "sql_delete p [] = []"
  "sql_delete p (r # rs) = (if p r then sql_delete p rs else r # sql_delete p rs)"
  by (simp_all add: sql_delete_def)

lemma sql_count_delete_le: "sql_count q (sql_delete p rows) \<le> sql_count q rows"
  by (induction rows) auto

lemma set_sql_delete [simp]: "set (sql_delete p rows) = {r \<in> set rows. \<not> p r}"
  by (auto simp: sql_delete_def)

text \<open>\<open>SELECT ... WHERE p LIMIT 1\<close> reads the first matching row.\<close>

lemma find_SomeD: "find p rows = Some r \<Longrightarrow> r \<in> set rows \<and> p r"
  by (induction rows) (auto split: if_splits)

lemma find_NoneD: "find p rows = None \<Longrightarrow> r \<in> set rows \<Longrightarrow> \<not> p r"
  by (auto simp: find_None_iff)

lemma find_sql_update:
  assumes "\<And>r. q (f r) = q r"
  shows "find q (sql_update p f rows) = map_option (\<lambda>r. if p r then f r else r) (find q rows)"
  using assms by (induction rows) auto

lemma find_append: "find q (xs @ ys) = (case find q xs of None \<Rightarrow> find q ys | Some r \<Rightarrow> Some r)"
  by (induction xs) auto

lemma find_count: "find p rows = None \<longleftrightarrow> sql_count p rows = 0"
  by (auto simp: find_None_iff sql_count_zero)

text \<open>\<open>ORDER BY key ASC, rowid ASC LIMIT 1\<close>: the stable sort's first row.\<close>

definition first_by :: "('r \<Rightarrow> 'k::linorder) \<Rightarrow> 'r list \<Rightarrow> 'r option" where
  "first_by k rows = (case sort_key k rows of [] \<Rightarrow> None | r # _ \<Rightarrow> Some r)"

lemma first_by_None [simp]: "first_by k rows = None \<longleftrightarrow> rows = []"
proof -
  have "length (sort_key k rows) = length rows" by simp
  then show ?thesis by (cases "sort_key k rows") (auto simp: first_by_def)
qed

lemma first_by_SomeD:
  assumes "first_by k rows = Some r"
  shows "r \<in> set rows" and "\<And>s. s \<in> set rows \<Longrightarrow> k r \<le> k s"
proof -
  from assms obtain rest where sk: "sort_key k rows = r # rest"
    by (auto simp: first_by_def split: list.splits)
  then have "set (r # rest) = set rows" by (metis set_sort)
  then show "r \<in> set rows" by auto
  fix s
  assume "s \<in> set rows"
  have "sorted (map k (sort_key k rows))" by simp
  with sk have "\<forall>y \<in> set rest. k r \<le> k y" by simp
  with \<open>s \<in> set rows\<close> \<open>set (r # rest) = set rows\<close> show "k r \<le> k s" by auto
qed

end
