(* ===== verification/Session_Types.thy ===== *)
theory Session_Types
  imports Prelude
begin

text \<open>
  The enumerations of \<open>packages/shared/src/types/sessions.ts\<close> and the predicates over
  them: the questions of \<open>session-activity.ts\<close> about a session and the questions at the
  head of \<open>sandbox/lifecycle/decisions.ts\<close> about a sandbox.
\<close>

section \<open>Enumerations\<close>

datatype session_status = SCreated | SActive | SCompleted | SFailed | SArchived | SCancelled

datatype sandbox_status =
  Pending | Spawning | Connecting | Warming | Ready | Stale | Snapshotting | Stopped | Failed

datatype message_status = MPending | MProcessing | MCompleted | MFailed

datatype message_source = SrcWeb | SrcSlack | SrcLinear | SrcExtension | SrcGithub | SrcAutomation | SrcAgent

datatype spawn_source = FromUser | FromAgent | FromAutomation | FromGithubBot | FromLinearBot | FromSlackBot

fun sandbox_status_text :: "sandbox_status \<Rightarrow> string" where
  "sandbox_status_text Pending = ''pending''"
| "sandbox_status_text Spawning = ''spawning''"
| "sandbox_status_text Connecting = ''connecting''"
| "sandbox_status_text Warming = ''warming''"
| "sandbox_status_text Ready = ''ready''"
| "sandbox_status_text Stale = ''stale''"
| "sandbox_status_text Snapshotting = ''snapshotting''"
| "sandbox_status_text Stopped = ''stopped''"
| "sandbox_status_text Failed = ''failed''"

instantiation sandbox_status :: enum
begin
definition "enum_class.enum =
  [Pending, Spawning, Connecting, Warming, Ready, Stale, Snapshotting, Stopped, Failed]"
definition "enum_class.enum_all P \<longleftrightarrow> P Pending \<and> P Spawning \<and> P Connecting \<and> P Warming \<and> P Ready
  \<and> P Stale \<and> P Snapshotting \<and> P Stopped \<and> P Failed"
definition "enum_class.enum_ex P \<longleftrightarrow> P Pending \<or> P Spawning \<or> P Connecting \<or> P Warming \<or> P Ready
  \<or> P Stale \<or> P Snapshotting \<or> P Stopped \<or> P Failed"
instance
proof
  fix P :: "sandbox_status \<Rightarrow> bool"
  show univ: "(UNIV :: sandbox_status set) = set enum_class.enum"
    by (auto simp: enum_sandbox_status_def intro: sandbox_status.exhaust)
  show "distinct (enum_class.enum :: sandbox_status list)"
    by (simp add: enum_sandbox_status_def)
  show "enum_class.enum_all P \<longleftrightarrow> Ball UNIV P"
    unfolding univ by (simp add: enum_all_sandbox_status_def enum_sandbox_status_def)
  show "enum_class.enum_ex P \<longleftrightarrow> Bex UNIV P"
    unfolding univ by (simp add: enum_ex_sandbox_status_def enum_sandbox_status_def)
qed
end

text \<open>Storage holds the status as bare text; \<open>coerceSandboxStatus\<close> reads it back.\<close>

definition DEFAULT_SANDBOX_STATUS :: sandbox_status where
  "DEFAULT_SANDBOX_STATUS = Pending"

definition coerceSandboxStatus :: "string option \<Rightarrow> sandbox_status" where
  "coerceSandboxStatus raw =
     (case raw of
        None \<Rightarrow> DEFAULT_SANDBOX_STATUS
      | Some t \<Rightarrow>
          (if t = [] then DEFAULT_SANDBOX_STATUS
           else (case find (\<lambda>s. sandbox_status_text s = t) enum_class.enum of
                   Some s \<Rightarrow> s
                 | None \<Rightarrow> Failed)))"

lemma sandbox_status_text_inj [simp]: "sandbox_status_text a = sandbox_status_text b \<longleftrightarrow> a = b"
  by (cases a; cases b) simp_all

lemma coerce_status_text: "coerceSandboxStatus (Some (sandbox_status_text s)) = s"
  by (cases s) (simp_all add: coerceSandboxStatus_def enum_sandbox_status_def)

section \<open>Questions about a session\<close>

definition isSessionInactive :: "session_status \<Rightarrow> bool" where
  "isSessionInactive s \<longleftrightarrow> s \<in> {SCompleted, SFailed, SArchived, SCancelled}"

definition isTurnSettled :: "session_status \<Rightarrow> bool" where
  "isTurnSettled s \<longleftrightarrow> s \<in> {SCompleted, SFailed, SCancelled}"

fun isSessionPromptable :: "session_status \<Rightarrow> bool" where
  "isSessionPromptable SCreated = True"
| "isSessionPromptable SActive = True"
| "isSessionPromptable SCompleted = True"
| "isSessionPromptable SFailed = True"
| "isSessionPromptable SArchived = False"
| "isSessionPromptable SCancelled = False"

lemma turn_settled_inactive: "isTurnSettled s \<Longrightarrow> isSessionInactive s"
  by (auto simp: isTurnSettled_def isSessionInactive_def)

section \<open>Questions about a sandbox\<close>

definition isDeadSandboxStatus :: "sandbox_status \<Rightarrow> bool" where
  "isDeadSandboxStatus s \<longleftrightarrow> s \<in> {Stopped, Stale, Failed}"

definition isSandboxReconnectBlockedStatus :: "sandbox_status \<Rightarrow> bool" where
  "isSandboxReconnectBlockedStatus s \<longleftrightarrow> s = Stopped \<or> s = Stale"

datatype command_availability = Dispatch | Booting | Unavailable

definition evaluateSandboxCommandAvailability :: "sandbox_status \<Rightarrow> command_availability" where
  "evaluateSandboxCommandAvailability s =
     (if isDeadSandboxStatus s then Unavailable
      else if s = Ready \<or> s = Snapshotting then Dispatch else Booting)"

definition isSandboxAccessAvailable :: "sandbox_status option \<Rightarrow> bool" where
  "isSandboxAccessAvailable s \<longleftrightarrow> s = Some Ready"

definition shouldStopSandboxOnSessionCancel :: "sandbox_status option \<Rightarrow> bool" where
  "shouldStopSandboxOnSessionCancel s \<longleftrightarrow> s \<noteq> None \<and> s \<noteq> Some Stopped \<and> s \<noteq> Some Failed"

lemma dead_status_simps [simp]:
  "isDeadSandboxStatus Stopped" "isDeadSandboxStatus Stale" "isDeadSandboxStatus Failed"
  "\<not> isDeadSandboxStatus Pending" "\<not> isDeadSandboxStatus Spawning"
  "\<not> isDeadSandboxStatus Connecting" "\<not> isDeadSandboxStatus Warming"
  "\<not> isDeadSandboxStatus Ready" "\<not> isDeadSandboxStatus Snapshotting"
  by (simp_all add: isDeadSandboxStatus_def)

lemmas [status_defs] =
  isDeadSandboxStatus_def isSandboxReconnectBlockedStatus_def isSandboxAccessAvailable_def
  shouldStopSandboxOnSessionCancel_def evaluateSandboxCommandAvailability_def

lemma reconnect_blocked_dead: "isSandboxReconnectBlockedStatus s \<Longrightarrow> isDeadSandboxStatus s"
  by (auto simp: status_defs)

end
