(* ===== verification/Lifecycle_Decisions.thy ===== *)
theory Lifecycle_Decisions
  imports Session_Types
begin

text \<open>
  The decision functions of \<open>packages/control-plane/src/sandbox/lifecycle/decisions.ts\<close>:
  circuit breaker, spawn decision, inactivity, heartbeat, the two boot deadlines, warming
  and the execution timeout. They are pure there too, so each is one definition with the
  source's tests in the source's order; the \<open>reason\<close> texts are the source's.
\<close>

section \<open>Runtime compatibility\<close>

definition MIN_COMPATIBLE_RUNTIME_VERSION :: nat where
  "MIN_COMPATIBLE_RUNTIME_VERSION = 62"

text \<open>The match of \<open>/^v(\d+)/\<close> and the number it captures.\<close>

definition parseRuntimeVersionNumber :: "string \<Rightarrow> nat option" where
  "parseRuntimeVersionNumber v =
     (case v of
        [] \<Rightarrow> None
      | c # cs \<Rightarrow> if c = CHR ''v'' then parse_nat (takeWhile is_digit cs) else None)"

definition isSnapshotRuntimeCompatible :: "string option \<Rightarrow> bool" where
  "isSnapshotRuntimeCompatible v =
     (if \<not> truthy v then False
      else (case parseRuntimeVersionNumber (the v) of
              None \<Rightarrow> False
            | Some n \<Rightarrow> MIN_COMPATIBLE_RUNTIME_VERSION \<le> n))"

section \<open>Circuit breaker\<close>

record breaker_state =
  failureCount :: nat
  lastFailureTime :: ms

record breaker_config =
  bc_threshold :: nat
  bc_windowMs :: ms

definition DEFAULT_CIRCUIT_BREAKER_CONFIG :: breaker_config where
  "DEFAULT_CIRCUIT_BREAKER_CONFIG = \<lparr>bc_threshold = 3, bc_windowMs = 5 * 60 * 1000\<rparr>"

record breaker_decision =
  shouldProceed :: bool
  shouldReset :: bool
  waitTimeMs :: "ms option"

definition evaluateCircuitBreaker ::
  "breaker_state \<Rightarrow> breaker_config \<Rightarrow> ms \<Rightarrow> breaker_decision" where
  "evaluateCircuitBreaker st cfg now =
     (let timeSinceLastFailure = now - lastFailureTime st in
      if 0 < failureCount st \<and> bc_windowMs cfg \<le> timeSinceLastFailure
      then \<lparr>shouldProceed = True, shouldReset = True, waitTimeMs = None\<rparr>
      else if bc_threshold cfg \<le> failureCount st \<and> timeSinceLastFailure < bc_windowMs cfg
      then \<lparr>shouldProceed = False, shouldReset = False,
             waitTimeMs = Some (bc_windowMs cfg - timeSinceLastFailure)\<rparr>
      else \<lparr>shouldProceed = True, shouldReset = False, waitTimeMs = None\<rparr>)"

section \<open>Spawn decision\<close>

record sandbox_state =
  ss_status :: sandbox_status
  ss_createdAt :: ms
  ss_providerObjectId :: "string option"
  ss_snapshotImageId :: "string option"
  ss_snapshotRuntimeVersion :: "string option"
  ss_hasActiveWebSocket :: bool
  ss_lastHeartbeat :: "ms option"

record spawn_config =
  sc_cooldownMs :: ms
  sc_spawningTimeoutMs :: ms

definition CONNECT_WATCHDOG_MS :: ms where
  "CONNECT_WATCHDOG_MS = 240000"

definition DEFAULT_SPAWN_CONFIG :: spawn_config where
  "DEFAULT_SPAWN_CONFIG = \<lparr>sc_cooldownMs = 30000, sc_spawningTimeoutMs = CONNECT_WATCHDOG_MS\<rparr>"

datatype spawn_action =
    Spawn
  | Hold string
  | Resume string
  | Restore string string
  | Skip string
  | Wait string
  | AwaitReconnect ms

text \<open>\<open>Math.round\<close> of a quotient by 1000.\<close>

definition round_seconds :: "ms \<Rightarrow> int" where
  "round_seconds t = (t + 500) div 1000"

definition evaluateSpawnDecision ::
  "sandbox_state \<Rightarrow> spawn_config \<Rightarrow> ms \<Rightarrow> bool \<Rightarrow> bool \<Rightarrow> spawn_action" where
  "evaluateSpawnDecision st cfg now isSpawningInMemory supportsPersistentResume =
     (let timeSinceLastSpawn = now - ss_createdAt st in
      if isSpawningInMemory then Skip ''spawn already in progress (in-memory flag)''
      else if supportsPersistentResume \<and> truthy (ss_providerObjectId st)
              \<and> (ss_status st = Stopped \<or> ss_status st = Stale)
      then Resume (the (ss_providerObjectId st))
      else if truthy (ss_snapshotImageId st)
              \<and> (ss_status st = Stopped \<or> ss_status st = Stale \<or> ss_status st = Failed)
      then (if isSnapshotRuntimeCompatible (ss_snapshotRuntimeVersion st)
            then Restore (the (ss_snapshotImageId st)) (the (ss_snapshotRuntimeVersion st))
            else Hold (''snapshot runtime '' @ nullish (ss_snapshotRuntimeVersion st) ''unknown''
                       @ '' is below the v'' @ show_nat MIN_COMPATIBLE_RUNTIME_VERSION
                       @ '' floor''))
      else if \<not> ss_hasActiveWebSocket st \<and> ss_lastHeartbeat st \<noteq> None
              \<and> ss_status st \<noteq> Pending \<and> \<not> isDeadSandboxStatus (ss_status st)
      then AwaitReconnect (the (ss_lastHeartbeat st))
      else if (ss_status st = Spawning \<or> ss_status st = Connecting) \<and> ss_hasActiveWebSocket st
      then Skip (''already '' @ sandbox_status_text (ss_status st) @ '' with a live bridge'')
      else if (ss_status st = Spawning \<or> ss_status st = Connecting)
              \<and> timeSinceLastSpawn < sc_spawningTimeoutMs cfg
      then Skip (''already '' @ sandbox_status_text (ss_status st))
      else if ss_status st = Ready \<and> ss_hasActiveWebSocket st
      then Skip ''sandbox ready with active WebSocket''
      else if timeSinceLastSpawn < sc_cooldownMs cfg
              \<and> ss_status st \<noteq> Failed \<and> ss_status st \<noteq> Stopped
      then Wait (''last spawn was '' @ show_int (round_seconds timeSinceLastSpawn)
                 @ ''s ago, waiting'')
      else Spawn)"

section \<open>Inactivity\<close>

record inactivity_state =
  is_lastActivity :: "ms option"
  is_status :: sandbox_status
  is_connectedClientCount :: nat

record inactivity_config =
  ic_timeoutMs :: ms
  ic_extensionMs :: ms
  ic_minCheckIntervalMs :: ms

record inactivity_policy = inactivity_config +
  ip_unattendedTimeoutMs :: ms

definition DEFAULT_INACTIVITY_CONFIG :: inactivity_policy where
  "DEFAULT_INACTIVITY_CONFIG =
     \<lparr>ic_timeoutMs = 10 * 60 * 1000, ic_extensionMs = 5 * 60 * 1000,
      ic_minCheckIntervalMs = 30000, ip_unattendedTimeoutMs = 2 * 60 * 1000\<rparr>"

definition MIN_UNATTENDED_INACTIVITY_TIMEOUT_MS :: ms where
  "MIN_UNATTENDED_INACTIVITY_TIMEOUT_MS = 60000"

datatype attendance = Attended | Unattended

fun SPAWN_SOURCE_ATTENDANCE :: "spawn_source \<Rightarrow> attendance" where
  "SPAWN_SOURCE_ATTENDANCE FromUser = Attended"
| "SPAWN_SOURCE_ATTENDANCE FromSlackBot = Attended"
| "SPAWN_SOURCE_ATTENDANCE FromLinearBot = Attended"
| "SPAWN_SOURCE_ATTENDANCE FromGithubBot = Unattended"
| "SPAWN_SOURCE_ATTENDANCE FromAgent = Unattended"
| "SPAWN_SOURCE_ATTENDANCE FromAutomation = Unattended"

definition inactivityConfigFor ::
  "inactivity_policy \<Rightarrow> spawn_source option \<Rightarrow> inactivity_config" where
  "inactivityConfigFor policy source =
     (let attended = inactivity_config.truncate policy in
      case source of
        None \<Rightarrow> attended
      | Some s \<Rightarrow> if SPAWN_SOURCE_ATTENDANCE s = Unattended
                  then attended\<lparr>ic_timeoutMs := ip_unattendedTimeoutMs policy\<rparr> else attended)"

datatype inactivity_action =
    InactivityTimeout ms
  | Extend ms
  | Schedule ms

definition evaluateInactivityTimeout ::
  "inactivity_state \<Rightarrow> inactivity_config \<Rightarrow> ms \<Rightarrow> inactivity_action" where
  "evaluateInactivityTimeout st cfg now =
     (if isDeadSandboxStatus (is_status st) then Schedule (ic_minCheckIntervalMs cfg)
      else (case is_lastActivity st of
              None \<Rightarrow> Schedule (ic_minCheckIntervalMs cfg)
            | Some lastAct \<Rightarrow>
                if is_status st \<noteq> Ready then Schedule (ic_minCheckIntervalMs cfg)
                else
                  let inactiveTime = now - lastAct in
                  if ic_timeoutMs cfg \<le> inactiveTime
                  then (if 0 < is_connectedClientCount st then Extend (ic_extensionMs cfg)
                        else InactivityTimeout inactiveTime)
                  else Schedule (max (ic_timeoutMs cfg - inactiveTime) (ic_minCheckIntervalMs cfg))))"

section \<open>Heartbeat\<close>

record heartbeat_config =
  hc_timeoutMs :: ms
  hc_reconnectGraceMs :: ms

definition DEFAULT_HEARTBEAT_CONFIG :: heartbeat_config where
  "DEFAULT_HEARTBEAT_CONFIG = \<lparr>hc_timeoutMs = 90000, hc_reconnectGraceMs = 60000\<rparr>"

text \<open>\<open>None\<close> is \<open>isStale: false\<close>; \<open>Some age\<close> is \<open>isStale: true\<close> with its age.\<close>

definition evaluateHeartbeatHealth :: "ms option \<Rightarrow> heartbeat_config \<Rightarrow> ms \<Rightarrow> ms option" where
  "evaluateHeartbeatHealth lastHeartbeat cfg now =
     (case lastHeartbeat of
        None \<Rightarrow> None
      | Some h \<Rightarrow> if hc_timeoutMs cfg < now - h then Some (now - h) else None)"

definition heartbeatStaleAt :: "ms \<Rightarrow> heartbeat_config \<Rightarrow> ms" where
  "heartbeatStaleAt lastHeartbeat cfg = lastHeartbeat + hc_timeoutMs cfg + 1"

definition heartbeatGraceEndsAt :: "ms \<Rightarrow> heartbeat_config \<Rightarrow> ms" where
  "heartbeatGraceEndsAt lastHeartbeat cfg =
     heartbeatStaleAt lastHeartbeat cfg + hc_reconnectGraceMs cfg"

section \<open>Boot deadlines\<close>

record connecting_result =
  cr_isTimedOut :: bool
  cr_elapsedMs :: ms

definition DEFAULT_CONNECTING_TIMEOUT_MS :: ms where
  "DEFAULT_CONNECTING_TIMEOUT_MS = CONNECT_WATCHDOG_MS"

definition evaluateConnectingTimeout ::
  "sandbox_status \<Rightarrow> ms \<Rightarrow> ms \<Rightarrow> ms \<Rightarrow> bool \<Rightarrow> connecting_result" where
  "evaluateConnectingTimeout status createdAt timeoutMs now hasConnected =
     (if (status \<noteq> Connecting \<and> status \<noteq> Spawning) \<or> hasConnected
      then \<lparr>cr_isTimedOut = False, cr_elapsedMs = 0\<rparr>
      else let elapsedMs = now - createdAt in
           \<lparr>cr_isTimedOut = timeoutMs \<le> elapsedMs, cr_elapsedMs = elapsedMs\<rparr>)"

definition DEFAULT_BOOT_BUDGET_MS :: ms where
  "DEFAULT_BOOT_BUDGET_MS = 30 * 60 * 1000"

record budget_result =
  br_isExceeded :: bool
  br_elapsedMs :: ms

definition evaluateBootBudget :: "sandbox_status \<Rightarrow> ms \<Rightarrow> ms \<Rightarrow> ms \<Rightarrow> budget_result" where
  "evaluateBootBudget status createdAt timeoutMs now =
     (if status \<noteq> Connecting \<and> status \<noteq> Spawning
      then \<lparr>br_isExceeded = False, br_elapsedMs = 0\<rparr>
      else let elapsedMs = now - createdAt in
           \<lparr>br_isExceeded = timeoutMs \<le> elapsedMs, br_elapsedMs = elapsedMs\<rparr>)"

section \<open>Warming and execution\<close>

record warm_state =
  ws_hasActiveWebSocket :: bool
  ws_status :: "sandbox_status option"
  ws_isSpawningInMemory :: bool

datatype warm_action = WarmSpawn | WarmSkip string

definition evaluateWarmDecision :: "warm_state \<Rightarrow> warm_action" where
  "evaluateWarmDecision st =
     (if ws_hasActiveWebSocket st then WarmSkip ''sandbox already connected''
      else if ws_isSpawningInMemory st then WarmSkip ''already spawning''
      else if ws_status st = Some Spawning \<or> ws_status st = Some Connecting
      then WarmSkip (''sandbox status is '' @ sandbox_status_text (the (ws_status st)))
      else WarmSpawn)"

record execution_result =
  er_isTimedOut :: bool
  er_elapsedMs :: ms

definition evaluateExecutionTimeout :: "ms \<Rightarrow> ms \<Rightarrow> ms \<Rightarrow> execution_result" where
  "evaluateExecutionTimeout startedAt timeoutMs now =
     (let elapsedMs = now - startedAt in
      \<lparr>er_isTimedOut = timeoutMs \<le> elapsedMs, er_elapsedMs = elapsedMs\<rparr>)"

section \<open>What the decisions guarantee\<close>

text \<open>Unfolding bundle for the spawn decision's own case analysis.\<close>

lemmas spawn_decision_simps = evaluateSpawnDecision_def Let_def status_defs

text \<open>
  A launched generation is alive when its bridge is attached or has been heard from and
  nothing has declared it dead: replacing it would run two sandboxes for one session.
\<close>

definition generation_alive :: "sandbox_state \<Rightarrow> bool" where
  "generation_alive st \<longleftrightarrow>
     ss_status st \<noteq> Pending \<and> \<not> isDeadSandboxStatus (ss_status st)
     \<and> (ss_hasActiveWebSocket st \<or> ss_lastHeartbeat st \<noteq> None)"

lemma spawn_not_in_memory: "evaluateSpawnDecision st cfg now True pr = Skip ''spawn already in progress (in-memory flag)''"
  by (simp add: evaluateSpawnDecision_def)

lemma spawn_decision_launches:
  assumes "evaluateSpawnDecision st cfg now mem pr = Spawn"
  shows "\<not> mem"
    and "ss_status st \<in> {Spawning, Connecting} \<Longrightarrow>
           \<not> ss_hasActiveWebSocket st \<and> sc_spawningTimeoutMs cfg \<le> now - ss_createdAt st"
    and "ss_status st = Ready \<Longrightarrow> \<not> ss_hasActiveWebSocket st"
    and "\<lbrakk>\<not> ss_hasActiveWebSocket st; ss_lastHeartbeat st \<noteq> None; ss_status st \<noteq> Pending\<rbrakk>
           \<Longrightarrow> isDeadSandboxStatus (ss_status st)"
    and "isDeadSandboxStatus (ss_status st) \<Longrightarrow> \<not> truthy (ss_snapshotImageId st)"
    and "ss_status st \<notin> {Failed, Stopped} \<Longrightarrow> sc_cooldownMs cfg \<le> now - ss_createdAt st"
  using assms by (auto simp: spawn_decision_simps split: if_splits)

text \<open>
  C5. A fresh sandbox is never launched next to a live one: whenever the spawn decision is
  to spawn, no spawn is in flight and the session's generation is not alive. (A status of
  \<open>snapshotting\<close> or \<open>warming\<close> with an attached bridge is dispatched to or skipped by the
  callers before this decision is asked, so those two shapes are the hypothesis.)
\<close>

theorem spawn_never_beside_live_generation:
  assumes "evaluateSpawnDecision st cfg now mem pr = Spawn"
    and "ss_status st \<in> {Snapshotting, Warming} \<Longrightarrow> \<not> ss_hasActiveWebSocket st"
  shows "\<not> mem \<and> \<not> generation_alive st"
proof -
  note launch = spawn_decision_launches [OF assms(1)]
  have "\<not> generation_alive st"
    using launch assms(2)
    by (cases "ss_status st"; cases "ss_hasActiveWebSocket st"; cases "ss_lastHeartbeat st")
      (auto simp: generation_alive_def)
  with launch(1) show ?thesis by simp
qed

definition boot_state_example :: sandbox_state where
  "boot_state_example =
     \<lparr>ss_status = Connecting, ss_createdAt = 0, ss_providerObjectId = Some ''obj'',
      ss_snapshotImageId = None, ss_snapshotRuntimeVersion = None,
      ss_hasActiveWebSocket = False, ss_lastHeartbeat = None\<rparr>"

theorem spawn_never_beside_live_generation_witness:
  "evaluateSpawnDecision boot_state_example DEFAULT_SPAWN_CONFIG 240000 False True = Spawn
   \<and> \<not> generation_alive boot_state_example"
proof -
  have h: "evaluateSpawnDecision boot_state_example DEFAULT_SPAWN_CONFIG 240000 False True = Spawn"
    by (simp add: boot_state_example_def DEFAULT_SPAWN_CONFIG_def CONNECT_WATCHDOG_MS_def
        spawn_decision_simps)
  show ?thesis
    using h spawn_never_beside_live_generation [OF h] by (simp add: boot_state_example_def)
qed

text \<open>
  Retained state is never replaced by a clean sandbox: with a recorded snapshot and a
  dead sandbox, the decision restores that very snapshot, and only when its recorded
  runtime is at or above the compatibility floor; otherwise it holds, resumes the retained
  provider object in place, or skips because a launch is already in flight.
\<close>

theorem snapshot_never_substituted:
  assumes "ss_snapshotImageId st = Some img" and "img \<noteq> []"
    and "isDeadSandboxStatus (ss_status st)"
  shows "case evaluateSpawnDecision st cfg now mem pr of
           Restore img' v \<Rightarrow> \<not> mem \<and> img' = img \<and> ss_snapshotRuntimeVersion st = Some v
             \<and> (\<exists>n. parseRuntimeVersionNumber v = Some n \<and> MIN_COMPATIBLE_RUNTIME_VERSION \<le> n)
         | Hold _ \<Rightarrow> \<not> mem \<and> \<not> isSnapshotRuntimeCompatible (ss_snapshotRuntimeVersion st)
         | Resume obj \<Rightarrow> \<not> mem \<and> pr \<and> ss_providerObjectId st = Some obj \<and> ss_status st \<noteq> Failed
         | Skip _ \<Rightarrow> mem
         | Spawn \<Rightarrow> False
         | Wait _ \<Rightarrow> False
         | AwaitReconnect _ \<Rightarrow> False"
  using assms
  by (auto simp: spawn_decision_simps isSnapshotRuntimeCompatible_def
      split: if_splits option.splits elim: truthyE)

theorem snapshot_never_substituted_witness:
  "evaluateSpawnDecision
     \<lparr>ss_status = Stopped, ss_createdAt = 0, ss_providerObjectId = None,
      ss_snapshotImageId = Some ''img'', ss_snapshotRuntimeVersion = Some ''v62-x'',
      ss_hasActiveWebSocket = False, ss_lastHeartbeat = None\<rparr>
     DEFAULT_SPAWN_CONFIG 5 False True = Restore ''img'' ''v62-x''"
  (is "evaluateSpawnDecision ?st _ _ _ _ = _")
proof -
  have p: "parse_nat (takeWhile is_digit ''62-x'') = Some 62"
    by (simp add: parse_nat_def is_digit_def digit_value_def)
  have "\<not> (\<exists>obj. evaluateSpawnDecision ?st DEFAULT_SPAWN_CONFIG 5 False True = Resume obj)"
    by (auto simp: spawn_decision_simps split: if_splits)
  moreover have "isSnapshotRuntimeCompatible (Some ''v62-x'')"
    using p by (simp add: isSnapshotRuntimeCompatible_def parseRuntimeVersionNumber_def
        MIN_COMPATIBLE_RUNTIME_VERSION_def)
  ultimately show ?thesis
    using snapshot_never_substituted [where st = ?st and img = "''img''"
        and cfg = DEFAULT_SPAWN_CONFIG and now = 5 and mem = False and pr = True]
    by (auto split: spawn_action.splits)
qed

text \<open>
  The two readings of the connect watchdog agree, as the comment on
  \<open>CONNECT_WATCHDOG_MS\<close> demands: for a booting generation whose bridge never connected,
  a replacement may spawn exactly when the watchdog has timed the boot out, with the
  default configurations.
\<close>

theorem watchdog_and_staleness_agree:
  assumes "ss_status st \<in> {Spawning, Connecting}"
    and "ss_lastHeartbeat st = None" and "\<not> ss_hasActiveWebSocket st"
  shows "(evaluateSpawnDecision st DEFAULT_SPAWN_CONFIG now False pr = Spawn) \<longleftrightarrow>
         cr_isTimedOut (evaluateConnectingTimeout (ss_status st) (ss_createdAt st)
                          DEFAULT_CONNECTING_TIMEOUT_MS now (ss_lastHeartbeat st \<noteq> None))"
  using assms
  by (auto simp: spawn_decision_simps evaluateConnectingTimeout_def DEFAULT_SPAWN_CONFIG_def
      DEFAULT_CONNECTING_TIMEOUT_MS_def CONNECT_WATCHDOG_MS_def)

theorem watchdog_and_staleness_agree_witness:
  "(evaluateSpawnDecision boot_state_example DEFAULT_SPAWN_CONFIG 240000 False False = Spawn) \<longleftrightarrow>
   cr_isTimedOut (evaluateConnectingTimeout Connecting 0 DEFAULT_CONNECTING_TIMEOUT_MS 240000 False)"
  using watchdog_and_staleness_agree [where st = boot_state_example and now = 240000 and pr = False]
  by (simp add: boot_state_example_def)

lemma stale_heartbeat_iff:
  "evaluateHeartbeatHealth (Some h) cfg now = Some age \<longleftrightarrow>
     heartbeatStaleAt h cfg \<le> now \<and> age = now - h"
  by (auto simp: evaluateHeartbeatHealth_def heartbeatStaleAt_def)

lemma fresh_heartbeat_iff:
  "evaluateHeartbeatHealth (Some h) cfg now = None \<longleftrightarrow> now < heartbeatStaleAt h cfg"
  by (auto simp: evaluateHeartbeatHealth_def heartbeatStaleAt_def)

lemma heartbeat_none [simp]: "evaluateHeartbeatHealth None cfg now = None"
  by (simp add: evaluateHeartbeatHealth_def)

lemma unattended_window_capped:
  assumes "ip_unattendedTimeoutMs policy \<le> ic_timeoutMs policy"
  shows "ic_timeoutMs (inactivityConfigFor policy src) \<le> ic_timeoutMs policy"
  using assms
  by (auto simp: inactivityConfigFor_def Let_def inactivity_config.truncate_def
      split: option.splits)

lemma inactivity_schedule_bound:
  assumes "evaluateInactivityTimeout st cfg now = Schedule n"
  shows "ic_minCheckIntervalMs cfg \<le> n"
  using assms
  by (auto simp: evaluateInactivityTimeout_def Let_def split: if_splits option.splits)

lemma inactivity_timeout_iff:
  "evaluateInactivityTimeout st cfg now = InactivityTimeout idle \<longleftrightarrow>
     is_status st = Ready \<and> is_connectedClientCount st = 0
     \<and> (\<exists>a. is_lastActivity st = Some a \<and> idle = now - a \<and> ic_timeoutMs cfg \<le> idle)"
  by (auto simp: evaluateInactivityTimeout_def Let_def split: option.splits)

end
