(* ===== verification/Sandbox_Row.thy ===== *)
theory Sandbox_Row
  imports Session_Types
begin

text \<open>
  The sandbox table of one session (\<open>session/sandbox-repository.ts\<close>): every statement the
  repository runs, over the list of the table's rows. All but one of them address
  \<open>id = (SELECT id FROM sandbox LIMIT 1)\<close>, the first row. The status column holds one of the
  nine names (every writer passes one), so it is an enumeration here and \<open>coerceSandboxStatus\<close>
  is the identity on it (\<open>coerce_status_text\<close>).
\<close>

section \<open>The row\<close>

datatype git_sync_status = GitPending | GitInProgress | GitCompleted | GitFailed

record sandbox_row =
  sb_id :: string
  sb_modal_sandbox_id :: "string option"
  sb_modal_object_id :: "string option"
  sb_snapshot_image_id :: "string option"
  sb_snapshot_runtime_version :: "string option"
  sb_runtime_version :: "string option"
  sb_auth_token :: "string option"
  sb_auth_token_hash :: "string option"
  sb_status :: sandbox_status
  sb_git_sync_status :: git_sync_status
  sb_last_heartbeat :: "ms option"
  sb_last_activity :: "ms option"
  sb_last_spawn_error :: "string option"
  sb_last_spawn_error_at :: "ms option"
  sb_code_server_url :: "string option"
  sb_code_server_password :: "string option"
  sb_vnc_url :: "string option"
  sb_vnc_password :: "string option"
  sb_tunnel_urls :: "string option"
  sb_ttyd_url :: "string option"
  sb_ttyd_token :: "string option"
  sb_active_socket_id :: "string option"
  sb_boot_phase :: "string option"
  sb_boot_seq :: "int option"
  sb_fenced :: bool
  sb_startup_rejected :: bool
  sb_created_at :: ms
  sb_spawn_failure_count :: "nat option"
  sb_last_spawn_failure :: "ms option"

type_synonym sandbox_table = "sandbox_row list"

record generation =
  g_sandboxId :: "string option"
  g_createdAt :: ms

datatype access_kind = CodeServer | Vnc | Ttyd

text \<open>An omitted artifact is \<open>None\<close>, an explicit \<open>null\<close> is \<open>Some None\<close>.\<close>

record provider_access =
  pa_providerObjectId :: "string option"
  pa_codeServer :: "(string \<times> string) option option"
  pa_vnc :: "(string \<times> string) option option"
  pa_ttyd :: "(string option \<times> string) option option"
  pa_tunnelUrls :: "string option option"

section \<open>Statements\<close>

definition getSandbox :: "sandbox_table \<Rightarrow> sandbox_row option" where
  "getSandbox t = (case t of [] \<Rightarrow> None | r # _ \<Rightarrow> Some r)"

text \<open>\<open>UPDATE sandbox SET f WHERE id = (SELECT id FROM sandbox LIMIT 1) AND p\<close>, and whether it
  wrote a row.\<close>

fun update_first ::
  "(sandbox_row \<Rightarrow> bool) \<Rightarrow> (sandbox_row \<Rightarrow> sandbox_row) \<Rightarrow> sandbox_table \<Rightarrow> sandbox_table \<times> bool" where
  "update_first p f [] = ([], False)"
| "update_first p f (r # rs) = (if p r then (f r # rs, True) else (r # rs, False))"

definition set_first :: "(sandbox_row \<Rightarrow> sandbox_row) \<Rightarrow> sandbox_table \<Rightarrow> sandbox_table" where
  "set_first f t = fst (update_first (\<lambda>_. True) f t)"

definition of_generation :: "generation \<Rightarrow> sandbox_row \<Rightarrow> bool" where
  "of_generation g r \<longleftrightarrow> sb_modal_sandbox_id r = g_sandboxId g \<and> sb_created_at r = g_createdAt g"

definition createSandbox ::
  "string \<Rightarrow> sandbox_status \<Rightarrow> git_sync_status \<Rightarrow> ms \<Rightarrow> sandbox_table \<Rightarrow> sandbox_table option" where
  "createSandbox i st gs created t =
     (if i \<in> set (map sb_id t) then None
      else Some (t @ [\<lparr>sb_id = i, sb_modal_sandbox_id = None, sb_modal_object_id = None,
        sb_snapshot_image_id = None, sb_snapshot_runtime_version = None,
        sb_runtime_version = None, sb_auth_token = None, sb_auth_token_hash = None,
        sb_status = st, sb_git_sync_status = gs, sb_last_heartbeat = None,
        sb_last_activity = None, sb_last_spawn_error = None, sb_last_spawn_error_at = None,
        sb_code_server_url = None, sb_code_server_password = None, sb_vnc_url = None,
        sb_vnc_password = None, sb_tunnel_urls = None, sb_ttyd_url = None, sb_ttyd_token = None,
        sb_active_socket_id = None, sb_boot_phase = None, sb_boot_seq = None,
        sb_fenced = False, sb_startup_rejected = False, sb_created_at = created,
        sb_spawn_failure_count = Some 0, sb_last_spawn_failure = None\<rparr>]))"

definition updateSandboxStatus :: "sandbox_status \<Rightarrow> sandbox_table \<Rightarrow> sandbox_table" where
  "updateSandboxStatus s = set_first (\<lambda>r. r\<lparr>sb_status := s\<rparr>)"

definition transitionSandboxStatus ::
  "generation \<Rightarrow> sandbox_status \<Rightarrow> sandbox_status \<Rightarrow> sandbox_table \<Rightarrow> sandbox_table \<times> bool" where
  "transitionSandboxStatus g source target =
     update_first (\<lambda>r. of_generation g r \<and> sb_status r = source) (\<lambda>r. r\<lparr>sb_status := target\<rparr>)"

datatype rejection = RFailed | RRetained | RSuperseded

definition revoke_startup :: "string option \<Rightarrow> sandbox_row \<Rightarrow> sandbox_row" where
  "revoke_startup obj r = r\<lparr>sb_modal_object_id := obj, sb_fenced := True, sb_startup_rejected := True,
     sb_auth_token_hash := Some [], sb_auth_token := None, sb_active_socket_id := Some []\<rparr>"

definition rejectProviderStartup ::
  "generation \<Rightarrow> string option \<Rightarrow> sandbox_table \<Rightarrow> sandbox_table \<times> rejection" where
  "rejectProviderStartup g obj t =
     (let (t1, failed) =
        update_first (\<lambda>r. of_generation g r \<and> sb_status r \<in> {Spawning, Connecting, Ready})
          (\<lambda>r. (revoke_startup obj r)\<lparr>sb_status := Failed\<rparr>) t in
      if failed then (t1, RFailed)
      else let (t2, retained) = update_first (of_generation g) (revoke_startup obj) t1 in
           (t2, if retained then RRetained else RSuperseded))"

definition startup_status :: "sandbox_status \<Rightarrow> sandbox_status" where
  "startup_status s = (if s = Spawning then Connecting else s)"

definition commitProviderStartup ::
  "generation \<Rightarrow> string option \<Rightarrow> bool \<Rightarrow> sandbox_table \<Rightarrow> sandbox_table \<times> sandbox_status option" where
  "commitProviderStartup g obj allowFailedSelfHeal t =
     (let (t', hit) =
        update_first
          (\<lambda>r. of_generation g r \<and> \<not> sb_fenced r
             \<and> (sb_status r \<in> {Spawning, Connecting, Ready}
                \<or> allowFailedSelfHeal \<and> sb_status r = Failed))
          (\<lambda>r. r\<lparr>sb_modal_object_id := or_else obj (sb_modal_object_id r),
                 sb_status := startup_status (sb_status r)\<rparr>) t in
      (t', if hit then map_option sb_status (getSandbox t') else None))"

definition markSandboxReady :: "generation \<Rightarrow> sandbox_table \<Rightarrow> sandbox_table \<times> bool" where
  "markSandboxReady g =
     update_first
       (\<lambda>r. of_generation g r \<and> sb_status r \<notin> {Ready, Stopped, Stale} \<and> \<not> sb_fenced r)
       (\<lambda>r. r\<lparr>sb_status := Ready, sb_boot_phase := None, sb_boot_seq := None\<rparr>)"

definition recordBootProgress :: "string \<Rightarrow> int \<Rightarrow> sandbox_table \<Rightarrow> sandbox_table \<times> bool" where
  "recordBootProgress phase bootSeq =
     update_first
       (\<lambda>r. sb_status r \<notin> {Ready, Snapshotting, Stopped, Stale}
          \<and> (case sb_boot_seq r of None \<Rightarrow> True | Some b \<Rightarrow> b < bootSeq))
       (\<lambda>r. r\<lparr>sb_boot_phase := Some phase, sb_boot_seq := Some bootSeq\<rparr>)"

definition fenceSandboxGeneration :: "sandbox_table \<Rightarrow> sandbox_table" where
  "fenceSandboxGeneration =
     set_first (\<lambda>r. r\<lparr>sb_auth_token_hash := Some [], sb_auth_token := None,
       sb_active_socket_id := Some [], sb_fenced := True\<rparr>)"

definition updateSandboxForSpawn ::
  "sandbox_status \<Rightarrow> ms \<Rightarrow> string \<Rightarrow> bool \<Rightarrow> sandbox_table \<Rightarrow> sandbox_table" where
  "updateSandboxForSpawn st created sid preserveProviderObjectId =
     set_first (\<lambda>r. r\<lparr>sb_status := st, sb_created_at := created, sb_last_heartbeat := None,
       sb_auth_token_hash := Some [], sb_auth_token := None, sb_modal_sandbox_id := Some sid,
       sb_modal_object_id := (if preserveProviderObjectId then sb_modal_object_id r else None),
       sb_code_server_url := None, sb_code_server_password := None, sb_vnc_url := None,
       sb_vnc_password := None, sb_tunnel_urls := None, sb_ttyd_url := None,
       sb_ttyd_token := None, sb_runtime_version := None, sb_active_socket_id := Some [],
       sb_boot_phase := None, sb_boot_seq := None, sb_fenced := False,
       sb_startup_rejected := False\<rparr>)"

definition setActiveSocketId :: "string \<Rightarrow> sandbox_table \<Rightarrow> sandbox_table" where
  "setActiveSocketId s = set_first (\<lambda>r. r\<lparr>sb_active_socket_id := Some s\<rparr>)"

definition revokeActiveSocketId :: "sandbox_table \<Rightarrow> sandbox_table" where
  "revokeActiveSocketId = set_first (\<lambda>r. r\<lparr>sb_active_socket_id := Some []\<rparr>)"

text \<open>The one statement with no \<open>LIMIT 1\<close>: it names the sandbox id it publishes for.\<close>

definition updateSandboxAuthTokenHash ::
  "string \<Rightarrow> string \<Rightarrow> sandbox_table \<Rightarrow> sandbox_table \<times> bool" where
  "updateSandboxAuthTokenHash sid hash t =
     (let p = (\<lambda>r. sb_modal_sandbox_id r = Some sid \<and> sb_status r = Spawning) in
      (sql_update p (\<lambda>r. r\<lparr>sb_auth_token_hash := Some hash\<rparr>) t, 0 < sql_count p t))"

definition updateSandboxForResume :: "sandbox_status \<Rightarrow> ms \<Rightarrow> sandbox_table \<Rightarrow> sandbox_table" where
  "updateSandboxForResume st created =
     set_first (\<lambda>r. r\<lparr>sb_status := st, sb_created_at := created, sb_last_heartbeat := None,
       sb_boot_phase := None, sb_boot_seq := None, sb_fenced := False,
       sb_startup_rejected := False\<rparr>)"

text \<open>The assignments \<open>commitProviderAccess\<close> collects, with \<open>enc\<close> the at-rest encryption.\<close>

definition access_assignments ::
  "(string \<Rightarrow> string) \<Rightarrow> provider_access \<Rightarrow> sandbox_row \<Rightarrow> sandbox_row" where
  "access_assignments enc a r =
     (let r0 = r\<lparr>sb_modal_object_id := or_else (pa_providerObjectId a) (sb_modal_object_id r)\<rparr>;
          r1 = (case pa_codeServer a of None \<Rightarrow> r0
                | Some c \<Rightarrow> r0\<lparr>sb_code_server_url := map_option fst c,
                               sb_code_server_password := map_option (enc \<circ> snd) c\<rparr>);
          r2 = (case pa_vnc a of None \<Rightarrow> r1
                | Some c \<Rightarrow> r1\<lparr>sb_vnc_url := map_option fst c,
                               sb_vnc_password := map_option (enc \<circ> snd) c\<rparr>);
          r3 = (case pa_ttyd a of None \<Rightarrow> r2
                | Some c \<Rightarrow> r2\<lparr>sb_ttyd_url := (case c of None \<Rightarrow> None | Some (u, _) \<Rightarrow> u),
                               sb_ttyd_token := map_option (enc \<circ> snd) c\<rparr>) in
      (case pa_tunnelUrls a of None \<Rightarrow> r3 | Some u \<Rightarrow> r3\<lparr>sb_tunnel_urls := u\<rparr>))"

definition commitProviderAccess ::
  "(string \<Rightarrow> string) \<Rightarrow> generation \<Rightarrow> provider_access \<Rightarrow> string option \<Rightarrow> bool \<Rightarrow> sandbox_table
     \<Rightarrow> sandbox_table \<times> bool" where
  "commitProviderAccess enc g a expected allowFailedSelfHeal =
     update_first
       (\<lambda>r. of_generation g r
          \<and> (sb_status r \<in> {Connecting, Ready} \<or> expected \<noteq> None \<and> sb_status r = Spawning
             \<or> allowFailedSelfHeal \<and> sb_status r = Failed)
          \<and> \<not> sb_fenced r \<and> (expected = None \<or> sb_modal_object_id r = expected))
       (access_assignments enc a)"

definition updateSandboxModalObjectId :: "string option \<Rightarrow> sandbox_table \<Rightarrow> sandbox_table" where
  "updateSandboxModalObjectId obj = set_first (\<lambda>r. r\<lparr>sb_modal_object_id := obj\<rparr>)"

definition recordSandboxSnapshot ::
  "string option \<Rightarrow> string \<Rightarrow> string option \<Rightarrow> sandbox_table \<Rightarrow> sandbox_table \<times> bool" where
  "recordSandboxSnapshot sid img version =
     update_first (\<lambda>r. sb_modal_sandbox_id r = sid)
       (\<lambda>r. r\<lparr>sb_snapshot_image_id := Some img, sb_snapshot_runtime_version := version\<rparr>)"

definition discardSandboxState :: "generation \<Rightarrow> sandbox_table \<Rightarrow> sandbox_table \<times> bool" where
  "discardSandboxState g =
     update_first (of_generation g)
       (\<lambda>r. r\<lparr>sb_status := Stopped, sb_snapshot_image_id := None,
              sb_snapshot_runtime_version := None, sb_modal_object_id := None\<rparr>)"

definition updateSandboxRuntimeVersion :: "string option \<Rightarrow> sandbox_table \<Rightarrow> sandbox_table" where
  "updateSandboxRuntimeVersion v = set_first (\<lambda>r. r\<lparr>sb_runtime_version := v\<rparr>)"

definition recordReportedSandboxRuntimeVersion ::
  "string option \<Rightarrow> sandbox_table \<Rightarrow> sandbox_table" where
  "recordReportedSandboxRuntimeVersion v t =
     fst (update_first (\<lambda>r. sb_runtime_version r = None) (\<lambda>r. r\<lparr>sb_runtime_version := v\<rparr>) t)"

definition updateSandboxHeartbeat :: "ms \<Rightarrow> sandbox_table \<Rightarrow> sandbox_table" where
  "updateSandboxHeartbeat ts = set_first (\<lambda>r. r\<lparr>sb_last_heartbeat := Some ts\<rparr>)"

definition updateSandboxLastActivity :: "ms \<Rightarrow> sandbox_table \<Rightarrow> sandbox_table" where
  "updateSandboxLastActivity ts = set_first (\<lambda>r. r\<lparr>sb_last_activity := Some ts\<rparr>)"

definition updateSandboxGitSyncStatus :: "git_sync_status \<Rightarrow> sandbox_table \<Rightarrow> sandbox_table" where
  "updateSandboxGitSyncStatus s = set_first (\<lambda>r. r\<lparr>sb_git_sync_status := s\<rparr>)"

definition setLastSpawnError ::
  "string option \<Rightarrow> ms option \<Rightarrow> sandbox_table \<Rightarrow> sandbox_table" where
  "setLastSpawnError e ts =
     set_first (\<lambda>r. r\<lparr>sb_last_spawn_error := e, sb_last_spawn_error_at := ts\<rparr>)"

fun access_secret :: "access_kind \<Rightarrow> sandbox_row \<Rightarrow> string option" where
  "access_secret CodeServer r = sb_code_server_password r"
| "access_secret Vnc r = sb_vnc_password r"
| "access_secret Ttyd r = sb_ttyd_token r"

text \<open>\<open>dec\<close> is \<open>decryptStoredAccessValue\<close>.\<close>

definition getSandboxAccessSecret ::
  "(string option \<Rightarrow> string option) \<Rightarrow> access_kind \<Rightarrow> sandbox_table \<Rightarrow> string option" where
  "getSandboxAccessSecret dec k t =
     dec (case getSandbox t of None \<Rightarrow> None | Some r \<Rightarrow> access_secret k r)"

fun without_url :: "access_kind \<Rightarrow> sandbox_row \<Rightarrow> sandbox_row" where
  "without_url CodeServer r = r\<lparr>sb_code_server_url := None\<rparr>"
| "without_url Vnc r = r\<lparr>sb_vnc_url := None\<rparr>"
| "without_url Ttyd r = r\<lparr>sb_ttyd_url := None\<rparr>"

fun without_secret :: "access_kind \<Rightarrow> sandbox_row \<Rightarrow> sandbox_row" where
  "without_secret CodeServer r = r\<lparr>sb_code_server_password := None\<rparr>"
| "without_secret Vnc r = r\<lparr>sb_vnc_password := None\<rparr>"
| "without_secret Ttyd r = r\<lparr>sb_ttyd_token := None\<rparr>"

definition clearSandboxAccess :: "access_kind \<Rightarrow> sandbox_table \<Rightarrow> sandbox_table" where
  "clearSandboxAccess k = set_first (\<lambda>r. without_secret k (without_url k r))"

definition clearSandboxAccessUrl :: "access_kind \<Rightarrow> sandbox_table \<Rightarrow> sandbox_table" where
  "clearSandboxAccessUrl k = set_first (without_url k)"

definition clearSandboxTunnelUrls :: "sandbox_table \<Rightarrow> sandbox_table" where
  "clearSandboxTunnelUrls = set_first (\<lambda>r. r\<lparr>sb_tunnel_urls := None\<rparr>)"

definition resetCircuitBreaker :: "sandbox_table \<Rightarrow> sandbox_table" where
  "resetCircuitBreaker = set_first (\<lambda>r. r\<lparr>sb_spawn_failure_count := Some 0\<rparr>)"

definition incrementCircuitBreakerFailure :: "ms \<Rightarrow> sandbox_table \<Rightarrow> sandbox_table" where
  "incrementCircuitBreakerFailure ts =
     set_first (\<lambda>r. r\<lparr>sb_spawn_failure_count := Some (nullish (sb_spawn_failure_count r) 0 + 1),
                      sb_last_spawn_failure := Some ts\<rparr>)"


lemmas repository_defs =
  set_first_def updateSandboxStatus_def transitionSandboxStatus_def rejectProviderStartup_def
  commitProviderStartup_def markSandboxReady_def recordBootProgress_def
  fenceSandboxGeneration_def updateSandboxForSpawn_def setActiveSocketId_def
  revokeActiveSocketId_def updateSandboxForResume_def commitProviderAccess_def
  updateSandboxModalObjectId_def recordSandboxSnapshot_def discardSandboxState_def
  updateSandboxRuntimeVersion_def recordReportedSandboxRuntimeVersion_def
  updateSandboxHeartbeat_def updateSandboxLastActivity_def updateSandboxGitSyncStatus_def
  setLastSpawnError_def clearSandboxAccess_def clearSandboxAccessUrl_def
  clearSandboxTunnelUrls_def resetCircuitBreaker_def incrementCircuitBreakerFailure_def

lemma getSandbox_simps [simp]: "getSandbox [] = None" "getSandbox (r # rs) = Some r"
  by (simp_all add: getSandbox_def)

lemma set_first_simps [simp]: "set_first f [] = []" "set_first f (r # rs) = f r # rs"
  by (simp_all add: set_first_def)

lemma access_assignments_keep [simp]:
  "sb_status (access_assignments enc a r) = sb_status r"
  "sb_fenced (access_assignments enc a r) = sb_fenced r"
  "sb_auth_token_hash (access_assignments enc a r) = sb_auth_token_hash r"
  "sb_modal_sandbox_id (access_assignments enc a r) = sb_modal_sandbox_id r"
  "sb_created_at (access_assignments enc a r) = sb_created_at r"
  "sb_runtime_version (access_assignments enc a r) = sb_runtime_version r"
  by (auto simp: access_assignments_def Let_def split: option.splits prod.splits)

lemma without_keep [simp]:
  "sb_fenced (without_url k r) = sb_fenced r" "sb_fenced (without_secret k r) = sb_fenced r"
  "sb_status (without_url k r) = sb_status r" "sb_status (without_secret k r) = sb_status r"
  "sb_modal_sandbox_id (without_url k r) = sb_modal_sandbox_id r"
  "sb_modal_sandbox_id (without_secret k r) = sb_modal_sandbox_id r"
  "sb_created_at (without_url k r) = sb_created_at r"
  "sb_created_at (without_secret k r) = sb_created_at r"
  "sb_last_heartbeat (without_url k r) = sb_last_heartbeat r"
  "sb_last_heartbeat (without_secret k r) = sb_last_heartbeat r"
  "sb_spawn_failure_count (without_url k r) = sb_spawn_failure_count r"
  "sb_spawn_failure_count (without_secret k r) = sb_spawn_failure_count r"
  "sb_last_spawn_failure (without_url k r) = sb_last_spawn_failure r"
  "sb_last_spawn_failure (without_secret k r) = sb_last_spawn_failure r"
  by (cases k; simp)+

section \<open>Generations\<close>

text \<open>The session's generation: the first row's logical id and its creation stamp.\<close>

definition current_generation :: "sandbox_table \<Rightarrow> generation option" where
  "current_generation t =
     map_option (\<lambda>r. \<lparr>g_sandboxId = sb_modal_sandbox_id r, g_createdAt = sb_created_at r\<rparr>)
       (getSandbox t)"

lemma of_generation_current: "of_generation g r \<longleftrightarrow> current_generation (r # rs) = Some g"
  by (cases g) (auto simp: of_generation_def current_generation_def)

text \<open>
  A report or a write that names a superseded generation changes nothing: whenever the
  row no longer carries the generation it names, every generation-scoped statement leaves the
  whole table as it is and tells its caller so.
\<close>

theorem superseded_generation_writes_nothing:
  assumes "current_generation t \<noteq> Some g"
  shows "transitionSandboxStatus g source target t = (t, False)
       \<and> rejectProviderStartup g obj t = (t, RSuperseded)
       \<and> commitProviderStartup g obj heal t = (t, None)
       \<and> markSandboxReady g t = (t, False)
       \<and> commitProviderAccess enc g access expected heal t = (t, False)
       \<and> discardSandboxState g t = (t, False)"
proof (cases t)
  case Nil
  then show ?thesis by (simp add: repository_defs)
next
  case (Cons r rs)
  with assms have "\<not> of_generation g r" by (simp add: of_generation_current [of g r rs])
  with Cons show ?thesis by (simp add: repository_defs)
qed

definition booting_row :: sandbox_row where
  "booting_row = \<lparr>sb_id = ''s'', sb_modal_sandbox_id = Some ''sb-2'', sb_modal_object_id = None,
     sb_snapshot_image_id = None, sb_snapshot_runtime_version = None,
     sb_runtime_version = None, sb_auth_token = None, sb_auth_token_hash = Some ''h'',
     sb_status = Connecting, sb_git_sync_status = GitPending, sb_last_heartbeat = None,
     sb_last_activity = None, sb_last_spawn_error = None, sb_last_spawn_error_at = None,
     sb_code_server_url = None, sb_code_server_password = None, sb_vnc_url = None,
     sb_vnc_password = None, sb_tunnel_urls = None, sb_ttyd_url = None, sb_ttyd_token = None,
     sb_active_socket_id = None, sb_boot_phase = None, sb_boot_seq = None,
     sb_fenced = False, sb_startup_rejected = False, sb_created_at = 20,
     sb_spawn_failure_count = Some 0, sb_last_spawn_failure = None\<rparr>"

theorem superseded_generation_writes_nothing_witness:
  "fst (markSandboxReady \<lparr>g_sandboxId = Some ''sb-2'', g_createdAt = 10\<rparr> [booting_row]) = [booting_row]
   \<and> snd (markSandboxReady \<lparr>g_sandboxId = Some ''sb-2'', g_createdAt = 20\<rparr> [booting_row])"
proof -
  have "current_generation [booting_row] \<noteq> Some \<lparr>g_sandboxId = Some ''sb-2'', g_createdAt = 10\<rparr>"
    by (simp add: current_generation_def booting_row_def)
  from superseded_generation_writes_nothing [OF this]
  have "markSandboxReady \<lparr>g_sandboxId = Some ''sb-2'', g_createdAt = 10\<rparr> [booting_row]
    = ([booting_row], False)" by blast
  then show ?thesis
    by (simp add: markSandboxReady_def booting_row_def of_generation_def)
qed

section \<open>Fenced generations\<close>

text \<open>What a runtime, a bridge or a provider call that outlived its generation's boot can
  still deliver to the row.\<close>

datatype late_report =
    LateReady generation
  | LateStartup generation "string option" bool
  | LateAccess provider_access generation "string option" bool
  | LateBootPhase string int
  | LateHeartbeat ms
  | LateRuntimeVersion "string option"
  | LateFailure generation sandbox_status

fun deliver :: "(string \<Rightarrow> string) \<Rightarrow> late_report \<Rightarrow> sandbox_table \<Rightarrow> sandbox_table" where
  "deliver enc (LateReady g) t = fst (markSandboxReady g t)"
| "deliver enc (LateStartup g obj heal) t = fst (commitProviderStartup g obj heal t)"
| "deliver enc (LateAccess a g expected heal) t = fst (commitProviderAccess enc g a expected heal t)"
| "deliver enc (LateBootPhase phase n) t = fst (recordBootProgress phase n t)"
| "deliver enc (LateHeartbeat ts) t = updateSandboxHeartbeat ts t"
| "deliver enc (LateRuntimeVersion v) t = recordReportedSandboxRuntimeVersion v t"
| "deliver enc (LateFailure g source) t = fst (transitionSandboxStatus g source Failed t)"

lemma deliver_fenced:
  assumes "sb_fenced r"
  shows "\<exists>r'. deliver enc l (r # rs) = r' # rs \<and> sb_fenced r'
    \<and> sb_auth_token_hash r' = sb_auth_token_hash r
    \<and> sb_active_socket_id r' = sb_active_socket_id r
    \<and> sb_modal_object_id r' = sb_modal_object_id r
    \<and> sb_status r' \<in> {sb_status r, Failed}"
  using assms by (cases l) (auto simp: repository_defs)

text \<open>
  A fence holds: once a generation is fenced, no sequence of late reports of any
  generation (a \<open>ready\<close> event, a provider call that returns with a handle or with access, boot
  progress, heartbeats, a failed attempt) lifts the fence, restores a credential, a bridge
  socket or a provider handle, or moves the status anywhere but to \<open>failed\<close>.
\<close>

theorem fence_outlives_late_reports:
  assumes "getSandbox t = Some r" and "fenceSandboxGeneration t = t0"
  shows "\<exists>r'. getSandbox (foldl (\<lambda>t l. deliver enc l t) t0 reports) = Some r' \<and> sb_fenced r'
    \<and> sb_auth_token_hash r' = Some [] \<and> sb_active_socket_id r' = Some []
    \<and> sb_modal_object_id r' = sb_modal_object_id r \<and> sb_status r' \<in> {sb_status r, Failed}"
proof -
  have keep: "\<exists>r' rs'. foldl (\<lambda>t l. deliver enc l t) (q # rs) reports = r' # rs' \<and> sb_fenced r'
      \<and> sb_auth_token_hash r' = sb_auth_token_hash q
      \<and> sb_active_socket_id r' = sb_active_socket_id q
      \<and> sb_modal_object_id r' = sb_modal_object_id q \<and> sb_status r' \<in> {sb_status q, Failed}"
    if "sb_fenced q" for q rs
    using that
  proof (induction reports arbitrary: q rs)
    case (Cons l ls)
    from deliver_fenced [OF Cons.prems, of enc l rs] obtain q' where
      q': "deliver enc l (q # rs) = q' # rs" "sb_fenced q'"
        "sb_auth_token_hash q' = sb_auth_token_hash q"
        "sb_active_socket_id q' = sb_active_socket_id q"
        "sb_modal_object_id q' = sb_modal_object_id q" "sb_status q' \<in> {sb_status q, Failed}"
      by blast
    from Cons.IH [OF q'(2), of rs] q' show ?case by auto
  qed auto
  from assms obtain rs where t: "t = r # rs" by (cases t) auto
  let ?q = "r\<lparr>sb_auth_token_hash := Some [], sb_auth_token := None,
       sb_active_socket_id := Some [], sb_fenced := True\<rparr>"
  from assms(2) t have t0: "t0 = ?q # rs" by (simp add: fenceSandboxGeneration_def)
  from keep [of ?q rs] show ?thesis unfolding t0 by auto
qed

theorem fence_outlives_late_reports_witness:
  "sb_fenced (the (getSandbox (deliver id (LateReady \<lparr>g_sandboxId = Some ''sb-2'', g_createdAt = 20\<rparr>)
     (fenceSandboxGeneration [booting_row]))))"
proof -
  have "getSandbox [booting_row] = Some booting_row" by simp
  from fence_outlives_late_reports [OF this refl, where enc = id
      and reports = "[LateReady \<lparr>g_sandboxId = Some ''sb-2'', g_createdAt = 20\<rparr>]"]
  show ?thesis by auto
qed

section \<open>Boot progress and the runtime version\<close>

text \<open>The phases a run of boot reports gets recorded, in order of arrival.\<close>

fun accepted_phases :: "(string \<times> int) list \<Rightarrow> sandbox_table \<Rightarrow> (string \<times> int) list" where
  "accepted_phases [] t = []"
| "accepted_phases ((phase, n) # reports) t =
     (let (t', recorded) = recordBootProgress phase n t in
      if recorded then (phase, n) # accepted_phases reports t' else accepted_phases reports t')"

definition with_phase :: "string \<Rightarrow> int \<Rightarrow> sandbox_row \<Rightarrow> sandbox_row" where
  "with_phase phase n r = r\<lparr>sb_boot_phase := Some phase, sb_boot_seq := Some n\<rparr>"

lemma with_phase_seq [simp]: "sb_boot_seq (with_phase phase n r) = Some n"
  by (simp add: with_phase_def)

lemma recordBootProgress_cases:
  obtains "recordBootProgress phase n t = (t, False)"
  | r rs where "t = r # rs" and "\<And>b. sb_boot_seq r = Some b \<Longrightarrow> b < n"
      and "recordBootProgress phase n t = (with_phase phase n r # rs, True)"
proof (cases "\<exists>r rs. t = r # rs \<and> sb_status r \<notin> {Ready, Snapshotting, Stopped, Stale}
    \<and> (case sb_boot_seq r of None \<Rightarrow> True | Some b \<Rightarrow> b < n)")
  case True
  then obtain r rs where t: "t = r # rs" "sb_status r \<notin> {Ready, Snapshotting, Stopped, Stale}"
    "case sb_boot_seq r of None \<Rightarrow> True | Some b \<Rightarrow> b < n" by blast
  then have "recordBootProgress phase n t = (with_phase phase n r # rs, True)"
    by (simp add: recordBootProgress_def with_phase_def)
  with t show ?thesis by (intro that(2)) auto
next
  case False
  then have "recordBootProgress phase n t = (t, False)"
    by (cases t) (auto simp: recordBootProgress_def)
  then show ?thesis by (rule that(1))
qed

lemma accepted_phases_above:
  assumes "sb_boot_seq r = Some b"
  shows "\<forall>x \<in> set (accepted_phases reports (r # rs)). b < snd x"
  using assms
proof (induction reports arbitrary: r b)
  case (Cons pn reports)
  obtain phase n where pn: "pn = (phase, n)" by (cases pn)
  show ?case
  proof (rule recordBootProgress_cases [of phase n "r # rs"])
    assume "recordBootProgress phase n (r # rs) = (r # rs, False)"
    with pn Cons.IH [OF Cons.prems] show ?thesis by simp
  next
    fix r' rs'
    assume eq: "r # rs = r' # rs'" and lt: "\<And>b. sb_boot_seq r' = Some b \<Longrightarrow> b < n"
      and step: "recordBootProgress phase n (r # rs) = (with_phase phase n r' # rs', True)"
    from eq lt Cons.prems have "b < n" by simp
    with Cons.IH [of "with_phase phase n r'" n] step eq pn show ?thesis by fastforce
  qed
qed simp

text \<open>
  Boot progress is recorded in order and once: whatever a reconnecting bridge resends and
  in whatever order reports arrive, the phases the row records carry strictly increasing
  sequence numbers.
\<close>

theorem boot_progress_strictly_increasing:
  "sorted_wrt (\<lambda>x y. snd x < snd y) (accepted_phases reports t)"
proof (induction reports arbitrary: t)
  case (Cons pn reports)
  obtain phase n where pn: "pn = (phase, n)" by (cases pn)
  show ?case
  proof (rule recordBootProgress_cases [of phase n t])
    assume "recordBootProgress phase n t = (t, False)"
    with pn Cons.IH [of t] show ?thesis by simp
  next
    fix r rs
    assume step: "recordBootProgress phase n t = (with_phase phase n r # rs, True)"
    have "\<forall>x \<in> set (accepted_phases reports (with_phase phase n r # rs)). n < snd x"
      by (rule accepted_phases_above) simp
    with pn step Cons.IH [of "with_phase phase n r # rs"] show ?thesis by simp
  qed
qed simp

text \<open>
  The runtime version recorded for a restored sandbox is the snapshot's: once the control
  plane has stamped a version, no number of reports from the running sandbox replaces it,
  while on a row with nothing recorded the first non-null report is the one that stays.
\<close>

theorem restored_runtime_version_kept:
  assumes "getSandbox t = Some r"
  shows "map_option sb_runtime_version (getSandbox
           (foldl (\<lambda>t v. recordReportedSandboxRuntimeVersion v t)
              (updateSandboxRuntimeVersion (Some v0) t) reports)) = Some (Some v0)
    \<and> (sb_runtime_version r = None \<longrightarrow>
         map_option sb_runtime_version (getSandbox
           (foldl (\<lambda>t v. recordReportedSandboxRuntimeVersion v t) t reports))
         = Some (case dropWhile (\<lambda>v. v = None) reports of [] \<Rightarrow> None | v # _ \<Rightarrow> v))"
proof -
  have stays: "map_option sb_runtime_version (getSandbox
        (foldl (\<lambda>t v. recordReportedSandboxRuntimeVersion v t) (q # rs) vs)) = Some (Some v)"
    if "sb_runtime_version q = Some v" for q rs vs v
    using that by (induction vs) (auto simp: recordReportedSandboxRuntimeVersion_def)
  have first: "map_option sb_runtime_version (getSandbox
        (foldl (\<lambda>t v. recordReportedSandboxRuntimeVersion v t) (q # rs) vs))
      = Some (case dropWhile (\<lambda>v. v = None) vs of [] \<Rightarrow> None | v # _ \<Rightarrow> v)"
    if "sb_runtime_version q = None" for q rs vs
    using that
  proof (induction vs arbitrary: q)
    case (Cons v vs)
    show ?case
    proof (cases v)
      case None
      with Cons show ?thesis by (simp add: recordReportedSandboxRuntimeVersion_def)
    next
      case (Some x)
      with Cons.prems stays [of "q\<lparr>sb_runtime_version := Some x\<rparr>" x rs vs] show ?thesis
        by (simp add: recordReportedSandboxRuntimeVersion_def)
    qed
  qed simp
  from assms obtain rs where "t = r # rs" by (cases t) auto
  with stays [of "r\<lparr>sb_runtime_version := Some v0\<rparr>" v0 rs reports] first show ?thesis
    by (simp add: updateSandboxRuntimeVersion_def)
qed

theorem restored_runtime_version_kept_witness:
  "map_option sb_runtime_version (getSandbox (recordReportedSandboxRuntimeVersion (Some ''v70'')
     (updateSandboxRuntimeVersion (Some ''v62'') [booting_row]))) = Some (Some ''v62'')"
proof -
  have "getSandbox [booting_row] = Some booting_row" by simp
  from restored_runtime_version_kept [OF this, where reports = "[Some ''v70'']" and ?v0.0 = "''v62''"]
  show ?thesis by simp
qed

section \<open>The failure counter\<close>

lemma breaker_row_simps [simp]:
  "getSandbox (resetCircuitBreaker (r # rs)) = Some (r\<lparr>sb_spawn_failure_count := Some 0\<rparr>)"
  "getSandbox (incrementCircuitBreakerFailure ts (r # rs)) =
     Some (r\<lparr>sb_spawn_failure_count := Some (nullish (sb_spawn_failure_count r) 0 + 1),
             sb_last_spawn_failure := Some ts\<rparr>)"
  by (simp_all add: repository_defs)

end
