(* ===== verification/Launch_Gate.thy ===== *)
theory Launch_Gate
  imports Lifecycle_Decisions Sandbox_Row
begin

text \<open>
  The launch gate of \<open>sandbox/lifecycle/manager.ts\<close> over the sandbox table: the circuit breaker
  around launches, the charging of failed attempts, and the two-phase reservation of a
  generation. \<open>now\<close> is the clock read by each method; a broadcast is returned as a value.
\<close>

section \<open>Circuit breaker\<close>

text \<open>\<open>sandbox?.spawn_failure_count || 0\<close> and \<open>sandbox?.last_spawn_failure || 0\<close>.\<close>

definition toCircuitBreakerState :: "sandbox_row option \<Rightarrow> breaker_state" where
  "toCircuitBreakerState r =
     \<lparr>failureCount = (case r of None \<Rightarrow> 0 | Some s \<Rightarrow> nullish (sb_spawn_failure_count s) 0),
      lastFailureTime = (case r of None \<Rightarrow> 0 | Some s \<Rightarrow> nullish (sb_last_spawn_failure s) 0)\<rparr>"

datatype notice = SandboxError string | SandboxStatusNotice sandbox_status | SandboxWarming | SandboxSpawning

text \<open>\<open>Math.ceil(ms / 1000)\<close>.\<close>

definition ceil_seconds :: "ms \<Rightarrow> int" where
  "ceil_seconds t = - ((- t) div 1000)"

definition reportSandboxError :: "string \<Rightarrow> ms \<Rightarrow> sandbox_table \<Rightarrow> sandbox_table \<times> notice" where
  "reportSandboxError reason now t =
     (setLastSpawnError (Some reason) (Some now) t, SandboxError reason)"

definition breaker_open_text :: "nat \<Rightarrow> ms option \<Rightarrow> string" where
  "breaker_open_text failures wait =
     ''Sandbox spawning temporarily disabled after '' @ show_nat failures
     @ '' failures. Try again in '' @ show_int (ceil_seconds (nullish wait 0)) @ '' seconds.''"

definition admitLaunch ::
  "breaker_config \<Rightarrow> sandbox_row option \<Rightarrow> ms \<Rightarrow> sandbox_table \<Rightarrow> sandbox_table \<times> notice list \<times> bool" where
  "admitLaunch cfg sandboxState now t =
     (let st = toCircuitBreakerState sandboxState;
          d = evaluateCircuitBreaker st cfg now;
          t1 = (if shouldReset d then resetCircuitBreaker t else t) in
      if \<not> shouldProceed d
      then let (t2, n) = reportSandboxError (breaker_open_text (failureCount st) (waitTimeMs d)) now t1 in
           (t2, [n], False)
      else (t1, [], True))"

definition isCircuitBreakerOpen :: "breaker_config \<Rightarrow> ms \<Rightarrow> sandbox_table \<Rightarrow> bool" where
  "isCircuitBreakerOpen cfg now t \<longleftrightarrow>
     \<not> shouldProceed (evaluateCircuitBreaker (toCircuitBreakerState (getSandbox t)) cfg now)"

text \<open>The charged failure of an attempt that began at \<open>attemptStartedAt\<close>; whether the breaker is
  now open.\<close>

definition recordSpawnFailure ::
  "breaker_config \<Rightarrow> ms \<Rightarrow> ms \<Rightarrow> sandbox_table \<Rightarrow> sandbox_table \<times> bool" where
  "recordSpawnFailure cfg now attemptStartedAt t =
     (let streak = evaluateCircuitBreaker (toCircuitBreakerState (getSandbox t)) cfg attemptStartedAt;
          t1 = (if shouldReset streak then resetCircuitBreaker t else t);
          t2 = incrementCircuitBreakerFailure now t1 in
      (t2, isCircuitBreakerOpen cfg now t2))"

definition onPromptDispatched :: "sandbox_table \<Rightarrow> sandbox_table" where
  "onPromptDispatched = resetCircuitBreaker"

section \<open>Failed attempts\<close>

text \<open>\<open>failAttempt\<close>: only the attempt still in flight, with no bridge attached, fails its row.\<close>

definition failAttempt ::
  "generation option \<Rightarrow> sandbox_status \<Rightarrow> string \<Rightarrow> bool \<Rightarrow> ms \<Rightarrow> sandbox_table
     \<Rightarrow> sandbox_table \<times> notice list \<times> bool" where
  "failAttempt g inFlight reason bridgeAttached now t =
     (case g of
        None \<Rightarrow> (t, [], False)
      | Some gen \<Rightarrow>
          if bridgeAttached then (t, [], False)
          else let (t1, hit) = transitionSandboxStatus gen inFlight Failed t in
               if hit then let (t2, n) = reportSandboxError reason now t1 in (t2, [n], True)
               else (t1, [], False))"

datatype launch_error = Superseded | ProviderPermanent | ProviderTransient | UnknownError

text \<open>The end of \<open>doSpawn\<close>'s catch block, after the rejected allocation was dealt with.\<close>

definition settleSpawnError ::
  "breaker_config \<Rightarrow> launch_error \<Rightarrow> generation option \<Rightarrow> string \<Rightarrow> bool \<Rightarrow> ms \<Rightarrow> sandbox_table
     \<Rightarrow> sandbox_table \<times> notice list" where
  "settleSpawnError cfg err g message bridgeAttached now t =
     (if err = Superseded then (t, [])
      else
        let (t1, notices, failed) = failAttempt g Spawning message bridgeAttached now t;
            ownsFailure = (failed \<or> g = None);
            (t2, more) = (if g = None then let (u, n) = reportSandboxError message now t1 in (u, [n])
                          else (t1, [])) in
        if ownsFailure \<and> err \<noteq> ProviderTransient
        then (fst (recordSpawnFailure cfg now (case g of None \<Rightarrow> now | Some x \<Rightarrow> g_createdAt x) t2),
              notices @ more)
        else (t2, notices @ more))"

section \<open>Reserving a generation\<close>

text \<open>The identity an attempt reserves: strictly newer than the row it replaces. \<open>sandboxId\<close> is
  \<open>buildSandboxIdForSession\<close>.\<close>

definition spawnGeneration ::
  "(ms \<Rightarrow> string) \<Rightarrow> ms \<Rightarrow> sandbox_table \<Rightarrow> generation" where
  "spawnGeneration sandboxId now t =
     (let createdAt = max now ((case getSandbox t of None \<Rightarrow> 0 | Some r \<Rightarrow> sb_created_at r) + 1) in
      \<lparr>g_sandboxId = Some (sandboxId createdAt), g_createdAt = createdAt\<rparr>)"

text \<open>Phase 1 runs before the first await; phase 2 runs on the table as it is after the token
  hash was computed, and fails (\<open>SpawnSupersededError\<close>) unless it still holds the reservation.\<close>

definition reserve_phase1 :: "generation \<Rightarrow> bool \<Rightarrow> sandbox_table \<Rightarrow> sandbox_table" where
  "reserve_phase1 g preserveProviderObjectId =
     updateSandboxForSpawn Spawning (g_createdAt g) (the (g_sandboxId g)) preserveProviderObjectId"

definition reserve_phase2 :: "generation \<Rightarrow> string \<Rightarrow> sandbox_table \<Rightarrow> sandbox_table option" where
  "reserve_phase2 g tokenHash t =
     (let (t', hit) = updateSandboxAuthTokenHash (the (g_sandboxId g)) tokenHash t in
      if hit then Some t' else None)"

section \<open>Bridge and warm-up\<close>

definition onSandboxConnected :: "sandbox_table \<Rightarrow> sandbox_table" where
  "onSandboxConnected = setLastSpawnError None None"

definition onSandboxSocketAttached ::
  "generation \<Rightarrow> sandbox_table \<Rightarrow> sandbox_table \<times> notice list" where
  "onSandboxSocketAttached g t =
     (let (t1, advanced) = transitionSandboxStatus g Spawning Connecting t in
      if advanced then (t1, [SandboxStatusNotice Connecting])
      else (case getSandbox t1 of
              None \<Rightarrow> (t1, [])
            | Some r \<Rightarrow>
                if sb_status r = Failed \<and> \<not> sb_fenced r
                then let (t2, healed) = transitionSandboxStatus g Failed Connecting t1 in
                     (t2, if healed then [SandboxStatusNotice Connecting] else [])
                else (t1, [])))"

section \<open>The spawn command\<close>

text \<open>What the shutdown coordinator says about starting (\<open>SandboxStartupDecision\<close>).\<close>

datatype startup_decision =
    StartHold string
  | StartRestoreSnapshot string "string option"
  | StartResumeRetained string "string option"
  | StartNormal

datatype startup_intent = IntentSpawn | IntentWarm

record launch_provider =
  lp_canRestore :: bool
  lp_canResume :: bool
  lp_supportsPersistentResume :: bool

text \<open>What \<open>spawnSandbox\<close> goes on to do: nothing, hold for recovery, arm the reconnect deadline,
  or launch.\<close>

datatype launch =
    NoLaunch
  | HoldRecovery string
  | ArmReconnect ms
  | LaunchFresh
  | LaunchRestore string string
  | LaunchResume string "string option" bool

definition announceStartup :: "startup_intent \<Rightarrow> notice" where
  "announceStartup intent = (if intent = IntentWarm then SandboxWarming else SandboxSpawning)"

text \<open>The first lines of \<open>restoreFromSnapshot\<close> and \<open>resumeSandbox\<close>: what a provider without the
  operation does instead.\<close>

definition restoreOrHold :: "launch_provider \<Rightarrow> string \<Rightarrow> string \<Rightarrow> launch" where
  "restoreOrHold p img v =
     (if lp_canRestore p then LaunchRestore img v
      else HoldRecovery ''This provider cannot restore the saved snapshot'')"

definition resumeOrFallBack ::
  "launch_provider \<Rightarrow> string \<Rightarrow> string option \<Rightarrow> bool \<Rightarrow> launch" where
  "resumeOrFallBack p obj v restoringSavedState =
     (if lp_canResume p then LaunchResume obj v restoringSavedState
      else if restoringSavedState
      then HoldRecovery ''Current provider cannot resume the saved sandbox''
      else LaunchFresh)"

definition spawn_state :: "sandbox_row option \<Rightarrow> bool \<Rightarrow> sandbox_state" where
  "spawn_state r hasSocket =
     (case r of
        None \<Rightarrow> \<lparr>ss_status = DEFAULT_SANDBOX_STATUS, ss_createdAt = 0, ss_providerObjectId = None,
                 ss_snapshotImageId = None, ss_snapshotRuntimeVersion = None,
                 ss_hasActiveWebSocket = hasSocket, ss_lastHeartbeat = None\<rparr>
      | Some s \<Rightarrow> \<lparr>ss_status = sb_status s, ss_createdAt = sb_created_at s,
                 ss_providerObjectId = (if truthy (sb_modal_object_id s) then sb_modal_object_id s else None),
                 ss_snapshotImageId = (if truthy (sb_snapshot_image_id s) then sb_snapshot_image_id s else None),
                 ss_snapshotRuntimeVersion =
                   (if truthy (sb_snapshot_runtime_version s) then sb_snapshot_runtime_version s else None),
                 ss_hasActiveWebSocket = hasSocket, ss_lastHeartbeat = sb_last_heartbeat s\<rparr>)"

record launch_config =
  lc_breaker :: breaker_config
  lc_spawn :: spawn_config
  lc_heartbeat :: heartbeat_config

text \<open>\<open>busy\<close> is \<open>isSpawningSandbox || isTerminatingSandbox\<close>.\<close>

definition spawnSandbox ::
  "launch_config \<Rightarrow> launch_provider \<Rightarrow> startup_decision \<Rightarrow> startup_intent \<Rightarrow> bool \<Rightarrow> bool \<Rightarrow> ms
     \<Rightarrow> sandbox_table \<Rightarrow> sandbox_table \<times> notice list \<times> launch" where
  "spawnSandbox cfg p startup intent busy hasSocket now t =
     (case startup of
        StartHold _ \<Rightarrow> (t, [], NoLaunch)
      | StartRestoreSnapshot img v \<Rightarrow>
          if busy then (t, [], NoLaunch)
          else if \<not> isSnapshotRuntimeCompatible v
          then (t, [], HoldRecovery ''The saved sandbox runtime is incompatible'')
          else if lp_canRestore p
          then (t, [announceStartup intent], LaunchRestore img (the v))
          else (t, [], HoldRecovery ''This provider cannot restore the saved snapshot'')
      | StartResumeRetained obj v \<Rightarrow>
          if busy then (t, [], NoLaunch)
          else (t, [announceStartup intent], resumeOrFallBack p obj v True)
      | StartNormal \<Rightarrow>
          (let row = getSandbox t;
               admit = (\<lambda>l. let (t1, ns, ok) = admitLaunch (lc_breaker cfg) row now t in
                  if ok then (t1, ns @ [announceStartup intent], l t1) else (t1, ns, NoLaunch)) in
           case evaluateSpawnDecision (spawn_state row hasSocket) (lc_spawn cfg) now busy
                  (lp_supportsPersistentResume p) of
             Hold reason \<Rightarrow> (t, [], HoldRecovery reason)
           | Skip _ \<Rightarrow> (t, [], NoLaunch)
           | Wait _ \<Rightarrow> (t, [], NoLaunch)
           | AwaitReconnect h \<Rightarrow> (t, [], ArmReconnect (max (now + 1) (heartbeatStaleAt h (lc_heartbeat cfg))))
           | Restore img v \<Rightarrow> admit (\<lambda>_. restoreOrHold p img v)
           | Resume obj \<Rightarrow> admit (\<lambda>t1. resumeOrFallBack p obj
                (case getSandbox t1 of None \<Rightarrow> None | Some r \<Rightarrow> sb_runtime_version r) False)
           | Spawn \<Rightarrow> admit (\<lambda>_. LaunchFresh)))"

definition warmSandbox ::
  "launch_config \<Rightarrow> launch_provider \<Rightarrow> startup_decision \<Rightarrow> bool \<Rightarrow> bool \<Rightarrow> bool \<Rightarrow> ms
     \<Rightarrow> sandbox_table \<Rightarrow> sandbox_table \<times> notice list \<times> launch" where
  "warmSandbox cfg p startup spawning terminating hasSocket now t =
     (case evaluateWarmDecision \<lparr>ws_hasActiveWebSocket = hasSocket,
             ws_status = map_option sb_status (getSandbox t), ws_isSpawningInMemory = spawning\<rparr> of
        WarmSkip _ \<Rightarrow> (t, [], NoLaunch)
      | WarmSpawn \<Rightarrow> spawnSandbox cfg p startup IntentWarm (spawning \<or> terminating) hasSocket now t)"

section \<open>Lemmas\<close>

lemma getSandbox_reset [simp]:
  "getSandbox (resetCircuitBreaker t) = map_option (\<lambda>r. r\<lparr>sb_spawn_failure_count := Some 0\<rparr>) (getSandbox t)"
  by (cases t) (simp_all add: resetCircuitBreaker_def)

lemma getSandbox_increment [simp]:
  "getSandbox (incrementCircuitBreakerFailure ts t) =
     map_option (\<lambda>r. r\<lparr>sb_spawn_failure_count := Some (nullish (sb_spawn_failure_count r) 0 + 1),
                       sb_last_spawn_failure := Some ts\<rparr>) (getSandbox t)"
  by (cases t) (simp_all add: incrementCircuitBreakerFailure_def)

lemma getSandbox_error [simp]:
  "getSandbox (setLastSpawnError e ts t) =
     map_option (\<lambda>r. r\<lparr>sb_last_spawn_error := e, sb_last_spawn_error_at := ts\<rparr>) (getSandbox t)"
  by (cases t) (simp_all add: setLastSpawnError_def)

definition breaker :: "sandbox_table \<Rightarrow> breaker_state" where
  "breaker t = toCircuitBreakerState (getSandbox t)"

lemma breaker_ops [simp]:
  "breaker (setLastSpawnError e when t) = breaker t"
  "failureCount (breaker (resetCircuitBreaker t)) = 0"
  "lastFailureTime (breaker (resetCircuitBreaker t)) = lastFailureTime (breaker t)"
  "getSandbox t \<noteq> None \<Longrightarrow> failureCount (breaker (incrementCircuitBreakerFailure ts t)) = failureCount (breaker t) + 1"
  "getSandbox t \<noteq> None \<Longrightarrow> lastFailureTime (breaker (incrementCircuitBreakerFailure ts t)) = ts"
  by (cases "getSandbox t"; simp add: breaker_def toCircuitBreakerState_def)+

text \<open>A refused launch charges nothing; an admitted one keeps the streak or starts afresh.\<close>

lemma admit_breaker:
  assumes "admitLaunch cfg (getSandbox t) now t = (t', ns, ok)"
  shows "getSandbox t' = None \<longleftrightarrow> getSandbox t = None"
    and "lastFailureTime (breaker t') = lastFailureTime (breaker t)"
    and "\<not> (0 < failureCount (breaker t) \<and> bc_windowMs cfg \<le> now - lastFailureTime (breaker t))
         \<Longrightarrow> failureCount (breaker t') = failureCount (breaker t)"
    and "ok \<longleftrightarrow> (0 < failureCount (breaker t) \<and> bc_windowMs cfg \<le> now - lastFailureTime (breaker t))
          \<or> \<not> (bc_threshold cfg \<le> failureCount (breaker t)
                 \<and> now - lastFailureTime (breaker t) < bc_windowMs cfg)"
    and "0 < failureCount (breaker t) \<and> bc_windowMs cfg \<le> now - lastFailureTime (breaker t)
         \<Longrightarrow> failureCount (breaker t') = 0"
  using assms
  by (auto simp: admitLaunch_def evaluateCircuitBreaker_def Let_def reportSandboxError_def
      breaker_def [symmetric] split: if_splits prod.splits)

lemma record_failure:
  assumes "getSandbox t \<noteq> None"
  shows "getSandbox (fst (recordSpawnFailure cfg now a t)) \<noteq> None"
    and "lastFailureTime (breaker (fst (recordSpawnFailure cfg now a t))) = now"
    and "failureCount (breaker (fst (recordSpawnFailure cfg now a t)))
      = (if 0 < failureCount (breaker t) \<and> bc_windowMs cfg \<le> a - lastFailureTime (breaker t)
         then 1 else failureCount (breaker t) + 1)"
  using assms
  by (auto simp: recordSpawnFailure_def evaluateCircuitBreaker_def Let_def breaker_def [symmetric])

text \<open>Attempts in a re-drive chain: each asks to launch at \<open>asked\<close>, reserves its generation at
  \<open>started\<close> and, when admitted, fails at \<open>failed\<close>. The count is of the admitted ones.\<close>

record attempt =
  asked :: ms
  started :: ms
  failed :: ms

definition run_attempt :: "breaker_config \<Rightarrow> attempt \<Rightarrow> sandbox_table \<Rightarrow> sandbox_table \<times> bool" where
  "run_attempt cfg a t =
     (let (t1, ns, ok) = admitLaunch cfg (getSandbox t) (asked a) t in
      (if ok then fst (recordSpawnFailure cfg (failed a) (started a) t1) else t1, ok))"

fun admitted :: "breaker_config \<Rightarrow> attempt list \<Rightarrow> sandbox_table \<Rightarrow> nat" where
  "admitted cfg [] t = 0"
| "admitted cfg (a # as) t =
     (let (t', ok) = run_attempt cfg a t in (if ok then 1 else 0) + admitted cfg as t')"

text \<open>No idle window: every attempt begins less than a window after the last charged failure.\<close>

fun no_idle_window :: "breaker_config \<Rightarrow> attempt list \<Rightarrow> sandbox_table \<Rightarrow> bool" where
  "no_idle_window cfg [] t = True"
| "no_idle_window cfg (a # as) t \<longleftrightarrow>
     (0 < failureCount (breaker t) \<longrightarrow>
        asked a - lastFailureTime (breaker t) < bc_windowMs cfg
        \<and> started a - lastFailureTime (breaker t) < bc_windowMs cfg)
     \<and> no_idle_window cfg as (fst (run_attempt cfg a t))"

lemma run_attempt_breaker:
  assumes "getSandbox t \<noteq> None" and "0 < bc_threshold cfg" and "no_idle_window cfg [a] t"
  shows "getSandbox (fst (run_attempt cfg a t)) \<noteq> None"
    and "failureCount (breaker (fst (run_attempt cfg a t)))
      = failureCount (breaker t) + (if snd (run_attempt cfg a t) then 1 else 0)"
    and "snd (run_attempt cfg a t) \<Longrightarrow> failureCount (breaker t) < bc_threshold cfg"
proof -
  obtain t1 ns ok where step: "admitLaunch cfg (getSandbox t) (asked a) t = (t1, ns, ok)"
    by (cases "admitLaunch cfg (getSandbox t) (asked a) t") auto
  note adm = admit_breaker [OF step]
  have keep: "failureCount (breaker t1) = failureCount (breaker t)"
    "lastFailureTime (breaker t1) = lastFailureTime (breaker t)"
    using adm(2,3) assms(3) by auto
  have some1: "getSandbox t1 \<noteq> None" using adm(1) assms(1) by simp
  note rec = record_failure [OF some1, of cfg "failed a" "started a"]
  have n2: "failureCount (breaker (fst (recordSpawnFailure cfg (failed a) (started a) t1)))
      = failureCount (breaker t) + 1"
    using rec(3) keep assms(3) by auto
  show "getSandbox (fst (run_attempt cfg a t)) \<noteq> None"
    using rec(1) some1 by (simp add: run_attempt_def step)
  show "failureCount (breaker (fst (run_attempt cfg a t)))
      = failureCount (breaker t) + (if snd (run_attempt cfg a t) then 1 else 0)"
    using n2 keep by (simp add: run_attempt_def step)
  assume "snd (run_attempt cfg a t)"
  then have ok by (simp add: run_attempt_def step)
  with adm(4) assms(2,3) show "failureCount (breaker t) < bc_threshold cfg"
    by (cases "failureCount (breaker t)") auto
qed

lemma admitted_bound:
  assumes "getSandbox t \<noteq> None" and "0 < bc_threshold cfg" and "no_idle_window cfg as t"
  shows "admitted cfg as t \<le> bc_threshold cfg - failureCount (breaker t)"
  using assms
proof (induction as arbitrary: t)
  case (Cons a as)
  then have one: "no_idle_window cfg [a] t" by simp
  note run = run_attempt_breaker [OF Cons.prems(1,2) one]
  have "admitted cfg as (fst (run_attempt cfg a t))
      \<le> bc_threshold cfg - failureCount (breaker (fst (run_attempt cfg a t)))"
    by (rule Cons.IH) (use run(1) Cons.prems in auto)
  with run(2,3) show ?case
    by (cases "snd (run_attempt cfg a t)") (auto simp: case_prod_unfold Let_def)
qed simp

text \<open>
  A deterministic boot failure cannot be re-driven forever: however long a chain of
  automatic attempts grows and however long each boot takes to fail, as long as no attempt
  begins a full window after the last charged failure, at most the threshold number of
  launches is ever admitted (three with the defaults); and once a window has passed since the
  last failure, the gate opens again.
\<close>

theorem redrive_chain_is_bounded:
  assumes "getSandbox t = Some r" and "nullish (sb_spawn_failure_count r) 0 = 0"
    and "0 < bc_threshold cfg" and "no_idle_window cfg as t"
  shows "admitted cfg as t \<le> bc_threshold cfg
    \<and> (\<forall>u t'. bc_windowMs cfg \<le> u - lastFailureTime (breaker t') \<and> 0 < failureCount (breaker t') \<longrightarrow>
         snd (snd (admitLaunch cfg (getSandbox t') u t')))"
proof
  have "failureCount (breaker t) = 0"
    using assms(1,2) by (simp add: breaker_def toCircuitBreakerState_def)
  with admitted_bound [of t cfg as] assms show "admitted cfg as t \<le> bc_threshold cfg" by simp
  show "\<forall>u t'. bc_windowMs cfg \<le> u - lastFailureTime (breaker t') \<and> 0 < failureCount (breaker t') \<longrightarrow>
      snd (snd (admitLaunch cfg (getSandbox t') u t'))"
    using admit_breaker(4) by (metis prod.collapse)
qed

definition demo_chain :: "attempt list" where
  "demo_chain = map (\<lambda>n. \<lparr>asked = n, started = n + 1, failed = n + 400000\<rparr>)
     [1000000, 1400010, 1800020, 2200030]"

theorem redrive_chain_is_bounded_witness:
  "admitted DEFAULT_CIRCUIT_BREAKER_CONFIG demo_chain [booting_row] \<le> 3"
proof -
  have row: "getSandbox [booting_row] = Some booting_row" by simp
  have "no_idle_window DEFAULT_CIRCUIT_BREAKER_CONFIG demo_chain [booting_row]"
    by code_simp
  with redrive_chain_is_bounded [OF row, where cfg = DEFAULT_CIRCUIT_BREAKER_CONFIG and as = demo_chain]
  show ?thesis by (simp add: booting_row_def DEFAULT_CIRCUIT_BREAKER_CONFIG_def)
qed

lemma breaker_agrees: "isCircuitBreakerOpen cfg now t \<longleftrightarrow> \<not> snd (snd (admitLaunch cfg (getSandbox t) now t))"
  by (auto simp: isCircuitBreakerOpen_def admitLaunch_def Let_def reportSandboxError_def)

text \<open>
  A reservation is exclusive: it stamps a generation strictly newer than every earlier one
  of the row and leaves no credential that could match, and its token hash is published only
  if no other reservation, cancellation or failure has touched the row in between, whatever
  the environment did while the hash was computed.
\<close>

theorem reservation_is_exclusive:
  assumes "t = r # rs" and "g = spawnGeneration sandboxId now t"
    and "reserve_phase1 g keep t = t1"
  shows "sb_created_at r < g_createdAt g \<and> now \<le> g_createdAt g
    \<and> (\<exists>r1. getSandbox t1 = Some r1 \<and> of_generation g r1 \<and> sb_status r1 = Spawning
        \<and> sb_auth_token_hash r1 = Some [] \<and> sb_auth_token r1 = None \<and> sb_active_socket_id r1 = Some []
        \<and> \<not> sb_fenced r1 \<and> sb_last_heartbeat r1 = None)
    \<and> (\<forall>u hash t'. reserve_phase2 g hash u = Some t' \<longrightarrow>
         (\<exists>x \<in> set u. sb_modal_sandbox_id x = g_sandboxId g \<and> sb_status x = Spawning))"
proof -
  have "(\<exists>x \<in> set u. sb_modal_sandbox_id x = g_sandboxId g \<and> sb_status x = Spawning)"
    if "reserve_phase2 g hash u = Some t'" for u hash t'
    using that assms(2)
    by (auto simp: reserve_phase2_def updateSandboxAuthTokenHash_def Let_def sql_count_pos
        spawnGeneration_def split: if_splits)
  then show ?thesis
    unfolding assms(3) [symmetric] assms(2) assms(1)
    by (auto simp: reserve_phase1_def updateSandboxForSpawn_def spawnGeneration_def Let_def
        of_generation_def)
qed

theorem reservation_is_exclusive_witness:
  "g_createdAt (spawnGeneration (\<lambda>n. ''sb'') 5 [booting_row]) = 21"
  using reservation_is_exclusive [OF refl refl refl, where r = booting_row and rs = "[]"
      and sandboxId = "\<lambda>n. ''sb''" and now = 5 and keep = True]
  by (simp add: spawnGeneration_def Let_def booting_row_def)

end
