(* ===== verification/Alarm_Scheduler.thy ===== *)
theory Alarm_Scheduler
  imports Prelude
begin

text \<open>
  \<open>session/alarm/scheduler.ts\<close>: the persisted deadline row of a session, the scheduler that
  lets many callers share the runtime's single alarm slot, and alarm delivery. The slot itself
  (\<open>AlarmScheduleStore\<close>) is an interface with two implementations, so it is a locale here; the
  order of an operation's writes is kept, so that a crash between any two of them is a state.
\<close>

section \<open>The persisted deadlines\<close>

record alarm_row =
  al_pending :: "ms option"
  al_in_flight :: "ms option"
  al_cancelled :: bool

text \<open>\<open>session_alarm_state\<close> holds at most the row \<open>singleton = 1\<close>.\<close>

type_synonym alarm_table = "alarm_row option"

definition new_alarm_row :: alarm_row where
  "new_alarm_row = \<lparr>al_pending = None, al_in_flight = None, al_cancelled = False\<rparr>"

definition pending :: "alarm_table \<Rightarrow> ms option" where
  "pending t = (case t of None \<Rightarrow> None | Some r \<Rightarrow> al_pending r)"

definition cancelled :: "alarm_table \<Rightarrow> bool" where
  "cancelled t = (case t of None \<Rightarrow> False | Some r \<Rightarrow> al_cancelled r)"

text \<open>\<open>Math.min\<close> over the deadlines that are present.\<close>

definition min_present :: "ms option \<Rightarrow> ms option \<Rightarrow> ms option" where
  "min_present a b = (case a of None \<Rightarrow> b | Some x \<Rightarrow> Some (min_bound x b))"

definition earliest :: "alarm_table \<Rightarrow> ms option" where
  "earliest t = (case t of None \<Rightarrow> None
     | Some r \<Rightarrow> if al_cancelled r then None else min_present (al_pending r) (al_in_flight r))"

definition setPending :: "ms \<Rightarrow> alarm_table \<Rightarrow> alarm_table" where
  "setPending d t = Some ((nullish t new_alarm_row)\<lparr>al_pending := Some d\<rparr>)"

definition setPendingEarliest :: "ms \<Rightarrow> alarm_table \<Rightarrow> alarm_table" where
  "setPendingEarliest d t =
     (case t of
        None \<Rightarrow> Some (new_alarm_row\<lparr>al_pending := Some d\<rparr>)
      | Some r \<Rightarrow> Some (r\<lparr>al_pending := Some (min_bound d (al_pending r))\<rparr>))"

definition activate :: "alarm_table \<Rightarrow> alarm_table" where
  "activate t = map_option (\<lambda>r. r\<lparr>al_cancelled := False\<rparr>) t"

definition clear :: "alarm_table \<Rightarrow> alarm_table" where
  "clear t = Some \<lparr>al_pending = None, al_in_flight = None, al_cancelled = True\<rparr>"

datatype delivery = DeliveryCancelled | Delivered "ms option"

definition beginDelivery :: "alarm_table \<Rightarrow> alarm_table \<times> delivery" where
  "beginDelivery t =
     (case t of
        None \<Rightarrow> (t, Delivered None)
      | Some r \<Rightarrow>
          if al_cancelled r then (t, DeliveryCancelled)
          else let r' = r\<lparr>al_in_flight := or_else (al_in_flight r) (al_pending r),
                         al_pending := if al_in_flight r = None then None else al_pending r\<rparr> in
               (Some r', Delivered (al_in_flight r')))"

definition completeDelivery :: "alarm_table \<Rightarrow> alarm_table" where
  "completeDelivery t = map_option (\<lambda>r. r\<lparr>al_in_flight := None\<rparr>) t"

section \<open>The shared slot\<close>

text \<open>The runtime's single wake-up: what the scheduler reads, sets and deletes.\<close>

record 's slot_ops =
  so_get :: "'s \<Rightarrow> ms option"
  so_set :: "ms \<Rightarrow> 's \<Rightarrow> 's"
  so_delete :: "'s \<Rightarrow> 's"

locale alarm_slot =
  fixes ops :: "'s slot_ops"
  assumes get_set: "so_get ops (so_set ops d s) = Some d"
    and get_delete: "so_get ops (so_delete ops s) = None"

text \<open>The writes of the serialized operations. Each is one durable effect; a process may stop
  after any of them.\<close>

datatype alarm_write = SetPending ms | DeleteSlot | SetSlot ms | SetSlotIfSooner ms | Activate | Clear

fun run_write :: "'s slot_ops \<Rightarrow> alarm_write \<Rightarrow> alarm_table \<times> 's \<Rightarrow> alarm_table \<times> 's" where
  "run_write ops (SetPending d) (t, s) = (setPending d t, s)"
| "run_write ops DeleteSlot (t, s) = (t, so_delete ops s)"
| "run_write ops (SetSlot d) (t, s) = (t, so_set ops d s)"
| "run_write ops (SetSlotIfSooner d) (t, s) =
     (t, case so_get ops s of None \<Rightarrow> so_set ops d s
         | Some current \<Rightarrow> if d < current then so_set ops d s else s)"
| "run_write ops Activate (t, s) = (activate t, s)"
| "run_write ops Clear (t, s) = (clear t, s)"

fun run_writes :: "'s slot_ops \<Rightarrow> alarm_write list \<Rightarrow> alarm_table \<times> 's \<Rightarrow> alarm_table \<times> 's" where
  "run_writes ops [] w = w"
| "run_writes ops (x # xs) w = run_writes ops xs (run_write ops x w)"

definition schedule_writes :: "ms \<Rightarrow> alarm_table \<Rightarrow> alarm_write list" where
  "schedule_writes timestamp t =
     (let persisted = pending t;
          next = (case persisted of None \<Rightarrow> timestamp | Some p \<Rightarrow> if timestamp < p then timestamp else p) in
      (if Some next \<noteq> persisted then [SetPending next] else [])
      @ (if cancelled t then [DeleteSlot, SetSlot next, Activate] else [SetSlotIfSooner next]))"

definition cancel_writes :: "alarm_write list" where
  "cancel_writes = [Clear, DeleteSlot]"

definition current :: "alarm_table \<Rightarrow> ms option" where
  "current = pending"

definition rehydrate_writes :: "alarm_table \<Rightarrow> alarm_write list" where
  "rehydrate_writes t =
     (let deadline = (if cancelled t then pending t else earliest t) in
      if cancelled t
      then DeleteSlot # (case deadline of None \<Rightarrow> [] | Some d \<Rightarrow> [SetSlot d]) @ [Activate]
      else (case deadline of None \<Rightarrow> [] | Some d \<Rightarrow> [SetSlotIfSooner d]))"

definition rearm_writes :: "alarm_table \<Rightarrow> alarm_write list" where
  "rearm_writes t = (case pending t of None \<Rightarrow> [] | Some d \<Rightarrow> [SetSlotIfSooner d])"

section \<open>Runs\<close>

text \<open>
  What can happen to a session's deadlines: the scheduler's operations, each stopped after
  \<open>n\<close> writes (a completed one has \<open>n\<close> large enough), the transactional
  \<open>setPendingEarliest\<close>, the two halves of a delivery, and anything the platform does to the
  slot on its own (clearing it when it fires, losing it).
\<close>

datatype 's event =
    Schedule nat ms
  | Cancel nat
  | Rehydrate nat
  | Rearm nat
  | PersistEarliest ms
  | Begin
  | Complete
  | Slot "'s \<Rightarrow> 's"

fun on_event :: "'s slot_ops \<Rightarrow> 's event \<Rightarrow> alarm_table \<times> 's \<Rightarrow> alarm_table \<times> 's" where
  "on_event ops (Schedule n d) w = run_writes ops (take n (schedule_writes d (fst w))) w"
| "on_event ops (Cancel n) w = run_writes ops (take n cancel_writes) w"
| "on_event ops (Rehydrate n) w = run_writes ops (take n (rehydrate_writes (fst w))) w"
| "on_event ops (Rearm n) w = run_writes ops (take n (rearm_writes (fst w))) w"
| "on_event ops (PersistEarliest d) w = (setPendingEarliest d (fst w), snd w)"
| "on_event ops Begin w = (fst (beginDelivery (fst w)), snd w)"
| "on_event ops Complete w = (completeDelivery (fst w), snd w)"
| "on_event ops (Slot f) w = (fst w, f (snd w))"

definition run :: "'s slot_ops \<Rightarrow> 's event list \<Rightarrow> alarm_table \<times> 's \<Rightarrow> alarm_table \<times> 's" where
  "run ops es w = fold (on_event ops) es w"

definition rehydrate :: "'s slot_ops \<Rightarrow> alarm_table \<times> 's \<Rightarrow> alarm_table \<times> 's" where
  "rehydrate ops w = run_writes ops (rehydrate_writes (fst w)) w"

text \<open>\<open>handleAlarmDelivery\<close> with a handler that did the events \<open>es\<close>; \<open>ok\<close> is whether it
  returned rather than threw.\<close>

definition handleAlarmDelivery ::
  "'s slot_ops \<Rightarrow> 's event list \<Rightarrow> bool \<Rightarrow> alarm_table \<times> 's \<Rightarrow> alarm_table \<times> 's" where
  "handleAlarmDelivery ops es ok w =
     (case beginDelivery (fst w) of (t, delivered) \<Rightarrow>
        case delivered of
          DeliveryCancelled \<Rightarrow> (t, snd w)
        | Delivered d \<Rightarrow>
            let w1 = run ops es (t, snd w) in
            if \<not> ok then w1
            else if d = None then w1
            else let (t2, s2) = run_writes ops (rearm_writes (fst w1)) w1 in (completeDelivery t2, s2))"

section \<open>No deadline is lost\<close>

text \<open>A deadline at or before \<open>d\<close> is on disk.\<close>

definition owed :: "ms \<Rightarrow> alarm_table \<Rightarrow> bool" where
  "owed d t \<longleftrightarrow> (\<exists>r. t = Some r \<and> ((\<exists>x. al_pending r = Some x \<and> x \<le> d) \<or> (\<exists>x. al_in_flight r = Some x \<and> x \<le> d)))"

text \<open>A cancelled row has nothing in flight.\<close>

definition row_ok :: "alarm_table \<Rightarrow> bool" where
  "row_ok t \<longleftrightarrow> (\<forall>r. t = Some r \<longrightarrow> al_cancelled r \<longrightarrow> al_in_flight r = None)"

lemmas row_defs = pending_def cancelled_def earliest_def setPending_def setPendingEarliest_def activate_def
  clear_def beginDelivery_def completeDelivery_def min_present_def new_alarm_row_def

text \<open>An event that neither cancels nor acknowledges.\<close>

fun keeps :: "'s event \<Rightarrow> bool" where
  "keeps (Cancel n) = (n = 0)"
| "keeps Complete = False"
| "keeps _ = True"

text \<open>Each write a scheduling operation plans keeps what is owed, whatever prefix of the plan runs.\<close>

fun safe_write :: "alarm_table \<Rightarrow> alarm_write \<Rightarrow> bool" where
  "safe_write t (SetPending d) = (\<forall>p. pending t = Some p \<longrightarrow> d \<le> p)"
| "safe_write t Clear = False"
| "safe_write t _ = True"

lemma table_after_write:
  "fst (run_write ops x w)
     = (case x of SetPending d \<Rightarrow> setPending d (fst w) | Activate \<Rightarrow> activate (fst w)
        | Clear \<Rightarrow> clear (fst w) | _ \<Rightarrow> fst w)"
  by (cases w; cases x) simp_all

lemma safe_write_keeps:
  assumes "safe_write (fst w) x" and "row_ok (fst w)"
  shows "row_ok (fst (run_write ops x w))" and "owed d (fst w) \<Longrightarrow> owed d (fst (run_write ops x w))"
  using assms
  by (cases x; cases "fst w"; force simp: table_after_write row_ok_def owed_def row_defs nullish_def)+

lemma run_writes_append: "run_writes ops (xs @ ys) w = run_writes ops ys (run_writes ops xs w)"
  by (induction xs arbitrary: w) auto

text \<open>After the first write of a plan, the rest never touches the deadlines again, except to
  activate the row.\<close>

fun inert :: "alarm_write \<Rightarrow> bool" where
  "inert (SetPending d) = False"
| "inert Clear = False"
| "inert _ = True"

lemma inert_write:
  assumes "inert x"
  shows "row_ok (fst w) \<Longrightarrow> row_ok (fst (run_write ops x w))"
    and "owed d (fst (run_write ops x w)) \<longleftrightarrow> owed d (fst w)"
    and "pending (fst (run_write ops x w)) = pending (fst w)"
  using assms
  by (cases x; cases "fst w"; force simp: table_after_write row_ok_def owed_def row_defs)+

lemma inert_keeps:
  assumes "list_all inert xs"
  shows "(row_ok (fst w) \<longrightarrow> row_ok (fst (run_writes ops xs w)))
    \<and> (owed d (fst (run_writes ops xs w)) \<longleftrightarrow> owed d (fst w))
    \<and> pending (fst (run_writes ops xs w)) = pending (fst w)"
  using assms
proof (induction xs arbitrary: w)
  case (Cons x xs)
  then show ?case using inert_write(1) [of x w ops] inert_write(2) [of x d ops w] inert_write(3) [of x ops w] by simp
qed simp

lemma list_all_take: "list_all P xs \<Longrightarrow> list_all P (take n xs)"
  by (induction xs arbitrary: n) (auto simp: take_Cons split: nat.splits)

lemma plans_inert:
  "list_all inert (rehydrate_writes t)" "list_all inert (rearm_writes t)"
  by (auto simp: rehydrate_writes_def rearm_writes_def Let_def split: option.splits)

text \<open>Scheduling only ever brings the pending deadline forward.\<close>

lemma schedule_plan:
  obtains (sooner) rest where "schedule_writes d t = SetPending d # rest" "list_all inert rest"
      "\<forall>p. pending t = Some p \<longrightarrow> d < p"
    | (kept) rest p where "schedule_writes d t = rest" "list_all inert rest" "pending t = Some p" "p \<le> d"
proof (cases "\<exists>p. pending t = Some p \<and> p \<le> d")
  case True
  then obtain p where p: "pending t = Some p" "p \<le> d" by blast
  show ?thesis
    by (rule kept [OF _ _ p]) (use p in \<open>auto simp: schedule_writes_def Let_def\<close>)
next
  case False
  let ?rest = "if cancelled t then [DeleteSlot, SetSlot d, Activate] else [SetSlotIfSooner d]"
  show ?thesis
    by (rule sooner [of ?rest])
      (use False in \<open>auto simp: schedule_writes_def Let_def split: option.splits\<close>)
qed

lemma schedule_prefix:
  assumes "row_ok (fst w)"
  shows "row_ok (fst (on_event ops (Schedule n d) w))"
    and "owed e (fst w) \<Longrightarrow> owed e (fst (on_event ops (Schedule n d) w))"
    and "0 < n \<Longrightarrow> owed d (fst (on_event ops (Schedule n d) w))"
    and "0 < n \<Longrightarrow> \<exists>p. pending (fst (on_event ops (Schedule n d) w)) = Some p \<and> p \<le> d"
proof -
  have *: "row_ok (fst (on_event ops (Schedule n d) w))
    \<and> (owed e (fst w) \<longrightarrow> owed e (fst (on_event ops (Schedule n d) w)))
    \<and> (0 < n \<longrightarrow> (\<exists>p. pending (fst (on_event ops (Schedule n d) w)) = Some p \<and> p \<le> d))"
  proof (cases rule: schedule_plan [where d = d and t = "fst w"])
    case (sooner rest)
    show ?thesis
    proof (cases n)
      case (Suc m)
      let ?w1 = "run_write ops (SetPending d) w"
      have tail: "list_all inert (take m rest)" using sooner by (simp add: list_all_take)
      have "row_ok (fst ?w1)" "owed e (fst w) \<Longrightarrow> owed e (fst ?w1)"
        using safe_write_keeps [of w "SetPending d"] assms sooner by fastforce+
      moreover have "pending (fst ?w1) = Some d"
        by (simp add: table_after_write pending_def setPending_def)
      ultimately show ?thesis
        using inert_keeps [OF tail, where w = ?w1 and ops = ops and d = e] sooner Suc by auto
    qed (use assms in simp)
  next
    case (kept rest p)
    then have "list_all inert (take n (schedule_writes d (fst w)))" by (simp add: list_all_take)
    from inert_keeps [OF this, where w = w and ops = ops and d = e] kept assms show ?thesis by simp
  qed
  then show "row_ok (fst (on_event ops (Schedule n d) w))"
    "owed e (fst w) \<Longrightarrow> owed e (fst (on_event ops (Schedule n d) w))"
    "0 < n \<Longrightarrow> \<exists>p. pending (fst (on_event ops (Schedule n d) w)) = Some p \<and> p \<le> d"
    by blast+
  then show "0 < n \<Longrightarrow> owed d (fst (on_event ops (Schedule n d) w))"
    by (auto simp: owed_def pending_def split: option.splits)
qed

lemma event_keeps:
  assumes "keeps ev" and "row_ok (fst w)"
  shows "row_ok (fst (on_event ops ev w))" and "owed d (fst w) \<Longrightarrow> owed d (fst (on_event ops ev w))"
proof -
  have "row_ok (fst (on_event ops ev w)) \<and> (owed d (fst w) \<longrightarrow> owed d (fst (on_event ops ev w)))"
  proof (cases ev)
    case (Rehydrate n)
    then show ?thesis
      using inert_keeps [OF list_all_take [OF plans_inert(1)]] assms by (metis on_event.simps(3))
  next
    case (Rearm n)
    then show ?thesis
      using inert_keeps [OF list_all_take [OF plans_inert(2)]] assms by (metis on_event.simps(4))
  next
    case (PersistEarliest e)
    then show ?thesis using assms
      by (cases "fst w") (force simp: row_ok_def owed_def row_defs min_bound_def split: option.splits)+
  next
    case Begin
    then show ?thesis using assms
      by (cases "fst w") (force simp: row_ok_def owed_def row_defs or_else_def Let_def split: option.splits)+
  qed (use assms schedule_prefix [OF assms(2)] in \<open>simp_all\<close>)
  then show "row_ok (fst (on_event ops ev w))" "owed d (fst w) \<Longrightarrow> owed d (fst (on_event ops ev w))"
    by blast+
qed

lemma run_keeps:
  assumes "list_all keeps es" and "row_ok (fst w)"
  shows "row_ok (fst (run ops es w)) \<and> (owed d (fst w) \<longrightarrow> owed d (fst (run ops es w)))"
  using assms
proof (induction es arbitrary: w)
  case (Cons ev es)
  then show ?case using event_keeps(1) [of ev w ops] event_keeps(2) [of ev w d ops] by (simp add: run_def)
qed (simp add: run_def)

text \<open>A pending deadline at or before \<open>d\<close>: what a handler's own scheduling leaves behind.\<close>

definition replaced :: "ms \<Rightarrow> alarm_table \<Rightarrow> bool" where
  "replaced d t \<longleftrightarrow> (\<exists>p. pending t = Some p \<and> p \<le> d)"

lemma replaced_schedule: "replaced e (fst w) \<Longrightarrow> replaced e (fst (on_event ops (Schedule n d) w))"
proof (cases rule: schedule_plan [where d = d and t = "fst w"])
  case (sooner rest)
  assume "replaced e (fst w)"
  moreover have "pending (fst (run_write ops (SetPending d) w)) = Some d"
    by (simp add: table_after_write pending_def setPending_def)
  moreover have "list_all inert (take m rest)" for m using sooner by (simp add: list_all_take)
  ultimately show ?thesis
    using sooner inert_keeps [of "take (n - 1) rest" "run_write ops (SetPending d) w" ops e]
    by (cases n) (auto simp: replaced_def)
next
  case (kept rest p)
  assume "replaced e (fst w)"
  moreover have "list_all inert (take n (schedule_writes d (fst w)))" using kept by (simp add: list_all_take)
  ultimately show ?thesis using inert_keeps [of _ w ops e] by (simp add: replaced_def)
qed

lemma replaced_event:
  assumes "keeps ev" and "ev \<noteq> Begin" and "replaced d (fst w)"
  shows "replaced d (fst (on_event ops ev w))"
proof (cases ev)
  case (Rehydrate n)
  then show ?thesis
    using inert_keeps [OF list_all_take [OF plans_inert(1), where n = n], where w = w and ops = ops and d = d] assms
    by (simp add: replaced_def)
next
  case (Rearm n)
  then show ?thesis
    using inert_keeps [OF list_all_take [OF plans_inert(2), where n = n], where w = w and ops = ops and d = d] assms
    by (simp add: replaced_def)
next
  case (PersistEarliest e)
  then show ?thesis using assms
    by (cases "fst w") (auto simp: replaced_def row_defs min_bound_def split: option.splits)
next
  case (Schedule n e)
  then show ?thesis using replaced_schedule assms(3) by blast
qed (use assms in simp_all)

lemma replaced_run:
  assumes "list_all (\<lambda>ev. keeps ev \<and> ev \<noteq> Begin) es" and "replaced d (fst w)"
  shows "replaced d (fst (run ops es w))"
  using assms
proof (induction es arbitrary: w)
  case (Cons ev es)
  then show ?case using replaced_event [of ev d w ops] by (simp add: run_def)
qed (simp add: run_def)

lemma run_Cons: "run ops (ev # es) w = run ops es (on_event ops ev w)"
  by (simp add: run_def)

context alarm_slot
begin

lemma set_if_sooner: "\<exists>r. so_get ops (snd (run_write ops (SetSlotIfSooner d) w)) = Some r \<and> r \<le> d"
  by (cases w; cases "so_get ops (snd w)") (auto simp: get_set)

lemma rehydrate_arms:
  assumes "row_ok (fst w)" and "owed d (fst w)"
  shows "\<exists>r. so_get ops (snd (rehydrate ops w)) = Some r \<and> r \<le> d"
proof (cases "cancelled (fst w)")
  case True
  with assms show ?thesis
    by (cases w) (auto simp: rehydrate_def rehydrate_writes_def owed_def row_ok_def row_defs get_set Let_def
        split: option.splits)
next
  case False
  with assms(2) obtain e where "earliest (fst w) = Some e" "e \<le> d"
    by (force simp: owed_def row_defs min_bound_def split: option.splits)
  with False set_if_sooner [of e w] show ?thesis
    by (auto simp: rehydrate_def rehydrate_writes_def Let_def)
qed

lemma scheduled_survives:
  assumes "row_ok (fst w)" and "0 < n" and "list_all keeps es"
  shows "\<exists>r. so_get ops (snd (rehydrate ops (run ops (Schedule n d # es) w))) = Some r \<and> r \<le> d"
proof -
  from schedule_prefix [OF assms(1)] assms(2)
  have "row_ok (fst (on_event ops (Schedule n d) w))" "owed d (fst (on_event ops (Schedule n d) w))"
    by blast+
  with run_keeps [OF assms(3), of "on_event ops (Schedule n d) w" ops d]
  show ?thesis by (simp add: run_Cons rehydrate_arms)
qed

lemma delivery_begun:
  assumes "row_ok (fst w)" and "owed d (fst w)"
    and "fst (handleAlarmDelivery ops es False w) = t"
    and "list_all keeps es"
  shows "row_ok t \<and> owed d t"
proof -
  obtain t0 dv where b: "beginDelivery (fst w) = (t0, dv)" by fastforce
  have "row_ok t0" "owed d t0" using event_keeps [of Begin w] assms(1,2) b by fastforce+
  with run_keeps [OF assms(4), of "(t0, snd w)" ops d] assms(3) b show ?thesis
    by (cases dv) (auto simp: handleAlarmDelivery_def)
qed

lemma rearmed:
  assumes "replaced d (fst w)"
  shows "fst (run_writes ops (rearm_writes (fst w)) w) = fst w"
    and "\<exists>r. so_get ops (snd (run_writes ops (rearm_writes (fst w)) w)) = Some r \<and> r \<le> d"
proof -
  from assms obtain p where p: "pending (fst w) = Some p" "p \<le> d" by (auto simp: replaced_def)
  then show "fst (run_writes ops (rearm_writes (fst w)) w) = fst w"
    by (simp add: rearm_writes_def table_after_write)
  from set_if_sooner [of p w] obtain r where
    "so_get ops (snd (run_write ops (SetSlotIfSooner p) w)) = Some r" "r \<le> p" by blast
  with p show "\<exists>r. so_get ops (snd (run_writes ops (rearm_writes (fst w)) w)) = Some r \<and> r \<le> d"
    by (simp add: rearm_writes_def)
qed

lemma acknowledgement_spares:
  assumes "row_ok (fst w)" and "snd (beginDelivery (fst w)) = Delivered (Some x)" and "0 < n"
    and "list_all (\<lambda>ev. keeps ev \<and> ev \<noteq> Begin) es"
    and "handleAlarmDelivery ops (Schedule n d # es) True w = (t, s)"
  shows "replaced d t \<and> (\<exists>r. so_get ops s = Some r \<and> r \<le> d)
    \<and> (\<forall>row. t = Some row \<longrightarrow> al_in_flight row = None)"
proof -
  obtain t0 where b: "beginDelivery (fst w) = (t0, Delivered (Some x))"
    using assms(2) by (cases "beginDelivery (fst w)") auto
  let ?w0 = "(t0, snd w)"
  let ?w1 = "run ops (Schedule n d # es) ?w0"
  have "row_ok (fst ?w0)" using event_keeps(1) [of Begin w] assms(1) b by simp
  from schedule_prefix(4) [OF this assms(3)] have "replaced d (fst (on_event ops (Schedule n d) ?w0))"
    by (simp add: replaced_def)
  then have rep: "replaced d (fst ?w1)" using replaced_run [OF assms(4)] by (simp add: run_Cons)
  have "(t, s) = (completeDelivery (fst ?w1), snd (run_writes ops (rearm_writes (fst ?w1)) ?w1))"
    using assms(5) rearmed(1) [OF rep] by (simp add: handleAlarmDelivery_def b split_beta Let_def)
  with rep rearmed(2) [OF rep] show ?thesis
    by (auto simp: replaced_def pending_def completeDelivery_def split: option.splits)
qed

lemma cancelled_stays_quiet:
  assumes "0 < n"
  shows "so_get ops (snd (rehydrate ops (on_event ops (Cancel n) w))) = None
    \<and> handleAlarmDelivery ops es ok (on_event ops (Cancel n) w) = on_event ops (Cancel n) w"
  using assms
  by (cases n; cases "n - 1"; cases w)
    (auto simp: cancel_writes_def rehydrate_def rehydrate_writes_def handleAlarmDelivery_def row_defs
      get_delete Let_def)

end

end
