(* ===== verification/Host_Alarms.thy ===== *)
theory Host_Alarms
  imports Alarm_Scheduler
begin

text \<open>
  The Node host's alarms: the durable deadline index of \<open>node/host-alarm-index.ts\<close> and the clock
  of \<open>node/host-alarm-clock.ts\<close> that claims due deadlines and delivers them. The index is the
  slot the session scheduler runs over, which is where \<open>alarm_slot\<close> is interpreted; a Durable
  Object's own alarm is the other instance.
\<close>

section \<open>The deadline index\<close>

record hx_row =
  hx_session :: string
  hx_deadline :: "ms option"
  hx_in_flight :: "ms option"
  hx_failures :: nat
  hx_token :: "string option"
  hx_lease :: "ms option"

type_synonym hx_table = "hx_row list"

record claimed =
  cl_deadline :: ms
  cl_failures :: nat
  cl_token :: string

definition is_session :: "string \<Rightarrow> hx_row \<Rightarrow> bool" where
  "is_session s r \<longleftrightarrow> hx_session r = s"

definition armed_row :: "string \<Rightarrow> ms \<Rightarrow> hx_row" where
  "armed_row s d = \<lparr>hx_session = s, hx_deadline = Some d, hx_in_flight = None, hx_failures = 0,
                    hx_token = None, hx_lease = None\<rparr>"

definition hx_get :: "string \<Rightarrow> hx_table \<Rightarrow> ms option" where
  "hx_get s t = (case find (is_session s) t of None \<Rightarrow> None | Some r \<Rightarrow> hx_deadline r)"

definition hx_set :: "string \<Rightarrow> ms \<Rightarrow> hx_table \<Rightarrow> hx_table" where
  "hx_set s d t =
     (if find (is_session s) t = None then t @ [armed_row s d]
      else sql_update (is_session s) (\<lambda>r. r\<lparr>hx_deadline := Some d, hx_failures := 0\<rparr>) t)"

text \<open>\<open>ON CONFLICT ... WHERE deadline IS NULL OR deadline > excluded.deadline\<close>.\<close>

definition sooner_than :: "ms \<Rightarrow> hx_row \<Rightarrow> bool" where
  "sooner_than d r = (case hx_deadline r of None \<Rightarrow> True | Some x \<Rightarrow> d < x)"

definition armIfSooner :: "string \<Rightarrow> ms \<Rightarrow> hx_table \<Rightarrow> hx_table \<times> bool" where
  "armIfSooner s d t =
     (case find (is_session s) t of
        None \<Rightarrow> (t @ [armed_row s d], True)
      | Some r \<Rightarrow>
          (sql_update (\<lambda>r. is_session s r \<and> sooner_than d r) (\<lambda>r. r\<lparr>hx_deadline := Some d\<rparr>) t,
           sooner_than d r))"

definition hx_delete :: "string \<Rightarrow> hx_table \<Rightarrow> hx_table" where
  "hx_delete s t =
     sql_update (is_session s) (\<lambda>r. r\<lparr>hx_deadline := None\<rparr>)
       (sql_delete (\<lambda>r. is_session s r \<and> hx_in_flight r = None) t)"

text \<open>\<open>armedRows\<close>: armed, allowed by the condition, not excluded; soonest first.\<close>

definition armedRows :: "(ms \<Rightarrow> bool) \<Rightarrow> string list \<Rightarrow> nat \<Rightarrow> hx_table \<Rightarrow> (string \<times> ms) list" where
  "armedRows condition excluding limit t =
     take limit (map (\<lambda>r. (hx_session r, the (hx_deadline r)))
       (sort_key (\<lambda>r. (the (hx_deadline r), hx_session r))
         (filter (\<lambda>r. hx_deadline r \<noteq> None \<and> condition (the (hx_deadline r))
                      \<and> hx_session r \<notin> set excluding) t)))"

definition hx_earliest :: "string list \<Rightarrow> hx_table \<Rightarrow> (string \<times> ms) option" where
  "hx_earliest excluding t =
     (case armedRows (\<lambda>_. True) excluding 1 t of [] \<Rightarrow> None | x # _ \<Rightarrow> Some x)"

text \<open>\<open>MIN(lease_expires_at)\<close> ignores rows without a lease.\<close>

definition earliestLease :: "hx_table \<Rightarrow> ms option" where
  "earliestLease t =
     fold (\<lambda>r acc. if hx_in_flight r = None then acc else min_present (hx_lease r) acc) t None"

definition due :: "ms \<Rightarrow> string list \<Rightarrow> nat \<Rightarrow> hx_table \<Rightarrow> (string \<times> ms) list" where
  "due now = armedRows (\<lambda>d. d \<le> now)"

text \<open>\<open>token\<close> is the fresh \<open>crypto.randomUUID()\<close>.\<close>

definition claim :: "string \<Rightarrow> ms \<Rightarrow> string \<Rightarrow> hx_table \<Rightarrow> hx_table \<times> claimed option" where
  "claim s leaseUntil token t =
     (case find (\<lambda>r. is_session s r \<and> hx_deadline r \<noteq> None) t of
        None \<Rightarrow> (t, None)
      | Some r \<Rightarrow>
          (sql_update (\<lambda>r. is_session s r \<and> hx_deadline r \<noteq> None)
             (\<lambda>r. r\<lparr>hx_in_flight := hx_deadline r, hx_deadline := None, hx_token := Some token,
                    hx_lease := Some leaseUntil\<rparr>) t,
           Some \<lparr>cl_deadline = the (hx_deadline r), cl_failures = hx_failures r, cl_token = token\<rparr>))"

definition holds_claim :: "string \<Rightarrow> string \<Rightarrow> hx_row \<Rightarrow> bool" where
  "holds_claim s token r \<longleftrightarrow> is_session s r \<and> hx_token r = Some token"

definition complete :: "string \<Rightarrow> string \<Rightarrow> hx_table \<Rightarrow> hx_table" where
  "complete s token t =
     sql_update (holds_claim s token)
       (\<lambda>r. r\<lparr>hx_in_flight := None, hx_failures := 0, hx_token := None, hx_lease := None\<rparr>)
       (sql_delete (\<lambda>r. hx_deadline r = None \<and> holds_claim s token r) t)"

definition retry :: "string \<Rightarrow> string \<Rightarrow> ms \<Rightarrow> hx_table \<Rightarrow> hx_table" where
  "retry s token at t =
     sql_update (holds_claim s token)
       (\<lambda>r. r\<lparr>hx_deadline := Some (min (nullish (hx_deadline r) at) at), hx_in_flight := None,
              hx_failures := hx_failures r + 1, hx_token := None, hx_lease := None\<rparr>) t"

definition foreign :: "string list \<Rightarrow> hx_row \<Rightarrow> bool" where
  "foreign owned r \<longleftrightarrow>
     hx_in_flight r \<noteq> None \<and> (owned \<noteq> [] \<longrightarrow> nullish (hx_token r) [] \<notin> set owned)"

definition recoverForeignClaims :: "string list \<Rightarrow> hx_table \<Rightarrow> hx_table \<times> string list" where
  "recoverForeignClaims owned t =
     (sql_update (foreign owned)
        (\<lambda>r. r\<lparr>hx_deadline := Some (min_bound (the (hx_in_flight r)) (hx_deadline r)),
               hx_in_flight := None, hx_token := None, hx_lease := None\<rparr>) t,
      map hx_session (filter (foreign owned) t))"

section \<open>The clock\<close>

definition MAX_RETRIES :: nat where "MAX_RETRIES = 6"
definition RETRY_BASE_DELAY_MS :: ms where "RETRY_BASE_DELAY_MS = 2000"
definition ALARM_CLAIM_LEASE_MS :: ms where "ALARM_CLAIM_LEASE_MS = 15 * 60 * 1000"

record flight =
  fl_session :: string
  fl_claim :: claimed
  fl_leaseUntil :: ms
  fl_abandoned :: bool

record clock =
  ck_index :: hx_table
  ck_inFlight :: "flight list"
  ck_running :: bool

definition liveDeliveries :: "clock \<Rightarrow> nat" where
  "liveDeliveries c = sql_count (\<lambda>f. \<not> fl_abandoned f) (ck_inFlight c)"

text \<open>The moment the timer is set for, and nothing when it stays unset (\<open>arm\<close>).\<close>

definition wake_at :: "nat \<Rightarrow> ms option \<Rightarrow> ms \<Rightarrow> clock \<Rightarrow> ms option" where
  "wake_at maxLive notBefore now c =
     (if \<not> ck_running c then None
      else
        let w1 = (case earliestLease (ck_index c) of
                    Some lease \<Rightarrow> if now < lease then Some (max lease (nullish notBefore lease)) else notBefore
                  | None \<Rightarrow> notBefore);
            w2 = (if liveDeliveries c < maxLive
                  then (case hx_earliest (map fl_session (ck_inFlight c)) (ck_index c) of
                          None \<Rightarrow> w1
                        | Some (s, d) \<Rightarrow>
                            let deadline = max d (nullish notBefore d) in
                            Some (min (nullish w1 deadline) deadline))
                  else w1) in
        w2)"

definition abandonExpiredDeliveries :: "ms \<Rightarrow> clock \<Rightarrow> clock" where
  "abandonExpiredDeliveries now c =
     c\<lparr>ck_inFlight := sql_update (\<lambda>f. \<not> fl_abandoned f \<and> fl_leaseUntil f \<le> now)
                        (\<lambda>f. f\<lparr>fl_abandoned := True\<rparr>) (ck_inFlight c)\<rparr>"

text \<open>One session of the claiming loop; \<open>Map.set\<close> replaces an entry of the same session.\<close>

definition claimOne :: "ms \<Rightarrow> (string \<Rightarrow> string) \<Rightarrow> string \<Rightarrow> clock \<Rightarrow> clock" where
  "claimOne leaseUntil fresh s c =
     (case claim s leaseUntil (fresh s) (ck_index c) of
        (t, None) \<Rightarrow> c\<lparr>ck_index := t\<rparr>
      | (t, Some cl) \<Rightarrow>
          c\<lparr>ck_index := t,
            ck_inFlight := filter (\<lambda>f. fl_session f \<noteq> s) (ck_inFlight c)
              @ [\<lparr>fl_session = s, fl_claim = cl, fl_leaseUntil = leaseUntil, fl_abandoned = False\<rparr>]\<rparr>)"

definition claimAndDeliver :: "nat \<Rightarrow> ms \<Rightarrow> (string \<Rightarrow> string) \<Rightarrow> clock \<Rightarrow> clock" where
  "claimAndDeliver maxLive now fresh c =
     (if maxLive \<le> liveDeliveries c then c
      else fold (claimOne (now + ALARM_CLAIM_LEASE_MS) fresh)
             (map fst (due now (map fl_session (ck_inFlight c)) (maxLive - liveDeliveries c) (ck_index c))) c)"

definition tick :: "nat \<Rightarrow> ms \<Rightarrow> (string \<Rightarrow> string) \<Rightarrow> clock \<Rightarrow> clock" where
  "tick maxLive now fresh c = claimAndDeliver maxLive now fresh (abandonExpiredDeliveries now c)"

text \<open>How the handler of a delivery ended; \<open>Unsettled\<close> is an index that threw while settling.\<close>

datatype outcome = Handled | Threw | Unsettled

definition deliverTo :: "string \<Rightarrow> claimed \<Rightarrow> outcome \<Rightarrow> ms \<Rightarrow> hx_table \<Rightarrow> hx_table" where
  "deliverTo s cl out now t =
     (if out = Unsettled then t
      else if MAX_RETRIES < cl_failures cl \<or> out = Handled then complete s (cl_token cl) t
      else if cl_failures cl < MAX_RETRIES
      then retry s (cl_token cl) (now + RETRY_BASE_DELAY_MS * 2 ^ cl_failures cl) t
      else complete s (cl_token cl) t)"

text \<open>A delivery settles and, when it is still the counted one, leaves the in-flight map.\<close>

definition settle_flight :: "flight \<Rightarrow> outcome \<Rightarrow> ms \<Rightarrow> clock \<Rightarrow> clock" where
  "settle_flight f out now c =
     c\<lparr>ck_index := deliverTo (fl_session f) (fl_claim f) out now (ck_index c),
       ck_inFlight := filter (\<lambda>g. \<not> (fl_session g = fl_session f
                                     \<and> cl_token (fl_claim g) = cl_token (fl_claim f))) (ck_inFlight c)\<rparr>"

definition start :: "clock \<Rightarrow> clock" where
  "start c = c\<lparr>ck_running := True,
     ck_index := fst (recoverForeignClaims (map (cl_token \<circ> fl_claim) (ck_inFlight c)) (ck_index c))\<rparr>"

definition stop_clock :: "clock \<Rightarrow> clock" where
  "stop_clock c = c\<lparr>ck_running := False\<rparr>"

text \<open>\<open>storeFor(sessionId)\<close>: the slot the session's scheduler runs over.\<close>

definition storeFor :: "string \<Rightarrow> hx_table slot_ops" where
  "storeFor s = \<lparr>so_get = hx_get s, so_set = hx_set s, so_delete = hx_delete s\<rparr>"

text \<open>A Durable Object's own alarm: one cell.\<close>

definition durable_object_alarm :: "ms option slot_ops" where
  "durable_object_alarm = \<lparr>so_get = (\<lambda>s. s), so_set = (\<lambda>d s. Some d), so_delete = (\<lambda>s. None)\<rparr>"

section \<open>The index as a slot\<close>

lemma get_set_index: "hx_get s (hx_set s d t) = Some d"
proof (cases "find (is_session s) t")
  case None
  then show ?thesis by (simp add: hx_get_def hx_set_def find_append armed_row_def is_session_def)
next
  case (Some r)
  then have "hx_session r = s" by (auto dest: find_SomeD simp: is_session_def)
  with Some show ?thesis by (simp add: hx_get_def hx_set_def find_sql_update is_session_def)
qed

lemma get_delete_index: "hx_get s (hx_delete s t) = None"
  by (induction t) (auto simp: hx_get_def hx_delete_def is_session_def split: option.splits)

interpretation host: alarm_slot "storeFor s" for s
  by unfold_locales (simp_all add: storeFor_def get_set_index get_delete_index)

interpretation object: alarm_slot durable_object_alarm
  by unfold_locales (simp_all add: durable_object_alarm_def)

section \<open>Properties of the session's deadlines\<close>

text \<open>
  C31. A scheduled deadline survives every crash. From any state of a session's deadline row and
  of its slot: once the first write of \<open>schedule(d)\<close> is on disk, then whatever happens short of a
  cancellation or an acknowledged delivery (operations cut off after any of their writes, the
  platform losing or moving the slot, deliveries begun and never finished), rehydrating arms
  the slot at \<open>d\<close> or sooner. It holds over the Node host's index and over a Durable Object's alarm.
\<close>

theorem scheduled_deadline_survives_crashes:
  assumes "row_ok t" and "0 < n" and "list_all keeps es" and "list_all keeps fs"
  shows "(\<exists>r. hx_get s (snd (rehydrate (storeFor s) (run (storeFor s) (Schedule n d # es) (t, ix)))) = Some r
            \<and> r \<le> d)
    \<and> (\<exists>r. snd (rehydrate durable_object_alarm
              (run durable_object_alarm (Schedule n d # fs) (t, cell))) = Some r \<and> r \<le> d)"
  using host.scheduled_survives [of "(t, ix)" n es s d]
    object.scheduled_survives [of "(t, cell)" n fs d] assms
  by (simp add: storeFor_def durable_object_alarm_def)

theorem scheduled_deadline_survives_crashes_witness:
  "\<exists>r. hx_get ''s'' (snd (rehydrate (storeFor ''s'') (run (storeFor ''s'')
       [Schedule 1 50, Begin, Slot (\<lambda>_. [])] (None, [])))) = Some r \<and> r \<le> 50"
  using scheduled_deadline_survives_crashes [of None 1 "[Begin, Slot (\<lambda>_. [])]" "[]" "''s''" 50 "[]" None]
  by (simp add: row_ok_def)

text \<open>
  Acknowledging a delivery never drops the deadline its handler armed. When a delivered
  alarm's handler schedules \<open>d\<close> and returns, then after the acknowledgement nothing is in
  flight, a pending deadline at \<open>d\<close> or sooner is on disk, and the slot is armed for it.
\<close>

theorem replacement_survives_acknowledgement:
  assumes "row_ok t" and "snd (beginDelivery t) = Delivered (Some x)" and "0 < n"
    and "list_all (\<lambda>ev. keeps ev \<and> ev \<noteq> Begin) es"
    and "handleAlarmDelivery (storeFor s) (Schedule n d # es) True (t, ix) = (t', ix')"
  shows "(\<exists>p. pending t' = Some p \<and> p \<le> d) \<and> (\<exists>r. hx_get s ix' = Some r \<and> r \<le> d)
    \<and> (\<forall>row. t' = Some row \<longrightarrow> al_in_flight row = None)"
  using host.acknowledgement_spares [of "(t, ix)" x n es s d t' ix'] assms
  by (simp add: replaced_def storeFor_def)

theorem replacement_survives_acknowledgement_witness:
  "\<exists>p. pending (fst (handleAlarmDelivery (storeFor ''s'') [Schedule 9 70] True
         (setPending 50 None, []))) = Some p \<and> p \<le> 70"
proof -
  let ?w = "handleAlarmDelivery (storeFor ''s'') [Schedule 9 70] True (setPending 50 None, [])"
  have "row_ok (setPending 50 None)" "snd (beginDelivery (setPending 50 None)) = Delivered (Some 50)"
    by (simp_all add: row_ok_def row_defs Let_def)
  from replacement_survives_acknowledgement [OF this, of 9 "[]" "''s''" 70 "[]" "fst ?w" "snd ?w"]
  show ?thesis by simp
qed

text \<open>
  A cancelled session stays quiet: once the first write of \<open>cancel\<close> is on disk no alarm is
  delivered to its handler, and rehydrating leaves no wake-up armed, even when the process died
  before the slot itself was deleted.
\<close>

theorem cancellation_is_durable:
  "hx_get s (snd (rehydrate (storeFor s) (on_event (storeFor s) (Cancel (Suc n)) (t, ix)))) = None
   \<and> handleAlarmDelivery (storeFor s) es ok (on_event (storeFor s) (Cancel (Suc n)) (t, ix))
       = on_event (storeFor s) (Cancel (Suc n)) (t, ix)"
  using host.cancelled_stays_quiet [of "Suc n" s "(t, ix)" es ok] by (simp add: storeFor_def)

section \<open>Reachable clocks\<close>

text \<open>The tokens in use, by the rows of the index and by the deliveries of this process.\<close>

definition tokens :: "clock \<Rightarrow> string set" where
  "tokens c = {x. \<exists>r \<in> set (ck_index c). hx_token r = Some x} \<union> (cl_token \<circ> fl_claim) ` set (ck_inFlight c)"

text \<open>A \<open>crypto.randomUUID()\<close> collides with no token in use and with no other it hands out.\<close>

definition fresh_tokens :: "(string \<Rightarrow> string) \<Rightarrow> clock \<Rightarrow> bool" where
  "fresh_tokens fresh c \<longleftrightarrow> inj fresh \<and> (\<forall>s. fresh s \<notin> tokens c)"

inductive clock_step :: "nat \<Rightarrow> clock \<Rightarrow> clock \<Rightarrow> bool" for maxLive where
  arm_deadline: "clock_step maxLive c (c\<lparr>ck_index := so_set (storeFor s) d (ck_index c)\<rparr>)"
| arm_sooner: "clock_step maxLive c (c\<lparr>ck_index := fst (armIfSooner s d (ck_index c))\<rparr>)"
| disarm: "clock_step maxLive c (c\<lparr>ck_index := so_delete (storeFor s) (ck_index c)\<rparr>)"
| tick: "fresh_tokens fresh c \<Longrightarrow> clock_step maxLive c (tick maxLive now fresh c)"
| settle: "f \<in> set (ck_inFlight c) \<Longrightarrow> clock_step maxLive c (settle_flight f out now c)"
| start: "clock_step maxLive c (start c)"
| stop: "clock_step maxLive c (stop_clock c)"
| crash: "clock_step maxLive c (c\<lparr>ck_inFlight := [], ck_running := False\<rparr>)"

inductive clock_reachable :: "nat \<Rightarrow> clock \<Rightarrow> bool" for maxLive where
  initial: "clock_reachable maxLive \<lparr>ck_index = [], ck_inFlight = [], ck_running = False\<rparr>"
| next_state: "clock_reachable maxLive c \<Longrightarrow> clock_step maxLive c c' \<Longrightarrow> clock_reachable maxLive c'"

text \<open>Each row alone: one of its slots is used, a token belongs to a claim, the budget holds.\<close>

definition hx_row_ok :: "hx_row \<Rightarrow> bool" where
  "hx_row_ok r \<longleftrightarrow> (hx_deadline r \<noteq> None \<or> hx_in_flight r \<noteq> None)
     \<and> (hx_token r \<noteq> None \<longrightarrow> hx_in_flight r \<noteq> None) \<and> hx_failures r \<le> MAX_RETRIES"

definition hx_table_ok :: "hx_table \<Rightarrow> bool" where
  "hx_table_ok t \<longleftrightarrow> distinct (map hx_session t) \<and> list_all hx_row_ok t"

lemmas hx_ok_defs = hx_table_ok_def list_all_iff is_session_def holds_claim_def

lemma hx_update_ok:
  assumes "hx_table_ok t" and "\<And>r. r \<in> set t \<Longrightarrow> p r \<Longrightarrow> hx_row_ok r \<Longrightarrow> hx_row_ok (f r)"
    and "\<And>r. hx_session (f r) = hx_session r"
  shows "hx_table_ok (sql_update p f t)"
  using assms
  by (auto simp: hx_table_ok_def list_all_iff map_sql_update elim!: sql_updateE simp del: set_map)

lemma hx_delete_ok: "hx_table_ok t \<Longrightarrow> hx_table_ok (sql_delete p t)"
  by (auto simp: hx_table_ok_def list_all_iff sql_delete_def distinct_map_filter)

lemma hx_insert_ok:
  assumes "hx_table_ok t" and "find (is_session s) t = None"
  shows "hx_table_ok (t @ [armed_row s d])"
  using assms
  by (auto simp: hx_table_ok_def list_all_iff find_None_iff is_session_def armed_row_def hx_row_ok_def)

lemma set_ok: "hx_table_ok t \<Longrightarrow> hx_table_ok (hx_set s d t)"
  by (auto simp: hx_set_def hx_insert_ok hx_row_ok_def intro!: hx_update_ok)

lemma sooner_ok: "hx_table_ok t \<Longrightarrow> hx_table_ok (fst (armIfSooner s d t))"
  by (auto simp: armIfSooner_def hx_insert_ok hx_row_ok_def intro!: hx_update_ok split: option.splits)

lemma disarm_ok: "hx_table_ok t \<Longrightarrow> hx_table_ok (hx_delete s t)"
  unfolding hx_delete_def
  by (intro hx_update_ok hx_delete_ok) (auto simp: hx_row_ok_def is_session_def)

lemma claimed_index_ok: "hx_table_ok t \<Longrightarrow> hx_table_ok (fst (claim s u tok t))"
  by (auto simp: claim_def hx_row_ok_def intro!: hx_update_ok split: option.splits)

lemma complete_ok: "hx_table_ok t \<Longrightarrow> hx_table_ok (complete s tok t)"
  unfolding complete_def
  by (intro hx_update_ok hx_delete_ok) (auto simp: hx_row_ok_def)

lemma recover_ok: "hx_table_ok t \<Longrightarrow> hx_table_ok (fst (recoverForeignClaims owned t))"
  by (auto simp: recoverForeignClaims_def hx_row_ok_def intro!: hx_update_ok)

lemma retry_ok:
  assumes "hx_table_ok t" and "\<forall>r \<in> set t. holds_claim s tok r \<longrightarrow> hx_failures r < MAX_RETRIES"
  shows "hx_table_ok (retry s tok at t)"
  unfolding retry_def using assms by (intro hx_update_ok) (auto simp: hx_row_ok_def)

text \<open>A claim's count of failures bounds the row's for as long as the claim is held.\<close>

definition budgeted :: "hx_table \<Rightarrow> flight \<Rightarrow> bool" where
  "budgeted t f \<longleftrightarrow>
     (\<forall>r \<in> set t. holds_claim (fl_session f) (cl_token (fl_claim f)) r \<longrightarrow> hx_failures r \<le> cl_failures (fl_claim f))"

definition no_new_claims :: "hx_table \<Rightarrow> hx_table \<Rightarrow> bool" where
  "no_new_claims t t' \<longleftrightarrow>
     (\<forall>r' \<in> set t'. hx_token r' \<noteq> None \<longrightarrow>
        (\<exists>r \<in> set t. hx_session r = hx_session r' \<and> hx_token r = hx_token r' \<and> hx_failures r' \<le> hx_failures r))"

lemma budgeted_mono: "no_new_claims t t' \<Longrightarrow> budgeted t f \<Longrightarrow> budgeted t' f"
  by (fastforce simp: no_new_claims_def budgeted_def holds_claim_def is_session_def)

lemma no_new_claims_update:
  assumes "\<And>r. p r \<Longrightarrow> hx_session (f r) = hx_session r"
    and "\<And>r. p r \<Longrightarrow> hx_token (f r) = None \<or> hx_token (f r) = hx_token r \<and> hx_failures (f r) \<le> hx_failures r"
  shows "no_new_claims t (sql_update p f t)"
  unfolding no_new_claims_def
proof (intro ballI impI)
  fix r'
  assume "r' \<in> set (sql_update p f t)" "hx_token r' \<noteq> None"
  then obtain r where r: "r \<in> set t" "r' = (if p r then f r else r)" by (auto elim: sql_updateE)
  with assms [of r] \<open>hx_token r' \<noteq> None\<close>
  have "hx_session r = hx_session r' \<and> hx_token r = hx_token r' \<and> hx_failures r' \<le> hx_failures r"
    by (cases "p r") auto
  with r(1) show "\<exists>r \<in> set t. hx_session r = hx_session r' \<and> hx_token r = hx_token r'
      \<and> hx_failures r' \<le> hx_failures r" by blast
qed

lemma no_new_claims_trans: "no_new_claims t u \<Longrightarrow> no_new_claims u v \<Longrightarrow> no_new_claims t v"
  unfolding no_new_claims_def by (metis order_trans)

lemma no_new_claims_delete: "no_new_claims t (sql_delete p t)"
  by (auto simp: no_new_claims_def)

lemma no_new_claims_insert: "no_new_claims t (t @ [armed_row s d])"
  by (auto simp: no_new_claims_def armed_row_def)

lemma no_new_claims_ops:
  "no_new_claims t (hx_set s d t)"
  "no_new_claims t (fst (armIfSooner s d t))"
  "no_new_claims t (hx_delete s t)"
  "no_new_claims t (complete s tok t)"
  "no_new_claims t (retry s tok at t)"
  "no_new_claims t (fst (recoverForeignClaims owned t))"
proof -
  show "no_new_claims t (hx_set s d t)" "no_new_claims t (fst (armIfSooner s d t))"
    by (auto simp: hx_set_def armIfSooner_def no_new_claims_insert intro!: no_new_claims_update
        split: option.splits)
  show "no_new_claims t (hx_delete s t)" "no_new_claims t (complete s tok t)"
    unfolding hx_delete_def complete_def
    by (rule no_new_claims_trans [OF no_new_claims_delete no_new_claims_update]; simp)+
  show "no_new_claims t (retry s tok at t)" "no_new_claims t (fst (recoverForeignClaims owned t))"
    unfolding retry_def recoverForeignClaims_def by (auto intro!: no_new_claims_update)
qed

definition clock_ok :: "nat \<Rightarrow> clock \<Rightarrow> bool" where
  "clock_ok maxLive c \<longleftrightarrow> hx_table_ok (ck_index c) \<and> list_all (budgeted (ck_index c)) (ck_inFlight c)
     \<and> distinct (map fl_session (ck_inFlight c)) \<and> liveDeliveries c \<le> maxLive"

lemma clock_ok_table: "clock_ok m c \<Longrightarrow> hx_table_ok (ck_index c)"
  by (simp add: clock_ok_def)

lemma clock_ok_index:
  assumes "clock_ok m c" and "hx_table_ok t" and "no_new_claims (ck_index c) t"
  shows "clock_ok m (c\<lparr>ck_index := t\<rparr>)"
  using assms budgeted_mono by (auto simp: clock_ok_def list_all_iff liveDeliveries_def)

lemma clock_ok_fewer:
  assumes "clock_ok m c"
  shows "clock_ok m (c\<lparr>ck_inFlight := filter p (ck_inFlight c)\<rparr>)"
proof -
  have "sql_count q (filter p xs) \<le> sql_count q xs" for q :: "flight \<Rightarrow> bool" and xs
    by (induction xs) auto
  from this [of "\<lambda>f. \<not> fl_abandoned f" "ck_inFlight c"] assms show ?thesis
    by (auto simp: clock_ok_def list_all_iff liveDeliveries_def distinct_map_filter)
qed

lemma clock_ok_abandon:
  assumes "clock_ok m c"
  shows "clock_ok m (abandonExpiredDeliveries now c)"
proof -
  have "liveDeliveries (abandonExpiredDeliveries now c) \<le> liveDeliveries c"
    unfolding liveDeliveries_def abandonExpiredDeliveries_def
    by (simp add: sql_count_update) (rule sql_count_mono, auto split: if_splits)
  with assms show ?thesis
    by (auto simp: clock_ok_def abandonExpiredDeliveries_def list_all_iff map_sql_update budgeted_def
        elim!: sql_updateE simp del: set_map)
qed

lemma claimed_row:
  assumes "hx_table_ok t" and "claim s u tok t = (t', Some cl)"
  shows "cl_token cl = tok"
    and "r' \<in> set t' \<Longrightarrow> hx_session r' = s \<Longrightarrow> hx_failures r' \<le> cl_failures cl"
    and "r' \<in> set t' \<Longrightarrow> hx_token r' = Some x \<Longrightarrow> x = tok \<or>
          (\<exists>r \<in> set t. hx_session r = hx_session r' \<and> hx_token r = Some x \<and> hx_failures r' = hx_failures r)"
proof -
  let ?p = "\<lambda>r. is_session s r \<and> hx_deadline r \<noteq> None"
  let ?f = "\<lambda>r. r\<lparr>hx_in_flight := hx_deadline r, hx_deadline := None, hx_token := Some tok,
                    hx_lease := Some u\<rparr>"
  from assms(2) obtain r where f: "find ?p t = Some r" "t' = sql_update ?p ?f t"
    "cl = \<lparr>cl_deadline = the (hx_deadline r), cl_failures = hx_failures r, cl_token = tok\<rparr>"
    by (auto simp: claim_def split: option.splits)
  then show "cl_token cl = tok" by simp
  from f(1) have r: "r \<in> set t" "hx_session r = s" by (auto dest!: find_SomeD simp: is_session_def)
  have only: "x = r" if "x \<in> set t" "hx_session x = s" for x
    using that r assms(1) by (auto simp: hx_table_ok_def distinct_map inj_on_def)
  have origin: "\<exists>q \<in> set t. r' = (if ?p q then ?f q else q)" if "r' \<in> set t'"
    using that unfolding f(2) by (rule sql_updateE) blast
  show "r' \<in> set t' \<Longrightarrow> hx_session r' = s \<Longrightarrow> hx_failures r' \<le> cl_failures cl"
    using origin only f(3) by (auto split: if_splits)
  show "r' \<in> set t' \<Longrightarrow> hx_token r' = Some x \<Longrightarrow> x = tok \<or>
      (\<exists>r \<in> set t. hx_session r = hx_session r' \<and> hx_token r = Some x \<and> hx_failures r' = hx_failures r)"
    using origin by (auto split: if_splits)
qed

lemma claimOne_ok:
  assumes "clock_ok m c" and "fresh s \<notin> tokens c"
  shows "hx_table_ok (ck_index (claimOne u fresh s c))"
    and "list_all (budgeted (ck_index (claimOne u fresh s c))) (ck_inFlight (claimOne u fresh s c))"
    and "distinct (map fl_session (ck_inFlight (claimOne u fresh s c)))"
    and "liveDeliveries (claimOne u fresh s c) \<le> Suc (liveDeliveries c)"
    and "tokens (claimOne u fresh s c) \<subseteq> insert (fresh s) (tokens c)"
proof -
  obtain t' r where cl: "claim s u (fresh s) (ck_index c) = (t', r)" by fastforce
  have ok: "hx_table_ok t'" using claimed_index_ok [of "ck_index c" s u "fresh s"] assms(1) cl
    by (simp add: clock_ok_def)
  have *: "hx_table_ok (ck_index (claimOne u fresh s c))
      \<and> list_all (budgeted (ck_index (claimOne u fresh s c))) (ck_inFlight (claimOne u fresh s c))
      \<and> distinct (map fl_session (ck_inFlight (claimOne u fresh s c)))
      \<and> liveDeliveries (claimOne u fresh s c) \<le> Suc (liveDeliveries c)
      \<and> tokens (claimOne u fresh s c) \<subseteq> insert (fresh s) (tokens c)"
  proof (cases r)
    case None
    then have "t' = ck_index c" using cl by (auto simp: claim_def split: option.splits)
    then have "claimOne u fresh s c = c" using None cl by (simp add: claimOne_def)
    then show ?thesis using assms(1) by (auto simp: clock_ok_def)
  next
    case (Some k)
    note row = claimed_row [OF _ cl [unfolded Some], OF assms(1) [unfolded clock_ok_def, THEN conjunct1]]
    let ?new = "\<lparr>fl_session = s, fl_claim = k, fl_leaseUntil = u, fl_abandoned = False\<rparr>"
    have c': "claimOne u fresh s c = c\<lparr>ck_index := t',
        ck_inFlight := filter (\<lambda>f. fl_session f \<noteq> s) (ck_inFlight c) @ [?new]\<rparr>"
      using cl Some by (simp add: claimOne_def)
    have "budgeted t' ?new" using row(2) by (auto simp: budgeted_def holds_claim_def is_session_def)
    moreover have "budgeted t' f" if "f \<in> set (ck_inFlight c)" for f
    proof -
      have "cl_token (fl_claim f) \<noteq> fresh s" using that assms(2) by (force simp: tokens_def)
      moreover have "budgeted (ck_index c) f" using that assms(1) by (simp add: clock_ok_def list_all_iff)
      ultimately show ?thesis using row(3) by (fastforce simp: budgeted_def holds_claim_def is_session_def)
    qed
    moreover have "sql_count (\<lambda>f. \<not> fl_abandoned f) (filter p xs) \<le> sql_count (\<lambda>f. \<not> fl_abandoned f) xs"
      for p :: "flight \<Rightarrow> bool" and xs by (induction xs) auto
    moreover have "tokens (claimOne u fresh s c) \<subseteq> insert (fresh s) (tokens c)"
      using row(1,3) unfolding c' tokens_def by fastforce
    ultimately show ?thesis
      using ok assms(1) unfolding c'
      by (auto simp: clock_ok_def list_all_iff liveDeliveries_def distinct_map_filter)
  qed
  then show "hx_table_ok (ck_index (claimOne u fresh s c))"
    "list_all (budgeted (ck_index (claimOne u fresh s c))) (ck_inFlight (claimOne u fresh s c))"
    "distinct (map fl_session (ck_inFlight (claimOne u fresh s c)))"
    "liveDeliveries (claimOne u fresh s c) \<le> Suc (liveDeliveries c)"
    "tokens (claimOne u fresh s c) \<subseteq> insert (fresh s) (tokens c)"
    by blast+
qed

lemma claim_loop_ok:
  assumes "clock_ok m c" and "inj fresh" and "distinct xs" and "\<forall>s \<in> set xs. fresh s \<notin> tokens c"
    and "liveDeliveries c + length xs \<le> m"
  shows "clock_ok m (fold (claimOne u fresh) xs c)"
  using assms
proof (induction xs arbitrary: c)
  case (Cons s xs)
  have new: "fresh s \<notin> tokens c" using Cons.prems by simp
  note one = claimOne_ok [where m = m and c = c and fresh = fresh and s = s and u = u, OF Cons.prems(1) new]
  have "clock_ok m (claimOne u fresh s c)"
    using one(1-4) Cons.prems(5) by (simp add: clock_ok_def)
  moreover have "\<forall>s' \<in> set xs. fresh s' \<notin> tokens (claimOne u fresh s c)"
    using one(5) Cons.prems(2-4) by (auto simp: inj_eq)
  ultimately show ?case
    using Cons.IH Cons.prems(2,3,5) one(4) by simp
qed simp

lemma due_bounded: "length (due now ex n t) \<le> n"
  by (simp add: due_def armedRows_def)

lemma due_sessions:
  assumes "hx_table_ok t"
  shows "distinct (map fst (due now ex n t))" and "set (map fst (due now ex n t)) \<inter> set ex = {}"
proof -
  let ?rows = "sort_key (\<lambda>r. (the (hx_deadline r), hx_session r))
         (filter (\<lambda>r. hx_deadline r \<noteq> None \<and> the (hx_deadline r) \<le> now \<and> hx_session r \<notin> set ex) t)"
  have eq: "map fst (due now ex n t) = take n (map hx_session ?rows)"
    by (simp add: due_def armedRows_def take_map comp_def)
  have "inj_on hx_session (set t)" "distinct t" using assms by (auto simp: hx_table_ok_def distinct_map)
  then have "distinct (map hx_session ?rows)" by (auto simp: distinct_map inj_on_def)
  with eq show "distinct (map fst (due now ex n t))" by simp
  show "set (map fst (due now ex n t)) \<inter> set ex = {}"
    unfolding eq by (auto dest!: in_set_takeD)
qed

lemma tick_ok:
  assumes "clock_ok m c" and "fresh_tokens fresh c"
  shows "clock_ok m (tick m now fresh c)"
proof -
  let ?c = "abandonExpiredDeliveries now c"
  have ok: "clock_ok m ?c" using assms(1) by (rule clock_ok_abandon)
  have "tokens ?c = tokens c"
  proof -
    have "(cl_token \<circ> fl_claim) ` set (sql_update p (\<lambda>f. f\<lparr>fl_abandoned := True\<rparr>) xs)
        = (cl_token \<circ> fl_claim) ` set xs" for p and xs :: "flight list" by (induction xs) auto
    then show ?thesis by (simp add: tokens_def abandonExpiredDeliveries_def)
  qed
  with assms(2) have fresh: "inj fresh" "\<forall>s. fresh s \<notin> tokens ?c" by (simp_all add: fresh_tokens_def)
  show ?thesis
  proof (cases "m \<le> liveDeliveries ?c")
    case False
    let ?xs = "map fst (due now (map fl_session (ck_inFlight ?c)) (m - liveDeliveries ?c) (ck_index ?c))"
    have "length ?xs \<le> m - liveDeliveries ?c" by (simp add: due_bounded)
    then have "liveDeliveries ?c + length ?xs \<le> m" using False by linarith
    moreover have "distinct ?xs" using ok by (intro due_sessions) (simp add: clock_ok_def)
    ultimately show ?thesis
      using claim_loop_ok [OF ok fresh(1), of ?xs] fresh(2) False
      by (simp add: tick_def claimAndDeliver_def)
  qed (use ok in \<open>simp add: tick_def claimAndDeliver_def\<close>)
qed

lemma deliverTo_ok:
  assumes "hx_table_ok t" and "budgeted t f"
  shows "hx_table_ok (deliverTo (fl_session f) (fl_claim f) out now t)"
    and "no_new_claims t (deliverTo (fl_session f) (fl_claim f) out now t)"
proof -
  have "no_new_claims t t" by (auto simp: no_new_claims_def)
  then show "no_new_claims t (deliverTo (fl_session f) (fl_claim f) out now t)"
    by (simp add: deliverTo_def no_new_claims_ops)
  show "hx_table_ok (deliverTo (fl_session f) (fl_claim f) out now t)"
    using assms
    by (auto simp: deliverTo_def complete_ok budgeted_def intro!: retry_ok elim: order_le_less_trans)
qed

lemma step_ok:
  assumes "clock_step m c c'" and "clock_ok m c"
  shows "clock_ok m c'"
  using assms(1)
proof cases
  case (settle f out now)
  with assms(2) have "hx_table_ok (ck_index c)" "budgeted (ck_index c) f"
    by (auto simp: clock_ok_def list_all_iff)
  from clock_ok_fewer [OF clock_ok_index [OF assms(2) deliverTo_ok [OF this, of out now]]] settle(1)
  show ?thesis by (simp add: settle_flight_def)
next
  case (tick fresh now)
  then show ?thesis using tick_ok assms(2) by blast
next
  case crash
  then show ?thesis using assms(2) by (simp add: clock_ok_def liveDeliveries_def)
next
  case stop
  then show ?thesis using assms(2) by (simp add: clock_ok_def liveDeliveries_def stop_clock_def)
next
  case start
  have "clock_ok m (c\<lparr>ck_index := fst (recoverForeignClaims (map (cl_token \<circ> fl_claim) (ck_inFlight c)) (ck_index c))\<rparr>)"
    using assms(2) by (intro clock_ok_index recover_ok no_new_claims_ops) (simp_all add: clock_ok_def)
  then show ?thesis using start by (simp add: clock_ok_def liveDeliveries_def start_def)
qed (use assms(2) in \<open>simp_all add: storeFor_def clock_ok_index clock_ok_table set_ok sooner_ok
       disarm_ok no_new_claims_ops\<close>)

lemma reachable_ok:
  assumes "clock_reachable m c"
  shows "clock_ok m c"
  using assms
proof induction
  case initial
  then show ?case by (simp add: clock_ok_def hx_table_ok_def liveDeliveries_def)
next
  case (next_state c c')
  then show ?case using step_ok by blast
qed



lemma no_token_no_effect:
  assumes "\<forall>r \<in> set t. hx_token r = None"
  shows "complete s tok t = t" and "retry s tok at t = t"
proof -
  have no: "\<not> holds_claim s tok r" if "r \<in> set t" for r using that assms by (simp add: holds_claim_def)
  have "sql_delete (\<lambda>r. hx_deadline r = None \<and> holds_claim s tok r) t = t"
    using no by (auto simp: sql_delete_def intro: filter_True)
  then show "complete s tok t = t" unfolding complete_def using no by (simp add: sql_update_idle)
  show "retry s tok at t = t" unfolding retry_def using no by (intro sql_update_idle)
qed

lemma sql_update_twice:
  assumes "x \<in> set (sql_update P g (sql_update p f t))" and "\<And>q. p q \<Longrightarrow> P (f q)"
  shows "\<exists>q \<in> set t. x = (if p q then g (f q) else if P q then g q else q)"
proof -
  from assms(1) obtain y where y: "y \<in> set (sql_update p f t)" "x = (if P y then g y else y)" by (rule sql_updateE)
  from y(1) obtain q where q: "q \<in> set t" "y = (if p q then f q else q)" by (rule sql_updateE)
  with y(2) assms(2) show ?thesis by (intro bexI [of _ q]) simp_all
qed



end
