(* ===== verification/Alarm_Policy.thy ===== *)
theory Alarm_Policy
  imports Lifecycle_Decisions Sandbox_Row
begin

text \<open>
  \<open>sandbox/lifecycle/alarm-policy.ts\<close>: the ordered watchdog policy, one finding per alarm. A
  healthy finding carries the delay to the next check; the theorems show that this delay can
  never step over a deadline the sandbox owes.
\<close>

record alarm_config =
  ac_connectingTimeoutMs :: ms
  ac_heartbeat :: heartbeat_config
  ac_bootBudgetMs :: ms
  ac_inactivity :: inactivity_config

datatype alarm_finding =
    Terminal
  | ConnectingTimeout ms
  | HeartbeatUnconfirmed ms ms
  | HeartbeatStale ms bool
  | BootBudgetExceeded ms
  | InactivityTimedOut ms ms
  | InactivityWarning ms
  | Healthy ms

definition evaluateAlarmPolicy ::
  "sandbox_row \<Rightarrow> alarm_config \<Rightarrow> ms \<Rightarrow> nat \<Rightarrow> alarm_finding" where
  "evaluateAlarmPolicy s cfg now clients =
     (if isDeadSandboxStatus (sb_status s) then Terminal
      else
        let connecting = evaluateConnectingTimeout (sb_status s) (sb_created_at s)
              (ac_connectingTimeoutMs cfg) now (sb_last_heartbeat s \<noteq> None) in
        if cr_isTimedOut connecting then ConnectingTimeout (cr_elapsedMs connecting)
        else (case evaluateHeartbeatHealth (sb_last_heartbeat s) (ac_heartbeat cfg) now of
            Some age \<Rightarrow>
              (let isBooting = (sb_status s = Spawning \<or> sb_status s = Connecting);
                   graceEndsAt = heartbeatGraceEndsAt (now - age) (ac_heartbeat cfg) in
               if \<not> isBooting \<and> now < graceEndsAt then HeartbeatUnconfirmed age graceEndsAt
               else HeartbeatStale age isBooting)
          | None \<Rightarrow>
              let budget = evaluateBootBudget (sb_status s) (sb_created_at s) (ac_bootBudgetMs cfg) now in
              if br_isExceeded budget then BootBudgetExceeded (br_elapsedMs budget)
              else (case evaluateInactivityTimeout
                      \<lparr>is_lastActivity = sb_last_activity s, is_status = sb_status s,
                       is_connectedClientCount = clients\<rparr> (ac_inactivity cfg) now of
                  InactivityTimeout idle \<Rightarrow> InactivityTimedOut idle (ic_timeoutMs (ac_inactivity cfg))
                | Extend e \<Rightarrow> InactivityWarning e
                | Schedule next \<Rightarrow>
                    Healthy (case sb_last_heartbeat s of
                        None \<Rightarrow> next
                      | Some h \<Rightarrow> min next (max 1 (heartbeatStaleAt h (ac_heartbeat cfg) - now))))))"

text \<open>When \<open>handleAlarm\<close> looks again after a finding it did not act on.\<close>

definition next_check :: "ms \<Rightarrow> alarm_finding \<Rightarrow> ms option" where
  "next_check now finding =
     (case finding of
        Healthy d \<Rightarrow> Some (now + d)
      | InactivityWarning e \<Rightarrow> Some (now + e)
      | HeartbeatUnconfirmed _ graceEndsAt \<Rightarrow> Some graceEndsAt
      | _ \<Rightarrow> None)"

section \<open>What the policy guarantees\<close>

lemmas policy_defs = evaluateAlarmPolicy_def evaluateConnectingTimeout_def evaluateHeartbeatHealth_def
  evaluateBootBudget_def evaluateInactivityTimeout_def Let_def

lemma terminal_iff: "evaluateAlarmPolicy s cfg now clients = Terminal \<longleftrightarrow> isDeadSandboxStatus (sb_status s)"
  by (simp add: evaluateAlarmPolicy_def Let_def split: option.split inactivity_action.split)

text \<open>Configurations that make progress: every delay the policy hands out is positive.\<close>

definition config_ok :: "alarm_config \<Rightarrow> bool" where
  "config_ok cfg \<longleftrightarrow>
     0 < ic_minCheckIntervalMs (ac_inactivity cfg) \<and> 0 < ic_extensionMs (ac_inactivity cfg)
     \<and> 0 \<le> hc_timeoutMs (ac_heartbeat cfg) \<and> 0 \<le> hc_reconnectGraceMs (ac_heartbeat cfg)"

lemma healthy_delay:
  assumes "evaluateAlarmPolicy s cfg now clients = Healthy d"
    and "0 < ic_minCheckIntervalMs (ac_inactivity cfg)"
  shows "1 \<le> d"
    and "sb_last_heartbeat s = Some h \<Longrightarrow> now + d \<le> heartbeatStaleAt h (ac_heartbeat cfg)"
  using assms
  by (auto simp: policy_defs heartbeatStaleAt_def
      split: if_splits option.splits inactivity_action.splits)

text \<open>A silent generation is in exactly one of three windows, by its last heartbeat alone.\<close>

lemma silence_windows:
  assumes "\<not> isDeadSandboxStatus (sb_status s)" and "sb_last_heartbeat s = Some h"
    and "sb_status s \<notin> {Spawning, Connecting}"
  shows "heartbeatGraceEndsAt h (ac_heartbeat cfg) \<le> now \<and> heartbeatStaleAt h (ac_heartbeat cfg) \<le> now
      \<Longrightarrow> evaluateAlarmPolicy s cfg now clients = HeartbeatStale (now - h) False"
    and "heartbeatStaleAt h (ac_heartbeat cfg) \<le> now \<Longrightarrow> now < heartbeatGraceEndsAt h (ac_heartbeat cfg)
      \<Longrightarrow> evaluateAlarmPolicy s cfg now clients
          = HeartbeatUnconfirmed (now - h) (heartbeatGraceEndsAt h (ac_heartbeat cfg))"
    and "evaluateAlarmPolicy s cfg now clients = HeartbeatUnconfirmed age g
      \<Longrightarrow> g = heartbeatGraceEndsAt h (ac_heartbeat cfg) \<and> heartbeatStaleAt h (ac_heartbeat cfg) \<le> now"
  using assms
  by (auto simp: policy_defs heartbeatStaleAt_def heartbeatGraceEndsAt_def
      split: if_splits option.splits inactivity_action.splits)

text \<open>The alarms a silent sandbox receives when nothing else touches its row: each check that
  does not act schedules the next one. \<open>fuel\<close> counts checks.\<close>

fun watch :: "nat \<Rightarrow> sandbox_row \<Rightarrow> alarm_config \<Rightarrow> nat \<Rightarrow> ms \<Rightarrow> (ms \<times> alarm_finding) option" where
  "watch 0 s cfg clients now = None"
| "watch (Suc fuel) s cfg clients now =
     (let f = evaluateAlarmPolicy s cfg now clients in
      case next_check now f of
        None \<Rightarrow> Some (now, f)
      | Some later \<Rightarrow> watch fuel s cfg clients later)"

lemma next_check_progress:
  assumes "config_ok cfg" and "next_check now (evaluateAlarmPolicy s cfg now clients) = Some later"
  shows "now < later"
proof (cases "evaluateAlarmPolicy s cfg now clients")
  case (Healthy d)
  then show ?thesis using assms healthy_delay(1) [OF Healthy] by (simp add: next_check_def config_ok_def)
next
  case (InactivityWarning e)
  then show ?thesis
    using assms by (auto simp: next_check_def policy_defs config_ok_def
        split: if_splits option.splits inactivity_action.splits)
next
  case (HeartbeatUnconfirmed age g)
  then show ?thesis
    using assms by (auto simp: next_check_def policy_defs
        split: if_splits option.splits inactivity_action.splits)
qed (use assms in \<open>simp_all add: next_check_def\<close>)

text \<open>Below a deadline \<open>D\<close> from which every finding acts, at most \<open>D - now\<close> checks remain.\<close>

lemma watch_reaches:
  assumes "config_ok cfg"
    and "\<And>t. D \<le> t \<Longrightarrow> next_check t (evaluateAlarmPolicy s cfg t clients) = None"
    and "\<And>t later. t < D \<Longrightarrow> next_check t (evaluateAlarmPolicy s cfg t clients) = Some later
          \<Longrightarrow> later \<le> E"
    and "now \<le> E" and "nat (D - now) < fuel"
  shows "\<exists>t. watch fuel s cfg clients now = Some (t, evaluateAlarmPolicy s cfg t clients)
      \<and> next_check t (evaluateAlarmPolicy s cfg t clients) = None \<and> now \<le> t \<and> t \<le> E"
  using assms(4,5)
proof (induction fuel arbitrary: now)
  case 0
  then show ?case by simp
next
  case (Suc fuel)
  show ?case
  proof (cases "next_check now (evaluateAlarmPolicy s cfg now clients)")
    case None
    then show ?thesis using Suc.prems by (auto simp: Let_def)
  next
    case (Some later)
    then have prog: "now < later" by (rule next_check_progress [OF assms(1)])
    from Some assms(2) [of now] have below: "now < D" by (cases "D \<le> now") auto
    with prog Suc.prems have "nat (D - later) < fuel" by linarith
    with Suc.IH [OF assms(3) [OF below Some]] prog Some show ?thesis
      by (auto simp: Let_def)
  qed
qed

text \<open>
  A runtime that falls silent is always noticed: the alarms the policy schedules for itself
  never end in waiting. For a booted sandbox whose last heartbeat was at \<open>h\<close>, watched from any
  moment up to the end of its reconnect grace, the chain of checks terminates (one check per
  elapsed millisecond is fuel enough, since every delay is positive) in a finding that stops
  the sandbox: heartbeat loss, or an earlier inactivity timeout. It does so at the end of the
  grace at the latest, or one inactivity extension later when a warning to connected clients
  was the check in between.
\<close>

theorem silent_runtime_is_noticed:
  assumes "config_ok cfg" and "\<not> isDeadSandboxStatus (sb_status s)"
    and "sb_status s \<notin> {Spawning, Connecting}" and "sb_last_heartbeat s = Some h"
    and "now \<le> heartbeatGraceEndsAt h (ac_heartbeat cfg)"
  shows "\<exists>t f. watch (Suc (nat (heartbeatGraceEndsAt h (ac_heartbeat cfg) - now))) s cfg clients now = Some (t, f)
      \<and> now \<le> t
      \<and> t \<le> heartbeatGraceEndsAt h (ac_heartbeat cfg) + ic_extensionMs (ac_inactivity cfg)
      \<and> (f = HeartbeatStale (t - h) False
         \<or> f = InactivityTimedOut (t - the (sb_last_activity s)) (ic_timeoutMs (ac_inactivity cfg)))"
proof -
  let ?D = "heartbeatGraceEndsAt h (ac_heartbeat cfg)"
  have order: "heartbeatStaleAt h (ac_heartbeat cfg) \<le> ?D" "0 < ic_extensionMs (ac_inactivity cfg)"
    using assms(1) by (simp_all add: heartbeatGraceEndsAt_def config_ok_def)
  note windows = silence_windows [OF assms(2,4,3)]
  have acts: "next_check t (evaluateAlarmPolicy s cfg t clients) = None" if "?D \<le> t" for t
    using windows(1) [of cfg t clients] that order by (simp add: next_check_def)
  have bound: "later \<le> ?D + ic_extensionMs (ac_inactivity cfg)"
    if "t < ?D" "next_check t (evaluateAlarmPolicy s cfg t clients) = Some later" for t later
  proof (cases "evaluateAlarmPolicy s cfg t clients")
    case (Healthy d)
    with that healthy_delay(2) [OF Healthy _ assms(4)] assms(1) order show ?thesis
      by (simp add: next_check_def config_ok_def)
  next
    case (InactivityWarning e)
    then have "e = ic_extensionMs (ac_inactivity cfg)"
      by (auto simp: policy_defs split: if_splits option.splits inactivity_action.splits)
    with that InactivityWarning show ?thesis by (simp add: next_check_def)
  next
    case (HeartbeatUnconfirmed age g)
    with that windows(3) [OF HeartbeatUnconfirmed] order show ?thesis by (simp add: next_check_def)
  qed (use that in \<open>simp_all add: next_check_def\<close>)
  have kind: "evaluateAlarmPolicy s cfg t clients = HeartbeatStale (t - h) False
      \<or> evaluateAlarmPolicy s cfg t clients
          = InactivityTimedOut (t - the (sb_last_activity s)) (ic_timeoutMs (ac_inactivity cfg))"
    if "next_check t (evaluateAlarmPolicy s cfg t clients) = None" for t
    using that assms(2-4)
    by (auto simp: policy_defs next_check_def split: if_splits option.splits inactivity_action.splits)
  have "now \<le> ?D + ic_extensionMs (ac_inactivity cfg)" using assms(5) order by linarith
  then have "\<exists>t. watch (Suc (nat (?D - now))) s cfg clients now
        = Some (t, evaluateAlarmPolicy s cfg t clients)
      \<and> next_check t (evaluateAlarmPolicy s cfg t clients) = None \<and> now \<le> t
      \<and> t \<le> ?D + ic_extensionMs (ac_inactivity cfg)"
    by (intro watch_reaches [where D = ?D, OF assms(1)]) (erule acts, erule (1) bound, simp_all)
  with kind show ?thesis by blast
qed

definition default_alarm_config :: alarm_config where
  "default_alarm_config =
     \<lparr>ac_connectingTimeoutMs = DEFAULT_CONNECTING_TIMEOUT_MS, ac_heartbeat = DEFAULT_HEARTBEAT_CONFIG,
      ac_bootBudgetMs = DEFAULT_BOOT_BUDGET_MS,
      ac_inactivity = inactivityConfigFor DEFAULT_INACTIVITY_CONFIG (Some FromUser)\<rparr>"

lemma default_deadlines:
  "config_ok default_alarm_config"
  "heartbeatGraceEndsAt h (ac_heartbeat default_alarm_config) = h + 150001"
  "ic_extensionMs (ac_inactivity default_alarm_config) = 300000"
  by (simp_all add: default_alarm_config_def config_ok_def status_defs DEFAULT_HEARTBEAT_CONFIG_def
      DEFAULT_INACTIVITY_CONFIG_def inactivityConfigFor_def heartbeatGraceEndsAt_def
      heartbeatStaleAt_def inactivity_config.defs Let_def)

theorem silent_runtime_is_noticed_witness:
  "\<exists>t f. watch (Suc (nat 150001)) (booting_row\<lparr>sb_status := Ready, sb_last_heartbeat := Some 1000\<rparr>)
      default_alarm_config 0 1000 = Some (t, f) \<and> t \<le> 451001"
proof -
  let ?s = "booting_row\<lparr>sb_status := Ready, sb_last_heartbeat := Some 1000\<rparr>"
  have row: "\<not> isDeadSandboxStatus (sb_status ?s)" "sb_status ?s \<notin> {Spawning, Connecting}"
    "sb_last_heartbeat ?s = Some 1000"
    by (simp_all add: status_defs)
  have "(1000 :: ms) \<le> heartbeatGraceEndsAt 1000 (ac_heartbeat default_alarm_config)"
    unfolding default_deadlines by simp
  from silent_runtime_is_noticed [OF default_deadlines(1) row this, of 0]
  show ?thesis unfolding default_deadlines by (auto simp del: watch.simps)
qed

end
