(* ===== verification/Shutdown_Record.thy ===== *)
theory Shutdown_Record
  imports Lifecycle_Decisions Sandbox_Row
begin

text \<open>
  The durable record of a sandbox's graceful shutdown: its schema and refinement
  (\<open>session/sandbox-shutdown-repository.ts\<close>, \<open>shared/src/types/sandbox-shutdown.ts\<close>), the
  record legacy state starts from, the launch policy, and the settlement of unanswered
  checkpoints (\<open>checkpoint-settlement.ts\<close>).
\<close>

section \<open>Records\<close>

datatype shutdown_phase =
    PhRunning | PhRestoring | PhDraining | PhPrepared | PhCapturing | PhRetiring
  | PhSaved | PhFailed | PhUnknown

datatype recovery_action = Retry | RestoreSaved | Discard

datatype lifecycle_policy = Confirmed | Legacy

datatype lifetime_kind = FiniteLife | NoLimit | UnknownLife

datatype lifetime_source = FromProvider | ConservativeBound

datatype receipt_kind = SnapshotReceipt | RetainedReceipt

datatype capture_kind = CheckpointCapture | ShutdownCapture

record receipt =
  rp_kind :: receipt_kind
  rp_captureKind :: "capture_kind option"
  rp_artifactId :: string
  rp_sourceObjectId :: "string option"
  rp_provider :: string
  rp_savedAtMs :: ms
  rp_runtimeVersion :: "string option"

datatype follow_up = Continue | StopSource

record capture_op =
  op_id :: string
  op_reason :: string
  op_after :: follow_up
  op_attempt :: nat
  op_deadlineAtMs :: ms
  op_settleAtMs :: ms
  op_uncertainAtMs :: "ms option"
  op_deferredUntilMs :: "ms option"

text \<open>
  An optional flag the code only ever compares with \<open>true\<close> is a \<open>bool\<close> here, absence being
  \<open>False\<close>; \<open>protocolVersion\<close> is the literal 1 or absent, so it is \<open>sh_protocol1\<close>.
\<close>

record shutdown_record =
  sh_phase :: shutdown_phase
  sh_reason :: "string option"
  sh_expiresAtMs :: "ms option"
  sh_drainAtMs :: "ms option"
  sh_savedAtMs :: "ms option"
  sh_error :: "string option"
  sh_continuationPaused :: "bool option"
  sh_generation :: generation
  sh_provider :: "string option"
  sh_providerObjectId :: "string option"
  sh_sourceRetired :: bool
  sh_lifetimeKind :: lifetime_kind
  sh_lifetimeSource :: "lifetime_source option"
  sh_protocol1 :: bool
  sh_generationReady :: bool
  sh_runtimeReady :: bool
  sh_lifecyclePolicy :: "lifecycle_policy option"
  sh_restoreInvoked :: bool
  sh_checkpointInFlight :: bool
  sh_captureOp :: "capture_op option"
  sh_runtimeFailure :: "(string \<times> ms) option"
  sh_captureFailure :: bool
  sh_discarding :: "string option"
  sh_operationId :: "string option"
  sh_messageId :: "string option"
  sh_stopByMs :: "ms option"
  sh_captureByMs :: "ms option"
  sh_retireByMs :: "ms option"
  sh_receipt :: "receipt option"

text \<open>The schema's field constraints and \<open>superRefine\<close>: a record \<open>stateSchema.parse\<close> accepts.\<close>

definition receipt_ok :: "receipt \<Rightarrow> bool" where
  "receipt_ok rp \<longleftrightarrow> rp_artifactId rp \<noteq> [] \<and> rp_sourceObjectId rp \<noteq> Some []"

definition incomplete :: "shutdown_record \<Rightarrow> bool" where
  "incomplete s \<longleftrightarrow>
     (sh_lifetimeKind s = FiniteLife \<and>
        (sh_expiresAtMs s = None \<or> (sh_lifecyclePolicy s \<noteq> Some Legacy \<and> sh_drainAtMs s = None)))
     \<or> (sh_phase s \<in> {PhSaved, PhRestoring, PhRetiring} \<and> sh_receipt s = None)
     \<or> (sh_phase s \<in> {PhDraining, PhPrepared, PhCapturing} \<and>
          (\<not> truthy (sh_operationId s) \<or> sh_stopByMs s = None \<or> sh_captureByMs s = None
           \<or> sh_retireByMs s = None))
     \<or> (sh_phase s = PhRetiring \<and> (\<not> truthy (sh_operationId s) \<or> sh_retireByMs s = None))"

definition record_ok :: "shutdown_record \<Rightarrow> bool" where
  "record_ok s \<longleftrightarrow> \<not> incomplete s
     \<and> (none_or (\<lambda>rp. receipt_ok rp) (sh_receipt s))
     \<and> (none_or (\<lambda>op. 1 \<le> op_attempt op) (sh_captureOp s))"

definition base_record :: "shutdown_phase \<Rightarrow> generation \<Rightarrow> string \<Rightarrow> shutdown_record" where
  "base_record ph g provider =
     \<lparr>sh_phase = ph, sh_reason = None, sh_expiresAtMs = None, sh_drainAtMs = None, sh_savedAtMs = None,
      sh_error = None, sh_continuationPaused = None, sh_generation = g, sh_provider = Some provider,
      sh_providerObjectId = None, sh_sourceRetired = False, sh_lifetimeKind = UnknownLife,
      sh_lifetimeSource = None, sh_protocol1 = False, sh_generationReady = False,
      sh_runtimeReady = False, sh_lifecyclePolicy = None, sh_restoreInvoked = False,
      sh_checkpointInFlight = False, sh_captureOp = None, sh_runtimeFailure = None,
      sh_captureFailure = False, sh_discarding = None, sh_operationId = None, sh_messageId = None,
      sh_stopByMs = None, sh_captureByMs = None, sh_retireByMs = None, sh_receipt = None\<rparr>"

text \<open>Legacy state: a row proves identity, not lifetime, handshake or a recovery receipt. It is
  asked of rows with a sandbox id only.\<close>

definition legacyShutdownRecord :: "sandbox_row \<Rightarrow> string \<Rightarrow> shutdown_record" where
  "legacyShutdownRecord row provider =
     (base_record PhRunning \<lparr>g_sandboxId = sb_modal_sandbox_id row, g_createdAt = sb_created_at row\<rparr> provider)
       \<lparr>sh_providerObjectId := sb_modal_object_id row, sh_lifecyclePolicy := Some Legacy\<rparr>"

section \<open>Launch policy\<close>

definition MIN_SHUTDOWN_PROTOCOL_RUNTIME_GENERATION :: nat where
  "MIN_SHUTDOWN_PROTOCOL_RUNTIME_GENERATION = 71"

definition supportsConfirmedShutdown :: "string option \<Rightarrow> bool" where
  "supportsConfirmedShutdown v =
     (case v of
        None \<Rightarrow> False
      | Some t \<Rightarrow> (case parseRuntimeVersionNumber t of
                    None \<Rightarrow> False
                  | Some n \<Rightarrow> MIN_SHUTDOWN_PROTOCOL_RUNTIME_GENERATION \<le> n))"

datatype launch_source = NewLaunch | ExistingLaunch

definition shutdownPolicyForLaunch :: "launch_source \<Rightarrow> string option \<Rightarrow> lifecycle_policy" where
  "shutdownPolicyForLaunch src v =
     (if src = NewLaunch then Confirmed
      else if supportsConfirmedShutdown v then Confirmed else Legacy)"

section \<open>Interruption texts and the prompt block\<close>

definition interruptionMessage :: "string \<Rightarrow> string" where
  "interruptionMessage reason =
     (if reason \<in> {''heartbeat_timeout'', ''prompt_dispatch_send_failed'', ''stop_send_failed'',
                   ''stop_alarm_failed'', ''stop_confirmation_timeout''}
      then ''The sandbox stopped responding.''
      else if reason = ''fatal_runtime_error'' then ''The sandbox runtime failed.''
      else if reason = ''inactivity_timeout''
      then ''The sandbox was stopped after a period of inactivity.''
      else if reason = ''sandbox_lifetime_expiring''
      then ''The sandbox reached its maximum lifetime.''
      else ''The sandbox was stopped.'')"

definition SANDBOX_REPLACED_ERROR :: string where
  "SANDBOX_REPLACED_ERROR = ''The sandbox was replaced while this prompt was running, so it was stopped. Send it again to continue.''"

text \<open>The public projection of a record (\<open>SandboxShutdownState\<close>).\<close>

record shutdown_view =
  sv_phase :: shutdown_phase
  sv_reason :: "string option"
  sv_expiresAtMs :: "ms option"
  sv_drainAtMs :: "ms option"
  sv_savedAtMs :: "ms option"
  sv_error :: "string option"
  sv_hasRecoveryPoint :: bool
  sv_actions :: "recovery_action list"
  sv_discardAvailable :: bool
  sv_continuationPaused :: bool

definition sandboxPromptBlockReason :: "shutdown_view option \<Rightarrow> string option" where
  "sandboxPromptBlockReason view =
     (case view of
        None \<Rightarrow> None
      | Some v \<Rightarrow>
          if sv_phase v \<noteq> PhFailed \<and> sv_phase v \<noteq> PhUnknown then None
          else if sv_actions v \<noteq> [] \<or> sv_discardAvailable v
          then Some ''New prompts are blocked until the sandbox is recovered. Use an available recovery action to continue.''
          else Some ''New prompts are blocked. No recovery action is currently available; start a new session to continue. Unsaved changes may be missing.'')"

section \<open>Settlement of unanswered checkpoints\<close>

datatype checkpoint_settlement =
    CWait "ms option"
  | CDrain
  | CRelease
  | CDefer ms
  | CHold
  | CHandoff

record settlement_input =
  si_op :: capture_op
  si_draining :: bool
  si_owned :: bool
  si_now :: ms
  si_drainAtMs :: "ms option"
  si_runtimeFailed :: bool
  si_row :: "(sandbox_status \<times> ms option) option"
  si_heartbeat :: heartbeat_config

definition row_live :: "heartbeat_config \<Rightarrow> ms \<Rightarrow> sandbox_status \<times> ms option \<Rightarrow> bool" where
  "row_live hc now row \<longleftrightarrow>
     (fst row = Snapshotting \<or> fst row = Ready) \<and> snd row \<noteq> None
     \<and> evaluateHeartbeatHealth (snd row) hc now = None"

definition decideCheckpointSettlement :: "settlement_input \<Rightarrow> checkpoint_settlement" where
  "decideCheckpointSettlement i =
     (let op = si_op i; now = si_now i; settleAt = op_settleAtMs op in
      if si_draining i
      then (if now < settleAt then CWait (Some settleAt)
            else if si_owned i then CWait None else CHandoff)
      else if (case si_drainAtMs i of None \<Rightarrow> False | Some d \<Rightarrow> d \<le> now) then CDrain
      else
        let bound = (\<lambda>t. min_bound t (si_drainAtMs i)) in
        if si_owned i then CWait (if now < settleAt then Some (bound settleAt) else si_drainAtMs i)
        else
          let dueAt = nullish (op_deferredUntilMs op) settleAt in
          if now < dueAt then CWait (Some (bound dueAt))
          else (case si_row i of
                  None \<Rightarrow> CHold
                | Some row \<Rightarrow>
                    if isDeadSandboxStatus (fst row) \<or> si_runtimeFailed i then CHold
                    else if row_live (si_heartbeat i) now row then CRelease
                    else if op_deferredUntilMs op = None
                    then CDefer (bound (now + hc_timeoutMs (si_heartbeat i)))
                    else CHold))"

text \<open>
  Until a checkpoint's settle time nothing may capture, stop or hand back its source: the
  decision is only to wait, to the settle time at the latest, or to let a due drain claim the
  session. After it the runtime is handed back only on live evidence (a live row status, a
  fresh heartbeat, no fatal report, no due drain, no owner still waiting), a shutdown takes
  over only in a drain that no owner holds, waiting is deferred at most once, and no wait
  outlasts the drain deadline.
\<close>

theorem settlement_is_cautious:
  assumes "decideCheckpointSettlement i = d" and "op = si_op i"
    and "\<And>t. op_deferredUntilMs op = Some t \<Longrightarrow> op_settleAtMs op \<le> t"
  shows "(si_now i < op_settleAtMs op \<longrightarrow>
            (\<exists>t. d = CWait (Some t) \<and> si_now i < t \<and> (op_deferredUntilMs op = None \<longrightarrow> t \<le> op_settleAtMs op)) \<or> d = CDrain)
    \<and> (d = CRelease \<longrightarrow> \<not> si_draining i \<and> \<not> si_owned i \<and> \<not> si_runtimeFailed i
         \<and> (\<forall>t. si_drainAtMs i = Some t \<longrightarrow> si_now i < t)
         \<and> (\<exists>st h. si_row i = Some (st, Some h) \<and> st \<in> {Snapshotting, Ready}
              \<and> si_now i - h \<le> hc_timeoutMs (si_heartbeat i)))
    \<and> (d = CHandoff \<longrightarrow> si_draining i \<and> \<not> si_owned i)
    \<and> (\<forall>t. d = CDefer t \<longrightarrow> op_deferredUntilMs op = None)
    \<and> (\<not> si_draining i \<longrightarrow> (\<forall>t u. (d = CWait (Some t) \<or> d = CDefer t) \<longrightarrow> si_drainAtMs i = Some u \<longrightarrow> t \<le> u))"
  using assms
  by (auto simp: decideCheckpointSettlement_def Let_def row_live_def evaluateHeartbeatHealth_def
      min_bound_def nullish_def split: if_splits option.splits)

definition demo_op :: capture_op where
  "demo_op = \<lparr>op_id = ''op'', op_reason = ''execution_complete'', op_after = Continue, op_attempt = 1,
     op_deadlineAtMs = 300000, op_settleAtMs = 330000, op_uncertainAtMs = None, op_deferredUntilMs = None\<rparr>"

theorem settlement_is_cautious_witness:
  "decideCheckpointSettlement \<lparr>si_op = demo_op, si_draining = False, si_owned = False, si_now = 330000,
      si_drainAtMs = Some 900000, si_runtimeFailed = False, si_row = Some (Snapshotting, Some 300000),
      si_heartbeat = DEFAULT_HEARTBEAT_CONFIG\<rparr> = CRelease
   \<and> 330000 - 300000 \<le> hc_timeoutMs DEFAULT_HEARTBEAT_CONFIG"
proof -
  let ?i = "\<lparr>si_op = demo_op, si_draining = False, si_owned = False, si_now = 330000,
      si_drainAtMs = Some 900000, si_runtimeFailed = False, si_row = Some (Snapshotting, Some 300000),
      si_heartbeat = DEFAULT_HEARTBEAT_CONFIG\<rparr>"
  have "decideCheckpointSettlement ?i = CRelease"
    by (simp add: decideCheckpointSettlement_def demo_op_def row_live_def evaluateHeartbeatHealth_def
        DEFAULT_HEARTBEAT_CONFIG_def status_defs)
  with settlement_is_cautious [OF this refl] show ?thesis by (simp add: demo_op_def)
qed

end
