(* ===== verification/Session_Core.thy ===== *)
theory Session_Core
  imports Complex_Main Session_Types
begin

text \<open>
  The session row and its member repositories (\<open>session/session-core-repository.ts\<close>), and
  the resolution of a requested repository against the members
  (\<open>session/repository-target.ts\<close>). Costs are exact rationals: rounding of the doubles that
  carry them is not modelled. Case folding and trimming are those of ASCII text, which owner
  and repository names are.
\<close>

section \<open>The session row\<close>

record session_row =
  sn_id :: string
  sn_sessionName :: "string option"
  sn_title :: "string option"
  sn_repoOwner :: "string option"
  sn_repoName :: "string option"
  sn_repoId :: "nat option"
  sn_baseBranch :: "string option"
  sn_branchName :: "string option"
  sn_baseSha :: "string option"
  sn_currentSha :: "string option"
  sn_agentSessionId :: "string option"
  sn_harness :: string
  sn_model :: string
  sn_reasoningEffort :: "string option"
  sn_status :: session_status
  sn_statusRevision :: nat
  sn_parentSessionId :: "string option"
  sn_spawnSource :: spawn_source
  sn_spawnDepth :: nat
  sn_codeServerEnabled :: bool
  sn_vncEnabled :: bool
  sn_totalCost :: rat
  sn_sandboxSettings :: "string option"
  sn_maxCostUsd :: "rat option"
  sn_budgetExhausted :: bool
  sn_environmentId :: "string option"
  sn_createdAt :: ms
  sn_updatedAt :: ms

record repository_row =
  rp_position :: nat
  rp_owner :: string
  rp_name :: string
  rp_repoId :: "nat option"
  rp_baseBranch :: string
  rp_branchName :: "string option"
  rp_baseSha :: "string option"
  rp_currentSha :: "string option"

record session_store =
  se_session :: "session_row list"
  se_repositories :: "repository_row list"

record upsert_session =
  us_id :: string
  us_sessionName :: string
  us_title :: "string option"
  us_repoOwner :: "string option"
  us_repoName :: "string option"
  us_repoId :: "nat option"
  us_baseBranch :: "string option"
  us_harness :: "string option"
  us_model :: string
  us_reasoningEffort :: "string option"
  us_status :: session_status
  us_parentSessionId :: "string option"
  us_spawnSource :: "spawn_source option"
  us_spawnDepth :: "nat option"
  us_codeServerEnabled :: bool
  us_vncEnabled :: bool
  us_sandboxSettings :: "string option"
  us_maxCostUsd :: "rat option"
  us_environmentId :: "string option"
  us_createdAt :: ms
  us_updatedAt :: ms

definition DEFAULT_BASE_BRANCH :: string where
  "DEFAULT_BASE_BRANCH = ''main''"

definition DEFAULT_HARNESS :: string where
  "DEFAULT_HARNESS = ''opencode''"

section \<open>Statements\<close>

definition getSession :: "session_store \<Rightarrow> session_row option" where
  "getSession s = (case se_session s of [] \<Rightarrow> None | r # _ \<Rightarrow> Some r)"

definition on_session :: "(session_row \<Rightarrow> session_row) \<Rightarrow> session_store \<Rightarrow> session_store" where
  "on_session f s =
     s\<lparr>se_session := (case se_session s of [] \<Rightarrow> [] | r # rs \<Rightarrow> f r # rs)\<rparr>"

definition on_session_id ::
  "string \<Rightarrow> (session_row \<Rightarrow> session_row) \<Rightarrow> session_store \<Rightarrow> session_store" where
  "on_session_id i f s = s\<lparr>se_session := sql_update (\<lambda>r. sn_id r = i) f (se_session s)\<rparr>"

text \<open>The columns an \<open>upsertSession\<close> takes from its data, on insert and on conflict.\<close>

definition upserted :: "upsert_session \<Rightarrow> session_row \<Rightarrow> session_row" where
  "upserted d r = r\<lparr>sn_sessionName := Some (us_sessionName d), sn_title := us_title d,
     sn_repoOwner := us_repoOwner d, sn_repoName := us_repoName d, sn_repoId := us_repoId d,
     sn_baseBranch := or_else (us_baseBranch d)
        (if us_repoOwner d \<noteq> None then Some DEFAULT_BASE_BRANCH else None),
     sn_harness := nullish (us_harness d) DEFAULT_HARNESS, sn_model := us_model d,
     sn_reasoningEffort := us_reasoningEffort d, sn_status := us_status d,
     sn_parentSessionId := us_parentSessionId d,
     sn_spawnSource := nullish (us_spawnSource d) FromUser,
     sn_spawnDepth := nullish (us_spawnDepth d) 0,
     sn_codeServerEnabled := us_codeServerEnabled d, sn_vncEnabled := us_vncEnabled d,
     sn_sandboxSettings := us_sandboxSettings d, sn_environmentId := us_environmentId d,
     sn_createdAt := us_createdAt d, sn_updatedAt := us_updatedAt d\<rparr>"

definition fresh_session :: "upsert_session \<Rightarrow> session_row" where
  "fresh_session d = upserted d
     \<lparr>sn_id = us_id d, sn_sessionName = None, sn_title = None, sn_repoOwner = None,
      sn_repoName = None, sn_repoId = None, sn_baseBranch = None, sn_branchName = None,
      sn_baseSha = None, sn_currentSha = None, sn_agentSessionId = None,
      sn_harness = DEFAULT_HARNESS, sn_model = [], sn_reasoningEffort = None,
      sn_status = SCreated, sn_statusRevision = 1, sn_parentSessionId = None,
      sn_spawnSource = FromUser, sn_spawnDepth = 0, sn_codeServerEnabled = False,
      sn_vncEnabled = False, sn_totalCost = 0, sn_sandboxSettings = None,
      sn_maxCostUsd = us_maxCostUsd d, sn_budgetExhausted = False, sn_environmentId = None,
      sn_createdAt = 0, sn_updatedAt = 0\<rparr>"

datatype upsert_error = HalfRepository | OrphanRepositoryFields

definition upsertSession ::
  "upsert_session \<Rightarrow> session_store \<Rightarrow> upsert_error + session_store" where
  "upsertSession d s =
     (if (us_repoOwner d \<noteq> None) \<noteq> (us_repoName d \<noteq> None) then Inl HalfRepository
      else if us_repoOwner d = None \<and> (us_repoId d \<noteq> None \<or> us_baseBranch d \<noteq> None)
      then Inl OrphanRepositoryFields
      else if us_id d \<in> set (map sn_id (se_session s))
      then Inr (on_session_id (us_id d) (upserted d) s)
      else Inr (s\<lparr>se_session := se_session s @ [fresh_session d]\<rparr>))"

definition updateSessionRepoId :: "nat \<Rightarrow> session_store \<Rightarrow> session_store" where
  "updateSessionRepoId i = on_session (\<lambda>r. r\<lparr>sn_repoId := Some i\<rparr>)"

definition updateSessionBranch :: "string \<Rightarrow> string \<Rightarrow> session_store \<Rightarrow> session_store" where
  "updateSessionBranch i branch = on_session_id i (\<lambda>r. r\<lparr>sn_branchName := Some branch\<rparr>)"

definition updateSessionCurrentSha :: "string \<Rightarrow> session_store \<Rightarrow> session_store" where
  "updateSessionCurrentSha sha = on_session (\<lambda>r. r\<lparr>sn_currentSha := Some sha\<rparr>)"

definition updateSessionTitle :: "string \<Rightarrow> string \<Rightarrow> ms \<Rightarrow> session_store \<Rightarrow> session_store" where
  "updateSessionTitle i title now =
     on_session_id i (\<lambda>r. r\<lparr>sn_title := Some title, sn_updatedAt := now\<rparr>)"

text \<open>SQLite's \<open>TRIM\<close> strips spaces.\<close>

definition title_unset :: "session_row \<Rightarrow> bool" where
  "title_unset r = (case sn_title r of None \<Rightarrow> True | Some t \<Rightarrow> list_all (\<lambda>c. c = CHR '' '') t)"

definition updateSessionTitleIfUnset ::
  "string \<Rightarrow> string \<Rightarrow> ms \<Rightarrow> session_store \<Rightarrow> session_store \<times> bool" where
  "updateSessionTitleIfUnset i title now s =
     (let p = (\<lambda>r. sn_id r = i \<and> title_unset r) in
      (s\<lparr>se_session := sql_update p (\<lambda>r. r\<lparr>sn_title := Some title, sn_updatedAt := now\<rparr>) (se_session s)\<rparr>,
       0 < sql_count p (se_session s)))"

definition updateSessionStatus ::
  "string \<Rightarrow> session_status \<Rightarrow> ms \<Rightarrow> session_store \<Rightarrow> session_store" where
  "updateSessionStatus i status now =
     on_session_id i (\<lambda>r. r\<lparr>sn_status := status, sn_updatedAt := now,
                            sn_statusRevision := sn_statusRevision r + 1\<rparr>)"

text \<open>\<open>RETURNING total_cost\<close> of the one session row; no row is an error.\<close>

definition addSessionCost :: "rat \<Rightarrow> ms \<Rightarrow> session_store \<Rightarrow> (session_store \<times> rat) option" where
  "addSessionCost cost now s =
     (case getSession s of
        None \<Rightarrow> None
      | Some r \<Rightarrow> Some (on_session (\<lambda>r. r\<lparr>sn_totalCost := sn_totalCost r + cost, sn_updatedAt := now\<rparr>) s,
                       sn_totalCost r + cost))"

definition setSessionBudget :: "rat option \<Rightarrow> bool \<Rightarrow> ms \<Rightarrow> session_store \<Rightarrow> session_store" where
  "setSessionBudget limit exhausted now =
     on_session (\<lambda>r. r\<lparr>sn_maxCostUsd := limit, sn_budgetExhausted := exhausted, sn_updatedAt := now\<rparr>)"

definition markBudgetExhausted :: "ms \<Rightarrow> session_store \<Rightarrow> session_store" where
  "markBudgetExhausted now =
     on_session (\<lambda>r. r\<lparr>sn_budgetExhausted := True, sn_updatedAt := now\<rparr>)"

record repository_data =
  rd_position :: nat
  rd_owner :: string
  rd_name :: string
  rd_repoId :: "nat option"
  rd_baseBranch :: string

definition repository_of :: "repository_data \<Rightarrow> repository_row" where
  "repository_of d = \<lparr>rp_position = rd_position d, rp_owner = rd_owner d, rp_name = rd_name d,
     rp_repoId = rd_repoId d, rp_baseBranch = rd_baseBranch d, rp_branchName = None,
     rp_baseSha = None, rp_currentSha = None\<rparr>"

text \<open>A repeated \<open>(owner, name)\<close> violates the primary key.\<close>

definition replaceSessionRepositories ::
  "repository_data list \<Rightarrow> session_store \<Rightarrow> session_store option" where
  "replaceSessionRepositories ds s =
     (if distinct (map (\<lambda>d. (rd_owner d, rd_name d)) ds)
      then Some (s\<lparr>se_repositories := map repository_of ds\<rparr>) else None)"

definition getSessionRepositoryRows :: "session_store \<Rightarrow> repository_row list" where
  "getSessionRepositoryRows s = sort_key rp_position (se_repositories s)"

definition updateSessionRepositoryBranch ::
  "string \<Rightarrow> string \<Rightarrow> string \<Rightarrow> session_store \<Rightarrow> session_store" where
  "updateSessionRepositoryBranch owner name branch s =
     s\<lparr>se_repositories := sql_update (\<lambda>r. rp_owner r = owner \<and> rp_name r = name)
        (\<lambda>r. r\<lparr>rp_branchName := Some branch\<rparr>) (se_repositories s)\<rparr>"

section \<open>ASCII case and blanks\<close>

definition lower_char :: "char \<Rightarrow> char" where
  "lower_char c = (let n = (of_char c :: nat) in
     if 65 \<le> n \<and> n \<le> 90 then char_of (n + 32) else c)"

definition toLowerCase :: "string \<Rightarrow> string" where
  "toLowerCase s = map lower_char s"

definition is_blank :: "char \<Rightarrow> bool" where
  "is_blank c \<longleftrightarrow> (of_char c :: nat) \<in> {9, 10, 11, 12, 13, 32}"

definition trim :: "string \<Rightarrow> string" where
  "trim s = rev (dropWhile is_blank (rev (dropWhile is_blank s)))"

record diff_baseline =
  db_position :: nat
  db_owner :: string
  db_name :: string
  db_baseSha :: string
  db_isPrimary :: bool

text \<open>One repository of \<open>setSessionDiffBaselines\<close>: a baseline is written once
  (\<open>COLLATE NOCASE\<close> compares ASCII case-insensitively).\<close>

definition set_baseline :: "diff_baseline \<Rightarrow> session_store \<Rightarrow> session_store" where
  "set_baseline b s =
     (let s1 = s\<lparr>se_repositories := sql_update
            (\<lambda>r. rp_position r = db_position b \<and> toLowerCase (rp_owner r) = toLowerCase (db_owner b)
               \<and> toLowerCase (rp_name r) = toLowerCase (db_name b) \<and> rp_baseSha r = None)
            (\<lambda>r. r\<lparr>rp_baseSha := Some (db_baseSha b)\<rparr>) (se_repositories s)\<rparr> in
      if db_isPrimary b
      then s1\<lparr>se_session := sql_update
            (\<lambda>r. map_option toLowerCase (sn_repoOwner r) = Some (toLowerCase (db_owner b))
               \<and> map_option toLowerCase (sn_repoName r) = Some (toLowerCase (db_name b))
               \<and> sn_baseSha r = None)
            (\<lambda>r. r\<lparr>sn_baseSha := Some (db_baseSha b)\<rparr>) (se_session s1)\<rparr>
      else s1)"

definition setSessionDiffBaselines :: "diff_baseline list \<Rightarrow> session_store \<Rightarrow> session_store" where
  "setSessionDiffBaselines bs s = foldl (\<lambda>s b. set_baseline b s) s bs"

section \<open>Repository targets\<close>

record repository_entry =
  re_owner :: string
  re_name :: string
  re_position :: nat
  re_baseBranch :: "string option"
  re_isPrimary :: bool
  re_row :: "repository_row option"

definition repoIdentityEquals :: "string \<times> string \<Rightarrow> string \<times> string \<Rightarrow> bool" where
  "repoIdentityEquals a b \<longleftrightarrow>
     toLowerCase (fst a) = toLowerCase (fst b) \<and> toLowerCase (snd a) = toLowerCase (snd b)"

definition buildSessionRepositories ::
  "string \<times> string \<Rightarrow> string option \<Rightarrow> repository_row list \<Rightarrow> repository_entry list" where
  "buildSessionRepositories scalar baseBranch rows =
     (if rows = []
      then [\<lparr>re_owner = fst scalar, re_name = snd scalar, re_position = 0,
             re_baseBranch = baseBranch, re_isPrimary = True, re_row = None\<rparr>]
      else map (\<lambda>r. \<lparr>re_owner = rp_owner r, re_name = rp_name r, re_position = rp_position r,
             re_baseBranch = Some (rp_baseBranch r),
             re_isPrimary = repoIdentityEquals (rp_owner r, rp_name r) scalar,
             re_row = Some r\<rparr>) rows)"

definition getSessionRepositories :: "session_store \<Rightarrow> repository_entry list" where
  "getSessionRepositories s =
     (case getSession s of
        None \<Rightarrow> []
      | Some r \<Rightarrow>
          if \<not> truthy (sn_repoOwner r) \<or> \<not> truthy (sn_repoName r) then []
          else buildSessionRepositories (the (sn_repoOwner r), the (sn_repoName r))
                 (sn_baseBranch r) (getSessionRepositoryRows s))"

datatype target_error = NoMembers | HalfPair | AmbiguousTarget | NotMember

definition normalized_field :: "string option \<Rightarrow> string option" where
  "normalized_field x =
     (case x of None \<Rightarrow> None
      | Some t \<Rightarrow> let n = toLowerCase (trim t) in if n = [] then None else Some n)"

definition normalizeOptionalRepositoryPair ::
  "string option \<Rightarrow> string option \<Rightarrow> target_error + (string \<times> string) option" where
  "normalizeOptionalRepositoryPair owner name =
     (case (normalized_field owner, normalized_field name) of
        (None, None) \<Rightarrow> Inr None
      | (Some r, Some n) \<Rightarrow> Inr (Some (r, n))
      | _ \<Rightarrow> Inl HalfPair)"

definition resolveSessionRepositoryTarget ::
  "string option \<Rightarrow> string option \<Rightarrow> repository_entry list \<Rightarrow> target_error + repository_entry" where
  "resolveSessionRepositoryTarget owner name members =
     (if members = [] then Inl NoMembers
      else (case normalizeOptionalRepositoryPair owner name of
              Inl e \<Rightarrow> Inl e
            | Inr None \<Rightarrow> if 1 < length members then Inl AmbiguousTarget else Inr (hd members)
            | Inr (Some pair) \<Rightarrow>
                (case find (\<lambda>m. repoIdentityEquals (re_owner m, re_name m) pair) members of
                   None \<Rightarrow> Inl NotMember
                 | Some m \<Rightarrow> Inr m)))"

fun mapRepositoryTargetError :: "target_error \<Rightarrow> nat option" where
  "mapRepositoryTargetError NotMember = Some 403"
| "mapRepositoryTargetError AmbiguousTarget = Some 400"
| "mapRepositoryTargetError HalfPair = Some 400"
| "mapRepositoryTargetError NoMembers = None"

section \<open>Lemmas\<close>

lemma on_session_simps [simp]:
  "getSession (on_session f s) = map_option f (getSession s)"
  "se_repositories (on_session f s) = se_repositories s"
  "map sn_id (se_session (on_session f s)) = map sn_id (se_session s) \<longleftrightarrow>
     (case getSession s of None \<Rightarrow> True | Some r \<Rightarrow> sn_id (f r) = sn_id r)"
  by (auto simp: getSession_def on_session_def split: list.splits)

lemma getSession_on_id:
  assumes "getSession s = Some r" and "sn_id r = i"
  shows "getSession (on_session_id i f s) = Some (f r)"
  using assms by (auto simp: getSession_def on_session_id_def split: list.splits)

text \<open>
  A request can only ever reach a repository of its own session: whatever owner and name
  a caller supplies, a resolved target is one of the session's members; when it named a
  repository, the member is that repository up to case and surrounding blanks, and when it
  named none, the session has exactly one member.
\<close>

theorem repository_target_is_a_member:
  assumes "resolveSessionRepositoryTarget owner name members = Inr m"
  shows "m \<in> set members \<and>
    (if normalized_field owner = None then members = [m]
     else toLowerCase (re_owner m) = toLowerCase (toLowerCase (trim (the owner)))
        \<and> toLowerCase (re_name m) = toLowerCase (toLowerCase (trim (the name))))"
proof (cases "normalizeOptionalRepositoryPair owner name")
  case (Inl e)
  with assms show ?thesis by (simp add: resolveSessionRepositoryTarget_def split: if_splits)
next
  case (Inr p)
  show ?thesis
  proof (cases p)
    case None
    with Inr assms have "members = [m]"
      by (cases members) (auto simp: resolveSessionRepositoryTarget_def split: if_splits)
    moreover have "normalized_field owner = None"
      using Inr None
      by (auto simp: normalizeOptionalRepositoryPair_def split: option.splits)
    ultimately show ?thesis by simp
  next
    case (Some pair)
    with Inr have fields: "normalized_field owner = Some (fst pair)" "normalized_field name = Some (snd pair)"
      by (auto simp: normalizeOptionalRepositoryPair_def split: option.splits)
    then have "fst pair = toLowerCase (trim (the owner))" "snd pair = toLowerCase (trim (the name))"
      by (auto simp: normalized_field_def Let_def split: option.splits if_splits)
    moreover have "find (\<lambda>m. repoIdentityEquals (re_owner m, re_name m) pair) members = Some m"
      using assms Inr Some
      by (auto simp: resolveSessionRepositoryTarget_def split: if_splits option.splits)
    note find_SomeD [OF this]
    ultimately show ?thesis using fields by (auto simp: repoIdentityEquals_def)
  qed
qed

definition demo_member :: repository_entry where
  "demo_member = \<lparr>re_owner = ''Acme'', re_name = ''app'', re_position = 0,
     re_baseBranch = Some ''main'', re_isPrimary = True, re_row = None\<rparr>"

theorem repository_target_is_a_member_witness:
  "resolveSessionRepositoryTarget (Some '' acme'') (Some ''APP'') [demo_member] = Inr demo_member
   \<and> demo_member \<in> set [demo_member]"
proof -
  have "resolveSessionRepositoryTarget (Some '' acme'') (Some ''APP'') [demo_member] = Inr demo_member"
    by code_simp
  with repository_target_is_a_member [OF this] show ?thesis by blast
qed

text \<open>The \<open>CHECK\<close> constraint of the session table.\<close>

definition session_check :: "session_row \<Rightarrow> bool" where
  "session_check r \<longleftrightarrow> (sn_repoOwner r = None) = (sn_repoName r = None)
     \<and> (sn_repoOwner r \<noteq> None \<or> sn_repoId r = None \<and> sn_baseBranch r = None)"

text \<open>
  Initialising a session again never disturbs its working state: an accepted upsert keeps
  the spent cost, the live limit, the exhaustion flag, the working branch and shas and the
  status revision of the row it meets, and what it writes satisfies the table's CHECK
  constraint, while data that would violate it is refused before any statement runs.
\<close>

theorem upsert_keeps_working_state:
  assumes "getSession s = Some r" and "sn_id r = us_id d"
  shows "case upsertSession d s of
      Inl _ \<Rightarrow> (us_repoOwner d = None) \<noteq> (us_repoName d = None)
              \<or> us_repoOwner d = None \<and> (us_repoId d \<noteq> None \<or> us_baseBranch d \<noteq> None)
    | Inr s' \<Rightarrow> (\<exists>r'. getSession s' = Some r' \<and> session_check r'
        \<and> sn_totalCost r' = sn_totalCost r \<and> sn_maxCostUsd r' = sn_maxCostUsd r
        \<and> sn_budgetExhausted r' = sn_budgetExhausted r \<and> sn_branchName r' = sn_branchName r
        \<and> sn_baseSha r' = sn_baseSha r \<and> sn_currentSha r' = sn_currentSha r
        \<and> sn_statusRevision r' = sn_statusRevision r)"
proof -
  have "us_id d \<in> set (map sn_id (se_session s))"
    using assms by (auto simp: getSession_def split: list.splits)
  with assms getSession_on_id [OF assms(1), of "us_id d" "upserted d"] show ?thesis
    by (auto simp: upsertSession_def upserted_def session_check_def or_else_def split: option.splits)
qed

definition demo_upsert :: upsert_session where
  "demo_upsert = \<lparr>us_id = ''s'', us_sessionName = ''n'', us_title = None, us_repoOwner = None,
     us_repoName = None, us_repoId = None, us_baseBranch = None, us_harness = None,
     us_model = ''m'', us_reasoningEffort = None, us_status = SCreated, us_parentSessionId = None,
     us_spawnSource = None, us_spawnDepth = None, us_codeServerEnabled = False,
     us_vncEnabled = False, us_sandboxSettings = None, us_maxCostUsd = Some 9,
     us_environmentId = None, us_createdAt = 0, us_updatedAt = 0\<rparr>"

definition demo_session :: session_row where
  "demo_session = (fresh_session demo_upsert)\<lparr>sn_totalCost := 3, sn_maxCostUsd := Some 5\<rparr>"

theorem upsert_keeps_working_state_witness:
  "case upsertSession demo_upsert \<lparr>se_session = [demo_session], se_repositories = []\<rparr> of
     Inl _ \<Rightarrow> False
   | Inr s' \<Rightarrow> \<exists>r'. getSession s' = Some r' \<and> sn_maxCostUsd r' = Some 5 \<and> sn_totalCost r' = 3"
proof -
  have "getSession \<lparr>se_session = [demo_session], se_repositories = []\<rparr> = Some demo_session"
    by (simp add: getSession_def)
  from upsert_keeps_working_state [OF this, where d = demo_upsert]
  show ?thesis
    by (auto simp: demo_session_def demo_upsert_def fresh_session_def upserted_def split: sum.splits)
qed

end
