(* ===== verification/Paging.thy ===== *)
theory Paging
  imports Prelude
begin

text \<open>
  Keyset pagination, the interface the event timeline and the message list share: a page is
  the newest \<open>limit\<close> rows below a cursor, fetched with one row to spare to learn whether more
  follow. The locale states what the query answers; that following the cursors visits every
  row once and in order is proved from it once.
\<close>

definition newest_first :: "('r \<Rightarrow> 'k::linorder) \<Rightarrow> 'r list \<Rightarrow> 'r list" where
  "newest_first k rows = rev (sort_key k rows)"

definition below :: "('r \<Rightarrow> 'k::linorder) \<Rightarrow> 'k option \<Rightarrow> 'r \<Rightarrow> bool" where
  "below k after r = (case after of None \<Rightarrow> True | Some c \<Rightarrow> k r < c)"

text \<open>A client that follows the cursor of each page, asking at most \<open>fuel\<close> times.\<close>

fun collect :: "('k option \<Rightarrow> 'r list \<times> bool) \<Rightarrow> ('r \<Rightarrow> 'k) \<Rightarrow> nat \<Rightarrow> 'k option \<Rightarrow> 'r list" where
  "collect fetch k 0 after = []"
| "collect fetch k (Suc fuel) after =
     (case fetch after of (page, more) \<Rightarrow>
        if more then page @ collect fetch k fuel (Some (k (last page))) else page)"

lemma newest_first_sorted: "sorted_wrt (\<lambda>x y. k y \<le> k x) (newest_first k rows)"
proof -
  have "sorted_wrt (\<lambda>x y. k x \<le> k y) (sort_key k rows)"
    using sorted_sort_key [of k rows] by (simp add: sorted_map)
  then show ?thesis by (simp add: newest_first_def sorted_wrt_rev)
qed

lemma set_newest_first [simp]: "set (newest_first k rows) = set rows"
  by (simp add: newest_first_def)

lemma length_newest_first [simp]: "length (newest_first k rows) = length rows"
  by (simp add: newest_first_def)

lemma filter_newest_first: "newest_first k (filter P rows) = filter P (newest_first k rows)"
  by (simp add: newest_first_def filter_sort flip: rev_filter)

lemma distinct_newest_first:
  "distinct (map k rows) \<Longrightarrow> distinct (map k (newest_first k rows))"
proof -
  assume "distinct (map k rows)"
  then have "distinct rows" and "inj_on k (set rows)" by (auto simp: distinct_map)
  then show ?thesis by (simp add: distinct_map newest_first_def)
qed

lemma filter_below_split:
  assumes "sorted_wrt (\<lambda>x y. k y \<le> k x) (xs @ x # ys)" and "distinct (map k (xs @ x # ys))"
  shows "filter (below k (Some (k x))) (xs @ x # ys) = ys"
proof -
  have "\<forall>y \<in> set ys. k y < k x"
    using assms by (fastforce simp: sorted_wrt_append image_iff)
  moreover have "\<forall>y \<in> set xs. \<not> k y < k x"
    using assms(1) by (force simp: sorted_wrt_append)
  ultimately show ?thesis by (simp add: below_def)
qed

locale keyset_source =
  fixes fetch :: "'t \<Rightarrow> nat \<Rightarrow> 'k::linorder option \<Rightarrow> 'r list \<times> bool"
    and key :: "'r \<Rightarrow> 'k"
    and listing :: "'t \<Rightarrow> 'r list"
  assumes listing_sorted: "sorted_wrt (\<lambda>x y. key y \<le> key x) (listing t)"
    and fetch_page: "fetch t n after =
      (let rest = filter (below key after) (listing t) in (take n rest, n < length rest))"
begin

lemma collect_rest:
  assumes "distinct (map key (listing t))" and "0 < n"
    and "listing t = seen @ rest" and "length rest \<le> fuel"
    and "filter (below key after) (listing t) = rest"
  shows "collect (fetch t n) key fuel after = rest"
  using assms(3-5)
proof (induction fuel arbitrary: seen rest after)
  case (Suc fuel)
  have fetched: "fetch t n after = (take n rest, n < length rest)"
    by (simp only: fetch_page Suc.prems(3) Let_def)
  show ?case
  proof (cases "n < length rest")
    case False
    then show ?thesis by (simp add: fetched)
  next
    case True
    then have "take n rest \<noteq> []" using assms(2) by auto
    then obtain page x where page: "take n rest = page @ [x]"
      by (metis append_butlast_last_id)
    let ?rest = "drop n rest"
    have whole: "page @ x # ?rest = rest"
      using page by (metis append.assoc append_Cons append_Nil append_take_drop_id)
    have split: "listing t = (seen @ page) @ x # ?rest"
      using Suc.prems(1) whole by simp
    have "filter (below key (Some (key x))) (listing t) = ?rest"
      unfolding split
      by (rule filter_below_split) (use listing_sorted [of t] assms(1) split in auto)
    moreover have "listing t = (seen @ page @ [x]) @ ?rest" using split by simp
    moreover have "length ?rest \<le> fuel" using Suc.prems(2) assms(2) by simp
    ultimately have "collect (fetch t n) key fuel (Some (key x)) = ?rest"
      by (intro Suc.IH)
    with True whole page show ?thesis by (simp add: fetched)
  qed
qed simp

lemma collect_all:
  assumes "distinct (map key (listing t))" and "0 < n" and "length (listing t) \<le> fuel"
  shows "collect (fetch t n) key fuel None = listing t"
  by (rule collect_rest [where seen = "[]"]) (use assms in \<open>auto simp: below_def\<close>)

end

end
