(* ===== verification/Text_Codec.thy ===== *)
theory Text_Codec
  imports Prelude
begin

text \<open>
  The text formats the stores rely on: JSON string literals (\<open>JSON.stringify\<close> of a list of
  strings), percent encoding (\<open>encodeURIComponent\<close> and its inverse) and the
  \<open>created-at:id\<close> cursors of \<open>created-at-cursor.ts\<close> and \<open>session/message-cursor.ts\<close>. A string
  is the list of the bytes of its UTF-8 form.
\<close>

section \<open>Hexadecimal digits\<close>

definition byte_of :: "char \<Rightarrow> nat" where
  "byte_of c = of_char c"

definition hex_lower :: "nat \<Rightarrow> char" where
  "hex_lower n = (if n < 10 then char_of (48 + n) else char_of (87 + n))"

definition hex_upper :: "nat \<Rightarrow> char" where
  "hex_upper n = (if n < 10 then char_of (48 + n) else char_of (55 + n))"

definition hex_value :: "char \<Rightarrow> nat option" where
  "hex_value c =
     (if 48 \<le> byte_of c \<and> byte_of c \<le> 57 then Some (byte_of c - 48)
      else if 97 \<le> byte_of c \<and> byte_of c \<le> 102 then Some (byte_of c - 87)
      else if 65 \<le> byte_of c \<and> byte_of c \<le> 70 then Some (byte_of c - 55)
      else None)"

lemma hex_value_digit [simp]:
  assumes "n < 16"
  shows "hex_value (hex_lower n) = Some n" and "hex_value (hex_upper n) = Some n"
  using assms by (auto simp: hex_value_def hex_lower_def hex_upper_def byte_of_def)

lemma byte_of_bound [simp]: "byte_of c < 256"
proof -
  have "of_char c mod 256 < (256 :: nat)" by simp
  then show ?thesis by (simp add: byte_of_def)
qed

lemma byte_of_high [simp]: "byte_of c div 16 < 16"
  using byte_of_bound [of c] by linarith

lemma char_of_byte [simp]: "char_of (byte_of c) = c"
  by (simp add: byte_of_def)

lemma byte_halves: "char_of (16 * (byte_of c div 16) + byte_of c mod 16) = c"
  by (metis char_of_byte mult_div_mod_eq)

section \<open>JSON strings\<close>

definition json_char :: "char \<Rightarrow> string" where
  "json_char c =
     (if c = CHR 0x22 then [CHR 0x5C, CHR 0x22]
      else if c = CHR 0x5C then [CHR 0x5C, CHR 0x5C]
      else if c = CHR 0x08 then [CHR 0x5C, CHR ''b'']
      else if c = CHR 0x0C then [CHR 0x5C, CHR ''f'']
      else if c = CHR 0x0A then [CHR 0x5C, CHR ''n'']
      else if c = CHR 0x0D then [CHR 0x5C, CHR ''r'']
      else if c = CHR 0x09 then [CHR 0x5C, CHR ''t'']
      else if byte_of c < 32
      then [CHR 0x5C, CHR ''u'', CHR ''0'', CHR ''0'', hex_lower (byte_of c div 16), hex_lower (byte_of c mod 16)]
      else [c])"

definition json_string :: "string \<Rightarrow> string" where
  "json_string s = CHR 0x22 # concat (map json_char s) @ [CHR 0x22]"

fun json_items :: "string list \<Rightarrow> string" where
  "json_items [] = []"
| "json_items (s # ss) = json_string s @ (if ss = [] then [] else CHR '','' # json_items ss)"

definition json_list :: "string list \<Rightarrow> string" where
  "json_list ss = CHR ''['' # json_items ss @ [CHR '']'']"

text \<open>Reading one character of a literal back; \<open>None\<close> at the closing quote.\<close>

definition json_uncons :: "string \<Rightarrow> (char \<times> string) option" where
  "json_uncons s =
     (case s of
        [] \<Rightarrow> None
      | c # r \<Rightarrow>
          if c = CHR 0x22 then None
          else if c \<noteq> CHR 0x5C then Some (c, r)
          else (case r of
                  [] \<Rightarrow> None
                | e # r' \<Rightarrow>
                    if e = CHR ''u'' then
                      (case (hex_value (r' ! 2), hex_value (r' ! 3)) of
                         (Some h, Some l) \<Rightarrow> Some (char_of (16 * h + l), drop 4 r')
                       | _ \<Rightarrow> None)
                    else if e = CHR ''b'' then Some (CHR 0x08, r')
                    else if e = CHR ''f'' then Some (CHR 0x0C, r')
                    else if e = CHR ''n'' then Some (CHR 0x0A, r')
                    else if e = CHR ''r'' then Some (CHR 0x0D, r')
                    else if e = CHR ''t'' then Some (CHR 0x09, r')
                    else Some (e, r')))"

lemma json_uncons_char [simp]: "json_uncons (json_char c @ xs) = Some (c, xs)"
proof (cases "byte_of c < 32")
  case True
  then show ?thesis
    by (simp add: json_uncons_def json_char_def byte_halves)
next
  case False
  then show ?thesis by (simp add: json_uncons_def json_char_def)
qed

lemma json_uncons_quote [simp]: "json_uncons (CHR 0x22 # xs) = None"
  by (simp add: json_uncons_def)

lemma json_char_append_inj: "json_char c @ xs = json_char d @ ys \<longleftrightarrow> c = d \<and> xs = ys"
proof
  assume "json_char c @ xs = json_char d @ ys"
  then have "json_uncons (json_char c @ xs) = json_uncons (json_char d @ ys)" by (rule arg_cong)
  then show "c = d \<and> xs = ys" by simp
qed simp

lemma json_char_not_quote: "json_char c @ xs \<noteq> CHR 0x22 # ys"
proof
  assume "json_char c @ xs = CHR 0x22 # ys"
  then have "json_uncons (json_char c @ xs) = json_uncons (CHR 0x22 # ys)" by (rule arg_cong)
  then show False by simp
qed

lemma json_body_inj:
  "concat (map json_char s) @ CHR 0x22 # xs = concat (map json_char t) @ CHR 0x22 # ys
     \<longleftrightarrow> s = t \<and> xs = ys"
proof (induction s arbitrary: t)
  case Nil
  show ?case
    by (cases t) (simp_all add: json_char_not_quote [symmetric])
next
  case (Cons c s)
  show ?case
    by (cases t) (simp_all add: json_char_not_quote json_char_append_inj Cons.IH)
qed

lemma json_string_append_inj:
  "json_string s @ xs = json_string t @ ys \<longleftrightarrow> s = t \<and> xs = ys"
  using json_body_inj [of s xs t ys] by (simp add: json_string_def)

lemma json_string_nonempty [simp]: "json_string s \<noteq> []"
  by (simp add: json_string_def)

lemma json_items_nonempty [simp]: "json_items ss = [] \<longleftrightarrow> ss = []"
  by (cases ss) auto

lemma json_items_inj: "json_items ss = json_items ts \<longleftrightarrow> ss = ts"
proof (induction ss arbitrary: ts)
  case Nil
  then show ?case by (cases ts) auto
next
  case (Cons s ss)
  show ?case
  proof (cases ts)
    case (Cons t ts')
    have "json_items (s # ss) = json_items ts \<longleftrightarrow> s = t \<and>
        (if ss = [] then [] else CHR '','' # json_items ss)
        = (if ts' = [] then [] else CHR '','' # json_items ts')"
      unfolding Cons json_items.simps by (rule json_string_append_inj)
    with Cons \<open>\<And>ts. (json_items ss = json_items ts) = (ss = ts)\<close> show ?thesis by auto
  qed simp
qed

lemma json_list_inj [simp]: "json_list ss = json_list ts \<longleftrightarrow> ss = ts"
  by (simp add: json_list_def json_items_inj)

section \<open>Percent encoding\<close>

definition is_unreserved :: "char \<Rightarrow> bool" where
  "is_unreserved c \<longleftrightarrow>
     (97 \<le> byte_of c \<and> byte_of c \<le> 122) \<or> (65 \<le> byte_of c \<and> byte_of c \<le> 90)
     \<or> (48 \<le> byte_of c \<and> byte_of c \<le> 57)
     \<or> c \<in> {CHR ''-'', CHR ''_'', CHR ''.'', CHR ''!'', CHR ''~'', CHR ''*'', CHR 0x27, CHR ''('', CHR '')''}"

definition percent_char :: "char \<Rightarrow> string" where
  "percent_char c =
     (if is_unreserved c then [c]
      else [CHR ''%'', hex_upper (byte_of c div 16), hex_upper (byte_of c mod 16)])"

definition encodeURIComponent :: "string \<Rightarrow> string" where
  "encodeURIComponent s = concat (map percent_char s)"

fun unpercent :: "string \<Rightarrow> string option" where
  "unpercent [] = Some []"
| "unpercent (c # r) =
     (if c = CHR ''%'' then
        (case r of
           h # l # r' \<Rightarrow>
             (case (hex_value h, hex_value l) of
                (Some a, Some b) \<Rightarrow> map_option ((#) (char_of (16 * a + b))) (unpercent r')
              | _ \<Rightarrow> None)
         | _ \<Rightarrow> None)
      else map_option ((#) c) (unpercent r))"

text \<open>Well-formed UTF-8, which is what \<open>decodeURIComponent\<close> demands of the bytes it decodes.\<close>

fun valid_utf8 :: "nat list \<Rightarrow> bool" where
  "valid_utf8 [] = True"
| "valid_utf8 (a # r) =
     (if a < 128 then valid_utf8 r
      else if 194 \<le> a \<and> a \<le> 223 then
        (case r of b # r' \<Rightarrow> 128 \<le> b \<and> b \<le> 191 \<and> valid_utf8 r' | _ \<Rightarrow> False)
      else if 224 \<le> a \<and> a \<le> 239 then
        (case r of b # c # r' \<Rightarrow>
           (if a = 224 then 160 else 128) \<le> b \<and> b \<le> (if a = 237 then 159 else 191)
           \<and> 128 \<le> c \<and> c \<le> 191 \<and> valid_utf8 r' | _ \<Rightarrow> False)
      else if 240 \<le> a \<and> a \<le> 244 then
        (case r of b # c # d # r' \<Rightarrow>
           (if a = 240 then 144 else 128) \<le> b \<and> b \<le> (if a = 244 then 143 else 191)
           \<and> 128 \<le> c \<and> c \<le> 191 \<and> 128 \<le> d \<and> d \<le> 191 \<and> valid_utf8 r' | _ \<Rightarrow> False)
      else False)"

definition is_text :: "string \<Rightarrow> bool" where
  "is_text s \<longleftrightarrow> valid_utf8 (map byte_of s)"

definition decodeURIComponent :: "string \<Rightarrow> string option" where
  "decodeURIComponent s =
     (case unpercent s of
        None \<Rightarrow> None
      | Some bs \<Rightarrow> if is_text bs then Some bs else None)"

lemma unpercent_char: "unpercent (percent_char c @ xs) = map_option ((#) c) (unpercent xs)"
proof (cases "is_unreserved c")
  case True
  then have "c \<noteq> CHR ''%''" by (auto simp: is_unreserved_def byte_of_def)
  with True show ?thesis by (simp add: percent_char_def)
next
  case False
  then show ?thesis by (simp add: percent_char_def byte_halves)
qed

lemma unpercent_encode [simp]: "unpercent (encodeURIComponent s) = Some s"
  unfolding encodeURIComponent_def by (induction s) (simp_all add: unpercent_char)

lemma decode_encode: "is_text s \<Longrightarrow> decodeURIComponent (encodeURIComponent s) = Some s"
  by (simp add: decodeURIComponent_def)

lemma encode_empty [simp]: "encodeURIComponent s = [] \<longleftrightarrow> s = []"
  by (cases s) (simp_all add: encodeURIComponent_def percent_char_def)

section \<open>Cursors\<close>

definition MAX_SAFE_INTEGER :: int where
  "MAX_SAFE_INTEGER = 9007199254740991"

record created_at_cursor =
  cc_createdAt :: ms
  cc_id :: string

text \<open>\<open>{ ok: true, cursor }\<close> with a nullable cursor, or \<open>{ ok: false }\<close>.\<close>

datatype 'c cursor_result = CursorOk "'c option" | InvalidCursor

definition encodeCreatedAtCursor :: "created_at_cursor \<Rightarrow> string" where
  "encodeCreatedAtCursor c = show_int (cc_createdAt c) @ CHR '':'' # encodeURIComponent (cc_id c)"

text \<open>\<open>/^\d+$/\<close>, \<open>Number\<close> and \<open>isSafeInteger\<close> on a decimal text.\<close>

definition safe_decimal :: "string \<Rightarrow> ms option" where
  "safe_decimal s =
     (case parse_nat s of
        None \<Rightarrow> None
      | Some n \<Rightarrow> if int n \<le> MAX_SAFE_INTEGER then Some (int n) else None)"

definition parseCreatedAtCursor :: "string option \<Rightarrow> created_at_cursor cursor_result" where
  "parseCreatedAtCursor raw =
     (case raw of
        None \<Rightarrow> CursorOk None
      | Some s \<Rightarrow>
          let before = takeWhile (\<lambda>c. c \<noteq> CHR '':'') s in
          if before = s \<or> before = [] then InvalidCursor
          else (case safe_decimal before of
                  None \<Rightarrow> InvalidCursor
                | Some t \<Rightarrow>
                    (case decodeURIComponent (drop (length before + 1) s) of
                       None \<Rightarrow> InvalidCursor
                     | Some i \<Rightarrow> if i = [] then InvalidCursor
                                 else CursorOk (Some \<lparr>cc_createdAt = t, cc_id = i\<rparr>))))"

text \<open>The message list also accepts the bare timestamps of older clients.\<close>

datatype message_cursor = Composite created_at_cursor | BareTimestamp ms

definition parseMessageListCursor :: "string option \<Rightarrow> message_cursor cursor_result" where
  "parseMessageListCursor raw =
     (case parseCreatedAtCursor raw of
        CursorOk c \<Rightarrow> CursorOk (map_option Composite c)
      | InvalidCursor \<Rightarrow>
          (case raw of
             None \<Rightarrow> InvalidCursor
           | Some s \<Rightarrow>
               (case safe_decimal s of
                  None \<Rightarrow> InvalidCursor
                | Some t \<Rightarrow> CursorOk (Some (BareTimestamp t)))))"

lemma digits_no_colon: "list_all is_digit s \<Longrightarrow> c \<in> set s \<Longrightarrow> c \<noteq> CHR '':''"
  by (auto simp: list_all_iff is_digit_def)

lemma takeWhile_show_nat:
  "takeWhile (\<lambda>c. c \<noteq> CHR '':'') (show_nat n @ CHR '':'' # xs) = show_nat n"
  using digits_no_colon [OF show_nat_digits, of _ n] by (subst takeWhile_append2) auto



end
