(* ===== verification/Event_Store.thy ===== *)
theory Event_Store
  imports Paging Text_Codec
begin

text \<open>
  The event log of one session (\<open>session/event-repository.ts\<close>) and the warnings written into
  it (\<open>session/session-warnings.ts\<close>). The table is the list of its rows; the primary key makes
  an \<open>INSERT\<close> of a taken id an error (\<open>None\<close>). An event's payload is its JSON text, built by the
  caller.
\<close>

record event_row =
  ev_id :: string
  ev_type :: string
  ev_data :: string
  ev_messageId :: "string option"
  ev_createdAt :: ms
  ev_sequence :: nat

type_synonym event_table = "event_row list"

record event_data =
  ed_id :: string
  ed_type :: string
  ed_data :: string
  ed_messageId :: "string option"
  ed_createdAt :: ms

text \<open>\<open>NEXT_TIMELINE_SEQUENCE_SQL\<close>: \<open>COALESCE(MAX(timeline_sequence), 0) + 1\<close>.\<close>

definition max_sequence :: "event_table \<Rightarrow> nat" where
  "max_sequence t = foldr max (map ev_sequence t) 0"

definition next_sequence :: "event_table \<Rightarrow> nat" where
  "next_sequence t = max_sequence t + 1"

definition has_event :: "string \<Rightarrow> event_table \<Rightarrow> bool" where
  "has_event i t \<longleftrightarrow> i \<in> set (map ev_id t)"

definition event_of :: "event_data \<Rightarrow> nat \<Rightarrow> event_row" where
  "event_of d n = \<lparr>ev_id = ed_id d, ev_type = ed_type d, ev_data = ed_data d,
     ev_messageId = ed_messageId d, ev_createdAt = ed_createdAt d, ev_sequence = n\<rparr>"

definition createEvent :: "event_data \<Rightarrow> event_table \<Rightarrow> event_table option" where
  "createEvent d t =
     (if has_event (ed_id d) t then None else Some (t @ [event_of d (next_sequence t)]))"

definition createEventIfAbsent :: "event_data \<Rightarrow> event_table \<Rightarrow> event_table \<times> bool" where
  "createEventIfAbsent d t =
     (if has_event (ed_id d) t then (t, False) else (t @ [event_of d (next_sequence t)], True))"

text \<open>The transaction either commits both statements or, on a key conflict, neither.\<close>

definition createContextCompactionEvent ::
  "string \<Rightarrow> event_data \<Rightarrow> event_table \<Rightarrow> event_table option" where
  "createContextCompactionEvent messageId d t =
     (let old = ''token:'' @ messageId; new = ''token:'' @ messageId @ '':'' @ ed_id d in
      if has_event old t \<and> has_event new t then None
      else createEvent d (sql_update (\<lambda>r. ev_id r = old) (\<lambda>r. r\<lparr>ev_id := new\<rparr>) t))"

text \<open>\<open>INSERT ... ON CONFLICT(id) DO UPDATE SET data, message_id, created_at\<close>.\<close>

definition upsert_event :: "event_data \<Rightarrow> bool \<Rightarrow> event_table \<Rightarrow> event_table" where
  "upsert_event d preserveCreatedAt t =
     (if has_event (ed_id d) t
      then sql_update (\<lambda>r. ev_id r = ed_id d)
        (\<lambda>r. r\<lparr>ev_data := ed_data d, ev_messageId := ed_messageId d,
               ev_createdAt := (if preserveCreatedAt then ev_createdAt r else ed_createdAt d)\<rparr>) t
      else t @ [event_of d (next_sequence t)])"

definition upsertEventByMessageId ::
  "string \<Rightarrow> string \<Rightarrow> string \<Rightarrow> ms \<Rightarrow> string option \<Rightarrow> bool \<Rightarrow> event_table \<Rightarrow> event_table" where
  "upsertEventByMessageId type messageId data createdAt i preserveCreatedAt =
     upsert_event \<lparr>ed_id = nullish i (type @ '':'' @ messageId), ed_type = type, ed_data = data,
       ed_messageId = Some messageId, ed_createdAt = createdAt\<rparr> preserveCreatedAt"

definition token_event_id :: "string \<Rightarrow> string option \<Rightarrow> string" where
  "token_event_id messageId partId =
     (if truthy partId then ''token-part:'' @ json_list [messageId, the partId]
      else ''token:'' @ messageId)"

definition upsertTokenEvent ::
  "string \<Rightarrow> string option \<Rightarrow> string \<Rightarrow> ms \<Rightarrow> event_table \<Rightarrow> event_table" where
  "upsertTokenEvent messageId partId data createdAt =
     upsertEventByMessageId ''token'' messageId data createdAt
       (Some (token_event_id messageId partId)) (truthy partId)"

record tool_call =
  tc_messageId :: string
  tc_callId :: string
  tc_isSubtask :: bool
  tc_childSessionId :: "string option"
  tc_taskCallId :: "string option"

definition toolCallIdentityTuple :: "tool_call \<Rightarrow> string list" where
  "toolCallIdentityTuple e =
     [tc_messageId e,
      if tc_isSubtask e
      then (if truthy (tc_childSessionId e) then the (tc_childSessionId e)
            else if truthy (tc_taskCallId e) then the (tc_taskCallId e)
            else ''unassociated-subtask'')
      else ''parent'',
      tc_callId e]"

definition toolCallIdentityKey :: "tool_call \<Rightarrow> string" where
  "toolCallIdentityKey e = json_list (toolCallIdentityTuple e)"

definition tool_call_event_id :: "tool_call \<Rightarrow> string" where
  "tool_call_event_id e = ''tool_call:'' @ toolCallIdentityKey e"

definition upsertToolCallEvent ::
  "string \<Rightarrow> tool_call \<Rightarrow> string \<Rightarrow> ms \<Rightarrow> event_table \<Rightarrow> event_table" where
  "upsertToolCallEvent messageId e data createdAt =
     upsert_event \<lparr>ed_id = tool_call_event_id e, ed_type = ''tool_call'',
       ed_data = data, ed_messageId = Some messageId, ed_createdAt = createdAt\<rparr> True"

definition upsertExecutionCompleteEvent ::
  "string \<Rightarrow> string \<Rightarrow> ms \<Rightarrow> event_table \<Rightarrow> event_table" where
  "upsertExecutionCompleteEvent messageId data createdAt =
     upsertEventByMessageId ''execution_complete'' messageId data createdAt None False"

section \<open>Session warnings\<close>

definition persistSessionWarning ::
  "string \<Rightarrow> string \<Rightarrow> string option \<Rightarrow> ms \<Rightarrow> event_table \<Rightarrow> event_table \<times> bool" where
  "persistSessionWarning data eventId messageId now =
     createEventIfAbsent \<lparr>ed_id = eventId, ed_type = ''warning'', ed_data = data,
       ed_messageId = messageId, ed_createdAt = now\<rparr>"

section \<open>Pages\<close>

datatype event_cursor =
    TimelineCursor ms string "nat option"
  | LegacyCursor ms

record event_query =
  eq_cursor :: "event_cursor option"
  eq_limit :: nat
  eq_type :: "string option"
  eq_messageId :: "string option"
  eq_excludeTypes :: "string list"

record event_page =
  ep_events :: "event_row list"
  ep_hasMore :: bool
  ep_nextCursor :: "event_cursor option"

definition eventTimelineCursorFromRow :: "event_row \<Rightarrow> event_cursor" where
  "eventTimelineCursorFromRow r = TimelineCursor (ev_createdAt r) (ev_id r) (Some (ev_sequence r))"

definition event_matches :: "event_query \<Rightarrow> event_row \<Rightarrow> bool" where
  "event_matches q r \<longleftrightarrow>
     (truthy (eq_type q) \<longrightarrow> ev_type r = the (eq_type q))
     \<and> (truthy (eq_messageId q) \<longrightarrow> ev_messageId r = eq_messageId q)
     \<and> ev_type r \<notin> set (eq_excludeTypes q)"

fun event_before :: "event_cursor option \<Rightarrow> event_row \<Rightarrow> bool" where
  "event_before None r = True"
| "event_before (Some (TimelineCursor ts i (Some n))) r =
     (ev_createdAt r < ts \<or> ev_createdAt r = ts \<and> ev_sequence r < n)"
| "event_before (Some (TimelineCursor ts i None)) r =
     (ev_createdAt r < ts \<or> ev_createdAt r = ts \<and> ev_id r < i)"
| "event_before (Some (LegacyCursor ts)) r = (ev_createdAt r < ts)"

definition timeline_key :: "event_row \<Rightarrow> ms \<times> nat" where
  "timeline_key r = (ev_createdAt r, ev_sequence r)"

definition event_order :: "event_cursor option \<Rightarrow> event_table \<Rightarrow> event_row list" where
  "event_order c rows =
     (case c of
        Some (TimelineCursor _ _ None) \<Rightarrow> newest_first (\<lambda>r. (ev_createdAt r, ev_id r)) rows
      | _ \<Rightarrow> newest_first timeline_key rows)"

definition queryEventPage :: "event_query \<Rightarrow> event_table \<Rightarrow> event_page" where
  "queryEventPage q t =
     (let rows = take (eq_limit q + 1)
            (event_order (eq_cursor q)
              (filter (\<lambda>r. event_matches q r \<and> event_before (eq_cursor q) r) t));
          hasMore = eq_limit q < length rows;
          events = (if hasMore then take (eq_limit q) rows else rows) in
      \<lparr>ep_events = events, ep_hasMore = hasMore,
       ep_nextCursor = (if events = [] then None
                        else Some (eventTimelineCursorFromRow (last events)))\<rparr>)"

definition listEventPage :: "event_query \<Rightarrow> event_table \<Rightarrow> event_page" where
  "listEventPage q t = queryEventPage (q\<lparr>eq_excludeTypes := []\<rparr>) t"

definition getEventTimelinePage :: "event_query \<Rightarrow> event_table \<Rightarrow> event_page" where
  "getEventTimelinePage q t =
     (let page = queryEventPage (q\<lparr>eq_type := None, eq_messageId := None\<rparr>) t in
      page\<lparr>ep_events := rev (ep_events page)\<rparr>)"


text \<open>A client that asks for page after page until it is told there is nothing more.\<close>

fun follow_pages :: "nat \<Rightarrow> event_query \<Rightarrow> event_table \<Rightarrow> event_row list" where
  "follow_pages 0 q t = []"
| "follow_pages (Suc fuel) q t =
     (let p = queryEventPage q t in
      if ep_hasMore p
      then ep_events p @ follow_pages fuel (q\<lparr>eq_cursor := ep_nextCursor p\<rparr>) t
      else ep_events p)"

section \<open>The log stays a log\<close>

text \<open>Ids are unique and rows carry strictly increasing sequence numbers in insertion order.\<close>

definition events_ok :: "event_table \<Rightarrow> bool" where
  "events_ok t \<longleftrightarrow> distinct (map ev_id t) \<and> sorted_wrt (<) (map ev_sequence t)"

lemma max_sequence_ge: "r \<in> set t \<Longrightarrow> ev_sequence r \<le> max_sequence t"
  unfolding max_sequence_def by (induction t) auto

lemma events_ok_append:
  assumes "events_ok t" and "\<not> has_event (ed_id d) t"
  shows "events_ok (t @ [event_of d (next_sequence t)])"
  using assms max_sequence_ge [of _ t]
  by (force simp: events_ok_def has_event_def event_of_def next_sequence_def sorted_wrt_append
      less_Suc_eq_le)

lemma events_ok_upsert: "events_ok t \<Longrightarrow> events_ok (upsert_event d keep t)"
  using events_ok_append [of t d]
  by (simp add: upsert_event_def events_ok_def map_sql_update)

lemma events_ok_delete: "events_ok t \<Longrightarrow> events_ok (sql_delete P t)"
  unfolding events_ok_def sql_delete_def
  by (auto simp: distinct_map inj_on_def sorted_wrt_map intro: sorted_wrt_filter)

lemma map_id_update:
  "map ev_id (sql_update (\<lambda>r. ev_id r = a) (\<lambda>r. r\<lparr>ev_id := b\<rparr>) t)
     = map (\<lambda>i. if i = a then b else i) (map ev_id t)"
  by (induction t) auto

lemma distinct_rename:
  assumes "distinct xs" and "a \<in> set xs \<Longrightarrow> b \<notin> set xs"
  shows "distinct (map (\<lambda>i. if i = a then b else i) xs)"
  using assms by (auto simp: distinct_map inj_on_def)

lemma events_ok_rename:
  assumes "events_ok t" and "\<not> (has_event a t \<and> has_event b t)"
  shows "events_ok (sql_update (\<lambda>r. ev_id r = a) (\<lambda>r. r\<lparr>ev_id := b\<rparr>) t)"
  using assms distinct_rename [of "map ev_id t" a b]
  by (auto simp: events_ok_def has_event_def map_id_update map_sql_update)

text \<open>Every write the repository offers.\<close>

datatype event_op =
    OpCreate event_data
  | OpCreateIfAbsent event_data
  | OpCompaction string event_data
  | OpToken string "string option" string ms
  | OpToolCall string tool_call string ms
  | OpExecutionComplete string string ms
  | OpWarning string string "string option" ms

fun apply_event_op :: "event_op \<Rightarrow> event_table \<Rightarrow> event_table" where
  "apply_event_op (OpCreate d) t = nullish (createEvent d t) t"
| "apply_event_op (OpCreateIfAbsent d) t = fst (createEventIfAbsent d t)"
| "apply_event_op (OpCompaction m d) t = nullish (createContextCompactionEvent m d t) t"
| "apply_event_op (OpToken m p x c) t = upsertTokenEvent m p x c t"
| "apply_event_op (OpToolCall m e x c) t = upsertToolCallEvent m e x c t"
| "apply_event_op (OpExecutionComplete m x c) t = upsertExecutionCompleteEvent m x c t"
| "apply_event_op (OpWarning x i m n) t = fst (persistSessionWarning x i m n t)"

lemma events_ok_create: "events_ok t \<Longrightarrow> events_ok (nullish (createEvent d t) t)"
  by (simp add: createEvent_def events_ok_append)

lemma events_ok_create_if_absent: "events_ok t \<Longrightarrow> events_ok (fst (createEventIfAbsent d t))"
  by (simp add: createEventIfAbsent_def events_ok_append)

lemma events_ok_op: "events_ok t \<Longrightarrow> events_ok (apply_event_op op t)"
proof (cases op)
  case (OpCompaction m d)
  assume ok: "events_ok t"
  let ?old = "''token:'' @ m" and ?new = "''token:'' @ m @ '':'' @ ed_id d"
  let ?t = "sql_update (\<lambda>r. ev_id r = ?old) (\<lambda>r. r\<lparr>ev_id := ?new\<rparr>) t"
  show ?thesis
  proof (cases "has_event ?old t \<and> has_event ?new t")
    case False
    with ok have "events_ok ?t" by (rule events_ok_rename)
    with ok events_ok_create [of ?t d] False OpCompaction show ?thesis
      by (cases "createEvent d ?t") (auto simp: createContextCompactionEvent_def Let_def)
  qed (use ok OpCompaction in \<open>simp add: createContextCompactionEvent_def Let_def\<close>)
qed (simp_all add: events_ok_create events_ok_create_if_absent persistSessionWarning_def
    upsertTokenEvent_def upsertToolCallEvent_def upsertExecutionCompleteEvent_def
    upsertEventByMessageId_def events_ok_upsert)

text \<open>
  Whatever sequence of writes a session's timeline receives (new events, streamed tokens
  and tool calls that overwrite themselves, context compaction, completions, warnings,
  rejected duplicates), event ids stay unique and the timeline sequence strictly increases in
  insertion order.
\<close>

theorem timeline_is_a_log: "events_ok (foldl (\<lambda>t op. apply_event_op op t) [] ops)"
proof -
  have "events_ok t \<Longrightarrow> events_ok (foldl (\<lambda>t op. apply_event_op op t) t ops)" for t
    by (induction ops arbitrary: t) (simp_all add: events_ok_op)
  then show ?thesis by (simp add: events_ok_def)
qed

section \<open>Pages cover the log\<close>

definition event_fetch ::
  "event_query \<times> event_table \<Rightarrow> nat \<Rightarrow> (ms \<times> nat) option \<Rightarrow> event_row list \<times> bool" where
  "event_fetch qt n after =
     (let p = queryEventPage ((fst qt)\<lparr>eq_limit := n,
          eq_cursor := map_option (\<lambda>(ts, s). TimelineCursor ts [] (Some s)) after\<rparr>) (snd qt) in
      (ep_events p, ep_hasMore p))"

definition event_listing :: "event_query \<times> event_table \<Rightarrow> event_row list" where
  "event_listing qt = newest_first timeline_key (filter (event_matches (fst qt)) (snd qt))"

lemma event_before_key:
  "event_before (map_option (\<lambda>(ts, s). TimelineCursor ts i (Some s)) after) r
     \<longleftrightarrow> below timeline_key after r"
  by (cases after) (auto simp: below_def timeline_key_def less_prod_def)

lemma event_matches_cursor [simp]:
  "event_matches (q\<lparr>eq_limit := n\<rparr>) = event_matches q"
  "event_matches (q\<lparr>eq_cursor := c\<rparr>) = event_matches q"
  by (simp_all add: event_matches_def fun_eq_iff)

lemma event_order_key [simp]:
  "event_order (map_option (\<lambda>(ts, s). TimelineCursor ts i (Some s)) after) rows
     = newest_first timeline_key rows"
  by (cases after) (auto simp: event_order_def)

lemma event_page_rows:
  assumes "eq_cursor q = map_option (\<lambda>(ts, s). TimelineCursor ts i (Some s)) after"
  shows "let rest = filter (below timeline_key after) (event_listing (q, t)) in
    ep_events (queryEventPage q t) = take (eq_limit q) rest
    \<and> ep_hasMore (queryEventPage q t) = (eq_limit q < length rest)"
proof -
  have rows: "event_order (eq_cursor q)
      (filter (\<lambda>r. event_matches q r \<and> event_before (eq_cursor q) r) t)
    = filter (below timeline_key after) (event_listing (q, t))"
    by (simp only: assms event_order_key event_before_key event_listing_def fst_conv snd_conv
        filter_newest_first filter_filter)
  show ?thesis
    unfolding queryEventPage_def rows Let_def by (auto simp: take_Suc_conv_app_nth)
qed

interpretation ev: keyset_source event_fetch timeline_key event_listing
proof
  show "sorted_wrt (\<lambda>x y. timeline_key y \<le> timeline_key x) (event_listing t)" for t
    unfolding event_listing_def by (rule newest_first_sorted)
  show "event_fetch t n after =
      (let rest = filter (below timeline_key after) (event_listing t) in (take n rest, n < length rest))"
    for t n after
    using event_page_rows [where i = "[]" and after = after and t = "snd t" and
        q = "(fst t)\<lparr>eq_limit := n, eq_cursor := map_option (\<lambda>(ts, s). TimelineCursor ts [] (Some s)) after\<rparr>"]
    by (simp add: event_fetch_def Let_def event_listing_def)
qed

lemma follow_pages_collect:
  assumes "eq_cursor q = map_option (\<lambda>(ts, s). TimelineCursor ts i (Some s)) after" and "0 < eq_limit q"
  shows "follow_pages fuel q t
    = collect (event_fetch (q, t) (eq_limit q)) timeline_key fuel after"
  using assms
proof (induction fuel arbitrary: q i after)
  case (Suc fuel)
  let ?p = "queryEventPage q t"
  let ?rest = "filter (below timeline_key after) (event_listing (q, t))"
  have p: "ep_events ?p = take (eq_limit q) ?rest" "ep_hasMore ?p = (eq_limit q < length ?rest)"
    using event_page_rows [OF Suc.prems(1), of t] by (simp_all add: Let_def)
  have fetched: "event_fetch (q, t) (eq_limit q) after = (ep_events ?p, ep_hasMore ?p)"
    using ev.fetch_page [of "(q, t)" "eq_limit q" after] p by (simp add: Let_def)
  show ?case
  proof (cases "ep_hasMore ?p")
    case True
    then have ne: "ep_events ?p \<noteq> []" using p Suc.prems(2) by auto
    let ?x = "last (ep_events ?p)"
    let ?q = "q\<lparr>eq_cursor := ep_nextCursor ?p\<rparr>"
    have "ep_nextCursor ?p = Some (eventTimelineCursorFromRow ?x)"
      using ne by (simp add: queryEventPage_def Let_def split: if_splits)
    then have "eq_cursor ?q
        = map_option (\<lambda>(ts, s). TimelineCursor ts (ev_id ?x) (Some s)) (Some (timeline_key ?x))"
      by (simp add: eventTimelineCursorFromRow_def timeline_key_def)
    from Suc.IH [OF this] Suc.prems(2)
    have "follow_pages fuel ?q t
        = collect (event_fetch (?q, t) (eq_limit q)) timeline_key fuel (Some (timeline_key ?x))"
      by simp
    moreover have "event_fetch (?q, t) (eq_limit q) = event_fetch (q, t) (eq_limit q)"
      by (simp add: event_fetch_def fun_eq_iff)
    ultimately show ?thesis using True fetched by (simp add: Let_def)
  qed (simp add: fetched Let_def)
qed simp

lemma events_ok_keys: "events_ok t \<Longrightarrow> distinct (map timeline_key (filter P t))"
proof -
  assume "events_ok t"
  then have "sorted_wrt (<) (map ev_sequence t)" by (simp add: events_ok_def)
  then have "distinct (map ev_sequence t)" by (simp add: strict_sorted_iff)
  then have "distinct (map ev_sequence (filter P t))" by (rule distinct_map_filter)
  then show ?thesis by (auto simp: distinct_map timeline_key_def inj_on_def)
qed

text \<open>
  C29. Reading the timeline page by page misses nothing and repeats nothing: for any filter,
  any page size and any log, following the returned cursors until no more is announced yields
  exactly the matching events, newest first, after at most as many pages as there are events.
\<close>

theorem pages_cover_the_log:
  assumes "events_ok t" and "0 < eq_limit q" and "eq_cursor q = None" and "length t \<le> fuel"
  shows "follow_pages fuel q t = newest_first timeline_key (filter (event_matches q) t)"
proof -
  have "follow_pages fuel q t = collect (event_fetch (q, t) (eq_limit q)) timeline_key fuel None"
    by (rule follow_pages_collect) (use assms in auto)
  also have "\<dots> = event_listing (q, t)"
  proof (rule ev.collect_all)
    show "distinct (map timeline_key (event_listing (q, t)))"
      using distinct_newest_first [OF events_ok_keys [OF assms(1)]]
      by (simp add: event_listing_def)
    have "length (filter (event_matches q) t) \<le> fuel"
      using assms(4) length_filter_le [of "event_matches q" t] by linarith
    then show "length (event_listing (q, t)) \<le> fuel"
      by (simp add: event_listing_def)
  qed (rule assms(2))
  finally show ?thesis by (simp add: event_listing_def)
qed

definition demo_event :: "nat \<Rightarrow> event_row" where
  "demo_event n = \<lparr>ev_id = show_nat n, ev_type = ''token'', ev_data = [], ev_messageId = None,
     ev_createdAt = 7, ev_sequence = n\<rparr>"

definition demo_query :: event_query where
  "demo_query = \<lparr>eq_cursor = None, eq_limit = 2, eq_type = None, eq_messageId = None, eq_excludeTypes = []\<rparr>"

theorem pages_cover_the_log_witness:
  "follow_pages 3 demo_query [demo_event 1, demo_event 2, demo_event 3]
     = [demo_event 3, demo_event 2, demo_event 1]"
proof -
  have "events_ok [demo_event 1, demo_event 2, demo_event 3]"
    by (simp add: events_ok_def demo_event_def show_nat_inj)
  from pages_cover_the_log [where q = demo_query and fuel = 3, OF this]
  show ?thesis
    by (simp add: demo_query_def event_matches_def newest_first_def timeline_key_def demo_event_def)
qed

section \<open>Streamed events\<close>

lemma find_upsert_same:
  assumes "find (\<lambda>r. ev_id r = ed_id d) t = Some r"
  shows "find (\<lambda>r. ev_id r = ed_id d) (upsert_event d keep t)
    = Some (r\<lparr>ev_data := ed_data d, ev_messageId := ed_messageId d,
              ev_createdAt := (if keep then ev_createdAt r else ed_createdAt d)\<rparr>)"
proof -
  have "has_event (ed_id d) t" and "ev_id r = ed_id d"
    using find_SomeD [OF assms] by (auto simp: has_event_def image_iff intro: sym)
  with assms show ?thesis by (simp add: upsert_event_def find_sql_update)
qed

lemma find_upsert_other:
  assumes "i \<noteq> ed_id d"
  shows "find (\<lambda>r. ev_id r = i) (upsert_event d keep t) = find (\<lambda>r. ev_id r = i) t"
proof (cases "find (\<lambda>r. ev_id r = i) t")
  case None
  with assms show ?thesis
    by (simp add: upsert_event_def find_sql_update find_append event_of_def)
next
  case (Some r)
  with find_SomeD [OF Some] assms show ?thesis
    by (simp add: upsert_event_def find_sql_update find_append)
qed

lemma tool_call_event_id_eq:
  "tool_call_event_id e = tool_call_event_id e' \<longleftrightarrow> toolCallIdentityTuple e = toolCallIdentityTuple e'"
  by (simp add: tool_call_event_id_def toolCallIdentityKey_def)

text \<open>
  Every report of one tool call lands on one row, and reports of different calls never
  share a row: an update of the same call (same message, same scope, same call id, however
  the ids are spelled) replaces the payload and keeps the row's place and time, and an update
  of any other call leaves it alone.
\<close>

theorem tool_call_reports_share_a_row:
  assumes "find (\<lambda>r. ev_id r = tool_call_event_id e) t = Some r"
  shows "find (\<lambda>r. ev_id r = tool_call_event_id e) (upsertToolCallEvent m e' x now t)
    = Some (if toolCallIdentityTuple e' = toolCallIdentityTuple e
            then r\<lparr>ev_data := x, ev_messageId := Some m\<rparr> else r)"
proof -
  let ?d = "\<lparr>ed_id = tool_call_event_id e', ed_type = ''tool_call'', ed_data = x,
      ed_messageId = Some m, ed_createdAt = now\<rparr>"
  show ?thesis
  proof (cases "toolCallIdentityTuple e' = toolCallIdentityTuple e")
    case True
    then have "ed_id ?d = tool_call_event_id e" by (simp add: tool_call_event_id_eq)
    with find_upsert_same [of ?d t r True] assms True show ?thesis
      by (simp add: upsertToolCallEvent_def)
  next
    case False
    then have "tool_call_event_id e \<noteq> ed_id ?d" by (simp add: tool_call_event_id_eq)
    from find_upsert_other [OF this] assms False show ?thesis
      by (simp add: upsertToolCallEvent_def)
  qed
qed

theorem tool_call_reports_share_a_row_witness:
  "let e = \<lparr>tc_messageId = ''m'', tc_callId = ''c'', tc_isSubtask = False, tc_childSessionId = None,
        tc_taskCallId = None\<rparr>;
       t = upsertToolCallEvent ''m'' e ''a'' 5 []
   in map_option ev_data (find (\<lambda>r. ev_id r = tool_call_event_id e)
        (upsertToolCallEvent ''m'' e ''b'' 9 t)) = Some ''b''"
proof -
  let ?e = "\<lparr>tc_messageId = ''m'', tc_callId = ''c'', tc_isSubtask = False, tc_childSessionId = None,
        tc_taskCallId = None\<rparr>"
  have "find (\<lambda>r. ev_id r = tool_call_event_id ?e) (upsertToolCallEvent ''m'' ?e ''a'' 5 [])
      = Some \<lparr>ev_id = tool_call_event_id ?e, ev_type = ''tool_call'', ev_data = ''a'',
              ev_messageId = Some ''m'', ev_createdAt = 5, ev_sequence = 1\<rparr>"
    by (simp add: upsertToolCallEvent_def upsert_event_def has_event_def event_of_def
        next_sequence_def max_sequence_def)
  from tool_call_reports_share_a_row [OF this, where e' = ?e and m = "''m''" and x = "''b''" and now = 9]
  show ?thesis by (simp add: Let_def)
qed

end
