(* ===== verification/Attachment_Store.thy ===== *)
theory Attachment_Store
  imports Prelude
begin

text \<open>
  The uploaded attachments of one session (\<open>session/session-attachment-repository.ts\<close>): who
  owns a row (no one, a message, a cleanup sweep) and how ownership moves. A throw inside the
  caller's transaction is \<open>None\<close>: the transaction rolls back.
\<close>

record attachment_row =
  at_id :: string
  at_mimeType :: string
  at_sizeBytes :: nat
  at_objectKey :: string
  at_messageId :: "string option"
  at_cleanupClaimedAt :: "ms option"
  at_createdAt :: ms

type_synonym attachment_table = "attachment_row list"

definition create_attachment ::
  "string \<Rightarrow> string \<Rightarrow> nat \<Rightarrow> string \<Rightarrow> ms \<Rightarrow> attachment_table \<Rightarrow> attachment_table option" where
  "create_attachment i mimeType sizeBytes objectKey createdAt t =
     (if i \<in> set (map at_id t) then None
      else Some (t @ [\<lparr>at_id = i, at_mimeType = mimeType, at_sizeBytes = sizeBytes,
        at_objectKey = objectKey, at_messageId = None, at_cleanupClaimedAt = None,
        at_createdAt = createdAt\<rparr>]))"

definition getTotals :: "attachment_table \<Rightarrow> nat \<times> nat" where
  "getTotals t = (length t, sum_list (map at_sizeBytes t))"

definition is_free :: "string list \<Rightarrow> attachment_row \<Rightarrow> bool" where
  "is_free ids r \<longleftrightarrow> at_id r \<in> set ids \<and> at_messageId r = None \<and> at_cleanupClaimedAt r = None"

definition getUnreferenced :: "string list \<Rightarrow> attachment_table \<Rightarrow> attachment_row list" where
  "getUnreferenced ids t = (if ids = [] then [] else filter (is_free ids) t)"

definition claimForMessage ::
  "string \<Rightarrow> string list \<Rightarrow> attachment_table \<Rightarrow> attachment_table option" where
  "claimForMessage messageId ids t =
     (if ids = [] then Some t
      else if sql_count (is_free ids) t \<noteq> length ids then None
      else Some (sql_update (is_free ids) (\<lambda>r. r\<lparr>at_messageId := Some messageId\<rparr>) t))"

definition releaseForMessage :: "string \<Rightarrow> attachment_table \<Rightarrow> attachment_table" where
  "releaseForMessage messageId =
     sql_update (\<lambda>r. at_messageId r = Some messageId) (\<lambda>r. r\<lparr>at_messageId := None\<rparr>)"

definition is_stale :: "ms \<Rightarrow> ms \<Rightarrow> attachment_row \<Rightarrow> bool" where
  "is_stale cutoff claimExpiredBefore r \<longleftrightarrow>
     at_messageId r = None \<and> at_createdAt r < cutoff
     \<and> (case at_cleanupClaimedAt r of None \<Rightarrow> True | Some c \<Rightarrow> c < claimExpiredBefore)"

definition claimStale ::
  "ms \<Rightarrow> ms \<Rightarrow> ms \<Rightarrow> attachment_table \<Rightarrow> attachment_table \<times> attachment_row list" where
  "claimStale cutoff claimedAt claimExpiredBefore t =
     (let stale = filter (is_stale cutoff claimExpiredBefore) t in
      if stale = [] then (t, [])
      else (sql_update (\<lambda>r. at_id r \<in> set (map at_id stale))
              (\<lambda>r. r\<lparr>at_cleanupClaimedAt := Some claimedAt\<rparr>) t,
            map (\<lambda>r. r\<lparr>at_cleanupClaimedAt := Some claimedAt\<rparr>) stale))"

definition acknowledgeCleanup :: "string list \<Rightarrow> ms \<Rightarrow> attachment_table \<Rightarrow> attachment_table" where
  "acknowledgeCleanup ids claimedAt t =
     (if ids = [] then t
      else sql_delete (\<lambda>r. at_id r \<in> set ids \<and> at_cleanupClaimedAt r = Some claimedAt
                           \<and> at_messageId r = None) t)"

definition releaseCleanupClaims :: "string list \<Rightarrow> ms \<Rightarrow> attachment_table \<Rightarrow> attachment_table" where
  "releaseCleanupClaims ids claimedAt t =
     (if ids = [] then t
      else sql_update (\<lambda>r. at_id r \<in> set ids \<and> at_messageId r = None
                           \<and> at_cleanupClaimedAt r = Some claimedAt)
             (\<lambda>r. r\<lparr>at_cleanupClaimedAt := None\<rparr>) t)"

section \<open>One owner at a time\<close>

datatype attachment_op =
    OpUpload string string nat string ms
  | OpClaim string "string list"
  | OpRelease string
  | OpClaimStale ms ms ms
  | OpAcknowledge "string list" ms
  | OpReleaseClaims "string list" ms

fun apply_attachment_op :: "attachment_op \<Rightarrow> attachment_table \<Rightarrow> attachment_table" where
  "apply_attachment_op (OpUpload i m s k c) t = nullish (create_attachment i m s k c t) t"
| "apply_attachment_op (OpClaim m ids) t = nullish (claimForMessage m ids t) t"
| "apply_attachment_op (OpRelease m) t = releaseForMessage m t"
| "apply_attachment_op (OpClaimStale cutoff at expired) t = fst (claimStale cutoff at expired t)"
| "apply_attachment_op (OpAcknowledge ids at) t = acknowledgeCleanup ids at t"
| "apply_attachment_op (OpReleaseClaims ids at) t = releaseCleanupClaims ids at t"

definition attachments_ok :: "attachment_table \<Rightarrow> bool" where
  "attachments_ok t \<longleftrightarrow> distinct (map at_id t)
     \<and> (\<forall>r \<in> set t. at_messageId r = None \<or> at_cleanupClaimedAt r = None)"

lemmas attachment_defs =
  create_attachment_def claimForMessage_def releaseForMessage_def claimStale_def
  acknowledgeCleanup_def releaseCleanupClaims_def is_free_def is_stale_def

lemma distinct_map_delete: "distinct (map f t) \<Longrightarrow> distinct (map f (sql_delete P t))"
  by (simp add: sql_delete_def distinct_map_filter)

lemma attachment_ids_op:
  assumes "distinct (map at_id t)"
  shows "distinct (map at_id (apply_attachment_op op t))"
  using assms
  by (cases op) (auto simp: create_attachment_def claimForMessage_def releaseForMessage_def
      claimStale_def acknowledgeCleanup_def releaseCleanupClaims_def Let_def map_sql_update
      distinct_map_delete)

lemma same_row:
  assumes "distinct (map at_id t)" and "r \<in> set t" and "s \<in> set t" and "at_id r = at_id s"
  shows "r = s"
  using assms by (auto simp: distinct_map inj_on_def)

lemma attachments_ok_op:
  assumes "attachments_ok t"
  shows "attachments_ok (apply_attachment_op op t)"
proof -
  have ids: "distinct (map at_id t)" and own: "\<And>r c. r \<in> set t \<Longrightarrow> at_cleanupClaimedAt r = Some c \<Longrightarrow> at_messageId r = None"
    using assms by (fastforce simp: attachments_ok_def)+
  have "at_messageId r = None \<or> at_cleanupClaimedAt r = None"
    if "r \<in> set (apply_attachment_op op t)" for r
    using that own
    by (cases op) (auto simp: attachment_defs set_sql_update Let_def image_iff
        dest: same_row [OF ids] split: if_splits)
  with attachment_ids_op [OF ids] show ?thesis by (simp add: attachments_ok_def)
qed

lemma owned_row_stays:
  assumes "attachments_ok t" and "r \<in> set t" and "at_messageId r = Some m" and "op \<noteq> OpRelease m"
  shows "r \<in> set (apply_attachment_op op t)"
proof -
  have ids: "distinct (map at_id t)" and "at_cleanupClaimedAt r = None"
    using assms(1-3) by (auto simp: attachments_ok_def)
  with assms(2-4) show ?thesis
    by (cases op) (auto simp: attachment_defs set_sql_update Let_def image_iff
        dest: same_row [OF ids])
qed

text \<open>
  An attachment a message uses is never cleaned away: through any interleaving of
  uploads, other claims, stale sweeps, their acknowledgements (timely or late) and their
  releases, the row a message has claimed stays in the table unchanged until that message
  itself is cancelled; and at no point is a row owned by a message and by a sweep at once.
\<close>

theorem claimed_attachment_survives_cleanup:
  assumes "attachments_ok t" and "r \<in> set t" and "at_messageId r = Some m"
    and "OpRelease m \<notin> set ops"
  shows "r \<in> set (foldl (\<lambda>t op. apply_attachment_op op t) t ops)
    \<and> attachments_ok (foldl (\<lambda>t op. apply_attachment_op op t) t ops)"
  using assms
proof (induction ops arbitrary: t)
  case (Cons op ops)
  then have "op \<noteq> OpRelease m" by auto
  with Cons.prems have "r \<in> set (apply_attachment_op op t)" by (intro owned_row_stays)
  with Cons attachments_ok_op [of t op] show ?case by simp
qed simp

definition demo_attachment :: "string option \<Rightarrow> attachment_row" where
  "demo_attachment m = \<lparr>at_id = ''a'', at_mimeType = ''image/png'', at_sizeBytes = 10,
     at_objectKey = ''k'', at_messageId = m, at_cleanupClaimedAt = None, at_createdAt = 1\<rparr>"

theorem claimed_attachment_survives_cleanup_witness:
  "demo_attachment (Some ''m'') \<in> set (foldl (\<lambda>t op. apply_attachment_op op t)
     [demo_attachment (Some ''m'')] [OpClaimStale 100 50 40, OpAcknowledge [''a''] 50])"
proof -
  have "attachments_ok [demo_attachment (Some ''m'')]"
    by (simp add: attachments_ok_def demo_attachment_def)
  from claimed_attachment_survives_cleanup [OF this, where r = "demo_attachment (Some ''m'')" and m = "''m''"
      and ops = "[OpClaimStale 100 50 40, OpAcknowledge [''a''] 50]"]
  show ?thesis by (simp add: demo_attachment_def)
qed

end
