(* ===== verification/Message_Store.thy ===== *)
theory Message_Store
  imports Session_Core Event_Store Attachment_Store
begin

text \<open>
  The prompts of one session (\<open>session/message-repository.ts\<close>): the table, every statement
  over it, and the transactions that move a prompt together with its attachments and its
  timeline events. A transaction whose statement throws (a key conflict, a failed claim)
  rolls back and is \<open>None\<close>.
\<close>

section \<open>Tables\<close>

record message_row =
  mg_id :: string
  mg_authorId :: string
  mg_authorCanonicalUserId :: "string option"
  mg_content :: string
  mg_source :: message_source
  mg_model :: "string option"
  mg_reasoningEffort :: "string option"
  mg_attachments :: "string option"
  mg_callbackContext :: "string option"
  mg_clientRequestId :: "string option"
  mg_requestFingerprint :: "string option"
  mg_autofixFeedbackKey :: "string option"
  mg_autofixPrKey :: "string option"
  mg_originContext :: "string option"
  mg_status :: message_status
  mg_errorMessage :: "string option"
  mg_stopDeadline :: "ms option"
  mg_reportedCostUsd :: rat
  mg_createdAt :: ms
  mg_startedAt :: "ms option"
  mg_completedAt :: "ms option"
  mg_admittedCanonicalUserId :: "string option"
  mg_mcpEligible :: bool
  mg_mcpRevision :: nat
  mg_mcpContext :: "string option"
  mg_mcpClosed :: bool

type_synonym message_table = "message_row list"

text \<open>The tables one session transaction can touch.\<close>

record session_db =
  db_core :: session_store
  db_messages :: message_table
  db_events :: event_table
  db_attachments :: attachment_table

record create_message =
  cm_id :: string
  cm_authorId :: string
  cm_authorCanonicalUserId :: "string option"
  cm_content :: string
  cm_source :: message_source
  cm_model :: "string option"
  cm_reasoningEffort :: "string option"
  cm_attachments :: "string option"
  cm_callbackContext :: "string option"
  cm_clientRequestId :: "string option"
  cm_requestFingerprint :: "string option"
  cm_autofixFeedbackKey :: "string option"
  cm_autofixPrKey :: "string option"
  cm_originContext :: "string option"
  cm_status :: message_status
  cm_createdAt :: ms
  cm_admittedCanonicalUserId :: "string option"
  cm_mcpEligible :: bool

definition STOP_CONFIRMATION_TIMEOUT_MS :: ms where
  "STOP_CONFIRMATION_TIMEOUT_MS = 15000"

definition MAX_UNFINISHED_PROMPTS :: nat where
  "MAX_UNFINISHED_PROMPTS = 50"

section \<open>Reads\<close>

definition is_unfinished :: "message_row \<Rightarrow> bool" where
  "is_unfinished m \<longleftrightarrow> mg_status m = MPending \<or> mg_status m = MProcessing"

definition is_terminal :: "message_row \<Rightarrow> bool" where
  "is_terminal m \<longleftrightarrow> mg_status m = MCompleted \<or> mg_status m = MFailed"

definition message_with :: "string \<Rightarrow> message_table \<Rightarrow> message_row option" where
  "message_with i t = find (\<lambda>m. mg_id m = i) t"

definition on_message :: "string \<Rightarrow> (message_row \<Rightarrow> message_row) \<Rightarrow> session_db \<Rightarrow> session_db" where
  "on_message i f db = db\<lparr>db_messages := sql_update (\<lambda>m. mg_id m = i) f (db_messages db)\<rparr>"

definition getActiveDurationMs :: "session_db \<Rightarrow> int" where
  "getActiveDurationMs db = sum_list
     (map (\<lambda>m. case (mg_startedAt m, mg_completedAt m) of
                 (Some a, Some b) \<Rightarrow> b - a | _ \<Rightarrow> 0) (db_messages db))"

definition getMessageCount :: "session_db \<Rightarrow> nat" where
  "getMessageCount db = length (db_messages db)"

definition getPendingOrProcessingCount :: "session_db \<Rightarrow> nat" where
  "getPendingOrProcessingCount db = sql_count is_unfinished (db_messages db)"

definition processing_row :: "session_db \<Rightarrow> message_row option" where
  "processing_row db = find (\<lambda>m. mg_status m = MProcessing) (db_messages db)"

definition getProcessingMessage :: "session_db \<Rightarrow> string option" where
  "getProcessingMessage db = map_option mg_id (processing_row db)"

definition getMessageAwaitingStopConfirmation :: "session_db \<Rightarrow> (string \<times> ms) option" where
  "getMessageAwaitingStopConfirmation db =
     (case find (\<lambda>m. mg_stopDeadline m \<noteq> None) (db_messages db) of
        None \<Rightarrow> None | Some m \<Rightarrow> Some (mg_id m, the (mg_stopDeadline m)))"

definition getProcessingMessageWithCreatedAt :: "session_db \<Rightarrow> (string \<times> ms) option" where
  "getProcessingMessageWithCreatedAt db =
     map_option (\<lambda>m. (mg_id m, mg_createdAt m)) (processing_row db)"

definition getProcessingMessageWithStartedAt :: "session_db \<Rightarrow> (string \<times> ms option) option" where
  "getProcessingMessageWithStartedAt db =
     map_option (\<lambda>m. (mg_id m, mg_startedAt m)) (processing_row db)"

definition getNextPendingMessage :: "session_db \<Rightarrow> message_row option" where
  "getNextPendingMessage db =
     first_by mg_createdAt (filter (\<lambda>m. mg_status m = MPending) (db_messages db))"

definition getMessageById :: "string \<Rightarrow> session_db \<Rightarrow> message_row option" where
  "getMessageById i db = message_with i (db_messages db)"

definition getMessageByClientRequestId :: "string \<Rightarrow> session_db \<Rightarrow> message_row option" where
  "getMessageByClientRequestId rid db = find (\<lambda>m. mg_clientRequestId m = Some rid) (db_messages db)"

definition getAutofixMessageId :: "string \<Rightarrow> session_db \<Rightarrow> string option" where
  "getAutofixMessageId key db =
     map_option mg_id (find (\<lambda>m. mg_autofixFeedbackKey m = Some key) (db_messages db))"

definition getMessageContent :: "string \<Rightarrow> session_db \<Rightarrow> string option" where
  "getMessageContent i db = map_option mg_content (message_with i (db_messages db))"

definition getMessageStatus :: "string \<Rightarrow> session_db \<Rightarrow> message_status option" where
  "getMessageStatus i db = map_option mg_status (message_with i (db_messages db))"

text \<open>\<open>ORDER BY CASE status WHEN 'processing' THEN 0 ELSE 1 END, created_at, rowid\<close>.\<close>

definition queue_rank :: "message_row \<Rightarrow> nat \<times> ms" where
  "queue_rank m = (if mg_status m = MProcessing then 0 else 1, mg_createdAt m)"

definition listUnfinishedMessages :: "session_db \<Rightarrow> message_row list" where
  "listUnfinishedMessages db = sort_key queue_rank (filter is_unfinished (db_messages db))"

fun index_of :: "string \<Rightarrow> string list \<Rightarrow> nat option" where
  "index_of x [] = None"
| "index_of x (y # ys) = (if y = x then Some 0 else map_option Suc (index_of x ys))"

definition getUnfinishedMessagePosition :: "string \<Rightarrow> session_db \<Rightarrow> nat option" where
  "getUnfinishedMessagePosition i db =
     map_option Suc (index_of i (map mg_id (listUnfinishedMessages db)))"

definition listPromptQueue :: "session_db \<Rightarrow> (string \<times> string \<times> message_status) list" where
  "listPromptQueue db =
     map (\<lambda>m. (mg_id m, mg_content m, mg_status m))
       (filter is_unfinished (listUnfinishedMessages db))"

definition getMessageCallbackContext ::
  "string \<Rightarrow> session_db \<Rightarrow> (string option \<times> message_source) option" where
  "getMessageCallbackContext i db =
     map_option (\<lambda>m. (mg_callbackContext m, mg_source m)) (message_with i (db_messages db))"

definition listPendingMessagesWithCreatedAt :: "session_db \<Rightarrow> (string \<times> ms) list" where
  "listPendingMessagesWithCreatedAt db =
     map (\<lambda>m. (mg_id m, mg_createdAt m))
       (sort_key mg_createdAt (filter (\<lambda>m. mg_status m = MPending) (db_messages db)))"

definition terminal_key :: "message_row \<Rightarrow> ms \<times> ms \<times> string" where
  "terminal_key m =
     (nullish (or_else (mg_completedAt m) (mg_startedAt m)) (mg_createdAt m), mg_createdAt m, mg_id m)"

definition getLatestTerminalMessage :: "session_db \<Rightarrow> message_row option" where
  "getLatestTerminalMessage db =
     (case newest_first terminal_key (filter is_terminal (db_messages db)) of
        [] \<Rightarrow> None | m # _ \<Rightarrow> Some m)"

definition getProcessingMessageAuthority :: "session_db \<Rightarrow> (string option \<times> bool) option" where
  "getProcessingMessageAuthority db =
     map_option (\<lambda>m. (mg_admittedCanonicalUserId m, mg_mcpEligible m)) (processing_row db)"

definition getProcessingMessageAuthor :: "session_db \<Rightarrow> (string \<times> message_source) option" where
  "getProcessingMessageAuthor db =
     map_option (\<lambda>m. (mg_authorId m, mg_source m)) (processing_row db)"

definition getProcessingPromptAccount :: "session_db \<Rightarrow> string option" where
  "getProcessingPromptAccount db =
     (case processing_row db of None \<Rightarrow> None | Some m \<Rightarrow> mg_authorCanonicalUserId m)"

definition hasDispatchedPromptFromOtherUser :: "string \<Rightarrow> session_db \<Rightarrow> bool" where
  "hasDispatchedPromptFromOtherUser uid db =
     list_ex (\<lambda>m. mg_startedAt m \<noteq> None
       \<and> (mg_authorCanonicalUserId m = None \<or> mg_authorCanonicalUserId m \<noteq> Some uid))
       (db_messages db)"

section \<open>Listing\<close>

record list_messages =
  lm_cursor :: "message_cursor option"
  lm_limit :: nat
  lm_status :: "message_status option"

fun message_before :: "message_cursor option \<Rightarrow> message_row \<Rightarrow> bool" where
  "message_before None m = True"
| "message_before (Some (BareTimestamp ts)) m = (mg_createdAt m < ts)"
| "message_before (Some (Composite c)) m =
     (mg_createdAt m < cc_createdAt c
      \<or> mg_createdAt m = cc_createdAt c \<and> mg_id m < cc_id c)"

definition message_key :: "message_row \<Rightarrow> ms \<times> string" where
  "message_key m = (mg_createdAt m, mg_id m)"

definition listMessages :: "list_messages \<Rightarrow> session_db \<Rightarrow> message_row list" where
  "listMessages q db =
     take (lm_limit q + 1) (newest_first message_key
       (filter (\<lambda>m. (lm_status q = None \<or> lm_status q = Some (mg_status m))
                  \<and> message_before (lm_cursor q) m) (db_messages db)))"

section \<open>Writes\<close>

definition markMessageAwaitingStopConfirmation ::
  "string \<Rightarrow> ms \<Rightarrow> session_db \<Rightarrow> session_db" where
  "markMessageAwaitingStopConfirmation i deadline =
     on_message i (\<lambda>m. m\<lparr>mg_stopDeadline := Some deadline\<rparr>)"

definition clearMessageAwaitingStopConfirmation :: "string \<Rightarrow> session_db \<Rightarrow> session_db" where
  "clearMessageAwaitingStopConfirmation i = on_message i (\<lambda>m. m\<lparr>mg_stopDeadline := None\<rparr>)"

text \<open>A report that is not a finite number is \<open>None\<close>.\<close>

definition raiseReportedCost :: "string \<Rightarrow> rat option \<Rightarrow> session_db \<Rightarrow> session_db \<times> rat" where
  "raiseReportedCost i reported db =
     (case reported of
        None \<Rightarrow> (db, 0)
      | Some c \<Rightarrow>
          if c \<le> 0 then (db, 0)
          else (case message_with i (db_messages db) of
                  None \<Rightarrow> (db, 0)
                | Some m \<Rightarrow>
                    if c \<le> mg_reportedCostUsd m then (db, 0)
                    else (on_message i (\<lambda>m. m\<lparr>mg_reportedCostUsd := c\<rparr>) db,
                          c - mg_reportedCostUsd m)))"

definition message_of :: "create_message \<Rightarrow> message_row" where
  "message_of d = \<lparr>mg_id = cm_id d, mg_authorId = cm_authorId d,
     mg_authorCanonicalUserId = cm_authorCanonicalUserId d, mg_content = cm_content d,
     mg_source = cm_source d, mg_model = cm_model d, mg_reasoningEffort = cm_reasoningEffort d,
     mg_attachments = cm_attachments d, mg_callbackContext = cm_callbackContext d,
     mg_clientRequestId = cm_clientRequestId d, mg_requestFingerprint = cm_requestFingerprint d,
     mg_autofixFeedbackKey = cm_autofixFeedbackKey d, mg_autofixPrKey = cm_autofixPrKey d,
     mg_originContext = cm_originContext d, mg_status = cm_status d, mg_errorMessage = None,
     mg_stopDeadline = None, mg_reportedCostUsd = 0, mg_createdAt = cm_createdAt d,
     mg_startedAt = None, mg_completedAt = None,
     mg_admittedCanonicalUserId = cm_admittedCanonicalUserId d,
     mg_mcpEligible = cm_mcpEligible d, mg_mcpRevision = 0, mg_mcpContext = None,
     mg_mcpClosed = True\<rparr>"

text \<open>The table's keys: the primary key and the three partial unique indexes.\<close>

definition violates_key :: "message_row \<Rightarrow> message_table \<Rightarrow> bool" where
  "violates_key m t \<longleftrightarrow>
     (\<exists>x \<in> set t. mg_id x = mg_id m
        \<or> (mg_clientRequestId m \<noteq> None \<and> mg_clientRequestId x = mg_clientRequestId m)
        \<or> (mg_status m = MProcessing \<and> mg_status x = MProcessing)
        \<or> (mg_autofixFeedbackKey m \<noteq> None \<and> mg_autofixFeedbackKey x = mg_autofixFeedbackKey m))"

definition createMessage :: "create_message \<Rightarrow> session_db \<Rightarrow> session_db option" where
  "createMessage d db =
     (if violates_key (message_of d) (db_messages db) then None
      else Some (db\<lparr>db_messages := db_messages db @ [message_of d]\<rparr>))"

definition createMessageWithAttachments ::
  "create_message \<Rightarrow> string list \<Rightarrow> event_data option \<Rightarrow> session_db \<Rightarrow> session_db option" where
  "createMessageWithAttachments d ids event db =
     (case claimForMessage (cm_id d) ids (db_attachments db) of
        None \<Rightarrow> None
      | Some att \<Rightarrow>
          (case createMessage d (db\<lparr>db_attachments := att\<rparr>) of
             None \<Rightarrow> None
           | Some db1 \<Rightarrow>
               (case event of
                  None \<Rightarrow> Some db1
                | Some e \<Rightarrow> map_option (\<lambda>evs. db1\<lparr>db_events := evs\<rparr>) (createEvent e (db_events db1)))))"

record admit_autofix =
  aa_message :: create_message
  aa_feedbackKey :: string
  aa_pullRequestKey :: string
  aa_originContext :: string
  aa_attemptLimit :: "nat option"
  aa_windowStart :: ms
  aa_sessionClosed :: bool

datatype autofix_rejection = SessionClosed | BudgetExhausted | QueueFull | AttemptLimit

datatype autofix_admission =
    AutofixEnqueued string
  | AutofixDuplicate string
  | AutofixRejected autofix_rejection

text \<open>The message's author is resolved (and created) only when it is admitted; here it is part
  of the data.\<close>

definition admitAutofixMessage ::
  "admit_autofix \<Rightarrow> session_db \<Rightarrow> (session_db \<times> autofix_admission) option" where
  "admitAutofixMessage d db =
     (if truthy (getAutofixMessageId (aa_feedbackKey d) db)
      then Some (db, AutofixDuplicate (the (getAutofixMessageId (aa_feedbackKey d) db)))
      else
          if (case getSession (db_core db) of None \<Rightarrow> False | Some s \<Rightarrow> sn_budgetExhausted s)
          then Some (db, AutofixRejected BudgetExhausted)
          else if aa_sessionClosed d then Some (db, AutofixRejected SessionClosed)
          else if MAX_UNFINISHED_PROMPTS \<le> getPendingOrProcessingCount db
          then Some (db, AutofixRejected QueueFull)
          else if (case aa_attemptLimit d of
                     None \<Rightarrow> False
                   | Some limit \<Rightarrow> limit \<le> sql_count (\<lambda>m. mg_autofixPrKey m = Some (aa_pullRequestKey d)
                                        \<and> aa_windowStart d \<le> mg_createdAt m) (db_messages db))
          then Some (db, AutofixRejected AttemptLimit)
          else map_option (\<lambda>db'. (db', AutofixEnqueued (cm_id (aa_message d))))
                 (createMessage ((aa_message d)\<lparr>cm_autofixFeedbackKey := Some (aa_feedbackKey d),
                    cm_autofixPrKey := Some (aa_pullRequestKey d),
                    cm_originContext := Some (aa_originContext d)\<rparr>) db))"

definition cancelPendingMessage :: "string \<Rightarrow> session_db \<Rightarrow> session_db \<times> bool" where
  "cancelPendingMessage i db =
     (case message_with i (db_messages db) of
        None \<Rightarrow> (db, False)
      | Some m \<Rightarrow>
          if mg_status m \<noteq> MPending \<or> mg_source m \<noteq> SrcWeb \<or> mg_callbackContext m \<noteq> None
          then (db, False)
          else let doomed = (\<lambda>m. mg_id m = i \<and> mg_status m = MPending) in
            (db\<lparr>db_attachments := releaseForMessage i (db_attachments db),
                db_messages := sql_delete doomed (db_messages db)\<rparr>,
             sql_count doomed (db_messages db) = 1))"

definition user_message_event_id :: "string \<Rightarrow> string" where
  "user_message_event_id i = ''user_message:'' @ i"

text \<open>The event's JSON is built by the caller; the claim and the event commit together.\<close>

definition startMessageProcessing ::
  "string \<Rightarrow> ms \<Rightarrow> string \<Rightarrow> session_db \<Rightarrow> (session_db \<times> bool) option" where
  "startMessageProcessing i startedAt event db =
     (let p = (\<lambda>m. mg_id m = i \<and> mg_status m = MPending
                 \<and> sql_count (\<lambda>x. mg_status x = MProcessing) (db_messages db) = 0) in
      if sql_count p (db_messages db) \<noteq> 1 then Some (db, False)
      else
        let claimed = db\<lparr>db_messages := sql_update p
              (\<lambda>m. m\<lparr>mg_status := MProcessing, mg_startedAt := Some startedAt,
                     mg_mcpRevision := mg_mcpRevision m + 1, mg_mcpContext := None,
                     mg_mcpClosed := False\<rparr>) (db_messages db)\<rparr> in
        map_option (\<lambda>evs. (claimed\<lparr>db_events := evs\<rparr>, True))
          (createEvent \<lparr>ed_id = user_message_event_id i, ed_type = ''user_message'',
             ed_data = event, ed_messageId = Some i, ed_createdAt = startedAt\<rparr> (db_events db)))"

definition updateMessageToPending :: "string \<Rightarrow> session_db \<Rightarrow> session_db" where
  "updateMessageToPending i db =
     (let p = (\<lambda>m. mg_id m = i \<and> mg_status m = MProcessing);
          db1 = db\<lparr>db_messages := sql_update p
             (\<lambda>m. m\<lparr>mg_status := MPending, mg_startedAt := None\<rparr>) (db_messages db)\<rparr> in
      if sql_count p (db_messages db) = 1
      then db1\<lparr>db_events := sql_delete (\<lambda>e. ev_id e = user_message_event_id i) (db_events db1)\<rparr>
      else db1)"

record completion_event =
  ce_messageId :: string
  ce_success :: bool
  ce_error :: "string option"
  ce_json :: string

record recorded_completion =
  rc_messageId :: string
  rc_messageCreatedAt :: ms
  rc_messageStartedAt :: "ms option"
  rc_completedAt :: ms
  rc_status :: message_status

definition recordMessageCompletion ::
  "completion_event \<Rightarrow> ms \<Rightarrow> message_status \<Rightarrow> session_db \<Rightarrow> session_db \<times> recorded_completion option" where
  "recordMessageCompletion e completedAt expected db =
     (case message_with (ce_messageId e) (db_messages db) of
        None \<Rightarrow> (db, None)
      | Some m \<Rightarrow>
          if mg_status m \<noteq> expected then (db, None)
          else
            let status = (if ce_success e then MCompleted else MFailed);
                db1 = on_message (ce_messageId e)
                  (\<lambda>m. m\<lparr>mg_status := status, mg_completedAt := Some completedAt,
                         mg_errorMessage := (if ce_success e then None else ce_error e)\<rparr>) db;
                db2 = db1\<lparr>db_events :=
                  upsertExecutionCompleteEvent (ce_messageId e) (ce_json e) completedAt (db_events db1)\<rparr>
            in (db2, Some \<lparr>rc_messageId = ce_messageId e, rc_messageCreatedAt = mg_createdAt m,
                  rc_messageStartedAt = mg_startedAt m, rc_completedAt = completedAt,
                  rc_status = status\<rparr>))"


section \<open>Well-formed tables\<close>

definition row_ok :: "message_row \<Rightarrow> bool" where
  "row_ok m \<longleftrightarrow>
     (case mg_status m of
        MPending \<Rightarrow> mg_startedAt m = None \<and> mg_completedAt m = None
      | MProcessing \<Rightarrow> mg_startedAt m \<noteq> None \<and> mg_completedAt m = None
      | _ \<Rightarrow> mg_completedAt m \<noteq> None)"

definition is_processing :: "message_row \<Rightarrow> bool" where
  "is_processing m \<longleftrightarrow> mg_status m = MProcessing"

definition messages_ok :: "session_db \<Rightarrow> bool" where
  "messages_ok db \<longleftrightarrow> distinct (map mg_id (db_messages db))
     \<and> sql_count is_processing (db_messages db) \<le> 1
     \<and> (\<forall>m \<in> set (db_messages db). row_ok m)
     \<and> (\<forall>m \<in> set (db_messages db). is_processing m \<longrightarrow> has_event (user_message_event_id (mg_id m)) (db_events db))
     \<and> events_ok (db_events db) \<and> attachments_ok (db_attachments db)"

text \<open>Every write a session makes to its prompts. A prompt is queued as \<open>pending\<close>, and a
  completion names the status it expects.\<close>

datatype message_op =
    OpQueue create_message "string list" "event_data option"
  | OpAdmit admit_autofix
  | OpCancel string
  | OpStart string ms string
  | OpRequeue string
  | OpComplete completion_event ms bool
  | OpAwaitStop string ms
  | OpStopConfirmed string
  | OpCost string "rat option"

fun apply_message_op :: "message_op \<Rightarrow> session_db \<Rightarrow> session_db" where
  "apply_message_op (OpQueue d ids e) db =
     nullish (createMessageWithAttachments (d\<lparr>cm_status := MPending\<rparr>) ids e db) db"
| "apply_message_op (OpAdmit d) db =
     fst (nullish (admitAutofixMessage (d\<lparr>aa_message := (aa_message d)\<lparr>cm_status := MPending\<rparr>\<rparr>) db)
       (db, AutofixRejected SessionClosed))"
| "apply_message_op (OpCancel i) db = fst (cancelPendingMessage i db)"
| "apply_message_op (OpStart i ts e) db = fst (nullish (startMessageProcessing i ts e db) (db, False))"
| "apply_message_op (OpRequeue i) db = updateMessageToPending i db"
| "apply_message_op (OpComplete e ts running) db =
     fst (recordMessageCompletion e ts (if running then MProcessing else MPending) db)"
| "apply_message_op (OpAwaitStop i d) db = markMessageAwaitingStopConfirmation i d db"
| "apply_message_op (OpStopConfirmed i) db = clearMessageAwaitingStopConfirmation i db"
| "apply_message_op (OpCost i c) db = fst (raiseReportedCost i c db)"

lemma user_message_event_id_eq [simp]: "user_message_event_id i = user_message_event_id j \<longleftrightarrow> i = j"
  by (simp add: user_message_event_id_def)

lemma has_event_append [simp]: "has_event i (t @ [event_of d n]) \<longleftrightarrow> has_event i t \<or> i = ed_id d"
  by (auto simp: has_event_def event_of_def)

lemma has_event_upsert: "has_event i t \<Longrightarrow> has_event i (upsert_event d keep t)"
  by (simp add: upsert_event_def has_event_def map_sql_update del: set_map)

lemma createEvent_SomeD:
  assumes "createEvent d t = Some t'"
  shows "\<not> has_event (ed_id d) t" and "t' = t @ [event_of d (next_sequence t)]"
  using assms by (auto simp: createEvent_def split: if_splits)

lemma createMessage_ok:
  assumes "messages_ok db" and "createMessage d db = Some db'" and "cm_status d = MPending"
  shows "messages_ok db'"
proof -
  let ?m = "message_of d"
  have new: "db' = db\<lparr>db_messages := db_messages db @ [?m]\<rparr>" "\<not> violates_key ?m (db_messages db)"
    using assms(2) by (auto simp: createMessage_def split: if_splits)
  have "row_ok ?m" "\<not> is_processing ?m"
    using assms(3) by (simp_all add: message_of_def row_ok_def is_processing_def)
  moreover have "mg_id ?m \<notin> set (map mg_id (db_messages db))"
    using new(2) by (auto simp: violates_key_def)
  ultimately show ?thesis using assms(1) new(1) by (auto simp: messages_ok_def)
qed

lemma claim_ok: "attachments_ok t \<Longrightarrow> claimForMessage m ids t = Some t' \<Longrightarrow> attachments_ok t'"
  using attachments_ok_op [of t "OpClaim m ids"] by simp

lemma messages_ok_events:
  assumes "messages_ok db" and "events_ok evs"
    and "\<And>i. has_event i (db_events db) \<Longrightarrow> has_event i evs"
  shows "messages_ok (db\<lparr>db_events := evs\<rparr>)"
  using assms by (auto simp: messages_ok_def)

lemma createMessageWithAttachments_ok:
  assumes "messages_ok db" and "cm_status d = MPending"
    and "createMessageWithAttachments d ids e db = Some db'"
  shows "messages_ok db'"
proof -
  from assms(3) obtain att db1 where
    att: "claimForMessage (cm_id d) ids (db_attachments db) = Some att"
    and db1: "createMessage d (db\<lparr>db_attachments := att\<rparr>) = Some db1"
    by (auto simp: createMessageWithAttachments_def split: option.splits)
  have "attachments_ok att" using assms(1) att claim_ok by (auto simp: messages_ok_def)
  with assms(1) have "messages_ok (db\<lparr>db_attachments := att\<rparr>)" by (simp add: messages_ok_def)
  with db1 assms(2) have ok1: "messages_ok db1" by (metis createMessage_ok)
  show ?thesis
  proof (cases e)
    case None
    with assms(3) att db1 ok1 show ?thesis by (simp add: createMessageWithAttachments_def)
  next
    case (Some ev)
    with assms(3) att db1 obtain evs where evs: "createEvent ev (db_events db1) = Some evs"
      and db': "db' = db1\<lparr>db_events := evs\<rparr>"
      by (auto simp: createMessageWithAttachments_def)
    note new = createEvent_SomeD [OF evs]
    have "events_ok evs"
      using ok1 new events_ok_append [of "db_events db1" ev] by (simp add: messages_ok_def)
    with ok1 new db' show ?thesis by (auto intro: messages_ok_events)
  qed
qed

lemma admitAutofixMessage_cases:
  assumes "admitAutofixMessage d db = Some (db', a)"
  shows "db' = db \<or> (\<exists>m. createMessage m db = Some db' \<and> cm_status m = cm_status (aa_message d))"
  using assms by (auto simp: admitAutofixMessage_def split: if_splits)

lemma cancelPendingMessage_ok:
  assumes "messages_ok db"
  shows "messages_ok (fst (cancelPendingMessage i db))"
proof -
  let ?doomed = "\<lambda>m. mg_id m = i \<and> mg_status m = MPending"
  have "sql_count is_processing (sql_delete ?doomed (db_messages db)) \<le> 1"
    using sql_count_delete_le [of is_processing ?doomed "db_messages db"] assms
    by (simp add: messages_ok_def)
  moreover have "distinct (map mg_id (sql_delete ?doomed (db_messages db)))"
    using assms by (simp add: messages_ok_def distinct_map_delete)
  moreover have "attachments_ok (releaseForMessage i (db_attachments db))"
    using attachments_ok_op [of _ "OpRelease i"] assms by (simp add: messages_ok_def)
  ultimately show ?thesis
    using assms by (auto simp: cancelPendingMessage_def messages_ok_def Let_def split: option.splits)
qed

text \<open>A change of one message's columns keeps the tables well formed when the changed row is.\<close>

lemma update_messages_ok:
  assumes "messages_ok db"
    and "\<And>m. mg_id (f m) = mg_id m"
    and "\<And>m. m \<in> set (db_messages db) \<Longrightarrow> p m \<Longrightarrow> row_ok (f m)"
    and "\<And>m. m \<in> set (db_messages db) \<Longrightarrow> p m \<Longrightarrow> is_processing (f m) \<Longrightarrow> is_processing m"
  shows "messages_ok (db\<lparr>db_messages := sql_update p f (db_messages db)\<rparr>)"
proof -
  have "sql_count (\<lambda>m. is_processing (if p m then f m else m)) (db_messages db)
      \<le> sql_count is_processing (db_messages db)"
    by (rule sql_count_mono) (use assms(4) in \<open>auto split: if_splits\<close>)
  then have "sql_count is_processing (sql_update p f (db_messages db)) \<le> 1"
    using assms(1) by (simp add: messages_ok_def sql_count_update)
  moreover have "\<forall>m \<in> set (sql_update p f (db_messages db)). row_ok m"
    using assms(1,3) by (auto simp: messages_ok_def set_sql_update)
  moreover have "\<forall>m \<in> set (sql_update p f (db_messages db)). is_processing m \<longrightarrow>
      has_event (user_message_event_id (mg_id m)) (db_events db)"
    using assms(1,2,4) by (auto simp: messages_ok_def set_sql_update)
  ultimately show ?thesis
    using assms(1,2) by (simp add: messages_ok_def map_sql_update)
qed

lemma on_message_ok:
  assumes "messages_ok db"
    and "\<And>m. mg_id (f m) = mg_id m"
    and "\<And>m. row_ok m \<Longrightarrow> row_ok (f m)"
    and "\<And>m. is_processing (f m) \<Longrightarrow> is_processing m"
  shows "messages_ok (on_message i f db)"
  unfolding on_message_def
  by (rule update_messages_ok) (use assms in \<open>auto simp: messages_ok_def\<close>)

lemma row_ok_columns [simp]:
  "row_ok (m\<lparr>mg_stopDeadline := d\<rparr>) = row_ok m"
  "row_ok (m\<lparr>mg_reportedCostUsd := c\<rparr>) = row_ok m"
  "is_processing (m\<lparr>mg_stopDeadline := d\<rparr>) = is_processing m"
  "is_processing (m\<lparr>mg_reportedCostUsd := c\<rparr>) = is_processing m"
  by (cases "mg_status m"; simp add: row_ok_def is_processing_def)+

lemma startMessageProcessing_ok:
  assumes "messages_ok db" and "startMessageProcessing i ts e db = Some (db', b)"
  shows "messages_ok db'"
proof -
  let ?p = "\<lambda>m. mg_id m = i \<and> mg_status m = MPending
      \<and> sql_count (\<lambda>x. mg_status x = MProcessing) (db_messages db) = 0"
  let ?f = "\<lambda>m. m\<lparr>mg_status := MProcessing, mg_startedAt := Some ts,
       mg_mcpRevision := mg_mcpRevision m + 1, mg_mcpContext := None, mg_mcpClosed := False\<rparr>"
  let ?d = "\<lparr>ed_id = user_message_event_id i, ed_type = ''user_message'', ed_data = e,
       ed_messageId = Some i, ed_createdAt = ts\<rparr>"
  show ?thesis
  proof (cases "sql_count ?p (db_messages db) = 1")
    case False
    with assms show ?thesis by (simp add: startMessageProcessing_def Let_def)
  next
    case True
    with assms(2) obtain evs where evs: "createEvent ?d (db_events db) = Some evs"
      and db': "db' = db\<lparr>db_messages := sql_update ?p ?f (db_messages db), db_events := evs\<rparr>"
      by (auto simp: startMessageProcessing_def Let_def)
    have none: "sql_count (\<lambda>x. mg_status x = MProcessing) (db_messages db) = 0"
      using True by (metis (mono_tags, lifting) One_nat_def sql_count_pos zero_less_one)
    then have idle: "\<And>m. m \<in> set (db_messages db) \<Longrightarrow> mg_status m \<noteq> MProcessing"
      by (simp add: sql_count_zero)
    have "sql_count is_processing (sql_update ?p ?f (db_messages db)) = sql_count ?p (db_messages db)"
      unfolding sql_count_update
      by (rule sql_count_cong) (use idle in \<open>auto simp: is_processing_def\<close>)
    moreover have "events_ok evs"
      using createEvent_SomeD [OF evs] assms(1) events_ok_append [of "db_events db" ?d]
      by (simp add: messages_ok_def)
    moreover have "has_event (user_message_event_id i) evs"
      using createEvent_SomeD [OF evs] by simp
    ultimately show ?thesis
      using True assms(1) idle
      by (auto simp: messages_ok_def db' map_sql_update set_sql_update row_ok_def is_processing_def)
  qed
qed

lemma has_event_delete: "has_event j t \<Longrightarrow> j \<noteq> i \<Longrightarrow> has_event j (sql_delete (\<lambda>e. ev_id e = i) t)"
  by (auto simp: has_event_def)

lemma row_ok_requeue:
  "mg_status m = MProcessing \<Longrightarrow> row_ok m \<Longrightarrow> row_ok (m\<lparr>mg_status := MPending, mg_startedAt := None\<rparr>)"
  by (simp add: row_ok_def)

lemma messages_ok_row: "messages_ok db \<Longrightarrow> m \<in> set (db_messages db) \<Longrightarrow> row_ok m"
  by (simp add: messages_ok_def)

lemma updateMessageToPending_ok:
  assumes "messages_ok db"
  shows "messages_ok (updateMessageToPending i db)"
proof -
  let ?p = "\<lambda>m. mg_id m = i \<and> mg_status m = MProcessing"
  let ?f = "\<lambda>m. m\<lparr>mg_status := MPending, mg_startedAt := None\<rparr>"
  let ?db1 = "db\<lparr>db_messages := sql_update ?p ?f (db_messages db)\<rparr>"
  have ok1: "messages_ok ?db1"
  proof (rule update_messages_ok [OF assms])
    show "row_ok (?f m)" if "m \<in> set (db_messages db)" "?p m" for m
      using that messages_ok_row [OF assms] by (intro row_ok_requeue) simp_all
  qed (simp_all add: is_processing_def)
  have "mg_id m \<noteq> i" if "m \<in> set (db_messages ?db1)" "is_processing m" for m
  proof -
    from that(1) have "m \<in> set (sql_update ?p ?f (db_messages db))" by simp
    then obtain x where "m = (if ?p x then ?f x else x)" by (rule sql_updateE)
    with that(2) show ?thesis by (cases "?p x") (simp_all add: is_processing_def)
  qed
  with ok1 have "messages_ok (?db1\<lparr>db_events :=
      sql_delete (\<lambda>e. ev_id e = user_message_event_id i) (db_events ?db1)\<rparr>)"
    by (auto simp: messages_ok_def events_ok_delete intro!: has_event_delete)
  with ok1 show ?thesis by (simp add: updateMessageToPending_def Let_def)
qed

lemma recordMessageCompletion_ok:
  assumes "messages_ok db"
  shows "messages_ok (fst (recordMessageCompletion e ts expected db))"
proof -
  let ?f = "\<lambda>m. m\<lparr>mg_status := (if ce_success e then MCompleted else MFailed),
      mg_completedAt := Some ts, mg_errorMessage := (if ce_success e then None else ce_error e)\<rparr>"
  have "messages_ok (on_message (ce_messageId e) ?f db)"
    by (rule on_message_ok [OF assms]) (simp_all add: row_ok_def is_processing_def split: if_splits)
  then have "messages_ok ((on_message (ce_messageId e) ?f db)\<lparr>db_events :=
      upsertExecutionCompleteEvent (ce_messageId e) (ce_json e) ts
        (db_events (on_message (ce_messageId e) ?f db))\<rparr>)"
    by (rule messages_ok_events)
      (use assms in \<open>auto simp: upsertExecutionCompleteEvent_def upsertEventByMessageId_def
        on_message_def messages_ok_def intro: events_ok_upsert has_event_upsert\<close>)
  with assms show ?thesis
    by (auto simp: recordMessageCompletion_def Let_def split: option.splits)
qed

lemma messages_ok_op: "messages_ok db \<Longrightarrow> messages_ok (apply_message_op op db)"
proof (cases op)
  case (OpQueue d ids e)
  assume "messages_ok db"
  then show ?thesis
    using createMessageWithAttachments_ok [of db "d\<lparr>cm_status := MPending\<rparr>" ids e] OpQueue
    by (cases "createMessageWithAttachments (d\<lparr>cm_status := MPending\<rparr>) ids e db") auto
next
  case (OpAdmit d)
  assume ok: "messages_ok db"
  let ?d = "d\<lparr>aa_message := (aa_message d)\<lparr>cm_status := MPending\<rparr>\<rparr>"
  show ?thesis
  proof (cases "admitAutofixMessage ?d db")
    case (Some r)
    with admitAutofixMessage_cases [of ?d db "fst r" "snd r"] createMessage_ok [OF ok] ok OpAdmit
    show ?thesis by auto
  qed (use ok OpAdmit in simp)
next
  case (OpStart i ts e)
  assume ok: "messages_ok db"
  with OpStart show ?thesis
    using startMessageProcessing_ok [OF ok, of i ts e]
    by (cases "startMessageProcessing i ts e db") auto
next
  case (OpCost i c)
  assume "messages_ok db"
  then have "messages_ok (on_message i (\<lambda>m. m\<lparr>mg_reportedCostUsd := x\<rparr>) db)" for x
    by (intro on_message_ok) simp_all
  with \<open>messages_ok db\<close> OpCost show ?thesis
    by (auto simp: raiseReportedCost_def split: option.splits)
qed (auto simp: cancelPendingMessage_ok updateMessageToPending_ok recordMessageCompletion_ok
    markMessageAwaitingStopConfirmation_def clearMessageAwaitingStopConfirmation_def
    intro!: on_message_ok)

text \<open>
  C2. At most one prompt runs: through any sequence of queueing, admission, cancellation,
  claims, requeues, completions, stops and cost reports, message ids stay unique, at most one
  message is processing, the timestamps agree with the status (a pending message has not
  started, a processing one has and has not finished, a terminal one has finished), and a
  processing message always has its \<open>user_message\<close> event in the timeline.
\<close>

theorem one_prompt_runs:
  assumes "messages_ok db"
  shows "messages_ok (foldl (\<lambda>db op. apply_message_op op db) db ops)"
  using assms by (induction ops arbitrary: db) (simp_all add: messages_ok_op)

definition demo_create :: "string \<Rightarrow> ms \<Rightarrow> create_message" where
  "demo_create i ts = \<lparr>cm_id = i, cm_authorId = ''p'', cm_authorCanonicalUserId = None,
     cm_content = ''hi'', cm_source = SrcWeb, cm_model = None, cm_reasoningEffort = None,
     cm_attachments = None, cm_callbackContext = None, cm_clientRequestId = None,
     cm_requestFingerprint = None, cm_autofixFeedbackKey = None, cm_autofixPrKey = None,
     cm_originContext = None, cm_status = MPending, cm_createdAt = ts,
     cm_admittedCanonicalUserId = None, cm_mcpEligible = False\<rparr>"

definition empty_db :: session_db where
  "empty_db = \<lparr>db_core = \<lparr>se_session = [], se_repositories = []\<rparr>, db_messages = [],
     db_events = [], db_attachments = []\<rparr>"

lemma empty_db_ok: "messages_ok empty_db"
  by (simp add: messages_ok_def empty_db_def events_ok_def attachments_ok_def)

theorem one_prompt_runs_witness:
  "sql_count is_processing (db_messages (foldl (\<lambda>db op. apply_message_op op db) empty_db
     [OpQueue (demo_create ''a'' 1) [] None, OpQueue (demo_create ''b'' 2) [] None,
      OpStart ''a'' 3 ''{}'', OpStart ''b'' 4 ''{}''])) \<le> 1"
  using one_prompt_runs [OF empty_db_ok] unfolding messages_ok_def by blast

end
