(* ===== verification/Shutdown_Coordinator.thy ===== *)
theory Shutdown_Coordinator
  imports Shutdown_Record Message_Store Launch_Gate
begin

text \<open>
  \<open>session/sandbox-shutdown.ts\<close>: the coordinator that owns planned stopping. Its state is the
  durable record, the sandbox and message tables it shares a transaction with, and the fields
  of the instance. An asynchronous method is cut where it awaits the provider: the part before
  the call ends by pushing a continuation, and the provider's answer runs the rest. Arming an
  alarm does not yield here, a background task runs at once (its factory does), and what leaves
  the coordinator is logged together with the durable record it was sent under.
\<close>

section \<open>Environment and world\<close>

text \<open>The configured provider and what it can do; the session's final-snapshot buffer; the JSON
  rendering of two events, which the code never reads back.\<close>

record shutdown_env =
  e_name :: string
  e_explicitStop :: bool
  e_hasStop :: bool
  e_persistentResume :: bool
  e_snapshots :: bool
  e_hasSnapshot :: bool
  e_snapshotRequiresShutdown :: bool
  e_buffer :: ms
  e_failureJson :: "string \<Rightarrow> string \<Rightarrow> ms \<Rightarrow> string"
  e_warningJson :: "string \<Rightarrow> ms \<Rightarrow> string"

datatype stop_intent = Destroy | Preserve

datatype effect =
    FxAnnounce shutdown_view
  | FxStatus sandbox_status
  | FxWarning string
  | FxAccessChanged
  | FxIdle
  | FxSnapshotSaved string string
  | FxSessionWarning string
  | FxFailure recorded_completion
  | FxReconcileStatus
  | FxLifecycleChange
  | FxRetireAccess
  | FxAlarm ms
  | FxBindGeneration generation
  | FxPrepare string generation "string option" ms
  | FxSnapshot string string ms
  | FxStop string stop_intent string ms generation

text \<open>The provider calls in flight, with what their continuations remember. A retirement begun by
  a capture releases the capture's ownership when it ends.\<close>

datatype pending_call =
    PCapture shutdown_record bool
  | PRetire shutdown_record bool
  | PDiscard shutdown_record
  | PCheckpoint string generation "string option" sandbox_status bool string

record shutdown_world =
  w_store :: "shutdown_record option"
  w_sandbox :: sandbox_table
  w_db :: session_db
  w_activeOperation :: "string option"
  w_checkpointOperationId :: "string option"
  w_checkpointGeneration :: "generation option"
  w_retiringOperation :: "string option"
  w_discardingOperation :: "string option"
  w_activeRestoreGeneration :: "generation option"
  w_constructedAtMs :: ms
  w_socket :: bool
  w_log :: "(effect \<times> shutdown_record option) list"
  w_pending :: "pending_call list"
  w_malformed :: bool

definition STOP_MS :: ms where "STOP_MS = 60000"
definition CAPTURE_MS :: ms where "CAPTURE_MS = 300000"
definition RETIRE_MS :: ms where "RETIRE_MS = 30000"
definition MARGIN_MS :: ms where "MARGIN_MS = 30000"
definition RETRY_WINDOW_MS :: ms where "RETRY_WINDOW_MS = 30 * 60000"

definition LOST_CHECKPOINT_ERROR :: string where
  "LOST_CHECKPOINT_ERROR = ''Checkpoint result was lost during a control-plane restart.''"
definition UNCONFIRMED_CHECKPOINT_ERROR :: string where
  "UNCONFIRMED_CHECKPOINT_ERROR = ''Checkpoint provider outcome is unknown; destructive follow-up remains held.''"
definition RELEASED_CHECKPOINT_WARNING :: string where
  "RELEASED_CHECKPOINT_WARNING = ''An automatic save of this sandbox could not be confirmed. The sandbox is still running with your work and the session has resumed; the next save will include it.''"

definition SANDBOX_PROVIDER_NAMES :: "string list" where
  "SANDBOX_PROVIDER_NAMES = [''modal'', ''modal-vm'', ''daytona'', ''vercel'', ''e2b'', ''boat'']"

text \<open>\<open>x >= deadline!\<close> and \<open>x > deadline!\<close>: a comparison with a missing deadline is false.\<close>

definition reached :: "ms option \<Rightarrow> ms \<Rightarrow> bool" where
  "reached deadline now = (case deadline of None \<Rightarrow> False | Some d \<Rightarrow> d \<le> now)"

definition past :: "ms option \<Rightarrow> ms \<Rightarrow> bool" where
  "past deadline now = (case deadline of None \<Rightarrow> False | Some d \<Rightarrow> d < now)"

section \<open>Reading the record\<close>

definition isCurrent :: "shutdown_record \<Rightarrow> shutdown_world \<Rightarrow> bool" where
  "isCurrent s w = (case getSandbox (w_sandbox w) of None \<Rightarrow> False | Some r \<Rightarrow> of_generation (sh_generation s) r)"

definition matches :: "shutdown_record \<Rightarrow> generation \<Rightarrow> bool" where
  "matches s g \<longleftrightarrow> sh_generation s = g"

definition owns :: "shutdown_record \<Rightarrow> shutdown_world \<Rightarrow> bool" where
  "owns s w \<longleftrightarrow> isCurrent s w
     \<and> (some_holds (\<lambda>c. sh_operationId c = sh_operationId s \<and> sh_phase c = sh_phase s) (w_store w))"

text \<open>Old interrupted records lacked the explicit flag but kept the message marker.\<close>

definition continuationPaused :: "shutdown_record \<Rightarrow> bool" where
  "continuationPaused s = nullish (sh_continuationPaused s) (sh_messageId s \<noteq> None)"

definition recordedOnOtherProvider :: "shutdown_env \<Rightarrow> shutdown_record \<Rightarrow> bool" where
  "recordedOnOtherProvider e s \<longleftrightarrow>
     (sh_provider s \<noteq> None \<and> sh_provider s \<noteq> Some (e_name e))
     \<or> (some_holds (\<lambda>rp. rp_provider rp \<noteq> e_name e) (sh_receipt s))"

definition gone_provider :: "shutdown_env \<Rightarrow> string option \<Rightarrow> bool" where
  "gone_provider e n = (case n of None \<Rightarrow> True | Some p \<Rightarrow> p = e_name e \<or> p \<notin> set SANDBOX_PROVIDER_NAMES)"

definition recordedOnRetiredProvider :: "shutdown_env \<Rightarrow> shutdown_record \<Rightarrow> bool" where
  "recordedOnRetiredProvider e s \<longleftrightarrow>
     gone_provider e (sh_provider s) \<and> gone_provider e (map_option rp_provider (sh_receipt s))"

definition canStopSource :: "shutdown_env \<Rightarrow> bool" where
  "canStopSource e \<longleftrightarrow> e_explicitStop e \<and> e_hasStop e"

definition receiptCoversSource :: "shutdown_record \<Rightarrow> bool" where
  "receiptCoversSource s =
     (case sh_receipt s of None \<Rightarrow> False | Some rp \<Rightarrow> g_createdAt (sh_generation s) \<le> rp_savedAtMs rp)"

text \<open>\<open>emergencyWindow\<close>: the capture and retirement deadlines of one absolute budget.\<close>

definition emergency_end :: "ms option \<Rightarrow> ms \<Rightarrow> ms" where
  "emergency_end expires now = min_bound (now + CAPTURE_MS + RETIRE_MS + MARGIN_MS) expires"

definition emergencyWindow :: "shutdown_record option \<Rightarrow> ms \<Rightarrow> ms \<times> ms" where
  "emergencyWindow s now =
     (let end' = emergency_end (case s of None \<Rightarrow> None | Some r \<Rightarrow> sh_expiresAtMs r) now in
      (end' - RETIRE_MS - MARGIN_MS, end' - MARGIN_MS))"

text \<open>A routine checkpoint neither stops nor alters its source, so an unanswered one settles.\<close>

definition settles :: "shutdown_env \<Rightarrow> capture_op option \<Rightarrow> bool" where
  "settles e op \<longleftrightarrow> (some_holds (\<lambda>o'. op_after o' = Continue) op) \<and> \<not> e_snapshotRequiresShutdown e"

definition canRestoreSaved :: "shutdown_env \<Rightarrow> ms \<Rightarrow> shutdown_world \<Rightarrow> shutdown_record \<Rightarrow> bool" where
  "canRestoreSaved e now w s \<longleftrightarrow>
     \<not> (w_checkpointOperationId w \<noteq> None \<or> (sh_checkpointInFlight s \<and> settles e (sh_captureOp s)))
     \<and> (some_holds (\<lambda>rp. rp_provider rp = e_name e) (sh_receipt s))
     \<and> (sh_phase s = PhSaved \<or> sh_sourceRetired s
        \<or> (sh_lifetimeSource s = Some FromProvider \<and> reached (sh_expiresAtMs s) now)
        \<or> (truthy (sh_providerObjectId s) \<and> canStopSource e))"

definition canCapture :: "shutdown_env \<Rightarrow> bool" where
  "canCapture e \<longleftrightarrow> (e_persistentResume e \<and> canStopSource e) \<or> (e_snapshots e \<and> e_hasSnapshot e)"

definition canRetryShutdown :: "shutdown_env \<Rightarrow> ms \<Rightarrow> shutdown_record \<Rightarrow> bool" where
  "canRetryShutdown e now s \<longleftrightarrow>
     \<not> truthy (sh_discarding s) \<and> \<not> sh_restoreInvoked s \<and> \<not> sh_checkpointInFlight s
     \<and> \<not> sh_sourceRetired s \<and> truthy (sh_providerObjectId s)
     \<and> (\<not> receiptCoversSource s
        \<or> (some_holds (\<lambda>rp. rp_captureKind rp = Some CheckpointCapture) (sh_receipt s)))
     \<and> sh_captureByMs s \<noteq> None
     \<and> (some_holds (\<lambda>t. now < t + RETRY_WINDOW_MS) (sh_stopByMs s))
     \<and> canCapture e \<and> now + MARGIN_MS < fst (emergencyWindow (Some s) now)"

definition canAutomaticallyRetryCapture ::
  "shutdown_env \<Rightarrow> ms \<Rightarrow> shutdown_world \<Rightarrow> shutdown_record \<Rightarrow> bool" where
  "canAutomaticallyRetryCapture e now w s \<longleftrightarrow>
     sh_captureFailure s \<and> isCurrent s w
     \<and> (sh_provider s = None \<or> sh_provider s = Some (e_name e))
     \<and> (none_or (\<lambda>rp. rp_provider rp = e_name e) (sh_receipt s))
     \<and> canRetryShutdown e now s"

definition canDiscard :: "shutdown_env \<Rightarrow> shutdown_world \<Rightarrow> shutdown_record \<Rightarrow> bool" where
  "canDiscard e w s \<longleftrightarrow>
     w_checkpointOperationId w = None
     \<and> \<not> (sh_checkpointInFlight s \<and> settles e (sh_captureOp s))
     \<and> (\<not> truthy (sh_providerObjectId s) \<or> canStopSource e \<or> sh_sourceRetired s)"

definition availableRecoveryActions ::
  "shutdown_env \<Rightarrow> ms \<Rightarrow> shutdown_world \<Rightarrow> shutdown_record \<Rightarrow> recovery_action list" where
  "availableRecoveryActions e now w s =
     (if \<not> isCurrent s w then []
      else if recordedOnOtherProvider e s
      then (if \<not> recordedOnRetiredProvider e s \<or> w_checkpointOperationId w \<noteq> None then []
            else if truthy (sh_discarding s) \<and> w_discardingOperation w \<noteq> None then [] else [Discard])
      else if sh_phase s = PhFailed \<or> sh_phase s = PhUnknown
      then (if truthy (sh_discarding s) then (if w_discardingOperation w = None then [Discard] else [])
            else (if canRetryShutdown e now s then [Retry] else [])
                 @ (if canRestoreSaved e now w s then [RestoreSaved] else [])
                 @ (if canDiscard e w s then [Discard] else []))
      else if sh_phase s = PhSaved \<and> continuationPaused s
      then (if canRestoreSaved e now w s then [RestoreSaved] else [])
      else [])"

definition project :: "shutdown_env \<Rightarrow> ms \<Rightarrow> shutdown_world \<Rightarrow> shutdown_record \<Rightarrow> shutdown_view" where
  "project e now w s =
     (let actions = availableRecoveryActions e now w s in
      \<lparr>sv_phase = sh_phase s, sv_reason = sh_reason s, sv_expiresAtMs = sh_expiresAtMs s,
       sv_drainAtMs = sh_drainAtMs s,
       sv_savedAtMs = or_else (map_option rp_savedAtMs (sh_receipt s)) (sh_savedAtMs s),
       sv_error = sh_error s, sv_hasRecoveryPoint = (sh_receipt s \<noteq> None),
       sv_actions = filter (\<lambda>a. a \<noteq> Discard) actions,
       sv_discardAvailable = (Discard \<in> set actions),
       sv_continuationPaused = continuationPaused s\<rparr>)"

section \<open>Writing the record\<close>

text \<open>\<open>store.write\<close> parses what it stores; a record it would reject is marked, and the main
  invariant shows that none is ever written.\<close>

definition store_write :: "shutdown_record \<Rightarrow> shutdown_world \<Rightarrow> shutdown_world" where
  "store_write s w = (if record_ok s then w\<lparr>w_store := Some s\<rparr> else w\<lparr>w_malformed := True\<rparr>)"

definition emit :: "effect \<Rightarrow> shutdown_world \<Rightarrow> shutdown_world" where
  "emit x w = w\<lparr>w_log := w_log w @ [(x, w_store w)]\<rparr>"

text \<open>Suspending at a provider call.\<close>

definition await_call :: "pending_call \<Rightarrow> shutdown_world \<Rightarrow> shutdown_world" where
  "await_call p w = w\<lparr>w_pending := w_pending w @ [p]\<rparr>"

definition announce :: "shutdown_env \<Rightarrow> ms \<Rightarrow> shutdown_record \<Rightarrow> shutdown_world \<Rightarrow> shutdown_world" where
  "announce e now s w = emit (FxAnnounce (project e now w s)) w"

definition publish :: "shutdown_env \<Rightarrow> ms \<Rightarrow> shutdown_record \<Rightarrow> shutdown_world \<Rightarrow> shutdown_world" where
  "publish e now s w = announce e now s (store_write s w)"

definition failed_record :: "shutdown_phase \<Rightarrow> string \<Rightarrow> bool \<Rightarrow> shutdown_record \<Rightarrow> shutdown_record" where
  "failed_record ph err captureFailure s =
     s\<lparr>sh_phase := ph, sh_error := Some err, sh_captureFailure := captureFailure\<rparr>"

definition fail ::
  "shutdown_env \<Rightarrow> ms \<Rightarrow> shutdown_record \<Rightarrow> shutdown_phase \<Rightarrow> string \<Rightarrow> bool \<Rightarrow> shutdown_world
     \<Rightarrow> shutdown_world" where
  "fail e now s ph err captureFailure w =
     emit (FxWarning ((if ph = PhFailed then ''Sandbox save failed'' else ''Sandbox save could not be confirmed'')
                      @ '': '' @ err))
       (publish e now (failed_record ph err captureFailure s) w)"

definition providerMatches ::
  "shutdown_env \<Rightarrow> ms \<Rightarrow> shutdown_record \<Rightarrow> shutdown_world \<Rightarrow> shutdown_world \<times> bool" where
  "providerMatches e now s w =
     (if \<not> truthy (sh_provider s) \<or> sh_provider s = Some (e_name e) then (w, True)
      else (if sh_phase s \<noteq> PhUnknown
            then fail e now s PhUnknown ''The sandbox provider changed; its existing source cannot be preserved through a different provider.'' False w
            else w, False))"

definition fenceRuntime :: "shutdown_world \<Rightarrow> shutdown_world" where
  "fenceRuntime w =
     emit FxRetireAccess
       (case getSandbox (w_sandbox w) of
          None \<Rightarrow> w
        | Some r \<Rightarrow> if isDeadSandboxStatus (sb_status r) then w
                    else emit (FxStatus Stale) (w\<lparr>w_sandbox := updateSandboxStatus Stale (w_sandbox w)\<rparr>))"

definition finish :: "shutdown_env \<Rightarrow> ms \<Rightarrow> shutdown_record \<Rightarrow> shutdown_world \<Rightarrow> shutdown_world" where
  "finish e now s w =
     (let w1 = emit FxRetireAccess (w\<lparr>w_sandbox := updateSandboxStatus Stopped (w_sandbox w)\<rparr>);
          w2 = publish e now (s\<lparr>sh_phase := PhSaved, sh_sourceRetired := True\<rparr>) w1 in
      emit FxLifecycleChange (emit (FxStatus Stopped) w2))"

text \<open>\<open>failures.record\<close> of the processing prompt and the delivery of what it recorded.\<close>

definition record_failure ::
  "shutdown_env \<Rightarrow> string \<Rightarrow> string \<Rightarrow> ms \<Rightarrow> shutdown_world \<Rightarrow> shutdown_world \<times> recorded_completion option" where
  "record_failure e messageId err now w =
     (let (db, c) = recordMessageCompletion
            \<lparr>ce_messageId = messageId, ce_success = False, ce_error = Some err,
             ce_json = e_failureJson e messageId err now\<rparr> now MProcessing (w_db w) in
      (w\<lparr>w_db := db\<rparr>, c))"

definition deliver_failure :: "recorded_completion option \<Rightarrow> shutdown_world \<Rightarrow> shutdown_world" where
  "deliver_failure c w = (case c of None \<Rightarrow> w | Some x \<Rightarrow> emit (FxFailure x) w)"

section \<open>Capture and retirement\<close>

definition scheduleCaptureRetry :: "shutdown_env \<Rightarrow> ms \<Rightarrow> shutdown_record \<Rightarrow> shutdown_world \<Rightarrow> shutdown_world" where
  "scheduleCaptureRetry e now s w =
     (if owns s w \<and> canAutomaticallyRetryCapture e now w s
      then emit (FxAlarm (the (sh_captureByMs s))) w else w)"

text \<open>A capture that ended without a confirmed save: the record fails if this capture still owns
  it, ownership is released, and only then the retry is armed.\<close>

definition capture_failed ::
  "shutdown_env \<Rightarrow> ms \<Rightarrow> shutdown_record \<Rightarrow> string \<Rightarrow> shutdown_world \<Rightarrow> shutdown_world" where
  "capture_failed e now capturing err w =
     (if owns capturing w
      then let w1 = fail e now capturing PhUnknown err True w in
           scheduleCaptureRetry e now (failed_record PhUnknown err True capturing) (w1\<lparr>w_activeOperation := None\<rparr>)
      else w\<lparr>w_activeOperation := None\<rparr>)"

definition NOT_CONFIRMED_ERROR :: string where
  "NOT_CONFIRMED_ERROR = ''The provider did not confirm the save. The previous recovery point is unchanged.''"
definition SAVE_DEADLINE_ERROR :: string where
  "SAVE_DEADLINE_ERROR = ''The save did not finish before its deadline; its result is unknown.''"

text \<open>A provider that resumes in place and has no snapshots saves by a preserving stop.\<close>

definition savesByRetention :: "shutdown_env \<Rightarrow> bool" where
  "savesByRetention e \<longleftrightarrow> e_persistentResume e \<and> \<not> e_snapshots e"

definition capture :: "shutdown_env \<Rightarrow> ms \<Rightarrow> shutdown_record \<Rightarrow> shutdown_world \<Rightarrow> shutdown_world" where
  "capture e now s w =
     (if \<not> truthy (sh_providerObjectId s) \<or> reached (sh_captureByMs s) now
      then let err = ''No time or provider handle remained to save the sandbox.'';
               w1 = fail e now s PhFailed err True w in
           scheduleCaptureRetry e now (failed_record PhFailed err True s) w1
      else
        let capturing = s\<lparr>sh_phase := PhCapturing\<rparr>;
            w1 = publish e now capturing (w\<lparr>w_activeOperation := sh_operationId s\<rparr>);
            captureBy = the (sh_captureByMs s);
            obj = the (sh_providerObjectId s);
            reason = nullish (sh_reason s) [];
            w2 = emit (FxAlarm captureBy) w1 in
        if savesByRetention e
        then (if \<not> e_hasStop e then capture_failed e now capturing NOT_CONFIRMED_ERROR w2
              else emit (FxStop obj Preserve reason captureBy (sh_generation s))
                     (await_call (PCapture capturing True) w2))
        else (if \<not> e_hasSnapshot e then capture_failed e now capturing NOT_CONFIRMED_ERROR w2
              else emit (FxSnapshot obj reason captureBy)
                     (await_call (PCapture capturing False) w2)))"

text \<open>The end of a retirement: the retirement's flag and, when a capture awaited it, its own.\<close>

definition release_capture :: "bool \<Rightarrow> shutdown_world \<Rightarrow> shutdown_world" where
  "release_capture awaited w = (if awaited then w\<lparr>w_activeOperation := None\<rparr> else w)"

definition retire_failed ::
  "shutdown_env \<Rightarrow> ms \<Rightarrow> shutdown_record \<Rightarrow> bool \<Rightarrow> shutdown_world \<Rightarrow> shutdown_world" where
  "retire_failed e now s awaited w =
     release_capture awaited
       ((if owns s w
         then fail e now s PhUnknown ''A recovery point is saved, but source retirement could not be confirmed.'' False w
         else w)\<lparr>w_retiringOperation := None\<rparr>)"

definition retirement_source :: "shutdown_record \<Rightarrow> string" where
  "retirement_source s =
     (if receiptCoversSource s
      then nullish (case sh_receipt s of None \<Rightarrow> None | Some rp \<Rightarrow> rp_sourceObjectId rp) (the (sh_providerObjectId s))
      else the (sh_providerObjectId s))"

definition retire :: "shutdown_env \<Rightarrow> ms \<Rightarrow> shutdown_record \<Rightarrow> bool \<Rightarrow> shutdown_world \<Rightarrow> shutdown_world" where
  "retire e now s awaited w =
     (if w_retiringOperation w \<noteq> None \<and> w_retiringOperation w = sh_operationId s then release_capture awaited w
      else case sh_receipt s of
        None \<Rightarrow> release_capture awaited w
      | Some rp \<Rightarrow>
          if \<not> truthy (sh_providerObjectId s) then release_capture awaited w
          else if reached (sh_retireByMs s) now
          then release_capture awaited
                 (fail e now s PhUnknown ''Recovery point saved, but source retirement was not confirmed.'' False w)
          else
            let retireBy = the (sh_retireByMs s);
                w1 = emit (FxAlarm (min retireBy (now + RETIRE_MS))) (w\<lparr>w_retiringOperation := sh_operationId s\<rparr>) in
            if \<not> e_hasStop e then retire_failed e now s awaited w1
            else emit (FxStop (retirement_source s)
                         (if rp_kind rp = SnapshotReceipt then Destroy else Preserve)
                         (nullish (sh_reason s) []) (min retireBy (now + RETIRE_MS)) (sh_generation s))
                   (await_call (PRetire s awaited) w1))"

definition retire_answered ::
  "shutdown_env \<Rightarrow> ms \<Rightarrow> shutdown_record \<Rightarrow> bool \<Rightarrow> bool \<Rightarrow> shutdown_world \<Rightarrow> shutdown_world" where
  "retire_answered e now s awaited stopped w =
     (if stopped
      then release_capture awaited ((if owns s w then finish e now s w else w)\<lparr>w_retiringOperation := None\<rparr>)
      else retire_failed e now s awaited w)"

text \<open>\<open>commitCaptureReceipt\<close>: the receipt and the row's snapshot projection commit together or not
  at all; \<open>None\<close> is the superseded transaction.\<close>

definition capture_receipt ::
  "shutdown_env \<Rightarrow> ms \<Rightarrow> receipt_kind \<Rightarrow> string \<Rightarrow> string option \<Rightarrow> shutdown_world \<Rightarrow> receipt" where
  "capture_receipt e now kind artifactId sourceObjectId w =
     \<lparr>rp_kind = kind, rp_captureKind = Some ShutdownCapture, rp_artifactId = artifactId,
      rp_sourceObjectId = (if truthy sourceObjectId then sourceObjectId else None),
      rp_provider = e_name e, rp_savedAtMs = now,
      rp_runtimeVersion = (case getSandbox (w_sandbox w) of None \<Rightarrow> None | Some r \<Rightarrow> sb_runtime_version r)\<rparr>"

definition retiring_record :: "shutdown_record \<Rightarrow> receipt \<Rightarrow> shutdown_record" where
  "retiring_record s rp =
     s\<lparr>sh_phase := PhRetiring, sh_error := None, sh_receipt := Some rp, sh_savedAtMs := Some (rp_savedAtMs rp)\<rparr>"

definition commitCaptureReceipt ::
  "shutdown_env \<Rightarrow> ms \<Rightarrow> shutdown_record \<Rightarrow> string \<Rightarrow> receipt_kind \<Rightarrow> string option \<Rightarrow> shutdown_world
     \<Rightarrow> (shutdown_record \<times> shutdown_world) option" where
  "commitCaptureReceipt e now s artifactId kind sourceObjectId w =
     (let rp = capture_receipt e now kind artifactId sourceObjectId w;
          retiring = retiring_record s rp;
          (t, hit) = recordSandboxSnapshot (g_sandboxId (sh_generation s)) artifactId
                       (rp_runtimeVersion rp) (w_sandbox w) in
      if \<not> owns s w then None
      else if kind = SnapshotReceipt
      then (if hit
            then Some (retiring, announce e now retiring (store_write retiring (w\<lparr>w_sandbox := t\<rparr>)))
            else None)
      else Some (retiring, announce e now retiring (store_write retiring w)))"

text \<open>What the provider answered to a capture: an image (and whether taking it stopped the source,
  and which object to retire), a confirmed preserving stop, an error, or silence past the
  deadline.\<close>

datatype capture_answer =
    CapturedImage string bool "string option"
  | StopConfirmed
  | CaptureError
  | CaptureDeadline

definition capture_answered ::
  "shutdown_env \<Rightarrow> ms \<Rightarrow> shutdown_record \<Rightarrow> bool \<Rightarrow> capture_answer \<Rightarrow> shutdown_world \<Rightarrow> shutdown_world" where
  "capture_answered e now capturing retained answer w =
     (let commit = (\<lambda>artifact kind stopped src.
            if \<not> owns capturing w then w\<lparr>w_activeOperation := None\<rparr>
            else case commitCaptureReceipt e now capturing artifact kind src w of
                   None \<Rightarrow> capture_failed e now capturing NOT_CONFIRMED_ERROR w
                 | Some (retiring, w1) \<Rightarrow>
                     if stopped then (finish e now retiring w1)\<lparr>w_activeOperation := None\<rparr>
                     else retire e now retiring True w1) in
      case answer of
        CapturedImage img stopped src \<Rightarrow>
          if retained then capture_failed e now capturing NOT_CONFIRMED_ERROR w
          else if img = [] then capture_failed e now capturing NOT_CONFIRMED_ERROR w
          else commit img SnapshotReceipt stopped src
      | StopConfirmed \<Rightarrow>
          if retained then commit (the (sh_providerObjectId capturing)) RetainedReceipt True None
          else capture_failed e now capturing NOT_CONFIRMED_ERROR w
      | CaptureError \<Rightarrow> capture_failed e now capturing NOT_CONFIRMED_ERROR w
      | CaptureDeadline \<Rightarrow> capture_failed e now capturing SAVE_DEADLINE_ERROR w)"

section \<open>Advancing a drain\<close>

definition settlement ::
  "shutdown_env \<Rightarrow> ms \<Rightarrow> shutdown_record \<Rightarrow> capture_op \<Rightarrow> shutdown_world \<Rightarrow> checkpoint_settlement" where
  "settlement e now s op w =
     decideCheckpointSettlement
       \<lparr>si_op = op, si_draining = (sh_phase s = PhDraining),
        si_owned = (w_checkpointOperationId w = Some (op_id op)), si_now = now,
        si_drainAtMs = sh_drainAtMs s, si_runtimeFailed = (sh_runtimeFailure s \<noteq> None),
        si_row = map_option (\<lambda>r. (sb_status r, sb_last_heartbeat r)) (getSandbox (w_sandbox w)),
        si_heartbeat = DEFAULT_HEARTBEAT_CONFIG\<rparr>"

text \<open>The runtime did not confirm that execution stopped. A live checkpoint re-drives the drain
  when it ends and a routine one is handed over at its settle time, so \<open>advance\<close> passes itself
  as \<open>again\<close>; from the drain deadline it never needs to.\<close>

definition captureUnconfirmed ::
  "shutdown_env \<Rightarrow> ms \<Rightarrow> shutdown_record \<Rightarrow> (shutdown_world \<Rightarrow> shutdown_world) \<Rightarrow> shutdown_world \<Rightarrow> shutdown_world" where
  "captureUnconfirmed e now s again w =
     (if \<not> owns s w then w
      else if sh_checkpointInFlight s
      then (if settles e (sh_captureOp s) then again w
            else if w_checkpointOperationId w = None
            then fail e now s PhUnknown ''An earlier checkpoint has an unknown result.'' False w
            else w)
      else capture e now (s\<lparr>sh_continuationPaused := Some True\<rparr>) (fenceRuntime w))"

text \<open>\<open>advance\<close> in a drain whose record is \<open>s\<close>, after any checkpoint hand-over.\<close>

definition drain_on :: "shutdown_env \<Rightarrow> ms \<Rightarrow> shutdown_record \<Rightarrow> shutdown_world \<Rightarrow> shutdown_world" where
  "drain_on e now s w =
     (if reached (sh_stopByMs s) now then captureUnconfirmed e now s (\<lambda>w. w) w
      else
        let w1 = emit (FxAlarm (the (sh_stopByMs s))) w in
        if sh_checkpointInFlight s
        then (if w_checkpointOperationId w = None
              then fail e now s PhUnknown ''An earlier checkpoint has an unknown result.'' False w1
              else w1)
        else if \<not> sh_generationReady s \<or> \<not> sh_protocol1 s \<or> \<not> w_socket w then w1
        else emit (FxPrepare (the (sh_operationId s)) (sh_generation s) (sh_messageId s) (the (sh_stopByMs s))) w1)"

definition handed_over :: "ms \<Rightarrow> shutdown_record \<Rightarrow> shutdown_record" where
  "handed_over now s =
     (let s1 = s\<lparr>sh_checkpointInFlight := False, sh_captureOp := None\<rparr> in
      if reached (sh_stopByMs s) now
      then s1\<lparr>sh_captureByMs := Some (fst (emergencyWindow (Some s) now)),
              sh_retireByMs := Some (snd (emergencyWindow (Some s) now))\<rparr>
      else s1)"

definition advance :: "shutdown_env \<Rightarrow> ms \<Rightarrow> shutdown_world \<Rightarrow> shutdown_world" where
  "advance e now w =
     (case w_store w of
        None \<Rightarrow> w
      | Some s \<Rightarrow>
          if \<not> isCurrent s w \<or> \<not> truthy (sh_operationId s) then w
          else case providerMatches e now s w of (w1, ok) \<Rightarrow>
            if \<not> ok then w1
            else if sh_phase s = PhDraining
            then (if sh_checkpointInFlight s \<and> settles e (sh_captureOp s)
                  then case settlement e now s (the (sh_captureOp s)) w1 of
                         CWait until \<Rightarrow> (case until of None \<Rightarrow> w1 | Some t \<Rightarrow> emit (FxAlarm t) w1)
                       | _ \<Rightarrow> drain_on e now (handed_over now s) (store_write (handed_over now s) w1)
                  else drain_on e now s w1)
            else if sh_phase s = PhCapturing
            then (if w_activeOperation w1 \<noteq> sh_operationId s
                  then let err = ''The save was interrupted by a control-plane restart; its result is unknown.'';
                           w2 = fail e now s PhUnknown err True w1 in
                       scheduleCaptureRetry e now (failed_record PhUnknown err True s) w2
                  else w1)
            else if sh_phase s = PhPrepared then capture e now s w1
            else if sh_phase s = PhRetiring then retire e now s False w1
            else w1)"

section \<open>Requesting a shutdown\<close>

datatype shutdown_mode = Graceful | Emergency

datatype ownership = Owned | Held | Unmanaged

text \<open>A flag written before operations were recorded gets one, persisted once.\<close>

definition unrecorded_op :: "string \<Rightarrow> shutdown_world \<Rightarrow> capture_op" where
  "unrecorded_op opId w =
     \<lparr>op_id = opId, op_reason = ''unrecorded'', op_after = Continue, op_attempt = 1,
      op_deadlineAtMs = w_constructedAtMs w + CAPTURE_MS,
      op_settleAtMs = w_constructedAtMs w + CAPTURE_MS + MARGIN_MS,
      op_uncertainAtMs = None, op_deferredUntilMs = None\<rparr>"

definition openCheckpointOp ::
  "shutdown_env \<Rightarrow> string \<Rightarrow> shutdown_record \<Rightarrow> shutdown_world \<Rightarrow> shutdown_world \<times> capture_op option" where
  "openCheckpointOp e opId s w =
     (case sh_captureOp s of
        Some op \<Rightarrow> (w, if settles e (Some op) then Some op else None)
      | None \<Rightarrow>
          if sh_phase s \<noteq> PhRunning \<or> w_checkpointOperationId w \<noteq> None \<or> \<not> isCurrent s w
             \<or> map_option sb_status (getSandbox (w_sandbox w)) \<noteq> Some Snapshotting
          then (w, None)
          else
            let op = unrecorded_op opId w in
            if \<not> settles e (Some op) then (w, None)
            else (store_write (s\<lparr>sh_captureOp := Some op\<rparr>) w, Some op))"

text \<open>The deadlines of a shutdown claimed at \<open>now\<close>: stop, capture, retire.\<close>

definition shutdown_deadlines :: "bool \<Rightarrow> ms option \<Rightarrow> ms \<Rightarrow> ms \<times> ms \<times> ms" where
  "shutdown_deadlines emergency expires now =
     (let end' = (if emergency then emergency_end expires now
                  else nullish expires (now + STOP_MS + CAPTURE_MS + RETIRE_MS + MARGIN_MS));
          stopBy = (if emergency then now else min (now + STOP_MS) (end' - RETIRE_MS - MARGIN_MS)) in
      (stopBy, min (stopBy + CAPTURE_MS) (end' - RETIRE_MS - MARGIN_MS), end' - MARGIN_MS))"

text \<open>The record a shutdown claims the session with; \<open>recovering\<close> is an emergency during recovery.\<close>

definition claimed_record ::
  "bool \<Rightarrow> bool \<Rightarrow> string \<Rightarrow> string \<Rightarrow> ms \<Rightarrow> sandbox_row \<Rightarrow> shutdown_record option \<Rightarrow> shutdown_record
     \<Rightarrow> shutdown_record" where
  "claimed_record emergency recovering reason opId now row prior base =
     (case shutdown_deadlines emergency (case prior of None \<Rightarrow> None | Some s \<Rightarrow> sh_expiresAtMs s) now of
        (stopBy, captureBy, retireBy) \<Rightarrow>
          base\<lparr>sh_providerObjectId := (if emergency then sb_modal_object_id row else sh_providerObjectId base),
               sh_sourceRetired := (if emergency \<and> \<not> recovering then False
                                    else (case prior of None \<Rightarrow> False | Some s \<Rightarrow> sh_sourceRetired s)),
               sh_phase := (if emergency then (if recovering then PhUnknown else PhCapturing) else PhDraining),
               sh_error := (if emergency \<and> recovering
                            then Some ''The runtime failed during recovery; the provider startup outcome is unknown.''
                            else None),
               sh_reason := Some reason,
               sh_runtimeFailure := None,
               sh_operationId := Some opId,
               sh_stopByMs := Some stopBy,
               sh_captureByMs := Some captureBy,
               sh_retireByMs := Some retireBy,
               sh_continuationPaused :=
                 (if emergency then Some True
                  else (case prior of None \<Rightarrow> None | Some s \<Rightarrow> sh_continuationPaused s))\<rparr>)"

definition with_message :: "string option \<Rightarrow> shutdown_record \<Rightarrow> shutdown_record" where
  "with_message m s =
     (case m of None \<Rightarrow> s | Some i \<Rightarrow> s\<lparr>sh_messageId := Some i, sh_continuationPaused := Some True\<rparr>)"

text \<open>The claiming transaction and its announcements; \<open>w\<close> already satisfies the guards.\<close>

definition claim_shutdown ::
  "shutdown_env \<Rightarrow> ms \<Rightarrow> string \<Rightarrow> bool \<Rightarrow> bool \<Rightarrow> shutdown_record \<Rightarrow> shutdown_world \<Rightarrow> shutdown_world" where
  "claim_shutdown e now reason emergency recovering next w =
     (let message = getProcessingMessage (w_db w);
          next1 = with_message message next;
          w1 = store_write next1 w;
          w2 = (if emergency then w1\<lparr>w_sandbox := updateSandboxStatus Stale (w_sandbox w1)\<rparr> else w1);
          (w3, failure) = (case message of
                             None \<Rightarrow> (w2, None)
                           | Some i \<Rightarrow> record_failure e i (interruptionMessage reason) now w2);
          w4 = emit FxReconcileStatus (emit FxIdle (deliver_failure failure (announce e now next1 w3))) in
      if emergency
      then (let w5 = emit FxRetireAccess (emit (FxStatus Stale) w4) in
            if recovering then w5 else capture e now next1 w5)
      else advance e now w4)"

definition requestShutdown ::
  "shutdown_env \<Rightarrow> ms \<Rightarrow> string \<Rightarrow> string \<Rightarrow> string \<Rightarrow> shutdown_mode \<Rightarrow> shutdown_world
     \<Rightarrow> shutdown_world \<times> ownership" where
  "requestShutdown e now opId checkpointId reason mode w =
     (let row = getSandbox (w_sandbox w);
          (w0, mismatch) = (case w_store w of
               None \<Rightarrow> (w, False)
             | Some s \<Rightarrow> if \<not> isCurrent s w then (w, True)
                         else (case providerMatches e now s w of (w', ok) \<Rightarrow> (w', \<not> ok))) in
      if mismatch then (w0, Held)
      else
        let w1 = (case w_store w0 of
               Some s \<Rightarrow> if sh_phase s = PhRunning \<and> sh_checkpointInFlight s
                         then fst (openCheckpointOp e checkpointId s w0) else w0
             | None \<Rightarrow> w0);
            state = w_store w1;
            emergency = (mode = Emergency);
            recovering = (case state of None \<Rightarrow> False | Some s \<Rightarrow> sh_restoreInvoked s \<or> sh_phase s = PhRestoring);
            inFlight = (case state of None \<Rightarrow> False | Some s \<Rightarrow> sh_checkpointInFlight s) in
        case row of
          None \<Rightarrow> (w1, if state \<noteq> None then Held else Unmanaged)
        | Some r \<Rightarrow>
            if \<not> truthy (sb_modal_sandbox_id r) then (w1, if state \<noteq> None then Held else Unmanaged)
            else if (some_holds (\<lambda>s. sh_phase s \<noteq> PhRunning) state) \<and> \<not> (emergency \<and> recovering)
            then (w1, Held)
            else if \<not> emergency \<and> (state = None \<or> (some_holds (\<lambda>s. sh_lifecyclePolicy s = Some Legacy) state))
            then (w1, if inFlight then Held else Unmanaged)
            else if emergency \<and> inFlight then (w1, Held)
            else if emergency \<and> \<not> recovering \<and> sb_status r \<noteq> Ready then (w1, Unmanaged)
            else
              let base = (case state of Some s \<Rightarrow> s | None \<Rightarrow> legacyShutdownRecord r (e_name e)) in
              (claim_shutdown e now reason emergency recovering
                 (claimed_record emergency recovering reason opId now r state base) w1,
               if emergency \<and> recovering then Held else Owned))"

section \<open>Recovery of an interrupted restore; admission\<close>

definition normalizeInterruptedRestore ::
  "shutdown_env \<Rightarrow> ms \<Rightarrow> shutdown_world \<Rightarrow> shutdown_world \<times> shutdown_record option" where
  "normalizeInterruptedRestore e now w =
     (case w_store w of
        None \<Rightarrow> (w, None)
      | Some s \<Rightarrow>
          if (sh_phase s \<noteq> PhRestoring \<and> sh_phase s \<noteq> PhRunning) \<or> \<not> sh_restoreInvoked s
             \<or> (some_holds (\<lambda>g. matches s g) (w_activeRestoreGeneration w)) \<or> \<not> isCurrent s w
          then (w, Some s)
          else
            let unknown = s\<lparr>sh_phase := PhUnknown,
                  sh_providerObjectId := or_else (case getSandbox (w_sandbox w) of None \<Rightarrow> None
                                                  | Some r \<Rightarrow> sb_modal_object_id r) (sh_providerObjectId s),
                  sh_error := Some ''Saved sandbox restore was interrupted after provider invocation; its outcome is unknown.''\<rparr> in
            (publish e now unknown w, Some unknown))"

definition snapshot_view :: "shutdown_env \<Rightarrow> ms \<Rightarrow> shutdown_world \<Rightarrow> shutdown_world \<times> shutdown_view option" where
  "snapshot_view e now w =
     (case normalizeInterruptedRestore e now w of (w1, s) \<Rightarrow> (w1, map_option (project e now w1) s))"

datatype admission = AUnmanaged | AReady | ARestoreRequired | ASpawnRequired | AHeld

definition admissionDecision ::
  "shutdown_env \<Rightarrow> ms \<Rightarrow> string \<Rightarrow> string \<Rightarrow> shutdown_world \<Rightarrow> shutdown_world \<times> admission" where
  "admissionDecision e now opId checkpointId w =
     (case normalizeInterruptedRestore e now w of
        (w1, None) \<Rightarrow> (w1, AUnmanaged)
      | (w1, Some s) \<Rightarrow>
          if sh_phase s = PhSaved \<and> continuationPaused s then (w1, AHeld)
          else if sh_phase s = PhSaved then (w1, ARestoreRequired)
          else if sh_phase s = PhRestoring \<and> \<not> sh_restoreInvoked s then (w1, ARestoreRequired)
          else if sh_phase s \<noteq> PhRunning \<or> \<not> isCurrent s w1 then (w1, AHeld)
          else case providerMatches e now s w1 of (w2, ok) \<Rightarrow>
            if \<not> ok then (w2, AHeld)
            else if sh_restoreInvoked s then (w2, AHeld)
            else if sh_runtimeFailure s \<noteq> None then (w2, AHeld)
            else if sh_lifecyclePolicy s = Some Legacy
            then (w2, if sh_checkpointInFlight s then AHeld else AReady)
            else if \<not> sh_runtimeReady s
                    \<and> (some_holds (\<lambda>r. isDeadSandboxStatus (sb_status r)) (getSandbox (w_sandbox w2)))
            then (w2, ASpawnRequired)
            else if reached (sh_drainAtMs s) now
            then (fst (requestShutdown e now opId checkpointId ''sandbox_lifetime_expiring'' Graceful w2), AHeld)
            else (w2, if sh_lifetimeKind s \<noteq> UnknownLife \<and> sh_generationReady s \<and> \<not> sh_checkpointInFlight s
                      then AReady else AHeld))"

definition isHolding :: "shutdown_env \<Rightarrow> ms \<Rightarrow> shutdown_world \<Rightarrow> shutdown_world \<times> bool" where
  "isHolding e now w =
     (case normalizeInterruptedRestore e now w of
        (w1, None) \<Rightarrow> (w1, False)
      | (w1, Some s) \<Rightarrow>
          (w1, if sh_phase s = PhRestoring
                  \<and> (\<not> sh_restoreInvoked s \<or> (some_holds (\<lambda>g. matches s g) (w_activeRestoreGeneration w1)))
               then False
               else sh_checkpointInFlight s \<or> (sh_phase s = PhSaved \<and> continuationPaused s)
                    \<or> (sh_phase s \<noteq> PhRunning \<and> sh_phase s \<noteq> PhSaved)))"

definition startupDecision :: "shutdown_env \<Rightarrow> ms \<Rightarrow> shutdown_world \<Rightarrow> shutdown_world \<times> startup_decision" where
  "startupDecision e now w =
     (case normalizeInterruptedRestore e now w of
        (w1, None) \<Rightarrow> (w1, StartNormal)
      | (w1, Some s) \<Rightarrow>
          if recordedOnOtherProvider e s
          then (let reason = (if recordedOnRetiredProvider e s
                              then ''The sandbox provider that saved this session is no longer supported''
                              else ''The configured sandbox provider changed'') in
                (if sh_phase s \<noteq> PhUnknown then fail e now s PhUnknown reason False w1 else w1,
                 StartHold reason))
          else if \<not> isCurrent s w1
          then (w1, StartHold ''Sandbox generation changed during graceful shutdown'')
          else
            let rp = (if (sh_phase s = PhSaved \<and> \<not> continuationPaused s)
                         \<or> (sh_phase s = PhRestoring \<and> \<not> sh_restoreInvoked s)
                      then sh_receipt s else None) in
            case rp of
              Some r \<Rightarrow> (w1, if rp_kind r = SnapshotReceipt
                             then StartRestoreSnapshot (rp_artifactId r) (rp_runtimeVersion r)
                             else StartResumeRetained (rp_artifactId r) (rp_runtimeVersion r))
            | None \<Rightarrow>
                (case isHolding e now w1 of (w2, holding) \<Rightarrow>
                   (w2, if holding then StartHold (nullish (sh_error s) ''Sandbox shutdown is held'')
                        else StartNormal)))"

section \<open>Start-up of a generation\<close>

text \<open>\<open>persist\<close> is the caller's reservation of the sandbox row. \<open>None\<close> is the exception of a missing
  generation, which rolls the transaction back.\<close>

definition reserved_record ::
  "shutdown_env \<Rightarrow> generation \<Rightarrow> lifecycle_policy \<Rightarrow> shutdown_record option \<Rightarrow> shutdown_record" where
  "reserved_record e g policy previous =
     (let restoring = (some_holds (\<lambda>p. sh_receipt p \<noteq> None
            \<and> (sh_phase p = PhSaved \<or> (sh_phase p = PhRestoring \<and> \<not> sh_restoreInvoked p))) previous) in
      (base_record (if restoring then PhRestoring else PhRunning) g (e_name e))
        \<lparr>sh_sourceRetired := (some_holds (\<lambda>p. (sh_sourceRetired p \<or> sh_phase p = PhSaved)) previous),
         sh_lifecyclePolicy := Some policy,
         sh_receipt := (case previous of None \<Rightarrow> None | Some p \<Rightarrow> sh_receipt p)\<rparr>)"

definition reserveStartup ::
  "shutdown_env \<Rightarrow> ms \<Rightarrow> ms \<Rightarrow> lifecycle_policy \<Rightarrow> (sandbox_table \<Rightarrow> sandbox_table) \<Rightarrow> shutdown_world
     \<Rightarrow> shutdown_world option" where
  "reserveStartup e now createdAt policy persist w =
     (let replaced = (case getSandbox (w_sandbox w) of None \<Rightarrow> None | Some r \<Rightarrow> sb_modal_sandbox_id r);
          t = persist (w_sandbox w) in
      case getSandbox t of
        None \<Rightarrow> None
      | Some r \<Rightarrow>
          if \<not> truthy (sb_modal_sandbox_id r) \<or> sb_created_at r \<noteq> createdAt then None
          else
            let next = reserved_record e \<lparr>g_sandboxId = sb_modal_sandbox_id r, g_createdAt = createdAt\<rparr>
                         policy (w_store w);
                w1 = store_write next (w\<lparr>w_sandbox := t\<rparr>);
                (w2, failure) =
                  (if sb_modal_sandbox_id r = replaced then (w1, None)
                   else case getProcessingMessage (w_db w1) of
                          None \<Rightarrow> (w1, None)
                        | Some i \<Rightarrow> record_failure e i SANDBOX_REPLACED_ERROR now w1);
                w3 = w2\<lparr>w_activeRestoreGeneration :=
                           (if sh_phase next = PhRestoring then Some (sh_generation next) else None)\<rparr>;
                w4 = announce e now next w3 in
            Some (if failure = None then w4
                  else emit FxReconcileStatus (emit FxIdle (deliver_failure failure w4))))"

text \<open>\<open>None\<close> is the exception of a superseded generation.\<close>

definition markRecoveryInvoked ::
  "shutdown_env \<Rightarrow> ms \<Rightarrow> generation \<Rightarrow> string option \<Rightarrow> shutdown_world \<Rightarrow> shutdown_world option" where
  "markRecoveryInvoked e now g obj w =
     (case w_store w of
        None \<Rightarrow> None
      | Some s \<Rightarrow>
          if \<not> isCurrent s w \<or> \<not> matches s g then None
          else Some (publish e now
                 (s\<lparr>sh_restoreInvoked := True,
                    sh_sourceRetired := (if truthy obj then False else sh_sourceRetired s),
                    sh_providerObjectId := or_else obj (sh_providerObjectId s)\<rparr>)
                 (w\<lparr>w_activeRestoreGeneration := Some g\<rparr>)))"

datatype registration = Registered | Expired | RegSuperseded

definition recordPendingProviderHandle ::
  "shutdown_env \<Rightarrow> ms \<Rightarrow> generation \<Rightarrow> string \<Rightarrow> ms \<Rightarrow> lifetime_source \<Rightarrow> shutdown_world
     \<Rightarrow> shutdown_world \<times> registration" where
  "recordPendingProviderHandle e now g reference expiresAt source w =
     (case w_store w of
        None \<Rightarrow> (w, RegSuperseded)
      | Some s \<Rightarrow>
          if \<not> isCurrent s w \<or> \<not> matches s g then (w, RegSuperseded)
          else
            let drainAt = (if sh_lifecyclePolicy s = Some Legacy then None else Some (expiresAt - e_buffer e)) in
            if reached drainAt now then (w, Expired)
            else
              let next = s\<lparr>sh_providerObjectId := Some reference, sh_sourceRetired := False,
                           sh_lifetimeKind := FiniteLife, sh_lifetimeSource := Some source,
                           sh_expiresAtMs := Some expiresAt, sh_drainAtMs := drainAt\<rparr>;
                  w1 = publish e now next w in
              (case drainAt of
                 None \<Rightarrow> w1
               | Some d \<Rightarrow> if sh_phase next = PhRunning then emit (FxAlarm d) w1 else w1, Registered))"

datatype lifetime = Finite ms "lifetime_source option" | NoneLife | Unestablished

definition bindGeneration :: "shutdown_record \<Rightarrow> shutdown_world \<Rightarrow> shutdown_world" where
  "bindGeneration s w =
     (if w_socket w \<and> sh_protocol1 s then emit (FxBindGeneration (sh_generation s)) w else w)"

text \<open>An established earlier expiry is kept against a later or weaker observation.\<close>

definition lifetime_to_record :: "shutdown_record \<Rightarrow> lifetime \<Rightarrow> lifetime" where
  "lifetime_to_record s observed =
     (case sh_expiresAtMs s of
        Some t \<Rightarrow> if sh_lifetimeKind s = FiniteLife
                     \<and> (case observed of Finite u _ \<Rightarrow> t \<le> u | _ \<Rightarrow> True)
                  then Finite t (sh_lifetimeSource s) else observed
      | None \<Rightarrow> observed)"

definition started_record ::
  "shutdown_env \<Rightarrow> string option \<Rightarrow> lifetime \<Rightarrow> shutdown_record \<Rightarrow> shutdown_record" where
  "started_record e obj observed s =
     (let l = lifetime_to_record s observed;
          expires = (case l of Finite t _ \<Rightarrow> Some t | _ \<Rightarrow> None) in
      s\<lparr>sh_phase := (if sh_phase s = PhRestoring then PhRunning else sh_phase s),
        sh_restoreInvoked := False, sh_providerObjectId := obj, sh_sourceRetired := False,
        sh_lifetimeKind := (case l of Finite _ _ \<Rightarrow> FiniteLife | NoneLife \<Rightarrow> NoLimit | Unestablished \<Rightarrow> UnknownLife),
        sh_lifetimeSource := (case l of Finite _ src \<Rightarrow> src | _ \<Rightarrow> None),
        sh_expiresAtMs := expires,
        sh_drainAtMs := (if sh_lifecyclePolicy s = Some Legacy then None
                         else map_option (\<lambda>t. t - e_buffer e) expires)\<rparr>)"

definition recordProviderStartup ::
  "shutdown_env \<Rightarrow> ms \<Rightarrow> string \<Rightarrow> string \<Rightarrow> generation \<Rightarrow> lifetime \<Rightarrow> shutdown_world \<Rightarrow> shutdown_world" where
  "recordProviderStartup e now opId checkpointId g observed w =
     (case w_store w of
        None \<Rightarrow> w
      | Some s \<Rightarrow>
          if \<not> isCurrent s w \<or> \<not> matches s g then w
          else
            let next = started_record e (case getSandbox (w_sandbox w) of None \<Rightarrow> None
                                         | Some r \<Rightarrow> sb_modal_object_id r) observed s;
                w1 = publish e now next w in
            if sh_lifecyclePolicy s = Some Legacy then emit FxLifecycleChange w1
            else if sh_lifetimeKind next = UnknownLife
            then fail e now next PhUnknown
                   ''Provider expiry could not be established; automatic dispatch is held.'' False w1
            else if sh_phase next \<noteq> PhRunning then w1
            else
              let w2 = bindGeneration next w1;
                  w3 = (case sh_drainAtMs next of
                          None \<Rightarrow> w2
                        | Some d \<Rightarrow> if d \<le> now
                                    then fst (requestShutdown e now opId checkpointId
                                               ''sandbox_lifetime_expiring'' Graceful w2)
                                    else emit (FxAlarm d) w2) in
              emit FxLifecycleChange w3)"

definition recordResolvedProviderHandle ::
  "shutdown_env \<Rightarrow> ms \<Rightarrow> generation \<Rightarrow> string \<Rightarrow> string \<Rightarrow> shutdown_world \<Rightarrow> shutdown_world" where
  "recordResolvedProviderHandle e now g expected obj w =
     (case w_store w of
        None \<Rightarrow> w
      | Some s \<Rightarrow>
          if \<not> isCurrent s w \<or> \<not> matches s g \<or> sh_providerObjectId s \<noteq> Some expected
             \<or> (case getSandbox (w_sandbox w) of None \<Rightarrow> True | Some r \<Rightarrow> sb_modal_object_id r \<noteq> Some obj)
          then w
          else publish e now (s\<lparr>sh_providerObjectId := Some obj\<rparr>) w)"

definition runtimeReady :: "shutdown_env \<Rightarrow> ms \<Rightarrow> bool \<Rightarrow> shutdown_world \<Rightarrow> shutdown_world" where
  "runtimeReady e now protocol1 w =
     (case w_store w of
        None \<Rightarrow> w
      | Some s \<Rightarrow>
          if \<not> isCurrent s w then w
          else
            let next = s\<lparr>sh_runtimeReady := True, sh_protocol1 := protocol1\<rparr>;
                w1 = publish e now next w in
            if sh_lifecyclePolicy s = Some Legacy then emit FxLifecycleChange w1
            else if \<not> protocol1
            then fail e now next PhFailed
                   ''This sandbox runtime does not support confirmed graceful shutdown. Upgrade the runtime before resuming work.'' False w1
            else bindGeneration next w1)"

definition generationReady :: "shutdown_env \<Rightarrow> ms \<Rightarrow> generation \<Rightarrow> shutdown_world \<Rightarrow> shutdown_world" where
  "generationReady e now g w =
     (case w_store w of
        None \<Rightarrow> w
      | Some s \<Rightarrow>
          if \<not> matches s g \<or> \<not> isCurrent s w then w
          else
            let w1 = publish e now (s\<lparr>sh_generationReady := True\<rparr>) w in
            if sh_phase s = PhDraining then advance e now w1 else emit FxLifecycleChange w1)"

definition prepared ::
  "shutdown_env \<Rightarrow> ms \<Rightarrow> generation \<Rightarrow> string \<Rightarrow> bool \<Rightarrow> shutdown_world \<Rightarrow> shutdown_world" where
  "prepared e now g opId executionStopped w =
     (case w_store w of
        None \<Rightarrow> w
      | Some s \<Rightarrow>
          if \<not> isCurrent s w \<or> \<not> matches s g \<or> sh_operationId s \<noteq> Some opId \<or> sh_phase s \<noteq> PhDraining then w
          else if \<not> executionStopped \<or> past (sh_stopByMs s) now
          then captureUnconfirmed e now s (advance e now) w
          else advance e now (publish e now (s\<lparr>sh_phase := PhPrepared\<rparr>) w))"

section \<open>Holds and recovery\<close>

definition holdFailedRecovery ::
  "shutdown_env \<Rightarrow> ms \<Rightarrow> string \<Rightarrow> generation option \<Rightarrow> shutdown_world \<Rightarrow> shutdown_world" where
  "holdFailedRecovery e now err g w =
     (case getSandbox (w_sandbox w) of
        None \<Rightarrow> w
      | Some row \<Rightarrow>
          if \<not> truthy (sb_modal_sandbox_id row)
             \<or> (some_holds (\<lambda>x. \<not> of_generation x row) g)
             \<or> (some_holds (\<lambda>s. \<not> isCurrent s w) (w_store w))
          then w
          else if (case w_store w of None \<Rightarrow> True | Some s \<Rightarrow> sh_receipt s = None)
                  \<and> \<not> truthy (sb_snapshot_image_id row)
          then w
          else
            let base = (case w_store w of Some s \<Rightarrow> s | None \<Rightarrow> legacyShutdownRecord row (e_name e)) in
            fail e now
              (base\<lparr>sh_sourceRetired := (some_holds (\<lambda>s. (sh_sourceRetired s \<or> sh_phase s = PhSaved)) (w_store w))\<rparr>)
              PhUnknown
              (''Saved sandbox could not be restored: '' @ err
               @ ''. No fresh sandbox was substituted. The snapshot reference is retained; contact your operator for recovery or start a separate session.'')
              False w)"

definition holdFailedRetainedBoot ::
  "shutdown_env \<Rightarrow> ms \<Rightarrow> string \<Rightarrow> generation \<Rightarrow> shutdown_world \<Rightarrow> shutdown_world \<times> bool" where
  "holdFailedRetainedBoot e now err g w =
     (case w_store w of
        None \<Rightarrow> (w, False)
      | Some s \<Rightarrow>
          (case sh_receipt s of
             None \<Rightarrow> (w, False)
           | Some rp \<Rightarrow>
               if rp_kind rp \<noteq> RetainedReceipt
                  \<or> (case getSandbox (w_sandbox w) of None \<Rightarrow> True
                     | Some r \<Rightarrow> sb_modal_object_id r \<noteq> Some (rp_artifactId rp))
               then (w, False)
               else
                 let w1 = (if isCurrent s w \<and> matches s g
                           then store_write (s\<lparr>sh_providerObjectId := Some (rp_artifactId rp)\<rparr>) w else w) in
                 (holdFailedRecovery e now err (Some g) w1, True)))"

definition retryCapture ::
  "shutdown_env \<Rightarrow> ms \<Rightarrow> string \<Rightarrow> shutdown_record \<Rightarrow> shutdown_world \<Rightarrow> shutdown_world" where
  "retryCapture e now opId s w =
     (if w_activeOperation w \<noteq> None \<or> \<not> owns s w \<or> \<not> canRetryShutdown e now s then w
      else capture e now
             (s\<lparr>sh_error := None, sh_operationId := Some opId,
                sh_captureByMs := Some (fst (emergencyWindow (Some s) now)),
                sh_retireByMs := Some (snd (emergencyWindow (Some s) now))\<rparr>)
             (fenceRuntime w))"

definition ownsDiscard :: "shutdown_record \<Rightarrow> shutdown_world \<Rightarrow> bool" where
  "ownsDiscard claim w \<longleftrightarrow> isCurrent claim w
     \<and> (case w_store w of None \<Rightarrow> sh_discarding claim = None | Some c \<Rightarrow> sh_discarding c = sh_discarding claim)"

definition discarded_record :: "shutdown_env \<Rightarrow> shutdown_record \<Rightarrow> shutdown_record" where
  "discarded_record e s =
     (base_record PhRunning (sh_generation s) (e_name e))
       \<lparr>sh_sourceRetired := True, sh_lifecyclePolicy := sh_lifecyclePolicy s\<rparr>"

text \<open>A superseded row throws before anything is written.\<close>

definition completeDiscard :: "shutdown_env \<Rightarrow> ms \<Rightarrow> shutdown_record \<Rightarrow> shutdown_world \<Rightarrow> shutdown_world" where
  "completeDiscard e now s w =
     (case discardSandboxState (sh_generation s) (w_sandbox w) of
        (t, hit) \<Rightarrow>
          if \<not> hit then w
          else
            let next = discarded_record e s;
                w1 = announce e now next (store_write next (w\<lparr>w_sandbox := t\<rparr>)) in
            emit FxLifecycleChange (emit (FxStatus Stopped) (emit FxRetireAccess w1)))"

definition discard ::
  "shutdown_env \<Rightarrow> ms \<Rightarrow> string \<Rightarrow> shutdown_record \<Rightarrow> shutdown_world \<Rightarrow> shutdown_world" where
  "discard e now claimId s w =
     (let claim = s\<lparr>sh_discarding := Some claimId, sh_error := None\<rparr>;
          w1 = publish e now claim (w\<lparr>w_discardingOperation := Some claimId\<rparr>) in
      if truthy (sh_providerObjectId claim) \<and> canStopSource e \<and> \<not> recordedOnOtherProvider e claim
      then emit (FxStop (the (sh_providerObjectId claim)) Destroy ''discard'' (now + RETIRE_MS) (sh_generation claim))
             (await_call (PDiscard claim) w1)
      else (if ownsDiscard claim w1 then completeDiscard e now claim w1 else w1)\<lparr>w_discardingOperation := None\<rparr>)"

definition discard_answered ::
  "shutdown_env \<Rightarrow> ms \<Rightarrow> shutdown_record \<Rightarrow> bool \<Rightarrow> shutdown_world \<Rightarrow> shutdown_world" where
  "discard_answered e now claim stopped w =
     (if stopped
      then (if ownsDiscard claim w then completeDiscard e now claim w else w)
      else if ownsDiscard claim w
      then (let err = ''The sandbox could not be stopped, so nothing was discarded. Try again.'' in
            emit (FxWarning err) (publish e now (claim\<lparr>sh_discarding := None, sh_error := Some err\<rparr>) w))
      else w)\<lparr>w_discardingOperation := None\<rparr>"

text \<open>\<open>None\<close> is \<open>ShutdownRecoveryRejectedError\<close>.\<close>

definition recover ::
  "shutdown_env \<Rightarrow> ms \<Rightarrow> string \<Rightarrow> recovery_action \<Rightarrow> shutdown_world \<Rightarrow> shutdown_world option" where
  "recover e now opId action w =
     (case normalizeInterruptedRestore e now w of
        (w1, None) \<Rightarrow> None
      | (w1, Some s) \<Rightarrow>
          if action \<notin> set (availableRecoveryActions e now w1 s) then None
          else if action = Discard then Some (discard e now opId s w1)
          else if sh_phase s = PhSaved \<and> continuationPaused s
          then Some (emit FxLifecycleChange (publish e now (s\<lparr>sh_continuationPaused := Some False\<rparr>) w1))
          else if action = Retry then Some (retryCapture e now opId s w1)
          else
            let next = s\<lparr>sh_phase := PhRetiring, sh_reason := Some ''restore_saved_state'', sh_error := None,
                         sh_continuationPaused := Some False, sh_operationId := Some opId,
                         sh_retireByMs := Some (now + RETIRE_MS)\<rparr>;
                w2 = publish e now next w1 in
            Some (if sh_lifetimeSource s = Some FromProvider \<and> reached (sh_expiresAtMs s) now
                  then finish e now next w2
                  else if truthy (sh_providerObjectId s) \<and> canStopSource e then retire e now next False w2
                  else if sh_sourceRetired s then finish e now next w2
                  else fail e now next PhUnknown
                         ''The source provider handle is unknown; retirement cannot be verified.'' False w2))"

datatype reconnect = RetryReconnect | ExitRuntime

definition onRefusedReconnect ::
  "shutdown_env \<Rightarrow> ms \<Rightarrow> string \<Rightarrow> shutdown_world \<Rightarrow> shutdown_world \<times> reconnect" where
  "onRefusedReconnect e now opId w =
     (case w_store w of
        None \<Rightarrow> (w, ExitRuntime)
      | Some s \<Rightarrow>
          if \<not> isCurrent s w then (w, ExitRuntime)
          else if sh_phase s \<in> {PhDraining, PhPrepared, PhCapturing} then (w, RetryReconnect)
          else if sh_checkpointInFlight s \<and> (some_holds (\<lambda>g. matches s g) (w_checkpointGeneration w))
          then (w, RetryReconnect)
          else if (sh_phase s \<noteq> PhFailed \<and> sh_phase s \<noteq> PhUnknown) \<or> \<not> canRetryShutdown e now s
          then (w, ExitRuntime)
          else (if w_activeOperation w = None \<and> canAutomaticallyRetryCapture e now w s
                   \<and> reached (sh_captureByMs s) now
                then retryCapture e now opId s w else w, RetryReconnect))"

section \<open>Checkpoints\<close>

definition ownsCheckpoint :: "shutdown_record \<Rightarrow> string \<Rightarrow> shutdown_world \<Rightarrow> bool" where
  "ownsCheckpoint s opId w \<longleftrightarrow>
     isCurrent s w \<and> sh_checkpointInFlight s \<and> map_option op_id (sh_captureOp s) = Some opId
     \<and> \<not> truthy (sh_discarding s) \<and> \<not> sh_restoreInvoked s
     \<and> sh_phase s \<in> {PhRunning, PhDraining, PhFailed, PhUnknown}"

definition endCheckpoint ::
  "shutdown_env \<Rightarrow> ms \<Rightarrow> string \<Rightarrow> bool \<Rightarrow> shutdown_world \<Rightarrow> shutdown_world" where
  "endCheckpoint e now opId uncertain w =
     (if w_checkpointOperationId w \<noteq> Some opId then w
      else
        let g = w_checkpointGeneration w;
            w1 = w\<lparr>w_checkpointOperationId := None, w_checkpointGeneration := None\<rparr> in
        case w_store w1 of
          None \<Rightarrow> w1
        | Some s \<Rightarrow>
            if g \<noteq> Some (sh_generation s) \<or> \<not> ownsCheckpoint s opId w1 then w1
            else if uncertain
            then (if settles e (sh_captureOp s)
                  then (let op = the (sh_captureOp s) in
                        emit (FxAlarm (op_settleAtMs op))
                          (store_write (s\<lparr>sh_captureOp := Some (op\<lparr>op_uncertainAtMs := Some now\<rparr>)\<rparr>) w1))
                  else fail e now (s\<lparr>sh_checkpointInFlight := False, sh_captureOp := None\<rparr>) PhUnknown
                         UNCONFIRMED_CHECKPOINT_ERROR False w1)
            else
              let w2 = publish e now (s\<lparr>sh_checkpointInFlight := False, sh_captureOp := None\<rparr>) w1 in
              if sh_phase s = PhDraining then advance e now w2 else emit FxLifecycleChange w2)"

datatype checkpoint_outcome = CheckpointSaved string bool | CheckpointHeld | CheckpointUnknown

definition checkpoint_op :: "string \<Rightarrow> string \<Rightarrow> follow_up \<Rightarrow> ms \<Rightarrow> shutdown_record \<Rightarrow> capture_op" where
  "checkpoint_op opId reason after now s =
     (let deadline = min_bound (now + CAPTURE_MS) (map_option (\<lambda>d. d - MARGIN_MS) (sh_drainAtMs s)) in
      \<lparr>op_id = opId, op_reason = reason, op_after = after, op_attempt = 1, op_deadlineAtMs = deadline,
       op_settleAtMs = deadline + MARGIN_MS, op_uncertainAtMs = None, op_deferredUntilMs = None\<rparr>)"

text \<open>The start of a checkpoint whose record is \<open>s\<close>; \<open>None\<close> is an outcome still awaited.\<close>

definition start_checkpoint ::
  "shutdown_env \<Rightarrow> ms \<Rightarrow> string \<Rightarrow> generation \<Rightarrow> string \<Rightarrow> follow_up \<Rightarrow> shutdown_record \<Rightarrow> shutdown_world
     \<Rightarrow> shutdown_world \<times> checkpoint_outcome option" where
  "start_checkpoint e now opId g reason after s w =
     (let op = checkpoint_op opId reason after now s;
          w1 = (store_write (s\<lparr>sh_checkpointInFlight := True, sh_captureOp := Some op\<rparr>) w)
                 \<lparr>w_checkpointOperationId := Some opId, w_checkpointGeneration := Some g\<rparr> in
      case getSandbox (w_sandbox w1) of
        None \<Rightarrow> (endCheckpoint e now opId False w1, Some CheckpointHeld)
      | Some row \<Rightarrow>
          if \<not> truthy (sb_modal_object_id row) then (endCheckpoint e now opId False w1, Some CheckpointHeld)
          else
            let previous = sb_status row;
                (t, moved) = (if isDeadSandboxStatus previous then (w_sandbox w1, False)
                              else transitionSandboxStatus g previous Snapshotting (w_sandbox w1));
                w2 = (if moved then emit (FxStatus Snapshotting) (w1\<lparr>w_sandbox := t\<rparr>) else w1);
                w3 = (if settles e (Some op) then emit (FxAlarm (op_settleAtMs op)) w2 else w2) in
            if \<not> e_hasSnapshot e then (endCheckpoint e now opId True w3, Some CheckpointUnknown)
            else (emit (FxSnapshot (the (sb_modal_object_id row)) reason (op_deadlineAtMs op))
                    (await_call (PCheckpoint opId g (sb_runtime_version row) previous moved reason) w3), None))"

definition captureCheckpoint ::
  "shutdown_env \<Rightarrow> ms \<Rightarrow> string \<Rightarrow> string \<Rightarrow> string \<Rightarrow> generation \<Rightarrow> string \<Rightarrow> follow_up \<Rightarrow> shutdown_world
     \<Rightarrow> shutdown_world \<times> checkpoint_outcome option" where
  "captureCheckpoint e now opId drainId drainCheckpointId g reason after w =
     (if w_checkpointOperationId w \<noteq> None \<or> g_sandboxId g = None then (w, Some CheckpointHeld)
      else case w_store w of
        Some s \<Rightarrow>
          (case admissionDecision e now drainId drainCheckpointId w of
             (w1, admission) \<Rightarrow>
               if admission \<noteq> AReady \<or> \<not> matches s g \<or> sh_checkpointInFlight s
                  \<or> past (sh_drainAtMs s) (now + CAPTURE_MS + MARGIN_MS)
               then (w1, Some CheckpointHeld)
               else start_checkpoint e now opId g reason after s w1)
      | None \<Rightarrow>
          (case getSandbox (w_sandbox w) of
             None \<Rightarrow> (w, Some CheckpointHeld)
           | Some row \<Rightarrow>
               if \<not> of_generation g row then (w, Some CheckpointHeld)
               else start_checkpoint e now opId g reason after (legacyShutdownRecord row (e_name e)) w))"

text \<open>The provider's answer: the image commits under the checkpoint's generation and operation
  fence, with the row's projection, or the outcome is unknown.\<close>

definition checkpoint_answered ::
  "shutdown_env \<Rightarrow> ms \<Rightarrow> string \<Rightarrow> generation \<Rightarrow> string option \<Rightarrow> sandbox_status \<Rightarrow> bool \<Rightarrow> string
     \<Rightarrow> capture_answer \<Rightarrow> shutdown_world \<Rightarrow> shutdown_world \<times> checkpoint_outcome" where
  "checkpoint_answered e now opId g version previous moved reason answer w =
     (let unknown = (endCheckpoint e now opId True w, CheckpointUnknown) in
      case answer of
        CapturedImage img stopped src \<Rightarrow>
          if img = [] then unknown
          else
            (case w_store w of
               None \<Rightarrow> unknown
             | Some s \<Rightarrow>
                 if w_checkpointOperationId w \<noteq> Some opId \<or> \<not> matches s g \<or> \<not> ownsCheckpoint s opId w then unknown
                 else
                   let (t, hit) = recordSandboxSnapshot (g_sandboxId g) img version (w_sandbox w);
                       rp = \<lparr>rp_kind = SnapshotReceipt, rp_captureKind = Some CheckpointCapture,
                             rp_artifactId = img, rp_sourceObjectId = src, rp_provider = e_name e,
                             rp_savedAtMs = now, rp_runtimeVersion = version\<rparr>;
                       next = s\<lparr>sh_receipt := Some rp, sh_savedAtMs := Some now\<rparr> in
                   if \<not> hit \<or> \<not> record_ok next then unknown
                   else
                     let w1 = announce e now next (store_write next (w\<lparr>w_sandbox := t\<rparr>));
                         w2 = emit (FxSnapshotSaved img reason) w1;
                         w3 = (if stopped
                               then emit (FxStatus Stopped) (emit FxRetireAccess
                                      (w2\<lparr>w_sandbox := updateSandboxStatus Stopped (w_sandbox w2)\<rparr>))
                               else if moved \<and> reason \<noteq> ''heartbeat_timeout''
                               then (case transitionSandboxStatus g Snapshotting previous (w_sandbox w2) of
                                       (u, back) \<Rightarrow>
                                         if \<not> back then w2
                                         else (let w' = emit (FxStatus previous) (w2\<lparr>w_sandbox := u\<rparr>) in
                                               if previous = Ready then emit FxAccessChanged w' else w'))
                               else w2) in
                     (endCheckpoint e now opId False w3, CheckpointSaved img stopped))
      | _ \<Rightarrow> unknown)"

section \<open>Alarms and settlement\<close>

datatype release = Released | SupersededRelease | NotReleasable

definition releaseCheckpoint ::
  "shutdown_env \<Rightarrow> ms \<Rightarrow> capture_op \<Rightarrow> shutdown_world \<Rightarrow> shutdown_world \<times> release" where
  "releaseCheckpoint e now op w =
     (case w_store w of
        None \<Rightarrow> (w, SupersededRelease)
      | Some s \<Rightarrow>
          if sh_phase s \<noteq> PhRunning \<or> \<not> sh_checkpointInFlight s
             \<or> map_option (\<lambda>o'. (op_id o', op_attempt o')) (sh_captureOp s) \<noteq> Some (op_id op, op_attempt op)
             \<or> \<not> isCurrent s w
          then (w, SupersededRelease)
          else
            let status = map_option sb_status (getSandbox (w_sandbox w));
                rowChanged = (status = Some Snapshotting);
                (t, moved) = (if rowChanged
                              then transitionSandboxStatus (sh_generation s) Snapshotting Ready (w_sandbox w)
                              else (w_sandbox w, True)) in
            if rowChanged \<and> \<not> moved then (w, SupersededRelease)
            else if \<not> rowChanged \<and> status \<noteq> Some Ready then (w, NotReleasable)
            else
              let released = s\<lparr>sh_checkpointInFlight := False, sh_captureOp := None, sh_error := None\<rparr>;
                  w1 = store_write released (w\<lparr>w_sandbox := t\<rparr>);
                  w2 = w1\<lparr>w_sandbox := updateSandboxLastActivity now (w_sandbox w1)\<rparr>;
                  (events, created) = persistSessionWarning (e_warningJson e RELEASED_CHECKPOINT_WARNING now)
                     (''capture:'' @ op_id op @ '':released'') None now (db_events (w_db w2));
                  w3 = announce e now released (w2\<lparr>w_db := (w_db w2)\<lparr>db_events := events\<rparr>\<rparr>);
                  w4 = (if rowChanged then emit FxAccessChanged (emit (FxStatus Ready) w3) else w3) in
              (if created then emit (FxSessionWarning RELEASED_CHECKPOINT_WARNING) w4 else w4, Released))"

text \<open>The hold an unsettled checkpoint ends in, for the user to recover from.\<close>

definition hold_checkpoint ::
  "shutdown_env \<Rightarrow> ms \<Rightarrow> capture_op \<Rightarrow> shutdown_record \<Rightarrow> shutdown_world \<Rightarrow> shutdown_world" where
  "hold_checkpoint e now op s w =
     (let lost = (op_uncertainAtMs op = None) in
      fail e now (s\<lparr>sh_captureOp := None, sh_checkpointInFlight := lost\<rparr>) PhUnknown
        (if lost then LOST_CHECKPOINT_ERROR else UNCONFIRMED_CHECKPOINT_ERROR) False w)"

definition settleCheckpoint ::
  "shutdown_env \<Rightarrow> ms \<Rightarrow> string \<Rightarrow> shutdown_record \<Rightarrow> shutdown_world \<Rightarrow> shutdown_world \<times> bool" where
  "settleCheckpoint e now opId s w =
     (let owned = (w_checkpointOperationId w \<noteq> None);
          (w1, op) = (if owned then (w, sh_captureOp s) else openCheckpointOp e opId s w) in
      if \<not> settles e op
      then (if owned then (w1, True)
            else (fail e now (s\<lparr>sh_captureOp := None\<rparr>) PhUnknown LOST_CHECKPOINT_ERROR False w1, False))
      else case w_store w1 of
        None \<Rightarrow> (w1, False)
      | Some c \<Rightarrow>
          if \<not> isCurrent c w1 \<or> sh_restoreInvoked c \<or> truthy (sh_discarding c) then (w1, False)
          else case providerMatches e now c w1 of (w2, ok) \<Rightarrow>
            if \<not> ok then (w2, False)
            else
              let o' = the op in
              if sh_phase c = PhFailed \<or> sh_phase c = PhUnknown
              then (if now < op_settleAtMs o' then emit (FxAlarm (op_settleAtMs o')) w2
                    else if \<not> owned
                    then publish e now (c\<lparr>sh_checkpointInFlight := False, sh_captureOp := None\<rparr>) w2
                    else w2, False)
              else case settlement e now c o' w2 of
                  CWait until \<Rightarrow> (case until of None \<Rightarrow> w2 | Some t \<Rightarrow> emit (FxAlarm t) w2, False)
                | CDrain \<Rightarrow> (w2, True)
                | CDefer t \<Rightarrow>
                    (emit (FxAlarm t)
                       (store_write (c\<lparr>sh_captureOp := Some (o'\<lparr>op_deferredUntilMs := Some t\<rparr>)\<rparr>) w2), False)
                | CRelease \<Rightarrow>
                    (case releaseCheckpoint e now o' w2 of
                       (w3, Released) \<Rightarrow> (w3, True)
                     | (w3, SupersededRelease) \<Rightarrow> (w3, False)
                     | (w3, NotReleasable) \<Rightarrow> (hold_checkpoint e now o' c w3, False))
                | _ \<Rightarrow> (hold_checkpoint e now o' c w2, False))"

text \<open>Whether the generic watchdogs are held.\<close>

definition handleAlarm ::
  "shutdown_env \<Rightarrow> ms \<Rightarrow> string \<Rightarrow> string \<Rightarrow> bool \<Rightarrow> shutdown_world \<Rightarrow> shutdown_world \<times> bool" where
  "handleAlarm e now opId checkpointId allowCaptureRetry w =
     (case normalizeInterruptedRestore e now w of
        (w1, None) \<Rightarrow> (w1, False)
      | (w1, Some s) \<Rightarrow>
          if sh_phase s = PhRunning
          then (case (if sh_checkpointInFlight s then settleCheckpoint e now checkpointId s w1 else (w1, True)) of
                  (w2, continue) \<Rightarrow>
                    if \<not> continue then (w2, True)
                    else
                      let c = nullish (w_store w2) s;
                          w3 = (case sh_drainAtMs c of
                                  None \<Rightarrow> w2
                                | Some d \<Rightarrow>
                                    if d \<le> now
                                    then fst (requestShutdown e now opId checkpointId
                                               ''sandbox_lifetime_expiring'' Graceful w2)
                                    else emit (FxAlarm d) w2) in
                      isHolding e now w3)
          else if sh_phase s = PhSaved then (w1, continuationPaused s)
          else if sh_phase s = PhFailed \<or> sh_phase s = PhUnknown
          then (if sh_checkpointInFlight s \<and> settles e (sh_captureOp s)
                then (fst (settleCheckpoint e now checkpointId s w1), True)
                else (if w_activeOperation w1 = None \<and> canAutomaticallyRetryCapture e now w1 s
                      then (if allowCaptureRetry \<and> reached (sh_captureByMs s) now
                            then retryCapture e now opId s w1
                            else emit (FxAlarm (the (sh_captureByMs s))) w1)
                      else w1, True))
          else (advance e now w1, True))"

definition rearmCaptureSettlement :: "shutdown_env \<Rightarrow> ms \<Rightarrow> string \<Rightarrow> shutdown_world \<Rightarrow> shutdown_world" where
  "rearmCaptureSettlement e now opId w =
     (case w_store w of
        None \<Rightarrow> w
      | Some s \<Rightarrow>
          if \<not> sh_checkpointInFlight s then w
          else if sh_phase s = PhFailed \<or> sh_phase s = PhUnknown
          then (if settles e (sh_captureOp s)
                then emit (FxAlarm (max now (op_settleAtMs (the (sh_captureOp s))))) w else w)
          else if sh_phase s \<noteq> PhRunning \<and> sh_phase s \<noteq> PhDraining then w
          else
            let (w1, op) = (if sh_phase s = PhRunning then openCheckpointOp e opId s w else (w, sh_captureOp s)) in
            if \<not> settles e op then w1
            else (case settlement e now (the (w_store w1)) (the op) w1 of
                    CWait None \<Rightarrow> w1
                  | CWait (Some t) \<Rightarrow> emit (FxAlarm t) w1
                  | _ \<Rightarrow> emit (FxAlarm now) w1))"

definition recordRuntimeFailure :: "ms \<Rightarrow> string \<Rightarrow> shutdown_world \<Rightarrow> shutdown_world" where
  "recordRuntimeFailure now reason w =
     (case w_store w of
        None \<Rightarrow> w
      | Some s \<Rightarrow>
          if \<not> sh_checkpointInFlight s \<or> (sh_phase s \<noteq> PhRunning \<and> sh_phase s \<noteq> PhDraining)
             \<or> \<not> isCurrent s w \<or> sh_runtimeFailure s \<noteq> None
          then w
          else store_write (s\<lparr>sh_runtimeFailure := Some (reason, now)\<rparr>) w)"

definition pendingRuntimeFailure :: "shutdown_world \<Rightarrow> string option" where
  "pendingRuntimeFailure w =
     (case w_store w of
        None \<Rightarrow> None
      | Some s \<Rightarrow>
          if sh_phase s = PhRunning \<and> \<not> sh_checkpointInFlight s \<and> isCurrent s w
          then map_option fst (sh_runtimeFailure s) else None)"

definition clearRuntimeFailure :: "shutdown_world \<Rightarrow> shutdown_world" where
  "clearRuntimeFailure w =
     (case w_store w of
        None \<Rightarrow> w
      | Some s \<Rightarrow>
          if sh_runtimeFailure s \<noteq> None \<and> sh_phase s = PhRunning
          then store_write (s\<lparr>sh_runtimeFailure := None\<rparr>) w else w)"

text \<open>A restarted process keeps the tables and loses the rest.\<close>

definition restart :: "ms \<Rightarrow> shutdown_world \<Rightarrow> shutdown_world" where
  "restart now w =
     w\<lparr>w_activeOperation := None, w_checkpointOperationId := None, w_checkpointGeneration := None,
       w_retiringOperation := None, w_discardingOperation := None, w_activeRestoreGeneration := None,
       w_constructedAtMs := now, w_socket := False, w_pending := []\<rparr>"

end
