(* ===== verification/Shutdown_Safety.thy ===== *)
theory Shutdown_Safety
  imports Shutdown_Coordinator
begin

text \<open>
  What holds of the shutdown coordinator in every reachable world: no malformed record is ever
  written, and every call to the provider was sent under a durable record that permits it.
\<close>

section \<open>The invariant\<close>

text \<open>The refinement of the schema, split into what every phase needs and what the phase adds.\<close>

definition base_ok :: "shutdown_record \<Rightarrow> bool" where
  "base_ok s \<longleftrightarrow>
     (sh_lifetimeKind s = FiniteLife \<longrightarrow>
        sh_expiresAtMs s \<noteq> None \<and> (sh_lifecyclePolicy s \<noteq> Some Legacy \<longrightarrow> sh_drainAtMs s \<noteq> None))
     \<and> (\<forall>rp. sh_receipt s = Some rp \<longrightarrow> receipt_ok rp)
     \<and> (\<forall>op. sh_captureOp s = Some op \<longrightarrow> 1 \<le> op_attempt op)"

definition deadlines_ok :: "shutdown_record \<Rightarrow> bool" where
  "deadlines_ok s \<longleftrightarrow> truthy (sh_operationId s) \<and> sh_stopByMs s \<noteq> None \<and> sh_captureByMs s \<noteq> None
     \<and> sh_retireByMs s \<noteq> None"

fun phase_ok :: "shutdown_phase \<Rightarrow> shutdown_record \<Rightarrow> bool" where
  "phase_ok PhSaved s = (sh_receipt s \<noteq> None)"
| "phase_ok PhRestoring s = (sh_receipt s \<noteq> None)"
| "phase_ok PhRetiring s = (sh_receipt s \<noteq> None \<and> truthy (sh_operationId s) \<and> sh_retireByMs s \<noteq> None)"
| "phase_ok PhDraining s = deadlines_ok s"
| "phase_ok PhPrepared s = deadlines_ok s"
| "phase_ok PhCapturing s = deadlines_ok s"
| "phase_ok _ s = True"

lemma record_ok_split: "record_ok s \<longleftrightarrow> base_ok s \<and> phase_ok (sh_phase s) s"
  by (cases "sh_phase s") (auto simp: record_ok_def incomplete_def base_ok_def deadlines_ok_def)

lemma base_ok_phase [simp]: "base_ok (s\<lparr>sh_phase := ph\<rparr>) = base_ok s"
  by (simp add: base_ok_def)

text \<open>The columns the conditions do not read.\<close>

lemma base_ok_columns [simp]:
  "base_ok (s\<lparr>sh_error := er\<rparr>) = base_ok s"
  "base_ok (s\<lparr>sh_captureFailure := b\<rparr>) = base_ok s"
  "base_ok (s\<lparr>sh_continuationPaused := cp\<rparr>) = base_ok s"
  "base_ok (s\<lparr>sh_sourceRetired := b\<rparr>) = base_ok s"
  "base_ok (s\<lparr>sh_checkpointInFlight := b\<rparr>) = base_ok s"
  "base_ok (s\<lparr>sh_captureByMs := d\<rparr>) = base_ok s"
  "base_ok (s\<lparr>sh_retireByMs := d\<rparr>) = base_ok s"
  "base_ok (s\<lparr>sh_stopByMs := d\<rparr>) = base_ok s"
  "base_ok (s\<lparr>sh_operationId := o'\<rparr>) = base_ok s"
  "base_ok (s\<lparr>sh_messageId := o'\<rparr>) = base_ok s"
  "base_ok (s\<lparr>sh_reason := o'\<rparr>) = base_ok s"
  "base_ok (s\<lparr>sh_savedAtMs := d\<rparr>) = base_ok s"
  "base_ok (s\<lparr>sh_providerObjectId := o'\<rparr>) = base_ok s"
  "base_ok (s\<lparr>sh_runtimeFailure := f\<rparr>) = base_ok s"
  "base_ok (s\<lparr>sh_discarding := o'\<rparr>) = base_ok s"
  "base_ok (s\<lparr>sh_restoreInvoked := b\<rparr>) = base_ok s"
  "base_ok (s\<lparr>sh_runtimeReady := b\<rparr>) = base_ok s"
  "base_ok (s\<lparr>sh_protocol1 := b\<rparr>) = base_ok s"
  "base_ok (s\<lparr>sh_generationReady := b\<rparr>) = base_ok s"
  "base_ok s \<Longrightarrow> base_ok (s\<lparr>sh_captureOp := None\<rparr>)"
  by (simp_all add: base_ok_def)

lemma record_okD: "record_ok s \<Longrightarrow> base_ok s" "record_ok s \<Longrightarrow> phase_ok (sh_phase s) s"
  by (simp_all add: record_ok_split)

text \<open>What a provider call requires of the durable record it is sent under.\<close>

fun fx_ok :: "effect \<times> shutdown_record option \<Rightarrow> bool" where
  "fx_ok (FxStop obj Destroy reason d g, st) =
     (\<exists>r. st = Some r \<and> sh_generation r = g
        \<and> (sh_discarding r \<noteq> None
           \<or> (sh_phase r = PhRetiring \<and> (\<exists>rp. sh_receipt r = Some rp \<and> rp_kind rp = SnapshotReceipt))))"
| "fx_ok (FxStop obj Preserve reason d g, st) =
     (\<exists>r. st = Some r \<and> sh_generation r = g
        \<and> (sh_phase r = PhCapturing
           \<or> (sh_phase r = PhRetiring \<and> (\<exists>rp. sh_receipt r = Some rp \<and> rp_kind rp = RetainedReceipt))))"
| "fx_ok (FxSnapshot obj reason d, st) =
     (\<exists>r. st = Some r \<and> (sh_phase r = PhCapturing \<or> sh_checkpointInFlight r))"
| "fx_ok (FxPrepare opId g m d, st) =
     (\<exists>r. st = Some r \<and> sh_generation r = g \<and> sh_phase r = PhDraining \<and> sh_operationId r = Some opId
        \<and> \<not> sh_checkpointInFlight r)"
| "fx_ok _ = True"

fun pend_ok :: "pending_call \<Rightarrow> bool" where
  "pend_ok (PCapture s retained) = (record_ok s \<and> sh_phase s = PhCapturing \<and> truthy (sh_providerObjectId s))"
| "pend_ok (PRetire s awaited) = (record_ok s \<and> sh_phase s = PhRetiring)"
| "pend_ok (PDiscard s) = record_ok s"
| "pend_ok (PCheckpoint i g v st moved reason) = True"

definition wok :: "shutdown_world \<Rightarrow> bool" where
  "wok w \<longleftrightarrow> \<not> w_malformed w \<and> (\<forall>s. w_store w = Some s \<longrightarrow> record_ok s)
     \<and> list_all fx_ok (w_log w) \<and> list_all pend_ok (w_pending w)"

lemma wokD: "wok w \<Longrightarrow> w_store w = Some s \<Longrightarrow> record_ok s"
  by (simp add: wok_def)

lemma store_cases:
  assumes "wok w"
  obtains (none) "w_store w = None"
    | (some) s where "w_store w = Some s" "record_ok s" "base_ok s" "phase_ok (sh_phase s) s"
  using wokD [OF assms] record_okD by (cases "w_store w") blast+

lemma wok_fields [simp]:
  "wok (w\<lparr>w_sandbox := t\<rparr>) = wok w"
  "wok (w\<lparr>w_db := db\<rparr>) = wok w"
  "wok (w\<lparr>w_activeOperation := o'\<rparr>) = wok w"
  "wok (w\<lparr>w_checkpointOperationId := o'\<rparr>) = wok w"
  "wok (w\<lparr>w_checkpointGeneration := g\<rparr>) = wok w"
  "wok (w\<lparr>w_retiringOperation := o'\<rparr>) = wok w"
  "wok (w\<lparr>w_discardingOperation := o'\<rparr>) = wok w"
  "wok (w\<lparr>w_activeRestoreGeneration := g\<rparr>) = wok w"
  "wok (w\<lparr>w_constructedAtMs := d\<rparr>) = wok w"
  "wok (w\<lparr>w_socket := b\<rparr>) = wok w"
  by (simp_all add: wok_def)

lemma await_call_fields [simp]:
  "w_store (await_call p w) = w_store w"
  "w_sandbox (await_call p w) = w_sandbox w"
  "w_db (await_call p w) = w_db w"
  "w_checkpointOperationId (await_call p w) = w_checkpointOperationId w"
  "wok (await_call p w) \<longleftrightarrow> wok w \<and> pend_ok p"
  by (auto simp: await_call_def wok_def)

lemma emit_fields [simp]:
  "w_store (emit x w) = w_store w"
  "w_sandbox (emit x w) = w_sandbox w"
  "w_db (emit x w) = w_db w"
  "w_pending (emit x w) = w_pending w"
  "w_activeOperation (emit x w) = w_activeOperation w"
  "w_checkpointOperationId (emit x w) = w_checkpointOperationId w"
  "w_checkpointGeneration (emit x w) = w_checkpointGeneration w"
  "w_socket (emit x w) = w_socket w"
  by (simp_all add: emit_def)

lemma wok_emit [simp]: "wok (emit x w) \<longleftrightarrow> wok w \<and> fx_ok (x, w_store w)"
  by (auto simp: wok_def emit_def)

lemma store_write_fields [simp]:
  "w_sandbox (store_write s w) = w_sandbox w"
  "w_db (store_write s w) = w_db w"
  "w_pending (store_write s w) = w_pending w"
  "w_activeOperation (store_write s w) = w_activeOperation w"
  "w_checkpointOperationId (store_write s w) = w_checkpointOperationId w"
  "w_checkpointGeneration (store_write s w) = w_checkpointGeneration w"
  "w_socket (store_write s w) = w_socket w"
  "record_ok s \<Longrightarrow> w_store (store_write s w) = Some s"
  by (simp_all add: store_write_def)

lemma wok_write: "wok w \<Longrightarrow> record_ok s \<Longrightarrow> wok (store_write s w)"
  by (simp add: wok_def store_write_def)

lemma wok_announce [simp]: "wok (announce e now s w) = wok w"
  by (simp add: announce_def)

lemma announce_fields [simp]:
  "w_store (announce e now s w) = w_store w"
  "w_sandbox (announce e now s w) = w_sandbox w"
  "w_db (announce e now s w) = w_db w"
  "w_pending (announce e now s w) = w_pending w"
  "w_checkpointOperationId (announce e now s w) = w_checkpointOperationId w"
  by (simp_all add: announce_def)

lemma wok_publish: "wok w \<Longrightarrow> record_ok s \<Longrightarrow> wok (publish e now s w)"
  by (simp add: publish_def wok_write)

lemma publish_fields [simp]:
  "w_sandbox (publish e now s w) = w_sandbox w"
  "w_db (publish e now s w) = w_db w"
  "w_pending (publish e now s w) = w_pending w"
  "w_checkpointOperationId (publish e now s w) = w_checkpointOperationId w"
  "record_ok s \<Longrightarrow> w_store (publish e now s w) = Some s"
  by (simp_all add: publish_def)

lemma failed_record_ok: "base_ok s \<Longrightarrow> ph = PhFailed \<or> ph = PhUnknown \<Longrightarrow> record_ok (failed_record ph err b s)"
  by (auto simp: record_ok_split failed_record_def)

lemma wok_fail: "wok w \<Longrightarrow> base_ok s \<Longrightarrow> ph = PhFailed \<or> ph = PhUnknown \<Longrightarrow> wok (fail e now s ph err b w)"
  by (simp add: fail_def wok_publish failed_record_ok)

lemma wok_providerMatches: "wok w \<Longrightarrow> base_ok s \<Longrightarrow> wok (fst (providerMatches e now s w))"
  by (simp add: providerMatches_def wok_fail)

lemma providerMatches_True: "providerMatches e now s w = (w', True) \<Longrightarrow> w' = w"
  by (auto simp: providerMatches_def split: if_splits)

lemma wok_fenceRuntime [simp]: "wok (fenceRuntime w) = wok w"
  by (simp add: fenceRuntime_def split: option.split)

lemma fenceRuntime_store [simp]: "w_store (fenceRuntime w) = w_store w"
  by (simp add: fenceRuntime_def split: option.split)

lemma wok_finish: "wok w \<Longrightarrow> base_ok s \<Longrightarrow> sh_receipt s \<noteq> None \<Longrightarrow> wok (finish e now s w)"
  by (simp add: finish_def Let_def wok_publish record_ok_split)

lemma wok_record_failure: "wok (fst (record_failure e i err now w)) = wok w"
  "w_store (fst (record_failure e i err now w)) = w_store w"
  by (simp_all add: record_failure_def split: prod.split)

lemma wok_deliver_failure [simp]: "wok (deliver_failure c w) = wok w"
  "w_store (deliver_failure c w) = w_store w"
  by (simp_all add: deliver_failure_def split: option.split)

section \<open>Capture and retirement keep it\<close>

lemma wok_scheduleCaptureRetry [simp]: "wok (scheduleCaptureRetry e now s w) = wok w"
  by (simp add: scheduleCaptureRetry_def)

lemma wok_capture_failed: "wok w \<Longrightarrow> base_ok s \<Longrightarrow> wok (capture_failed e now s err w)"
  by (simp add: capture_failed_def Let_def wok_fail)

lemma wok_capture:
  assumes "wok w" and "base_ok s" and "deadlines_ok s"
  shows "wok (capture e now s w)"
proof -
  have ok: "record_ok (s\<lparr>sh_phase := PhCapturing\<rparr>)"
    using assms by (simp add: record_ok_split deadlines_ok_def)
  then show ?thesis
    using assms
    by (auto simp: capture_def Let_def wok_fail wok_publish wok_capture_failed)
qed

lemma wok_release_capture [simp]: "wok (release_capture a w) = wok w"
  by (simp add: release_capture_def)

lemma wok_retire_failed: "wok w \<Longrightarrow> base_ok s \<Longrightarrow> wok (retire_failed e now s a w)"
  by (simp add: retire_failed_def wok_fail)

lemma wok_retire:
  assumes "wok w" and "w_store w = Some s" and "sh_phase s = PhRetiring"
  shows "wok (retire e now s a w)"
proof -
  have ok: "record_ok s" by (rule wokD [OF assms(1,2)])
  then have base: "base_ok s" by (rule record_okD)
  show ?thesis
  proof (cases "sh_receipt s")
    case (Some rp)
    then show ?thesis
      using assms ok base
      by (cases "rp_kind rp") (auto simp: retire_def Let_def wok_fail wok_retire_failed)
  qed (use assms in \<open>simp add: retire_def\<close>)
qed

lemma wok_retire_answered:
  assumes "wok w" and "record_ok s" and "sh_phase s = PhRetiring"
  shows "wok (retire_answered e now s a b w)"
  using assms by (auto simp: retire_answered_def wok_retire_failed record_ok_split intro!: wok_finish)

lemma commitCaptureReceipt_Some:
  assumes "commitCaptureReceipt e now s img kind src w = Some (r, w')" and "wok w" and "record_ok s"
    and "sh_phase s = PhCapturing" and "img \<noteq> []"
  shows "wok w' \<and> w_store w' = Some r \<and> record_ok r \<and> sh_phase r = PhRetiring"
proof -
  let ?rp = "capture_receipt e now kind img src w"
  have r: "r = retiring_record s ?rp"
    using assms(1) by (auto simp: commitCaptureReceipt_def Let_def split: if_splits prod.splits)
  have "receipt_ok ?rp" using assms(5) by (auto simp: capture_receipt_def receipt_ok_def)
  then have ok: "record_ok r" "sh_phase r = PhRetiring"
    using assms(3,4) unfolding r
    by (auto simp: record_ok_split retiring_record_def base_ok_def deadlines_ok_def)
  then show ?thesis
    using assms(1,2) unfolding r
    by (auto simp: commitCaptureReceipt_def Let_def wok_write split: if_splits prod.splits)
qed

lemma wok_capture_answered:
  assumes "wok w" and "record_ok s" and "sh_phase s = PhCapturing" and "truthy (sh_providerObjectId s)"
  shows "wok (capture_answered e now s retained answer w)"
proof -
  have base: "base_ok s" by (rule record_okD [OF assms(2)])
  have obj: "the (sh_providerObjectId s) \<noteq> []" using assms(4) by (auto elim: truthyE)
  have commit: "wok (case commitCaptureReceipt e now s img kind src w of
        None \<Rightarrow> capture_failed e now s NOT_CONFIRMED_ERROR w
      | Some (r, w1) \<Rightarrow> if stopped then (finish e now r w1)\<lparr>w_activeOperation := None\<rparr>
                       else retire e now r True w1)"
    if "img \<noteq> []" for img kind src stopped
  proof (cases "commitCaptureReceipt e now s img kind src w")
    case None
    then show ?thesis using assms(1) base by (simp add: wok_capture_failed)
  next
    case (Some x)
    then obtain r w1 where x: "commitCaptureReceipt e now s img kind src w = Some (r, w1)" by (cases x) auto
    from commitCaptureReceipt_Some [OF x assms(1-3) that]
    have *: "wok w1" "w_store w1 = Some r" "record_ok r" "sh_phase r = PhRetiring" by blast+
    then have "base_ok r" "sh_receipt r \<noteq> None" by (auto simp: record_ok_split)
    with * x show ?thesis by (simp add: wok_finish wok_retire)
  qed
  show ?thesis
    using assms(1) base obj commit
    by (auto simp: capture_answered_def Let_def wok_capture_failed split: capture_answer.split)
qed

section \<open>A drain and its claim keep it\<close>

lemma wok_captureUnconfirmed:
  assumes "wok w" and "base_ok s" and "deadlines_ok s" and "wok (again w)"
  shows "wok (captureUnconfirmed e now s again w)"
  using assms by (auto simp: captureUnconfirmed_def deadlines_ok_def intro!: wok_fail wok_capture)

lemma wok_drain_on:
  assumes "wok w" and "w_store w = Some s" and "sh_phase s = PhDraining"
  shows "wok (drain_on e now s w)"
proof -
  have ok: "record_ok s" by (rule wokD [OF assms(1,2)])
  then have "base_ok s" "deadlines_ok s" using assms(3) by (auto simp: record_ok_split)
  moreover have "sh_operationId s = Some (the (sh_operationId s))"
    using \<open>deadlines_ok s\<close> by (auto simp: deadlines_ok_def elim: truthyE)
  ultimately show ?thesis
    using assms by (auto simp: drain_on_def Let_def intro!: wok_captureUnconfirmed wok_fail)
qed

lemma handed_over_ok:
  assumes "record_ok s" and "sh_phase s = PhDraining"
  shows "record_ok (handed_over now s)" and "sh_phase (handed_over now s) = PhDraining"
  using assms by (auto simp: handed_over_def Let_def record_ok_split deadlines_ok_def)

lemma wok_advance:
  assumes "wok w"
  shows "wok (advance e now w)"
proof (cases "w_store w")
  case (Some s)
  have ok: "record_ok s" by (rule wokD [OF assms Some])
  then have base: "base_ok s" by (rule record_okD)
  obtain w1 good where pm: "providerMatches e now s w = (w1, good)" by fastforce
  have w1: "wok w1" using wok_providerMatches [OF assms base, of e now] pm by simp
  show ?thesis
  proof (cases good)
    case True
    with pm have eq: "w1 = w" using providerMatches_True [of e now s w w1] by simp
    have handed: "wok (drain_on e now (handed_over now s) (store_write (handed_over now s) w))"
      if "sh_phase s = PhDraining"
      using handed_over_ok [OF ok that, of now] assms by (intro wok_drain_on) (simp_all add: wok_write)
    have cap: "wok (capture e now s w)" if "sh_phase s = PhPrepared"
      using that ok assms base by (intro wok_capture) (simp_all add: record_ok_split)
    show ?thesis
      using Some pm True eq assms ok base handed cap wok_retire [OF assms Some] wok_drain_on [OF assms Some]
      by (auto simp: advance_def Let_def wok_fail split: checkpoint_settlement.split option.split)
  next
    case False
    then show ?thesis using Some pm assms w1 by (simp add: advance_def)
  qed
qed (use assms in \<open>simp add: advance_def\<close>)

lemma wok_openCheckpointOp:
  assumes "wok w" and "record_ok s"
  shows "wok (fst (openCheckpointOp e i s w))"
  using assms
  by (auto simp: openCheckpointOp_def Let_def unrecorded_op_def record_ok_split base_ok_def
      split: option.split intro!: wok_write)

lemma wok_claim_shutdown:
  assumes "wok w" and "base_ok next" and "deadlines_ok next"
    and "sh_phase next = (if emergency then (if recovering then PhUnknown else PhCapturing) else PhDraining)"
  shows "wok (claim_shutdown e now reason emergency recovering next w)"
proof -
  let ?m = "getProcessingMessage (w_db w)"
  have next1: "base_ok (with_message ?m next)" "deadlines_ok (with_message ?m next)"
      "sh_phase (with_message ?m next) = sh_phase next"
    using assms(2,3) by (auto simp: with_message_def deadlines_ok_def split: option.split)
  then have ok: "record_ok (with_message ?m next)"
    using assms(4) by (auto simp: record_ok_split)
  have stored: "wok (store_write (with_message ?m next) w)" using assms(1) ok by (rule wok_write)
  show ?thesis
    using stored next1
    by (auto simp: claim_shutdown_def Let_def wok_record_failure split_beta
        intro!: wok_capture wok_advance split: option.split)
qed

lemma claimed_record_ok:
  assumes "base_ok b" and "i \<noteq> []"
  shows "base_ok (claimed_record em rec reason i now row prior b)"
    and "deadlines_ok (claimed_record em rec reason i now row prior b)"
    and "sh_phase (claimed_record em rec reason i now row prior b)
      = (if em then (if rec then PhUnknown else PhCapturing) else PhDraining)"
  using assms by (simp_all add: claimed_record_def deadlines_ok_def split: prod.split)

lemma base_ok_legacy [simp]: "base_ok (legacyShutdownRecord row p)"
  by (simp add: legacyShutdownRecord_def base_record_def base_ok_def)

lemma wok_requestShutdown:
  assumes "wok w" and "i \<noteq> []"
  shows "wok (fst (requestShutdown e now i j reason mode w))"
proof -
  obtain w0 bad where w0: "(case w_store w of
               None \<Rightarrow> (w, False)
             | Some s \<Rightarrow> if \<not> isCurrent s w then (w, True)
                         else (case providerMatches e now s w of (w', ok) \<Rightarrow> (w', \<not> ok))) = (w0, bad)"
    by fastforce
  have "wok w0"
  proof (cases "w_store w")
    case (Some s)
    have "wok (fst (providerMatches e now s w))"
      by (rule wok_providerMatches [OF assms(1) record_okD(1) [OF wokD [OF assms(1) Some]]])
    with w0 Some assms(1) show ?thesis by (auto split: if_splits prod.splits)
  qed (use w0 assms in simp)
  define w1 where "w1 = (case w_store w0 of
               Some s \<Rightarrow> if sh_phase s = PhRunning \<and> sh_checkpointInFlight s
                         then fst (openCheckpointOp e j s w0) else w0
             | None \<Rightarrow> w0)"
  have w1: "wok w1"
    using \<open>wok w0\<close> by (auto simp: w1_def intro!: wok_openCheckpointOp dest: wokD split: option.split)
  have claim: "wok (claim_shutdown e now reason em rec (claimed_record em rec reason i now r (w_store w1)
      (case w_store w1 of Some s \<Rightarrow> s | None \<Rightarrow> legacyShutdownRecord r (e_name e))) w1)" for em rec r
    using w1 assms(2)
    by (intro wok_claim_shutdown claimed_record_ok) (auto split: option.split dest: wokD record_okD)
  show ?thesis
    using w0 w1 claim \<open>wok w0\<close>
    unfolding requestShutdown_def Let_def w1_def [symmetric]
    by (auto simp: w1_def [symmetric] split: option.split)
qed

lemma normalize_cases:
  assumes "wok w" and "normalizeInterruptedRestore e now w = (w', s)"
  shows "wok w'" and "w_store w' = s" and "s = Some r \<Longrightarrow> record_ok r"
proof -
  have "wok w' \<and> w_store w' = s"
    using assms(2) assms(1)
    by (cases rule: store_cases [OF assms(1)])
      (auto simp: normalizeInterruptedRestore_def Let_def record_ok_split wok_publish split: if_splits)
  then show "wok w'" "w_store w' = s" "s = Some r \<Longrightarrow> record_ok r" by (auto dest: wokD)
qed

lemma wok_admissionDecision:
  assumes "wok w" and "i \<noteq> []"
  shows "wok (fst (admissionDecision e now i j w))"
proof -
  obtain w1 s where n: "normalizeInterruptedRestore e now w = (w1, s)" by fastforce
  note n_ok = normalize_cases [OF assms(1) n]
  show ?thesis
  proof (cases s)
    case (Some r)
    obtain w2 ok where pm: "providerMatches e now r w1 = (w2, ok)" by fastforce
    have "wok w2"
      using wok_providerMatches [OF n_ok(1) record_okD(1) [OF n_ok(3) [OF Some]], of e now] pm by simp
    with n_ok(1) Some n pm assms(2) show ?thesis
      by (simp add: admissionDecision_def wok_requestShutdown)
  qed (use n n_ok in \<open>simp add: admissionDecision_def\<close>)
qed

lemma wok_isHolding: "wok w \<Longrightarrow> wok (fst (isHolding e now w))"
  by (auto simp: isHolding_def dest: normalize_cases(1) split: prod.split option.split)

lemma wok_startupDecision:
  assumes "wok w"
  shows "wok (fst (startupDecision e now w))"
proof -
  obtain w1 s where n: "normalizeInterruptedRestore e now w = (w1, s)" by fastforce
  note n_ok = normalize_cases [OF assms n]
  show ?thesis
    using n n_ok wok_isHolding [OF n_ok(1), of e now]
    by (auto simp: startupDecision_def Let_def intro!: wok_fail dest!: record_okD(1)
        split: option.split prod.split)
qed

lemma wok_snapshot_view: "wok w \<Longrightarrow> wok (fst (snapshot_view e now w))"
  by (auto simp: snapshot_view_def dest: normalize_cases(1) split: prod.split)

section \<open>Start-up, holds and recovery keep it\<close>

lemma reserved_record_ok: "(\<And>p. previous = Some p \<Longrightarrow> record_ok p) \<Longrightarrow> record_ok (reserved_record e g policy previous)"
  by (auto simp: reserved_record_def Let_def base_record_def record_ok_split base_ok_def split: option.split)

lemma wok_reserveStartup:
  assumes "wok w" and "reserveStartup e now c policy persist w = Some w'"
  shows "wok w'"
proof -
  have "record_ok (reserved_record e g policy (w_store w))" for g
    using reserved_record_ok assms(1) wokD by blast
  with assms show ?thesis
    by (auto simp: reserveStartup_def Let_def wok_write wok_record_failure split_beta
        split: option.splits if_splits)
qed

lemma phase_ok_columns:
  "phase_ok ph (s\<lparr>sh_restoreInvoked := b\<rparr>) = phase_ok ph s"
  "phase_ok ph (s\<lparr>sh_sourceRetired := b\<rparr>) = phase_ok ph s"
  "phase_ok ph (s\<lparr>sh_providerObjectId := o'\<rparr>) = phase_ok ph s"
  "phase_ok ph (s\<lparr>sh_runtimeReady := b\<rparr>) = phase_ok ph s"
  "phase_ok ph (s\<lparr>sh_protocol1 := b\<rparr>) = phase_ok ph s"
  "phase_ok ph (s\<lparr>sh_generationReady := b\<rparr>) = phase_ok ph s"
  "phase_ok ph (s\<lparr>sh_continuationPaused := cp\<rparr>) = phase_ok ph s"
  "phase_ok ph (s\<lparr>sh_discarding := o'\<rparr>) = phase_ok ph s"
  "phase_ok ph (s\<lparr>sh_error := o'\<rparr>) = phase_ok ph s"
  "phase_ok ph (s\<lparr>sh_checkpointInFlight := b\<rparr>) = phase_ok ph s"
  "phase_ok ph (s\<lparr>sh_captureOp := cop\<rparr>) = phase_ok ph s"
  "phase_ok ph (s\<lparr>sh_runtimeFailure := f\<rparr>) = phase_ok ph s"
  "phase_ok ph (s\<lparr>sh_lifetimeKind := k\<rparr>) = phase_ok ph s"
  "phase_ok ph (s\<lparr>sh_lifetimeSource := src\<rparr>) = phase_ok ph s"
  "phase_ok ph (s\<lparr>sh_expiresAtMs := d\<rparr>) = phase_ok ph s"
  "phase_ok ph (s\<lparr>sh_drainAtMs := d\<rparr>) = phase_ok ph s"
  by (cases ph; simp add: deadlines_ok_def)+

lemma wok_markRecoveryInvoked:
  assumes "wok w" and "markRecoveryInvoked e now g obj w = Some w'"
  shows "wok w'"
  using assms
  by (cases rule: store_cases [OF assms(1)])
    (auto simp: markRecoveryInvoked_def record_ok_split phase_ok_columns intro!: wok_publish
      split: if_splits)

lemma wok_recordPendingProviderHandle:
  assumes "wok w"
  shows "wok (fst (recordPendingProviderHandle e now g ref t src w))"
  using assms
  by (cases rule: store_cases [OF assms])
    (auto simp: recordPendingProviderHandle_def Let_def record_ok_split phase_ok_columns base_ok_def
      intro!: wok_publish split: option.split)

lemma started_record_ok: "record_ok s \<Longrightarrow> record_ok (started_record e obj observed s)"
proof -
  assume ok: "record_ok s"
  have "phase_ok (if sh_phase s = PhRestoring then PhRunning else sh_phase s) s"
    using ok by (auto simp: record_ok_split)
  moreover have "base_ok (started_record e obj observed s)"
    using ok by (auto simp: started_record_def Let_def record_ok_split base_ok_def split: lifetime.split)
  ultimately show ?thesis
    by (cases "sh_phase s") (auto simp: record_ok_split started_record_def Let_def deadlines_ok_def)
qed

lemma wok_recordProviderStartup:
  assumes "wok w" and "i \<noteq> []"
  shows "wok (recordProviderStartup e now i j g observed w)"
proof (cases "w_store w")
  case (Some s)
  let ?n = "started_record e (case getSandbox (w_sandbox w) of None \<Rightarrow> None
                                         | Some r \<Rightarrow> sb_modal_object_id r) observed s"
  have ok: "record_ok ?n" by (rule started_record_ok [OF wokD [OF assms(1) Some]])
  have base: "base_ok ?n" by (rule record_okD [OF ok])
  show ?thesis
    using Some assms ok base
    by (auto simp: recordProviderStartup_def Let_def wok_publish wok_fail bindGeneration_def
        wok_requestShutdown split: option.split)
qed (use assms in \<open>simp add: recordProviderStartup_def\<close>)

lemma wok_recordResolvedProviderHandle:
  assumes "wok w"
  shows "wok (recordResolvedProviderHandle e now g expected obj w)"
  using assms
  by (cases rule: store_cases [OF assms])
    (auto simp: recordResolvedProviderHandle_def record_ok_split phase_ok_columns intro!: wok_publish)

lemma wok_runtimeReady:
  assumes "wok w"
  shows "wok (runtimeReady e now b w)"
  using assms
  by (cases rule: store_cases [OF assms])
    (auto simp: runtimeReady_def Let_def bindGeneration_def record_ok_split phase_ok_columns
      intro!: wok_publish wok_fail)

lemma wok_generationReady:
  assumes "wok w"
  shows "wok (generationReady e now g w)"
  using assms
  by (cases rule: store_cases [OF assms])
    (auto simp: generationReady_def Let_def record_ok_split phase_ok_columns
      intro!: wok_publish wok_advance)

lemma wok_prepared:
  assumes "wok w"
  shows "wok (prepared e now g i stopped w)"
  using assms
  by (cases rule: store_cases [OF assms])
    (auto simp: prepared_def record_ok_split deadlines_ok_def
      intro!: wok_publish wok_advance wok_captureUnconfirmed)

lemma wok_holdFailedRecovery:
  assumes "wok w"
  shows "wok (holdFailedRecovery e now err g w)"
  using assms
  by (cases rule: store_cases [OF assms])
    (auto simp: holdFailedRecovery_def Let_def intro!: wok_fail split: option.split)

lemma wok_holdFailedRetainedBoot:
  assumes "wok w"
  shows "wok (fst (holdFailedRetainedBoot e now err g w))"
  using assms
  by (cases rule: store_cases [OF assms])
    (auto simp: holdFailedRetainedBoot_def Let_def record_ok_split phase_ok_columns
      intro!: wok_holdFailedRecovery wok_write split: option.split)

lemma wok_retryCapture:
  assumes "wok w" and "base_ok s" and "i \<noteq> []"
  shows "wok (retryCapture e now i s w)"
  using assms
  by (auto simp: retryCapture_def canRetryShutdown_def deadlines_ok_def intro!: wok_capture)

lemma wok_completeDiscard:
  assumes "wok w"
  shows "wok (completeDiscard e now s w)"
proof -
  have "record_ok (discarded_record e s)"
    by (simp add: discarded_record_def base_record_def record_ok_split base_ok_def)
  then show ?thesis
    using assms by (simp add: completeDiscard_def Let_def wok_write split: prod.split)
qed

lemma wok_discard:
  assumes "wok w" and "record_ok s"
  shows "wok (discard e now i s w)"
proof -
  have ok: "record_ok (s\<lparr>sh_discarding := Some i, sh_error := None\<rparr>)"
    using assms(2) by (simp add: record_ok_split phase_ok_columns)
  then show ?thesis
    using assms(1) by (simp add: discard_def Let_def wok_publish wok_completeDiscard)
qed

lemma wok_discard_answered:
  assumes "wok w" and "record_ok s"
  shows "wok (discard_answered e now s b w)"
  using assms
  by (auto simp: discard_answered_def Let_def record_ok_split phase_ok_columns
      intro!: wok_completeDiscard wok_publish)

lemma restorable_receipt: "RestoreSaved \<in> set (availableRecoveryActions e now w s) \<Longrightarrow> sh_receipt s \<noteq> None"
  by (auto simp: availableRecoveryActions_def canRestoreSaved_def split: if_splits)

lemma wok_recover:
  assumes "wok w" and "recover e now i action w = Some w'" and "i \<noteq> []"
  shows "wok w'"
proof -
  obtain w1 s where n: "normalizeInterruptedRestore e now w = (w1, s)" by fastforce
  note n_ok = normalize_cases [OF assms(1) n]
  from n assms(2) obtain r where s: "s = Some r" "action \<in> set (availableRecoveryActions e now w1 r)"
    by (auto simp: recover_def split: option.splits if_splits)
  have ok: "record_ok r" "base_ok r" using n_ok(3) [OF s(1)] record_okD by blast+
  let ?next = "r\<lparr>sh_phase := PhRetiring, sh_reason := Some ''restore_saved_state'', sh_error := None,
                         sh_continuationPaused := Some False, sh_operationId := Some i,
                         sh_retireByMs := Some (now + RETIRE_MS)\<rparr>"
  have resumed: "record_ok (r\<lparr>sh_continuationPaused := Some False\<rparr>)"
    using ok by (simp add: record_ok_split phase_ok_columns)
  show ?thesis
  proof (cases "action = RestoreSaved")
    case True
    then have rp: "sh_receipt r \<noteq> None" using restorable_receipt s(2) by blast
    then have next_ok: "record_ok ?next" using ok assms(3) by (simp add: record_ok_split)
    have w2: "wok (publish e now ?next w1)" using n_ok(1) next_ok by (rule wok_publish)
    have retire: "wok (retire e now ?next False (publish e now ?next w1))"
      using w2 next_ok by (intro wok_retire) simp_all
    show ?thesis
      using assms(2) n n_ok(1) s True w2 retire ok rp resumed
      by (auto simp: recover_def Let_def wok_publish split: if_splits intro!: wok_finish wok_fail)
  next
    case False
    then show ?thesis
      using assms(2,3) n n_ok(1) s ok resumed
      by (cases action)
        (auto simp: recover_def Let_def wok_publish wok_retryCapture wok_discard split: if_splits)
  qed
qed

lemma wok_onRefusedReconnect:
  assumes "wok w" and "i \<noteq> []"
  shows "wok (fst (onRefusedReconnect e now i w))"
  using assms
  by (cases rule: store_cases [OF assms(1)])
    (auto simp: onRefusedReconnect_def intro!: wok_retryCapture)

section \<open>Checkpoints keep it\<close>

lemma base_ok_op: "base_ok s \<Longrightarrow> 1 \<le> op_attempt op \<Longrightarrow> base_ok (s\<lparr>sh_captureOp := Some op\<rparr>)"
  by (simp add: base_ok_def)

lemma wok_endCheckpoint:
  assumes "wok w"
  shows "wok (endCheckpoint e now i uncertain w)"
proof (cases rule: store_cases [OF assms])
  case (2 s)
  note some = this
  let ?w1 = "w\<lparr>w_checkpointOperationId := None, w_checkpointGeneration := None\<rparr>"
  have done_ok: "record_ok (s\<lparr>sh_checkpointInFlight := False, sh_captureOp := None\<rparr>)"
    using some by (simp add: record_ok_split phase_ok_columns)
  have op_ok: "record_ok (s\<lparr>sh_captureOp := Some (op\<lparr>op_uncertainAtMs := Some now\<rparr>)\<rparr>)"
    if "sh_captureOp s = Some op" for op
    using some that by (auto simp: record_ok_split phase_ok_columns base_ok_def)
  have base: "base_ok (s\<lparr>sh_checkpointInFlight := False, sh_captureOp := None\<rparr>)"
    using done_ok by (rule record_okD)
  show ?thesis
    using some assms done_ok op_ok base
    by (auto simp: endCheckpoint_def Let_def settles_def
        intro!: wok_publish wok_advance wok_write wok_fail)
qed (use assms in \<open>simp add: endCheckpoint_def Let_def\<close>)

lemma wok_start_checkpoint:
  assumes "wok w" and "record_ok s"
  shows "wok (fst (start_checkpoint e now i g reason after s w))"
proof -
  let ?op = "checkpoint_op i reason after now s"
  let ?s = "s\<lparr>sh_checkpointInFlight := True, sh_captureOp := Some ?op\<rparr>"
  have ok: "record_ok ?s"
    using assms(2) by (simp add: record_ok_split phase_ok_columns base_ok_op checkpoint_op_def Let_def)
  then have "wok (store_write ?s w)" using assms(1) wok_write by blast
  then show ?thesis
    using ok
    by (auto simp: start_checkpoint_def Let_def split_beta intro!: wok_endCheckpoint split: option.split)
qed

lemma record_ok_legacy: "record_ok (legacyShutdownRecord row p)"
  by (simp add: record_ok_split) (simp add: legacyShutdownRecord_def base_record_def)

lemma wok_captureCheckpoint:
  assumes "wok w" and "j \<noteq> []"
  shows "wok (fst (captureCheckpoint e now i j k g reason after w))"
proof (cases rule: store_cases [OF assms(1)])
  case (2 s)
  note some = this
  obtain w1 adm where a: "admissionDecision e now j k w = (w1, adm)" by fastforce
  then have "wok w1" using wok_admissionDecision [OF assms, of e now k] by simp
  then show ?thesis
    using some a assms(1) by (simp add: captureCheckpoint_def wok_start_checkpoint)
qed (use assms in \<open>auto simp: captureCheckpoint_def record_ok_legacy intro!: wok_start_checkpoint
       split: option.split\<close>)

lemma wok_checkpoint_answered:
  assumes "wok w"
  shows "wok (fst (checkpoint_answered e now i g v previous moved reason answer w))"
proof (cases rule: store_cases [OF assms])
  case (2 s)
  note some = this
  show ?thesis
    using some assms
    by (auto simp: checkpoint_answered_def Let_def split_beta intro!: wok_endCheckpoint wok_write
        split: capture_answer.split)
qed (use assms in \<open>auto simp: checkpoint_answered_def Let_def intro!: wok_endCheckpoint split: capture_answer.split\<close>)

section \<open>Settlement and alarms keep it\<close>

lemma wok_releaseCheckpoint:
  assumes "wok w"
  shows "wok (fst (releaseCheckpoint e now op w))"
proof (cases rule: store_cases [OF assms])
  case (2 s)
  then have "record_ok (s\<lparr>sh_checkpointInFlight := False, sh_captureOp := None, sh_error := None\<rparr>)"
    by (simp add: record_ok_split phase_ok_columns)
  with 2 assms show ?thesis
    by (auto simp: releaseCheckpoint_def Let_def split_beta intro!: wok_write)
qed (use assms in \<open>simp add: releaseCheckpoint_def\<close>)

lemma wok_hold_checkpoint: "wok w \<Longrightarrow> base_ok s \<Longrightarrow> wok (hold_checkpoint e now op s w)"
  by (simp add: hold_checkpoint_def Let_def wok_fail)

lemma op_attempt_positive:
  assumes "base_ok s" and "openCheckpointOp e i s w = (w1, Some op)"
  shows "1 \<le> op_attempt op"
  using assms
  by (auto simp: openCheckpointOp_def Let_def unrecorded_op_def base_ok_def split: option.splits if_splits)

lemma wok_settleCheckpoint:
  assumes "wok w" and "record_ok s"
  shows "wok (fst (settleCheckpoint e now i s w))"
proof -
  define owned where "owned = (w_checkpointOperationId w \<noteq> None)"
  obtain w1 op where w1: "(if owned then (w, sh_captureOp s) else openCheckpointOp e i s w) = (w1, op)"
    by fastforce
  have ok1: "wok w1"
    using w1 assms wok_openCheckpointOp [OF assms, of e i] by (auto split: if_splits)
  have base: "base_ok s" using assms(2) by (rule record_okD)
  have attempt: "1 \<le> op_attempt (the op)" if "settles e op"
    using that w1 base op_attempt_positive [OF base, of e i w w1]
    by (auto simp: settles_def base_ok_def split: if_splits)
  show ?thesis
  proof (cases "settles e op")
    case False
    then show ?thesis
      using w1 ok1 base unfolding settleCheckpoint_def Let_def owned_def [symmetric]
      by (auto intro!: wok_fail)
  next
    case True
    show ?thesis
    proof (cases rule: store_cases [OF ok1])
      case 1
      then show ?thesis
        using w1 ok1 True unfolding settleCheckpoint_def Let_def owned_def [symmetric] by simp
    next
      case (2 c)
      obtain w2 good where pm: "providerMatches e now c w1 = (w2, good)" by fastforce
      have ok2: "wok w2" using wok_providerMatches [OF ok1 2(3), of e now] pm by simp
      have cleared: "record_ok (c\<lparr>sh_checkpointInFlight := False, sh_captureOp := None\<rparr>)"
        using 2 by (simp add: record_ok_split phase_ok_columns)
      have deferred: "record_ok (c\<lparr>sh_captureOp := Some ((the op)\<lparr>op_deferredUntilMs := Some t\<rparr>)\<rparr>)" for t
        using 2 attempt [OF True] by (simp add: record_ok_split phase_ok_columns base_ok_op)
      have rel: "wok (fst (case releaseCheckpoint e now (the op) w2 of
                       (w3, Released) \<Rightarrow> (w3, True)
                     | (w3, SupersededRelease) \<Rightarrow> (w3, False)
                     | (w3, NotReleasable) \<Rightarrow> (hold_checkpoint e now (the op) c w3, False)))"
        using wok_releaseCheckpoint [OF ok2, of e now "the op"] 2(3)
        by (auto simp: wok_hold_checkpoint split: prod.split release.split)
      show ?thesis
        using w1 ok1 ok2 True 2 pm cleared deferred rel
        unfolding settleCheckpoint_def Let_def owned_def [symmetric]
        by (auto simp: wok_hold_checkpoint split: checkpoint_settlement.split option.split intro!: wok_publish wok_write)
    qed
  qed
qed

lemma wok_handleAlarm:
  assumes "wok w" and "i \<noteq> []"
  shows "wok (fst (handleAlarm e now i j b w))"
proof -
  obtain w1 s where n: "normalizeInterruptedRestore e now w = (w1, s)" by fastforce
  note n_ok = normalize_cases [OF assms(1) n]
  show ?thesis
  proof (cases s)
    case (Some r)
    have ok: "record_ok r" "base_ok r" using n_ok(3) [OF Some] record_okD by blast+
    obtain w2 go where sc: "(if sh_checkpointInFlight r then settleCheckpoint e now j r w1 else (w1, True)) = (w2, go)"
      by fastforce
    have ok2: "wok w2"
      using sc n_ok(1) wok_settleCheckpoint [OF n_ok(1) ok(1), of e now j] by (auto split: if_splits)
    have held: "wok (fst (settleCheckpoint e now j r w1))" by (rule wok_settleCheckpoint [OF n_ok(1) ok(1)])
    show ?thesis
      using n Some n_ok(1) sc ok2 ok assms(2) held
      by (auto simp: handleAlarm_def Let_def wok_requestShutdown wok_retryCapture wok_advance
          intro!: wok_isHolding split: option.split)
  qed (use n n_ok in \<open>simp add: handleAlarm_def\<close>)
qed

lemma wok_rearmCaptureSettlement:
  assumes "wok w"
  shows "wok (rearmCaptureSettlement e now i w)"
proof (cases rule: store_cases [OF assms])
  case (2 s)
  have "wok (fst (openCheckpointOp e i s w))" by (rule wok_openCheckpointOp [OF assms 2(2)])
  with 2 assms show ?thesis
    by (auto simp: rearmCaptureSettlement_def Let_def split: prod.split checkpoint_settlement.split option.split)
qed (use assms in \<open>simp add: rearmCaptureSettlement_def\<close>)

lemma wok_runtimeFailure:
  assumes "wok w"
  shows "wok (recordRuntimeFailure now reason w)" and "wok (clearRuntimeFailure w)"
  using assms
  by (cases rule: store_cases [OF assms];
      auto simp: recordRuntimeFailure_def clearRuntimeFailure_def record_ok_split phase_ok_columns
        intro!: wok_write)+

lemma wok_restart: "wok w \<Longrightarrow> wok (restart now w)"
  by (simp add: wok_def restart_def)

section \<open>Reachable worlds\<close>

text \<open>
  The steps of a session's shutdown: every operation, the provider's answers to the calls in
  flight, a restart, and whatever the other components do to the tables and the socket.
  Identifiers are fresh UUIDs, so in particular non-empty.
\<close>

inductive shutdown_step :: "shutdown_env \<Rightarrow> shutdown_world \<Rightarrow> shutdown_world \<Rightarrow> bool" for e where
  others: "shutdown_step e w (w\<lparr>w_sandbox := t, w_db := db, w_socket := b\<rparr>)"
| reserve: "reserveStartup e now c policy persist w = Some w' \<Longrightarrow> shutdown_step e w w'"
| invoked: "markRecoveryInvoked e now g obj w = Some w' \<Longrightarrow> shutdown_step e w w'"
| pending_handle: "shutdown_step e w (fst (recordPendingProviderHandle e now g ref t src w))"
| started: "i \<noteq> [] \<Longrightarrow> shutdown_step e w (recordProviderStartup e now i j g observed w)"
| resolved: "shutdown_step e w (recordResolvedProviderHandle e now g expected obj w)"
| runtime_ready: "shutdown_step e w (runtimeReady e now v1 w)"
| generation_ready: "shutdown_step e w (generationReady e now g w)"
| prepared_event: "shutdown_step e w (prepared e now g i stopped w)"
| admission: "i \<noteq> [] \<Longrightarrow> shutdown_step e w (fst (admissionDecision e now i j w))"
| startup: "shutdown_step e w (fst (startupDecision e now w))"
| holding: "shutdown_step e w (fst (isHolding e now w))"
| view: "shutdown_step e w (fst (snapshot_view e now w))"
| failed_recovery: "shutdown_step e w (holdFailedRecovery e now err og w)"
| failed_boot: "shutdown_step e w (fst (holdFailedRetainedBoot e now err g w))"
| recovery: "i \<noteq> [] \<Longrightarrow> recover e now i action w = Some w' \<Longrightarrow> shutdown_step e w w'"
| reconnect: "i \<noteq> [] \<Longrightarrow> shutdown_step e w (fst (onRefusedReconnect e now i w))"
| checkpoint: "j \<noteq> [] \<Longrightarrow> shutdown_step e w (fst (captureCheckpoint e now i j k g reason after w))"
| shutdown: "i \<noteq> [] \<Longrightarrow> shutdown_step e w (fst (requestShutdown e now i j reason mode w))"
| alarm: "i \<noteq> [] \<Longrightarrow> shutdown_step e w (fst (handleAlarm e now i j b w))"
| rearm: "shutdown_step e w (rearmCaptureSettlement e now i w)"
| runtime_failed: "shutdown_step e w (recordRuntimeFailure now reason w)"
| failure_cleared: "shutdown_step e w (clearRuntimeFailure w)"
| capture_answer: "PCapture s retained \<in> set (w_pending w)
    \<Longrightarrow> shutdown_step e w (capture_answered e now s retained answer (w\<lparr>w_pending := remove1 (PCapture s retained) (w_pending w)\<rparr>))"
| retire_answer: "PRetire s awaited \<in> set (w_pending w)
    \<Longrightarrow> shutdown_step e w (retire_answered e now s awaited ok (w\<lparr>w_pending := remove1 (PRetire s awaited) (w_pending w)\<rparr>))"
| discard_answer: "PDiscard s \<in> set (w_pending w)
    \<Longrightarrow> shutdown_step e w (discard_answered e now s ok (w\<lparr>w_pending := remove1 (PDiscard s) (w_pending w)\<rparr>))"
| checkpoint_answer: "PCheckpoint i g v st moved reason \<in> set (w_pending w)
    \<Longrightarrow> shutdown_step e w (fst (checkpoint_answered e now i g v st moved reason answer
          (w\<lparr>w_pending := remove1 (PCheckpoint i g v st moved reason) (w_pending w)\<rparr>)))"
| restarted: "shutdown_step e w (restart now w)"

definition new_session :: "sandbox_table \<Rightarrow> session_db \<Rightarrow> ms \<Rightarrow> shutdown_world" where
  "new_session t db now =
     \<lparr>w_store = None, w_sandbox = t, w_db = db, w_activeOperation = None, w_checkpointOperationId = None,
      w_checkpointGeneration = None, w_retiringOperation = None, w_discardingOperation = None,
      w_activeRestoreGeneration = None, w_constructedAtMs = now, w_socket = False, w_log = [],
      w_pending = [], w_malformed = False\<rparr>"

inductive shutdown_reachable :: "shutdown_env \<Rightarrow> shutdown_world \<Rightarrow> bool" for e where
  fresh: "shutdown_reachable e (new_session t db now)"
| step: "shutdown_reachable e w \<Longrightarrow> shutdown_step e w w' \<Longrightarrow> shutdown_reachable e w'"

lemma wok_answering:
  assumes "wok w" and "p \<in> set (w_pending w)"
  shows "wok (w\<lparr>w_pending := remove1 p (w_pending w)\<rparr>)" and "pend_ok p"
  using assms by (auto simp: wok_def list_all_iff dest: notin_set_remove1)

lemma wok_step:
  assumes "shutdown_step e w w'" and "wok w"
  shows "wok w'"
  using assms(1)
proof cases
  case (capture_answer s retained now answer)
  with wok_answering [OF assms(2) capture_answer(2)] show ?thesis
    by (simp add: wok_capture_answered)
next
  case (retire_answer s awaited now ok)
  with wok_answering [OF assms(2) retire_answer(2)] show ?thesis
    by (simp add: wok_retire_answered)
next
  case (discard_answer s now ok)
  with wok_answering [OF assms(2) discard_answer(2)] show ?thesis
    by (simp add: wok_discard_answered)
next
  case (checkpoint_answer i g v st moved reason now answer)
  with wok_answering [OF assms(2) checkpoint_answer(2)] show ?thesis
    by (simp add: wok_checkpoint_answered)
next
  case (others t db b)
  with assms(2) show ?thesis by simp
next
  case (reserve now c policy persist)
  then show ?thesis using wok_reserveStartup assms(2) by blast
next
  case (invoked now g obj)
  then show ?thesis using wok_markRecoveryInvoked assms(2) by blast
next
  case (recovery i now action)
  then show ?thesis using wok_recover assms(2) by blast
qed (use assms(2) in \<open>auto intro: wok_recordPendingProviderHandle wok_recordProviderStartup
   wok_recordResolvedProviderHandle wok_runtimeReady wok_generationReady wok_prepared
   wok_admissionDecision wok_startupDecision wok_isHolding wok_snapshot_view wok_holdFailedRecovery
   wok_holdFailedRetainedBoot wok_onRefusedReconnect wok_captureCheckpoint wok_requestShutdown
   wok_handleAlarm wok_rearmCaptureSettlement wok_runtimeFailure wok_restart\<close>)

lemma reachable_wok: "shutdown_reachable e w \<Longrightarrow> wok w"
proof (induction rule: shutdown_reachable.induct)
  case (fresh t db now)
  then show ?case by (simp add: new_session_def wok_def)
next
  case (step w w')
  then show ?case using wok_step by blast
qed

text \<open>A provider with snapshots and an explicit stop, and a session whose runtime is up.\<close>

definition demo_env :: shutdown_env where
  "demo_env = \<lparr>e_name = ''modal'', e_explicitStop = True, e_hasStop = True, e_persistentResume = False,
     e_snapshots = True, e_hasSnapshot = True, e_snapshotRequiresShutdown = False, e_buffer = 600000,
     e_failureJson = (\<lambda>i err t. err), e_warningJson = (\<lambda>m t. m)\<rparr>"

definition up_row :: sandbox_row where
  "up_row = booting_row\<lparr>sb_status := Ready, sb_modal_object_id := Some ''obj'', sb_last_heartbeat := Some 5\<rparr>"

definition demo_world :: shutdown_world where
  "demo_world = new_session [up_row] empty_db 0"

lemma demo_reachable: "shutdown_reachable demo_env demo_world"
  unfolding demo_world_def by (rule shutdown_reachable.fresh)

lemma demo_shutdown_reachable:
  "shutdown_reachable demo_env
     (fst (requestShutdown demo_env 1000 ''op'' ''cp'' ''fatal_runtime_error'' Emergency demo_world))"
  by (rule shutdown_reachable.step [OF demo_reachable shutdown]) simp



lemma with_message_keeps [simp]:
  "sh_providerObjectId (with_message m s) = sh_providerObjectId s"
  "sh_captureByMs (with_message m s) = sh_captureByMs s"
  "sh_reason (with_message m s) = sh_reason s"
  by (simp_all add: with_message_def split: option.split)

lemma capture_sends:
  assumes "truthy (sh_providerObjectId s)" "\<not> reached (sh_captureByMs s) now"
    "\<not> savesByRetention e" "e_hasSnapshot e"
  shows "(FxSnapshot (the (sh_providerObjectId s)) (nullish (sh_reason s) []) (the (sh_captureByMs s)),
          w_store (capture e now s w)) \<in> set (w_log (capture e now s w))"
  using assms by (simp add: capture_def emit_def Let_def)

lemma demo_captures:
  "\<exists>w. fst (requestShutdown demo_env 1000 ''op'' ''cp'' ''fatal_runtime_error'' Emergency demo_world)
     = capture demo_env 1000
         (with_message None (claimed_record True False ''fatal_runtime_error'' ''op'' 1000 up_row None
            (legacyShutdownRecord up_row ''modal''))) w"
proof -
  have row: "getSandbox (w_sandbox demo_world) = Some up_row" "w_store demo_world = None"
    "truthy (sb_modal_sandbox_id up_row)" "sb_status up_row = Ready" "e_name demo_env = ''modal''"
    "getProcessingMessage (w_db demo_world) = None"
    by (simp_all add: demo_world_def new_session_def up_row_def booting_row_def getSandbox_def demo_env_def
          getProcessingMessage_def empty_db_def processing_row_def)
  then show ?thesis by (auto simp: requestShutdown_def Let_def claim_shutdown_def)
qed

lemma demo_claim:
  "sh_providerObjectId (claimed_record True False reason i 1000 up_row None b) = Some ''obj''"
  "sh_captureByMs (claimed_record True False reason i 1000 up_row None b) = Some 301000"
  "sh_reason (claimed_record True False reason i 1000 up_row None b) = Some reason"
  by (simp_all add: claimed_record_def shutdown_deadlines_def emergency_end_def up_row_def Let_def CAPTURE_MS_def)

lemma demo_asks_snapshot:
  "(FxSnapshot ''obj'' ''fatal_runtime_error'' 301000, w_store
      (fst (requestShutdown demo_env 1000 ''op'' ''cp'' ''fatal_runtime_error'' Emergency demo_world)))
   \<in> set (w_log (fst (requestShutdown demo_env 1000 ''op'' ''cp'' ''fatal_runtime_error'' Emergency demo_world)))"
  using demo_captures capture_sends [of "with_message None (claimed_record True False ''fatal_runtime_error''
      ''op'' 1000 up_row None (legacyShutdownRecord up_row ''modal''))" 1000 demo_env]
  by (auto simp: reached_def savesByRetention_def demo_env_def demo_claim)



end
