(* ===== verification/Shutdown_Theorems.thy ===== *)
theory Shutdown_Theorems
  imports Shutdown_Safety
begin

text \<open>
  What the shutdown coordinator promises its callers: the meaning of an admission, what a save
  that failed leaves behind, that unattended saves run out, and what a start-up may do with a
  session whose work is saved.
\<close>

section \<open>Normalisation and the record's provider\<close>

lemma normalize_settled:
  assumes "w_store w = Some s" and "sh_phase s \<noteq> PhRestoring" and "sh_phase s \<noteq> PhRunning"
  shows "normalizeInterruptedRestore e now w = (w, Some s)"
  using assms by (simp add: normalizeInterruptedRestore_def)

lemma normalize_record:
  assumes "w_store w = Some s"
  obtains w1 r where "normalizeInterruptedRestore e now w = (w1, Some r)"
proof -
  have "snd (normalizeInterruptedRestore e now w) \<noteq> None"
    using assms by (simp add: normalizeInterruptedRestore_def Let_def)
  then show thesis using that by (cases "normalizeInterruptedRestore e now w") auto
qed

lemma normalize_phase:
  assumes "normalizeInterruptedRestore e now w = (w', Some s)" and "sh_phase s \<noteq> PhUnknown"
  shows "w' = w \<and> w_store w = Some s"
  using assms by (auto simp: normalizeInterruptedRestore_def Let_def split: option.splits if_splits)

section \<open>Admission\<close>

text \<open>
  C23. A prompt is only admitted to a runtime the coordinator vouches for. When the admission
  is ready, nothing was written, and the stored record is the running record of the session's
  current generation on the configured provider, with no restore in doubt, no reported fatal
  failure and no checkpoint in flight; under the confirmed policy its lifetime is established,
  the runtime completed the handshake for that generation, and the drain deadline is ahead.
\<close>

theorem admission_vouches_for_the_runtime:
  assumes "admissionDecision e now i j w = (w', AReady)"
  shows "w' = w \<and> (\<exists>s. w_store w = Some s \<and> sh_phase s = PhRunning \<and> isCurrent s w
     \<and> \<not> sh_restoreInvoked s \<and> sh_runtimeFailure s = None \<and> \<not> sh_checkpointInFlight s
     \<and> (truthy (sh_provider s) \<longrightarrow> sh_provider s = Some (e_name e))
     \<and> (sh_lifecyclePolicy s \<noteq> Some Legacy \<longrightarrow>
          sh_lifetimeKind s \<noteq> UnknownLife \<and> sh_generationReady s \<and> \<not> reached (sh_drainAtMs s) now))"
proof -
  obtain w1 r where n: "normalizeInterruptedRestore e now w = (w1, Some r)"
    using assms by (cases "normalizeInterruptedRestore e now w"; cases "snd (normalizeInterruptedRestore e now w)")
      (auto simp: admissionDecision_def)
  obtain w2 ok where pm: "providerMatches e now r w1 = (w2, ok)" by fastforce
  have running: "sh_phase r = PhRunning" "isCurrent r w1" ok "w2 = w'"
      "\<not> sh_restoreInvoked r" "sh_runtimeFailure r = None" "\<not> sh_checkpointInFlight r"
    and confirmed: "sh_lifecyclePolicy r \<noteq> Some Legacy \<Longrightarrow>
          sh_lifetimeKind r \<noteq> UnknownLife \<and> sh_generationReady r \<and> \<not> reached (sh_drainAtMs r) now"
    using assms n pm by (cases "sh_runtimeFailure r"; auto simp: admissionDecision_def split: if_splits)+
  have same: "w1 = w" "w_store w = Some r" using normalize_phase [OF n] running by auto
  have "w2 = w1" "truthy (sh_provider r) \<longrightarrow> sh_provider r = Some (e_name e)"
    using pm running by (auto simp: providerMatches_def split: if_splits elim: truthyE)
  with same running confirmed show ?thesis by blast
qed

definition ready_world :: shutdown_world where
  "ready_world = demo_world\<lparr>w_store := Some (legacyShutdownRecord up_row ''modal'')\<rparr>"

theorem admission_vouches_for_the_runtime_witness:
  "admissionDecision demo_env 1000 ''op'' ''cp'' ready_world = (ready_world, AReady)
   \<and> (\<exists>s. w_store ready_world = Some s \<and> sh_phase s = PhRunning)"
proof -
  have "admissionDecision demo_env 1000 ''op'' ''cp'' ready_world = (ready_world, AReady)"
    by (simp add: ready_world_def demo_world_def new_session_def legacyShutdownRecord_def base_record_def
        admissionDecision_def normalizeInterruptedRestore_def isCurrent_def getSandbox_def of_generation_def
        providerMatches_def demo_env_def up_row_def booting_row_def)
  then show ?thesis using admission_vouches_for_the_runtime by blast
qed

section \<open>A save that fails\<close>

definition failed_answer :: "capture_answer \<Rightarrow> bool" where
  "failed_answer a = (case a of CapturedImage img _ _ \<Rightarrow> img = [] | StopConfirmed \<Rightarrow> False | _ \<Rightarrow> True)"

lemma failed_capture_answer:
  assumes "failed_answer a"
  shows "capture_answered e now s retained a w
    = capture_failed e now s (if a = CaptureDeadline then SAVE_DEADLINE_ERROR else NOT_CONFIRMED_ERROR) w"
  using assms by (cases a) (auto simp: failed_answer_def capture_answered_def Let_def)

lemma fail_frame [simp]:
  "w_pending (fail e now s ph err b w) = w_pending w"
  "w_sandbox (fail e now s ph err b w) = w_sandbox w"
  "w_db (fail e now s ph err b w) = w_db w"
  by (simp_all add: fail_def)

lemma fail_store: "record_ok (failed_record ph err b s) \<Longrightarrow> w_store (fail e now s ph err b w) = Some (failed_record ph err b s)"
  by (simp add: fail_def)

lemma failed_record_fields [simp]:
  "sh_receipt (failed_record ph err b s) = sh_receipt s"
  "sh_phase (failed_record ph err b s) = ph"
  "sh_captureFailure (failed_record ph err b s) = b"
  "sh_stopByMs (failed_record ph err b s) = sh_stopByMs s"
  "sh_captureByMs (failed_record ph err b s) = sh_captureByMs s"
  "sh_operationId (failed_record ph err b s) = sh_operationId s"
  "sh_generation (failed_record ph err b s) = sh_generation s"
  by (simp_all add: failed_record_def)


definition demo_saving :: shutdown_world where
  "demo_saving = fst (requestShutdown demo_env 1000 ''op'' ''cp'' ''fatal_runtime_error'' Emergency demo_world)"

lemma demo_saving_pending:
  "\<exists>s. PCapture s False \<in> set (w_pending demo_saving) \<and> w_store demo_saving = Some s \<and> sh_phase s = PhCapturing"
proof -
  let ?s = "with_message None (claimed_record True False ''fatal_runtime_error'' ''op'' 1000 up_row None
              (legacyShutdownRecord up_row ''modal''))"
  let ?c = "?s\<lparr>sh_phase := PhCapturing\<rparr>"
  obtain w where w: "demo_saving = capture demo_env 1000 ?s w"
    using demo_captures unfolding demo_saving_def by blast
  have go: "truthy (sh_providerObjectId ?s)" "\<not> reached (sh_captureByMs ?s) 1000"
    using demo_claim by (auto simp: reached_def)
  then have sent: "PCapture ?c False \<in> set (w_pending demo_saving)"
    unfolding w by (simp add: capture_def Let_def savesByRetention_def demo_env_def await_call_def)
  have "wok demo_saving" unfolding demo_saving_def by (rule reachable_wok [OF demo_shutdown_reachable])
  then have "record_ok ?c" using wok_answering(2) sent by force
  then have "w_store demo_saving = Some ?c"
    unfolding w using go by (simp add: capture_def Let_def savesByRetention_def demo_env_def)
  with sent show ?thesis by auto
qed


section \<open>Unattended saves run out\<close>

abbreviation held_phase :: "shutdown_record \<Rightarrow> bool" where
  "held_phase s \<equiv> sh_phase s = PhFailed \<or> sh_phase s = PhUnknown"

lemma store_write_store: "w_store (store_write s w) = (if record_ok s then Some s else w_store w)"
  by (simp add: store_write_def)

lemma publish_store: "w_store (publish e now s w) = (if record_ok s then Some s else w_store w)"
  by (simp add: publish_def store_write_store)

lemma fail_store_cases: "w_store (fail e now s ph err b w) \<in> {Some (failed_record ph err b s), w_store w}"
  by (simp add: fail_def publish_store)

lemma settle_failed_keeps_held:
  assumes "w_store w = Some s" and "held_phase s"
  shows "\<exists>r. w_store (fst (settleCheckpoint e now i s w)) = Some r \<and> held_phase r"
proof -
  have opened: "fst (openCheckpointOp e i s w) = w"
    using assms by (auto simp: openCheckpointOp_def split: option.split)
  have failing: "\<exists>r. w_store (fail e now t PhUnknown err b w) = Some r \<and> held_phase r" for t err b
    using fail_store_cases [of e now t PhUnknown err b w] assms by auto
  have matching: "\<exists>r. w_store (fst (providerMatches e now s w)) = Some r \<and> held_phase r"
    using failing assms by (simp add: providerMatches_def)
  show ?thesis
    using assms opened failing matching
    by (auto simp: settleCheckpoint_def Let_def publish_store split: prod.split)
qed

lemma capture_capturing:
  assumes "w_store (capture e now s w) = Some r" and "sh_phase r = PhCapturing"
    and "\<And>c. w_store w = Some c \<Longrightarrow> sh_phase c \<noteq> PhCapturing"
  shows "r = s\<lparr>sh_phase := PhCapturing\<rparr>"
proof -
  let ?c = "s\<lparr>sh_phase := PhCapturing\<rparr>"
  have sched: "w_store (scheduleCaptureRetry e now t v) = w_store v" for t v
    by (simp add: scheduleCaptureRetry_def)
  have failing: "w_store (capture_failed e now ?c err v) = Some r \<Longrightarrow> w_store v = Some r" for err v
    using assms(2) fail_store_cases [of e now ?c PhUnknown err True v]
    by (auto simp: capture_failed_def Let_def sched split: if_splits)
  show ?thesis
    using assms fail_store_cases [of e now s PhFailed "''No time or provider handle remained to save the sandbox.''" True w]
    by (auto simp: capture_def Let_def sched publish_store dest!: failing split: if_splits)
qed

text \<open>An alarm that saves again does it under a later deadline inside a fixed window.\<close>

lemma automatic_retry:
  assumes "w_store w = Some s" and "held_phase s"
    and "w_store (fst (handleAlarm e now i j b w)) = Some r" and "sh_phase r = PhCapturing"
    and "sh_stopByMs s = Some stop" and "sh_captureByMs s = Some c"
  shows "sh_stopByMs r = Some stop
    \<and> (\<exists>c'. sh_captureByMs r = Some c' \<and> c \<le> now \<and> now < stop + RETRY_WINDOW_MS \<and> now + MARGIN_MS < c')"
proof -
  let ?next = "s\<lparr>sh_error := None, sh_operationId := Some i,
                sh_captureByMs := Some (fst (emergencyWindow (Some s) now)),
                sh_retireByMs := Some (snd (emergencyWindow (Some s) now))\<rparr>"
  have settled: "normalizeInterruptedRestore e now w = (w, Some s)"
    using assms(1,2) by (intro normalize_settled) auto
  obtain r' where r': "w_store (fst (settleCheckpoint e now j s w)) = Some r'" "held_phase r'"
    using settle_failed_keeps_held [OF assms(1,2), of e now j] by blast
  have retry: "w_store (retryCapture e now i s w) = Some r" "reached (sh_captureByMs s) now"
    using assms(1-4) settled r' by (auto simp: handleAlarm_def split: if_splits)
  then have can: "canRetryShutdown e now s" "owns s w" "w_activeOperation w = None"
    and cap: "w_store (capture e now ?next (fenceRuntime w)) = Some r"
    using assms(1,2,4) by (auto simp: retryCapture_def split: if_splits)
  have "r = ?next\<lparr>sh_phase := PhCapturing\<rparr>"
    by (rule capture_capturing [OF cap assms(4)]) (use assms(1,2) in auto)
  with can retry(2) assms(5,6) show ?thesis
    by (auto simp: canRetryShutdown_def reached_def)
qed

text \<open>Alternating: the attempt \<open>t\<close> fails, and the next alarm saves again as \<open>r\<close>.\<close>

inductive unattended_saves :: "shutdown_env \<Rightarrow> nat \<Rightarrow> shutdown_record \<Rightarrow> shutdown_record \<Rightarrow> bool" for e where
  none_yet: "unattended_saves e 0 s s"
| again: "unattended_saves e n s t \<Longrightarrow> ph = PhFailed \<or> ph = PhUnknown
    \<Longrightarrow> w_store w = Some (failed_record ph err True t)
    \<Longrightarrow> w_store (fst (handleAlarm e now i j b w)) = Some r \<Longrightarrow> sh_phase r = PhCapturing
    \<Longrightarrow> unattended_saves e (Suc n) s r"

lemma unattended_saves_advance:
  assumes "unattended_saves e n s t" and "sh_stopByMs s = Some stop" and "sh_captureByMs s = Some c"
  shows "sh_stopByMs t = Some stop \<and> (\<exists>c'. sh_captureByMs t = Some c' \<and> c + int n * (MARGIN_MS + 1) \<le> c')
    \<and> (0 < n \<longrightarrow> c + (int n - 1) * (MARGIN_MS + 1) < stop + RETRY_WINDOW_MS)"
  using assms
proof (induction rule: unattended_saves.induct)
  case (again n s t ph w err now i j b r)
  let ?f = "failed_record ph err True t"
  from again.IH [OF again.prems] obtain c1 where t: "sh_stopByMs t = Some stop" "sh_captureByMs t = Some c1"
    "c + int n * (MARGIN_MS + 1) \<le> c1" by blast
  obtain c2 where r: "sh_stopByMs r = Some stop" "sh_captureByMs r = Some c2" "c1 \<le> now"
      "now < stop + RETRY_WINDOW_MS" "now + MARGIN_MS < c2"
    using automatic_retry [OF again.hyps(3) _ again.hyps(4,5)] again.hyps(2) t by auto
  have "c + int (Suc n) * (MARGIN_MS + 1) \<le> c2" using t(3) r(3,5) by (simp add: algebra_simps)
  moreover have "c + int n * (MARGIN_MS + 1) < stop + RETRY_WINDOW_MS" using t(3) r(3,4) by simp
  ultimately show ?case using r by simp
qed simp


text \<open>One such attempt: the save of the demonstration session failed, and the alarm comes at its
  capture deadline.\<close>

definition demo_attempt :: shutdown_record where
  "demo_attempt = claimed_record True False ''crash'' ''op'' 1000 up_row None (legacyShutdownRecord up_row ''modal'')"

definition demo_failed :: shutdown_world where
  "demo_failed = demo_world\<lparr>w_store := Some (failed_record PhUnknown NOT_CONFIRMED_ERROR True demo_attempt)\<rparr>"

lemma demo_attempt_fields:
  "sh_stopByMs demo_attempt = Some 1000" "sh_captureByMs demo_attempt = Some 301000"
  "sh_expiresAtMs demo_attempt = None" "sh_receipt demo_attempt = None" "sh_provider demo_attempt = Some ''modal''"
  "sh_providerObjectId demo_attempt = Some ''obj''" "\<not> sh_checkpointInFlight demo_attempt"
  "\<not> sh_sourceRetired demo_attempt" "sh_discarding demo_attempt = None" "\<not> sh_restoreInvoked demo_attempt"
  "sh_generation demo_attempt = \<lparr>g_sandboxId = Some ''sb-2'', g_createdAt = 20\<rparr>"
  "sh_captureOp demo_attempt = None" "sh_lifetimeKind demo_attempt = UnknownLife"
  by (simp_all add: demo_attempt_def claimed_record_def shutdown_deadlines_def emergency_end_def up_row_def
      Let_def CAPTURE_MS_def legacyShutdownRecord_def base_record_def booting_row_def)

lemma demo_alarm_saves_again:
  "\<exists>r. w_store (fst (handleAlarm demo_env 301000 ''op2'' ''cp'' True demo_failed)) = Some r \<and> sh_phase r = PhCapturing"
proof -
  let ?f = "failed_record PhUnknown NOT_CONFIRMED_ERROR True demo_attempt"
  let ?next = "?f\<lparr>sh_error := None, sh_operationId := Some ''op2'',
                sh_captureByMs := Some (fst (emergencyWindow (Some ?f) 301000)),
                sh_retireByMs := Some (snd (emergencyWindow (Some ?f) 301000))\<rparr>"
  have store: "w_store demo_failed = Some ?f" "w_activeOperation demo_failed = None"
    by (simp_all add: demo_failed_def demo_world_def new_session_def)
  have current: "isCurrent ?f demo_failed"
    by (simp add: isCurrent_def demo_failed_def demo_world_def new_session_def getSandbox_def of_generation_def
        demo_attempt_fields up_row_def booting_row_def)
  have unchanged: "sh_expiresAtMs ?f = None" "sh_providerObjectId ?f = Some ''obj''" "sh_provider ?f = Some ''modal''"
    "\<not> sh_checkpointInFlight ?f" "\<not> sh_sourceRetired ?f" "sh_discarding ?f = None" "\<not> sh_restoreInvoked ?f"
    "sh_captureOp ?f = None" "sh_lifetimeKind ?f = UnknownLife"
    by (simp_all add: failed_record_def demo_attempt_fields)
  have window: "emergencyWindow (Some ?f) 301000 = (601000, 631000)"
    by (simp add: emergencyWindow_def Let_def emergency_end_def unchanged CAPTURE_MS_def RETIRE_MS_def MARGIN_MS_def)
  have can: "canRetryShutdown demo_env 301000 ?f" "canAutomaticallyRetryCapture demo_env 301000 demo_failed ?f"
    using current
    by (simp_all add: canAutomaticallyRetryCapture_def canRetryShutdown_def unchanged window demo_attempt_fields
        receiptCoversSource_def RETRY_WINDOW_MS_def MARGIN_MS_def canCapture_def demo_env_def)
  have "handleAlarm demo_env 301000 ''op2'' ''cp'' True demo_failed
      = (capture demo_env 301000 ?next (fenceRuntime demo_failed), True)"
    using store can current
    by (simp add: handleAlarm_def normalize_settled unchanged reached_def demo_attempt_fields retryCapture_def owns_def)
  moreover have "w_store (capture demo_env 301000 ?next (fenceRuntime demo_failed)) = Some (?next\<lparr>sh_phase := PhCapturing\<rparr>)"
  proof -
    have "record_ok (?next\<lparr>sh_phase := PhCapturing\<rparr>)"
      by (simp add: record_ok_split deadlines_ok_def unchanged demo_attempt_fields base_ok_def)
    then show ?thesis
      by (simp add: capture_def unchanged reached_def window Let_def savesByRetention_def demo_env_def publish_store)
  qed
  ultimately show ?thesis by simp
qed


section \<open>Start-up of a session whose work is saved\<close>

text \<open>This instance is itself in the middle of the restore it invoked.\<close>

definition restoring_here :: "shutdown_record \<Rightarrow> shutdown_world \<Rightarrow> bool" where
  "restoring_here s w \<longleftrightarrow> sh_phase s = PhRestoring \<and> sh_restoreInvoked s
     \<and> w_activeRestoreGeneration w = Some (sh_generation s)"

lemma startup_normal:
  assumes "wok w" and "w_store w = Some s" and "startupDecision e now w = (w', StartNormal)"
  shows "(sh_phase s = PhRunning \<and> \<not> sh_checkpointInFlight s) \<or> restoring_here s w"
proof -
  have ok: "phase_ok (sh_phase s) s" using wokD [OF assms(1,2)] by (rule record_okD)
  obtain w1 r where n: "normalizeInterruptedRestore e now w = (w1, Some r)"
    by (rule normalize_record [OF assms(2)])
  have holding: "isHolding e now w1 = (w1, if sh_phase r = PhRestoring
                  \<and> (\<not> sh_restoreInvoked r \<or> (some_holds (\<lambda>g. matches r g) (w_activeRestoreGeneration w1)))
               then False
               else sh_checkpointInFlight r \<or> (sh_phase r = PhSaved \<and> continuationPaused r)
                    \<or> (sh_phase r \<noteq> PhRunning \<and> sh_phase r \<noteq> PhSaved))" if "w1 = w" "r = s"
    using n that by (simp add: isHolding_def)
  show ?thesis
  proof (cases "sh_phase r = PhUnknown")
    case True
    have "snd (isHolding e now w1)"
    proof -
      have "w_store w1 = Some r" using normalize_cases(2) [OF assms(1) n] .
      then have "normalizeInterruptedRestore e now w1 = (w1, Some r)" using True by (simp add: normalizeInterruptedRestore_def)
      then show ?thesis using True by (simp add: isHolding_def)
    qed
    then have False using assms(3) n True
      by (auto simp: startupDecision_def Let_def split: if_splits prod.splits)
    then show ?thesis ..
  next
    case False
    from normalize_phase [OF n False] assms(2) have same: "w1 = w" "r = s" by auto
    then show ?thesis
      using assms(3) n ok holding [OF same]
      by (auto simp: startupDecision_def Let_def restoring_here_def matches_def split: if_splits option.splits receipt_kind.splits)
  qed
qed

lemma startup_receipt:
  assumes "startupDecision e now w = (w', d)" and "d = StartRestoreSnapshot a v \<or> d = StartResumeRetained a v"
  shows "\<exists>s rp. w_store w = Some s \<and> isCurrent s w \<and> sh_phase s \<in> {PhSaved, PhRestoring} \<and> \<not> restoring_here s w
    \<and> sh_receipt s = Some rp \<and> rp_provider rp = e_name e \<and> rp_artifactId rp = a \<and> rp_runtimeVersion rp = v
    \<and> (rp_kind rp = SnapshotReceipt \<longleftrightarrow> d = StartRestoreSnapshot a v)"
proof -
  obtain w1 r where n: "normalizeInterruptedRestore e now w = (w1, Some r)"
    using assms by (cases "normalizeInterruptedRestore e now w"; cases "snd (normalizeInterruptedRestore e now w)")
      (auto simp: startupDecision_def)
  have r: "isCurrent r w1" "\<not> recordedOnOtherProvider e r" "sh_phase r \<in> {PhSaved, PhRestoring}"
      "sh_phase r = PhRestoring \<Longrightarrow> \<not> sh_restoreInvoked r"
      "\<exists>rp. sh_receipt r = Some rp \<and> rp_artifactId rp = a \<and> rp_runtimeVersion rp = v
         \<and> (rp_kind rp = SnapshotReceipt \<longleftrightarrow> d = StartRestoreSnapshot a v)"
    using assms n by (auto simp: startupDecision_def Let_def split: if_splits option.splits prod.splits)
  have "w1 = w \<and> w_store w = Some r" using normalize_phase [OF n] r(3) by auto
  with r show ?thesis by (auto simp: restoring_here_def recordedOnOtherProvider_def)
qed

end
