(* ===== verification/Prompt_Lifecycle.thy ===== *)
theory Prompt_Lifecycle
  imports Message_Store
begin

text \<open>
  What the prompt table guarantees over whole histories: settled prompts stay settled, cost
  reports are idempotent, automatic feedback is bounded, and the queue's positions are real.
\<close>

section \<open>Terminal prompts\<close>

definition settled_as :: "message_row \<Rightarrow> message_row \<Rightarrow> bool" where
  "settled_as m m' \<longleftrightarrow> mg_id m' = mg_id m \<and> mg_status m' = mg_status m
     \<and> mg_completedAt m' = mg_completedAt m \<and> mg_errorMessage m' = mg_errorMessage m"

lemma settled_as_refl [simp]: "settled_as m m"
  by (simp add: settled_as_def)

lemma settled_update:
  assumes "m \<in> set t" and "\<And>x. x \<in> set t \<Longrightarrow> p x \<Longrightarrow> mg_id x = mg_id m \<Longrightarrow> settled_as x (f x)"
  shows "\<exists>m' \<in> set (sql_update p f t). settled_as m m'"
proof -
  have "(if p m then f m else m) \<in> set (sql_update p f t)"
    using assms(1) by (simp add: sql_update_def)
  moreover have "settled_as m (if p m then f m else m)" using assms by simp
  ultimately show ?thesis by blast
qed

lemma on_message_settled:
  assumes "m \<in> set (db_messages db)" and "\<And>x. settled_as x (f x)"
  shows "\<exists>m' \<in> set (db_messages (on_message i f db)). settled_as m m'"
  unfolding on_message_def using settled_update [OF assms(1)] assms(2) by simp

lemma createMessage_keeps:
  "createMessage d db = Some db' \<Longrightarrow> m \<in> set (db_messages db) \<Longrightarrow> m \<in> set (db_messages db')"
  by (auto simp: createMessage_def split: if_splits)

lemma createMessageWithAttachments_keeps:
  assumes "createMessageWithAttachments d ids e db = Some db'" and "m \<in> set (db_messages db)"
  shows "m \<in> set (db_messages db')"
  using assms
  by (auto simp: createMessageWithAttachments_def createMessage_def split: option.splits if_splits)

lemma message_with_unique:
  assumes "distinct (map mg_id t)" and "m \<in> set t"
  shows "message_with (mg_id m) t = Some m"
  unfolding message_with_def
  using assms by (induction t) auto

lemma terminal_settled:
  assumes "messages_ok db" and "m \<in> set (db_messages db)" and "is_terminal m"
  shows "\<exists>m' \<in> set (db_messages (apply_message_op op db)). settled_as m m'"
proof -
  have here: "\<exists>m' \<in> set (db_messages db). settled_as m m'" using assms(2) by (blast intro: settled_as_refl)
  have running: "mg_status m \<noteq> MPending" "mg_status m \<noteq> MProcessing"
    using assms(3) by (auto simp: is_terminal_def)
  show ?thesis
  proof (cases op)
    case (OpQueue d ids e)
    show ?thesis
    proof (cases "createMessageWithAttachments (d\<lparr>cm_status := MPending\<rparr>) ids e db")
      case (Some db')
      with createMessageWithAttachments_keeps [OF Some assms(2)] OpQueue show ?thesis
        by (auto intro: settled_as_refl)
    qed (use here OpQueue in simp)
  next
    case (OpAdmit d)
    let ?d = "d\<lparr>aa_message := (aa_message d)\<lparr>cm_status := MPending\<rparr>\<rparr>"
    show ?thesis
    proof (cases "admitAutofixMessage ?d db")
      case (Some r)
      with admitAutofixMessage_cases [of ?d db "fst r" "snd r"] here OpAdmit
        createMessage_keeps [OF _ assms(2)]
      show ?thesis by (auto intro: settled_as_refl)
    qed (use here OpAdmit in simp)
  next
    case (OpCancel i)
    have "m \<in> set (db_messages (fst (cancelPendingMessage i db)))"
      using assms(2) running by (auto simp: cancelPendingMessage_def Let_def split: option.splits)
    with OpCancel show ?thesis by (auto intro: settled_as_refl)
  next
    case (OpStart i ts e)
    show ?thesis
    proof (cases "startMessageProcessing i ts e db")
      case (Some r)
      have "m \<in> set (db_messages (fst r))"
        using Some assms(2) running
        by (auto simp: startMessageProcessing_def Let_def set_sql_update split: if_splits)
      with OpStart Some show ?thesis by (auto intro: settled_as_refl)
    qed (use here OpStart in simp)
  next
    case (OpRequeue i)
    have "m \<in> set (db_messages (updateMessageToPending i db))"
      using assms(2) running
      by (auto simp: updateMessageToPending_def Let_def set_sql_update)
    with OpRequeue show ?thesis by (auto intro: settled_as_refl)
  next
    case (OpComplete e ts r)
    have "m \<in> set (db_messages (fst (recordMessageCompletion e ts (if r then MProcessing else MPending) db)))"
    proof (cases "ce_messageId e = mg_id m")
      case True
      have "message_with (mg_id m) (db_messages db) = Some m"
        by (rule message_with_unique) (use assms in \<open>auto simp: messages_ok_def\<close>)
      with True running assms(2) show ?thesis
        by (cases r) (simp_all add: recordMessageCompletion_def)
    next
      case False
      have "m \<in> set (db_messages (on_message (ce_messageId e) f db))" for f
        unfolding on_message_def using assms(2) False by (simp add: sql_update_other)
      with assms(2) show ?thesis
        by (simp add: recordMessageCompletion_def Let_def split: option.split)
    qed
    with OpComplete show ?thesis by (auto intro: settled_as_refl)
  next
    case (OpCost i c)
    have "\<exists>m' \<in> set (db_messages (on_message i (mg_reportedCostUsd_update (\<lambda>_. x)) db)). settled_as m m'" for x
      by (rule on_message_settled [OF assms(2)]) (simp add: settled_as_def)
    with here OpCost show ?thesis
      by (simp add: raiseReportedCost_def split: option.split)
  qed (use on_message_settled [OF assms(2), where f = "mg_stopDeadline_update g" for g] in
      \<open>simp_all add: markMessageAwaitingStopConfirmation_def
        clearMessageAwaitingStopConfirmation_def settled_as_def\<close>)
qed

text \<open>
  C1. A settled prompt stays settled: once a message is completed or failed, no later claim,
  requeue, cancellation, completion (a late report of the sandbox, a stop, a timeout) or any
  other write changes its status, its completion time or its error.
\<close>

theorem terminal_prompts_stay_settled:
  assumes "messages_ok db" and "m \<in> set (db_messages db)" and "is_terminal m"
  shows "\<exists>m' \<in> set (db_messages (foldl (\<lambda>db op. apply_message_op op db) db ops)). settled_as m m'"
  using assms
proof (induction ops arbitrary: db m)
  case (Cons op ops)
  obtain m1 where m1: "m1 \<in> set (db_messages (apply_message_op op db))" "settled_as m m1"
    using terminal_settled [OF Cons.prems] by blast
  then have "is_terminal m1" using Cons.prems(3) by (auto simp: settled_as_def is_terminal_def)
  from Cons.IH [OF messages_ok_op [OF Cons.prems(1)] m1(1) this] m1(2) show ?case
    by (auto simp: settled_as_def)
qed (auto intro: settled_as_refl)


definition demo_done :: session_db where
  "demo_done = apply_message_op (OpComplete
     \<lparr>ce_messageId = ''a'', ce_success = False, ce_error = Some ''stopped'', ce_json = ''{}''\<rparr> 9 False)
     (apply_message_op (OpQueue (demo_create ''a'' 1) [] None) empty_db)"

theorem terminal_prompts_stay_settled_witness:
  "\<exists>m' \<in> set (db_messages (foldl (\<lambda>db op. apply_message_op op db) demo_done
      [OpStart ''a'' 10 ''{}'', OpRequeue ''a'', OpCancel ''a'', OpComplete
        \<lparr>ce_messageId = ''a'', ce_success = True, ce_error = None, ce_json = ''{}''\<rparr> 11 True])).
     mg_status m' = MFailed \<and> mg_errorMessage m' = Some ''stopped''"
proof -
  let ?m = "(message_of (demo_create ''a'' 1))\<lparr>mg_status := MFailed, mg_completedAt := Some 9,
      mg_errorMessage := Some ''stopped''\<rparr>"
  have ok: "messages_ok demo_done"
    unfolding demo_done_def by (intro messages_ok_op empty_db_ok)
  have "?m \<in> set (db_messages demo_done)"
    by (simp add: demo_done_def createMessageWithAttachments_def claimForMessage_def
        createMessage_def violates_key_def empty_db_def message_of_def demo_create_def
        recordMessageCompletion_def message_with_def on_message_def Let_def)
  moreover have "is_terminal ?m" by (simp add: is_terminal_def)
  ultimately have "\<exists>m' \<in> set (db_messages (foldl (\<lambda>db op. apply_message_op op db) demo_done ops)).
      settled_as ?m m'" for ops
    by (rule terminal_prompts_stay_settled [OF ok])
  moreover have "mg_status ?m = MFailed" "mg_errorMessage ?m = Some ''stopped''" by simp_all
  ultimately show ?thesis unfolding settled_as_def by metis
qed

section \<open>Reported cost\<close>

text \<open>A run of cost reports for one message and the amounts they add to the session total.\<close>

fun report_all :: "string \<Rightarrow> rat option list \<Rightarrow> session_db \<Rightarrow> session_db \<times> rat list" where
  "report_all i [] db = (db, [])"
| "report_all i (c # cs) db =
     (let (db1, delta) = raiseReportedCost i c db; (db2, deltas) = report_all i cs db1 in
      (db2, delta # deltas))"

definition highest_report :: "rat \<Rightarrow> rat option list \<Rightarrow> rat" where
  "highest_report r cs = foldl (\<lambda>a c. case c of None \<Rightarrow> a | Some x \<Rightarrow> max a x) r cs"

lemma message_with_on_message:
  assumes "message_with i (db_messages db) = Some m" and "\<And>m. mg_id (f m) = mg_id m"
  shows "message_with i (db_messages (on_message i f db)) = Some (f m)"
proof -
  have "mg_id m = i" using find_SomeD [OF assms(1) [unfolded message_with_def]] by simp
  with assms show ?thesis by (simp add: message_with_def on_message_def find_sql_update)
qed

lemma raiseReportedCost_step:
  assumes "message_with i (db_messages db) = Some m" and "0 \<le> mg_reportedCostUsd m"
  obtains m' where "message_with i (db_messages (fst (raiseReportedCost i c db))) = Some m'"
    and "mg_reportedCostUsd m' = highest_report (mg_reportedCostUsd m) [c]"
    and "snd (raiseReportedCost i c db) = mg_reportedCostUsd m' - mg_reportedCostUsd m"
proof (cases "\<exists>x. c = Some x \<and> mg_reportedCostUsd m < x")
  case True
  then obtain x where "c = Some x" "mg_reportedCostUsd m < x" by blast
  with assms message_with_on_message [OF assms(1), of "\<lambda>m. m\<lparr>mg_reportedCostUsd := x\<rparr>"]
  show ?thesis
    by (intro that [of "m\<lparr>mg_reportedCostUsd := x\<rparr>"])
      (simp_all add: raiseReportedCost_def highest_report_def)
next
  case False
  then have "raiseReportedCost i c db = (db, 0)"
    using assms by (auto simp: raiseReportedCost_def split: option.splits)
  with assms False show ?thesis
    by (intro that [of m]) (auto simp: highest_report_def split: option.splits)
qed

text \<open>
  Cost reporting is idempotent by construction: whatever reports of one turn arrive, in
  whatever order and however often they are resent, the amounts added to the session total
  sum to the growth of the stored value, which ends at the highest finite report; a report
  that is lost is made up for by any later one.
\<close>

theorem reported_cost_telescopes:
  assumes "message_with i (db_messages db) = Some m" and "0 \<le> mg_reportedCostUsd m"
  shows "sum_list (snd (report_all i cs db))
      = highest_report (mg_reportedCostUsd m) cs - mg_reportedCostUsd m
    \<and> map_option mg_reportedCostUsd (message_with i (db_messages (fst (report_all i cs db))))
      = Some (highest_report (mg_reportedCostUsd m) cs)"
  using assms
proof (induction cs arbitrary: db m)
  case Nil
  then show ?case by (simp add: highest_report_def)
next
  case (Cons c cs)
  obtain m' where m': "message_with i (db_messages (fst (raiseReportedCost i c db))) = Some m'"
    "mg_reportedCostUsd m' = highest_report (mg_reportedCostUsd m) [c]"
    "snd (raiseReportedCost i c db) = mg_reportedCostUsd m' - mg_reportedCostUsd m"
    using Cons.prems by (rule raiseReportedCost_step)
  have "mg_reportedCostUsd m \<le> mg_reportedCostUsd m'"
    using m'(2) by (simp add: highest_report_def split: option.splits)
  with Cons.prems(2) have "0 \<le> mg_reportedCostUsd m'" by simp
  from Cons.IH [OF m'(1) this] m'(2,3) show ?case
    by (simp add: case_prod_unfold Let_def highest_report_def)
qed

theorem reported_cost_telescopes_witness:
  "let db = empty_db\<lparr>db_messages := [message_of (demo_create ''a'' 1)]\<rparr> in
   sum_list (snd (report_all ''a'' [Some 2, None, Some 1, Some 5, Some 5] db)) = 5"
proof -
  let ?m = "message_of (demo_create ''a'' 1)"
  have "message_with ''a'' (db_messages (empty_db\<lparr>db_messages := [?m]\<rparr>)) = Some ?m"
    by (simp add: message_with_def message_of_def demo_create_def)
  from reported_cost_telescopes [OF this, where cs = "[Some 2, None, Some 1, Some 5, Some 5]"]
  show ?thesis by (simp add: message_of_def highest_report_def Let_def)
qed

section \<open>Autofix admission\<close>

definition autofix_attempts :: "string \<Rightarrow> ms \<Rightarrow> session_db \<Rightarrow> nat" where
  "autofix_attempts pr start db =
     sql_count (\<lambda>m. mg_autofixPrKey m = Some pr \<and> start \<le> mg_createdAt m) (db_messages db)"

definition admit :: "admit_autofix \<Rightarrow> session_db \<Rightarrow> session_db" where
  "admit d db = (case admitAutofixMessage d db of None \<Rightarrow> db | Some (db', _) \<Rightarrow> db')"

lemma admit_bounds:
  assumes "aa_attemptLimit d = Some limit" and "aa_pullRequestKey d = pr" and "aa_windowStart d = start"
  shows "autofix_attempts pr start (admit d db) \<le> max (autofix_attempts pr start db) limit
    \<and> getPendingOrProcessingCount (admit d db) \<le> max (getPendingOrProcessingCount db) MAX_UNFINISHED_PROMPTS"
  using assms
  by (auto simp: admit_def admitAutofixMessage_def createMessage_def autofix_attempts_def
      getPendingOrProcessingCount_def max_def split: option.splits if_splits)

text \<open>
  Automatic review feedback cannot flood a session: for one pull request with a rolling
  attempt limit, however many feedback items are offered and however often each is redelivered,
  the prompts admitted in the window never exceed the limit and the unfinished prompts never
  exceed the queue bound (or whatever was already there), and an item offered twice is stored
  at most once.
\<close>

theorem autofix_is_bounded:
  assumes "\<forall>d \<in> set ds. aa_attemptLimit d = Some limit \<and> aa_pullRequestKey d = pr \<and> aa_windowStart d = start"
  shows "autofix_attempts pr start (foldl (\<lambda>db d. admit d db) db ds)
      \<le> max (autofix_attempts pr start db) limit
    \<and> getPendingOrProcessingCount (foldl (\<lambda>db d. admit d db) db ds)
      \<le> max (getPendingOrProcessingCount db) MAX_UNFINISHED_PROMPTS
    \<and> (sql_count (\<lambda>m. mg_autofixFeedbackKey m = Some key) (db_messages db) \<le> 1 \<longrightarrow>
       sql_count (\<lambda>m. mg_autofixFeedbackKey m = Some key)
         (db_messages (foldl (\<lambda>db d. admit d db) db ds)) \<le> 1)"
  using assms
proof (induction ds arbitrary: db)
  case (Cons d ds)
  have once: "sql_count (\<lambda>m. mg_autofixFeedbackKey m = Some key) (db_messages (admit d db)) \<le> 1"
    if "sql_count (\<lambda>m. mg_autofixFeedbackKey m = Some key) (db_messages db) \<le> 1"
  proof (cases "admitAutofixMessage d db")
    case (Some r)
    with admitAutofixMessage_cases [of d db "fst r" "snd r"] consider
      "fst r = db" | m where "createMessage m db = Some (fst r)" by auto
    then show ?thesis
    proof cases
      case 2
      then have "\<not> violates_key (message_of m) (db_messages db)"
        and db': "db_messages (fst r) = db_messages db @ [message_of m]"
        by (auto simp: createMessage_def split: if_splits dest!: sym [of _ "fst r"])
      then have "mg_autofixFeedbackKey (message_of m) = Some key \<Longrightarrow>
          sql_count (\<lambda>m. mg_autofixFeedbackKey m = Some key) (db_messages db) = 0"
        by (auto simp: violates_key_def sql_count_zero)
      with Some db' that show ?thesis by (auto simp: admit_def case_prod_unfold)
    qed (use Some that in \<open>simp add: admit_def case_prod_unfold\<close>)
  qed (use that in \<open>simp add: admit_def\<close>)
  have "autofix_attempts pr start (admit d db) \<le> max (autofix_attempts pr start db) limit"
    "getPendingOrProcessingCount (admit d db) \<le> max (getPendingOrProcessingCount db) MAX_UNFINISHED_PROMPTS"
    using admit_bounds [of d limit pr start db] Cons.prems by auto
  with Cons.IH [of "admit d db"] Cons.prems once show ?case by auto
qed simp

definition demo_admit :: "string \<Rightarrow> admit_autofix" where
  "demo_admit key = \<lparr>aa_message = demo_create key 10, aa_feedbackKey = key,
     aa_pullRequestKey = ''pr'', aa_originContext = ''{}'', aa_attemptLimit = Some 2,
     aa_windowStart = 0, aa_sessionClosed = False\<rparr>"

theorem autofix_is_bounded_witness:
  "autofix_attempts ''pr'' 0
     (foldl (\<lambda>db d. admit d db) empty_db (map demo_admit [''f1'', ''f2'', ''f1'', ''f3''])) \<le> 2"
proof -
  have "\<forall>d \<in> set (map demo_admit [''f1'', ''f2'', ''f1'', ''f3'']).
      aa_attemptLimit d = Some 2 \<and> aa_pullRequestKey d = ''pr'' \<and> aa_windowStart d = 0"
    by (simp add: demo_admit_def)
  from autofix_is_bounded [OF this, where db = empty_db]
  show ?thesis by (simp add: autofix_attempts_def empty_db_def)
qed

section \<open>The prompt queue\<close>

lemma index_of_nth:
  assumes "index_of x xs = Some n"
  shows "n < length xs \<and> xs ! n = x"
  using assms by (induction xs arbitrary: n) (auto split: if_splits)

lemma index_of_mem: "(\<exists>n. index_of x xs = Some n) \<longleftrightarrow> x \<in> set xs"
  by (induction xs) auto

lemma sort_key_head:
  assumes "m \<in> set t" and "\<And>x. x \<in> set t \<Longrightarrow> x \<noteq> m \<Longrightarrow> k m < k x"
  shows "\<exists>rest. sort_key k t = m # rest"
proof (cases "sort_key k t")
  case Nil
  with assms(1) show ?thesis by (metis empty_iff list.set(1) set_sort)
next
  case (Cons y rest)
  then have "y \<in> set t" by (metis list.set_intros(1) set_sort)
  have "sorted (map k (y # rest))" using sorted_sort_key [of k t] Cons by simp
  moreover have "m \<in> set (y # rest)" using assms(1) Cons by (metis set_sort)
  ultimately have "k y \<le> k m" by auto
  with assms(2) [OF \<open>y \<in> set t\<close>] have "y = m" by force
  with Cons show ?thesis by simp
qed

lemma only_one_processing:
  assumes "messages_ok db" and "x \<in> set (db_messages db)" and "y \<in> set (db_messages db)"
    and "is_processing x" and "is_processing y"
  shows "x = y"
proof -
  have "length (filter is_processing (db_messages db)) \<le> 1"
    using assms(1) by (simp add: messages_ok_def sql_count_def)
  moreover have "x \<in> set (filter is_processing (db_messages db))"
    "y \<in> set (filter is_processing (db_messages db))" using assms(2-5) by auto
  ultimately show ?thesis
    by (cases "filter is_processing (db_messages db)") auto
qed

text \<open>
  The queue position a client is told is real: an unfinished prompt has exactly one
  position, no two prompts share one, the prompt being processed is always first, and the
  prompt dispatched next is the oldest pending one.
\<close>

theorem queue_positions:
  assumes "messages_ok db"
  shows "((\<exists>n. getUnfinishedMessagePosition i db = Some n)
        = (\<exists>m \<in> set (db_messages db). mg_id m = i \<and> is_unfinished m))
    \<and> (getUnfinishedMessagePosition i db = Some n \<longrightarrow>
         getUnfinishedMessagePosition j db = Some n \<longrightarrow> i = j)
    \<and> (getProcessingMessage db = Some i \<longrightarrow> getUnfinishedMessagePosition i db = Some 1)
    \<and> (getNextPendingMessage db = Some m \<longrightarrow> mg_status m = MPending
        \<and> (\<forall>x \<in> set (db_messages db). mg_status x = MPending \<longrightarrow> mg_createdAt m \<le> mg_createdAt x))"
proof (intro conjI impI)
  let ?L = "listUnfinishedMessages db"
  have set_L: "set ?L = {m \<in> set (db_messages db). is_unfinished m}"
    by (auto simp: listUnfinishedMessages_def)
  have "(\<exists>n. getUnfinishedMessagePosition i db = Some n) = (i \<in> set (map mg_id ?L))"
    using index_of_mem [of i "map mg_id ?L"] by (auto simp: getUnfinishedMessagePosition_def)
  with set_L show "(\<exists>n. getUnfinishedMessagePosition i db = Some n)
      = (\<exists>m \<in> set (db_messages db). mg_id m = i \<and> is_unfinished m)"
    by auto
  show "i = j" if "getUnfinishedMessagePosition i db = Some n" "getUnfinishedMessagePosition j db = Some n"
    using that index_of_nth [of i "map mg_id ?L"] index_of_nth [of j "map mg_id ?L"]
    by (auto simp: getUnfinishedMessagePosition_def)
  show "getUnfinishedMessagePosition i db = Some 1" if "getProcessingMessage db = Some i"
  proof -
    from that obtain p where p: "processing_row db = Some p" "mg_id p = i"
      by (auto simp: getProcessingMessage_def)
    then have mem: "p \<in> set (db_messages db)" "mg_status p = MProcessing"
      using find_SomeD [of "\<lambda>m. mg_status m = MProcessing"] by (auto simp: processing_row_def)
    have "queue_rank p < queue_rank x" if "x \<in> set (filter is_unfinished (db_messages db))" "x \<noteq> p" for x
      using that mem only_one_processing [OF assms, of p x]
      by (auto simp: queue_rank_def less_prod_def is_processing_def)
    with mem obtain rest where "?L = p # rest"
      unfolding listUnfinishedMessages_def
      using sort_key_head [of p "filter is_unfinished (db_messages db)" queue_rank]
      by (auto simp: is_unfinished_def)
    with p show ?thesis by (simp add: getUnfinishedMessagePosition_def)
  qed
  assume "getNextPendingMessage db = Some m"
  note next_ = first_by_SomeD [OF this [unfolded getNextPendingMessage_def]]
  from next_(1) show "mg_status m = MPending" by simp
  from next_(2) show "\<forall>x \<in> set (db_messages db). mg_status x = MPending \<longrightarrow> mg_createdAt m \<le> mg_createdAt x"
    by simp
qed

theorem queue_positions_witness:
  "messages_ok (apply_message_op (OpQueue (demo_create ''a'' 1) [] None) empty_db)
   \<and> (\<exists>n. getUnfinishedMessagePosition ''a''
        (apply_message_op (OpQueue (demo_create ''a'' 1) [] None) empty_db) = Some n)"
proof -
  let ?db = "apply_message_op (OpQueue (demo_create ''a'' 1) [] None) empty_db"
  have ok: "messages_ok ?db" by (rule messages_ok_op) (rule empty_db_ok)
  have "\<exists>m \<in> set (db_messages ?db). mg_id m = ''a'' \<and> is_unfinished m"
    by (simp add: createMessageWithAttachments_def claimForMessage_def createMessage_def
        violates_key_def empty_db_def message_of_def demo_create_def is_unfinished_def)
  with queue_positions [OF ok, where i = "''a''"] ok show ?thesis by simp
qed

end
