(* ===== verification/Prompt_Ledger.thy ===== *)
theory Prompt_Ledger
  imports Prompt_Lifecycle
begin

text \<open>
  An abstract specification of the prompt table, the ledger: which prompts exist, when each was
  queued and how far it got. The repository's statements refine its six moves, and the prompt the
  repository dispatches next is the ledger's oldest waiting one.
\<close>

type_synonym ledger = "string \<rightharpoonup> ms \<times> message_status"

definition ledger :: "session_db \<Rightarrow> ledger" where
  "ledger db = (\<lambda>i. map_option (\<lambda>m. (mg_createdAt m, mg_status m)) (message_with i (db_messages db)))"

definition idle :: "ledger \<Rightarrow> bool" where
  "idle L \<longleftrightarrow> (\<forall>i t. L i \<noteq> Some (t, MProcessing))"

inductive ledger_step :: "ledger \<Rightarrow> ledger \<Rightarrow> bool" where
  same: "ledger_step L L"
| queued: "L i = None \<Longrightarrow> ledger_step L (L(i \<mapsto> (t, MPending)))"
| withdrawn: "L i = Some (t, MPending) \<Longrightarrow> ledger_step L (L(i := None))"
| started: "L i = Some (t, MPending) \<Longrightarrow> idle L \<Longrightarrow> ledger_step L (L(i \<mapsto> (t, MProcessing)))"
| requeued: "L i = Some (t, MProcessing) \<Longrightarrow> ledger_step L (L(i \<mapsto> (t, MPending)))"
| settled: "L i = Some (t, s) \<Longrightarrow> s \<in> {MPending, MProcessing} \<Longrightarrow> s' \<in> {MCompleted, MFailed}
    \<Longrightarrow> ledger_step L (L(i \<mapsto> (t, s')))"

section \<open>What a statement does to the ledger\<close>

lemma message_with_mem:
  assumes "distinct (map mg_id t)"
  shows "message_with i t = Some m \<longleftrightarrow> m \<in> set t \<and> mg_id m = i"
proof
  show "m \<in> set t \<and> mg_id m = i" if "message_with i t = Some m"
    using that unfolding message_with_def by (auto dest: find_SomeD)
qed (use assms message_with_unique in blast)

lemma ledger_events [simp]: "ledger (db\<lparr>db_events := evs\<rparr>) = ledger db"
  by (simp add: ledger_def)

lemma ledger_attachments [simp]: "ledger (db\<lparr>db_attachments := att\<rparr>) = ledger db"
  by (simp add: ledger_def)

text \<open>Changing the rows a predicate selects changes their statuses and nothing else.\<close>

lemma ledger_update:
  assumes "\<And>m. mg_id (f m) = mg_id m" and "\<And>m. mg_createdAt (f m) = mg_createdAt m"
  shows "ledger (db\<lparr>db_messages := sql_update p f (db_messages db)\<rparr>)
    = (\<lambda>i. case message_with i (db_messages db) of
            None \<Rightarrow> None
          | Some m \<Rightarrow> Some (mg_createdAt m, mg_status (if p m then f m else m)))"
  using assms by (intro ext) (simp add: ledger_def message_with_def find_sql_update split: option.split)

lemma ledger_set_row:
  assumes "messages_ok db" and "m \<in> set (db_messages db)"
    and "\<And>x. mg_id (f x) = mg_id x" and "\<And>x. mg_createdAt (f x) = mg_createdAt x"
    and "\<And>x. x \<in> set (db_messages db) \<Longrightarrow> p x \<longleftrightarrow> mg_id x = mg_id m"
  shows "ledger (db\<lparr>db_messages := sql_update p f (db_messages db)\<rparr>)
    = (ledger db)(mg_id m \<mapsto> (mg_createdAt m, mg_status (f m)))"
proof
  fix i
  have distinct: "distinct (map mg_id (db_messages db))" using assms(1) by (simp add: messages_ok_def)
  show "ledger (db\<lparr>db_messages := sql_update p f (db_messages db)\<rparr>) i
      = ((ledger db)(mg_id m \<mapsto> (mg_createdAt m, mg_status (f m)))) i"
  proof (cases "message_with i (db_messages db)")
    case None
    then have "i \<noteq> mg_id m" using message_with_unique [OF distinct assms(2)] by auto
    with None show ?thesis by (simp add: ledger_update assms(3,4)) (simp add: ledger_def)
  next
    case (Some x)
    then have x: "x \<in> set (db_messages db)" "mg_id x = i" using message_with_mem [OF distinct] by auto
    have "x = m" if "mg_id x = mg_id m"
      using that distinct x(1) assms(2) by (auto simp: distinct_map inj_on_def)
    then have "((ledger db)(mg_id m \<mapsto> (mg_createdAt m, mg_status (f m)))) i
        = Some (mg_createdAt x, mg_status (if p x then f x else x))"
      using Some x assms(5) [OF x(1)] by (auto simp: ledger_def)
    with Some show ?thesis by (simp only: ledger_update [OF assms(3,4)] option.case)
  qed
qed

lemma ledger_on_message:
  assumes "\<And>m. mg_id (f m) = mg_id m" and "\<And>m. mg_createdAt (f m) = mg_createdAt m"
    and "\<And>m. mg_status (f m) = mg_status m"
  shows "ledger (on_message i f db) = ledger db"
  using assms by (simp add: on_message_def ledger_update) (simp add: ledger_def fun_eq_iff split: option.split)

lemma createMessage_ledger:
  assumes "createMessage d db = Some db'" and "cm_status d = MPending"
  shows "ledger_step (ledger db) (ledger db')"
proof -
  have new: "db' = db\<lparr>db_messages := db_messages db @ [message_of d]\<rparr>"
      "\<forall>x \<in> set (db_messages db). mg_id x \<noteq> cm_id d"
    using assms by (auto simp: createMessage_def violates_key_def message_of_def split: if_splits)
  then have "message_with (cm_id d) (db_messages db) = None"
    by (auto simp: message_with_def find_None_iff)
  then have fresh: "ledger db (cm_id d) = None" by (simp add: ledger_def)
  moreover have "ledger db' = (ledger db)(cm_id d \<mapsto> (cm_createdAt d, MPending))"
    using new fresh assms(2)
    by (auto simp: ledger_def message_with_def find_append message_of_def fun_eq_iff split: option.split)
  ultimately show ?thesis by (simp add: ledger_step.queued)
qed

lemma ledger_row: "messages_ok db \<Longrightarrow> m \<in> set (db_messages db) \<Longrightarrow> ledger db (mg_id m) = Some (mg_createdAt m, mg_status m)"
  using message_with_unique by (simp add: ledger_def messages_ok_def)

lemma ledger_waiting:
  assumes "messages_ok db" and "ledger db i = Some (t, s)"
  obtains m where "m \<in> set (db_messages db)" "mg_id m = i" "mg_createdAt m = t" "mg_status m = s"
  using assms message_with_mem [of "db_messages db"] by (auto simp: ledger_def messages_ok_def)

lemma idle_ledger:
  assumes "messages_ok db" and "sql_count (\<lambda>x. mg_status x = MProcessing) (db_messages db) = 0"
  shows "idle (ledger db)"
  using assms ledger_waiting [OF assms(1)] by (auto simp: idle_def sql_count_zero) blast

text \<open>The ledger's entry after the rows a predicate selects were changed to one status.\<close>

lemma ledger_move:
  assumes "messages_ok db" and "m \<in> set (db_messages db)" and "p m"
    and "\<And>x. p x \<Longrightarrow> mg_id x = mg_id m"
    and "\<And>x. mg_id (f x) = mg_id x" and "\<And>x. mg_createdAt (f x) = mg_createdAt x"
    and "\<And>x. mg_status (f x) = st"
  shows "ledger (db\<lparr>db_messages := sql_update p f (db_messages db)\<rparr>)
    = (ledger db)(mg_id m \<mapsto> (mg_createdAt m, st))"
proof -
  have "x = m" if "x \<in> set (db_messages db)" "mg_id x = mg_id m" for x
    using assms(1,2) that by (auto simp: messages_ok_def distinct_map inj_on_def)
  then have "p x \<longleftrightarrow> mg_id x = mg_id m" if "x \<in> set (db_messages db)" for x
    using assms(3,4) that by blast
  from ledger_set_row [OF assms(1,2,5,6) this] show ?thesis by (simp add: assms(7))
qed

lemma ledger_unmoved:
  assumes "\<And>x. x \<in> set (db_messages db) \<Longrightarrow> \<not> p x"
  shows "ledger (db\<lparr>db_messages := sql_update p f (db_messages db)\<rparr>) = ledger db"
proof -
  have "sql_update p f (db_messages db) = db_messages db"
    using assms by (intro sql_update_idle) (simp add: sql_count_zero)
  then show ?thesis by (simp add: ledger_def)
qed

lemma start_ledger:
  assumes "messages_ok db" and "startMessageProcessing i ts e db = Some (db', b)"
  shows "ledger_step (ledger db) (ledger db')"
proof -
  let ?p = "\<lambda>m. mg_id m = i \<and> mg_status m = MPending
      \<and> sql_count (\<lambda>x. mg_status x = MProcessing) (db_messages db) = 0"
  let ?f = "\<lambda>m. m\<lparr>mg_status := MProcessing, mg_startedAt := Some ts,
       mg_mcpRevision := mg_mcpRevision m + 1, mg_mcpContext := None, mg_mcpClosed := False\<rparr>"
  let ?d = "\<lparr>ed_id = user_message_event_id i, ed_type = ''user_message'', ed_data = e,
       ed_messageId = Some i, ed_createdAt = ts\<rparr>"
  show ?thesis
  proof (cases "sql_count ?p (db_messages db) = 1")
    case True
    then have "0 < sql_count ?p (db_messages db)" by linarith
    then have "\<exists>m \<in> set (db_messages db). ?p m" unfolding sql_count_pos .
    then obtain m where m: "m \<in> set (db_messages db)" "?p m" by blast
    from assms(2) True obtain evs where "createEvent ?d (db_events db) = Some evs"
      and db': "db' = db\<lparr>db_messages := sql_update ?p ?f (db_messages db), db_events := evs\<rparr>"
      by (auto simp: startMessageProcessing_def Let_def)
    have "ledger db' = (ledger db)(mg_id m \<mapsto> (mg_createdAt m, MProcessing))"
    proof -
      have "ledger db' = ledger (db\<lparr>db_messages := sql_update ?p ?f (db_messages db)\<rparr>)"
        unfolding db' by (simp add: ledger_def)
      also have "\<dots> = (ledger db)(mg_id m \<mapsto> (mg_createdAt m, MProcessing))"
        by (rule ledger_move [OF assms(1) m(1)]) (use m(2) in simp_all)
      finally show ?thesis .
    qed
    then show ?thesis
      using ledger_row [OF assms(1) m(1)] m(2) idle_ledger [OF assms(1)] by (simp add: ledger_step.started)
  qed (use assms in \<open>simp add: startMessageProcessing_def Let_def ledger_step.same\<close>)
qed

lemma requeue_ledger:
  assumes "messages_ok db"
  shows "ledger_step (ledger db) (ledger (updateMessageToPending i db))"
proof -
  let ?p = "\<lambda>m. mg_id m = i \<and> mg_status m = MProcessing"
  let ?f = "\<lambda>m. m\<lparr>mg_status := MPending, mg_startedAt := None\<rparr>"
  have "ledger (updateMessageToPending i db) = ledger (db\<lparr>db_messages := sql_update ?p ?f (db_messages db)\<rparr>)"
    by (simp add: updateMessageToPending_def Let_def)
  moreover have "ledger_step (ledger db) (ledger (db\<lparr>db_messages := sql_update ?p ?f (db_messages db)\<rparr>))"
  proof (cases "\<exists>m \<in> set (db_messages db). ?p m")
    case True
    then obtain m where m: "m \<in> set (db_messages db)" "?p m" by blast
    have "ledger (db\<lparr>db_messages := sql_update ?p ?f (db_messages db)\<rparr>)
        = (ledger db)(mg_id m \<mapsto> (mg_createdAt m, MPending))"
      by (rule ledger_move [OF assms m(1)]) (use m(2) in simp_all)
    then show ?thesis using ledger_row [OF assms m(1)] m(2) by (simp add: ledger_step.requeued)
  next
    case False
    then have "ledger (db\<lparr>db_messages := sql_update ?p ?f (db_messages db)\<rparr>) = ledger db"
      by (intro ledger_unmoved) blast
    then show ?thesis by (simp add: ledger_step.same)
  qed
  ultimately show ?thesis by simp
qed

lemma complete_ledger:
  assumes "messages_ok db" and "expected \<in> {MPending, MProcessing}"
  shows "ledger_step (ledger db) (ledger (fst (recordMessageCompletion e ts expected db)))"
proof -
  let ?f = "\<lambda>m. m\<lparr>mg_status := (if ce_success e then MCompleted else MFailed),
      mg_completedAt := Some ts, mg_errorMessage := (if ce_success e then None else ce_error e)\<rparr>"
  have distinct: "distinct (map mg_id (db_messages db))" using assms(1) by (simp add: messages_ok_def)
  show ?thesis
  proof (cases "message_with (ce_messageId e) (db_messages db)")
    case None
    then show ?thesis by (simp add: recordMessageCompletion_def ledger_step.same)
  next
    case (Some m)
    then have m: "m \<in> set (db_messages db)" "mg_id m = ce_messageId e" using message_with_mem [OF distinct] by auto
    show ?thesis
    proof (cases "mg_status m = expected")
      case True
      have "ledger (on_message (ce_messageId e) ?f db)
          = (ledger db)(mg_id m \<mapsto> (mg_createdAt m, if ce_success e then MCompleted else MFailed))"
        unfolding on_message_def by (rule ledger_move [OF assms(1) m(1)]) (use m(2) in simp_all)
      moreover have "ledger_step (ledger db) \<dots>"
        using ledger_row [OF assms(1) m(1)] True assms(2) by (intro ledger_step.settled) auto
      ultimately show ?thesis using Some True by (simp add: recordMessageCompletion_def Let_def)
    qed (use Some in \<open>simp add: recordMessageCompletion_def ledger_step.same\<close>)
  qed
qed

lemma cancel_ledger:
  assumes "messages_ok db"
  shows "ledger_step (ledger db) (ledger (fst (cancelPendingMessage i db)))"
proof -
  have distinct: "distinct (map mg_id (db_messages db))" using assms by (simp add: messages_ok_def)
  show ?thesis
  proof (cases "snd (cancelPendingMessage i db) \<or> fst (cancelPendingMessage i db) \<noteq> db")
    case True
    then obtain m where with_i: "message_with i (db_messages db) = Some m" and st: "mg_status m = MPending"
      and db': "fst (cancelPendingMessage i db) = db\<lparr>db_attachments := releaseForMessage i (db_attachments db),
          db_messages := sql_delete (\<lambda>m. mg_id m = i \<and> mg_status m = MPending) (db_messages db)\<rparr>"
      by (auto simp: cancelPendingMessage_def Let_def split: option.splits if_splits)
    have m: "m \<in> set (db_messages db)" "mg_id m = i" using with_i message_with_mem [OF distinct] by auto
    have deleted: "sql_delete (\<lambda>m. mg_id m = i \<and> mg_status m = MPending) (db_messages db)
        = filter (\<lambda>x. mg_id x \<noteq> i) (db_messages db)"
    proof -
      have "x = m" if "x \<in> set (db_messages db)" "mg_id x = i" for x
        using distinct m that by (auto simp: distinct_map inj_on_def)
      then show ?thesis using st unfolding sql_delete_def by (intro filter_cong) auto
    qed
    have gone: "message_with j (filter (\<lambda>x. mg_id x \<noteq> i) t) = (if j = i then None else message_with j t)" for j t
      by (induction t) (auto simp: message_with_def)
    have "ledger (fst (cancelPendingMessage i db)) = (ledger db)(i := None)"
      unfolding db' deleted by (auto simp: ledger_def gone fun_eq_iff)
    then show ?thesis
      using ledger_row [OF assms m(1)] m(2) st by (auto intro: ledger_step.withdrawn)
  qed (simp add: ledger_step.same)
qed

lemma createMessageWithAttachments_ledger:
  assumes "createMessageWithAttachments d ids e db = Some db'" and "cm_status d = MPending"
  shows "ledger_step (ledger db) (ledger db')"
proof -
  from assms(1) obtain att db1 where db1: "createMessage d (db\<lparr>db_attachments := att\<rparr>) = Some db1"
    and "db' = db1 \<or> (\<exists>evs. db' = db1\<lparr>db_events := evs\<rparr>)"
    by (auto simp: createMessageWithAttachments_def split: option.splits)
  with createMessage_ledger [OF db1 assms(2)] show ?thesis by auto
qed

lemma ledger_simulation:
  assumes "messages_ok db"
  shows "ledger_step (ledger db) (ledger (apply_message_op op db))"
proof (cases op)
  case (OpQueue d ids e)
  then show ?thesis
    using createMessageWithAttachments_ledger [of "d\<lparr>cm_status := MPending\<rparr>" ids e db]
    by (cases "createMessageWithAttachments (d\<lparr>cm_status := MPending\<rparr>) ids e db") (auto intro: ledger_step.same)
next
  case (OpAdmit d)
  let ?d = "d\<lparr>aa_message := (aa_message d)\<lparr>cm_status := MPending\<rparr>\<rparr>"
  show ?thesis
  proof (cases "admitAutofixMessage ?d db")
    case (Some r)
    with admitAutofixMessage_cases [of ?d db "fst r" "snd r"] createMessage_ledger [of _ db "fst r"] OpAdmit
    show ?thesis by (auto intro: ledger_step.same)
  qed (use OpAdmit in \<open>simp add: ledger_step.same\<close>)
next
  case (OpStart i ts e)
  then show ?thesis
    using start_ledger [OF assms, of i ts e]
    by (cases "startMessageProcessing i ts e db") (auto intro: ledger_step.same)
next
  case (OpCost i c)
  have "ledger (on_message i (\<lambda>m. m\<lparr>mg_reportedCostUsd := x\<rparr>) db) = ledger db" for x
    by (rule ledger_on_message) simp_all
  with OpCost show ?thesis
    by (simp add: raiseReportedCost_def ledger_step.same split: option.split)
qed (use assms in \<open>simp_all add: cancel_ledger requeue_ledger complete_ledger ledger_step.same ledger_on_message
      markMessageAwaitingStopConfirmation_def clearMessageAwaitingStopConfirmation_def\<close>)

lemma next_is_oldest:
  assumes "messages_ok db"
  shows "case getNextPendingMessage db of
         None \<Rightarrow> \<forall>i t. ledger db i \<noteq> Some (t, MPending)
       | Some m \<Rightarrow> ledger db (mg_id m) = Some (mg_createdAt m, MPending)
           \<and> (\<forall>i t. ledger db i = Some (t, MPending) \<longrightarrow> mg_createdAt m \<le> t)"
proof (cases "getNextPendingMessage db")
  case None
  then have "\<not> (\<exists>m \<in> set (db_messages db). mg_status m = MPending)"
    by (auto simp: getNextPendingMessage_def filter_empty_conv)
  then have "ledger db i \<noteq> Some (t, MPending)" for i t using ledger_waiting [OF assms] by blast
  with None show ?thesis by simp
next
  case (Some m)
  note first = first_by_SomeD [OF Some [unfolded getNextPendingMessage_def]]
  have m: "m \<in> set (db_messages db)" "mg_status m = MPending" using first(1) by auto
  have "mg_createdAt m \<le> t" if row: "ledger db i = Some (t, MPending)" for i t
  proof -
    obtain x where "x \<in> set (db_messages db)" "mg_createdAt x = t" "mg_status x = MPending"
      using ledger_waiting [OF assms row] by blast
    with first(2) [of x] show ?thesis by simp
  qed
  with Some ledger_row [OF assms m(1)] m(2) show ?thesis by simp
qed

text \<open>
  C34. The prompt table refines the ledger. Through any sequence of the repository's writes the
  ledger moves only by its six moves: a prompt is queued under a new id, withdrawn while
  waiting, started while no other runs, put back, or settled once. And the prompt the
  repository would dispatch next is then a waiting one than which none was queued earlier,
  absent only when nothing waits.
\<close>

theorem prompt_table_refines_ledger:
  assumes "messages_ok db" and "db' = foldl (\<lambda>db op. apply_message_op op db) db ops"
  shows "ledger_step\<^sup>*\<^sup>* (ledger db) (ledger db')
    \<and> (case getNextPendingMessage db' of
         None \<Rightarrow> \<forall>i t. ledger db' i \<noteq> Some (t, MPending)
       | Some m \<Rightarrow> ledger db' (mg_id m) = Some (mg_createdAt m, MPending)
           \<and> (\<forall>i t. ledger db' i = Some (t, MPending) \<longrightarrow> mg_createdAt m \<le> t))"
proof -
  have "ledger_step\<^sup>*\<^sup>* (ledger db) (ledger db') \<and> messages_ok db'"
    unfolding assms(2) using assms(1)
  proof (induction ops arbitrary: db)
    case (Cons op ops)
    then show ?case
      using ledger_simulation [OF Cons.prems, of op] messages_ok_op [OF Cons.prems, of op]
      by (auto intro: converse_rtranclp_into_rtranclp)
  qed simp
  then show ?thesis using next_is_oldest by blast
qed

theorem prompt_table_refines_ledger_witness:
  "ledger_step\<^sup>*\<^sup>* (ledger empty_db) (ledger (foldl (\<lambda>db op. apply_message_op op db) empty_db
     [OpQueue (demo_create ''a'' 1) [] None, OpQueue (demo_create ''b'' 2) [] None, OpStart ''a'' 3 ''{}'']))"
  using prompt_table_refines_ledger [OF empty_db_ok refl] by blast

end
