(* ===== verification/Session_Status.thy ===== *)
theory Session_Status
  imports Prompt_Ledger
begin

text \<open>
  The world of one session's turns, shared by the status service, the stop coordinator, the budget
  service and the prompt queue, and the status service itself (\<open>session/session-status-service.ts\<close>).

  The session object runs one continuation at a time; between two awaits nothing else runs. A
  synchronous stretch of code is therefore one function on the world, and a call that awaits
  something leaves a task, which a later step resumes with whatever the awaited call answered.
  A projection, a broadcast or an alarm only leaves its mark in the log, together with the
  tables as they were when it was sent.
\<close>

section \<open>Effects, tasks, the world\<close>

datatype admission_error =
    NotPromptable session_status
  | PromptBlocked string
  | BudgetGone
  | QueueIsFull
  | RequestConflict
  | HarnessIncompatible string
  | RepeatedAttachment
  | MissingAttachment
  | UnsupportedAttachment
  | StoreFailed

datatype reply =
    PromptQueued string "nat option" bool
  | PromptCancelled string
  | PromptNotCancellable
  | PromptRefused admission_error

datatype turn_effect =
    TxProject string session_status nat ms
  | TxStatus session_status
  | TxParent string session_status
  | TxMetrics string
  | TxFailure recorded_completion
  | TxCompleted recorded_completion
  | TxProcessing bool
  | TxQueue "(string \<times> string \<times> message_status) list"
  | TxPendingAlarm ms
  | TxAlarm ms
  | TxStop string
  | TxPrompt string string
  | TxUserMessage string
  | TxActivity ms
  | TxBreakerReset
  | TxStarted string
  | TxSpawn
  | TxTerminate string
  | TxFatal string
  | TxWatchdogs
  | TxBudget rat "rat option" bool
  | TxWarning string
  | TxReply reply
  | TxAutofix autofix_admission
  | TxTouchIndex string
  | TxSnapshot

text \<open>What the lifecycle alarm answers: nothing to do, a failure that may still come up, a gone
  generation, a silent runtime whose source a save still holds, or an abandoned boot.\<close>

datatype sandbox_alarm_result =
    NoAction
  | SandboxFailed
  | SandboxTerminated
  | HeartbeatLost string
  | BootAbandoned string

text \<open>A stop that was recorded but not yet delivered: its deadline and the settled message.\<close>

record stop_preparation =
  sp_deadline :: ms
  sp_failure :: recorded_completion

text \<open>
  What a request asks to queue: the columns it fixes of the row it may become (the author is a
  participant's id), its attachment references, whether its author is new to the session, which
  of the two entries it came through and whether the session's harness is strict about models.
\<close>

record attachment_reference =
  ar_attachmentId :: string
  ar_name :: string

record prompt_request =
  pr_message :: create_message
  pr_attachments :: "attachment_reference list"
  pr_newAuthor :: bool
  pr_fromApi :: bool
  pr_strict :: bool

record autofix_command =
  ac_message :: create_message
  ac_feedbackKey :: string
  ac_repositoryId :: string
  ac_number :: nat
  ac_origin :: string
  ac_attemptLimit :: "nat option"
  ac_strict :: bool

text \<open>
  The continuations that wait: a call of \<open>processMessageQueue\<close>; the pump after the provider's
  authentication answer and after managed-tool preparation; a delivered stop; a terminated
  sandbox; a fatal report's termination and a recovery to apply; a settled turn; an autofix
  command after its selection check and a redrive; a request after its fingerprint or its
  policy check, and after its status transition; the three stages of the session's alarm.
\<close>

datatype task =
    TPump
  | TAuth message_row ms
  | TPrepare message_row ms string
  | TStopped stop_preparation bool
  | TTerminated
  | TFatal "string option"
  | TRecovery "string option" sandbox_alarm_result
  | TSettled recorded_completion bool
  | TAutofix autofix_command
  | TRedrive
  | TAdmit prompt_request bool
  | TAccepted string
  | TAlarmTimeout
  | TAlarmWatchdogs
  | TAlarmResult "string option"

datatype metrics_writer = WriterIdle | Writing bool

record turn_world =
  tw_db :: session_db
  tw_tasks :: "task list"
  tw_log :: "(turn_effect \<times> session_db) list"
  tw_metrics :: metrics_writer
  tw_clock :: ms

definition note_fx :: "turn_effect \<Rightarrow> turn_world \<Rightarrow> turn_world" where
  "note_fx x w = w\<lparr>tw_log := tw_log w @ [(x, tw_db w)]\<rparr>"

definition suspend :: "task \<Rightarrow> turn_world \<Rightarrow> turn_world" where
  "suspend k w = w\<lparr>tw_tasks := tw_tasks w @ [k]\<rparr>"

abbreviation session_of :: "turn_world \<Rightarrow> session_row option" where
  "session_of w \<equiv> getSession (db_core (tw_db w))"

lemma note_fx_fields [simp]:
  "tw_db (note_fx x w) = tw_db w" "tw_tasks (note_fx x w) = tw_tasks w"
  "tw_log (note_fx x w) = tw_log w @ [(x, tw_db w)]" "tw_metrics (note_fx x w) = tw_metrics w"
  "tw_clock (note_fx x w) = tw_clock w"
  by (simp_all add: note_fx_def)

lemma suspend_fields [simp]:
  "tw_db (suspend k w) = tw_db w" "tw_tasks (suspend k w) = tw_tasks w @ [k]"
  "tw_log (suspend k w) = tw_log w" "tw_metrics (suspend k w) = tw_metrics w"
  "tw_clock (suspend k w) = tw_clock w"
  by (simp_all add: suspend_def)

section \<open>The status service\<close>

definition getPublicSessionId :: "session_row \<Rightarrow> string" where
  "getPublicSessionId s = (if truthy (sn_sessionName s) then the (sn_sessionName s) else sn_id s)"

text \<open>At most one metrics write is in flight; a request during it only marks it stale, and the
  writer goes round again.\<close>

definition syncSessionMetrics :: "string \<Rightarrow> turn_world \<Rightarrow> turn_world" where
  "syncSessionMetrics sid w =
     (case tw_metrics w of
        Writing _ \<Rightarrow> w\<lparr>tw_metrics := Writing True\<rparr>
      | WriterIdle \<Rightarrow> if session_of w = None then w
                      else note_fx (TxMetrics sid) (w\<lparr>tw_metrics := Writing False\<rparr>))"

definition metrics_written :: "string \<Rightarrow> turn_world \<Rightarrow> turn_world" where
  "metrics_written sid w =
     (case tw_metrics w of
        Writing True \<Rightarrow> note_fx (TxMetrics sid) (w\<lparr>tw_metrics := Writing False\<rparr>)
      | _ \<Rightarrow> w\<lparr>tw_metrics := WriterIdle\<rparr>)"

definition projectTransition ::
  "session_row \<Rightarrow> string \<Rightarrow> session_status \<Rightarrow> ms \<Rightarrow> nat \<Rightarrow> turn_world \<Rightarrow> turn_world" where
  "projectTransition s sid status updatedAt revision w =
     (let w1 = note_fx (TxStatus status) (note_fx (TxProject sid status revision updatedAt) w);
          w2 = (if isTurnSettled status then syncSessionMetrics sid w1 else w1) in
      if truthy (sn_parentSessionId s) then note_fx (TxParent (the (sn_parentSessionId s)) status) w2 else w2)"

definition set_session_status :: "session_row \<Rightarrow> session_status \<Rightarrow> ms \<Rightarrow> turn_world \<Rightarrow> turn_world" where
  "set_session_status s status updatedAt w =
     w\<lparr>tw_db := (tw_db w)\<lparr>db_core := updateSessionStatus (sn_id s) status updatedAt (db_core (tw_db w))\<rparr>\<rparr>"

definition transition :: "session_status \<Rightarrow> ms \<Rightarrow> turn_world \<Rightarrow> turn_world \<times> bool" where
  "transition status now w =
     (case session_of w of
        None \<Rightarrow> (w, False)
      | Some s \<Rightarrow>
          let sid = getPublicSessionId s in
          if sn_status s = status
          then (let w1 = note_fx (TxProject sid status (sn_statusRevision s) (sn_updatedAt s)) w in
                (if isTurnSettled status then syncSessionMetrics sid w1 else w1, False))
          else
            let updatedAt = max now (sn_updatedAt s + 1) in
            (projectTransition s sid status updatedAt (sn_statusRevision s + 1)
               (set_session_status s status updatedAt w), True))"

text \<open>The stored status again, claiming no new activity.\<close>

definition repairIndexStatus :: "turn_world \<Rightarrow> turn_world" where
  "repairIndexStatus w =
     (case session_of w of
        None \<Rightarrow> w
      | Some s \<Rightarrow> note_fx (TxProject (getPublicSessionId s) (sn_status s) (sn_statusRevision s) (sn_updatedAt s)) w)"

text \<open>\<open>cancel\<close>: the status and the synchronous closing of the messages commit together.\<close>

definition cancel_session :: "(turn_world \<Rightarrow> turn_world) \<Rightarrow> ms \<Rightarrow> turn_world \<Rightarrow> turn_world \<times> bool" where
  "cancel_session terminalizeUnfinishedMessages now w =
     (case session_of w of
        None \<Rightarrow> (w, False)
      | Some s \<Rightarrow>
          let updatedAt = max now (sn_updatedAt s + 1);
              w1 = terminalizeUnfinishedMessages (set_session_status s SCancelled updatedAt w) in
          (projectTransition s (getPublicSessionId s) SCancelled updatedAt (sn_statusRevision s + 1) w1, True))"

definition isSessionClosed :: "turn_world \<Rightarrow> bool" where
  "isSessionClosed w = (case session_of w of None \<Rightarrow> False | Some s \<Rightarrow> \<not> isSessionPromptable (sn_status s))"

definition getIdleStatusFromTerminalMessages :: "turn_world \<Rightarrow> session_status" where
  "getIdleStatusFromTerminalMessages w =
     (case getLatestTerminalMessage (tw_db w) of
        None \<Rightarrow> SCreated
      | Some m \<Rightarrow> if mg_status m = MFailed then SFailed else SCompleted)"

definition reconcileAfterExecution :: "bool \<Rightarrow> ms \<Rightarrow> turn_world \<Rightarrow> turn_world" where
  "reconcileAfterExecution success now w =
     (if isSessionClosed w then w
      else fst (transition (if 0 < getPendingOrProcessingCount (tw_db w) then SActive
                            else if success then SCompleted else SFailed) now w))"

definition reconcileAfterQueueRemoval :: "ms \<Rightarrow> turn_world \<Rightarrow> turn_world" where
  "reconcileAfterQueueRemoval now w =
     (if isSessionClosed w then w
      else if 0 < getPendingOrProcessingCount (tw_db w) then w
      else fst (transition (getIdleStatusFromTerminalMessages w) now w))"

definition settleFromMessageState :: "ms \<Rightarrow> turn_world \<Rightarrow> turn_world \<times> session_status" where
  "settleFromMessageState now w =
     (let status = (if 0 < getPendingOrProcessingCount (tw_db w) then SActive
                    else getIdleStatusFromTerminalMessages w) in
      (fst (transition status now w), status))"

definition reconcileFromMessageState :: "ms \<Rightarrow> turn_world \<Rightarrow> turn_world" where
  "reconcileFromMessageState now w = (if isSessionClosed w then w else fst (settleFromMessageState now w))"

definition refreshMetricsAfterStep :: "string option \<Rightarrow> turn_world \<Rightarrow> turn_world" where
  "refreshMetricsAfterStep messageId w =
     (if (case messageId of None \<Rightarrow> False | Some i \<Rightarrow> getMessageStatus i (tw_db w) = Some MProcessing) then w
      else case session_of w of None \<Rightarrow> w | Some s \<Rightarrow> syncSessionMetrics (getPublicSessionId s) w)"

end
