(* ===== verification/Execution_Stop.thy ===== *)
theory Execution_Stop
  imports Session_Status Lifecycle_Decisions
begin

text \<open>
  How a running prompt is failed and stopped, and how spending does it
  (\<open>session/message-failure-service.ts\<close>, \<open>session/execution-stop-coordinator.ts\<close>,
  \<open>session/budget-service.ts\<close>, \<open>session/sandbox-events/execution.handler.ts\<close>).
\<close>

section \<open>What a step reads from outside the tables\<close>

datatype command_target = TargetUnavailable | TargetBooting | TargetDispatch string

datatype prepare_answer = Prepared | ContextChanged | PreparationFailed

text \<open>
  The clock; what other components answer synchronously in this step (whether the shutdown
  coordinator lets work go out, its reason to refuse prompts, where a command would go, the
  lifecycle socket, whether a send succeeds, the execution timeout, whether an idle live runtime
  waits for work, which authors are stored, whether managed tools are configured); the model
  policy of the session's harness; what the awaited call of a resumed task answered; the ids the
  step would generate and the texts the code renders but never reads back.
\<close>

record turn_env =
  te_now :: ms
  te_mayDispatch :: bool
  te_blockReason :: "string option"
  te_target :: command_target
  te_socket :: "string option"
  te_sendOk :: bool
  te_timeoutMs :: ms
  te_idleRuntime :: bool
  te_authorKnown :: "string \<Rightarrow> bool"
  te_hasMcp :: bool
  te_runIncompatible :: "message_row \<Rightarrow> string option"
  te_requestIncompatible :: "string option \<Rightarrow> string option \<Rightarrow> string option"
  te_validModel :: "string \<Rightarrow> bool"
  te_validEffort :: "string option \<Rightarrow> string option \<Rightarrow> string option"
  te_authError :: "string option"
  te_prepared :: prepare_answer
  te_alarmOk :: bool
  te_held :: bool
  te_recovery :: sandbox_alarm_result
  te_messageId :: string
  te_eventId :: string
  te_failureJson :: "string \<Rightarrow> string \<Rightarrow> ms \<Rightarrow> string"
  te_promptJson :: "message_row \<Rightarrow> ms \<Rightarrow> string"
  te_attachmentsJson :: "(string \<times> string \<times> string) list \<Rightarrow> string"
  te_warningJson :: "string \<Rightarrow> ms \<Rightarrow> string"
  te_money :: "rat \<Rightarrow> string"

section \<open>Failures\<close>

definition record_turn_failure ::
  "turn_env \<Rightarrow> string \<Rightarrow> string \<Rightarrow> ms \<Rightarrow> message_status \<Rightarrow> turn_world \<Rightarrow> turn_world \<times> recorded_completion option" where
  "record_turn_failure e i err ts expected w =
     (case recordMessageCompletion \<lparr>ce_messageId = i, ce_success = False, ce_error = Some err,
             ce_json = te_failureJson e i err ts\<rparr> ts expected (tw_db w) of
        (db, c) \<Rightarrow> (w\<lparr>tw_db := db\<rparr>, c))"

definition failMessage ::
  "turn_env \<Rightarrow> string \<Rightarrow> string \<Rightarrow> ms \<Rightarrow> message_status \<Rightarrow> turn_world \<Rightarrow> turn_world \<times> bool" where
  "failMessage e i err ts expected w =
     (case record_turn_failure e i err ts expected w of
        (w1, None) \<Rightarrow> (w1, False)
      | (w1, Some c) \<Rightarrow> (note_fx (TxFailure c) w1, True))"

definition broadcastPromptQueue :: "turn_world \<Rightarrow> turn_world" where
  "broadcastPromptQueue w = note_fx (TxQueue (listPromptQueue (tw_db w))) w"

section \<open>Stopping\<close>

text \<open>In the caller's transaction: fail the running prompt and remember that the sandbox has not
  confirmed it stopped.\<close>

definition prepare_stop :: "turn_env \<Rightarrow> string \<Rightarrow> turn_world \<Rightarrow> turn_world \<times> stop_preparation option" where
  "prepare_stop e reason w =
     (let deadline = te_now e + STOP_CONFIRMATION_TIMEOUT_MS in
      case getProcessingMessageWithCreatedAt (tw_db w) of
        None \<Rightarrow> (w, None)
      | Some (i, _) \<Rightarrow>
          (case record_turn_failure e i reason (te_now e) MProcessing w of
             (w1, None) \<Rightarrow> (w1, None)
           | (w1, Some c) \<Rightarrow>
               (note_fx (TxPendingAlarm deadline)
                  (w1\<lparr>tw_db := markMessageAwaitingStopConfirmation (rc_messageId c) deadline (tw_db w1)\<rparr>),
                Some \<lparr>sp_deadline = deadline, sp_failure = c\<rparr>)))"

definition deliver_stop :: "turn_env \<Rightarrow> stop_preparation \<Rightarrow> turn_world \<Rightarrow> turn_world" where
  "deliver_stop e p w =
     (let w1 = note_fx (TxProcessing False) (broadcastPromptQueue (note_fx (TxFailure (sp_failure p)) w));
          stopSent = (te_socket e \<noteq> None \<and> te_sendOk e);
          w2 = (if stopSent then note_fx (TxStop (the (te_socket e))) w1 else w1);
          w3 = reconcileAfterExecution False (te_now e) (note_fx (TxAlarm (sp_deadline p)) w2) in
      suspend (TStopped p stopSent) w3)"

definition stop :: "turn_env \<Rightarrow> string \<Rightarrow> turn_world \<Rightarrow> turn_world" where
  "stop e reason w =
     (case prepare_stop e reason w of
        (w1, None) \<Rightarrow> note_fx (TxProcessing False) w1
      | (w1, Some p) \<Rightarrow> deliver_stop e p w1)"

text \<open>The end of \<open>deliver\<close>, once the alarm and the status have settled.\<close>

definition stop_delivered :: "stop_preparation \<Rightarrow> bool \<Rightarrow> bool \<Rightarrow> turn_world \<Rightarrow> turn_world" where
  "stop_delivered p stopSent alarmOk w =
     (if stopSent \<and> alarmOk then w
      else if getMessageAwaitingStopConfirmation (tw_db w)
                \<noteq> Some (rc_messageId (sp_failure p), sp_deadline p) then w
      else suspend TTerminated
             (note_fx (TxTerminate (if stopSent then ''stop_alarm_failed'' else ''stop_send_failed'')) w))"

definition recoverStopConfirmationTimeout :: "turn_env \<Rightarrow> turn_world \<Rightarrow> turn_world" where
  "recoverStopConfirmationTimeout e w =
     (case getMessageAwaitingStopConfirmation (tw_db w) of
        None \<Rightarrow> w
      | Some (i, deadline) \<Rightarrow>
          if te_now e < deadline then note_fx (TxAlarm deadline) w
          else suspend TTerminated (note_fx (TxTerminate ''stop_confirmation_timeout'') w))"

definition resumeAfterSandboxTermination :: "turn_world \<Rightarrow> turn_world" where
  "resumeAfterSandboxTermination w =
     suspend TPump
       (case getMessageAwaitingStopConfirmation (tw_db w) of
          None \<Rightarrow> w
        | Some (i, _) \<Rightarrow> w\<lparr>tw_db := clearMessageAwaitingStopConfirmation i (tw_db w)\<rparr>)"

section \<open>Spending\<close>

record budget_transition =
  bt_warning :: "string option"
  bt_stop :: "stop_preparation option"
  bt_statusChanged :: bool

definition NO_BUDGET_TRANSITION :: budget_transition where
  "NO_BUDGET_TRANSITION = \<lparr>bt_warning = None, bt_stop = None, bt_statusChanged = False\<rparr>"

text \<open>\<open>None\<close> in what follows is a statement that throws; the enclosing transaction rolls back.\<close>

definition persistWarning :: "turn_env \<Rightarrow> string \<Rightarrow> string option \<Rightarrow> turn_world \<Rightarrow> turn_world option" where
  "persistWarning e message messageId w =
     map_option (\<lambda>evs. w\<lparr>tw_db := (tw_db w)\<lparr>db_events := evs\<rparr>\<rparr>)
       (createEvent \<lparr>ed_id = te_eventId e, ed_type = ''warning'', ed_data = te_warningJson e message (te_now e),
          ed_messageId = messageId, ed_createdAt = te_now e\<rparr> (db_events (tw_db w)))"

definition prepareExhaustion ::
  "turn_env \<Rightarrow> rat \<Rightarrow> rat \<Rightarrow> string option \<Rightarrow> turn_world \<Rightarrow> (turn_world \<times> budget_transition) option" where
  "prepareExhaustion e totalCost limit messageId w =
     (let reason = ''Session cost limit reached: '' @ te_money e totalCost @ '' of '' @ te_money e limit;
          (w1, p) = prepare_stop e reason w;
          text = reason @ ''. '' @ (if p \<noteq> None then ''Execution stopped.'' else ''Work paused.'') in
      map_option (\<lambda>w2. (w2, \<lparr>bt_warning = Some text, bt_stop = p, bt_statusChanged = True\<rparr>))
        (persistWarning e text messageId w1))"

definition in_core :: "(session_store \<Rightarrow> session_store) \<Rightarrow> turn_world \<Rightarrow> turn_world" where
  "in_core f w = w\<lparr>tw_db := (tw_db w)\<lparr>db_core := f (db_core (tw_db w))\<rparr>\<rparr>"

definition applyObservedCost ::
  "turn_env \<Rightarrow> rat \<Rightarrow> string option \<Rightarrow> turn_world \<Rightarrow> (turn_world \<times> budget_transition) option" where
  "applyObservedCost e totalCost messageId w =
     (case session_of w of
        None \<Rightarrow> Some (w, NO_BUDGET_TRANSITION)
      | Some s \<Rightarrow>
          (case sn_maxCostUsd s of
             None \<Rightarrow> Some (w, NO_BUDGET_TRANSITION)
           | Some limit \<Rightarrow>
               if sn_budgetExhausted s \<or> totalCost < limit then Some (w, NO_BUDGET_TRANSITION)
               else prepareExhaustion e totalCost limit messageId (in_core (markBudgetExhausted (te_now e)) w)))"

text \<open>A positive amount joins the session's total and may exhaust the limit.\<close>

definition add_observed_cost ::
  "turn_env \<Rightarrow> rat \<Rightarrow> string option \<Rightarrow> turn_world \<Rightarrow> (turn_world \<times> budget_transition) option" where
  "add_observed_cost e delta messageId w =
     (if delta \<le> 0 then Some (w, NO_BUDGET_TRANSITION)
      else case addSessionCost delta (te_now e) (db_core (tw_db w)) of
        None \<Rightarrow> None
      | Some (core, spent) \<Rightarrow>
          map_option (\<lambda>(w1, t). (w1, t\<lparr>bt_statusChanged := True\<rparr>))
            (applyObservedCost e spent messageId (in_core (\<lambda>_. core) w)))"

text \<open>A report of the runtime: the turn's cumulative cost, or an old runtime's cost of one step; a
  field that is no finite number is \<open>None\<close>.\<close>

record cost_report =
  cr_messageId :: string
  cr_cumulative :: "rat option"
  cr_stepCost :: "rat option"

definition observeReportedCost :: "cost_report \<Rightarrow> string option \<Rightarrow> turn_world \<Rightarrow> turn_world \<times> rat" where
  "observeReportedCost r messageId w =
     (case cr_cumulative r of
        Some c \<Rightarrow> (case raiseReportedCost (nullish messageId (cr_messageId r)) (Some c) (tw_db w) of
                     (db, delta) \<Rightarrow> (w\<lparr>tw_db := db\<rparr>, delta))
      | None \<Rightarrow> (w, case cr_stepCost r of None \<Rightarrow> 0 | Some c \<Rightarrow> if 0 < c then c else 0))"

definition broadcastStatus :: "turn_world \<Rightarrow> turn_world" where
  "broadcastStatus w =
     (case session_of w of
        None \<Rightarrow> w
      | Some s \<Rightarrow> note_fx (TxBudget (sn_totalCost s) (sn_maxCostUsd s) (sn_budgetExhausted s)) w)"

definition deliverTransition :: "turn_env \<Rightarrow> budget_transition \<Rightarrow> turn_world \<Rightarrow> turn_world" where
  "deliverTransition e t w =
     (let w1 = (case bt_warning t of None \<Rightarrow> w | Some m \<Rightarrow> note_fx (TxWarning m) w);
          w2 = (if bt_statusChanged t then broadcastStatus w1 else w1) in
      case bt_stop t of None \<Rightarrow> w2 | Some p \<Rightarrow> deliver_stop e p w2)"

definition ingestStepFinish :: "turn_env \<Rightarrow> cost_report \<Rightarrow> string option \<Rightarrow> turn_world \<Rightarrow> turn_world" where
  "ingestStepFinish e r messageId w =
     (case observeReportedCost r messageId w of
        (w1, delta) \<Rightarrow>
          (case add_observed_cost e delta messageId w1 of
             None \<Rightarrow> w
           | Some (w2, t) \<Rightarrow> deliverTransition e t w2))"

definition updateLimit :: "turn_env \<Rightarrow> rat option \<Rightarrow> turn_world \<Rightarrow> turn_world" where
  "updateLimit e limit w =
     (case session_of w of
        None \<Rightarrow> w
      | Some s \<Rightarrow>
          if sn_maxCostUsd s = limit then w
          else
            let exhausted = (case limit of None \<Rightarrow> False | Some l \<Rightarrow> l \<le> sn_totalCost s);
                w1 = in_core (setSessionBudget limit exhausted (te_now e)) w in
            case (if exhausted \<and> \<not> sn_budgetExhausted s
                  then prepareExhaustion e (sn_totalCost s) (the limit) None w1
                  else Some (w1, NO_BUDGET_TRANSITION\<lparr>bt_statusChanged := True\<rparr>)) of
              None \<Rightarrow> w
            | Some (w2, t) \<Rightarrow>
                let w3 = deliverTransition e t w2 in
                if exhausted then w3 else suspend TPump w3)"

section \<open>The end of a turn\<close>

record execution_report =
  xr_completion :: completion_event
  xr_cumulative :: "rat option"

text \<open>The transaction of \<open>handleExecutionComplete\<close>: a report of the running prompt settles it, any
  other only confirms a stop; the final cost settles in the same commit.\<close>

definition settle_execution ::
  "turn_env \<Rightarrow> execution_report \<Rightarrow> turn_world \<Rightarrow> (turn_world \<times> recorded_completion option \<times> budget_transition) option" where
  "settle_execution e r w =
     (let i = ce_messageId (xr_completion r);
          (db, c) = (if getProcessingMessage (tw_db w) = Some i
                     then recordMessageCompletion (xr_completion r) (te_now e) MProcessing (tw_db w)
                     else (tw_db w, None));
          w1 = w\<lparr>tw_db := (if c = None then clearMessageAwaitingStopConfirmation i db else db)\<rparr> in
      case xr_cumulative r of
        None \<Rightarrow> Some (w1, c, NO_BUDGET_TRANSITION)
      | Some cost \<Rightarrow>
          (case raiseReportedCost i (Some cost) (tw_db w1) of
             (db2, delta) \<Rightarrow>
               map_option (\<lambda>(w2, t). (w2, c, t)) (add_observed_cost e delta (Some i) (w1\<lparr>tw_db := db2\<rparr>))))"

definition handleExecutionComplete :: "turn_env \<Rightarrow> execution_report \<Rightarrow> turn_world \<Rightarrow> turn_world" where
  "handleExecutionComplete e r w =
     (case settle_execution e r w of
        None \<Rightarrow> w
      | Some (w1, c, t) \<Rightarrow>
          let w2 = deliverTransition e t w1 in
          case c of
            Some x \<Rightarrow> suspend (TSettled x (ce_success (xr_completion r))) w2
          | None \<Rightarrow> suspend TPump (note_fx (TxActivity (te_now e)) (note_fx TxSnapshot w2)))"

text \<open>After the terminal projection: the announcements, the status, and the next prompt.\<close>

definition turn_settled :: "turn_env \<Rightarrow> recorded_completion \<Rightarrow> bool \<Rightarrow> turn_world \<Rightarrow> turn_world" where
  "turn_settled e c success w =
     (let w1 = broadcastPromptQueue
                 (note_fx (TxProcessing (getProcessingMessage (tw_db w) \<noteq> None)) (note_fx (TxCompleted c) w));
          w2 = reconcileAfterExecution success (te_now e) w1 in
      suspend TPump (note_fx (TxActivity (te_now e)) (note_fx TxSnapshot w2)))"

end
