(* ===== verification/Message_Queue.thy ===== *)
theory Message_Queue
  imports Execution_Stop
begin

text \<open>
  The prompt queue of a session (\<open>session/message-queue.ts\<close>): how a prompt is admitted, picked,
  authenticated, claimed, prepared and sent, and every way it ends without an answer. Around
  it, the recovery of a lost sandbox (\<open>session/sandbox-recovery.ts\<close>), the alarm that watches
  a running prompt (\<open>session/alarm/handler.ts\<close>), the resolution of attachment references
  (\<open>session/session-attachment-resolver.ts\<close>) and the session's lifecycle requests that close and
  reopen it (\<open>session/http/handlers/session-lifecycle.handler.ts\<close>).

  A nested \<open>await processMessageQueue()\<close> leaves a pump task; it may then run later than in the
  code, which only adds interleavings.
\<close>

section \<open>Failing prompts\<close>

definition STUCK_PROCESSING_ERROR :: string where
  "STUCK_PROCESSING_ERROR = ''Execution timed out (stuck processing)''"

definition failPendingMessage :: "turn_env \<Rightarrow> string \<Rightarrow> string \<Rightarrow> turn_world \<Rightarrow> turn_world" where
  "failPendingMessage e i err w =
     (case getMessageById i (tw_db w) of
        None \<Rightarrow> w
      | Some m \<Rightarrow>
          if mg_status m \<noteq> MPending then w
          else (case failMessage e i err (te_now e) MPending w of
                  (w1, False) \<Rightarrow> w1
                | (w1, True) \<Rightarrow> reconcileAfterExecution False (te_now e) (broadcastPromptQueue w1)))"

definition failStuckProcessingMessage :: "turn_env \<Rightarrow> string \<Rightarrow> turn_world \<Rightarrow> turn_world" where
  "failStuckProcessingMessage e err w =
     (case getProcessingMessageWithCreatedAt (tw_db w) of
        None \<Rightarrow> w
      | Some (i, _) \<Rightarrow>
          (case failMessage e i err (te_now e) MProcessing w of
             (w1, False) \<Rightarrow> w1
           | (w1, True) \<Rightarrow> reconcileAfterExecution False (te_now e)
                            (broadcastPromptQueue (note_fx (TxProcessing False) w1))))"

text \<open>The synchronous closing of every unfinished message when the session is cancelled.\<close>

definition cancelExecution :: "turn_env \<Rightarrow> turn_world \<Rightarrow> turn_world" where
  "cancelExecution e w =
     (let w1 = fold (\<lambda>(i, _) w. fst (failMessage e i ''Execution was cancelled before it started''
                                        (te_now e) MPending w))
                 (listPendingMessagesWithCreatedAt (tw_db w)) w;
          w2 = (case getProcessingMessageWithCreatedAt (tw_db w1) of
                  None \<Rightarrow> w1
                | Some (i, _) \<Rightarrow> fst (failMessage e i ''Execution was cancelled'' (te_now e) MProcessing w1));
          w3 = broadcastPromptQueue (note_fx (TxProcessing False) w2) in
      case te_socket e of None \<Rightarrow> w3 | Some s \<Rightarrow> note_fx (TxStop s) w3)"

definition cancelQueuedPrompt :: "turn_env \<Rightarrow> string \<Rightarrow> turn_world \<Rightarrow> turn_world" where
  "cancelQueuedPrompt e i w =
     (case cancelPendingMessage i (tw_db w) of
        (db, False) \<Rightarrow> note_fx (TxReply PromptNotCancellable) (w\<lparr>tw_db := db\<rparr>)
      | (db, True) \<Rightarrow>
          reconcileAfterQueueRemoval (te_now e)
            (broadcastPromptQueue (note_fx (TxReply (PromptCancelled i)) (w\<lparr>tw_db := db\<rparr>))))"

section \<open>Dispatch\<close>

definition send_prompt :: "turn_env \<Rightarrow> message_row \<Rightarrow> ms \<Rightarrow> string \<Rightarrow> turn_world \<Rightarrow> turn_world" where
  "send_prompt e m now sock w =
     (if \<not> te_sendOk e
      then suspend TTerminated (note_fx (TxTerminate ''prompt_dispatch_send_failed'')
             (w\<lparr>tw_db := updateMessageToPending (mg_id m) (tw_db w)\<rparr>))
      else note_fx (TxStarted (mg_id m)) (note_fx (TxAlarm (now + te_timeoutMs e))
             (note_fx TxBreakerReset (note_fx (TxActivity now) (broadcastPromptQueue
               (note_fx (TxProcessing True) (note_fx (TxUserMessage (mg_id m))
                 (note_fx (TxPrompt sock (mg_id m)) w))))))))"

definition isPromptStillDispatchable :: "string \<Rightarrow> turn_world \<Rightarrow> bool" where
  "isPromptStillDispatchable i w =
     (case session_of w of
        None \<Rightarrow> False
      | Some s \<Rightarrow> isSessionPromptable (sn_status s) \<and> getMessageStatus i (tw_db w) = Some MPending)"

definition budget_exhausted :: "turn_world \<Rightarrow> bool" where
  "budget_exhausted w = some_holds sn_budgetExhausted (session_of w)"

text \<open>The claim and what follows it. A statement that throws changes nothing.\<close>

definition claim_prompt :: "turn_env \<Rightarrow> message_row \<Rightarrow> ms \<Rightarrow> string \<Rightarrow> turn_world \<Rightarrow> turn_world" where
  "claim_prompt e m now sock w =
     (case startMessageProcessing (mg_id m) now (te_promptJson e m now) (tw_db w) of
        None \<Rightarrow> w
      | Some (db, False) \<Rightarrow> w\<lparr>tw_db := db\<rparr>
      | Some (db, True) \<Rightarrow>
          if te_hasMcp e then suspend (TPrepare m now sock) (w\<lparr>tw_db := db\<rparr>)
          else send_prompt e m now sock (w\<lparr>tw_db := db\<rparr>))"

definition pump_authed :: "turn_env \<Rightarrow> message_row \<Rightarrow> ms \<Rightarrow> string option \<Rightarrow> turn_world \<Rightarrow> turn_world" where
  "pump_authed e m now err w =
     (if \<not> te_mayDispatch e \<or> budget_exhausted w then w
      else if truthy err
      then (case failMessage e (mg_id m) (the err) now MPending w of
              (w1, False) \<Rightarrow> w1
            | (w1, True) \<Rightarrow> suspend TPump (reconcileAfterExecution False (te_now e) (broadcastPromptQueue w1)))
      else case te_target e of
             TargetBooting \<Rightarrow> w
           | TargetUnavailable \<Rightarrow>
               if isPromptStillDispatchable (mg_id m) w then note_fx TxSpawn w else suspend TPump w
           | TargetDispatch sock \<Rightarrow>
               if te_authorKnown e (mg_authorId m) then claim_prompt e m now sock w else w)"

definition processMessageQueue :: "turn_env \<Rightarrow> turn_world \<Rightarrow> turn_world" where
  "processMessageQueue e w =
     (if \<not> te_mayDispatch e then w
      else case session_of w of
        None \<Rightarrow> w
      | Some s \<Rightarrow>
          if \<not> isSessionPromptable (sn_status s) then w
          else if getMessageAwaitingStopConfirmation (tw_db w) \<noteq> None
          then recoverStopConfirmationTimeout e w
          else if sn_budgetExhausted s \<or> getProcessingMessage (tw_db w) \<noteq> None then w
          else case getNextPendingMessage (tw_db w) of
                 None \<Rightarrow> w
               | Some m \<Rightarrow>
                   (case te_runIncompatible e m of
                      Some err \<Rightarrow> pump_authed e m (te_now e) (Some err) w
                    | None \<Rightarrow> suspend (TAuth m (te_now e)) w))"

text \<open>The prompt goes back unsent when what it was prepared for is no longer there.\<close>

definition unsend :: "message_row \<Rightarrow> turn_world \<Rightarrow> turn_world" where
  "unsend m w = suspend TPump (broadcastPromptQueue
     (w\<lparr>tw_db := updateMessageToPending (mg_id m) (tw_db w)\<rparr>))"

definition prompt_prepared :: "turn_env \<Rightarrow> message_row \<Rightarrow> ms \<Rightarrow> string \<Rightarrow> turn_world \<Rightarrow> turn_world" where
  "prompt_prepared e m now sock w =
     (let processing = (getMessageStatus (mg_id m) (tw_db w) = Some MProcessing) in
      case te_prepared e of
        Prepared \<Rightarrow>
          if \<not> processing then w
          else if \<not> te_mayDispatch e \<or> te_target e \<noteq> TargetDispatch sock then unsend m w
          else send_prompt e m now sock w
      | ContextChanged \<Rightarrow>
          if processing then unsend m w
          else (case failMessage e (mg_id m) ''Managed MCP preparation unavailable'' (te_now e) MProcessing w of
                  (w1, False) \<Rightarrow> w1
                | (w1, True) \<Rightarrow> suspend TPump (reconcileAfterExecution False (te_now e) (broadcastPromptQueue w1)))
      | PreparationFailed \<Rightarrow>
          (case failMessage e (mg_id m) ''Managed MCP preparation unavailable'' (te_now e) MProcessing w of
             (w1, False) \<Rightarrow> w1
           | (w1, True) \<Rightarrow> suspend TPump (reconcileAfterExecution False (te_now e) (broadcastPromptQueue w1))))"

section \<open>Admission\<close>

definition assertPromptableSession :: "turn_world \<Rightarrow> admission_error option" where
  "assertPromptableSession w =
     (case session_of w of
        None \<Rightarrow> None
      | Some s \<Rightarrow> if isSessionPromptable (sn_status s) then None else Some (NotPromptable (sn_status s)))"

definition assertSandboxAcceptingPrompts :: "turn_env \<Rightarrow> admission_error option" where
  "assertSandboxAcceptingPrompts e =
     (if truthy (te_blockReason e) then Some (PromptBlocked (the (te_blockReason e))) else None)"

definition assertBudgetAvailable :: "turn_world \<Rightarrow> admission_error option" where
  "assertBudgetAvailable w = (if budget_exhausted w then Some BudgetGone else None)"

definition assertQueueCapacity :: "turn_world \<Rightarrow> admission_error option" where
  "assertQueueCapacity w =
     (if MAX_UNFINISHED_PROMPTS \<le> getPendingOrProcessingCount (tw_db w) then Some QueueIsFull else None)"

text \<open>The first error of a row of checks.\<close>

fun first_error :: "'a option list \<Rightarrow> 'a option" where
  "first_error [] = None"
| "first_error (Some x # _) = Some x"
| "first_error (None # xs) = first_error xs"

definition named_prompt :: "string option \<Rightarrow> turn_world \<Rightarrow> message_row option" where
  "named_prompt rid w = (if truthy rid then getMessageByClientRequestId (the rid) (tw_db w) else None)"

definition findDuplicatePrompt :: "prompt_request \<Rightarrow> turn_world \<Rightarrow> admission_error + message_row option" where
  "findDuplicatePrompt r w =
     (case named_prompt (cm_clientRequestId (pr_message r)) w of
        None \<Rightarrow> Inr None
      | Some m \<Rightarrow>
          if mg_authorId m \<noteq> cm_authorId (pr_message r)
             \<or> mg_requestFingerprint m \<noteq> cm_requestFingerprint (pr_message r)
          then Inl RequestConflict else Inr (Some m))"

definition refuse :: "admission_error \<Rightarrow> turn_world \<Rightarrow> turn_world" where
  "refuse err = note_fx (TxReply (PromptRefused err))"

definition touchSessionActivity :: "turn_world \<Rightarrow> turn_world" where
  "touchSessionActivity w =
     (case session_of w of
        None \<Rightarrow> w
      | Some s \<Rightarrow> if getPublicSessionId s = [] then w else note_fx (TxTouchIndex (getPublicSessionId s)) w)"

definition accept :: "string \<Rightarrow> nat option \<Rightarrow> bool \<Rightarrow> turn_world \<Rightarrow> turn_world" where
  "accept i position deduplicated w =
     suspend TPump (note_fx (TxReply (PromptQueued i position deduplicated)) (touchSessionActivity w))"

text \<open>The checks both entries make before the author may be stored.\<close>

definition admission_precheck :: "turn_env \<Rightarrow> prompt_request \<Rightarrow> turn_world \<Rightarrow> admission_error option" where
  "admission_precheck e r w =
     (let requested = named_prompt (cm_clientRequestId (pr_message r)) w in
      first_error [assertPromptableSession w, assertSandboxAcceptingPrompts e,
        if (if pr_fromApi r then requested = None else pr_newAuthor r)
        then first_error [assertBudgetAvailable w, assertQueueCapacity w] else None,
        if pr_fromApi r \<and> pr_newAuthor r \<and> requested \<noteq> None then Some RequestConflict else None])"

definition handle_prompt :: "turn_env \<Rightarrow> prompt_request \<Rightarrow> turn_world \<Rightarrow> turn_world" where
  "handle_prompt e r w =
     (case admission_precheck e r w of
        Some err \<Rightarrow> refuse err w
      | None \<Rightarrow> suspend (TAdmit r False) w)"

definition SESSION_ATTACHMENT_IMAGE_MIME_TYPES :: "string list" where
  "SESSION_ATTACHMENT_IMAGE_MIME_TYPES = [''image/png'', ''image/jpeg'', ''image/webp'', ''image/gif'']"

text \<open>The resolved references in their order, as \<open>(name, id, MIME type)\<close>; \<open>None\<close> without references.\<close>

definition resolveSessionAttachments ::
  "attachment_reference list \<Rightarrow> attachment_table \<Rightarrow>
     admission_error + (string \<times> string \<times> string) list option" where
  "resolveSessionAttachments refs t =
     (if refs = [] then Inr None
      else
        let ids = map ar_attachmentId refs;
            rows = getUnreferenced ids t in
        if \<not> distinct ids then Inl RepeatedAttachment
        else if length (remdups (map at_id rows)) \<noteq> length ids then Inl MissingAttachment
        else
          let resolved = map (\<lambda>r. (ar_name r, find (\<lambda>x. at_id x = ar_attachmentId r) rows)) refs in
          if list_ex (\<lambda>(_, x). x = None) resolved then Inl MissingAttachment
          else if list_ex (\<lambda>(_, x). at_mimeType (the x) \<notin> set SESSION_ATTACHMENT_IMAGE_MIME_TYPES) resolved
          then Inl UnsupportedAttachment
          else Inr (Some (map (\<lambda>(n, x). (n, at_id (the x), at_mimeType (the x))) resolved)))"

text \<open>The row's columns once the request's model, effort and attachments are settled; an override
  that is no valid model is ignored unless the harness is strict.\<close>

definition queued_message ::
  "turn_env \<Rightarrow> prompt_request \<Rightarrow> (string \<times> string \<times> string) list option \<Rightarrow> turn_world \<Rightarrow> create_message" where
  "queued_message e r attachments w =
     (let d = pr_message r;
          model = (if truthy (cm_model d) \<and> (pr_strict r \<or> te_validModel e (the (cm_model d)))
                   then cm_model d else None);
          effective = (if truthy model then model else map_option sn_model (session_of w)) in
      d\<lparr>cm_id := te_messageId e, cm_model := model,
        cm_reasoningEffort := te_validEffort e effective (cm_reasoningEffort d),
        cm_attachments := map_option (te_attachmentsJson e) attachments,
        cm_status := MPending, cm_createdAt := te_now e\<rparr>)"

definition effective_model :: "turn_env \<Rightarrow> prompt_request \<Rightarrow> turn_world \<Rightarrow> string option" where
  "effective_model e r w =
     (let m = cm_model (queued_message e r None w) in
      if truthy m then m else map_option sn_model (session_of w))"

text \<open>The last synchronous turn of \<open>enqueuePromptCore\<close>: every check and the insert.\<close>

definition enqueuePromptCore :: "turn_env \<Rightarrow> prompt_request \<Rightarrow> turn_world \<Rightarrow> turn_world" where
  "enqueuePromptCore e r w =
     (case first_error [assertPromptableSession w, assertSandboxAcceptingPrompts e] of
        Some err \<Rightarrow> refuse err w
      | None \<Rightarrow>
     (case findDuplicatePrompt r w of
        Inl err \<Rightarrow> refuse err w
      | Inr (Some m) \<Rightarrow> accept (mg_id m) (getUnfinishedMessagePosition (mg_id m) (tw_db w)) True w
      | Inr None \<Rightarrow>
     (case first_error [assertBudgetAvailable w, assertQueueCapacity w] of
        Some err \<Rightarrow> refuse err w
      | None \<Rightarrow>
     (case resolveSessionAttachments (pr_attachments r) (db_attachments (tw_db w)) of
        Inl err \<Rightarrow> refuse err w
      | Inr attachments \<Rightarrow>
     (case te_requestIncompatible e (effective_model e r w) (cm_reasoningEffort (pr_message r)) of
        Some message \<Rightarrow> refuse (HarnessIncompatible message) w
      | None \<Rightarrow>
          let d = queued_message e r attachments w;
              ids = (if attachments = None then [] else map ar_attachmentId (pr_attachments r)) in
          (case createMessageWithAttachments d ids None (tw_db w) of
             None \<Rightarrow> refuse (if claimForMessage (cm_id d) ids (db_attachments (tw_db w)) = None
                            then MissingAttachment else StoreFailed) w
           | Some db \<Rightarrow>
               suspend (TAccepted (cm_id d)) (fst (transition SActive (te_now e) (w\<lparr>tw_db := db\<rparr>)))))))))"

text \<open>After the fingerprint: a strict harness answers a retry first and then asks its policy.\<close>

definition admit_prompt :: "turn_env \<Rightarrow> prompt_request \<Rightarrow> bool \<Rightarrow> turn_world \<Rightarrow> turn_world" where
  "admit_prompt e r policyChecked w =
     (if pr_strict r \<and> \<not> policyChecked
      then case findDuplicatePrompt r w of
             Inl err \<Rightarrow> refuse err w
           | Inr (Some m) \<Rightarrow> accept (mg_id m) (getUnfinishedMessagePosition (mg_id m) (tw_db w)) True w
           | Inr None \<Rightarrow> suspend (TAdmit r True) w
      else if policyChecked \<and> truthy (te_authError e)
      then refuse (HarnessIncompatible (the (te_authError e))) w
      else enqueuePromptCore e r w)"

definition prompt_accepted :: "string \<Rightarrow> turn_world \<Rightarrow> turn_world" where
  "prompt_accepted i w =
     (let w1 = broadcastPromptQueue w in
      accept i (Some (getPendingOrProcessingCount (tw_db w1))) False w1)"

section \<open>Autofix\<close>

definition AUTOFIX_ATTEMPT_WINDOW_MS :: ms where
  "AUTOFIX_ATTEMPT_WINDOW_MS = 24 * 60 * 60 * 1000"

definition isSessionMissingOrClosed :: "turn_world \<Rightarrow> bool" where
  "isSessionMissingOrClosed w =
     (case session_of w of None \<Rightarrow> True | Some s \<Rightarrow> sn_status s = SArchived \<or> sn_status s = SCancelled)"

definition redrivePendingAutofix :: "turn_env \<Rightarrow> string \<Rightarrow> turn_world \<Rightarrow> turn_world" where
  "redrivePendingAutofix e i w =
     (if getMessageStatus i (tw_db w) \<noteq> Some MPending \<or> isSessionMissingOrClosed w then w
      else suspend TRedrive (fst (transition SActive (te_now e) w)))"

definition enqueueAutofix :: "turn_env \<Rightarrow> autofix_command \<Rightarrow> turn_world \<Rightarrow> turn_world" where
  "enqueueAutofix e c w =
     (case admitAutofixMessage
        \<lparr>aa_message = (ac_message c)\<lparr>cm_id := te_messageId e, cm_authorCanonicalUserId := None,
           cm_source := SrcGithub, cm_status := MPending, cm_createdAt := te_now e\<rparr>,
         aa_feedbackKey = ac_feedbackKey c,
         aa_pullRequestKey = ''github:'' @ ac_repositoryId c @ '':'' @ show_nat (ac_number c),
         aa_originContext = ac_origin c, aa_attemptLimit = ac_attemptLimit c,
         aa_windowStart = te_now e - AUTOFIX_ATTEMPT_WINDOW_MS,
         aa_sessionClosed = isSessionMissingOrClosed w\<rparr> (tw_db w) of
        None \<Rightarrow> w
      | Some (db, a) \<Rightarrow>
          let w1 = note_fx (TxAutofix a) (w\<lparr>tw_db := db\<rparr>) in
          (case a of
             AutofixRejected _ \<Rightarrow> w1
           | AutofixDuplicate i \<Rightarrow> redrivePendingAutofix e i w1
           | AutofixEnqueued i \<Rightarrow> redrivePendingAutofix e i (broadcastPromptQueue w1)))"

definition lookupAutofix :: "turn_env \<Rightarrow> string \<Rightarrow> turn_world \<Rightarrow> turn_world" where
  "lookupAutofix e key w =
     (let i = getAutofixMessageId key (tw_db w) in
      if truthy i then redrivePendingAutofix e (the i) w else w)"

section \<open>Recovery and the alarm\<close>

definition applySandboxRecovery ::
  "turn_env \<Rightarrow> string option \<Rightarrow> sandbox_alarm_result \<Rightarrow> turn_world \<Rightarrow> turn_world" where
  "applySandboxRecovery e bootPrompt result w =
     (case result of
        SandboxTerminated \<Rightarrow> resumeAfterSandboxTermination w
      | BootAbandoned reason \<Rightarrow>
          (case bootPrompt of None \<Rightarrow> w | Some i \<Rightarrow> failPendingMessage e i reason w)
      | _ \<Rightarrow> w)"

definition handleFatalSandboxFailure :: "turn_env \<Rightarrow> string \<Rightarrow> turn_world \<Rightarrow> turn_world" where
  "handleFatalSandboxFailure e reason w =
     (let serving = (getProcessingMessage (tw_db w) \<noteq> None
                     \<or> getMessageAwaitingStopConfirmation (tw_db w) \<noteq> None);
          bootPrompt = (if serving then None else map_option mg_id (getNextPendingMessage (tw_db w))) in
      suspend (TFatal bootPrompt) (failStuckProcessingMessage e reason (note_fx (TxFatal reason) w)))"

definition SANDBOX_INTERRUPTED_ERROR :: string where
  "SANDBOX_INTERRUPTED_ERROR = ''Execution interrupted because the sandbox stopped or became unavailable.''"

text \<open>The alarm after preservation and projection let it go on.\<close>

definition alarm_started :: "turn_env \<Rightarrow> turn_world \<Rightarrow> turn_world" where
  "alarm_started e w = (if te_held e then w else suspend TAlarmTimeout (recoverStopConfirmationTimeout e w))"

definition alarm_timeout :: "turn_env \<Rightarrow> turn_world \<Rightarrow> turn_world" where
  "alarm_timeout e w = suspend TAlarmWatchdogs
     (case getProcessingMessageWithStartedAt (tw_db w) of
        Some (_, Some startedAt) \<Rightarrow>
          if startedAt = 0 then w
          else if er_isTimedOut (evaluateExecutionTimeout startedAt (te_timeoutMs e) (te_now e))
          then failStuckProcessingMessage e STUCK_PROCESSING_ERROR w
          else note_fx (TxAlarm (startedAt + te_timeoutMs e)) w
      | _ \<Rightarrow> w)"

definition alarm_watchdogs :: "turn_world \<Rightarrow> turn_world" where
  "alarm_watchdogs w =
     suspend (TAlarmResult (map_option mg_id (getNextPendingMessage (tw_db w)))) (note_fx TxWatchdogs w)"

definition redriveIdleQueue :: "turn_env \<Rightarrow> turn_world \<Rightarrow> turn_world" where
  "redriveIdleQueue e w = (if te_idleRuntime e then suspend TPump w else w)"

definition alarm_result :: "turn_env \<Rightarrow> string option \<Rightarrow> turn_world \<Rightarrow> turn_world" where
  "alarm_result e bootPrompt w =
     (case te_recovery e of
        NoAction \<Rightarrow> redriveIdleQueue e w
      | HeartbeatLost reason \<Rightarrow>
          suspend (TRecovery bootPrompt (HeartbeatLost reason)) (failStuckProcessingMessage e reason w)
      | result \<Rightarrow>
          suspend (TRecovery bootPrompt result) (failStuckProcessingMessage e SANDBOX_INTERRUPTED_ERROR w))"

section \<open>Closing and reopening the session\<close>

definition archive_session :: "turn_env \<Rightarrow> turn_world \<Rightarrow> turn_world" where
  "archive_session e w =
     (case session_of w of
        None \<Rightarrow> w
      | Some s \<Rightarrow>
          if sn_status s = SCancelled \<or> 0 < getPendingOrProcessingCount (tw_db w) then w
          else fst (transition SArchived (te_now e) w))"

definition expireDraft :: "turn_env \<Rightarrow> turn_world \<Rightarrow> turn_world" where
  "expireDraft e w =
     (case session_of w of
        None \<Rightarrow> w
      | Some s \<Rightarrow>
          if sn_status s \<noteq> SCreated then repairIndexStatus w
          else if 0 < getPendingOrProcessingCount (tw_db w) \<or> 0 < getMessageCount (tw_db w)
          then fst (settleFromMessageState (te_now e) w)
          else fst (transition SArchived (te_now e) w))"

definition unarchive :: "turn_env \<Rightarrow> turn_world \<Rightarrow> turn_world" where
  "unarchive e w =
     (case session_of w of
        None \<Rightarrow> w
      | Some s \<Rightarrow> if sn_status s \<noteq> SArchived then w else fst (settleFromMessageState (te_now e) w))"

definition cancel_request :: "turn_env \<Rightarrow> turn_world \<Rightarrow> turn_world" where
  "cancel_request e w =
     (case session_of w of
        None \<Rightarrow> w
      | Some s \<Rightarrow>
          if isSessionInactive (sn_status s) then w
          else fst (cancel_session (cancelExecution e) (te_now e) w))"

section \<open>Steps\<close>

text \<open>
  What reaches the session: a prompt, a cancelled prompt, a stop, the two autofix commands, a wake
  of the queue (a runtime that became ready, a connected bridge, a lifecycle change), a fatal
  report, the alarm, the runtime's completion and step reports, a new spending limit, the four
  lifecycle requests, a re-derived status after a lifecycle boundary, a finished metrics write,
  and any change of the tables outside the turns.
\<close>

datatype turn_event =
    EvPrompt prompt_request
  | EvCancelPrompt string
  | EvStop string
  | EvAutofix autofix_command
  | EvLookupAutofix string
  | EvWake
  | EvFatal string
  | EvAlarm
  | EvComplete execution_report
  | EvStepFinish cost_report "string option"
  | EvLimit "rat option"
  | EvCancelSession
  | EvArchive
  | EvExpireDraft
  | EvUnarchive
  | EvReconcile
  | EvMetricsWritten string
  | EvElsewhere session_db

fun turn_event_handler :: "turn_env \<Rightarrow> turn_event \<Rightarrow> turn_world \<Rightarrow> turn_world" where
  "turn_event_handler e (EvPrompt r) w = handle_prompt e r w"
| "turn_event_handler e (EvCancelPrompt i) w = cancelQueuedPrompt e i w"
| "turn_event_handler e (EvStop reason) w = stop e reason w"
| "turn_event_handler e (EvAutofix c) w =
     (if ac_strict c then suspend (TAutofix c) w else enqueueAutofix e c w)"
| "turn_event_handler e (EvLookupAutofix key) w = lookupAutofix e key w"
| "turn_event_handler e EvWake w = processMessageQueue e w"
| "turn_event_handler e (EvFatal reason) w = handleFatalSandboxFailure e reason w"
| "turn_event_handler e EvAlarm w = alarm_started e w"
| "turn_event_handler e (EvComplete r) w = handleExecutionComplete e r w"
| "turn_event_handler e (EvStepFinish r i) w = ingestStepFinish e r i w"
| "turn_event_handler e (EvLimit limit) w = updateLimit e limit w"
| "turn_event_handler e EvCancelSession w = cancel_request e w"
| "turn_event_handler e EvArchive w = archive_session e w"
| "turn_event_handler e EvExpireDraft w = expireDraft e w"
| "turn_event_handler e EvUnarchive w = unarchive e w"
| "turn_event_handler e EvReconcile w = reconcileFromMessageState (te_now e) w"
| "turn_event_handler e (EvMetricsWritten sid) w = metrics_written sid w"
| "turn_event_handler e (EvElsewhere db) w = w\<lparr>tw_db := db\<rparr>"

fun run_task :: "turn_env \<Rightarrow> task \<Rightarrow> turn_world \<Rightarrow> turn_world" where
  "run_task e TPump w = processMessageQueue e w"
| "run_task e (TAuth m now) w = pump_authed e m now (te_authError e) w"
| "run_task e (TPrepare m now sock) w = prompt_prepared e m now sock w"
| "run_task e (TStopped p stopSent) w = stop_delivered p stopSent (te_alarmOk e) w"
| "run_task e TTerminated w = resumeAfterSandboxTermination w"
| "run_task e (TFatal boot) w = applySandboxRecovery e boot (te_recovery e) w"
| "run_task e (TRecovery boot result) w = applySandboxRecovery e boot result w"
| "run_task e (TSettled c success) w = turn_settled e c success w"
| "run_task e (TAutofix c) w = enqueueAutofix e c w"
| "run_task e TRedrive w = (if truthy (te_blockReason e) then w else suspend TPump w)"
| "run_task e (TAdmit r policyChecked) w = admit_prompt e r policyChecked w"
| "run_task e (TAccepted i) w = prompt_accepted i w"
| "run_task e TAlarmTimeout w = alarm_timeout e w"
| "run_task e TAlarmWatchdogs w = alarm_watchdogs w"
| "run_task e (TAlarmResult boot) w = alarm_result e boot w"

end
