(* ===== verification/Dispatch_Order.thy ===== *)
theory Dispatch_Order
  imports Prompt_Ledger
begin

text \<open>
  What the prompt queue needs of the prompt table, as an interface. The queue picks a prompt,
  awaits the provider and only then claims it; it never re-reads the stop fence before the
  claim. That is sound because a store that keeps its oldest unfinished prompt in front cannot
  be overtaken: while the picked prompt still waits nothing else can have been claimed, so
  nothing else can have been stopped. The interface states the store's laws and proves that once;
  \<open>session/message-repository.ts\<close>'s statements are its instance.
\<close>

section \<open>The interface\<close>

text \<open>\<open>ready\<close> holds of well-formed stores; \<open>front\<close> is the oldest unfinished prompt, \<open>head\<close> the oldest
  waiting one, \<open>fenced\<close> an unconfirmed stop. The remaining parameters are the store's moves, as
  relations between the store before and after, for the named prompt.\<close>

locale dispatch_store =
  fixes ready :: "'s \<Rightarrow> bool"
    and front :: "'s \<Rightarrow> 'i option"
    and head :: "'s \<Rightarrow> 'i option"
    and running :: "'s \<Rightarrow> 'i option"
    and waiting :: "'s \<Rightarrow> 'i \<Rightarrow> bool"
    and fenced :: "'s \<Rightarrow> bool"
    and queued :: "'s \<Rightarrow> 'i \<Rightarrow> 's \<Rightarrow> bool"
    and claimed :: "'s \<Rightarrow> 'i \<Rightarrow> 's \<Rightarrow> bool"
    and requeued :: "'s \<Rightarrow> 'i \<Rightarrow> 's \<Rightarrow> bool"
    and finished :: "'s \<Rightarrow> 'i \<Rightarrow> 's \<Rightarrow> bool"
    and fence :: "'s \<Rightarrow> 'i \<Rightarrow> 's \<Rightarrow> bool"
  assumes head_waits: "ready s \<Longrightarrow> head s = Some i \<Longrightarrow> waiting s i"
    and head_front: "ready s \<Longrightarrow> running s = None \<Longrightarrow> front s = head s"
    and queue_law: "ready s \<Longrightarrow> queued s i s' \<Longrightarrow>
      running s' = running s \<and> waiting s' = (waiting s)(i := True) \<and> fenced s' = fenced s
        \<and> (front s \<noteq> None \<longrightarrow> front s' = front s)"
    and claim_law: "ready s \<Longrightarrow> claimed s i s' \<Longrightarrow>
      running s = None \<and> waiting s i \<and> running s' = Some i \<and> waiting s' = (waiting s)(i := False)
        \<and> fenced s' = fenced s \<and> front s' = front s"
    and requeue_law: "ready s \<Longrightarrow> requeued s i s' \<Longrightarrow>
      running s = Some i \<and> running s' = None \<and> waiting s' = (waiting s)(i := True)
        \<and> fenced s' = fenced s \<and> front s' = front s"
    and finish_law: "ready s \<Longrightarrow> finished s i s' \<Longrightarrow>
      running s' = (if running s = Some i then None else running s)
        \<and> waiting s' = (waiting s)(i := False) \<and> (fenced s' \<longrightarrow> fenced s)
        \<and> (\<forall>j. front s = Some j \<longrightarrow> j \<noteq> i \<longrightarrow> front s' = Some j)"
    and fence_law: "fence s i s' \<Longrightarrow>
      running s' = running s \<and> waiting s' = waiting s \<and> front s' = front s"
begin

text \<open>A running prompt is in front and no stop is unconfirmed; so is a picked prompt that still
  waits, and then nothing runs.\<close>

definition calm :: "'i set \<Rightarrow> 's \<Rightarrow> bool" where
  "calm P s \<longleftrightarrow> (\<forall>i. running s = Some i \<longrightarrow> front s = Some i \<and> \<not> fenced s)
     \<and> (\<forall>i \<in> P. waiting s i \<longrightarrow> front s = Some i \<and> \<not> fenced s \<and> running s = None)"

lemma calm_subset: "calm P s \<Longrightarrow> Q \<subseteq> P \<Longrightarrow> calm Q s"
  by (auto simp: calm_def)

lemma calm_running: "calm P s \<Longrightarrow> running s = Some i \<Longrightarrow> front s = Some i \<and> \<not> fenced s"
  by (simp add: calm_def)

lemma calm_pick:
  assumes "ready s" and "calm P s" and "head s = Some i" and "running s = None" and "\<not> fenced s"
  shows "calm (insert i P) s"
  using assms head_front by (simp add: calm_def)

lemma calm_queue:
  assumes "ready s" and "calm P s" and "queued s i s'" and "i \<notin> P"
  shows "calm P s'"
  using queue_law [OF assms(1,3)] assms(2,4) by (auto simp: calm_def)

lemma calm_claim:
  assumes "ready s" and "calm P s" and "claimed s i s'" and "i \<in> P"
  shows "calm P s'"
proof -
  note law = claim_law [OF assms(1,3)]
  have front: "front s = Some i" "\<not> fenced s" using assms(2,4) law by (auto simp: calm_def)
  have "\<not> waiting s' j" if "j \<in> P" for j
    using that assms(2) law front by (auto simp: calm_def)
  with law front show ?thesis by (simp add: calm_def)
qed

lemma calm_requeue:
  assumes "ready s" and "calm P s" and "requeued s i s'"
  shows "calm P s'"
proof -
  note law = requeue_law [OF assms(1,3)]
  have "\<not> waiting s j" if "j \<in> P" for j using that assms(2) law by (auto simp: calm_def)
  with law assms(2) show ?thesis by (auto simp: calm_def)
qed

lemma calm_finish:
  assumes "ready s" and "calm P s" and "finished s i s'"
  shows "calm P s'"
  using finish_law [OF assms(1,3)] assms(2) by (auto simp: calm_def split: if_splits)

text \<open>Stopping the running prompt fences the store, and leaves nothing picked that still waits.\<close>

lemma calm_stop:
  assumes "ready s" and "calm P s" and "running s = Some i" and "finished s i s1" and "fence s1 j s'"
  shows "calm P s'"
proof -
  have "\<not> waiting s k" if "k \<in> P" for k using that assms(2,3) by (auto simp: calm_def)
  then have "\<not> waiting s' k" if "k \<in> P" for k
    using that finish_law [OF assms(1,4)] fence_law [OF assms(5)] by auto
  moreover have "running s' = None"
    using finish_law [OF assms(1,4)] fence_law [OF assms(5)] assms(3) by simp
  ultimately show ?thesis by (simp add: calm_def)
qed

lemma calm_release:
  assumes "calm P s" and "fence s i s'" and "fenced s' \<Longrightarrow> fenced s"
  shows "calm P s'"
  using fence_law [OF assms(2)] assms(1,3) by (auto simp: calm_def)

end

section \<open>The prompt table\<close>

definition front_prompt :: "session_db \<Rightarrow> string option" where
  "front_prompt db = map_option mg_id (first_by mg_createdAt (filter is_unfinished (db_messages db)))"

definition next_prompt :: "session_db \<Rightarrow> string option" where
  "next_prompt db = map_option mg_id (getNextPendingMessage db)"

definition prompt_waits :: "session_db \<Rightarrow> string \<Rightarrow> bool" where
  "prompt_waits db i \<longleftrightarrow> getMessageStatus i db = Some MPending"

definition stop_unconfirmed :: "session_db \<Rightarrow> bool" where
  "stop_unconfirmed db \<longleftrightarrow> getMessageAwaitingStopConfirmation db \<noteq> None"

definition queues_prompt :: "session_db \<Rightarrow> string \<Rightarrow> session_db \<Rightarrow> bool" where
  "queues_prompt db i db' \<longleftrightarrow> (\<exists>d ids. createMessageWithAttachments d ids None db = Some db'
     \<and> cm_id d = i \<and> cm_status d = MPending \<and> (\<forall>m \<in> set (db_messages db). mg_createdAt m \<le> cm_createdAt d))"

definition claims_prompt :: "session_db \<Rightarrow> string \<Rightarrow> session_db \<Rightarrow> bool" where
  "claims_prompt db i db' \<longleftrightarrow> (\<exists>ts e. startMessageProcessing i ts e db = Some (db', True))"

definition requeues_prompt :: "session_db \<Rightarrow> string \<Rightarrow> session_db \<Rightarrow> bool" where
  "requeues_prompt db i db' \<longleftrightarrow> getMessageStatus i db = Some MProcessing \<and> db' = updateMessageToPending i db"

text \<open>A prompt finishes by a recorded completion or by being withdrawn while it waits.\<close>

definition finishes_prompt :: "session_db \<Rightarrow> string \<Rightarrow> session_db \<Rightarrow> bool" where
  "finishes_prompt db i db' \<longleftrightarrow>
     (\<exists>e ts st c. st \<in> {MPending, MProcessing} \<and> ce_messageId e = i
        \<and> recordMessageCompletion e ts st db = (db', Some c))
     \<or> cancelPendingMessage i db = (db', True)"

definition fences_prompt :: "session_db \<Rightarrow> string \<Rightarrow> session_db \<Rightarrow> bool" where
  "fences_prompt db i db' \<longleftrightarrow> (\<exists>d. db' = on_message i (\<lambda>m. m\<lparr>mg_stopDeadline := d\<rparr>) db)"

subsection \<open>The stable minimum\<close>

lemma first_by_simps:
  "first_by k [] = None"
  "first_by k (x # xs) = (case first_by k xs of None \<Rightarrow> Some x | Some r \<Rightarrow> Some (if k x \<le> k r then x else r))"
  by (auto simp: first_by_def split: list.split)

lemma first_by_map:
  assumes "\<And>x. x \<in> set xs \<Longrightarrow> k (f x) = k x"
  shows "first_by k (map f xs) = map_option f (first_by k xs)"
  using assms
proof (induction xs)
  case (Cons x xs)
  have "k (f r) = k r" if "first_by k xs = Some r" for r
    using that Cons.prems first_by_SomeD(1) by fastforce
  with Cons show ?case by (auto simp: first_by_simps split: option.split)
qed (simp add: first_by_simps)

lemma first_by_append:
  assumes "\<And>x. x \<in> set xs \<Longrightarrow> k x \<le> k y" and "first_by k xs = Some r"
  shows "first_by k (xs @ [y]) = Some r"
  using assms
proof (induction xs arbitrary: r)
  case (Cons x xs)
  show ?case
  proof (cases "first_by k xs")
    case None
    with Cons.prems show ?thesis by (auto simp: first_by_simps)
  next
    case (Some q)
    with Cons.IH [of q] Cons.prems show ?thesis by (auto simp: first_by_simps)
  qed
qed (simp add: first_by_simps)

lemma first_by_filter:
  assumes "first_by k xs = Some r" and "p r"
  shows "first_by k (filter p xs) = Some r"
  using assms
proof (induction xs arbitrary: r)
  case (Cons x xs)
  show ?case
  proof (cases "first_by k xs")
    case None
    with Cons.prems show ?thesis by (auto simp: first_by_simps)
  next
    case (Some q)
    have tail: "k q \<le> k z" if "first_by k (filter p xs) = Some z" for z
      using first_by_SomeD(1) [OF that] first_by_SomeD(2) [OF Some] by auto
    show ?thesis
    proof (cases "k x \<le> k q")
      case True
      with Cons.prems Some have "r = x" by (simp add: first_by_simps)
      with Cons.prems(2) True tail show ?thesis
        by (auto simp: first_by_simps split: option.split dest: order_trans)
    next
      case False
      with Cons.prems Some have "r = q" by (simp add: first_by_simps)
      with Cons.IH [of q] Cons.prems(2) Some False show ?thesis by (auto simp: first_by_simps)
    qed
  qed
qed (simp add: first_by_simps)

subsection \<open>The front under the table's statements\<close>

lemma front_kept:
  assumes "\<And>m. m \<in> set (db_messages db) \<Longrightarrow> is_unfinished (f m) = is_unfinished m"
    and "\<And>m. mg_id (f m) = mg_id m" and "\<And>m. mg_createdAt (f m) = mg_createdAt m"
    and "db_messages db' = map f (db_messages db)"
  shows "front_prompt db' = front_prompt db"
proof -
  have "filter is_unfinished (db_messages db') = map f (filter is_unfinished (db_messages db))"
    using assms(1,4) by (simp add: filter_map comp_def cong: filter_cong)
  then show ?thesis
    using assms(2,3) by (simp add: front_prompt_def first_by_map option.map_comp comp_def)
qed

lemma front_survives:
  assumes "front_prompt db = Some j" and "j \<noteq> i"
    and "filter is_unfinished (db_messages db') = filter p (filter is_unfinished (db_messages db))"
    and "\<And>m. mg_id m \<noteq> i \<Longrightarrow> p m"
  shows "front_prompt db' = Some j"
proof -
  from assms(1) obtain m where m: "first_by mg_createdAt (filter is_unfinished (db_messages db)) = Some m"
    and "mg_id m = j" by (auto simp: front_prompt_def)
  then have "p m" using assms(2,4) by blast
  then have "first_by mg_createdAt (filter is_unfinished (db_messages db')) = Some m"
    unfolding assms(3) by (rule first_by_filter [OF m])
  with \<open>mg_id m = j\<close> show ?thesis by (simp add: front_prompt_def)
qed

subsection \<open>Statuses under the table's statements\<close>

lemma getMessageStatus_update:
  assumes "db_messages db' = sql_update p f (db_messages db)" and "\<And>m. mg_id (f m) = mg_id m"
  shows "getMessageStatus i db'
    = map_option (\<lambda>m. mg_status (if p m then f m else m)) (message_with i (db_messages db))"
  using assms by (simp add: getMessageStatus_def message_with_def find_sql_update option.map_comp comp_def)

lemma status_iff:
  "messages_ok db \<Longrightarrow> getMessageStatus i db = Some s \<longleftrightarrow> (\<exists>m \<in> set (db_messages db). mg_id m = i \<and> mg_status m = s)"
  using message_with_mem by (force simp: getMessageStatus_def messages_ok_def)

lemma sql_count_one_unique:
  assumes "sql_count p t \<le> 1" and "x \<in> set t" "y \<in> set t" "p x" "p y"
  shows "x = y"
  using assms
proof (induction t)
  case (Cons a t)
  show ?case
  proof (cases "p a")
    case True
    with Cons.prems(1) have "sql_count p t = 0" by simp
    then have "\<forall>z \<in> set t. \<not> p z" by (simp add: sql_count_zero)
    with Cons.prems show ?thesis by auto
  next
    case False
    with Cons show ?thesis by auto
  qed
qed simp

lemma running_iff:
  assumes "messages_ok db"
  shows "getProcessingMessage db = Some i \<longleftrightarrow> getMessageStatus i db = Some MProcessing"
proof
  assume "getProcessingMessage db = Some i"
  then show "getMessageStatus i db = Some MProcessing"
    by (auto simp: status_iff [OF assms] getProcessingMessage_def processing_row_def dest: find_SomeD)
next
  assume "getMessageStatus i db = Some MProcessing"
  then obtain m where m: "m \<in> set (db_messages db)" "mg_id m = i" "mg_status m = MProcessing"
    by (auto simp: status_iff [OF assms])
  then obtain x where x: "processing_row db = Some x"
    unfolding processing_row_def by (cases "find (\<lambda>m. mg_status m = MProcessing) (db_messages db)")
      (auto dest: find_NoneD)
  then have "x \<in> set (db_messages db)" "mg_status x = MProcessing"
    unfolding processing_row_def by (auto dest: find_SomeD)
  then have "x = m"
    using sql_count_one_unique [of is_processing "db_messages db" x m] assms m
    by (simp add: messages_ok_def is_processing_def)
  with x m show "getProcessingMessage db = Some i" by (simp add: getProcessingMessage_def)
qed

text \<open>The running prompt and the fence follow from the statuses and the deadlines.\<close>

lemma running_by_status:
  assumes "messages_ok db" and "messages_ok db'"
    and "\<And>j. getMessageStatus j db' = Some MProcessing \<longleftrightarrow> r = Some j"
  shows "getProcessingMessage db' = r"
proof (cases r)
  case (Some i)
  then show ?thesis using running_iff [OF assms(2), of i] assms(3) [of i] by simp
next
  case None
  then show ?thesis using running_iff [OF assms(2)] assms(3) by (cases "getProcessingMessage db'") auto
qed

lemma stop_unconfirmed_iff: "stop_unconfirmed db \<longleftrightarrow> (\<exists>m \<in> set (db_messages db). mg_stopDeadline m \<noteq> None)"
proof -
  have "stop_unconfirmed db \<longleftrightarrow> find (\<lambda>m. mg_stopDeadline m \<noteq> None) (db_messages db) \<noteq> None"
    unfolding stop_unconfirmed_def getMessageAwaitingStopConfirmation_def by (simp split: option.split)
  then show ?thesis by (simp only: find_None_iff) blast
qed

lemma update_status:
  assumes "messages_ok db" and "db_messages db' = sql_update p f (db_messages db)"
    and "\<And>m. mg_id (f m) = mg_id m" and "m \<in> set (db_messages db)" and "p m"
    and "\<And>x. p x \<Longrightarrow> mg_id x = mg_id m"
  shows "getMessageStatus j db' = (if j = mg_id m then Some (mg_status (f m)) else getMessageStatus j db)"
proof -
  have "message_with (mg_id m) (db_messages db) = Some m"
    using message_with_unique assms(1,4) by (simp add: messages_ok_def)
  moreover have "\<not> p x" if "message_with j (db_messages db) = Some x" "j \<noteq> mg_id m" for x
    using that assms(6) by (auto simp: message_with_def dest: find_SomeD)
  ultimately show ?thesis
    using assms(5) by (subst getMessageStatus_update [OF assms(2,3)])
      (cases "message_with j (db_messages db)"; auto simp: getMessageStatus_def [of _ db])
qed

lemma deadlines_kept:
  assumes "db_messages db' = map f (db_messages db)" and "\<And>m. mg_stopDeadline (f m) = mg_stopDeadline m"
  shows "stop_unconfirmed db' = stop_unconfirmed db"
  using assms by (auto simp: stop_unconfirmed_iff)

subsection \<open>The laws\<close>

lemma queue_rows:
  assumes "createMessageWithAttachments d ids None db = Some db'"
  shows "db_messages db' = db_messages db @ [message_of d]" and "\<not> violates_key (message_of d) (db_messages db)"
    and "db_core db' = db_core db"
  using assms by (auto simp: createMessageWithAttachments_def createMessage_def split: option.splits if_splits)

lemma queue_store:
  assumes ok: "messages_ok db" and "queues_prompt db i db'"
  shows "messages_ok db'" and "getMessageStatus j db' = (if j = i then Some MPending else getMessageStatus j db)"
    and "getMessageStatus i db = None" and "stop_unconfirmed db' = stop_unconfirmed db"
    and "front_prompt db \<noteq> None \<Longrightarrow> front_prompt db' = front_prompt db"
proof -
  from assms(2) obtain d ids where d: "createMessageWithAttachments d ids None db = Some db'"
    "cm_id d = i" "cm_status d = MPending"
    and old: "\<And>m. m \<in> set (db_messages db) \<Longrightarrow> mg_createdAt m \<le> cm_createdAt d"
    by (auto simp: queues_prompt_def)
  note rows = queue_rows [OF d(1)]
  have new: "mg_id (message_of d) = i" "mg_status (message_of d) = MPending"
    "mg_createdAt (message_of d) = cm_createdAt d" "mg_stopDeadline (message_of d) = None"
    using d by (simp_all add: message_of_def)
  show "messages_ok db'" using createMessageWithAttachments_ok [OF ok d(3,1)] .
  have "message_with i (db_messages db) = None"
    using rows(2) new(1) by (auto simp: message_with_def find_None_iff violates_key_def)
  then show "getMessageStatus i db = None" by (simp add: getMessageStatus_def)
  with new show "getMessageStatus j db' = (if j = i then Some MPending else getMessageStatus j db)"
    by (auto simp: getMessageStatus_def message_with_def rows(1) find_append split: option.split)
  show "stop_unconfirmed db' = stop_unconfirmed db"
    using new(4) by (auto simp: stop_unconfirmed_iff rows(1))
  assume "front_prompt db \<noteq> None"
  then have "first_by mg_createdAt (filter is_unfinished (db_messages db)) \<noteq> None"
    unfolding front_prompt_def by simp
  then obtain r where r: "first_by mg_createdAt (filter is_unfinished (db_messages db)) = Some r"
    unfolding not_None_eq by blast
  have "is_unfinished (message_of d)" using new(2) by (simp add: is_unfinished_def)
  then have "first_by mg_createdAt (filter is_unfinished (db_messages db')) = Some r"
    using first_by_append [of "filter is_unfinished (db_messages db)" mg_createdAt "message_of d" r] old new(3) r
    by (simp add: rows(1))
  with r show "front_prompt db' = front_prompt db" by (simp add: front_prompt_def)
qed

lemma claim_rows:
  assumes "startMessageProcessing i ts e db = Some (db', True)"
  obtains m where "m \<in> set (db_messages db)" "mg_id m = i" "mg_status m = MPending"
    and "sql_count (\<lambda>x. mg_status x = MProcessing) (db_messages db) = 0"
    and "db_messages db' = sql_update (\<lambda>m. mg_id m = i \<and> mg_status m = MPending)
           (\<lambda>m. m\<lparr>mg_status := MProcessing, mg_startedAt := Some ts, mg_mcpRevision := mg_mcpRevision m + 1,
              mg_mcpContext := None, mg_mcpClosed := False\<rparr>) (db_messages db)"
    and "db_core db' = db_core db"
proof -
  let ?p = "\<lambda>m. mg_id m = i \<and> mg_status m = MPending
      \<and> sql_count (\<lambda>x. mg_status x = MProcessing) (db_messages db) = 0"
  have one: "sql_count ?p (db_messages db) = 1"
    using assms by (auto simp: startMessageProcessing_def Let_def split: if_splits)
  then have "0 < sql_count ?p (db_messages db)" by linarith
  then have "\<exists>m \<in> set (db_messages db). ?p m" unfolding sql_count_pos .
  then obtain m where m: "m \<in> set (db_messages db)" "?p m" by blast
  from assms one that [OF m(1)] m(2) show thesis
    by (auto simp: startMessageProcessing_def Let_def)
qed

lemma claim_store:
  assumes ok: "messages_ok db" and "claims_prompt db i db'"
  shows "messages_ok db'" and "getMessageStatus i db = Some MPending" and "getProcessingMessage db = None"
    and "getMessageStatus j db' = (if j = i then Some MProcessing else getMessageStatus j db)"
    and "stop_unconfirmed db' = stop_unconfirmed db" and "front_prompt db' = front_prompt db"
proof -
  from assms(2) obtain ts e where c: "startMessageProcessing i ts e db = Some (db', True)"
    by (auto simp: claims_prompt_def)
  show "messages_ok db'" using startMessageProcessing_ok [OF ok c] .
  from c obtain m where m: "m \<in> set (db_messages db)" "mg_id m = i" "mg_status m = MPending"
    and idle: "sql_count (\<lambda>x. mg_status x = MProcessing) (db_messages db) = 0"
    and rows: "db_messages db' = sql_update (\<lambda>m. mg_id m = i \<and> mg_status m = MPending)
           (\<lambda>m. m\<lparr>mg_status := MProcessing, mg_startedAt := Some ts, mg_mcpRevision := mg_mcpRevision m + 1,
              mg_mcpContext := None, mg_mcpClosed := False\<rparr>) (db_messages db)"
    by (rule claim_rows)
  show "getMessageStatus i db = Some MPending" using m by (auto simp: status_iff [OF ok])
  have "find (\<lambda>m. mg_status m = MProcessing) (db_messages db) = None" using idle by (simp only: find_count)
  then show "getProcessingMessage db = None" by (simp add: getProcessingMessage_def processing_row_def)
  show "getMessageStatus j db' = (if j = i then Some MProcessing else getMessageStatus j db)"
    using update_status [OF ok rows _ m(1)] m by simp
  show "stop_unconfirmed db' = stop_unconfirmed db"
    by (rule deadlines_kept [OF rows [unfolded sql_update_def]]) simp
  show "front_prompt db' = front_prompt db"
    by (rule front_kept [OF _ _ _ rows [unfolded sql_update_def]]) (simp_all add: is_unfinished_def)
qed

lemma requeue_store:
  assumes ok: "messages_ok db" and "requeues_prompt db i db'"
  shows "messages_ok db'" and "getProcessingMessage db = Some i"
    and "getMessageStatus j db' = (if j = i then Some MPending else getMessageStatus j db)"
    and "stop_unconfirmed db' = stop_unconfirmed db" and "front_prompt db' = front_prompt db"
proof -
  from assms(2) have st: "getMessageStatus i db = Some MProcessing" and db': "db' = updateMessageToPending i db"
    by (simp_all add: requeues_prompt_def)
  show "messages_ok db'" using updateMessageToPending_ok [OF ok] db' by simp
  show "getProcessingMessage db = Some i" using st running_iff [OF ok] by simp
  from st obtain m where m: "m \<in> set (db_messages db)" "mg_id m = i" "mg_status m = MProcessing"
    by (auto simp: status_iff [OF ok])
  have rows: "db_messages db' = sql_update (\<lambda>m. mg_id m = i \<and> mg_status m = MProcessing)
      (\<lambda>m. m\<lparr>mg_status := MPending, mg_startedAt := None\<rparr>) (db_messages db)"
    by (simp add: db' updateMessageToPending_def Let_def)
  show "getMessageStatus j db' = (if j = i then Some MPending else getMessageStatus j db)"
    using update_status [OF ok rows _ m(1)] m by simp
  show "stop_unconfirmed db' = stop_unconfirmed db"
    by (rule deadlines_kept [OF rows [unfolded sql_update_def]]) simp
  show "front_prompt db' = front_prompt db"
    by (rule front_kept [OF _ _ _ rows [unfolded sql_update_def]]) (simp_all add: is_unfinished_def)
qed

lemma complete_rows:
  assumes "recordMessageCompletion e ts st db = (db', Some c)"
  obtains m where "m \<in> set (db_messages db)" "mg_id m = ce_messageId e" "mg_status m = st"
    and "db_messages db' = sql_update (\<lambda>m. mg_id m = ce_messageId e)
           (\<lambda>m. m\<lparr>mg_status := (if ce_success e then MCompleted else MFailed), mg_completedAt := Some ts,
              mg_errorMessage := (if ce_success e then None else ce_error e)\<rparr>) (db_messages db)"
    and "db_core db' = db_core db" and "rc_messageId c = ce_messageId e"
proof -
  from assms obtain m where m: "message_with (ce_messageId e) (db_messages db) = Some m" "mg_status m = st"
    by (auto simp: recordMessageCompletion_def Let_def split: option.splits if_splits)
  then have "m \<in> set (db_messages db)" "mg_id m = ce_messageId e"
    by (auto simp: message_with_def dest: find_SomeD)
  with assms m that [of m] show thesis
    by (auto simp: recordMessageCompletion_def Let_def on_message_def)
qed

lemma unfinished_after_completion:
  assumes "\<And>m. \<not> is_unfinished (f m)"
  shows "filter is_unfinished (sql_update p f t) = filter (\<lambda>m. \<not> p m) (filter is_unfinished t)"
  using assms by (induction t) auto

lemma cancel_rows:
  assumes "cancelPendingMessage i db = (db', True)"
  obtains m where "m \<in> set (db_messages db)" "mg_id m = i" "mg_status m = MPending"
    and "db_messages db' = sql_delete (\<lambda>m. mg_id m = i \<and> mg_status m = MPending) (db_messages db)"
    and "db_core db' = db_core db"
proof -
  from assms obtain m where m: "message_with i (db_messages db) = Some m" "mg_status m = MPending"
    by (auto simp: cancelPendingMessage_def split: option.splits if_splits)
  then have "m \<in> set (db_messages db)" "mg_id m = i" by (auto simp: message_with_def dest: find_SomeD)
  with assms m that [of m] show thesis
    by (auto simp: cancelPendingMessage_def Let_def split: if_splits)
qed

lemma complete_store:
  assumes ok: "messages_ok db" and st: "st \<in> {MPending, MProcessing}"
    and c: "recordMessageCompletion e ts st db = (db', Some c)"
  shows "messages_ok db'" and "getMessageStatus (ce_messageId e) db = Some st"
    and "getMessageStatus (ce_messageId e) db' \<notin> {Some MPending, Some MProcessing}"
    and "j \<noteq> ce_messageId e \<Longrightarrow> getMessageStatus j db' = getMessageStatus j db"
    and "stop_unconfirmed db' = stop_unconfirmed db"
    and "front_prompt db = Some j \<Longrightarrow> j \<noteq> ce_messageId e \<Longrightarrow> front_prompt db' = Some j"
proof -
  show "messages_ok db'" using recordMessageCompletion_ok [OF ok, of e ts st] c by simp
  let ?f = "\<lambda>m. m\<lparr>mg_status := (if ce_success e then MCompleted else MFailed), mg_completedAt := Some ts,
              mg_errorMessage := (if ce_success e then None else ce_error e)\<rparr>"
  from c obtain m where m: "m \<in> set (db_messages db)" "mg_id m = ce_messageId e" "mg_status m = st"
    and rows: "db_messages db' = sql_update (\<lambda>m. mg_id m = ce_messageId e) ?f (db_messages db)"
    by (rule complete_rows)
  show "getMessageStatus (ce_messageId e) db = Some st" using m by (auto simp: status_iff [OF ok])
  note status = update_status [OF ok rows _ m(1)]
  show "getMessageStatus (ce_messageId e) db' \<notin> {Some MPending, Some MProcessing}"
    using status [of "ce_messageId e"] m(2) by simp
  show "getMessageStatus j db' = getMessageStatus j db" if "j \<noteq> ce_messageId e"
    using status [of j] m(2) that by simp
  show "stop_unconfirmed db' = stop_unconfirmed db"
    by (rule deadlines_kept [OF rows [unfolded sql_update_def]]) simp
  show "front_prompt db' = Some j" if "front_prompt db = Some j" "j \<noteq> ce_messageId e"
    by (rule front_survives [OF that, where p = "\<lambda>m. mg_id m \<noteq> ce_messageId e"])
      (simp_all add: rows unfinished_after_completion is_unfinished_def)
qed

lemma cancel_store:
  assumes ok: "messages_ok db" and c: "cancelPendingMessage i db = (db', True)"
  shows "messages_ok db'" and "getMessageStatus i db = Some MPending" and "getMessageStatus i db' = None"
    and "j \<noteq> i \<Longrightarrow> getMessageStatus j db' = getMessageStatus j db"
    and "stop_unconfirmed db' \<Longrightarrow> stop_unconfirmed db"
    and "front_prompt db = Some j \<Longrightarrow> j \<noteq> i \<Longrightarrow> front_prompt db' = Some j"
proof -
  show ok': "messages_ok db'" using cancelPendingMessage_ok [OF ok, of i] c by simp
  from c obtain m where m: "m \<in> set (db_messages db)" "mg_id m = i" "mg_status m = MPending"
    and rows: "db_messages db' = sql_delete (\<lambda>m. mg_id m = i \<and> mg_status m = MPending) (db_messages db)"
    by (rule cancel_rows)
  show st: "getMessageStatus i db = Some MPending" using m by (auto simp: status_iff [OF ok])
  have gone: "getMessageStatus i db' \<noteq> Some s" for s
  proof
    assume "getMessageStatus i db' = Some s"
    then obtain x where x: "x \<in> set (db_messages db)" "mg_id x = i" "mg_status x \<noteq> MPending"
      by (auto simp: status_iff [OF ok'] rows)
    then have "getMessageStatus i db = Some (mg_status x)" by (auto simp: status_iff [OF ok])
    with st x(3) show False by simp
  qed
  then show "getMessageStatus i db' = None" by auto
  show "getMessageStatus j db' = getMessageStatus j db" if "j \<noteq> i"
  proof -
    have "find (\<lambda>m. mg_id m = j) (sql_delete (\<lambda>m. mg_id m = i \<and> mg_status m = MPending) t)
        = find (\<lambda>m. mg_id m = j) t" for t :: message_table
      using that by (induction t) auto
    then show ?thesis by (simp add: getMessageStatus_def message_with_def rows)
  qed
  show "stop_unconfirmed db" if "stop_unconfirmed db'" using that by (auto simp: stop_unconfirmed_iff rows)
  show "front_prompt db' = Some j" if "front_prompt db = Some j" "j \<noteq> i"
    by (rule front_survives [OF that, where p = "\<lambda>m. \<not> (mg_id m = i \<and> mg_status m = MPending)"])
      (auto simp: rows sql_delete_def conj_commute)
qed

lemma fence_store:
  assumes "fences_prompt db i db'"
  shows "getMessageStatus j db' = getMessageStatus j db" and "front_prompt db' = front_prompt db"
    and "getProcessingMessage db' = getProcessingMessage db" and "messages_ok db \<Longrightarrow> messages_ok db'"
proof -
  from assms obtain d where db': "db' = on_message i (\<lambda>m. m\<lparr>mg_stopDeadline := d\<rparr>) db"
    by (auto simp: fences_prompt_def)
  then have rows: "db_messages db' = sql_update (\<lambda>m. mg_id m = i) (\<lambda>m. m\<lparr>mg_stopDeadline := d\<rparr>) (db_messages db)"
    by (simp add: on_message_def)
  show "getMessageStatus j db' = getMessageStatus j db"
    by (subst getMessageStatus_update [OF rows])
      (cases "message_with j (db_messages db)"; simp add: getMessageStatus_def)+
  show "front_prompt db' = front_prompt db"
    by (rule front_kept [OF _ _ _ rows [unfolded sql_update_def]]) (simp_all add: is_unfinished_def)
  show "getProcessingMessage db' = getProcessingMessage db"
    by (cases "find (\<lambda>m. mg_status m = MProcessing) (db_messages db)")
      (simp_all add: getProcessingMessage_def processing_row_def rows find_sql_update)
  show "messages_ok db'" if "messages_ok db" unfolding db' by (rule on_message_ok [OF that]) simp_all
qed

lemma finish_store:
  assumes ok: "messages_ok db" and "finishes_prompt db i db'"
  shows "messages_ok db'"
    and "getProcessingMessage db' = (if getProcessingMessage db = Some i then None else getProcessingMessage db)"
    and "prompt_waits db' j \<longleftrightarrow> j \<noteq> i \<and> prompt_waits db j"
    and "stop_unconfirmed db' \<Longrightarrow> stop_unconfirmed db"
    and "front_prompt db = Some j \<Longrightarrow> j \<noteq> i \<Longrightarrow> front_prompt db' = Some j"
proof -
  have facts: "messages_ok db' \<and> (\<forall>j. j \<noteq> i \<longrightarrow> getMessageStatus j db' = getMessageStatus j db)
      \<and> getMessageStatus i db' \<notin> {Some MPending, Some MProcessing}
      \<and> (stop_unconfirmed db' \<longrightarrow> stop_unconfirmed db)
      \<and> (\<forall>j. front_prompt db = Some j \<longrightarrow> j \<noteq> i \<longrightarrow> front_prompt db' = Some j)"
    using assms(2) complete_store [OF ok] cancel_store [OF ok] unfolding finishes_prompt_def by fastforce
  then show ok': "messages_ok db'" and "stop_unconfirmed db' \<Longrightarrow> stop_unconfirmed db"
    and "front_prompt db = Some j \<Longrightarrow> j \<noteq> i \<Longrightarrow> front_prompt db' = Some j"
    and "prompt_waits db' j \<longleftrightarrow> j \<noteq> i \<and> prompt_waits db j"
    by (auto simp: prompt_waits_def)
  have "getMessageStatus j db' = Some MProcessing \<longleftrightarrow> j \<noteq> i \<and> getProcessingMessage db = Some j" for j
    using facts by (cases "j = i") (auto simp: running_iff [OF ok])
  then show "getProcessingMessage db' = (if getProcessingMessage db = Some i then None else getProcessingMessage db)"
    by (intro running_by_status [OF ok ok']) (cases "getProcessingMessage db"; auto)
qed

lemma next_is_front:
  assumes "messages_ok db" and "getProcessingMessage db = None"
  shows "front_prompt db = next_prompt db"
proof -
  have "mg_status m \<noteq> MProcessing" if "m \<in> set (db_messages db)" for m
    using that assms(2) by (auto simp: getProcessingMessage_def processing_row_def dest: find_NoneD)
  then have "filter is_unfinished (db_messages db) = filter (\<lambda>m. mg_status m = MPending) (db_messages db)"
    by (intro filter_cong) (auto simp: is_unfinished_def)
  then show ?thesis by (simp add: front_prompt_def next_prompt_def getNextPendingMessage_def)
qed

lemma queue_running:
  assumes "messages_ok db" and "queues_prompt db i db'"
  shows "getProcessingMessage db' = getProcessingMessage db"
  by (rule running_by_status [OF assms(1) queue_store(1) [OF assms]])
    (simp add: queue_store(2) [OF assms] queue_store(3) [OF assms] running_iff [OF assms(1)])

lemma requeue_running:
  assumes "messages_ok db" and "requeues_prompt db i db'"
  shows "getProcessingMessage db' = None"
proof (rule running_by_status [OF assms(1) requeue_store(1) [OF assms]])
  have "getMessageStatus j db \<noteq> Some MProcessing" if "j \<noteq> i" for j
    using that requeue_store(2) [OF assms] running_iff [OF assms(1), of j] by simp
  then show "getMessageStatus j db' = Some MProcessing \<longleftrightarrow> None = Some j" for j
    by (simp add: requeue_store(3) [OF assms])
qed

interpretation prompts: dispatch_store messages_ok front_prompt next_prompt getProcessingMessage
  prompt_waits stop_unconfirmed queues_prompt claims_prompt requeues_prompt finishes_prompt fences_prompt
proof unfold_locales
  fix db db' :: session_db and i :: string
  assume ok: "messages_ok db"
  show "next_prompt db = Some i \<Longrightarrow> prompt_waits db i"
    unfolding next_prompt_def getNextPendingMessage_def prompt_waits_def
    by (fastforce simp: status_iff [OF ok] dest: first_by_SomeD(1))
  show "getProcessingMessage db = None \<Longrightarrow> front_prompt db = next_prompt db"
    by (rule next_is_front [OF ok])
  show "getProcessingMessage db' = getProcessingMessage db \<and> prompt_waits db' = (prompt_waits db)(i := True)
      \<and> stop_unconfirmed db' = stop_unconfirmed db
      \<and> (front_prompt db \<noteq> None \<longrightarrow> front_prompt db' = front_prompt db)" if "queues_prompt db i db'"
    using queue_store [OF ok that] queue_running [OF ok that] by (simp add: prompt_waits_def fun_eq_iff)
  show "getProcessingMessage db = None \<and> prompt_waits db i \<and> getProcessingMessage db' = Some i
      \<and> prompt_waits db' = (prompt_waits db)(i := False) \<and> stop_unconfirmed db' = stop_unconfirmed db
      \<and> front_prompt db' = front_prompt db" if "claims_prompt db i db'"
    using claim_store [OF ok that] by (simp add: prompt_waits_def fun_eq_iff running_iff)
  show "getProcessingMessage db = Some i \<and> getProcessingMessage db' = None
      \<and> prompt_waits db' = (prompt_waits db)(i := True) \<and> stop_unconfirmed db' = stop_unconfirmed db
      \<and> front_prompt db' = front_prompt db" if "requeues_prompt db i db'"
    using requeue_store [OF ok that] requeue_running [OF ok that] by (simp add: prompt_waits_def fun_eq_iff)
  show "getProcessingMessage db' = (if getProcessingMessage db = Some i then None else getProcessingMessage db)
      \<and> prompt_waits db' = (prompt_waits db)(i := False) \<and> (stop_unconfirmed db' \<longrightarrow> stop_unconfirmed db)
      \<and> (\<forall>j. front_prompt db = Some j \<longrightarrow> j \<noteq> i \<longrightarrow> front_prompt db' = Some j)" if "finishes_prompt db i db'"
    using finish_store [OF ok that] by (auto simp: fun_eq_iff)
next
  fix db db' :: session_db and i :: string
  assume "fences_prompt db i db'"
  from fence_store [OF this]
  show "getProcessingMessage db' = getProcessingMessage db \<and> prompt_waits db' = prompt_waits db
      \<and> front_prompt db' = front_prompt db" by (simp add: prompt_waits_def fun_eq_iff)
qed

end
