(* ===== verification/Turn_Moves.thy ===== *)
theory Turn_Moves
  imports Message_Queue Dispatch_Order
begin

text \<open>
  The turns of a session as a step relation, and its abstraction: every handler and every resumed
  continuation is a sequence of ten kinds of guarded moves on the prompt table. The invariants of
  the turns are proved of the moves; the decomposition here carries them to the code.
\<close>

section \<open>Views of the world\<close>

text \<open>The prompts some pump has picked and not yet come back to, and the prompts sent.\<close>

fun picked_by :: "task \<Rightarrow> string option" where
  "picked_by (TAuth m _) = Some (mg_id m)"
| "picked_by _ = None"

fun is_prompt :: "turn_effect \<Rightarrow> bool" where
  "is_prompt (TxPrompt _ _) = True"
| "is_prompt _ = False"

definition picked :: "turn_world \<Rightarrow> string set" where
  "picked w = {i. \<exists>k \<in> set (tw_tasks w). picked_by k = Some i}"

definition sent :: "turn_world \<Rightarrow> (turn_effect \<times> session_db) list" where
  "sent w = filter (\<lambda>(x, _). is_prompt x) (tw_log w)"

definition cancelled :: "session_db \<Rightarrow> bool" where
  "cancelled db \<longleftrightarrow> some_holds (\<lambda>s. sn_status s = SCancelled) (getSession (db_core db))"

definition spent :: "session_db \<Rightarrow> bool" where
  "spent db \<longleftrightarrow> some_holds sn_budgetExhausted (getSession (db_core db))"

section \<open>Steps\<close>

text \<open>
  A step handles an event or resumes a waiting continuation. Its clock does not run backwards and
  an id it generates is new to the pumps (generated ids are random; the table refuses the ones it
  holds). A change from outside the turns keeps the prompts, the session's status and its budget
  flag. A restart of the session's process loses every continuation.
\<close>

definition elsewhere_ok :: "turn_event \<Rightarrow> session_db \<Rightarrow> bool" where
  "elsewhere_ok ev db = (case ev of
     EvElsewhere db' \<Rightarrow> db_messages db' = db_messages db \<and> (messages_ok db \<longrightarrow> messages_ok db')
       \<and> map_option (\<lambda>s. (sn_status s, sn_budgetExhausted s)) (getSession (db_core db'))
          = map_option (\<lambda>s. (sn_status s, sn_budgetExhausted s)) (getSession (db_core db))
   | _ \<Rightarrow> True)"

definition clocked :: "turn_env \<Rightarrow> turn_world \<Rightarrow> turn_world" where
  "clocked e w = w\<lparr>tw_clock := te_now e\<rparr>"

definition env_ok :: "turn_env \<Rightarrow> turn_world \<Rightarrow> bool" where
  "env_ok e w \<longleftrightarrow> tw_clock w \<le> te_now e \<and> te_messageId e \<notin> picked w"

definition drop_task :: "task \<Rightarrow> turn_world \<Rightarrow> turn_world" where
  "drop_task k w = w\<lparr>tw_tasks := remove1 k (tw_tasks w)\<rparr>"

inductive turn_step :: "turn_env \<Rightarrow> turn_world \<Rightarrow> turn_world \<Rightarrow> bool" where
  event: "env_ok e w \<Longrightarrow> elsewhere_ok ev (tw_db w) \<Longrightarrow>
    turn_step e w (turn_event_handler e ev (clocked e w))"
| resume: "env_ok e w \<Longrightarrow> k \<in> set (tw_tasks w) \<Longrightarrow>
    turn_step e w (drop_task k (run_task e k (clocked e w)))"
| restart: "turn_step e w (w\<lparr>tw_tasks := [], tw_metrics := WriterIdle\<rparr>)"

section \<open>Moves\<close>

inductive turn_move :: "turn_env \<Rightarrow> turn_world \<Rightarrow> turn_world \<Rightarrow> bool" where
  aside: "db_messages (tw_db w') = db_messages (tw_db w) \<Longrightarrow>
    (messages_ok (tw_db w) \<longrightarrow> messages_ok (tw_db w')) \<Longrightarrow>
    (cancelled (tw_db w) \<longrightarrow> cancelled (tw_db w')) \<Longrightarrow>
    (spent (tw_db w') \<longrightarrow> spent (tw_db w) \<or> getProcessingMessage (tw_db w) = None) \<Longrightarrow>
    picked w' \<subseteq> picked w \<Longrightarrow> sent w' = sent w \<Longrightarrow> tw_clock w \<le> tw_clock w' \<Longrightarrow> turn_move e w w'"
| pick: "getNextPendingMessage (tw_db w) = Some m \<Longrightarrow> getProcessingMessage (tw_db w) = None \<Longrightarrow>
    \<not> stop_unconfirmed (tw_db w) \<Longrightarrow> turn_move e w (suspend (TAuth m ts) w)"
| send: "getMessageStatus i (tw_db w) = Some MProcessing \<Longrightarrow> te_mayDispatch e \<Longrightarrow>
    te_target e = TargetDispatch sock \<Longrightarrow> te_sendOk e \<Longrightarrow> turn_move e w (note_fx (TxPrompt sock i) w)"
| queue: "createMessageWithAttachments d ids None (tw_db w) = Some db \<Longrightarrow> cm_status d = MPending \<Longrightarrow>
    cm_createdAt d = tw_clock w \<Longrightarrow> cm_id d \<notin> picked w \<Longrightarrow> \<not> cancelled (tw_db w) \<Longrightarrow>
    getPendingOrProcessingCount (tw_db w) < MAX_UNFINISHED_PROMPTS \<Longrightarrow> turn_move e w (w\<lparr>tw_db := db\<rparr>)"
| claim: "claims_prompt (tw_db w) i db \<Longrightarrow> \<not> spent (tw_db w) \<Longrightarrow>
    i \<in> picked w \<or> next_prompt (tw_db w) = Some i \<and> \<not> stop_unconfirmed (tw_db w) \<Longrightarrow>
    turn_move e w (w\<lparr>tw_db := db\<rparr>)"
| requeue: "requeues_prompt (tw_db w) i db \<Longrightarrow> turn_move e w (w\<lparr>tw_db := db\<rparr>)"
| finish: "finishes_prompt (tw_db w) i db \<Longrightarrow> turn_move e w (w\<lparr>tw_db := db\<rparr>)"
| stop: "getProcessingMessage (tw_db w) = Some i \<Longrightarrow> finishes_prompt (tw_db w) i db1 \<Longrightarrow>
    fences_prompt db1 j db \<Longrightarrow> turn_move e w (w\<lparr>tw_db := db\<rparr>)"
| release: "turn_move e w (w\<lparr>tw_db := clearMessageAwaitingStopConfirmation i (tw_db w)\<rparr>)"
| cost: "turn_move e w (w\<lparr>tw_db := fst (raiseReportedCost i c (tw_db w))\<rparr>)"

abbreviation moves :: "turn_env \<Rightarrow> turn_world \<Rightarrow> turn_world \<Rightarrow> bool" where
  "moves e \<equiv> (turn_move e)\<^sup>*\<^sup>*"

named_theorems moves_intro "closure of the moves under the building blocks of the handlers"

lemma moves_step: "moves e w w1 \<Longrightarrow> turn_move e w1 w2 \<Longrightarrow> moves e w w2"
  by (rule rtranclp.rtrancl_into_rtrancl)

lemma moves_refl [moves_intro]: "moves e w w"
  by simp

text \<open>A change that touches neither prompts nor flags.\<close>

lemma aside_db:
  assumes "moves e w w1" and "tw_db w2 = tw_db w1" and "picked w2 \<subseteq> picked w1" and "sent w2 = sent w1"
    and "tw_clock w1 \<le> tw_clock w2"
  shows "moves e w w2"
  by (rule moves_step [OF assms(1)], rule turn_move.aside) (use assms in simp_all)

lemma picked_suspend [simp]: "picked (suspend k w) = picked w \<union> set_option (picked_by k)"
  by (auto simp: picked_def)

lemma picked_note [simp]: "picked (note_fx x w) = picked w"
  by (simp add: picked_def)

lemma picked_db [simp]: "picked (w\<lparr>tw_db := db\<rparr>) = picked w" "picked (w\<lparr>tw_metrics := x\<rparr>) = picked w"
  by (simp_all add: picked_def)

lemma sent_simps [simp]:
  "sent (suspend k w) = sent w" "sent (w\<lparr>tw_db := db\<rparr>) = sent w" "sent (w\<lparr>tw_metrics := y\<rparr>) = sent w"
  "sent (note_fx x w) = sent w @ (if is_prompt x then [(x, tw_db w)] else [])"
  by (simp_all add: sent_def)

lemma moves_note [moves_intro]: "moves e w w' \<Longrightarrow> \<not> is_prompt x \<Longrightarrow> moves e w (note_fx x w')"
  by (erule aside_db) simp_all

lemma moves_suspend [moves_intro]: "moves e w w' \<Longrightarrow> picked_by k = None \<Longrightarrow> moves e w (suspend k w')"
  by (erule aside_db) simp_all

lemma moves_metrics [moves_intro]: "moves e w w' \<Longrightarrow> moves e w (w'\<lparr>tw_metrics := x\<rparr>)"
  by (erule aside_db) simp_all

text \<open>The tables a stretch of code may have replaced, one at a time.\<close>

lemma core_move:
  assumes "moves e w w1" and "cancelled (tw_db w1) \<Longrightarrow> some_holds (\<lambda>s. sn_status s = SCancelled) (getSession c)"
    and "some_holds sn_budgetExhausted (getSession c) \<Longrightarrow> spent (tw_db w1) \<or> getProcessingMessage (tw_db w1) = None"
  shows "moves e w (w1\<lparr>tw_db := (tw_db w1)\<lparr>db_core := c\<rparr>\<rparr>)"
  by (rule moves_step [OF assms(1)], rule turn_move.aside)
    (use assms(2,3) in \<open>auto simp: messages_ok_def cancelled_def spent_def\<close>)

lemma moves_in_core:
  assumes "moves e w w1" and "\<And>s. sn_status (f s) = sn_status s"
    and "\<And>s. session_of w1 = Some s \<Longrightarrow> sn_budgetExhausted (f s) \<Longrightarrow>
      sn_budgetExhausted s \<or> getProcessingMessage (tw_db w1) = None"
  shows "moves e w (in_core (on_session f) w1)"
  unfolding in_core_def
  by (rule core_move [OF assms(1)])
    (use assms(2,3) in \<open>auto simp: on_session_def getSession_def cancelled_def spent_def split: list.splits\<close>)

section \<open>The status service\<close>

lemma moves_sync [moves_intro]: "moves e w w' \<Longrightarrow> moves e w (syncSessionMetrics sid w')"
  unfolding syncSessionMetrics_def by (auto intro!: moves_intro split: metrics_writer.split)

lemma moves_written [moves_intro]: "moves e w w' \<Longrightarrow> moves e w (metrics_written sid w')"
  unfolding metrics_written_def by (auto intro!: moves_intro split: metrics_writer.split bool.split)

lemma moves_project [moves_intro]: "moves e w w' \<Longrightarrow> moves e w (projectTransition s sid st t r w')"
  unfolding projectTransition_def Let_def by (auto intro!: moves_intro)

lemma getSession_set_status:
  "getSession c = Some s \<Longrightarrow> getSession (updateSessionStatus (sn_id s) st t c)
     = Some (s\<lparr>sn_status := st, sn_updatedAt := t, sn_statusRevision := sn_statusRevision s + 1\<rparr>)"
  by (auto simp: updateSessionStatus_def on_session_id_def getSession_def split: list.splits)

lemma moves_set_status [moves_intro]:
  assumes "moves e w w'" and "session_of w' = Some s" and "sn_status s = SCancelled \<Longrightarrow> st = SCancelled"
  shows "moves e w (set_session_status s st t w')"
  unfolding set_session_status_def
  by (rule core_move [OF assms(1)])
    (use assms(2,3) in \<open>auto simp: getSession_set_status cancelled_def spent_def\<close>)

lemma moves_transition [moves_intro]:
  assumes "moves e w w'" and "cancelled (tw_db w') \<Longrightarrow> st = SCancelled"
  shows "moves e w (fst (transition st n w'))"
  using assms unfolding transition_def Let_def
  by (auto intro!: moves_intro simp: cancelled_def split: option.split)

lemma open_not_cancelled: "\<not> isSessionClosed w \<Longrightarrow> \<not> cancelled (tw_db w)"
  by (auto simp: isSessionClosed_def cancelled_def split: option.splits)

lemma moves_reconcile [moves_intro]:
  assumes "moves e w w'"
  shows "moves e w (reconcileAfterExecution b n w')" and "moves e w (reconcileAfterQueueRemoval n w')"
    and "moves e w (reconcileFromMessageState n w')"
  using assms unfolding reconcileAfterExecution_def reconcileAfterQueueRemoval_def
    reconcileFromMessageState_def settleFromMessageState_def Let_def
  by (auto intro!: moves_intro dest: open_not_cancelled)

lemma moves_settle_state [moves_intro]:
  assumes "moves e w w'" and "\<not> cancelled (tw_db w')"
  shows "moves e w (fst (settleFromMessageState n w'))"
  using assms unfolding settleFromMessageState_def Let_def by (auto intro!: moves_intro)

lemma moves_broadcast [moves_intro]: "moves e w w' \<Longrightarrow> moves e w (broadcastPromptQueue w')"
  unfolding broadcastPromptQueue_def by (auto intro!: moves_intro)

section \<open>Failures, stops, spending\<close>

lemma finish_by_record:
  assumes "recordMessageCompletion ev ts st db = (db', Some c)" and "st \<in> {MPending, MProcessing}"
  shows "finishes_prompt db (ce_messageId ev) db'"
  using assms unfolding finishes_prompt_def by blast

lemma record_none: "recordMessageCompletion ev ts st db = (db', None) \<Longrightarrow> db' = db"
  by (auto simp: recordMessageCompletion_def Let_def split: option.splits if_splits)

lemma moves_record:
  assumes "moves e w w'" and "recordMessageCompletion ev ts st (tw_db w') = (db, c)"
    and "st \<in> {MPending, MProcessing}"
  shows "moves e w (w'\<lparr>tw_db := db\<rparr>)"
proof (cases c)
  case None
  with record_none assms(1,2) show ?thesis by fastforce
next
  case (Some x)
  with assms moves_step turn_move.finish finish_by_record show ?thesis by blast
qed

lemma moves_turn_failure:
  assumes "record_turn_failure e i err ts st w' = (w1, c)" and "moves e w w'" and "st \<in> {MPending, MProcessing}"
  shows "moves e w w1"
  using assms moves_record [OF assms(2) _ assms(3)]
  by (auto simp: record_turn_failure_def split: prod.splits)

lemma moves_fail_step:
  assumes "failMessage e i err ts st w' = (w1, b)" and "moves e w w'" and "st \<in> {MPending, MProcessing}"
  shows "moves e w w1"
  using assms moves_turn_failure [OF _ assms(2,3)]
  by (auto simp: failMessage_def intro!: moves_intro split: prod.splits option.splits)

lemma moves_fail [moves_intro]:
  assumes "moves e w w'" and "st \<in> {MPending, MProcessing}"
    and "\<And>w1. moves e w w1 \<Longrightarrow> moves e w (f w1)" and "\<And>w1. moves e w w1 \<Longrightarrow> moves e w (g w1)"
  shows "moves e w (case failMessage e i err ts st w' of (w1, False) \<Rightarrow> f w1 | (w1, True) \<Rightarrow> g w1)"
proof -
  obtain w1 b where fm: "failMessage e i err ts st w' = (w1, b)" by fastforce
  with moves_fail_step [OF fm assms(1,2)] assms(3,4) show ?thesis by (cases b) simp_all
qed

lemma fence_by_mark: "fences_prompt db i (markMessageAwaitingStopConfirmation i d db)"
  by (auto simp: fences_prompt_def markMessageAwaitingStopConfirmation_def)

lemma prepare_stop_cases:
  assumes "prepare_stop e reason w = (w1, p)"
  obtains "w1 = w" "messages_ok (tw_db w) \<Longrightarrow> getProcessingMessage (tw_db w) = None"
  | i db1 db2 d where "getProcessingMessage (tw_db w) = Some i" "finishes_prompt (tw_db w) i db1"
    "db2 = markMessageAwaitingStopConfirmation i d db1"
    "w1 = note_fx (TxPendingAlarm d) (w\<lparr>tw_db := db2\<rparr>)"
proof -
  show thesis
  proof (cases "getProcessingMessageWithCreatedAt (tw_db w)")
    case None
    then have "getProcessingMessage (tw_db w) = None"
      by (simp add: getProcessingMessageWithCreatedAt_def getProcessingMessage_def)
    with None assms that(1) show thesis by (simp add: prepare_stop_def Let_def)
  next
    case (Some x)
    then have run: "getProcessingMessage (tw_db w) = Some (fst x)"
      by (auto simp: getProcessingMessageWithCreatedAt_def getProcessingMessage_def)
    let ?ev = "\<lparr>ce_messageId = fst x, ce_success = False, ce_error = Some reason,
        ce_json = te_failureJson e (fst x) reason (te_now e)\<rparr>"
    obtain db1 c where rec: "recordMessageCompletion ?ev (te_now e) MProcessing (tw_db w) = (db1, c)"
      by (cases "recordMessageCompletion ?ev (te_now e) MProcessing (tw_db w)")
    have eq: "(w1, p) = (case c of
          None \<Rightarrow> (w\<lparr>tw_db := db1\<rparr>, None)
        | Some y \<Rightarrow> (note_fx (TxPendingAlarm (te_now e + STOP_CONFIRMATION_TIMEOUT_MS))
             (w\<lparr>tw_db := markMessageAwaitingStopConfirmation (rc_messageId y)
                (te_now e + STOP_CONFIRMATION_TIMEOUT_MS) db1\<rparr>),
            Some \<lparr>sp_deadline = te_now e + STOP_CONFIRMATION_TIMEOUT_MS, sp_failure = y\<rparr>))"
      unfolding assms [symmetric] prepare_stop_def Let_def Some
      by (cases x, cases c) (use rec in \<open>simp_all add: record_turn_failure_def\<close>)
    show thesis
    proof (cases c)
      case None
      have "getMessageStatus (fst x) (tw_db w) \<noteq> Some MProcessing"
        using rec [unfolded None] by (auto simp: recordMessageCompletion_def getMessageStatus_def Let_def
          split: option.splits if_splits)
      then have "\<not> messages_ok (tw_db w)" using run running_iff by blast
      with None eq record_none rec that(1) show thesis by simp
    next
      case (Some y)
      have "finishes_prompt (tw_db w) (fst x) db1" "rc_messageId y = fst x"
        using finish_by_record [OF rec [unfolded Some]] complete_rows [OF rec [unfolded Some]] by auto
      with run eq Some that(2) show thesis by simp
    qed
  qed
qed

lemma moves_prepare_stop:
  assumes "prepare_stop e reason w' = (w1, p)" and "moves e w w'"
  shows "moves e w w1"
  using assms(1)
proof (cases rule: prepare_stop_cases)
  case 1
  with assms(2) show ?thesis by simp
next
  case (2 i db1 db2 d)
  have "turn_move e w' (w'\<lparr>tw_db := db2\<rparr>)" using 2(1,2) fence_by_mark unfolding 2(3) by (rule turn_move.stop)
  with assms(2) have "moves e w (w'\<lparr>tw_db := db2\<rparr>)" by (rule moves_step)
  then show ?thesis unfolding 2(4) by (auto intro!: moves_intro)
qed

lemma moves_deliver_stop [moves_intro]: "moves e w w' \<Longrightarrow> moves e w (deliver_stop e p w')"
  unfolding deliver_stop_def Let_def by (auto intro!: moves_intro)

lemma moves_stop [moves_intro]:
  assumes "moves e w w'"
  shows "moves e w (stop e reason w')"
proof -
  obtain w1 p where ps: "prepare_stop e reason w' = (w1, p)" by fastforce
  with moves_prepare_stop [OF ps assms] show ?thesis
    unfolding stop_def by (cases p) (auto intro!: moves_intro)
qed

lemma moves_recover_stop [moves_intro]: "moves e w w' \<Longrightarrow> moves e w (recoverStopConfirmationTimeout e w')"
  unfolding recoverStopConfirmationTimeout_def by (auto intro!: moves_intro split: option.split)

lemma moves_stop_delivered [moves_intro]: "moves e w w' \<Longrightarrow> moves e w (stop_delivered p b ok w')"
  unfolding stop_delivered_def by (auto intro!: moves_intro)

lemma moves_release [moves_intro]:
  "moves e w w' \<Longrightarrow> moves e w (w'\<lparr>tw_db := clearMessageAwaitingStopConfirmation i (tw_db w')\<rparr>)"
  by (erule moves_step) (rule turn_move.release)

lemma moves_resume [moves_intro]: "moves e w w' \<Longrightarrow> moves e w (resumeAfterSandboxTermination w')"
  unfolding resumeAfterSandboxTermination_def by (auto intro!: moves_intro split: option.split)

subsection \<open>Spending\<close>

lemma record_core:
  "recordMessageCompletion ev ts st (db\<lparr>db_core := c\<rparr>)
    = (case recordMessageCompletion ev ts st db of (db', r) \<Rightarrow> (db'\<lparr>db_core := c\<rparr>, r))"
  by (simp add: recordMessageCompletion_def on_message_def Let_def split: option.split)

lemma cancel_core:
  "cancelPendingMessage i (db\<lparr>db_core := c\<rparr>) = (case cancelPendingMessage i db of (db', b) \<Rightarrow> (db'\<lparr>db_core := c\<rparr>, b))"
  by (simp add: cancelPendingMessage_def Let_def split: option.split)

lemma finish_core:
  assumes "finishes_prompt (db\<lparr>db_core := c\<rparr>) i db1"
  obtains db2 where "finishes_prompt db i db2" "db1 = db2\<lparr>db_core := c\<rparr>"
proof -
  from assms consider
      e ts st r where "st \<in> {MPending, MProcessing}" "ce_messageId e = i"
        "recordMessageCompletion e ts st (db\<lparr>db_core := c\<rparr>) = (db1, Some r)"
    | "cancelPendingMessage i (db\<lparr>db_core := c\<rparr>) = (db1, True)"
    unfolding finishes_prompt_def by blast
  then show thesis
  proof cases
    case (1 e ts st r)
    obtain db2 r2 where "recordMessageCompletion e ts st db = (db2, r2)" by fastforce
    with 1 that [of db2] show thesis by (auto simp: record_core finishes_prompt_def)
  next
    case 2
    obtain db2 b where "cancelPendingMessage i db = (db2, b)" by fastforce
    with 2 that [of db2] show thesis by (auto simp: cancel_core finishes_prompt_def)
  qed
qed

lemma running_core [simp]: "getProcessingMessage (db\<lparr>db_core := c\<rparr>) = getProcessingMessage db"
  by (simp add: getProcessingMessage_def processing_row_def)

lemma mark_core: "markMessageAwaitingStopConfirmation i d (db\<lparr>db_core := c\<rparr>)
    = (markMessageAwaitingStopConfirmation i d db)\<lparr>db_core := c\<rparr>"
  by (simp add: markMessageAwaitingStopConfirmation_def on_message_def)

text \<open>Exhausting the budget stops the running prompt in the same transaction.\<close>

lemma moves_stop_spent:
  assumes "moves e w w'" and ok: "messages_ok (tw_db w')"
    and f: "\<And>s. sn_status (f s) = sn_status s"
    and "prepare_stop e reason (in_core (on_session f) w') = (w1, p)"
  shows "moves e w w1"
  using assms(4)
proof (cases rule: prepare_stop_cases)
  case 1
  have "messages_ok (tw_db (in_core (on_session f) w'))" using ok by (simp add: in_core_def messages_ok_def)
  with 1(2) have "getProcessingMessage (tw_db w') = None" by (simp add: in_core_def)
  with 1(1) f show ?thesis by (auto intro: moves_in_core [OF assms(1)])
next
  case (2 i db1 db2 d)
  let ?c = "on_session f (db_core (tw_db w'))"
  from 2(2) obtain db0 where db0: "finishes_prompt (tw_db w') i db0" "db1 = db0\<lparr>db_core := ?c\<rparr>"
    unfolding in_core_def by (auto elim: finish_core)
  let ?stopped = "w'\<lparr>tw_db := markMessageAwaitingStopConfirmation i d db0\<rparr>"
  have run: "getProcessingMessage (tw_db w') = Some i" using 2(1) by (simp add: in_core_def)
  then have "turn_move e w' ?stopped" using db0(1) fence_by_mark by (rule turn_move.stop)
  with assms(1) have m: "moves e w ?stopped" by (rule moves_step)
  have idle: "getProcessingMessage (tw_db ?stopped) = None"
    using fence_store(3) [OF fence_by_mark, of i d db0] finish_store(2) [OF ok db0(1)] run by simp
  have w1: "w1 = note_fx (TxPendingAlarm d) (w'\<lparr>tw_db := (tw_db ?stopped)\<lparr>db_core := ?c\<rparr>\<rparr>)"
    using 2(3,4) db0(2) by (simp add: in_core_def mark_core)
  have "db_core (tw_db ?stopped) = db_core (tw_db w')"
    using db0(1) by (auto simp: markMessageAwaitingStopConfirmation_def on_message_def finishes_prompt_def
      elim: complete_rows cancel_rows)
  then have "moves e w (?stopped\<lparr>tw_db := (tw_db ?stopped)\<lparr>db_core := ?c\<rparr>\<rparr>)"
    using idle f by (intro core_move [OF m])
      (auto simp: cancelled_def on_session_def getSession_def split: list.splits)
  then show ?thesis unfolding w1 by (auto intro!: moves_intro)
qed

subsection \<open>Well-formed tables along the moves\<close>

lemma column_ok:
  "messages_ok db \<Longrightarrow> messages_ok (clearMessageAwaitingStopConfirmation i db)"
  "messages_ok db \<Longrightarrow> messages_ok (fst (raiseReportedCost i c db))"
  using messages_ok_op [of db "OpStopConfirmed i"] messages_ok_op [of db "OpCost i c"] by simp_all

lemma move_ok:
  assumes "turn_move e w w'" and ok: "messages_ok (tw_db w)"
  shows "messages_ok (tw_db w')"
  using assms(1)
proof cases
  case (queue d ids db)
  with createMessageWithAttachments_ok [OF ok queue(3,2)] show ?thesis by simp
next
  case (claim i db)
  with claim_store(1) [OF ok claim(2)] show ?thesis by simp
next
  case (requeue i db)
  with requeue_store(1) [OF ok requeue(2)] show ?thesis by simp
next
  case (finish i db)
  with finish_store(1) [OF ok finish(2)] show ?thesis by simp
next
  case (stop i db1 j db)
  with fence_store(4) [OF stop(4) finish_store(1) [OF ok stop(3)]] show ?thesis by simp
qed (use ok in \<open>simp_all add: column_ok\<close>)

lemma moves_ok: "moves e w w' \<Longrightarrow> messages_ok (tw_db w) \<Longrightarrow> messages_ok (tw_db w')"
  by (induction rule: rtranclp_induct) (auto intro: move_ok)

subsection \<open>The budget service\<close>

lemma moves_persist:
  assumes "persistWarning e m i w' = Some w1" and "moves e w w'"
  shows "moves e w w1"
proof -
  from assms(1) obtain d evs where evs: "createEvent d (db_events (tw_db w')) = Some evs"
    and w1: "w1 = w'\<lparr>tw_db := (tw_db w')\<lparr>db_events := evs\<rparr>\<rparr>"
    by (auto simp: persistWarning_def)
  have "messages_ok (tw_db w') \<longrightarrow> messages_ok (tw_db w1)"
    using createEvent_SomeD [OF evs] events_ok_append [of "db_events (tw_db w')" d]
    unfolding w1 by (auto intro!: messages_ok_events simp: messages_ok_def)
  then have "turn_move e w' w1" by (intro turn_move.aside) (auto simp: w1 cancelled_def spent_def)
  with assms(2) show ?thesis by (rule moves_step)
qed

lemma moves_exhaustion:
  assumes "prepareExhaustion e t l i w' = Some (w2, b)"
    and "\<And>reason w1 p. prepare_stop e reason w' = (w1, p) \<Longrightarrow> moves e w w1"
  shows "moves e w w2"
  using assms(1) by (auto simp: prepareExhaustion_def Let_def split: prod.splits intro: moves_persist assms(2))

lemma moves_apply_cost:
  assumes "applyObservedCost e t i w' = Some (w2, b)" and "moves e w w'" and "messages_ok (tw_db w')"
  shows "moves e w w2"
proof -
  let ?f = "\<lambda>r. r\<lparr>sn_budgetExhausted := True, sn_updatedAt := te_now e\<rparr>"
  from assms(1) consider "w2 = w'"
    | l where "prepareExhaustion e t l i (in_core (on_session ?f) w') = Some (w2, b)"
    unfolding applyObservedCost_def markBudgetExhausted_def by (auto split: option.splits if_splits)
  then show ?thesis
  proof cases
    case (2 l)
    show ?thesis
      by (rule moves_exhaustion [OF 2], erule moves_stop_spent [rotated 3]) (use assms in simp_all)
  qed (use assms in simp)
qed

lemma moves_add_cost:
  assumes "add_observed_cost e delta i w' = Some (w2, b)" and "moves e w w'" and "messages_ok (tw_db w')"
  shows "moves e w w2"
proof (cases "delta \<le> 0")
  case True
  with assms show ?thesis by (simp add: add_observed_cost_def)
next
  case False
  let ?f = "\<lambda>r. r\<lparr>sn_totalCost := sn_totalCost r + delta, sn_updatedAt := te_now e\<rparr>"
  let ?w = "in_core (on_session ?f) w'"
  from False assms(1) obtain spent b' where "applyObservedCost e spent i ?w = Some (w2, b')"
    by (auto simp: add_observed_cost_def addSessionCost_def in_core_def split: option.splits)
  moreover have "moves e w ?w" by (rule moves_in_core [OF assms(2)]) simp_all
  moreover have "messages_ok (tw_db ?w)" using assms(3) by (simp add: in_core_def messages_ok_def)
  ultimately show ?thesis by (rule moves_apply_cost)
qed

lemma moves_cost: "moves e w w' \<Longrightarrow> moves e w (w'\<lparr>tw_db := fst (raiseReportedCost i c (tw_db w'))\<rparr>)"
  by (erule moves_step) (rule turn_move.cost)

lemma moves_budget_status [moves_intro]: "moves e w w' \<Longrightarrow> moves e w (broadcastStatus w')"
  unfolding broadcastStatus_def by (auto intro!: moves_intro split: option.split)

lemma moves_deliver [moves_intro]: "moves e w w' \<Longrightarrow> moves e w (deliverTransition e t w')"
  unfolding deliverTransition_def Let_def by (auto intro!: moves_intro split: option.split)

lemma moves_observe:
  assumes "observeReportedCost r i w' = (w1, d)" and "moves e w w'"
  shows "moves e w w1"
  using assms moves_cost [OF assms(2)]
  by (auto simp: observeReportedCost_def split: option.splits prod.splits) (metis fst_conv)

lemma moves_ingest: "messages_ok (tw_db w) \<Longrightarrow> moves e w (ingestStepFinish e r i w)"
proof -
  assume ok: "messages_ok (tw_db w)"
  obtain w1 d where obs: "observeReportedCost r i w = (w1, d)" by fastforce
  then have m: "moves e w w1" using moves_observe moves_refl by blast
  with ok moves_ok have "messages_ok (tw_db w1)" by blast
  with m moves_add_cost obs show "moves e w (ingestStepFinish e r i w)"
    unfolding ingestStepFinish_def by (auto intro!: moves_intro split: option.split)
qed

lemma moves_limit:
  assumes ok: "messages_ok (tw_db w)"
  shows "moves e w (updateLimit e limit w)"
proof (cases "session_of w")
  case None
  then show ?thesis by (simp add: updateLimit_def)
next
  case (Some s)
  let ?ex = "case limit of None \<Rightarrow> False | Some l \<Rightarrow> l \<le> sn_totalCost s"
  let ?f = "\<lambda>r. r\<lparr>sn_maxCostUsd := limit, sn_budgetExhausted := ?ex, sn_updatedAt := te_now e\<rparr>"
  let ?w1 = "in_core (on_session ?f) w"
  let ?r = "if ?ex \<and> \<not> sn_budgetExhausted s
                  then prepareExhaustion e (sn_totalCost s) (the limit) None ?w1
                  else Some (?w1, NO_BUDGET_TRANSITION\<lparr>bt_statusChanged := True\<rparr>)"
  have "moves e w w2" if "?r = Some (w2, t)" for w2 t
  proof (cases "?ex \<and> \<not> sn_budgetExhausted s")
    case True
    with that have "prepareExhaustion e (sn_totalCost s) (the limit) None ?w1 = Some (w2, t)" by simp
    then show ?thesis
      by (rule moves_exhaustion, elim moves_stop_spent [rotated 3]) (use ok in simp_all)
  next
    case False
    then have "moves e w ?w1" using Some by (intro moves_in_core) auto
    with that False show ?thesis by simp
  qed
  then show ?thesis using Some
    by (auto simp: updateLimit_def setSessionBudget_def Let_def intro!: moves_intro split: option.split)
qed

subsection \<open>The end of a turn\<close>

lemma moves_settle_execution:
  assumes "settle_execution e r w = Some (w2, c, t)" and ok: "messages_ok (tw_db w)"
  shows "moves e w w2"
proof -
  let ?i = "ce_messageId (xr_completion r)"
  obtain db c0 where rec: "(if getProcessingMessage (tw_db w) = Some ?i
      then recordMessageCompletion (xr_completion r) (te_now e) MProcessing (tw_db w) else (tw_db w, None)) = (db, c0)"
    by fastforce
  let ?w1 = "w\<lparr>tw_db := (if c0 = None then clearMessageAwaitingStopConfirmation ?i db else db)\<rparr>"
  have "moves e w (w\<lparr>tw_db := db\<rparr>)"
    using rec moves_record [OF moves_refl, where ev = "xr_completion r" and ts = "te_now e" and st = MProcessing and w = w] by (auto split: if_splits)
  then have m1: "moves e w ?w1" using moves_release [of e w "w\<lparr>tw_db := db\<rparr>"] by simp
  show ?thesis
  proof (cases "xr_cumulative r")
    case None
    with assms(1) rec m1 show ?thesis by (auto simp: settle_execution_def Let_def)
  next
    case (Some q)
    let ?w3 = "?w1\<lparr>tw_db := fst (raiseReportedCost ?i (Some q) (tw_db ?w1))\<rparr>"
    have m3: "moves e w ?w3" by (rule moves_cost [OF m1])
    from assms(1) rec Some obtain d b where "add_observed_cost e d (Some ?i) ?w3 = Some (w2, b)"
      by (auto simp: settle_execution_def Let_def split: prod.splits)
    from moves_add_cost [OF this m3 moves_ok [OF m3 ok]] show ?thesis .
  qed
qed

lemma moves_execution_complete: "messages_ok (tw_db w) \<Longrightarrow> moves e w (handleExecutionComplete e r w)"
  unfolding handleExecutionComplete_def Let_def
  by (auto intro!: moves_intro dest: moves_settle_execution split: option.split)

lemma moves_settled [moves_intro]: "moves e w w' \<Longrightarrow> moves e w (turn_settled e c b w')"
  unfolding turn_settled_def Let_def by (auto intro!: moves_intro)

section \<open>The queue\<close>

lemma moves_fail_pending [moves_intro]: "moves e w w' \<Longrightarrow> moves e w (failPendingMessage e i err w')"
  unfolding failPendingMessage_def by (auto intro!: moves_intro split: option.split)

lemma moves_fail_stuck [moves_intro]: "moves e w w' \<Longrightarrow> moves e w (failStuckProcessingMessage e err w')"
  unfolding failStuckProcessingMessage_def by (auto intro!: moves_intro split: option.split)

lemma moves_fst_fail: "moves e w w' \<Longrightarrow> st \<in> {MPending, MProcessing} \<Longrightarrow> moves e w (fst (failMessage e i err ts st w'))"
  using moves_fail_step [of e i err ts st w'] by (metis prod.collapse)

lemma moves_cancel_execution [moves_intro]:
  assumes "moves e w w'"
  shows "moves e w (cancelExecution e w')"
proof -
  let ?fail = "\<lambda>(i, _) w. fst (failMessage e i ''Execution was cancelled before it started'' (te_now e) MPending w)"
  have fold: "moves e w (fold ?fail xs v)" if "moves e w v" for xs :: "(string \<times> ms) list" and v
    using that
  proof (induction xs arbitrary: v)
    case (Cons x xs)
    have "moves e w (?fail x v)" by (cases x) (simp add: Cons.prems moves_fst_fail)
    then show ?case using Cons.IH by simp
  qed simp
  have "moves e w (fold ?fail (listPendingMessagesWithCreatedAt (tw_db w')) w')" by (rule fold [OF assms])
  then show ?thesis
    unfolding cancelExecution_def Let_def
    by (auto intro!: moves_intro moves_fst_fail split: option.split)
qed

lemma count_distinct_key: "distinct (map f t) \<Longrightarrow> sql_count (\<lambda>m. f m = i) t \<le> 1"
proof (induction t)
  case (Cons x t)
  then have "f x \<notin> f ` set t" by simp
  then have "f x = i \<Longrightarrow> \<forall>m \<in> set t. f m \<noteq> i" by blast
  then have "f x = i \<Longrightarrow> sql_count (\<lambda>m. f m = i) t = 0" by (simp add: sql_count_zero)
  with Cons show ?case by auto
qed simp

lemma cancel_refused:
  assumes ok: "messages_ok db" and c: "cancelPendingMessage i db = (db', False)"
  shows "db' = db"
proof (rule ccontr)
  assume "db' \<noteq> db"
  with c obtain m where m: "message_with i (db_messages db) = Some m" "mg_status m = MPending"
    and no: "sql_count (\<lambda>m. mg_id m = i \<and> mg_status m = MPending) (db_messages db) \<noteq> 1"
    by (auto simp: cancelPendingMessage_def Let_def split: option.splits if_splits)
  then have "\<exists>x \<in> set (db_messages db). mg_id x = i \<and> mg_status x = MPending"
    by (auto simp: message_with_def dest: find_SomeD)
  then have "0 < sql_count (\<lambda>m. mg_id m = i \<and> mg_status m = MPending) (db_messages db)"
    by (simp only: sql_count_pos)
  moreover have "sql_count (\<lambda>m. mg_id m = i \<and> mg_status m = MPending) (db_messages db) \<le> 1"
    using sql_count_mono [of "db_messages db" "\<lambda>m. mg_id m = i \<and> mg_status m = MPending" "\<lambda>m. mg_id m = i"]
      count_distinct_key [of mg_id "db_messages db" i] ok
    by (simp add: messages_ok_def)
  ultimately show False using no by linarith
qed

lemma moves_cancel_prompt:
  assumes "moves e w w'" and ok: "messages_ok (tw_db w')"
  shows "moves e w (cancelQueuedPrompt e i w')"
proof -
  obtain db b where c: "cancelPendingMessage i (tw_db w') = (db, b)" by fastforce
  have "moves e w (w'\<lparr>tw_db := db\<rparr>)"
  proof (cases b)
    case True
    with c have "finishes_prompt (tw_db w') i db" by (simp add: finishes_prompt_def)
    then show ?thesis using assms turn_move.finish moves_step by blast
  next
    case False
    with c cancel_refused [OF ok] assms(1) show ?thesis by fastforce
  qed
  with c show ?thesis unfolding cancelQueuedPrompt_def by (auto intro!: moves_intro split: bool.split)
qed

subsection \<open>Dispatch\<close>

lemma moves_requeue:
  assumes "moves e w w'" and "getMessageStatus i (tw_db w') = Some MProcessing"
  shows "moves e w (w'\<lparr>tw_db := updateMessageToPending i (tw_db w')\<rparr>)"
  by (rule moves_step [OF assms(1)], rule turn_move.requeue [where i = i]) (simp add: requeues_prompt_def assms(2))

lemma moves_sent:
  "moves e w w' \<Longrightarrow> getMessageStatus i (tw_db w') = Some MProcessing \<Longrightarrow> te_mayDispatch e \<Longrightarrow>
    te_target e = TargetDispatch sock \<Longrightarrow> te_sendOk e \<Longrightarrow> moves e w (note_fx (TxPrompt sock i) w')"
  by (erule moves_step) (rule turn_move.send)

lemma moves_send_prompt [moves_intro]:
  assumes "moves e w w'" and "getMessageStatus (mg_id m) (tw_db w') = Some MProcessing"
    and "te_mayDispatch e" and "te_target e = TargetDispatch sock"
  shows "moves e w (send_prompt e m now sock w')"
  unfolding send_prompt_def
  by (auto intro!: moves_intro moves_requeue [OF assms(1,2)] moves_sent [OF assms])

lemma moves_unsend [moves_intro]:
  assumes "moves e w w'" and "getMessageStatus (mg_id m) (tw_db w') = Some MProcessing"
  shows "moves e w (unsend m w')"
  unfolding unsend_def by (auto intro!: moves_intro moves_requeue [OF assms])

lemma budget_exhausted_spent: "budget_exhausted w \<longleftrightarrow> spent (tw_db w)"
  by (simp add: budget_exhausted_def spent_def)

lemma moves_claim_prompt:
  assumes m: "moves e w w'" and ok: "messages_ok (tw_db w')" and "\<not> spent (tw_db w')"
    and may: "mg_id m \<in> picked w' \<or> next_prompt (tw_db w') = Some (mg_id m) \<and> \<not> stop_unconfirmed (tw_db w')"
    and target: "te_mayDispatch e" "te_target e = TargetDispatch sock"
  shows "moves e w (claim_prompt e m now sock w')"
proof (cases "startMessageProcessing (mg_id m) now (te_promptJson e m now) (tw_db w')")
  case None
  with m show ?thesis by (simp add: claim_prompt_def)
next
  case (Some r)
  obtain db b where r: "r = (db, b)" by fastforce
  show ?thesis
  proof (cases b)
    case False
    with Some r have "db = tw_db w'"
      by (auto simp: startMessageProcessing_def Let_def split: if_splits)
    with Some r False m show ?thesis by (simp add: claim_prompt_def)
  next
    case True
    with Some r have claims: "claims_prompt (tw_db w') (mg_id m) db" by (auto simp: claims_prompt_def)
    have "moves e w (w'\<lparr>tw_db := db\<rparr>)" by (rule moves_step [OF m turn_move.claim [OF claims assms(3) may]])
    moreover have "getMessageStatus (mg_id m) db = Some MProcessing" using claim_store(4) [OF ok claims] by simp
    ultimately show ?thesis using Some r True target by (auto simp: claim_prompt_def intro!: moves_intro)
  qed
qed

lemma moves_pump_authed:
  assumes m: "moves e w w'" and ok: "messages_ok (tw_db w')"
    and may: "mg_id m \<in> picked w' \<or> next_prompt (tw_db w') = Some (mg_id m) \<and> \<not> stop_unconfirmed (tw_db w')"
  shows "moves e w (pump_authed e m now err w')"
  using m moves_claim_prompt [OF m ok _ may]
  unfolding pump_authed_def budget_exhausted_spent
  by (auto intro!: moves_intro split: command_target.split)

lemma moves_pump:
  assumes m: "moves e w w'" and ok: "messages_ok (tw_db w')"
  shows "moves e w (processMessageQueue e w')"
proof -
  have pick: "moves e w (suspend (TAuth r (te_now e)) w')"
    if "getNextPendingMessage (tw_db w') = Some r" "getProcessingMessage (tw_db w') = None"
      "\<forall>a b. getMessageAwaitingStopConfirmation (tw_db w') \<noteq> Some (a, b)" for r
    by (rule moves_step [OF m turn_move.pick [OF that(1,2)]]) (use that(3) in \<open>auto simp: stop_unconfirmed_def\<close>)
  have direct: "moves e w (pump_authed e r (te_now e) err w')"
    if "getNextPendingMessage (tw_db w') = Some r"
      "\<forall>a b. getMessageAwaitingStopConfirmation (tw_db w') \<noteq> Some (a, b)" for r err
    using that by (intro moves_pump_authed [OF m ok]) (auto simp: next_prompt_def stop_unconfirmed_def)
  show ?thesis
    unfolding processMessageQueue_def
    using m by (auto intro!: pick direct moves_recover_stop split: option.split)
qed

lemma moves_prepared [moves_intro]: "moves e w w' \<Longrightarrow> moves e w (prompt_prepared e m now sock w')"
  unfolding prompt_prepared_def Let_def by (auto intro!: moves_intro split: prepare_answer.split)

subsection \<open>Admission\<close>

lemma moves_refuse [moves_intro]: "moves e w w' \<Longrightarrow> moves e w (refuse err w')"
  unfolding refuse_def by (auto intro!: moves_intro)

lemma moves_touch [moves_intro]: "moves e w w' \<Longrightarrow> moves e w (touchSessionActivity w')"
  unfolding touchSessionActivity_def by (auto intro!: moves_intro split: option.split)

lemma moves_accept [moves_intro]: "moves e w w' \<Longrightarrow> moves e w (accept i pos b w')"
  unfolding accept_def by (auto intro!: moves_intro)

lemma moves_accepted [moves_intro]: "moves e w w' \<Longrightarrow> moves e w (prompt_accepted i w')"
  unfolding prompt_accepted_def Let_def by (auto intro!: moves_intro)

lemma moves_handle_prompt [moves_intro]: "moves e w w' \<Longrightarrow> moves e w (handle_prompt e r w')"
  unfolding handle_prompt_def by (auto intro!: moves_intro split: option.split)

lemma first_error_None: "first_error xs = None \<longleftrightarrow> (\<forall>x \<in> set xs. x = None)"
  by (induction xs rule: first_error.induct) auto

lemma promptable_open: "assertPromptableSession w = None \<Longrightarrow> \<not> cancelled (tw_db w)"
  by (auto simp: assertPromptableSession_def cancelled_def split: option.splits if_splits)

text \<open>The insert of a request that passed every check.\<close>

lemma moves_insert:
  assumes "moves e w w'" and "createMessageWithAttachments d ids None (tw_db w') = Some db"
    and "cm_status d = MPending" and "cm_createdAt d = tw_clock w'" and "cm_id d \<notin> picked w'"
    and "\<not> cancelled (tw_db w')" and "getPendingOrProcessingCount (tw_db w') < MAX_UNFINISHED_PROMPTS"
  shows "moves e w (w'\<lparr>tw_db := db\<rparr>)" and "\<not> cancelled db"
  using moves_step [OF assms(1) turn_move.queue [OF assms(2-7)]] queue_rows(3) [OF assms(2)] assms(6)
  by (simp_all add: cancelled_def)

definition ready_env :: "turn_env \<Rightarrow> turn_world \<Rightarrow> bool" where
  "ready_env e w \<longleftrightarrow> tw_clock w = te_now e \<and> te_messageId e \<notin> picked w"

text \<open>The outcomes of a request's last turn: refused, answered as a retry, or queued.\<close>

lemma enqueue_cases:
  obtains (refused) err where "enqueuePromptCore e r w = refuse err w"
  | (retried) m where "findDuplicatePrompt r w = Inr (Some m)"
      "enqueuePromptCore e r w = accept (mg_id m) (getUnfinishedMessagePosition (mg_id m) (tw_db w)) True w"
  | (queued) attachments ids db where "findDuplicatePrompt r w = Inr None"
      "assertPromptableSession w = None" "assertSandboxAcceptingPrompts e = None"
      "assertBudgetAvailable w = None" "assertQueueCapacity w = None"
      "createMessageWithAttachments (queued_message e r attachments w) ids None (tw_db w) = Some db"
      "enqueuePromptCore e r w = suspend (TAccepted (cm_id (queued_message e r attachments w)))
         (fst (transition SActive (te_now e) (w\<lparr>tw_db := db\<rparr>)))"
proof (cases "first_error [assertPromptableSession w, assertSandboxAcceptingPrompts e]")
  case (Some err)
  then show thesis by (intro refused [of err]) (simp add: enqueuePromptCore_def)
next
  case None
  note c1 = this
  show thesis
  proof (cases "findDuplicatePrompt r w")
    case (Inl err)
    with c1 show thesis by (intro refused [of err]) (simp add: enqueuePromptCore_def)
  next
    case (Inr dup)
    note c2 = this
    show thesis
    proof (cases dup)
      case (Some m)
      with c1 c2 show thesis by (intro retried [of m]) (simp_all add: enqueuePromptCore_def)
    next
      case None
      note c2 = c2 [unfolded None]
      show thesis
      proof (cases "first_error [assertBudgetAvailable w, assertQueueCapacity w]")
        case (Some err)
        with c1 c2 show thesis by (intro refused [of err]) (simp add: enqueuePromptCore_def)
      next
        case None
        note c3 = this
        show thesis
        proof (cases "resolveSessionAttachments (pr_attachments r) (db_attachments (tw_db w))")
          case (Inl err)
          with c1 c2 c3 show thesis by (intro refused [of err]) (simp add: enqueuePromptCore_def)
        next
          case (Inr attachments)
          note c4 = this
          let ?d = "queued_message e r attachments w"
          let ?ids = "if attachments = None then [] else map ar_attachmentId (pr_attachments r)"
          show thesis
          proof (cases "te_requestIncompatible e (effective_model e r w) (cm_reasoningEffort (pr_message r))")
            case (Some message)
            with c1 c2 c3 c4 show thesis
              by (intro refused [of "HarnessIncompatible message"]) (simp add: enqueuePromptCore_def)
          next
            case None
            note c5 = this
            show thesis
            proof (cases "createMessageWithAttachments ?d ?ids None (tw_db w)")
              case None
              with c1 c2 c3 c4 c5 show thesis
                by (intro refused) (simp add: enqueuePromptCore_def Let_def cong: if_cong)
            next
              case (Some db)
              with c1 c2 c3 c4 c5 show thesis
                by (intro queued [of attachments ?ids db])
                  (simp_all add: enqueuePromptCore_def Let_def first_error_None)
            qed
          qed
        qed
      qed
    qed
  qed
qed

lemma moves_enqueue:
  assumes m: "moves e w w'" and env: "ready_env e w'"
  shows "moves e w (enqueuePromptCore e r w')"
proof (cases rule: enqueue_cases [of e r w'])
  case (queued attachments ids db)
  let ?d = "queued_message e r attachments w'"
  have "cm_status ?d = MPending" "cm_createdAt ?d = tw_clock w'" "cm_id ?d \<notin> picked w'"
    using env by (simp_all add: queued_message_def Let_def ready_env_def)
  moreover have "getPendingOrProcessingCount (tw_db w') < MAX_UNFINISHED_PROMPTS"
    using queued(5) by (auto simp: assertQueueCapacity_def split: if_splits)
  ultimately have "moves e w (w'\<lparr>tw_db := db\<rparr>)" "\<not> cancelled db"
    using moves_insert [OF m queued(6)] promptable_open [OF queued(2)] by blast+
  then show ?thesis unfolding queued(7) by (auto intro!: moves_intro)
qed (use m in \<open>auto intro!: moves_intro\<close>)

lemma moves_admit:
  assumes "moves e w w'" and "ready_env e w'"
  shows "moves e w (admit_prompt e r b w')"
  using assms moves_enqueue [OF assms] unfolding admit_prompt_def
  by (auto intro!: moves_intro split: sum.split option.split)

subsection \<open>Autofix\<close>

lemma moves_redrive [moves_intro]: "moves e w w' \<Longrightarrow> moves e w (redrivePendingAutofix e i w')"
  unfolding redrivePendingAutofix_def
  by (auto intro!: moves_intro simp: isSessionMissingOrClosed_def cancelled_def split: option.splits)

lemma admit_rows:
  assumes "admitAutofixMessage a db = Some (db', r)" and "db' \<noteq> db"
  obtains d where "createMessageWithAttachments d [] None db = Some db'" "cm_id d = cm_id (aa_message a)"
    "cm_status d = cm_status (aa_message a)" "cm_createdAt d = cm_createdAt (aa_message a)"
    "\<not> aa_sessionClosed a" "getPendingOrProcessingCount db < MAX_UNFINISHED_PROMPTS"
proof -
  have "createMessageWithAttachments d [] None db = createMessage d db" for d
    by (simp add: createMessageWithAttachments_def claimForMessage_def split: option.split)
  with assms that show thesis
    by (auto simp: admitAutofixMessage_def not_le split: if_splits)
qed

lemma moves_autofix:
  assumes m: "moves e w w'" and env: "ready_env e w'"
  shows "moves e w (enqueueAutofix e c w')"
proof -
  let ?a = "\<lparr>aa_message = (ac_message c)\<lparr>cm_id := te_messageId e, cm_authorCanonicalUserId := None,
           cm_source := SrcGithub, cm_status := MPending, cm_createdAt := te_now e\<rparr>,
         aa_feedbackKey = ac_feedbackKey c,
         aa_pullRequestKey = ''github:'' @ ac_repositoryId c @ '':'' @ show_nat (ac_number c),
         aa_originContext = ac_origin c, aa_attemptLimit = ac_attemptLimit c,
         aa_windowStart = te_now e - AUTOFIX_ATTEMPT_WINDOW_MS,
         aa_sessionClosed = isSessionMissingOrClosed w'\<rparr>"
  have "moves e w (w'\<lparr>tw_db := db\<rparr>)" if adm: "admitAutofixMessage ?a (tw_db w') = Some (db, a)" for db a
  proof (cases "db = tw_db w'")
    case False
    from admit_rows [OF adm False] obtain d where
      d: "createMessageWithAttachments d [] None (tw_db w') = Some db" "cm_id d = te_messageId e"
        "cm_status d = MPending" "cm_createdAt d = te_now e" "\<not> isSessionMissingOrClosed w'"
        "getPendingOrProcessingCount (tw_db w') < MAX_UNFINISHED_PROMPTS" by auto
    have "\<not> cancelled (tw_db w')"
      using d(5) by (auto simp: isSessionMissingOrClosed_def cancelled_def)
    with d env show ?thesis by (intro moves_insert(1) [OF m d(1)]) (simp_all add: ready_env_def)
  qed (use m in simp)
  then show ?thesis using m unfolding enqueueAutofix_def Let_def
    by (auto intro!: moves_intro split: option.split autofix_admission.split)
qed

lemma moves_lookup [moves_intro]: "moves e w w' \<Longrightarrow> moves e w (lookupAutofix e key w')"
  unfolding lookupAutofix_def Let_def by (auto intro!: moves_intro)

section \<open>Recovery, alarm, lifecycle\<close>

lemma moves_recovery [moves_intro]: "moves e w w' \<Longrightarrow> moves e w (applySandboxRecovery e boot result w')"
  unfolding applySandboxRecovery_def by (auto intro!: moves_intro split: sandbox_alarm_result.split option.split)

lemma moves_fatal [moves_intro]: "moves e w w' \<Longrightarrow> moves e w (handleFatalSandboxFailure e reason w')"
  unfolding handleFatalSandboxFailure_def Let_def by (auto intro!: moves_intro)

lemma moves_alarm [moves_intro]:
  assumes "moves e w w'"
  shows "moves e w (alarm_started e w')" and "moves e w (alarm_watchdogs w')" and "moves e w (alarm_timeout e w')"
    and "moves e w (redriveIdleQueue e w')"
  using assms unfolding alarm_started_def alarm_watchdogs_def alarm_timeout_def redriveIdleQueue_def
  by (auto intro!: moves_intro split: option.split)

lemma moves_alarm_result [moves_intro]: "moves e w w' \<Longrightarrow> moves e w (alarm_result e boot w')"
  unfolding alarm_result_def by (auto intro!: moves_intro split: sandbox_alarm_result.split)

lemma moves_repair [moves_intro]: "moves e w w' \<Longrightarrow> moves e w (repairIndexStatus w')"
  unfolding repairIndexStatus_def by (auto intro!: moves_intro split: option.split)

lemma moves_lifecycle [moves_intro]:
  assumes "moves e w w'"
  shows "moves e w (archive_session e w')" and "moves e w (expireDraft e w')" and "moves e w (unarchive e w')"
  using assms unfolding archive_session_def expireDraft_def unarchive_def
  by (auto intro!: moves_intro simp: cancelled_def split: option.split)

lemma moves_cancel_request [moves_intro]:
  assumes "moves e w w'"
  shows "moves e w (cancel_request e w')"
  using assms unfolding cancel_request_def cancel_session_def Let_def
  by (auto intro!: moves_intro split: option.split)

section \<open>Every step is a sequence of moves\<close>

lemma moves_clocked: "env_ok e w \<Longrightarrow> moves e w (clocked e w)"
  by (rule aside_db [OF moves_refl]) (simp_all add: clocked_def env_ok_def picked_def sent_def)

lemma clocked_ready: "env_ok e w \<Longrightarrow> ready_env e (clocked e w)"
  by (simp add: env_ok_def ready_env_def clocked_def picked_def)

lemma clocked_fields [simp]: "tw_db (clocked e w) = tw_db w" "tw_tasks (clocked e w) = tw_tasks w"
  by (simp_all add: clocked_def)

lemma moves_elsewhere:
  assumes "moves e w w'" and "elsewhere_ok (EvElsewhere db) (tw_db w')"
  shows "moves e w (w'\<lparr>tw_db := db\<rparr>)"
  by (rule moves_step [OF assms(1)], rule turn_move.aside)
    (use assms(2) in \<open>cases "session_of w'"; force simp: elsewhere_ok_def cancelled_def spent_def\<close>)+

lemma moves_event:
  assumes "env_ok e w" and "elsewhere_ok ev (tw_db w)" and ok: "messages_ok (tw_db w)"
  shows "moves e w (turn_event_handler e ev (clocked e w))"
proof -
  let ?w = "clocked e w"
  have m: "moves e w ?w" and env: "ready_env e ?w" and ok': "messages_ok (tw_db ?w)"
    using moves_clocked clocked_ready assms by simp_all
  have fresh: "moves e w v" if "moves e ?w v" for v using m that by simp
  show ?thesis
    using assms(2) m moves_autofix [OF m env] moves_cancel_prompt [OF m ok'] moves_pump [OF m ok']
      fresh [OF moves_execution_complete [OF ok']] fresh [OF moves_ingest [OF ok']] fresh [OF moves_limit [OF ok']]
      moves_elsewhere [OF m]
    by (cases ev) (auto intro!: moves_intro)
qed

lemma moves_task:
  assumes "env_ok e w" and "k \<in> set (tw_tasks w)" and ok: "messages_ok (tw_db w)"
  shows "moves e w (run_task e k (clocked e w))"
proof -
  let ?w = "clocked e w"
  have m: "moves e w ?w" and env: "ready_env e ?w" and ok': "messages_ok (tw_db ?w)"
    using moves_clocked clocked_ready assms by simp_all
  have "moves e w (pump_authed e r now err ?w)" if "k = TAuth r now" for r now err
    by (rule moves_pump_authed [OF m ok']) (use assms(2) that in \<open>force simp: picked_def\<close>)
  with m moves_autofix [OF m env] moves_pump [OF m ok'] moves_admit [OF m env] show ?thesis
    by (cases k) (auto intro!: moves_intro)
qed

theorem turn_step_moves:
  assumes "turn_step e w w'" and "messages_ok (tw_db w)"
  shows "moves e w w'"
  using assms(1)
proof cases
  case (event ev)
  then show ?thesis using moves_event assms(2) by simp
next
  case (resume k)
  then have "moves e w (run_task e k (clocked e w))" using moves_task assms(2) by simp
  then show ?thesis unfolding resume(1)
    by (rule aside_db) (auto simp: drop_task_def picked_def sent_def dest: notin_set_remove1 set_remove1_subset [THEN subsetD])
next
  case restart
  then show ?thesis by (auto intro!: aside_db [OF moves_refl] simp: picked_def sent_def)
qed

end
