(* ===== verification/Turn_Safety.thy ===== *)
theory Turn_Safety
  imports Turn_Moves
begin

text \<open>
  The invariants of a session's turns and the properties they give: what holds of the tables at
  the moment a prompt is sent, how many prompts wait, what a request changes, and what a
  cancelled session still does.
\<close>

section \<open>The invariant\<close>

definition aged :: "ms \<Rightarrow> session_db \<Rightarrow> bool" where
  "aged t db \<longleftrightarrow> (\<forall>m \<in> set (db_messages db). mg_createdAt m \<le> t)"

text \<open>What the tables must say when a prompt goes to the sandbox.\<close>

definition may_send :: "string \<Rightarrow> session_db \<Rightarrow> bool" where
  "may_send i db \<longleftrightarrow> messages_ok db \<and> getProcessingMessage db = Some i \<and> front_prompt db = Some i
     \<and> \<not> stop_unconfirmed db \<and> \<not> spent db"

definition turn_ok :: "turn_world \<Rightarrow> bool" where
  "turn_ok w \<longleftrightarrow> messages_ok (tw_db w) \<and> aged (tw_clock w) (tw_db w)
     \<and> prompts.calm (picked w) (tw_db w)
     \<and> (spent (tw_db w) \<longrightarrow> getProcessingMessage (tw_db w) = None)
     \<and> (\<forall>sock i db. (TxPrompt sock i, db) \<in> set (sent w) \<longrightarrow> may_send i db)"

lemma turn_okD:
  assumes "turn_ok w"
  shows "messages_ok (tw_db w)" and "aged (tw_clock w) (tw_db w)" and "prompts.calm (picked w) (tw_db w)"
    and "spent (tw_db w) \<Longrightarrow> getProcessingMessage (tw_db w) = None"
  using assms by (simp_all add: turn_ok_def)

text \<open>A move that sends nothing keeps the invariant when it keeps its table part.\<close>

lemma turn_okI:
  assumes "turn_ok w" and "sent w' = sent w" and "messages_ok (tw_db w')" and "aged (tw_clock w') (tw_db w')"
    and "prompts.calm (picked w') (tw_db w')" and "spent (tw_db w') \<Longrightarrow> getProcessingMessage (tw_db w') = None"
  shows "turn_ok w'"
  using assms by (simp add: turn_ok_def)

lemma views_cong:
  assumes "db_messages db' = db_messages db"
  shows "front_prompt db' = front_prompt db" and "getProcessingMessage db' = getProcessingMessage db"
    and "prompt_waits db' = prompt_waits db" and "stop_unconfirmed db' = stop_unconfirmed db"
    and "next_prompt db' = next_prompt db" and "aged t db' = aged t db"
  using assms by (simp_all add: front_prompt_def getProcessingMessage_def processing_row_def prompt_waits_def
    getMessageStatus_def stop_unconfirmed_iff next_prompt_def getNextPendingMessage_def aged_def fun_eq_iff)

lemma calm_cong:
  assumes "front_prompt db' = front_prompt db" and "getProcessingMessage db' = getProcessingMessage db"
    and "prompt_waits db' = prompt_waits db" and "stop_unconfirmed db' = stop_unconfirmed db"
  shows "prompts.calm P db' = prompts.calm P db"
  using assms by (simp add: prompts.calm_def)

lemma spent_core: "db_core db' = db_core db \<Longrightarrow> spent db' = spent db"
  by (simp add: spent_def)

lemma aged_update:
  assumes "db_messages db' = sql_update p f (db_messages db)" and "\<And>m. mg_createdAt (f m) = mg_createdAt m"
  shows "aged t db' = aged t db"
proof -
  have "aged t db \<longleftrightarrow> list_all (\<lambda>x. x \<le> t) (map mg_createdAt (db_messages db))" for db
    by (simp add: aged_def list_all_iff)
  moreover have "map mg_createdAt (db_messages db') = map mg_createdAt (db_messages db)"
    unfolding assms(1) by (rule map_sql_update) (rule assms(2))
  ultimately show ?thesis by simp
qed

lemma aged_later: "aged t db \<Longrightarrow> t \<le> t' \<Longrightarrow> aged t' db"
  by (auto simp: aged_def)

lemma claim_more:
  assumes "claims_prompt db i db'"
  shows "aged t db' = aged t db" and "db_core db' = db_core db"
proof -
  from assms obtain ts e where c: "startMessageProcessing i ts e db = Some (db', True)"
    by (auto simp: claims_prompt_def)
  show "aged t db' = aged t db" by (rule claim_rows [OF c], rule aged_update, assumption) simp
  show "db_core db' = db_core db" by (rule claim_rows [OF c])
qed

lemma requeue_more:
  assumes "requeues_prompt db i db'"
  shows "aged t db' = aged t db"
proof -
  have "db_messages db' = sql_update (\<lambda>m. mg_id m = i \<and> mg_status m = MProcessing)
      (\<lambda>m. m\<lparr>mg_status := MPending, mg_startedAt := None\<rparr>) (db_messages db)"
    using assms by (simp add: requeues_prompt_def updateMessageToPending_def Let_def)
  then show ?thesis by (rule aged_update) simp
qed

lemma finish_more:
  assumes "finishes_prompt db i db'" and "aged t db"
  shows "aged t db'" and "db_core db' = db_core db"
proof -
  from assms(1) consider e ts st c where "recordMessageCompletion e ts st db = (db', Some c)"
    | "cancelPendingMessage i db = (db', True)" unfolding finishes_prompt_def by blast
  then have "aged t db' \<and> db_core db' = db_core db"
  proof cases
    case 1
    then show ?thesis using assms(2) by (auto elim!: complete_rows simp: aged_update)
  next
    case 2
    then show ?thesis using assms(2) by (auto elim!: cancel_rows simp: aged_def)
  qed
  then show "aged t db'" and "db_core db' = db_core db" by auto
qed

lemma fence_more:
  assumes "fences_prompt db i db'"
  shows "aged t db' = aged t db" and "db_core db' = db_core db"
proof -
  from assms obtain d where db': "db' = on_message i (\<lambda>m. m\<lparr>mg_stopDeadline := d\<rparr>) db"
    by (auto simp: fences_prompt_def)
  show "db_core db' = db_core db" by (simp add: db' on_message_def)
  have "db_messages db' = sql_update (\<lambda>m. mg_id m = i) (\<lambda>m. m\<lparr>mg_stopDeadline := d\<rparr>) (db_messages db)"
    by (simp add: db' on_message_def)
  then show "aged t db' = aged t db" by (rule aged_update) simp
qed

lemma release_fence: "fences_prompt db i (clearMessageAwaitingStopConfirmation i db)"
  by (auto simp: fences_prompt_def clearMessageAwaitingStopConfirmation_def)

lemma release_only: "stop_unconfirmed (clearMessageAwaitingStopConfirmation i db) \<Longrightarrow> stop_unconfirmed db"
  by (auto simp: stop_unconfirmed_iff clearMessageAwaitingStopConfirmation_def on_message_def set_sql_update
      split: if_splits)

lemma cost_store:
  fixes i c db
  defines "db' \<equiv> fst (raiseReportedCost i c db)"
  shows "front_prompt db' = front_prompt db" and "getProcessingMessage db' = getProcessingMessage db"
    and "prompt_waits db' = prompt_waits db" and "stop_unconfirmed db' = stop_unconfirmed db"
    and "aged t db' = aged t db" and "db_core db' = db_core db"
proof -
  have "db' = db \<or> (\<exists>x. db' = on_message i (\<lambda>m. m\<lparr>mg_reportedCostUsd := x\<rparr>) db)"
    unfolding db'_def raiseReportedCost_def by (auto split: option.split)
  then obtain x where x: "db' = db \<or> db' = on_message i (\<lambda>m. m\<lparr>mg_reportedCostUsd := x\<rparr>) db" by blast
  then have rows: "db_messages db' = db_messages db \<or> db_messages db' = sql_update (\<lambda>m. mg_id m = i)
      (\<lambda>m. m\<lparr>mg_reportedCostUsd := x\<rparr>) (db_messages db)" and core: "db_core db' = db_core db"
    by (auto simp: on_message_def)
  show "db_core db' = db_core db" by (rule core)
  have "front_prompt db' = front_prompt db \<and> getProcessingMessage db' = getProcessingMessage db
      \<and> prompt_waits db' = prompt_waits db \<and> stop_unconfirmed db' = stop_unconfirmed db
      \<and> aged t db' = aged t db"
    using rows
  proof
    assume "db_messages db' = db_messages db"
    from views_cong [OF this] show ?thesis by simp
  next
    assume up: "db_messages db' = sql_update (\<lambda>m. mg_id m = i) (\<lambda>m. m\<lparr>mg_reportedCostUsd := x\<rparr>) (db_messages db)"
    have "front_prompt db' = front_prompt db"
      by (rule front_kept [OF _ _ _ up [unfolded sql_update_def]]) (simp_all add: is_unfinished_def)
    moreover have "stop_unconfirmed db' = stop_unconfirmed db"
      by (rule deadlines_kept [OF up [unfolded sql_update_def]]) simp
    moreover have "aged t db' = aged t db" by (rule aged_update [OF up]) simp
    moreover have "getProcessingMessage db' = getProcessingMessage db"
      by (cases "find (\<lambda>m. mg_status m = MProcessing) (db_messages db)")
        (simp_all add: getProcessingMessage_def processing_row_def up find_sql_update)
    moreover have "getMessageStatus j db' = getMessageStatus j db" for j
      by (subst getMessageStatus_update [OF up])
        (cases "message_with j (db_messages db)"; simp add: getMessageStatus_def)+
    then have "prompt_waits db' = prompt_waits db" by (simp add: prompt_waits_def fun_eq_iff)
    ultimately show ?thesis by blast
  qed
  then show "front_prompt db' = front_prompt db" "getProcessingMessage db' = getProcessingMessage db"
    "prompt_waits db' = prompt_waits db" "stop_unconfirmed db' = stop_unconfirmed db" "aged t db' = aged t db"
    by auto
qed

section \<open>Every move keeps it\<close>

lemma ok_queue:
  assumes ok: "turn_ok w" and c: "createMessageWithAttachments d ids None (tw_db w) = Some db"
    and st: "cm_status d = MPending" "cm_createdAt d = tw_clock w" "cm_id d \<notin> picked w"
  shows "turn_ok (w\<lparr>tw_db := db\<rparr>)"
proof -
  note old = turn_okD [OF ok]
  have q: "queues_prompt (tw_db w) (cm_id d) db"
    using c st old(2) by (auto simp: queues_prompt_def aged_def)
  have "aged (tw_clock w) db"
    using old(2) st(2) by (auto simp: aged_def queue_rows(1) [OF c] message_of_def)
  moreover have "spent db = spent (tw_db w)" using queue_rows(3) [OF c] by (rule spent_core)
  ultimately show ?thesis
    using old queue_store(1) [OF old(1) q] queue_running [OF old(1) q] prompts.calm_queue [OF old(1,3) q st(3)]
    by (intro turn_okI [OF ok]) simp_all
qed

lemma ok_claim:
  assumes ok: "turn_ok w" and c: "claims_prompt (tw_db w) i db" and "\<not> spent (tw_db w)"
    and may: "i \<in> picked w \<or> next_prompt (tw_db w) = Some i \<and> \<not> stop_unconfirmed (tw_db w)"
  shows "turn_ok (w\<lparr>tw_db := db\<rparr>)"
proof -
  note old = turn_okD [OF ok]
  have "prompts.calm (insert i (picked w)) (tw_db w)"
  proof (cases "i \<in> picked w")
    case False
    with may claim_store(3) [OF old(1) c] show ?thesis by (intro prompts.calm_pick [OF old(1,3)]) auto
  qed (use old(3) in \<open>simp add: insert_absorb\<close>)
  then have "prompts.calm (insert i (picked w)) db" by (rule prompts.calm_claim [OF old(1) _ c]) simp
  then have "prompts.calm (picked w) db" by (rule prompts.calm_subset) auto
  moreover have "\<not> spent db" using assms(3) spent_core claim_more(2) [OF c] by blast
  ultimately show ?thesis
    using old claim_store(1) [OF old(1) c] claim_more(1) [OF c] by (intro turn_okI [OF ok]) simp_all
qed

lemma ok_requeue:
  assumes ok: "turn_ok w" and r: "requeues_prompt (tw_db w) i db"
  shows "turn_ok (w\<lparr>tw_db := db\<rparr>)"
  using turn_okD [OF ok] requeue_store(1) [OF _ r] requeue_running [OF _ r] requeue_more [OF r]
    prompts.calm_requeue [OF _ _ r]
  by (intro turn_okI [OF ok]) simp_all

lemma ok_finish:
  assumes ok: "turn_ok w" and f: "finishes_prompt (tw_db w) i db"
  shows "turn_ok (w\<lparr>tw_db := db\<rparr>)"
proof -
  note old = turn_okD [OF ok]
  have "spent db = spent (tw_db w)" using finish_more(2) [OF f old(2)] by (rule spent_core)
  then show ?thesis
    using old finish_store(1,2) [OF old(1) f] finish_more(1) [OF f old(2)] prompts.calm_finish [OF old(1,3) f]
    by (intro turn_okI [OF ok]) simp_all
qed

lemma ok_stop:
  assumes ok: "turn_ok w" and run: "getProcessingMessage (tw_db w) = Some i"
    and f: "finishes_prompt (tw_db w) i db1" and s: "fences_prompt db1 j db"
  shows "turn_ok (w\<lparr>tw_db := db\<rparr>)"
proof -
  note old = turn_okD [OF ok]
  have "getProcessingMessage db = None"
    using fence_store(3) [OF s] finish_store(2) [OF old(1) f] run by simp
  then show ?thesis
    using fence_store(4) [OF s finish_store(1) [OF old(1) f]] fence_more(1) [OF s] finish_more(1) [OF f old(2)]
      prompts.calm_stop [OF old(1,3) run f s]
    by (intro turn_okI [OF ok]) simp_all
qed

lemma ok_aside:
  assumes ok: "turn_ok w" and "db_messages (tw_db w') = db_messages (tw_db w)"
    and "messages_ok (tw_db w) \<longrightarrow> messages_ok (tw_db w')"
    and "spent (tw_db w') \<longrightarrow> spent (tw_db w) \<or> getProcessingMessage (tw_db w) = None"
    and "picked w' \<subseteq> picked w" and "sent w' = sent w" and "tw_clock w \<le> tw_clock w'"
  shows "turn_ok w'"
proof -
  note old = turn_okD [OF ok] and same = views_cong [OF assms(2)]
  have "prompts.calm (picked w') (tw_db w)" using old(3) assms(5) by (rule prompts.calm_subset)
  then show ?thesis
    using old assms(3,4,6,7) same aged_later [OF old(2) assms(7)] calm_cong [OF same(1,2,3,4)]
    by (intro turn_okI [OF ok]) auto
qed

lemma turn_ok_move:
  assumes "turn_move e w w'" and ok: "turn_ok w"
  shows "turn_ok w'"
  using assms(1)
proof cases
  case aside
  then show ?thesis by (intro ok_aside [OF ok]) simp_all
next
  case (pick m ts)
  note old = turn_okD [OF ok]
  have "next_prompt (tw_db w) = Some (mg_id m)" using pick(2) by (simp add: next_prompt_def)
  then have "prompts.calm (insert (mg_id m) (picked w)) (tw_db w)"
    using pick(3,4) by (intro prompts.calm_pick [OF old(1,3)])
  then show ?thesis using old unfolding pick(1) by (intro turn_okI [OF ok]) simp_all
next
  case (send i sock)
  note old = turn_okD [OF ok]
  have "getProcessingMessage (tw_db w) = Some i" using send(2) running_iff [OF old(1)] by simp
  then have "may_send i (tw_db w)"
    using old prompts.calm_running [OF old(3)] by (auto simp: may_send_def)
  with ok show ?thesis unfolding send(1) by (auto simp: turn_ok_def)
next
  case (release i)
  note old = turn_okD [OF ok]
  note f = release_fence [of "tw_db w" i]
  have "spent (clearMessageAwaitingStopConfirmation i (tw_db w)) = spent (tw_db w)"
    using fence_more(2) [OF f] by (rule spent_core)
  then show ?thesis
    using old fence_store(3,4) [OF f] fence_more(1) [OF f] prompts.calm_release [OF old(3) f release_only]
    unfolding release by (intro turn_okI [OF ok]) simp_all
next
  case (cost i c)
  note old = turn_okD [OF ok] and same = cost_store [where db = "tw_db w" and i = i and c = c]
  have "spent (fst (raiseReportedCost i c (tw_db w))) = spent (tw_db w)" using same(6) by (rule spent_core)
  then show ?thesis
    using old same column_ok(2) [OF old(1)] calm_cong [OF same(1,2,3,4)]
    unfolding cost by (intro turn_okI [OF ok]) simp_all
qed (use ok ok_queue ok_claim ok_requeue ok_finish ok_stop in \<open>blast+\<close>)

lemma turn_ok_moves: "moves e w w' \<Longrightarrow> turn_ok w \<Longrightarrow> turn_ok w'"
  by (induction rule: rtranclp_induct) (auto intro: turn_ok_move)

lemma turn_ok_step: "turn_step e w w' \<Longrightarrow> turn_ok w \<Longrightarrow> turn_ok w'"
  using turn_step_moves turn_ok_moves turn_okD(1) by blast

section \<open>What a sent prompt found\<close>

text \<open>A run of the session: steps, each with an environment of its own.\<close>

inductive turn_run :: "turn_world \<Rightarrow> turn_world \<Rightarrow> bool" where
  run_start: "turn_run w w"
| run_step: "turn_run w w1 \<Longrightarrow> turn_step e w1 w2 \<Longrightarrow> turn_run w w2"

lemma turn_ok_run: "turn_run w w' \<Longrightarrow> turn_ok w \<Longrightarrow> turn_ok w'"
  by (induction rule: turn_run.induct) (auto intro: turn_ok_step)

text \<open>A session at rest: nothing runs, nothing is pending in the process, nothing was sent yet.\<close>

definition at_rest :: "turn_world \<Rightarrow> bool" where
  "at_rest w \<longleftrightarrow> messages_ok (tw_db w) \<and> getProcessingMessage (tw_db w) = None
     \<and> list_all (\<lambda>m. mg_createdAt m \<le> tw_clock w) (db_messages (tw_db w)) \<and> tw_tasks w = [] \<and> tw_log w = []"

lemma at_rest_ok: "at_rest w \<Longrightarrow> turn_ok w"
  by (auto simp: at_rest_def turn_ok_def aged_def list_all_iff prompts.calm_def picked_def sent_def)

lemma front_is_oldest:
  assumes "messages_ok db" and "front_prompt db = Some i" and "getMessageById i db = Some m"
    and "x \<in> set (db_messages db)" and "is_unfinished x"
  shows "mg_createdAt m \<le> mg_createdAt x"
proof -
  from assms(2) obtain r where r: "first_by mg_createdAt (filter is_unfinished (db_messages db)) = Some r" "mg_id r = i"
    by (auto simp: front_prompt_def)
  have "m \<in> set (db_messages db)" "mg_id m = i"
    using assms(3) by (auto simp: getMessageById_def message_with_def dest: find_SomeD)
  moreover have "r \<in> set (db_messages db)" using first_by_SomeD(1) [OF r(1)] by simp
  ultimately have "m = r" using r(2) assms(1) by (auto simp: messages_ok_def distinct_map inj_on_def)
  then show ?thesis using first_by_SomeD(2) [OF r(1), of x] assms(4,5) by simp
qed

text \<open>
  C3. A prompt reaches the sandbox only when it may. In every run of a session from rest, at
  the moment a prompt command goes out its message is stored and processing, no other message
  is, none that is unfinished was queued earlier, no stop is unconfirmed and the session's budget
  is not exhausted, whatever happened while the pump awaited the provider and the prepared tools.
\<close>

theorem prompts_sent_in_order:
  assumes "at_rest w0" and "turn_run w0 w" and "(TxPrompt sock i, db) \<in> set (tw_log w)"
  shows "\<exists>m. getMessageById i db = Some m \<and> mg_status m = MProcessing
    \<and> (\<forall>x \<in> set (db_messages db). is_unfinished x \<longrightarrow> mg_createdAt m \<le> mg_createdAt x)
    \<and> sql_count is_processing (db_messages db) = 1
    \<and> getMessageAwaitingStopConfirmation db = None
    \<and> \<not> some_holds sn_budgetExhausted (getSession (db_core db))"
proof -
  have "(TxPrompt sock i, db) \<in> set (sent w)" using assms(3) by (simp add: sent_def)
  then have may: "may_send i db"
    using turn_ok_run [OF assms(2) at_rest_ok [OF assms(1)]] by (simp add: turn_ok_def)
  then have ok: "messages_ok db" and "getMessageStatus i db = Some MProcessing"
    using running_iff by (auto simp: may_send_def)
  then obtain m where m: "getMessageById i db = Some m" "mg_status m = MProcessing"
    by (auto simp: getMessageStatus_def getMessageById_def)
  then have "m \<in> set (db_messages db)" by (auto simp: getMessageById_def message_with_def dest: find_SomeD)
  then have "\<exists>x \<in> set (db_messages db). is_processing x" using m(2) by (auto simp: is_processing_def)
  then have "0 < sql_count is_processing (db_messages db)" by (simp only: sql_count_pos)
  moreover have "sql_count is_processing (db_messages db) \<le> 1" using ok by (simp add: messages_ok_def)
  ultimately have "sql_count is_processing (db_messages db) = 1" by linarith
  moreover have "getMessageAwaitingStopConfirmation db = None"
    using may unfolding may_send_def stop_unconfirmed_def by blast
  ultimately show ?thesis
    using m may front_is_oldest [OF ok _ m(1)] unfolding may_send_def spent_def by blast
qed

text \<open>
  C6. A prompt goes to the bridge of the moment. Whatever a step does, a prompt command it sends
  goes out while the shutdown coordinator lets work out and to the socket that is the sandbox's
  command target in that very step, never to the one an earlier continuation had in hand.
\<close>

theorem prompts_go_to_the_live_bridge:
  assumes "turn_step e w w'" and "messages_ok (tw_db w)" and "(TxPrompt sock i, db) \<in> set (sent w')"
  shows "(TxPrompt sock i, db) \<in> set (sent w) \<or> te_mayDispatch e \<and> te_target e = TargetDispatch sock \<and> te_sendOk e"
proof -
  from turn_step_moves [OF assms(1,2)] show ?thesis using assms(3)
  proof (induction rule: rtranclp_induct)
    case (step w1 w2)
    from step.hyps(2) step.prems consider "(TxPrompt sock i, db) \<in> set (sent w1)"
      | "te_mayDispatch e" "te_target e = TargetDispatch sock" "te_sendOk e"
      by cases auto
    then show ?case using step.IH by cases auto
  qed simp
qed

section \<open>The queue is bounded\<close>

lemma count_update_le:
  assumes "\<And>m. m \<in> set t \<Longrightarrow> p m \<Longrightarrow> is_unfinished (f m) \<Longrightarrow> is_unfinished m"
  shows "sql_count is_unfinished (sql_update p f t) \<le> sql_count is_unfinished t"
  unfolding sql_count_update by (rule sql_count_mono) (use assms in \<open>auto split: if_splits\<close>)

lemma finish_count: "finishes_prompt db i db' \<Longrightarrow> getPendingOrProcessingCount db' \<le> getPendingOrProcessingCount db"
  unfolding finishes_prompt_def getPendingOrProcessingCount_def
  by (auto elim!: complete_rows cancel_rows simp: sql_count_delete_le is_unfinished_def intro!: count_update_le)

lemma fence_count: "fences_prompt db i db' \<Longrightarrow> getPendingOrProcessingCount db' \<le> getPendingOrProcessingCount db"
  unfolding fences_prompt_def getPendingOrProcessingCount_def on_message_def
  by (auto simp: is_unfinished_def intro!: count_update_le)

lemma move_count:
  assumes "turn_move e w w'" and "getPendingOrProcessingCount (tw_db w) \<le> MAX_UNFINISHED_PROMPTS"
  shows "getPendingOrProcessingCount (tw_db w') \<le> MAX_UNFINISHED_PROMPTS"
  using assms(1)
proof cases
  case aside
  with assms(2) show ?thesis by (simp add: getPendingOrProcessingCount_def)
next
  case (queue d ids db)
  then show ?thesis by (simp add: getPendingOrProcessingCount_def queue_rows(1) [OF queue(2)])
next
  case (claim i db)
  have "getPendingOrProcessingCount db \<le> getPendingOrProcessingCount (tw_db w)"
    using claim(2) unfolding claims_prompt_def getPendingOrProcessingCount_def
    by (auto elim!: claim_rows simp: is_unfinished_def intro!: count_update_le)
  with claim(1) assms(2) show ?thesis by simp
next
  case (requeue i db)
  have "getPendingOrProcessingCount db \<le> getPendingOrProcessingCount (tw_db w)"
    using requeue(2) unfolding requeues_prompt_def getPendingOrProcessingCount_def
    by (auto simp: updateMessageToPending_def Let_def is_unfinished_def intro!: count_update_le)
  with requeue(1) assms(2) show ?thesis by simp
next
  case (finish i db)
  with finish_count [OF finish(2)] assms(2) show ?thesis by simp
next
  case (stop i db1 j db)
  with finish_count [OF stop(3)] fence_count [OF stop(4)] assms(2) show ?thesis by simp
next
  case (release i)
  with fence_count [OF release_fence, of i "tw_db w"] assms(2) show ?thesis by simp
next
  case (cost i c)
  have "getPendingOrProcessingCount (fst (raiseReportedCost i c (tw_db w))) \<le> getPendingOrProcessingCount (tw_db w)"
    unfolding raiseReportedCost_def getPendingOrProcessingCount_def on_message_def
    by (auto simp: is_unfinished_def split: option.split intro!: count_update_le)
  with cost assms(2) show ?thesis by simp
qed (use assms(2) in simp_all)

text \<open>
  C24. A session never holds more than fifty unfinished prompts. Through any run of prompts from
  either entry, autofix commands, requeues, stops, failures and restarts the count stays within
  the limit, although every check that precedes an await may be stale when the prompt is stored.
\<close>

theorem unfinished_prompts_bounded:
  assumes "turn_run w w'" and "messages_ok (tw_db w)"
    and "getPendingOrProcessingCount (tw_db w) \<le> MAX_UNFINISHED_PROMPTS"
  shows "getPendingOrProcessingCount (tw_db w') \<le> 50"
proof -
  from assms have "messages_ok (tw_db w') \<and> getPendingOrProcessingCount (tw_db w') \<le> MAX_UNFINISHED_PROMPTS"
  proof (induction rule: turn_run.induct)
    case (run_step w w1 e w2)
    then have old: "messages_ok (tw_db w1) \<and> getPendingOrProcessingCount (tw_db w1) \<le> MAX_UNFINISHED_PROMPTS" by blast
    then have "moves e w1 w2" using turn_step_moves run_step.hyps(2) by blast
    then show ?case using old
      by (induction rule: rtranclp_induct) (auto intro: move_ok move_count)
  qed simp
  then show ?thesis by (simp add: MAX_UNFINISHED_PROMPTS_def)
qed

section \<open>A cancelled session is silent\<close>

definition closed_for_good :: "turn_world \<Rightarrow> bool" where
  "closed_for_good w \<longleftrightarrow> messages_ok (tw_db w) \<and> cancelled (tw_db w) \<and> getPendingOrProcessingCount (tw_db w) = 0"

lemma nothing_unfinished:
  "getPendingOrProcessingCount db = 0 \<Longrightarrow> getMessageStatus i db \<noteq> Some MPending \<and> getMessageStatus i db \<noteq> Some MProcessing"
  by (auto simp: getPendingOrProcessingCount_def sql_count_zero getMessageStatus_def message_with_def
    is_unfinished_def dest: find_SomeD)

lemma nothing_running: "getPendingOrProcessingCount db = 0 \<Longrightarrow> getProcessingMessage db = None"
  by (auto simp: getPendingOrProcessingCount_def sql_count_zero getProcessingMessage_def processing_row_def
    is_unfinished_def find_None_iff)

lemma silent_move:
  assumes "turn_move e w w'" and closed: "closed_for_good w"
  shows "closed_for_good w' \<and> sent w' = sent w"
proof -
  have ok: "messages_ok (tw_db w)" and none: "getPendingOrProcessingCount (tw_db w) = 0" and gone: "cancelled (tw_db w)"
    using closed by (simp_all add: closed_for_good_def)
  note idle = nothing_unfinished [OF none] nothing_running [OF none]
  have keep: "closed_for_good w'"
    if "db_core (tw_db w') = db_core (tw_db w)" "getPendingOrProcessingCount (tw_db w') \<le> getPendingOrProcessingCount (tw_db w)"
    using that move_ok [OF assms(1) ok] none gone by (simp add: closed_for_good_def cancelled_def)
  from assms(1) show ?thesis
  proof cases
    case aside
    with closed show ?thesis by (simp add: closed_for_good_def getPendingOrProcessingCount_def)
  next
    case (pick m ts)
    have "m \<in> set (db_messages (tw_db w)) \<and> mg_status m = MPending"
      using first_by_SomeD(1) [OF pick(2) [unfolded getNextPendingMessage_def]] by auto
    with none show ?thesis by (auto simp: getPendingOrProcessingCount_def sql_count_zero is_unfinished_def)
  next
    case (claim i db)
    with idle claim_store(2) [OF ok claim(2)] show ?thesis by simp
  next
    case (finish i db)
    then consider "getMessageStatus i (tw_db w) = Some MPending" | "getMessageStatus i (tw_db w) = Some MProcessing"
      unfolding finishes_prompt_def using complete_store(2) [OF ok] cancel_store(2) [OF ok] by blast
    with idle show ?thesis by cases simp_all
  next
    case (release i)
    then show ?thesis
      using keep fence_count [OF release_fence, of i "tw_db w"] fence_more(2) [OF release_fence] by simp
  next
    case (cost i c)
    have "getPendingOrProcessingCount (fst (raiseReportedCost i c (tw_db w))) \<le> getPendingOrProcessingCount (tw_db w)"
      unfolding raiseReportedCost_def getPendingOrProcessingCount_def on_message_def
      by (auto simp: is_unfinished_def split: option.split intro!: count_update_le)
    with cost keep cost_store(6) show ?thesis by simp
  qed (use idle gone in \<open>simp_all add: requeues_prompt_def\<close>)
qed

lemma silent_run:
  assumes "turn_run w w'" and "closed_for_good w"
  shows "closed_for_good w' \<and> sent w' = sent w"
  using assms
proof (induction rule: turn_run.induct)
  case (run_step w w1 e w2)
  then have old: "closed_for_good w1" "sent w1 = sent w" by auto
  then have "moves e w1 w2" using turn_step_moves run_step.hyps(2) by (simp add: closed_for_good_def)
  then have "closed_for_good w2 \<and> sent w2 = sent w1"
    by (induction rule: rtranclp_induct) (use old silent_move in auto)
  with old show ?case by simp
qed simp

subsection \<open>What cancelling leaves\<close>

definition shrinks :: "turn_world \<Rightarrow> turn_world \<Rightarrow> bool" where
  "shrinks w w' \<longleftrightarrow> messages_ok (tw_db w') \<and> db_core (tw_db w') = db_core (tw_db w) \<and> sent w' = sent w
     \<and> (\<forall>j. \<forall>s \<in> {MPending, MProcessing}. getMessageStatus j (tw_db w') = Some s \<longrightarrow> getMessageStatus j (tw_db w) = Some s)"

lemma shrinks_refl: "messages_ok (tw_db w) \<Longrightarrow> shrinks w w"
  by (simp add: shrinks_def)

lemma shrinks_trans: "shrinks w w1 \<Longrightarrow> shrinks w1 w2 \<Longrightarrow> shrinks w w2"
  unfolding shrinks_def by auto

lemma fail_shrinks:
  assumes ok: "messages_ok (tw_db w)" and st: "st \<in> {MPending, MProcessing}"
    and f: "failMessage e i err ts st w = (w1, b)"
  shows "shrinks w w1" and "getMessageStatus i (tw_db w1) \<noteq> Some st"
proof -
  let ?ev = "\<lparr>ce_messageId = i, ce_success = False, ce_error = Some err, ce_json = te_failureJson e i err ts\<rparr>"
  obtain db c where rec: "recordMessageCompletion ?ev ts st (tw_db w) = (db, c)" by fastforce
  have "shrinks w w1 \<and> getMessageStatus i (tw_db w1) \<noteq> Some st"
  proof (cases c)
    case None
    with f rec record_none [OF rec [unfolded None]] have "w1 = w"
      by (simp add: failMessage_def record_turn_failure_def)
    moreover have "getMessageStatus i (tw_db w) \<noteq> Some st"
      using rec [unfolded None] by (auto simp: recordMessageCompletion_def getMessageStatus_def Let_def
          split: option.splits if_splits)
    ultimately show ?thesis using shrinks_refl [OF ok] by simp
  next
    case (Some x)
    with f rec have w1: "w1 = note_fx (TxFailure x) (w\<lparr>tw_db := db\<rparr>)"
      by (simp add: failMessage_def record_turn_failure_def)
    note facts = complete_store [OF ok st rec [unfolded Some]]
    have "db_core db = db_core (tw_db w)" by (rule complete_rows [OF rec [unfolded Some]])
    moreover have "getMessageStatus j (tw_db w) = Some s" if "getMessageStatus j db = Some s" "s \<in> {MPending, MProcessing}" for j s
      using that facts(3,4) by (cases "j = i") auto
    ultimately show ?thesis using facts(1,3) st unfolding w1 shrinks_def by auto
  qed
  then show "shrinks w w1" and "getMessageStatus i (tw_db w1) \<noteq> Some st" by auto
qed

lemma fail_all:
  fixes xs :: "(string \<times> ms) list"
  assumes "messages_ok (tw_db w)"
    and "w' = fold (\<lambda>(i, _) w. fst (failMessage e i err ts MPending w)) xs w"
  shows "shrinks w w' \<and> (\<forall>i \<in> fst ` set xs. getMessageStatus i (tw_db w') \<noteq> Some MPending)"
  using assms
proof (induction xs arbitrary: w)
  case (Cons x xs)
  obtain w1 b where f: "failMessage e (fst x) err ts MPending w = (w1, b)" by fastforce
  note one = fail_shrinks [OF Cons.prems(1) _ f]
  have w': "w' = fold (\<lambda>(i, _) w. fst (failMessage e i err ts MPending w)) xs w1"
    using Cons.prems(2) f by (cases x) simp
  have rest: "shrinks w1 w' \<and> (\<forall>i \<in> fst ` set xs. getMessageStatus i (tw_db w') \<noteq> Some MPending)"
    by (rule Cons.IH [OF _ w']) (use one in \<open>simp add: shrinks_def\<close>)
  then have "getMessageStatus (fst x) (tw_db w') \<noteq> Some MPending"
    using one(2) unfolding shrinks_def by auto
  with rest one(1) show ?case using shrinks_trans by auto
qed (simp add: shrinks_refl)

lemma pending_listed:
  assumes "messages_ok db" and "getMessageStatus i db = Some MPending"
  shows "i \<in> fst ` set (listPendingMessagesWithCreatedAt db)"
  using assms by (force simp: status_iff listPendingMessagesWithCreatedAt_def)

lemma cancel_execution_empties:
  assumes ok: "messages_ok (tw_db w)"
  shows "shrinks w (cancelExecution e w)"
    and "getMessageStatus i (tw_db (cancelExecution e w)) \<notin> {Some MPending, Some MProcessing}"
proof -
  define w1 where "w1 = fold (\<lambda>(i, _) w. fst (failMessage e i ''Execution was cancelled before it started''
      (te_now e) MPending w)) (listPendingMessagesWithCreatedAt (tw_db w)) w"
  note first = fail_all [OF ok w1_def]
  define w2 where "w2 = (case getProcessingMessageWithCreatedAt (tw_db w1) of None \<Rightarrow> w1
      | Some (i, _) \<Rightarrow> fst (failMessage e i ''Execution was cancelled'' (te_now e) MProcessing w1))"
  have ok1: "messages_ok (tw_db w1)" using first by (simp add: shrinks_def)
  have second: "shrinks w1 w2 \<and> getMessageStatus j (tw_db w2) \<noteq> Some MProcessing" for j
  proof (cases "getProcessingMessageWithCreatedAt (tw_db w1)")
    case None
    then have "getProcessingMessage (tw_db w1) = None"
      by (simp add: getProcessingMessageWithCreatedAt_def getProcessingMessage_def)
    with None ok1 running_iff [OF ok1, of j] show ?thesis by (simp add: w2_def shrinks_refl)
  next
    case (Some x)
    then have run: "getProcessingMessage (tw_db w1) = Some (fst x)"
      by (auto simp: getProcessingMessageWithCreatedAt_def getProcessingMessage_def)
    obtain v b where f: "failMessage e (fst x) ''Execution was cancelled'' (te_now e) MProcessing w1 = (v, b)" by fastforce
    with Some have "w2 = v" by (cases x) (simp add: w2_def)
    with fail_shrinks [OF ok1 _ f] run running_iff [OF ok1, of j] show ?thesis
      by (cases "j = fst x") (auto simp: shrinks_def)
  qed
  have "tw_db (cancelExecution e w) = tw_db w2" "sent (cancelExecution e w) = sent w2"
    unfolding cancelExecution_def w1_def [symmetric] w2_def [symmetric] Let_def broadcastPromptQueue_def
    by (simp_all split: option.split)
  moreover have "shrinks w w2" using first second shrinks_trans by blast
  ultimately show "shrinks w (cancelExecution e w)" by (simp add: shrinks_def)
  have "getMessageStatus i (tw_db w2) \<noteq> Some MPending"
    using first second pending_listed [OF ok, of i] unfolding shrinks_def by blast
  with second [of i] show "getMessageStatus i (tw_db (cancelExecution e w)) \<notin> {Some MPending, Some MProcessing}"
    using \<open>tw_db (cancelExecution e w) = tw_db w2\<close> by simp
qed

lemma project_fields [simp]:
  "tw_db (projectTransition s sid st t r w) = tw_db w" "sent (projectTransition s sid st t r w) = sent w"
  by (simp_all add: projectTransition_def syncSessionMetrics_def Let_def split: metrics_writer.split)

lemma cancel_closes:
  assumes ok: "messages_ok (tw_db w)" and "session_of w = Some s" and "\<not> isSessionInactive (sn_status s)"
  shows "closed_for_good (cancel_request e w) \<and> sent (cancel_request e w) = sent w"
proof -
  define t where "t = max (te_now e) (sn_updatedAt s + 1)"
  let ?w1 = "set_session_status s SCancelled t w"
  let ?w2 = "cancelExecution e ?w1"
  have ok1: "messages_ok (tw_db ?w1)" using ok by (simp add: set_session_status_def messages_ok_def)
  note empties = cancel_execution_empties [OF ok1, where e = e]
  have "cancelled (tw_db ?w1)"
    using assms(2) by (simp add: set_session_status_def cancelled_def getSession_set_status)
  then have "cancelled (tw_db ?w2)" using empties(1) by (simp add: shrinks_def cancelled_def)
  moreover have ok2: "messages_ok (tw_db ?w2)" using empties(1) by (simp add: shrinks_def)
  moreover have "getPendingOrProcessingCount (tw_db ?w2) = 0"
    using empties(2) status_iff [OF ok2]
    by (auto simp: getPendingOrProcessingCount_def sql_count_zero is_unfinished_def)
  moreover have "sent ?w2 = sent w" using empties(1) by (simp add: shrinks_def set_session_status_def)
  ultimately show ?thesis
    using assms(2,3) by (simp add: cancel_request_def cancel_session_def Let_def closed_for_good_def t_def)
qed

text \<open>
  C12. Cancelling a session is final. Once a cancel request has been accepted the session is
  cancelled and holds no unfinished prompt, and through every later run - prompts, autofix
  commands, wakes, archive requests, continuations that were in flight when it was cancelled - it
  stays cancelled, nothing is queued, and no prompt is sent any more.
\<close>

theorem cancelled_session_is_silent:
  assumes "messages_ok (tw_db w)" and "session_of w = Some s" and "\<not> isSessionInactive (sn_status s)"
    and "turn_run (cancel_request e w) w'"
  shows "map_option sn_status (session_of w') = Some SCancelled
    \<and> getPendingOrProcessingCount (tw_db w') = 0
    \<and> (\<forall>sock i db. (TxPrompt sock i, db) \<in> set (tw_log w') \<longrightarrow> (TxPrompt sock i, db) \<in> set (tw_log w))"
proof -
  from silent_run [OF assms(4)] cancel_closes [OF assms(1-3), where e = e]
  have "closed_for_good w'" "sent w' = sent w" by auto
  moreover have "(TxPrompt sock i, db) \<in> set (tw_log w') \<longleftrightarrow> (TxPrompt sock i, db) \<in> set (sent w')"
      "(TxPrompt sock i, db) \<in> set (tw_log w) \<longleftrightarrow> (TxPrompt sock i, db) \<in> set (sent w)" for sock i db
    by (simp_all add: sent_def)
  ultimately show ?thesis by (auto simp: closed_for_good_def cancelled_def)
qed

section \<open>Admission is all or nothing\<close>

lemma transition_messages [simp]: "db_messages (tw_db (fst (transition st n w))) = db_messages (tw_db w)"
  by (simp add: transition_def set_session_status_def syncSessionMetrics_def Let_def
    split: option.split metrics_writer.split)

lemma accept_db [simp]: "tw_db (accept i p b w) = tw_db w"
  by (simp add: accept_def touchSessionActivity_def split: option.split)

text \<open>
  C25. Admission is all or nothing. A request's last turn refuses it and leaves every table as it
  was; or finds the message its \<open>clientRequestId\<close> already names, written by the same author with
  the same fingerprint, leaves every table as it was and answers with that message; or stores
  exactly one new pending message under a new id, and then the session was promptable and within
  its budget, fewer than fifty prompts were unfinished and no message had that request id.
\<close>

theorem admission_is_all_or_nothing:
  "(\<exists>err. enqueuePromptCore e r w = w\<lparr>tw_log := tw_log w @ [(TxReply (PromptRefused err), tw_db w)]\<rparr>)
   \<or> (\<exists>m pos. m \<in> set (db_messages (tw_db w)) \<and> mg_clientRequestId m = cm_clientRequestId (pr_message r)
        \<and> mg_authorId m = cm_authorId (pr_message r)
        \<and> mg_requestFingerprint m = cm_requestFingerprint (pr_message r)
        \<and> tw_db (enqueuePromptCore e r w) = tw_db w
        \<and> (TxReply (PromptQueued (mg_id m) pos True), tw_db w) \<in> set (tw_log (enqueuePromptCore e r w)))
   \<or> (\<exists>m. db_messages (tw_db (enqueuePromptCore e r w)) = db_messages (tw_db w) @ [m]
        \<and> mg_id m = te_messageId e \<and> mg_status m = MPending \<and> mg_createdAt m = te_now e
        \<and> mg_id m \<notin> set (map mg_id (db_messages (tw_db w)))
        \<and> TAccepted (mg_id m) \<in> set (tw_tasks (enqueuePromptCore e r w))
        \<and> none_or (\<lambda>s. isSessionPromptable (sn_status s) \<and> \<not> sn_budgetExhausted s) (session_of w)
        \<and> getPendingOrProcessingCount (tw_db w) < 50
        \<and> (truthy (cm_clientRequestId (pr_message r)) \<longrightarrow>
             (\<forall>x \<in> set (db_messages (tw_db w)). mg_clientRequestId x \<noteq> cm_clientRequestId (pr_message r))))"
    (is "?refused \<or> ?retried \<or> ?queued")
proof (cases rule: enqueue_cases [of e r w])
  case (refused err)
  then have ?refused by (auto simp: refuse_def note_fx_def)
  then show ?thesis ..
next
  case (retried m)
  then have "named_prompt (cm_clientRequestId (pr_message r)) w = Some m"
      "mg_authorId m = cm_authorId (pr_message r)" "mg_requestFingerprint m = cm_requestFingerprint (pr_message r)"
    by (auto simp: findDuplicatePrompt_def split: option.splits if_splits)
  then have "m \<in> set (db_messages (tw_db w))" "mg_clientRequestId m = cm_clientRequestId (pr_message r)"
    by (auto simp: named_prompt_def getMessageByClientRequestId_def truthy_def dest!: find_SomeD
      split: if_splits option.splits)
  moreover have "(TxReply (PromptQueued (mg_id m) (getUnfinishedMessagePosition (mg_id m) (tw_db w)) True), tw_db w)
      \<in> set (tw_log (enqueuePromptCore e r w))"
    unfolding retried(2) by (simp add: accept_def touchSessionActivity_def split: option.split)
  moreover have "tw_db (enqueuePromptCore e r w) = tw_db w" unfolding retried(2) by simp
  ultimately have ?retried using retried(1) \<open>mg_authorId m = _\<close> \<open>mg_requestFingerprint m = _\<close> by blast
  then show ?thesis by blast
next
  case (queued attachments ids db)
  let ?d = "queued_message e r attachments w"
  note rows = queue_rows [OF queued(6)]
  have d: "cm_id ?d = te_messageId e" "cm_status ?d = MPending" "cm_createdAt ?d = te_now e"
    by (simp_all add: queued_message_def Let_def)
  have "getPendingOrProcessingCount (tw_db w) < 50"
    using queued(5) by (auto simp: assertQueueCapacity_def MAX_UNFINISHED_PROMPTS_def split: if_splits)
  moreover have "none_or (\<lambda>s. isSessionPromptable (sn_status s) \<and> \<not> sn_budgetExhausted s) (session_of w)"
    using queued(2,4) by (auto simp: assertPromptableSession_def assertBudgetAvailable_def budget_exhausted_def
      split: option.splits if_splits)
  moreover have "\<forall>x \<in> set (db_messages (tw_db w)). mg_clientRequestId x \<noteq> cm_clientRequestId (pr_message r)"
    if "truthy (cm_clientRequestId (pr_message r))"
    using queued(1) that by (auto simp: findDuplicatePrompt_def named_prompt_def getMessageByClientRequestId_def
      truthy_def find_None_iff split: option.splits if_splits)
  moreover have "db_messages (tw_db (enqueuePromptCore e r w)) = db_messages (tw_db w) @ [message_of ?d]"
    unfolding queued(7) by (simp add: rows(1))
  moreover have "mg_id (message_of ?d) \<notin> set (map mg_id (db_messages (tw_db w)))"
    using rows(2) by (auto simp: violates_key_def)
  ultimately have ?queued
    using d unfolding queued(7) by (intro exI [of _ "message_of ?d"]) (simp add: message_of_def)
  then show ?thesis by blast
qed

section \<open>The properties at work\<close>

text \<open>A concrete session with one waiting prompt, and a live bridge.\<close>

definition demo_turn_env :: "ms \<Rightarrow> string \<Rightarrow> turn_env" where
  "demo_turn_env now i = \<lparr>te_now = now, te_mayDispatch = True, te_blockReason = None,
     te_target = TargetDispatch ''ws'', te_socket = Some ''ws'', te_sendOk = True, te_timeoutMs = 100,
     te_idleRuntime = True, te_authorKnown = (\<lambda>_. True), te_hasMcp = False,
     te_runIncompatible = (\<lambda>_. None), te_requestIncompatible = (\<lambda>_ _. None),
     te_validModel = (\<lambda>_. True), te_validEffort = (\<lambda>_ x. x), te_authError = None,
     te_prepared = Prepared, te_alarmOk = True, te_held = False, te_recovery = NoAction,
     te_messageId = i, te_eventId = ''ev'', te_failureJson = (\<lambda>_ _ _. ''{}''), te_promptJson = (\<lambda>_ _. ''{}''),
     te_attachmentsJson = (\<lambda>_. ''[]''), te_warningJson = (\<lambda>_ _. ''{}''), te_money = (\<lambda>_. ''$'')\<rparr>"

definition demo_row :: message_row where
  "demo_row = message_of (demo_create ''a'' 1)"

definition demo_queue_db :: session_db where
  "demo_queue_db = empty_db\<lparr>db_core := \<lparr>se_session = [demo_session], se_repositories = []\<rparr>,
     db_messages := [demo_row]\<rparr>"

definition demo_turns :: turn_world where
  "demo_turns = \<lparr>tw_db = demo_queue_db, tw_tasks = [], tw_log = [], tw_metrics = WriterIdle, tw_clock = 2\<rparr>"

lemmas demo_turn_simps = demo_turns_def demo_queue_db_def demo_row_def demo_create_def message_of_def
  empty_db_def demo_session_def fresh_session_def upserted_def demo_upsert_def

lemma demo_at_rest: "at_rest demo_turns"
  by (simp add: at_rest_def demo_turn_simps messages_ok_def row_ok_def is_processing_def events_ok_def
    attachments_ok_def getProcessingMessage_def processing_row_def)

lemma demo_pump: "processMessageQueue (demo_turn_env 5 ''x'') (clocked (demo_turn_env 5 ''x'') demo_turns)
    = suspend (TAuth demo_row 5) (clocked (demo_turn_env 5 ''x'') demo_turns)"
  by (simp add: processMessageQueue_def demo_turn_env_def demo_turn_simps clocked_def getSession_def
    getMessageAwaitingStopConfirmation_def getProcessingMessage_def processing_row_def
    getNextPendingMessage_def first_by_simps)

definition demo_claimed :: session_db where
  "demo_claimed = fst (the (startMessageProcessing ''a'' 5 ''{}'' demo_queue_db))"

lemma demo_claims_prompt: "startMessageProcessing ''a'' 5 ''{}'' demo_queue_db = Some (demo_claimed, True)"
  by (simp add: demo_claimed_def startMessageProcessing_def demo_turn_simps createEvent_def has_event_def Let_def)

definition demo_picked :: turn_world where
  "demo_picked = suspend (TAuth demo_row 5) (clocked (demo_turn_env 5 ''x'') demo_turns)"

lemma demo_sends:
  "(TxPrompt ''ws'' ''a'', demo_claimed) \<in> set (sent (drop_task (TAuth demo_row 5)
     (run_task (demo_turn_env 6 ''x'') (TAuth demo_row 5) (clocked (demo_turn_env 6 ''x'') demo_picked))))"
proof -
  have db: "tw_db demo_picked = demo_queue_db" by (simp add: demo_picked_def demo_turns_def)
  have row: "mg_id demo_row = ''a''" by (simp add: demo_turn_simps)
  have "\<not> budget_exhausted (clocked (demo_turn_env 6 ''x'') demo_picked)"
    by (simp add: budget_exhausted_def db) (simp add: demo_turn_simps getSession_def)
  then show ?thesis
    by (simp add: pump_authed_def demo_turn_env_def claim_prompt_def send_prompt_def db row demo_claims_prompt
      [unfolded demo_turn_env_def] drop_task_def sent_def broadcastPromptQueue_def)
qed

lemma demo_run: "turn_run demo_turns (drop_task (TAuth demo_row 5)
     (run_task (demo_turn_env 6 ''x'') (TAuth demo_row 5) (clocked (demo_turn_env 6 ''x'') demo_picked)))"
proof -
  have "env_ok (demo_turn_env 5 ''x'') demo_turns" "elsewhere_ok EvWake (tw_db demo_turns)"
    by (simp_all add: env_ok_def demo_turn_env_def demo_turns_def picked_def elsewhere_ok_def)
  then have one: "turn_run demo_turns demo_picked"
    using run_step [OF run_start event [of "demo_turn_env 5 ''x''" demo_turns EvWake]] demo_pump by (simp add: demo_picked_def)
  have "env_ok (demo_turn_env 6 ''x'') demo_picked"
    by (simp add: env_ok_def demo_turn_env_def demo_picked_def clocked_def picked_def demo_turns_def demo_row_def
      message_of_def demo_create_def)
  moreover have "TAuth demo_row 5 \<in> set (tw_tasks demo_picked)" by (simp add: demo_picked_def)
  ultimately show ?thesis by (rule run_step [OF one resume])
qed

theorem prompts_sent_in_order_witness:
  "sql_count is_processing (db_messages demo_claimed) = 1
   \<and> getMessageAwaitingStopConfirmation demo_claimed = None"
  using prompts_sent_in_order [OF demo_at_rest demo_run, of "''ws''" "''a''" demo_claimed] demo_sends
  by (auto simp: sent_def)

theorem prompts_go_to_the_live_bridge_witness:
  "te_target (demo_turn_env 6 ''x'') = TargetDispatch ''ws''"
proof -
  let ?e = "demo_turn_env 6 ''x''"
  have go: "turn_step ?e demo_picked (drop_task (TAuth demo_row 5) (run_task ?e (TAuth demo_row 5) (clocked ?e demo_picked)))"
    by (rule resume) (simp_all add: env_ok_def demo_turn_env_def demo_picked_def clocked_def picked_def demo_turns_def
      demo_row_def message_of_def demo_create_def)
  have ok: "messages_ok (tw_db demo_picked)" using demo_at_rest by (simp add: at_rest_def demo_picked_def)
  have "sent demo_picked = []" by (simp add: demo_picked_def sent_def demo_turns_def clocked_def)
  with prompts_go_to_the_live_bridge [OF go ok demo_sends] show ?thesis by auto
qed

theorem unfinished_prompts_bounded_witness:
  "getPendingOrProcessingCount (tw_db (drop_task (TAuth demo_row 5)
     (run_task (demo_turn_env 6 ''x'') (TAuth demo_row 5) (clocked (demo_turn_env 6 ''x'') demo_picked)))) \<le> 50"
proof -
  have "messages_ok (tw_db demo_turns)" using demo_at_rest by (simp add: at_rest_def)
  moreover have "getPendingOrProcessingCount (tw_db demo_turns) \<le> MAX_UNFINISHED_PROMPTS"
    by (simp add: getPendingOrProcessingCount_def demo_turn_simps MAX_UNFINISHED_PROMPTS_def)
  ultimately show ?thesis by (rule unfinished_prompts_bounded [OF demo_run])
qed

theorem cancelled_session_is_silent_witness:
  "map_option sn_status (session_of (cancel_request (demo_turn_env 7 ''x'') demo_turns)) = Some SCancelled"
proof -
  have "messages_ok (tw_db demo_turns)" using demo_at_rest by (simp add: at_rest_def)
  moreover have "session_of demo_turns = Some demo_session"
    by (simp add: demo_turns_def demo_queue_db_def getSession_def)
  moreover have "\<not> isSessionInactive (sn_status demo_session)"
    by (simp add: demo_turn_simps isSessionInactive_def)
  ultimately show ?thesis using cancelled_session_is_silent run_start by blast
qed

definition demo_request :: prompt_request where
  "demo_request = \<lparr>pr_message = (demo_create ''y'' 0)\<lparr>cm_clientRequestId := Some ''k'', cm_requestFingerprint := Some ''f''\<rparr>,
     pr_attachments = [], pr_newAuthor = False, pr_fromApi = True, pr_strict = False\<rparr>"

lemma transition_tasks [simp]: "tw_tasks (fst (transition st n w)) = tw_tasks w"
  by (simp add: transition_def set_session_status_def projectTransition_def syncSessionMetrics_def Let_def
    split: option.split metrics_writer.split)

lemma demo_admits: "tw_tasks (enqueuePromptCore (demo_turn_env 9 ''x'') demo_request demo_turns) = [TAccepted ''x'']"
proof -
  let ?e = "demo_turn_env 9 ''x''"
  let ?d = "queued_message ?e demo_request None demo_turns"
  have checks: "assertPromptableSession demo_turns = None" "assertSandboxAcceptingPrompts ?e = None"
    "assertBudgetAvailable demo_turns = None" "assertQueueCapacity demo_turns = None"
    by (simp_all add: assertPromptableSession_def assertSandboxAcceptingPrompts_def assertBudgetAvailable_def
      assertQueueCapacity_def getPendingOrProcessingCount_def MAX_UNFINISHED_PROMPTS_def budget_exhausted_def
      demo_turn_env_def demo_turn_simps getSession_def)
  have new: "findDuplicatePrompt demo_request demo_turns = Inr None"
    by (simp add: findDuplicatePrompt_def named_prompt_def demo_request_def getMessageByClientRequestId_def demo_turn_simps)
  have none: "resolveSessionAttachments (pr_attachments demo_request) (db_attachments (tw_db demo_turns)) = Inr None"
    "te_requestIncompatible ?e x y = None" for x y
    by (simp_all add: resolveSessionAttachments_def demo_request_def demo_turn_env_def)
  have d: "cm_id ?d = ''x''" by (simp add: queued_message_def Let_def demo_turn_env_def)
  have "cm_clientRequestId ?d = Some ''k''" "cm_status ?d = MPending" "cm_autofixFeedbackKey ?d = None"
    by (simp_all add: queued_message_def Let_def demo_request_def demo_create_def)
  then have "\<not> violates_key (message_of ?d) (db_messages (tw_db demo_turns))"
    using d by (simp add: violates_key_def demo_turns_def demo_queue_db_def demo_row_def demo_create_def message_of_def)
  then obtain db where "createMessageWithAttachments ?d [] None (tw_db demo_turns) = Some db"
    by (simp add: createMessageWithAttachments_def claimForMessage_def createMessage_def)
  then show ?thesis
    by (simp add: enqueuePromptCore_def checks new none Let_def d) (simp add: demo_turns_def)
qed

theorem admission_is_all_or_nothing_witness:
  "\<exists>m. db_messages (tw_db (enqueuePromptCore (demo_turn_env 9 ''x'') demo_request demo_turns)) = [demo_row, m]
     \<and> mg_id m = ''x'' \<and> mg_status m = MPending"
proof -
  have old: "db_messages (tw_db demo_turns) = [demo_row]" by (simp add: demo_turns_def demo_queue_db_def)
  have "mg_clientRequestId demo_row \<noteq> cm_clientRequestId (pr_message demo_request)"
    by (simp add: demo_request_def demo_turn_simps)
  moreover have "tw_tasks (enqueuePromptCore (demo_turn_env 9 ''x'') demo_request demo_turns) \<noteq> tw_tasks demo_turns"
    by (simp add: demo_admits) (simp add: demo_turns_def)
  moreover have "te_messageId (demo_turn_env 9 ''x'') = ''x''" by (simp add: demo_turn_env_def)
  ultimately show ?thesis
    using admission_is_all_or_nothing [of "demo_turn_env 9 ''x''" demo_request demo_turns] unfolding old by force
qed

end
