(* ===== verification/Access_Rules.thy ===== *)
theory Access_Rules
  imports Session_Types
begin

text \<open>
  Who may do what: the roles and permissions of \<open>packages/shared/src/rbac.ts\<close>, the access rules
  of \<open>packages/shared/src/types/session-access.ts\<close> over sessions, automations and environments,
  the rollout of their enforcement (\<open>authorization/teams-enforcement.ts\<close>,
  \<open>authorization/session-admission.ts\<close>) and the session scope a socket resolves
  (\<open>session/components.ts\<close>). A decision is taken from stored rows that the caller has loaded,
  so the rows are arguments.
\<close>

section \<open>Roles and permissions\<close>

datatype role_key = OwnerRole | AdministratorRole | MemberRole | ViewerRole

datatype permission =
    PAnalyticsRead | PAutomationsCreate | PAutomationsManageAny | PAutomationsManageOwn |
  PAutomationsRead | PAutomationsTriggerAny | PAutomationsTriggerOwn | PCommitSigningManage |
  PEnvironmentsImagesManage | PEnvironmentsManage | PEnvironmentsRead |
  PEnvironmentsSecretsManage | PEnvironmentsSettingsManage | PEnvironmentsUse |
  PGlobalSecretsManage | PImageBuildsRead | PIntegrationsManage | PIntegrationsRead |
  PMcpServersManage | PMcpServersRead | PMemoriesManageOwn | PModelsPreferencesManage |
  PProviderAccountsManage | PProviderAccountsRead | PRepositoriesImagesManage |
  PRepositoriesRead | PRepositoriesSecretsManage | PRepositoriesSettingsManage |
  PRepositoriesUse | PScmSettingsManage | PSessionsBulkArchive | PSessionsCollaborate |
  PSessionsCreate | PSessionsDelete | PSessionsExport | PSessionsLifecycle | PSessionsRead |
  PSessionsSandboxAccess | PSkillProfilesManageOwn | PSkillsManage | PSkillsRead |
  PWorkspaceAuditRead | PWorkspaceMembersManage | PWorkspaceMembersMerge |
  PWorkspaceMembersRead | PWorkspacePersonalAccessTokensManage | PWorkspaceRolesRead |
  PWorkspaceTransferOwnership

definition PERMISSION_IDS :: "permission list" where
  "PERMISSION_IDS =
     [PAnalyticsRead, PAutomationsCreate, PAutomationsManageAny, PAutomationsManageOwn,
      PAutomationsRead, PAutomationsTriggerAny, PAutomationsTriggerOwn, PCommitSigningManage,
      PEnvironmentsImagesManage, PEnvironmentsManage, PEnvironmentsRead,
      PEnvironmentsSecretsManage, PEnvironmentsSettingsManage, PEnvironmentsUse,
      PGlobalSecretsManage, PImageBuildsRead, PIntegrationsManage, PIntegrationsRead,
      PMcpServersManage, PMcpServersRead, PMemoriesManageOwn, PModelsPreferencesManage,
      PProviderAccountsManage, PProviderAccountsRead, PRepositoriesImagesManage,
      PRepositoriesRead, PRepositoriesSecretsManage, PRepositoriesSettingsManage,
      PRepositoriesUse, PScmSettingsManage, PSessionsBulkArchive, PSessionsCollaborate,
      PSessionsCreate, PSessionsDelete, PSessionsExport, PSessionsLifecycle, PSessionsRead,
      PSessionsSandboxAccess, PSkillProfilesManageOwn, PSkillsManage, PSkillsRead,
      PWorkspaceAuditRead, PWorkspaceMembersManage, PWorkspaceMembersMerge,
      PWorkspaceMembersRead, PWorkspacePersonalAccessTokensManage, PWorkspaceRolesRead,
      PWorkspaceTransferOwnership]"

definition isWorkspaceAdmin :: "role_key option \<Rightarrow> bool" where
  "isWorkspaceAdmin r \<longleftrightarrow> r \<in> {Some OwnerRole, Some AdministratorRole}"

datatype scoped_stem = AutomationsManage | AutomationsTrigger

datatype permission_scope = ScopeAny | ScopeOwn

text \<open>\<open>SCOPED_PERMISSION_PAIRS\<close>: the workspace-wide grant of a stem and the owner-only one.\<close>

fun scoped_pair :: "scoped_stem \<Rightarrow> permission \<times> permission" where
  "scoped_pair AutomationsManage = (PAutomationsManageAny, PAutomationsManageOwn)"
| "scoped_pair AutomationsTrigger = (PAutomationsTriggerAny, PAutomationsTriggerOwn)"

definition resolveScopedPermission :: "scoped_stem \<Rightarrow> permission list \<Rightarrow> permission_scope option" where
  "resolveScopedPermission stem permissions =
     (if fst (scoped_pair stem) \<in> set permissions then Some ScopeAny
      else if snd (scoped_pair stem) \<in> set permissions then Some ScopeOwn else None)"

definition hasScopedPermission :: "scoped_stem \<Rightarrow> permission list \<Rightarrow> bool \<Rightarrow> bool" where
  "hasScopedPermission stem permissions isOwner =
     (case resolveScopedPermission stem permissions of
        None \<Rightarrow> False | Some ScopeAny \<Rightarrow> True | Some ScopeOwn \<Rightarrow> isOwner)"

definition VIEWER_PERMISSIONS :: "permission list" where
  "VIEWER_PERMISSIONS =
     [PAnalyticsRead, PAutomationsRead, PEnvironmentsRead, PImageBuildsRead, PMcpServersRead,
      PRepositoriesRead, PSessionsRead, PSkillsRead]"

definition MEMBER_PERMISSIONS :: "permission list" where
  "MEMBER_PERMISSIONS = VIEWER_PERMISSIONS @
     [PAutomationsCreate, PAutomationsManageOwn, PAutomationsTriggerOwn, PEnvironmentsUse,
      PProviderAccountsRead, PRepositoriesUse, PSessionsCollaborate, PSessionsCreate,
      PSessionsDelete, PSessionsLifecycle, PSessionsSandboxAccess, PSkillProfilesManageOwn,
      PMemoriesManageOwn]"

fun permissionsForBuiltInRole :: "role_key \<Rightarrow> permission list" where
  "permissionsForBuiltInRole OwnerRole = PERMISSION_IDS"
| "permissionsForBuiltInRole AdministratorRole =
     filter (\<lambda>p. p \<noteq> PWorkspaceTransferOwnership) PERMISSION_IDS"
| "permissionsForBuiltInRole MemberRole = filter (\<lambda>p. p \<in> set MEMBER_PERMISSIONS) PERMISSION_IDS"
| "permissionsForBuiltInRole ViewerRole = filter (\<lambda>p. p \<in> set VIEWER_PERMISSIONS) PERMISSION_IDS"

definition isCustomRolePermission :: "permission \<Rightarrow> bool" where
  "isCustomRolePermission p \<longleftrightarrow> p \<noteq> PWorkspaceTransferOwnership"

section \<open>Decisions by rule\<close>

datatype denial_reason =
    DenySuspended | DenyNotMember | DenyPrivate | DenyMissingPermission | DenyNotOwnerOrLead
  | DenyNotCollaborator

datatype audit_obligation = PrivateBreakGlass

datatype access_decision = Permit "audit_obligation option" | Deny denial_reason

fun allowed :: "access_decision \<Rightarrow> bool" where
  "allowed (Permit a) = True"
| "allowed (Deny r) = False"

record facts =
  fc_permissions :: "permission list"

definition has :: "'z facts_scheme \<Rightarrow> permission \<Rightarrow> bool" where
  "has f p \<longleftrightarrow> p \<in> set (fc_permissions f)"

text \<open>A rule asks for a permission, for a condition with its reason (and perhaps a permission
  first), or for a scoped grant with its owner test.\<close>

datatype 'f action_rule =
    NeedsPermission permission
  | NeedsWhen "permission option" "'f \<Rightarrow> bool" denial_reason
  | NeedsScope scoped_stem "'f \<Rightarrow> bool"

fun decide_rule :: "'z facts_scheme action_rule \<Rightarrow> 'z facts_scheme \<Rightarrow> access_decision" where
  "decide_rule (NeedsPermission p) f = (if \<not> has f p then Deny DenyMissingPermission else Permit None)"
| "decide_rule (NeedsWhen p cond reason) f =
     (if (case p of None \<Rightarrow> False | Some q \<Rightarrow> \<not> has f q) then Deny DenyMissingPermission
      else if \<not> cond f then Deny reason else Permit None)"
| "decide_rule (NeedsScope stem owns) f =
     (case resolveScopedPermission stem (fc_permissions f) of
        None \<Rightarrow> Deny DenyMissingPermission
      | Some sc \<Rightarrow> if sc = ScopeOwn \<and> \<not> owns f then Deny DenyNotOwnerOrLead else Permit None)"

section \<open>Sessions\<close>

datatype session_action =
    ActRead | ActCollaborate | ActLifecycle | ActDelete | ActSandbox | ActManageCollaborators
  | ActChangeVisibility

datatype team_role = LeadRole | TeamMemberRole

datatype session_visibility = VisTeam | VisWorkspace | VisPrivate

record user_viewer =
  uv_userId :: string
  uv_roleKey :: "role_key option"
  uv_permissions :: "permission list"
  uv_suspended :: bool
  uv_memberships :: "string \<rightharpoonup> team_role"

text \<open>A service is bound to a team or to none.\<close>

datatype session_viewer = UserViewer user_viewer | ServiceViewer "string option"

record session_access_row =
  ar_id :: string
  ar_ownerUserId :: "string option"
  ar_ownerTeamId :: "string option"
  ar_visibility :: session_visibility
  ar_collaboratorIds :: "string list"

record session_facts = facts +
  sf_suspended :: bool
  sf_visibility :: session_visibility
  sf_isPrivate :: bool
  sf_isOwner :: bool
  sf_isCollaborator :: bool
  sf_teamRole :: "team_role option"
  sf_isAdmin :: bool
  sf_isWsOwner :: bool
  sf_breakGlass :: bool

definition role_in :: "user_viewer \<Rightarrow> string option \<Rightarrow> team_role option" where
  "role_in v team = (case team of None \<Rightarrow> None | Some t \<Rightarrow> uv_memberships v t)"

definition sessionFacts :: "user_viewer \<Rightarrow> session_access_row \<Rightarrow> session_facts" where
  "sessionFacts v row =
     (let isOwner = (ar_ownerUserId row = Some (uv_userId v));
          teamRole = role_in v (ar_ownerTeamId row);
          isCollaborator = (uv_userId v \<in> set (ar_collaboratorIds row)
                            \<and> (ar_ownerTeamId row = None \<or> teamRole \<noteq> None));
          isWsOwner = (uv_roleKey v = Some OwnerRole);
          isPrivate = (ar_visibility row = VisPrivate) in
      \<lparr>fc_permissions = uv_permissions v, sf_suspended = uv_suspended v,
       sf_visibility = ar_visibility row, sf_isPrivate = isPrivate, sf_isOwner = isOwner,
       sf_isCollaborator = isCollaborator, sf_teamRole = teamRole,
       sf_isAdmin = isWorkspaceAdmin (uv_roleKey v), sf_isWsOwner = isWsOwner,
       sf_breakGlass = (isPrivate \<and> isWsOwner \<and> \<not> isOwner \<and> \<not> isCollaborator)\<rparr>)"

definition visible :: "session_facts \<Rightarrow> bool" where
  "visible f \<longleftrightarrow> sf_visibility f = VisWorkspace
     \<or> (sf_visibility f = VisTeam \<and> (sf_teamRole f \<noteq> None \<or> sf_isAdmin f))
     \<or> (sf_isPrivate f \<and> (sf_isOwner f \<or> sf_isCollaborator f \<or> sf_isWsOwner f))"

definition readGate :: "session_facts \<Rightarrow> access_decision option" where
  "readGate f =
     (if sf_suspended f then Some (Deny DenySuspended)
      else if \<not> visible f then Some (Deny (if sf_isPrivate f then DenyPrivate else DenyNotMember))
      else if \<not> has f PSessionsRead then Some (Deny DenyMissingPermission)
      else None)"

definition takes_part :: "session_facts \<Rightarrow> bool" where
  "takes_part f \<longleftrightarrow> \<not> sf_isPrivate f \<or> sf_isOwner f \<or> sf_isCollaborator f"

definition privileged :: "session_facts \<Rightarrow> bool" where
  "privileged f \<longleftrightarrow> sf_isOwner f \<or> sf_teamRole f = Some LeadRole \<or> sf_isAdmin f"

definition ownerOrWsOwner :: "session_facts \<Rightarrow> bool" where
  "ownerOrWsOwner f \<longleftrightarrow> sf_isOwner f \<or> sf_isWsOwner f"

text \<open>\<open>SESSION_RULES\<close>; reading has no rule of its own.\<close>

fun session_rule :: "session_action \<Rightarrow> session_facts action_rule option" where
  "session_rule ActRead = None"
| "session_rule ActCollaborate =
     Some (NeedsWhen (Some PSessionsCollaborate) takes_part DenyNotCollaborator)"
| "session_rule ActLifecycle = Some (NeedsPermission PSessionsLifecycle)"
| "session_rule ActSandbox =
     Some (NeedsWhen (Some PSessionsSandboxAccess) takes_part DenyNotCollaborator)"
| "session_rule ActDelete = Some (NeedsWhen (Some PSessionsDelete) privileged DenyNotOwnerOrLead)"
| "session_rule ActManageCollaborators = Some (NeedsWhen None ownerOrWsOwner DenyNotOwnerOrLead)"
| "session_rule ActChangeVisibility =
     Some (NeedsWhen None (\<lambda>f. if sf_isPrivate f then ownerOrWsOwner f else privileged f)
             DenyNotOwnerOrLead)"

definition checkServiceSessionAccess ::
  "string option \<Rightarrow> session_access_row \<Rightarrow> session_action \<Rightarrow> access_decision" where
  "checkServiceSessionAccess team row action =
     (if ar_visibility row = VisPrivate then Deny DenyPrivate
      else if ar_visibility row = VisTeam \<and> team \<noteq> None \<and> team \<noteq> ar_ownerTeamId row
      then Deny DenyNotMember
      else if action = ActRead then Permit None else Deny DenyMissingPermission)"

fun checkSessionAccess ::
  "session_viewer \<Rightarrow> session_access_row \<Rightarrow> session_action \<Rightarrow> access_decision" where
  "checkSessionAccess (ServiceViewer team) row action = checkServiceSessionAccess team row action"
| "checkSessionAccess (UserViewer v) row action =
     (let f = sessionFacts v row in
      case readGate f of
        Some d \<Rightarrow> d
      | None \<Rightarrow>
          (case session_rule action of
             None \<Rightarrow> Permit (if sf_breakGlass f then Some PrivateBreakGlass else None)
           | Some rule \<Rightarrow>
               if ar_ownerTeamId row \<noteq> None \<and> sf_teamRole f = None then Deny DenyNotMember
               else decide_rule rule f))"

record session_capabilities =
  cp_canRead :: bool
  cp_canCollaborate :: bool
  cp_canManageLifecycle :: bool
  cp_canDelete :: bool
  cp_canSandbox :: bool
  cp_canManageCollaborators :: bool
  cp_canChangeVisibility :: bool

definition sessionCapabilities :: "session_viewer \<Rightarrow> session_access_row \<Rightarrow> session_capabilities" where
  "sessionCapabilities v row =
     (let ok = (\<lambda>a. allowed (checkSessionAccess v row a)) in
      \<lparr>cp_canRead = ok ActRead, cp_canCollaborate = ok ActCollaborate,
       cp_canManageLifecycle = ok ActLifecycle, cp_canDelete = ok ActDelete,
       cp_canSandbox = ok ActSandbox, cp_canManageCollaborators = ok ActManageCollaborators,
       cp_canChangeVisibility = ok ActChangeVisibility\<rparr>)"

section \<open>Automations and environments\<close>

record owned_facts = facts +
  of_suspended :: bool
  of_eligible :: bool
  of_teamRole :: "team_role option"
  of_isAdmin :: bool

record automation_facts = owned_facts +
  af_isExecutor :: bool

record environment_facts = owned_facts +
  ef_teamOwned :: bool

definition automationFacts ::
  "user_viewer \<Rightarrow> string option \<Rightarrow> string option \<Rightarrow> automation_facts" where
  "automationFacts v ownerTeamId executorUserId =
     (let teamRole = role_in v ownerTeamId; isAdmin = isWorkspaceAdmin (uv_roleKey v) in
      \<lparr>fc_permissions = uv_permissions v, of_suspended = uv_suspended v,
       of_eligible = (ownerTeamId = None \<or> teamRole \<noteq> None \<or> isAdmin), of_teamRole = teamRole,
       of_isAdmin = isAdmin, af_isExecutor = (executorUserId = Some (uv_userId v))\<rparr>)"

definition ownedGate :: "'z owned_facts_scheme \<Rightarrow> access_decision option" where
  "ownedGate f =
     (if of_suspended f then Some (Deny DenySuspended)
      else if \<not> of_eligible f then Some (Deny DenyNotMember) else None)"

datatype automation_action = AutoRead | AutoManage | AutoTrigger

definition ownsAutomation :: "automation_facts \<Rightarrow> bool" where
  "ownsAutomation f \<longleftrightarrow> af_isExecutor f \<or> of_teamRole f = Some LeadRole"

fun automation_rule :: "automation_action \<Rightarrow> automation_facts action_rule" where
  "automation_rule AutoRead = NeedsPermission PAutomationsRead"
| "automation_rule AutoManage = NeedsScope AutomationsManage ownsAutomation"
| "automation_rule AutoTrigger = NeedsScope AutomationsTrigger ownsAutomation"

fun checkAutomationAccess ::
  "session_viewer \<Rightarrow> string option \<Rightarrow> string option \<Rightarrow> automation_action \<Rightarrow> access_decision" where
  "checkAutomationAccess (ServiceViewer team) ownerTeamId executorUserId action =
     (if \<not> (ownerTeamId = None \<or> team = None \<or> ownerTeamId = team) then Deny DenyNotMember
      else if action = AutoRead then Permit None else Deny DenyMissingPermission)"
| "checkAutomationAccess (UserViewer v) ownerTeamId executorUserId action =
     (let f = automationFacts v ownerTeamId executorUserId in
      nullish (ownedGate f) (decide_rule (automation_rule action) f))"

fun checkAutomationExecutorReassignment ::
  "session_viewer \<Rightarrow> string option \<Rightarrow> string option \<Rightarrow> access_decision" where
  "checkAutomationExecutorReassignment (ServiceViewer team) ownerTeamId executorUserId =
     Deny DenyMissingPermission"
| "checkAutomationExecutorReassignment (UserViewer v) ownerTeamId executorUserId =
     (let f = automationFacts v ownerTeamId executorUserId in
      nullish (ownedGate f)
        (decide_rule (NeedsWhen None (\<lambda>f. of_isAdmin f \<or> of_teamRole f = Some LeadRole)
                        DenyNotOwnerOrLead) f))"

definition environmentFacts :: "user_viewer \<Rightarrow> string option \<Rightarrow> environment_facts" where
  "environmentFacts v ownerTeamId =
     (let teamRole = role_in v ownerTeamId; isAdmin = isWorkspaceAdmin (uv_roleKey v) in
      \<lparr>fc_permissions = uv_permissions v, of_suspended = uv_suspended v,
       of_eligible = (ownerTeamId = None \<or> teamRole \<noteq> None \<or> isAdmin), of_teamRole = teamRole,
       of_isAdmin = isAdmin, ef_teamOwned = (ownerTeamId \<noteq> None)\<rparr>)"

datatype environment_action = EnvRead | EnvManage | EnvUse

fun environment_rule :: "environment_action \<Rightarrow> environment_facts action_rule" where
  "environment_rule EnvRead = NeedsPermission PEnvironmentsRead"
| "environment_rule EnvUse = NeedsPermission PEnvironmentsUse"
| "environment_rule EnvManage =
     NeedsWhen (Some PEnvironmentsManage)
       (\<lambda>f. \<not> ef_teamOwned f \<or> of_teamRole f = Some LeadRole \<or> of_isAdmin f) DenyNotOwnerOrLead"

fun checkEnvironmentAccess ::
  "session_viewer \<Rightarrow> string option \<Rightarrow> environment_action \<Rightarrow> access_decision" where
  "checkEnvironmentAccess (ServiceViewer team) ownerTeamId action =
     (if ownerTeamId \<noteq> None \<and> ownerTeamId \<noteq> team then Deny DenyNotMember
      else if action = EnvRead \<or> action = EnvUse then Permit None else Deny DenyMissingPermission)"
| "checkEnvironmentAccess (UserViewer v) ownerTeamId action =
     (let f = environmentFacts v ownerTeamId in
      nullish (ownedGate f) (decide_rule (environment_rule action) f))"

end
