(* ===== verification/Session_Admission.thy ===== *)
theory Session_Admission
  imports Access_Rules
begin

text \<open>
  Admission to one session: the effective authorization of a user (\<open>authorization/service.ts\<close>),
  the rollout modes (\<open>authorization/teams-enforcement.ts\<close>), the session scope a socket resolves on
  every gated action (\<open>resolveSessionViewer\<close> of \<open>session/components.ts\<close>) and the admission of an
  HTTP request (\<open>authorization/session-admission.ts\<close>, \<open>authorization/slack-post-gate.ts\<close>).
  What the shared database answers is a record of functions; an answer that throws is \<open>Outage\<close>.
\<close>

section \<open>What the shared database answers\<close>

datatype 'a answer = Got 'a | Outage

fun if_got :: "'a answer \<Rightarrow> ('a \<Rightarrow> 'b answer) \<Rightarrow> 'b answer" where
  "if_got (Got a) k = k a"
| "if_got Outage k = Outage"

lemma if_got_iff: "if_got x k = Got b \<longleftrightarrow> (\<exists>a. x = Got a \<and> k a = Got b)"
  by (cases x) auto

record account =
  ac_userId :: string
  ac_suspendedAt :: "ms option"
  ac_role :: "(string \<times> role_key option) option"

record session_entry =
  se_id :: string
  se_userId :: "string option"
  se_ownerTeamId :: "string option"
  se_visibility :: session_visibility

datatype join_policy = JoinOpen | JoinInviteOnly

record team =
  tm_id :: string
  tm_joinPolicy :: join_policy
  tm_archived :: bool

record directory =
  d_account :: "string \<Rightarrow> account option answer"
  d_customPermissions :: "string \<Rightarrow> permission list answer"
  d_session :: "string \<Rightarrow> session_entry option answer"
  d_collaborators :: "string \<Rightarrow> string list answer"
  d_memberships :: "string \<Rightarrow> (string \<rightharpoonup> team_role) answer"
  d_binding :: "string \<Rightarrow> string \<Rightarrow> string option answer"
  d_automation :: "string \<Rightarrow> (string option \<times> string option) option answer"
  d_automationOwner :: "string \<Rightarrow> (string option \<times> string option) answer"
  d_environment :: "string \<Rightarrow> string option option answer"
  d_team :: "string \<Rightarrow> team option answer"
  d_leadCount :: "string \<Rightarrow> nat answer"
  d_members :: "string \<Rightarrow> string list answer"
  d_audited :: bool

section \<open>Effective authorization\<close>

record effective_authorization =
  ea_userId :: string
  ea_suspendedAt :: "ms option"
  ea_roleKey :: "role_key option"
  ea_permissions :: "permission list"

datatype authorization_error = AssignmentRequired

text \<open>A stored custom permission that is not registered has no constructor here; it is dropped
  before this filter.\<close>

definition loadRolePermissions :: "directory \<Rightarrow> string \<Rightarrow> role_key option \<Rightarrow> permission list answer" where
  "loadRolePermissions d roleId roleKey =
     (case roleKey of
        Some k \<Rightarrow> Got (permissionsForBuiltInRole k)
      | None \<Rightarrow> if_got (d_customPermissions d roleId) (\<lambda>ps. Got (filter isCustomRolePermission ps)))"

definition getEffectiveAuthorization ::
  "directory \<Rightarrow> string \<Rightarrow> (authorization_error + effective_authorization) answer" where
  "getEffectiveAuthorization d userId =
     if_got (d_account d userId) (\<lambda>r.
       case r of None \<Rightarrow> Got (Inl AssignmentRequired) | Some a \<Rightarrow>
       (case ac_role a of None \<Rightarrow> Got (Inl AssignmentRequired) | Some (roleId, roleKey) \<Rightarrow>
          if_got (if ac_suspendedAt a = None then loadRolePermissions d roleId roleKey else Got [])
            (\<lambda>ps. Got (Inr \<lparr>ea_userId = ac_userId a, ea_suspendedAt = ac_suspendedAt a,
                              ea_roleKey = roleKey, ea_permissions = ps\<rparr>))))"

section \<open>Rollout\<close>

datatype enforcement_mode = ModeOff | ModeShadow | ModeOn

definition parseTeamsEnforcementMode :: "string option \<Rightarrow> enforcement_mode option" where
  "parseTeamsEnforcementMode v =
     (if v = None \<or> v = Some [] then Some ModeShadow
      else if v = Some ''off'' then Some ModeOff
      else if v = Some ''shadow'' then Some ModeShadow
      else if v = Some ''on'' then Some ModeOn
      else None)"

definition resolverDecides ::
  "enforcement_mode \<Rightarrow> string option \<Rightarrow> session_visibility \<Rightarrow> session_action \<Rightarrow> bool" where
  "resolverDecides mode ownerTeamId visibility action \<longleftrightarrow>
     mode = ModeOn \<or> visibility = VisPrivate \<or> (ownerTeamId \<noteq> None \<and> action \<noteq> ActRead)"

fun legacyPermissionForAction :: "session_action \<Rightarrow> permission" where
  "legacyPermissionForAction ActRead = PSessionsRead"
| "legacyPermissionForAction ActCollaborate = PSessionsCollaborate"
| "legacyPermissionForAction ActDelete = PSessionsDelete"
| "legacyPermissionForAction ActSandbox = PSessionsSandboxAccess"
| "legacyPermissionForAction ActLifecycle = PSessionsLifecycle"
| "legacyPermissionForAction ActChangeVisibility = PSessionsLifecycle"
| "legacyPermissionForAction ActManageCollaborators = PSessionsLifecycle"

fun effectiveSessionCapabilities ::
  "session_viewer \<Rightarrow> session_access_row \<Rightarrow> enforcement_mode \<Rightarrow> session_capabilities" where
  "effectiveSessionCapabilities (ServiceViewer t) row mode = sessionCapabilities (ServiceViewer t) row"
| "effectiveSessionCapabilities (UserViewer v) row mode =
     (let c = sessionCapabilities (UserViewer v) row;
          decides = resolverDecides mode (ar_ownerTeamId row) (ar_visibility row);
          ok = (\<lambda>a resolved. if decides a then resolved
                              else legacyPermissionForAction a \<in> set (uv_permissions v)) in
      if decides ActRead then c
      else c\<lparr>cp_canRead := ok ActRead (cp_canRead c),
             cp_canCollaborate := ok ActCollaborate (cp_canCollaborate c),
             cp_canManageLifecycle := ok ActLifecycle (cp_canManageLifecycle c),
             cp_canDelete := ok ActDelete (cp_canDelete c),
             cp_canSandbox := ok ActSandbox (cp_canSandbox c)\<rparr>)"

section \<open>A socket's session scope\<close>

record viewer_resolution =
  vr_mode :: enforcement_mode
  vr_authorization :: effective_authorization
  vr_viewer :: user_viewer
  vr_row :: session_access_row

datatype resolved_viewer = ViewerValid viewer_resolution | ViewerRejected | ViewerUnavailable

text \<open>The two reads run together; when one finds the user unassigned and the other fails, the
  first to settle decides (\<open>indexFirst\<close>).\<close>

definition resolveSessionViewer ::
  "directory \<Rightarrow> string option \<Rightarrow> string \<Rightarrow> bool \<Rightarrow> string \<Rightarrow> bool \<Rightarrow> resolved_viewer" where
  "resolveSessionViewer d envMode sessionId indexFirst userId includeMemberships =
     (case parseTeamsEnforcementMode envMode of None \<Rightarrow> ViewerUnavailable | Some mode \<Rightarrow>
      (case getEffectiveAuthorization d userId of
         Outage \<Rightarrow> ViewerUnavailable
       | Got (Inl err) \<Rightarrow>
           if indexFirst \<and> d_session d sessionId = Outage then ViewerUnavailable else ViewerRejected
       | Got (Inr auth) \<Rightarrow>
           (case d_session d sessionId of
              Outage \<Rightarrow> ViewerUnavailable
            | Got entry \<Rightarrow>
                if ea_suspendedAt auth \<noteq> None then ViewerRejected else
                (case entry of None \<Rightarrow> ViewerRejected | Some s \<Rightarrow>
                   let decides = resolverDecides mode (se_ownerTeamId s) (se_visibility s) in
                   (case (if decides ActCollaborate \<or> includeMemberships
                          then d_memberships d userId else Got Map.empty,
                          if decides ActRead then d_collaborators d (se_id s) else Got []) of
                      (Got memberships, Got collaborators) \<Rightarrow>
                        ViewerValid
                          \<lparr>vr_mode = mode, vr_authorization = auth,
                           vr_viewer = \<lparr>uv_userId = ea_userId auth, uv_roleKey = ea_roleKey auth,
                             uv_permissions = ea_permissions auth, uv_suspended = False,
                             uv_memberships = memberships\<rparr>,
                           vr_row = \<lparr>ar_id = se_id s, ar_ownerUserId = se_userId s,
                             ar_ownerTeamId = se_ownerTeamId s, ar_visibility = se_visibility s,
                             ar_collaboratorIds = collaborators\<rparr>\<rparr>
                    | _ \<Rightarrow> ViewerUnavailable)))))"

definition decide_socket :: "viewer_resolution \<Rightarrow> session_action \<Rightarrow> access_decision" where
  "decide_socket r action =
     (if resolverDecides (vr_mode r) (ar_ownerTeamId (vr_row r)) (ar_visibility (vr_row r)) action
      then checkSessionAccess (UserViewer (vr_viewer r)) (vr_row r) action
      else if legacyPermissionForAction action \<in> set (ea_permissions (vr_authorization r))
      then Permit None else Deny DenyMissingPermission)"

section \<open>The admission of a request\<close>

datatype service_name = SvcWeb | SvcSlackBot | SvcGithubBot | SvcLinearBot

text \<open>A service may act for an actor, known to the workspace or not yet.\<close>

datatype principal =
    PrUser string
  | PrToken string string "permission list"
  | PrService service_name "string option option"
  | PrSandbox string

datatype slot = SessionSlot | ChildSlot | NoSlot

datatype audit_event = BreakGlassRead "principal option" string "string option"

record request_ctx =
  rq_principal :: "principal option"
  rq_authorization :: "effective_authorization option"
  rq_serviceTeamId :: "string option option"
  rq_slackPost :: bool
  rq_sessionAdmission :: "(session_access_row \<times> session_viewer) option"
  rq_childAdmission :: "(session_access_row \<times> session_viewer) option"
  rq_shadowSessionDenial :: "denial_reason option"
  rq_shadowBatchDenials :: "(string \<times> denial_reason) list"
  rq_audits :: "audit_event list"

definition viewerFromContext ::
  "request_ctx \<Rightarrow> (string \<rightharpoonup> team_role) \<Rightarrow> session_viewer answer" where
  "viewerFromContext c memberships =
     (case rq_authorization c of
        None \<Rightarrow>
          (case rq_principal c of
             Some (PrService svc None) \<Rightarrow>
               Got (ServiceViewer (case rq_serviceTeamId c of None \<Rightarrow> None | Some t \<Rightarrow> t))
           | _ \<Rightarrow> Outage)
      | Some a \<Rightarrow> Got (UserViewer
          \<lparr>uv_userId = ea_userId a, uv_roleKey = ea_roleKey a, uv_permissions = ea_permissions a,
           uv_suspended = (ea_suspendedAt a \<noteq> None), uv_memberships = memberships\<rparr>))"

datatype slack_denial = MissingSession | PrivateSession | ChannelTeamMismatch

definition slackPostGate ::
  "(string option \<times> session_visibility) option \<Rightarrow> string option \<Rightarrow> slack_denial option" where
  "slackPostGate session binding =
     (case session of None \<Rightarrow> Some MissingSession | Some (ownerTeamId, visibility) \<Rightarrow>
        if visibility = VisPrivate then Some PrivateSession
        else if binding \<noteq> ownerTeamId then Some ChannelTeamMismatch else None)"

datatype admission_outcome =
    AdmNotFound | AdmActionDenied denial_reason | AdmAllowed "permission option"

fun fill_slot ::
  "slot \<Rightarrow> session_access_row \<times> session_viewer \<Rightarrow> request_ctx \<Rightarrow> request_ctx" where
  "fill_slot SessionSlot a c = c\<lparr>rq_sessionAdmission := Some a\<rparr>"
| "fill_slot ChildSlot a c = c\<lparr>rq_childAdmission := Some a\<rparr>"
| "fill_slot NoSlot a c = c"

definition access_row :: "session_entry \<Rightarrow> string list \<Rightarrow> session_access_row" where
  "access_row s collaborators =
     \<lparr>ar_id = se_id s, ar_ownerUserId = se_userId s, ar_ownerTeamId = se_ownerTeamId s,
      ar_visibility = se_visibility s, ar_collaboratorIds = collaborators\<rparr>"

definition is_service :: "session_viewer \<Rightarrow> bool" where
  "is_service v = (case v of ServiceViewer _ \<Rightarrow> True | UserViewer _ \<Rightarrow> False)"

definition denied_reason :: "access_decision \<Rightarrow> denial_reason option" where
  "denied_reason d = (case d of Permit _ \<Rightarrow> None | Deny r \<Rightarrow> Some r)"

definition note_shadow :: "slot \<Rightarrow> string \<Rightarrow> denial_reason \<Rightarrow> request_ctx \<Rightarrow> request_ctx" where
  "note_shadow sl sessionId reason c =
     (if sl = NoSlot then c\<lparr>rq_shadowBatchDenials := rq_shadowBatchDenials c @ [(sessionId, reason)]\<rparr>
      else c\<lparr>rq_shadowSessionDenial := or_else (rq_shadowSessionDenial c) (Some reason)\<rparr>)"

text \<open>The decisions over the loaded row and viewer.\<close>

definition admit_viewer ::
  "directory \<Rightarrow> enforcement_mode \<Rightarrow> string \<Rightarrow> session_action \<Rightarrow> slot \<Rightarrow> session_viewer
   \<Rightarrow> session_access_row \<Rightarrow> request_ctx \<Rightarrow> request_ctx \<times> admission_outcome answer" where
  "admit_viewer d mode sessionId action sl viewer row c =
     (let read = checkSessionAccess viewer row ActRead;
          decides = resolverDecides mode (ar_ownerTeamId row) (ar_visibility row) action;
          decision = (if is_service viewer then Permit None else checkSessionAccess viewer row action) in
      if \<not> allowed read \<and> (mode = ModeOn \<or> (ar_visibility row = VisPrivate \<and> read = Deny DenyPrivate))
      then (c, Got AdmNotFound)
      else if read = Permit (Some PrivateBreakGlass) \<and> \<not> d_audited d then (c, Outage)
      else
        let c1 = (if read = Permit (Some PrivateBreakGlass)
                  then c\<lparr>rq_audits := rq_audits c
                           @ [BreakGlassRead (rq_principal c) sessionId (ar_ownerTeamId row)]\<rparr>
                  else c) in
        if decides \<and> denied_reason decision \<noteq> None
        then (c1, Got (AdmActionDenied (the (denied_reason decision))))
        else
          ((case (if mode = ModeShadow then or_else (denied_reason read) (denied_reason decision) else None) of
              None \<Rightarrow> c1 | Some reason \<Rightarrow> note_shadow sl sessionId reason c1),
           Got (AdmAllowed (if decides then None else Some (legacyPermissionForAction action)))))"

definition request_memberships ::
  "directory \<Rightarrow> enforcement_mode \<Rightarrow> session_entry \<Rightarrow> request_ctx \<Rightarrow> (string \<rightharpoonup> team_role) answer" where
  "request_memberships d mode s c =
     (case rq_authorization c of
        None \<Rightarrow> Got Map.empty
      | Some a \<Rightarrow> if mode = ModeOff \<and> se_ownerTeamId s = None then Got Map.empty
                  else d_memberships d (ea_userId a))"

text \<open>The scope of a service's channel that stays closed whatever the mode.\<close>

definition out_of_scope :: "request_ctx \<Rightarrow> session_entry \<Rightarrow> bool" where
  "out_of_scope c s \<longleftrightarrow>
     (let bound = (case rq_serviceTeamId c of Some (Some t) \<Rightarrow> if t = [] then None else Some t
                                           | _ \<Rightarrow> None) in
      (rq_serviceTeamId c = Some None \<and> se_ownerTeamId s \<noteq> None)
      \<or> (rq_slackPost c \<and> slackPostGate (Some (se_ownerTeamId s, se_visibility s)) bound \<noteq> None))"

definition evaluateSessionAdmission ::
  "directory \<Rightarrow> string option \<Rightarrow> string \<Rightarrow> session_action \<Rightarrow> slot \<Rightarrow> bool \<Rightarrow> request_ctx
   \<Rightarrow> request_ctx \<times> admission_outcome answer" where
  "evaluateSessionAdmission d envMode sessionId action sl enforceAlways c =
     (case (if enforceAlways then Some ModeOn else parseTeamsEnforcementMode envMode) of
        None \<Rightarrow> (c, Outage)
      | Some mode \<Rightarrow>
        (case d_session d sessionId of
           Outage \<Rightarrow> (c, Outage)
         | Got None \<Rightarrow> (c, Got AdmNotFound)
         | Got (Some s) \<Rightarrow>
             if out_of_scope c s
             then (case viewerFromContext c Map.empty of
                     Outage \<Rightarrow> (c, Outage)
                   | Got v \<Rightarrow> (fill_slot sl (access_row s [], v) c, Got AdmNotFound))
             else if mode = ModeOff
                     \<and> \<not> resolverDecides mode (se_ownerTeamId s) (se_visibility s) action
             then (c, Got (AdmAllowed (Some (legacyPermissionForAction action))))
             else
               (case request_memberships d mode s c of
                  Outage \<Rightarrow> (c, Outage)
                | Got memberships \<Rightarrow>
                    (case viewerFromContext c memberships of
                       Outage \<Rightarrow> (c, Outage)
                     | Got v \<Rightarrow>
                         (case d_collaborators d sessionId of
                            Outage \<Rightarrow> (c, Outage)
                          | Got collaborators \<Rightarrow>
                              let row = access_row s collaborators in
                              admit_viewer d mode sessionId action sl v row (fill_slot sl (row, v) c))))))"

end
