(* ===== verification/Route_Admission.thy ===== *)
theory Route_Admission
  imports Session_Admission
begin

text \<open>
  The authorization of an HTTP request behind its declared route policy
  (\<open>routing/route-admission.ts\<close>, \<open>routing/team-admission.ts\<close>,
  \<open>authorization/owned-resource-admission.ts\<close>, \<open>authorization/service-permissions.ts\<close>,
  \<open>packages/shared/src/types/team-access.ts\<close>) and the limits of personal access tokens
  (\<open>authorization/personal-access-token-policy.ts\<close>,
  \<open>packages/shared/src/types/personal-access-tokens.ts\<close>). Authentication itself, the enrolment of
  a service's actor and the source-control provider's support for a route are answers the
  functions take.
\<close>

section \<open>Policies\<close>

datatype team_need =
    NeedRead | NeedMember | NeedJoin | NeedLeave | NeedEditMetadata | NeedManageMembers
  | NeedManageRepositories | NeedManageBindings | NeedManageAutomations | NeedManageEnvironments
  | NeedManageSecrets | NeedArchive | NeedRemoveMember string

text \<open>A requirement names the path parameters it reads.\<close>

datatype requirement =
    RqPermission permission
  | RqAutomation string automation_action
  | RqTeam string team_need
  | RqEnvironment string environment_action
  | RqSession string session_action bool

type_synonym actorless_grant = "service_name \<times> (string \<times> string) list"

datatype service_authorization = ServiceDeny | ServiceActor "actorless_grant list"

datatype route_authorization =
    NoAuthorization
  | Authenticated
  | ActiveSelf
  | ActiveGlobal service_authorization
  | ActiveUser "requirement list" service_authorization
  | ServiceOnly "service_name list" bool

datatype route_authentication =
    AuthPublic | AuthHandler | AuthWebService | AuthService | AuthUser | AuthUserOrService
  | AuthSandbox | AuthUserOrServiceOrSandbox

record route_policy =
  po_authentication :: route_authentication
  po_authorization :: route_authorization
  po_acceptsTokens :: bool

type_synonym route_params = "string \<rightharpoonup> string"

section \<open>Personal access tokens\<close>

definition withheld_permissions :: "permission list" where
  "withheld_permissions =
     [PCommitSigningManage, PEnvironmentsImagesManage, PEnvironmentsManage, PEnvironmentsSecretsManage,
      PEnvironmentsSettingsManage, PGlobalSecretsManage, PIntegrationsManage, PMcpServersManage,
      PModelsPreferencesManage, PProviderAccountsManage, PRepositoriesImagesManage,
      PRepositoriesSecretsManage, PRepositoriesSettingsManage, PScmSettingsManage,
      PWorkspaceMembersManage, PWorkspaceMembersMerge, PWorkspacePersonalAccessTokensManage,
      PWorkspaceTransferOwnership]"

definition isPersonalAccessTokenGrantable :: "permission \<Rightarrow> bool" where
  "isPersonalAccessTokenGrantable p \<longleftrightarrow> p \<notin> set withheld_permissions"

definition prerequisitesOf :: "permission \<Rightarrow> permission list" where
  "prerequisitesOf p = (if p = PSkillsManage then [PSkillsRead] else [])"

definition unmetGrantPrerequisite :: "permission list \<Rightarrow> (permission \<times> permission) option" where
  "unmetGrantPrerequisite ps =
     (case find (\<lambda>p. \<exists>q \<in> set (prerequisitesOf p). q \<notin> set ps) ps of
        None \<Rightarrow> None
      | Some p \<Rightarrow> map_option (\<lambda>q. (p, q)) (find (\<lambda>q. q \<notin> set ps) (prerequisitesOf p)))"

text \<open>Dropping one permission can strand another, so the filter repeats until nothing changes.\<close>

definition prerequisites_kept :: "permission list \<Rightarrow> permission list" where
  "prerequisites_kept ps = filter (\<lambda>p. \<forall>q \<in> set (prerequisitesOf p). q \<in> set ps) ps"

lemma prerequisites_kept_le: "length (prerequisites_kept ps) \<le> length ps"
  by (simp add: prerequisites_kept_def)

function withGrantPrerequisitesMet :: "permission list \<Rightarrow> permission list" where
  "withGrantPrerequisitesMet ps =
     (let kept = prerequisites_kept ps in
      if length kept = length ps then kept else withGrantPrerequisitesMet kept)"
  by pat_completeness auto

termination
  by (relation "measure length")
     (use prerequisites_kept_le in \<open>auto simp: order.strict_iff_order\<close>)

declare withGrantPrerequisitesMet.simps [simp del]

definition restrictAuthorizationToGrant ::
  "effective_authorization \<Rightarrow> permission list \<Rightarrow> effective_authorization" where
  "restrictAuthorizationToGrant a grant =
     a\<lparr>ea_permissions := withGrantPrerequisitesMet
         (filter (\<lambda>p. p \<in> set grant \<and> isPersonalAccessTokenGrantable p) (ea_permissions a))\<rparr>"

text \<open>The permissions any one of which satisfies a requirement; nothing when a grant cannot
  narrow it.\<close>

fun session_action_permission :: "session_action \<Rightarrow> permission option" where
  "session_action_permission ActRead = Some PSessionsRead"
| "session_action_permission ActCollaborate = Some PSessionsCollaborate"
| "session_action_permission ActLifecycle = Some PSessionsLifecycle"
| "session_action_permission ActSandbox = Some PSessionsSandboxAccess"
| "session_action_permission ActDelete = Some PSessionsDelete"
| "session_action_permission ActManageCollaborators = None"
| "session_action_permission ActChangeVisibility = None"

fun environment_permission :: "environment_action \<Rightarrow> permission" where
  "environment_permission EnvRead = PEnvironmentsRead"
| "environment_permission EnvManage = PEnvironmentsManage"
| "environment_permission EnvUse = PEnvironmentsUse"

fun requirementNarrowing :: "requirement \<Rightarrow> permission list option" where
  "requirementNarrowing (RqPermission p) = Some [p]"
| "requirementNarrowing (RqSession idParam action always) =
     map_option (\<lambda>p. [p]) (session_action_permission action)"
| "requirementNarrowing (RqAutomation idParam AutoRead) = Some [PAutomationsRead]"
| "requirementNarrowing (RqAutomation idParam AutoManage) =
     Some [PAutomationsManageAny, PAutomationsManageOwn]"
| "requirementNarrowing (RqAutomation idParam AutoTrigger) =
     Some [PAutomationsTriggerAny, PAutomationsTriggerOwn]"
| "requirementNarrowing (RqEnvironment idParam need) = Some [environment_permission need]"
| "requirementNarrowing (RqTeam idParam need) = None"

datatype token_violation =
    NeverVerifiesTokens | NoPermissionToNarrow | NoRequirement | Unsupported requirement
  | Withheld permission

fun narrowing_violation :: "requirement list \<Rightarrow> token_violation option" where
  "narrowing_violation [] = None"
| "narrowing_violation (r # rs) =
     (case requirementNarrowing r of
        None \<Rightarrow> Some (Unsupported r)
      | Some ps \<Rightarrow>
          (case find (\<lambda>p. \<not> isPersonalAccessTokenGrantable p) ps of
             Some p \<Rightarrow> Some (Withheld p)
           | None \<Rightarrow> narrowing_violation rs))"

definition personalAccessTokenRouteViolation :: "route_policy \<Rightarrow> token_violation option" where
  "personalAccessTokenRouteViolation po =
     (if po_authentication po \<notin> {AuthUser, AuthUserOrService, AuthUserOrServiceOrSandbox}
      then Some NeverVerifiesTokens
      else case po_authorization po of
             ActiveUser allOf svc \<Rightarrow>
               if allOf = [] then Some NoRequirement else narrowing_violation allOf
           | _ \<Rightarrow> Some NoPermissionToNarrow)"

section \<open>Services\<close>

fun service_ceiling :: "service_name \<Rightarrow> permission list" where
  "service_ceiling SvcWeb = []"
| "service_ceiling SvcGithubBot =
     [PRepositoriesRead, PRepositoriesUse, PEnvironmentsRead, PEnvironmentsUse, PIntegrationsRead,
      PSessionsCreate, PSessionsRead, PSessionsCollaborate, PSessionsLifecycle, PSkillsRead]"
| "service_ceiling SvcSlackBot =
     [PAutomationsRead, PRepositoriesRead, PRepositoriesUse, PEnvironmentsRead, PEnvironmentsUse,
      PIntegrationsRead, PSessionsCreate, PSessionsRead, PSessionsCollaborate, PSessionsLifecycle,
      PSessionsSandboxAccess, PSkillsRead]"
| "service_ceiling SvcLinearBot =
     [PRepositoriesRead, PRepositoriesUse, PEnvironmentsRead, PEnvironmentsUse, PIntegrationsRead,
      PSessionsCreate, PSessionsRead, PSessionsCollaborate, PSessionsLifecycle, PSkillsRead]"

definition serviceAllowsPermission :: "service_name \<Rightarrow> permission \<Rightarrow> bool" where
  "serviceAllowsPermission svc p \<longleftrightarrow> p \<in> set (service_ceiling svc)"

section \<open>Teams\<close>

record team_capabilities =
  tc_canReadTeamSessions :: bool
  tc_canReadTeamRepositories :: bool
  tc_canReadTeamEnvironments :: bool
  tc_canReadAutomations :: bool
  tc_canJoin :: bool
  tc_canLeave :: bool
  tc_canEditMetadata :: bool
  tc_canManageMembers :: bool
  tc_canManageRepositories :: bool
  tc_canManageBindings :: bool
  tc_canManageAutomations :: bool
  tc_canManageEnvironments :: bool
  tc_canManageSecrets :: bool
  tc_canArchive :: bool

definition resolveTeamAccess :: "user_viewer \<Rightarrow> team \<Rightarrow> nat \<Rightarrow> team_capabilities" where
  "resolveTeamAccess v t leadCount =
     (let role = uv_memberships v (tm_id t);
          manages = (isWorkspaceAdmin (uv_roleKey v) \<or> role = Some LeadRole);
          eligible = (\<not> uv_suspended v \<and> (isWorkspaceAdmin (uv_roleKey v) \<or> role \<noteq> None));
          holds = (\<lambda>p. p \<in> set (uv_permissions v)) in
      \<lparr>tc_canReadTeamSessions = (eligible \<and> holds PSessionsRead),
       tc_canReadTeamRepositories = eligible,
       tc_canReadTeamEnvironments = (eligible \<and> holds PEnvironmentsRead),
       tc_canReadAutomations = (eligible \<and> holds PAutomationsRead),
       tc_canJoin = (role = None \<and> tm_joinPolicy t = JoinOpen \<and> \<not> tm_archived t),
       tc_canLeave = (role \<noteq> None \<and> (role \<noteq> Some LeadRole \<or> 1 < leadCount)),
       tc_canEditMetadata = manages, tc_canManageMembers = manages,
       tc_canManageRepositories = manages, tc_canManageBindings = manages,
       tc_canManageAutomations = manages, tc_canManageEnvironments = manages,
       tc_canManageSecrets = manages, tc_canArchive = manages\<rparr>)"

fun team_capability :: "team_capabilities \<Rightarrow> team_need \<Rightarrow> bool" where
  "team_capability c NeedRead = True"
| "team_capability c NeedMember = True"
| "team_capability c NeedJoin = tc_canJoin c"
| "team_capability c NeedLeave = tc_canLeave c"
| "team_capability c NeedEditMetadata = tc_canEditMetadata c"
| "team_capability c NeedManageMembers = tc_canManageMembers c"
| "team_capability c NeedManageRepositories = tc_canManageRepositories c"
| "team_capability c NeedManageBindings = tc_canManageBindings c"
| "team_capability c NeedManageAutomations = tc_canManageAutomations c"
| "team_capability c NeedManageEnvironments = tc_canManageEnvironments c"
| "team_capability c NeedManageSecrets = tc_canManageSecrets c"
| "team_capability c NeedArchive = tc_canArchive c"
| "team_capability c (NeedRemoveMember p) = tc_canManageMembers c"

section \<open>Enforcing a requirement\<close>

text \<open>What a decision records; a failure is a denial with that record, or an answer without one.\<close>

datatype evidence =
    EvRequirement requirement | EvActiveUser | EvServiceCapability | EvActorlessGrant service_name
  | EvSandboxAdmission string | EvPrincipalType | EvSlackScope

record route_state =
  rs_ctx :: request_ctx
  rs_requirements :: "evidence list"
  rs_permissions :: "permission list"

datatype failure = Denied nat string "evidence list" | Failed_with nat string

definition denial :: "route_state \<Rightarrow> nat \<Rightarrow> string \<Rightarrow> evidence \<Rightarrow> failure option" where
  "denial st status code ev = Some (Denied status code (rs_requirements st @ [ev]))"

definition unavailable :: "failure option" where
  "unavailable = Some (Failed_with 503 ''authorization_unavailable'')"

definition meets :: "evidence \<Rightarrow> route_state \<Rightarrow> route_state" where
  "meets ev st = st\<lparr>rs_requirements := rs_requirements st @ [ev]\<rparr>"

definition uses :: "permission \<Rightarrow> route_state \<Rightarrow> route_state" where
  "uses p st = st\<lparr>rs_permissions := rs_permissions st @ [p]\<rparr>"

fun canonicalUserIdOf :: "principal option \<Rightarrow> string option" where
  "canonicalUserIdOf None = None"
| "canonicalUserIdOf (Some (PrUser u)) = Some u"
| "canonicalUserIdOf (Some (PrToken u i g)) = Some u"
| "canonicalUserIdOf (Some (PrService svc actor)) = (case actor of None \<Rightarrow> None | Some u \<Rightarrow> u)"
| "canonicalUserIdOf (Some (PrSandbox s)) = None"

definition authorizationUserId :: "request_ctx \<Rightarrow> string option" where
  "authorizationUserId c =
     (case rq_principal c of
        Some (PrService svc actor) \<Rightarrow>
          or_else (canonicalUserIdOf (Some (PrService svc actor)))
            (map_option ea_userId (rq_authorization c))
      | p \<Rightarrow> canonicalUserIdOf p)"

definition enforcePermissionRequirement ::
  "evidence \<Rightarrow> permission \<Rightarrow> route_state \<Rightarrow> route_state \<times> failure option" where
  "enforcePermissionRequirement ev p st =
     (let c = rs_ctx st in
      if (case rq_principal c of Some (PrService svc actor) \<Rightarrow> \<not> serviceAllowsPermission svc p | _ \<Rightarrow> False)
      then (st, denial st 403 ''service_capability_required'' ev)
      else if \<not> truthy (authorizationUserId c) then (meets ev st, None)
      else if (case rq_authorization c of None \<Rightarrow> False | Some a \<Rightarrow> p \<in> set (ea_permissions a))
      then (uses p (meets ev st), None)
      else (st, denial st 403 ''permission_required'' ev))"

definition service_withholds :: "request_ctx \<Rightarrow> permission \<Rightarrow> bool" where
  "service_withholds c p \<longleftrightarrow>
     (case rq_principal c of Some (PrService svc actor) \<Rightarrow> \<not> serviceAllowsPermission svc p | _ \<Rightarrow> False)"

definition resourceViewer :: "directory \<Rightarrow> request_ctx \<Rightarrow> session_viewer answer" where
  "resourceViewer d c =
     (case rq_authorization c of
        None \<Rightarrow> viewerFromContext c Map.empty
      | Some a \<Rightarrow> if_got (d_memberships d (ea_userId a)) (viewerFromContext c))"

fun reason_code :: "denial_reason \<Rightarrow> string" where
  "reason_code DenySuspended = ''suspended''"
| "reason_code DenyNotMember = ''not_member''"
| "reason_code DenyPrivate = ''private''"
| "reason_code DenyMissingPermission = ''missing_permission''"
| "reason_code DenyNotOwnerOrLead = ''not_owner_or_lead''"
| "reason_code DenyNotCollaborator = ''not_collaborator''"

text \<open>\<open>!storedAutomation || (read && !read.allowed && read.reason !== "missing_permission")\<close>: a missing
  read permission does not hide the resource.\<close>

definition hides :: "access_decision \<Rightarrow> bool" where
  "hides read \<longleftrightarrow> (case read of Permit a \<Rightarrow> False | Deny r \<Rightarrow> r \<noteq> DenyMissingPermission)"

fun automation_effective :: "automation_action \<Rightarrow> permission list \<Rightarrow> permission option" where
  "automation_effective AutoRead ps = Some PAutomationsRead"
| "automation_effective AutoManage ps =
     map_option (\<lambda>sc. if sc = ScopeAny then PAutomationsManageAny else PAutomationsManageOwn)
       (resolveScopedPermission AutomationsManage ps)"
| "automation_effective AutoTrigger ps =
     map_option (\<lambda>sc. if sc = ScopeAny then PAutomationsTriggerAny else PAutomationsTriggerOwn)
       (resolveScopedPermission AutomationsTrigger ps)"

fun viewer_permissions :: "session_viewer \<Rightarrow> permission list option" where
  "viewer_permissions (UserViewer v) = Some (uv_permissions v)"
| "viewer_permissions (ServiceViewer t) = None"

definition grant_of :: "permission option \<Rightarrow> route_state \<Rightarrow> route_state" where
  "grant_of p st = (case p of None \<Rightarrow> st | Some q \<Rightarrow> uses q st)"

definition evaluateAutomationAdmission ::
  "directory \<Rightarrow> string option \<Rightarrow> automation_action \<Rightarrow> evidence \<Rightarrow> route_state
   \<Rightarrow> route_state \<times> failure option" where
  "evaluateAutomationAdmission d automationId op ev st =
     (let c = rs_ctx st in
      if service_withholds c PAutomationsRead
      then (st, denial st 403 ''service_capability_required'' ev)
      else if \<not> truthy automationId then (st, Some (Failed_with 400 ''Invalid automation route''))
      else
        (case (d_automation d (the automationId), resourceViewer d c) of
           (Got stored, Got viewer) \<Rightarrow>
             (case stored of
                None \<Rightarrow> (st, denial st 404 ''automation_not_visible'' ev)
              | Some (ownerTeamId, executorUserId) \<Rightarrow>
                  if hides (checkAutomationAccess viewer ownerTeamId executorUserId AutoRead)
                  then (st, denial st 404 ''automation_not_visible'' ev)
                  else
                    (case d_automationOwner d (the automationId) of
                       Outage \<Rightarrow> (st, unavailable)
                     | Got (team, executor) \<Rightarrow>
                         (case checkAutomationAccess viewer team executor op of
                            Deny r \<Rightarrow> (st, denial st 403 (reason_code r) ev)
                          | Permit a \<Rightarrow>
                              (grant_of (case viewer_permissions viewer of
                                           None \<Rightarrow> None | Some ps \<Rightarrow> automation_effective op ps)
                                 (meets ev st), None))))
         | _ \<Rightarrow> (st, unavailable)))"

definition evaluateEnvironmentAdmission ::
  "directory \<Rightarrow> string option \<Rightarrow> environment_action \<Rightarrow> evidence \<Rightarrow> route_state
   \<Rightarrow> route_state \<times> failure option" where
  "evaluateEnvironmentAdmission d environmentId need ev st =
     (let c = rs_ctx st in
      if \<not> truthy environmentId then (st, Some (Failed_with 400 ''Invalid environment route''))
      else if service_withholds c (environment_permission need)
      then (st, denial st 403 ''service_capability_required'' ev)
      else
        (case (d_environment d (the environmentId), resourceViewer d c) of
           (Got environment, Got viewer) \<Rightarrow>
             (case environment of
                None \<Rightarrow> (st, denial st 404 ''environment_not_visible'' ev)
              | Some ownerTeamId \<Rightarrow>
                  if hides (checkEnvironmentAccess viewer ownerTeamId EnvRead)
                  then (st, denial st 404 ''environment_not_visible'' ev)
                  else
                    (case checkEnvironmentAccess viewer ownerTeamId need of
                       Deny r \<Rightarrow> (st, denial st 403 (reason_code r) ev)
                     | Permit a \<Rightarrow>
                         (grant_of (if is_service viewer then None else Some (environment_permission need))
                            (meets ev st), None)))
         | _ \<Rightarrow> (st, unavailable)))"

text \<open>Only a browser user passes a team requirement.\<close>

definition team_denial_code :: "team \<Rightarrow> team_need \<Rightarrow> string" where
  "team_denial_code t need =
     (if need = NeedJoin
      then if tm_archived t then ''team_archived''
           else if tm_joinPolicy t = JoinInviteOnly then ''invite_only'' else ''already_member''
      else ''team_capability_required'')"

definition enforceTeamRequirement ::
  "directory \<Rightarrow> route_params \<Rightarrow> string \<Rightarrow> team_need \<Rightarrow> evidence \<Rightarrow> route_state
   \<Rightarrow> route_state \<times> failure option" where
  "enforceTeamRequirement d params idParam need ev st =
     (case rq_principal (rs_ctx st) of
        Some (PrUser userId) \<Rightarrow>
          if \<not> truthy (params idParam) then (st, Some (Failed_with 400 ''Invalid team route''))
          else
          (case d_team d (the (params idParam)) of
             Outage \<Rightarrow> (st, unavailable)
           | Got None \<Rightarrow> (st, denial st 404 ''team_not_visible'' ev)
           | Got (Some t) \<Rightarrow>
               (case if_got (d_memberships d userId) (viewerFromContext (rs_ctx st)) of
                  Got (UserViewer v) \<Rightarrow>
                    let teamId = the (params idParam);
                        isMember = (isWorkspaceAdmin (uv_roleKey v) \<or> uv_memberships v teamId \<noteq> None);
                        removing = (case need of NeedRemoveMember p \<Rightarrow> Some p | _ \<Rightarrow> None) in
                    if \<not> isMember \<and> (need = NeedMember \<or> removing \<noteq> None
                                      \<or> (need = NeedRead \<and> tm_archived t))
                    then (st, denial st 404 ''team_not_visible'' ev)
                    else
                      (case d_leadCount d teamId of
                         Outage \<Rightarrow> (st, unavailable)
                       | Got leads \<Rightarrow>
                           let access = resolveTeamAccess v t leads in
                           (case removing of
                              Some targetParam \<Rightarrow>
                                if \<not> truthy (params targetParam)
                                then (st, Some (Failed_with 400 ''Invalid team member route''))
                                else if params targetParam = Some (uv_userId v) \<or> tc_canManageMembers access
                                then (meets ev st, None)
                                else (case d_members d teamId of
                                        Outage \<Rightarrow> (st, unavailable)
                                      | Got members \<Rightarrow>
                                          if the (params targetParam) \<notin> set members
                                          then (st, Some (Failed_with 404 ''Team membership not found''))
                                          else (st, denial st 403 (team_denial_code t need) ev))
                            | None \<Rightarrow>
                                if \<not> team_capability access need
                                then (st, denial st 403 (team_denial_code t need) ev)
                                else (meets ev st, None)))
                | _ \<Rightarrow> (st, unavailable)))
      | _ \<Rightarrow> (st, denial st 403 ''service_capability_required'' ev))"

text \<open>The request beyond its route: whether it asks for the reading of a Slack post, its \<open>channel\<close>
  query parameters as \<open>parseChannelScope\<close> parses them, and whether it is a \<open>POST\<close> to a session's
  prompts or attachments.\<close>

datatype channel_provider = SlackChannel | LinearChannel

record http_request =
  hr_slackPost :: bool
  hr_channels :: "(channel_provider \<times> string) option list"
  hr_slackWrite :: bool

fun provider_bot :: "channel_provider \<Rightarrow> service_name" where
  "provider_bot SlackChannel = SvcSlackBot"
| "provider_bot LinearChannel = SvcLinearBot"

fun provider_text :: "channel_provider \<Rightarrow> string" where
  "provider_text SlackChannel = ''slack''"
| "provider_text LinearChannel = ''linear''"

text \<open>The channel coordinate of an actorless service: what it binds the request to.\<close>

definition bind_channel ::
  "directory \<Rightarrow> http_request \<Rightarrow> service_name \<Rightarrow> evidence \<Rightarrow> route_state
   \<Rightarrow> route_state \<times> failure option" where
  "bind_channel d r svc ev st =
     (let channels = hr_channels r in
      if hr_slackPost r \<and> (length channels \<noteq> 1 \<or> svc \<noteq> SvcSlackBot)
      then (st, denial st 404 ''session_not_visible'' ev)
      else if channels = [] then (st, None)
      else
        (case (if length channels = 1 then hd channels else None) of
           None \<Rightarrow> (st, denial st 404 ''session_not_visible'' ev)
         | Some (provider, externalId) \<Rightarrow>
             if svc \<noteq> provider_bot provider then (st, denial st 404 ''session_not_visible'' ev)
             else
               (case d_binding d (provider_text provider) externalId of
                  Outage \<Rightarrow> (st, unavailable)
                | Got team \<Rightarrow>
                    (st\<lparr>rs_ctx := (rs_ctx st)\<lparr>rq_serviceTeamId := Some team,
                          rq_slackPost := (hr_slackPost r \<or> rq_slackPost (rs_ctx st))\<rparr>\<rparr>, None))))"

definition enforceSessionRequirement ::
  "directory \<Rightarrow> string option \<Rightarrow> http_request \<Rightarrow> route_params \<Rightarrow> string \<Rightarrow> session_action \<Rightarrow> bool
   \<Rightarrow> evidence \<Rightarrow> route_state \<Rightarrow> route_state \<times> failure option" where
  "enforceSessionRequirement d envMode r params idParam action always ev st =
     (if \<not> truthy (params idParam) then (st, Some (Failed_with 400 ''Invalid session route''))
      else
        (case (case rq_principal (rs_ctx st) of
                 Some (PrService svc None) \<Rightarrow> bind_channel d r svc ev st
               | _ \<Rightarrow> (st, None)) of
           (st1, Some f) \<Rightarrow> (st1, Some f)
         | (st1, None) \<Rightarrow>
             (case evaluateSessionAdmission d envMode (the (params idParam)) action
                     (if idParam = ''childId'' then ChildSlot else SessionSlot) always (rs_ctx st1) of
                (c, answer) \<Rightarrow>
                  let st2 = st1\<lparr>rs_ctx := c\<rparr> in
                  (case answer of
                     Outage \<Rightarrow> (st2, unavailable)
                   | Got AdmNotFound \<Rightarrow> (st2, denial st2 404 ''session_not_visible'' ev)
                   | Got (AdmActionDenied reason) \<Rightarrow> (st2, denial st2 403 (reason_code reason) ev)
                   | Got (AdmAllowed None) \<Rightarrow> (meets ev st2, None)
                   | Got (AdmAllowed (Some p)) \<Rightarrow>
                       (case enforcePermissionRequirement (EvRequirement (RqPermission p)) p st2 of
                          (st3, Some f) \<Rightarrow> (st3, Some f)
                        | (st3, None) \<Rightarrow> (meets ev st3, None))))))"

fun enforceRequirement ::
  "directory \<Rightarrow> string option \<Rightarrow> http_request \<Rightarrow> route_params \<Rightarrow> requirement \<Rightarrow> route_state
   \<Rightarrow> route_state \<times> failure option" where
  "enforceRequirement d envMode r params (RqPermission p) st =
     enforcePermissionRequirement (EvRequirement (RqPermission p)) p st"
| "enforceRequirement d envMode r params (RqAutomation idParam op) st =
     evaluateAutomationAdmission d (params idParam) op (EvRequirement (RqAutomation idParam op)) st"
| "enforceRequirement d envMode r params (RqEnvironment idParam need) st =
     evaluateEnvironmentAdmission d (params idParam) need (EvRequirement (RqEnvironment idParam need)) st"
| "enforceRequirement d envMode r params (RqTeam idParam need) st =
     enforceTeamRequirement d params idParam need (EvRequirement (RqTeam idParam need)) st"
| "enforceRequirement d envMode r params (RqSession idParam action always) st =
     enforceSessionRequirement d envMode r params idParam action always
       (EvRequirement (RqSession idParam action always)) st"

fun enforce_all ::
  "directory \<Rightarrow> string option \<Rightarrow> http_request \<Rightarrow> route_params \<Rightarrow> requirement list \<Rightarrow> route_state
   \<Rightarrow> route_state \<times> failure option" where
  "enforce_all d envMode r params [] st = (st, None)"
| "enforce_all d envMode r params (q # qs) st =
     (case enforceRequirement d envMode r params q st of
        (st1, Some f) \<Rightarrow> (st1, Some f)
      | (st1, None) \<Rightarrow> enforce_all d envMode r params qs st1)"

section \<open>The gates before the requirements\<close>

definition enforceRoutePrincipal :: "route_policy \<Rightarrow> principal \<Rightarrow> route_state \<Rightarrow> failure option" where
  "enforceRoutePrincipal po pr st =
     (case pr of
        PrToken u i g \<Rightarrow>
          if po_acceptsTokens po then None
          else denial st 403 ''personal_access_token_not_accepted'' EvPrincipalType
      | _ \<Rightarrow>
          if po_authentication po = AuthWebService
             \<and> (case pr of PrService svc actor \<Rightarrow> svc \<noteq> SvcWeb | _ \<Rightarrow> True)
          then Some (Failed_with 401 ''Unauthorized'')
          else if po_authentication po = AuthUser \<and> (case pr of PrUser u \<Rightarrow> False | _ \<Rightarrow> True)
          then denial st 403 ''principal_type_required'' EvPrincipalType
          else if po_authentication po = AuthService
                  \<and> (case pr of PrService svc actor \<Rightarrow> False | _ \<Rightarrow> True)
          then denial st 403 ''principal_type_required'' EvPrincipalType
          else None)"

definition actorlessGrantMatches :: "actorless_grant \<Rightarrow> service_name \<Rightarrow> route_params \<Rightarrow> bool" where
  "actorlessGrantMatches g svc params \<longleftrightarrow>
     fst g = svc \<and> (\<forall>(n, expected) \<in> set (snd g). params n = Some expected)"

definition service_grants :: "route_authorization \<Rightarrow> actorless_grant list option" where
  "service_grants a =
     (case a of
        ActiveUser allOf (ServiceActor gs) \<Rightarrow> Some gs
      | ActiveGlobal (ServiceActor gs) \<Rightarrow> Some gs
      | _ \<Rightarrow> None)"

definition enforceServiceRouteAuthorization ::
  "route_policy \<Rightarrow> route_params \<Rightarrow> route_state \<Rightarrow> route_state \<times> failure option" where
  "enforceServiceRouteAuthorization po params st =
     (let capability = denial st 403 ''service_capability_required'' EvServiceCapability;
          actor_required = denial st 403 ''service_actor_required'' EvServiceCapability in
      case (po_authorization po, rq_principal (rs_ctx st)) of
        (ServiceOnly services actorRequired, Some (PrService svc actor)) \<Rightarrow>
          if svc \<notin> set services then (st, capability)
          else if actorRequired \<and> actor = None then (st, actor_required)
          else (meets EvServiceCapability st, None)
      | (ServiceOnly services actorRequired, _) \<Rightarrow> (st, capability)
      | (a, Some (PrService svc actor)) \<Rightarrow>
          if po_authentication po = AuthWebService \<and> svc = SvcWeb then (st, None)
          else
            (case service_grants a of
               None \<Rightarrow> (st, capability)
             | Some gs \<Rightarrow>
                 if actor \<noteq> None then (meets EvServiceCapability st, None)
                 else if \<exists>g \<in> set gs. actorlessGrantMatches g svc params
                 then (meets (EvActorlessGrant svc) st, None)
                 else (st, actor_required))
      | _ \<Rightarrow> (st, None))"

fun static_permission :: "requirement \<Rightarrow> permission option" where
  "static_permission (RqPermission p) = Some p"
| "static_permission (RqSession idParam action always) = Some (legacyPermissionForAction action)"
| "static_permission (RqEnvironment idParam need) = Some (environment_permission need)"
| "static_permission (RqAutomation idParam op) = (if op = AutoRead then Some PAutomationsRead else None)"
| "static_permission (RqTeam idParam need) = None"

definition enforceStaticServicePermissionCeiling ::
  "route_policy \<Rightarrow> route_state \<Rightarrow> failure option" where
  "enforceStaticServicePermissionCeiling po st =
     (case (rq_principal (rs_ctx st), po_authorization po) of
        (Some (PrService svc (Some actor)), ActiveUser allOf svcAuth) \<Rightarrow>
          (case find (\<lambda>q. case static_permission q of None \<Rightarrow> False
                           | Some p \<Rightarrow> \<not> serviceAllowsPermission svc p) allOf of
             None \<Rightarrow> None
           | Some q \<Rightarrow> denial st 403 ''service_capability_required'' (EvRequirement q))
      | _ \<Rightarrow> None)"

definition enforceSlackWriteScope ::
  "directory \<Rightarrow> http_request \<Rightarrow> route_params \<Rightarrow> route_state \<Rightarrow> failure option" where
  "enforceSlackWriteScope d r params st =
     (if (case rq_principal (rs_ctx st) of Some (PrService svc actor) \<Rightarrow> svc = SvcSlackBot | _ \<Rightarrow> False)
         \<and> hr_slackWrite r
      then
        (case (if length (hr_channels r) = 1 then hd (hr_channels r) else None) of
           Some (SlackChannel, externalId) \<Rightarrow>
             (case (d_binding d ''slack'' externalId,
                    case params ''id'' of None \<Rightarrow> Outage | Some i \<Rightarrow> d_session d i) of
                (Got binding, Got session) \<Rightarrow>
                  (case session of
                     None \<Rightarrow> denial st 404 ''slack_channel_scope_denied'' EvSlackScope
                   | Some s \<Rightarrow>
                       if binding \<noteq> se_ownerTeamId s
                       then denial st 403 ''slack_channel_scope_denied'' EvSlackScope else None)
              | _ \<Rightarrow> Some (Failed_with 503 ''slack_channel_scope_denied''))
         | _ \<Rightarrow> denial st 400 ''slack_channel_scope_denied'' EvSlackScope)
      else None)"

definition loadsCanonicalSubject :: "route_authorization \<Rightarrow> bool" where
  "loadsCanonicalSubject a \<longleftrightarrow>
     (case a of ActiveUser _ _ \<Rightarrow> True | ActiveSelf \<Rightarrow> True | ActiveGlobal _ \<Rightarrow> True | _ \<Rightarrow> False)"

text \<open>An unknown actor is enrolled under the workspace's admission policy, or refused.\<close>

type_synonym enrolment = "principal \<Rightarrow> failure + string"

definition finalizeServiceActor :: "enrolment \<Rightarrow> route_state \<Rightarrow> route_state \<times> failure option" where
  "finalizeServiceActor enrol st =
     (case rq_principal (rs_ctx st) of
        Some (PrService svc (Some actor)) \<Rightarrow>
          if truthy actor then (st, None)
          else (case enrol (PrService svc (Some actor)) of
                  Inl f \<Rightarrow> (st, Some f)
                | Inr userId \<Rightarrow>
                    (st\<lparr>rs_ctx := (rs_ctx st)\<lparr>rq_principal := Some (PrService svc (Some (Some userId)))\<rparr>\<rparr>,
                     None))
      | _ \<Rightarrow> (st, None))"

definition enforceActiveUser :: "directory \<Rightarrow> route_state \<Rightarrow> route_state \<times> failure option" where
  "enforceActiveUser d st =
     (let c = rs_ctx st in
      if (case rq_principal c of Some (PrService svc (Some actor)) \<Rightarrow> \<not> truthy actor | _ \<Rightarrow> False)
      then (st, unavailable)
      else if \<not> truthy (canonicalUserIdOf (rq_principal c)) then (st, None)
      else
        (case getEffectiveAuthorization d (the (canonicalUserIdOf (rq_principal c))) of
           Outage \<Rightarrow> (st, unavailable)
         | Got (Inl err) \<Rightarrow> (st, denial st 403 ''assignment_required'' EvActiveUser)
         | Got (Inr a) \<Rightarrow>
             let st1 = st\<lparr>rs_ctx := c\<lparr>rq_authorization :=
                           Some (case rq_principal c of
                                   Some (PrToken u i grant) \<Rightarrow> restrictAuthorizationToGrant a grant
                                 | _ \<Rightarrow> a)\<rparr>\<rparr> in
             if ea_suspendedAt a \<noteq> None then (st1, denial st1 403 ''active_user_required'' EvActiveUser)
             else (meets EvActiveUser st1, None)))"

section \<open>The whole admission\<close>

fun then_do ::
  "route_state \<times> failure option \<Rightarrow> (route_state \<Rightarrow> route_state \<times> failure option)
   \<Rightarrow> route_state \<times> failure option" where
  "then_do (st, Some f) k = (st, Some f)"
| "then_do (st, None) k = k st"

lemma then_do_passes:
  "then_do x k = (st', None) \<longleftrightarrow> (\<exists>st. x = (st, None) \<and> k st = (st', None))"
  by (cases x; cases "snd x") auto

definition gate :: "(route_state \<Rightarrow> failure option) \<Rightarrow> route_state \<Rightarrow> route_state \<times> failure option" where
  "gate check st = (st, check st)"

definition admit_principal_rest ::
  "directory \<Rightarrow> string option \<Rightarrow> enrolment \<Rightarrow> route_policy \<Rightarrow> route_params \<Rightarrow> http_request
   \<Rightarrow> route_state \<Rightarrow> route_state \<times> failure option" where
  "admit_principal_rest d envMode enrol po params r st =
     then_do (enforceServiceRouteAuthorization po params st) (\<lambda>st.
     then_do (gate (enforceStaticServicePermissionCeiling po) st) (\<lambda>st.
     then_do (gate (enforceSlackWriteScope d r params) st) (\<lambda>st.
     then_do (if loadsCanonicalSubject (po_authorization po)
              then then_do (finalizeServiceActor enrol st) (enforceActiveUser d)
              else (st, None)) (\<lambda>st.
     case po_authorization po of
       ActiveUser allOf svc \<Rightarrow> enforce_all d envMode r params allOf st
     | _ \<Rightarrow> (st, None)))))"

definition enforceRouteAuthorization ::
  "directory \<Rightarrow> string option \<Rightarrow> enrolment \<Rightarrow> route_policy \<Rightarrow> route_params \<Rightarrow> http_request
   \<Rightarrow> request_ctx \<Rightarrow> route_state \<times> failure option" where
  "enforceRouteAuthorization d envMode enrol po params r c =
     (let st = \<lparr>rs_ctx = c, rs_requirements = [], rs_permissions = []\<rparr> in
      case rq_principal c of
        None \<Rightarrow>
          (st, if po_authorization po \<noteq> NoAuthorization then Some (Failed_with 401 ''Unauthorized'') else None)
      | Some pr \<Rightarrow>
          then_do (gate (enforceRoutePrincipal po pr) st) (\<lambda>st.
          case pr of
            PrSandbox sessionId \<Rightarrow>
              if po_authentication po = AuthUserOrServiceOrSandbox
              then (meets (EvSandboxAdmission sessionId) st, None)
              else admit_principal_rest d envMode enrol po params r st
          | _ \<Rightarrow> admit_principal_rest d envMode enrol po params r st))"

end
