(* ===== verification/Access_Safety.thy ===== *)
theory Access_Safety
  imports Route_Admission
begin

text \<open>
  What the access rules guarantee: private sessions stay private whatever the rollout mode, a
  personal access token never acts beyond its grant, and a promotion never loses access.
\<close>

section \<open>Decisions on a session\<close>

definition insider :: "user_viewer \<Rightarrow> session_access_row \<Rightarrow> bool" where
  "insider v row \<longleftrightarrow> ar_ownerUserId row = Some (uv_userId v)
     \<or> (uv_userId v \<in> set (ar_collaboratorIds row)
        \<and> (ar_ownerTeamId row = None \<or> role_in v (ar_ownerTeamId row) \<noteq> None))"

lemma facts_simps [simp]:
  "fc_permissions (sessionFacts v row) = uv_permissions v"
  "sf_suspended (sessionFacts v row) = uv_suspended v"
  "sf_visibility (sessionFacts v row) = ar_visibility row"
  "sf_isPrivate (sessionFacts v row) \<longleftrightarrow> ar_visibility row = VisPrivate"
  "sf_isWsOwner (sessionFacts v row) \<longleftrightarrow> uv_roleKey v = Some OwnerRole"
  "sf_isAdmin (sessionFacts v row) = isWorkspaceAdmin (uv_roleKey v)"
  "sf_teamRole (sessionFacts v row) = role_in v (ar_ownerTeamId row)"
  "sf_breakGlass (sessionFacts v row) \<longleftrightarrow>
     ar_visibility row = VisPrivate \<and> uv_roleKey v = Some OwnerRole \<and> \<not> insider v row"
  by (auto simp: sessionFacts_def insider_def Let_def)

lemma insider_facts:
  "sf_isOwner (sessionFacts v row) \<Longrightarrow> insider v row"
  "sf_isCollaborator (sessionFacts v row) \<Longrightarrow> insider v row"
  by (auto simp: sessionFacts_def insider_def Let_def)

lemma read_gate_passes:
  "readGate (sessionFacts v row) = None \<longleftrightarrow>
     \<not> uv_suspended v \<and> visible (sessionFacts v row) \<and> PSessionsRead \<in> set (uv_permissions v)"
  by (simp add: readGate_def has_def)

lemma read_gate_denies: "readGate f = Some d \<Longrightarrow> \<not> allowed d"
  by (auto simp: readGate_def split: if_splits)

lemma allowed_read_gate:
  assumes "allowed (checkSessionAccess (UserViewer v) row action)"
  shows "readGate (sessionFacts v row) = None"
  using assms read_gate_denies by (auto simp: Let_def split: option.splits)

text \<open>An allowed action holds both the read permission and its own.\<close>

lemma allowed_permission:
  assumes "allowed (checkSessionAccess (UserViewer v) row action)"
    and "session_action_permission action = Some p"
  shows "p \<in> set (uv_permissions v)"
proof -
  have gate: "readGate (sessionFacts v row) = None" using allowed_read_gate [OF assms(1)] .
  then have "PSessionsRead \<in> set (uv_permissions v)" by (simp add: read_gate_passes)
  then show ?thesis
    using assms gate by (cases action) (auto simp: has_def Let_def split: if_splits)
qed

lemma private_visible:
  assumes "ar_visibility row = VisPrivate" and "visible (sessionFacts v row)"
  shows "insider v row \<or> uv_roleKey v = Some OwnerRole"
  using assms by (auto simp: visible_def dest: insider_facts)

lemma private_participation:
  assumes "allowed (checkSessionAccess (UserViewer v) row action)"
    and "ar_visibility row = VisPrivate" and "action \<in> {ActCollaborate, ActSandbox}"
  shows "insider v row"
proof -
  have "takes_part (sessionFacts v row)"
    using assms allowed_read_gate [OF assms(1)] by (auto simp: Let_def has_def split: if_splits)
  then show ?thesis using assms(2) by (auto simp: takes_part_def dest: insider_facts)
qed

lemma read_decision:
  assumes "readGate (sessionFacts v row) = None"
  shows "checkSessionAccess (UserViewer v) row ActRead =
    Permit (if ar_visibility row = VisPrivate \<and> uv_roleKey v = Some OwnerRole \<and> \<not> insider v row
            then Some PrivateBreakGlass else None)"
  using assms by simp

section \<open>Personal access tokens\<close>

lemma prerequisites_kept_subset: "set (prerequisites_kept ps) \<subseteq> set ps"
  by (auto simp: prerequisites_kept_def)

lemma withGrantPrerequisitesMet_subset: "set (withGrantPrerequisitesMet ps) \<subseteq> set ps"
proof (induction ps rule: withGrantPrerequisitesMet.induct)
  case (1 ps)
  then show ?case
    using prerequisites_kept_subset [of ps]
    by (subst withGrantPrerequisitesMet.simps) (auto simp: Let_def)
qed

text \<open>The loop's result is closed: every permission that is kept has its prerequisites.\<close>

lemma withGrantPrerequisitesMet_closed:
  "p \<in> set (withGrantPrerequisitesMet ps) \<Longrightarrow> q \<in> set (prerequisitesOf p)
   \<Longrightarrow> q \<in> set (withGrantPrerequisitesMet ps)"
proof (induction ps rule: withGrantPrerequisitesMet.induct)
  case (1 ps)
  show ?case
  proof (cases "length (prerequisites_kept ps) = length ps")
    case True
    then have all: "\<forall>p \<in> set ps. \<forall>q \<in> set (prerequisitesOf p). q \<in> set ps"
      by (metis (no_types, lifting) length_filter_less less_irrefl prerequisites_kept_def)
    then have "prerequisites_kept ps = ps" by (simp add: prerequisites_kept_def)
    then have "withGrantPrerequisitesMet ps = ps" by (subst withGrantPrerequisitesMet.simps) simp
    then show ?thesis using 1(2,3) all by auto
  next
    case False
    then show ?thesis using 1 by (simp add: withGrantPrerequisitesMet.simps [of ps] Let_def)
  qed
qed

lemma restricted_permissions:
  "p \<in> set (ea_permissions (restrictAuthorizationToGrant a grant)) \<Longrightarrow>
     p \<in> set (ea_permissions a) \<and> p \<in> set grant \<and> isPersonalAccessTokenGrantable p"
  using withGrantPrerequisitesMet_subset by (fastforce simp: restrictAuthorizationToGrant_def)

lemma restricted_account [simp]:
  "ea_userId (restrictAuthorizationToGrant a grant) = ea_userId a"
  "ea_roleKey (restrictAuthorizationToGrant a grant) = ea_roleKey a"
  "ea_suspendedAt (restrictAuthorizationToGrant a grant) = ea_suspendedAt a"
  by (simp_all add: restrictAuthorizationToGrant_def)

section \<open>Admission to a session\<close>

lemma viewer_of_user:
  assumes "rq_authorization c = Some a"
  shows "viewerFromContext c ms = Got (UserViewer
    \<lparr>uv_userId = ea_userId a, uv_roleKey = ea_roleKey a, uv_permissions = ea_permissions a,
     uv_suspended = (ea_suspendedAt a \<noteq> None), uv_memberships = ms\<rparr>)"
  using assms by (simp add: viewerFromContext_def)

text \<open>The two ways to an admission: by the rollout's legacy permission, or past the resolver.\<close>

lemma admission_cases:
  assumes "evaluateSessionAdmission d m sid action sl always c = (c', Got (AdmAllowed p))"
    and "d_session d sid = Got (Some s)"
  obtains (legacy) "c' = c" and "\<not> resolverDecides ModeOff (se_ownerTeamId s) (se_visibility s) action"
      and "p = Some (legacyPermissionForAction action)"
  | (resolved) mode ms v cs where "request_memberships d mode s c = Got ms"
      and "d_collaborators d sid = Got cs" and "viewerFromContext c ms = Got v"
      and "admit_viewer d mode sid action sl v (access_row s cs) (fill_slot sl (access_row s cs, v) c)
             = (c', Got (AdmAllowed p))"
proof -
  from assms obtain mode where mode:
      "(if always then Some ModeOn else parseTeamsEnforcementMode m) = Some mode"
    by (auto simp: evaluateSessionAdmission_def split: option.splits)
  then have out: "\<not> out_of_scope c s"
    using assms by (auto simp: evaluateSessionAdmission_def Let_def split: answer.splits)
  show thesis
  proof (cases "mode = ModeOff \<and> \<not> resolverDecides mode (se_ownerTeamId s) (se_visibility s) action")
    case True
    then show thesis using assms mode out legacy by (auto simp: evaluateSessionAdmission_def)
  next
    case False
    have "\<exists>ms cs v. request_memberships d mode s c = Got ms \<and> d_collaborators d sid = Got cs
       \<and> viewerFromContext c ms = Got v
       \<and> admit_viewer d mode sid action sl v (access_row s cs) (fill_slot sl (access_row s cs, v) c)
             = (c', Got (AdmAllowed p))"
      using assms mode out False
      by (simp add: evaluateSessionAdmission_def Let_def split: answer.splits)
    then show thesis using resolved by blast
  qed
qed

lemma fill_slot_ctx [simp]:
  "rq_authorization (fill_slot sl x c) = rq_authorization c"
  "rq_principal (fill_slot sl x c) = rq_principal c"
  "rq_audits (fill_slot sl x c) = rq_audits c"
  by (cases sl; simp)+


lemma admit_viewer_user:
  assumes "admit_viewer d mode sid action sl (UserViewer v) row c = (c', Got (AdmAllowed p))"
    and "resolverDecides mode (ar_ownerTeamId row) (ar_visibility row) action"
  shows "allowed (checkSessionAccess (UserViewer v) row action)" and "p = None"
    and "checkSessionAccess (UserViewer v) row ActRead = Permit (Some PrivateBreakGlass)
      \<Longrightarrow> BreakGlassRead (rq_principal c) sid (ar_ownerTeamId row) \<in> set (rq_audits c')"
proof -
  have split: "denied_reason x = None \<longleftrightarrow> allowed x" for x
    by (cases x) (simp_all add: denied_reason_def)
  show "allowed (checkSessionAccess (UserViewer v) row action)" and "p = None"
    using assms by (auto simp: admit_viewer_def Let_def is_service_def split split: if_splits)
  show "BreakGlassRead (rq_principal c) sid (ar_ownerTeamId row) \<in> set (rq_audits c')"
    if "checkSessionAccess (UserViewer v) row ActRead = Permit (Some PrivateBreakGlass)"
    using assms that
    by (auto simp del: checkSessionAccess.simps
        simp: admit_viewer_def Let_def is_service_def note_shadow_def split: if_splits option.splits)
qed

lemma private_decides: "resolverDecides mode team VisPrivate action"
  by (simp add: resolverDecides_def)

lemma private_allowed:
  assumes "allowed (checkSessionAccess (UserViewer v) row action)" and "ar_visibility row = VisPrivate"
  shows "\<not> uv_suspended v \<and> PSessionsRead \<in> set (uv_permissions v) \<and>
    (insider v row \<or> (uv_roleKey v = Some OwnerRole \<and> action \<notin> {ActCollaborate, ActSandbox}
       \<and> checkSessionAccess (UserViewer v) row ActRead = Permit (Some PrivateBreakGlass)))"
proof -
  have gate: "readGate (sessionFacts v row) = None" using allowed_read_gate [OF assms(1)] .
  then have "\<not> uv_suspended v" "PSessionsRead \<in> set (uv_permissions v)"
      "insider v row \<or> uv_roleKey v = Some OwnerRole"
    using private_visible [OF assms(2)] by (auto simp: read_gate_passes)
  then show ?thesis
    using read_decision [OF gate] private_participation [OF assms] assms(2) by auto
qed

text \<open>
  C7. Private sessions stay private, in every rollout mode. A request that is admitted to a private
  session for a user is from its owner, from one of its collaborators (who, if a team owns the
  session, still belongs to the team), or from the workspace's owner breaking the glass, whose
  read is on record and who still can neither prompt in the session nor open its sandbox. The user
  is not suspended and holds the permission to read sessions.
\<close>

theorem private_sessions_stay_private:
  assumes "evaluateSessionAdmission d envMode sid action sl always c = (c', Got (AdmAllowed p))"
    and "d_session d sid = Got (Some s)" and "se_visibility s = VisPrivate"
    and "rq_authorization c = Some a"
  shows "ea_suspendedAt a = None \<and> PSessionsRead \<in> set (ea_permissions a) \<and>
    (se_userId s = Some (ea_userId a)
     \<or> (\<exists>cs. d_collaborators d sid = Got cs \<and> ea_userId a \<in> set cs
          \<and> (\<forall>t. se_ownerTeamId s = Some t \<longrightarrow>
               (\<exists>ms. d_memberships d (ea_userId a) = Got ms \<and> ms t \<noteq> None)))
     \<or> (ea_roleKey a = Some OwnerRole \<and> action \<notin> {ActCollaborate, ActSandbox}
          \<and> BreakGlassRead (rq_principal c) sid (se_ownerTeamId s) \<in> set (rq_audits c')))"
  using assms(1,2)
proof (cases rule: admission_cases)
  case legacy
  then show ?thesis using assms(3) by (simp add: private_decides)
next
  case (resolved mode ms v cs)
  let ?v = "\<lparr>uv_userId = ea_userId a, uv_roleKey = ea_roleKey a, uv_permissions = ea_permissions a,
     uv_suspended = (ea_suspendedAt a \<noteq> None), uv_memberships = ms\<rparr>"
  let ?row = "access_row s cs"
  have v: "v = UserViewer ?v" using resolved(3) viewer_of_user [OF assms(4)] by simp
  have row: "ar_visibility ?row = VisPrivate" "ar_ownerTeamId ?row = se_ownerTeamId s"
      "ar_ownerUserId ?row = se_userId s" "ar_collaboratorIds ?row = cs"
    using assms(3) by (simp_all add: access_row_def)
  note admitted = admit_viewer_user [OF resolved(4) [unfolded v]]
  have ok: "allowed (checkSessionAccess (UserViewer ?v) ?row action)"
    using admitted(1) row(1) private_decides by simp
  have memberships: "d_memberships d (ea_userId a) = Got ms" if "se_ownerTeamId s = Some t" "ms t \<noteq> None" for t
    using resolved(1) that assms(4) by (simp add: request_memberships_def split: if_splits)
  show ?thesis
    using private_allowed [OF ok row(1)] admitted(3) row private_decides resolved(2) memberships
    by (auto simp del: checkSessionAccess.simps simp: insider_def role_in_def split: option.splits)
qed

section \<open>Requirements\<close>

definition holds_as :: "principal \<Rightarrow> effective_authorization \<Rightarrow> route_state \<Rightarrow> bool" where
  "holds_as pr a st \<longleftrightarrow> rq_principal (rs_ctx st) = Some pr \<and> rq_authorization (rs_ctx st) = Some a"

lemma admission_ctx:
  assumes "evaluateSessionAdmission d m sid action sl always c = (c', x)"
  shows "rq_principal c' = rq_principal c \<and> rq_authorization c' = rq_authorization c"
  using assms
  by (auto simp: evaluateSessionAdmission_def admit_viewer_def note_shadow_def Let_def
      split: if_splits option.splits answer.splits)

lemma admission_permission:
  assumes "evaluateSessionAdmission d m sid action sl always c = (c', Got (AdmAllowed p))"
    and "rq_authorization c = Some a" and "session_action_permission action = Some q"
  shows "p = Some q \<or> q \<in> set (ea_permissions a)"
proof -
  have legacy: "legacyPermissionForAction action = q" using assms(3) by (cases action) auto
  obtain s where "d_session d sid = Got (Some s)"
    using assms(1) by (auto simp: evaluateSessionAdmission_def split: option.splits answer.splits)
  from assms(1) this show ?thesis
  proof (cases rule: admission_cases)
    case legacy
    then show ?thesis using \<open>legacyPermissionForAction action = q\<close> by simp
  next
    case (resolved mode ms v cs)
    let ?v = "\<lparr>uv_userId = ea_userId a, uv_roleKey = ea_roleKey a, uv_permissions = ea_permissions a,
     uv_suspended = (ea_suspendedAt a \<noteq> None), uv_memberships = ms\<rparr>"
    have v: "v = UserViewer ?v" using resolved(3) viewer_of_user [OF assms(2)] by simp
    show ?thesis
    proof (cases "resolverDecides mode (se_ownerTeamId s) (se_visibility s) action")
      case True
      then have "allowed (checkSessionAccess (UserViewer ?v) (access_row s cs) action)"
        using admit_viewer_user(1) [OF resolved(4) [unfolded v]] by (simp add: access_row_def)
      from allowed_permission [OF this assms(3)] show ?thesis by simp
    next
      case False
      then have "p = Some (legacyPermissionForAction action)"
        using resolved(4) by (auto simp: admit_viewer_def access_row_def Let_def split: if_splits)
      then show ?thesis using legacy by simp
    qed
  qed
qed

lemma permission_requirement:
  assumes "enforcePermissionRequirement ev p st = (st', None)" and "holds_as pr a st"
    and "truthy (authorizationUserId (rs_ctx st))"
  shows "p \<in> set (ea_permissions a)" and "rs_ctx st' = rs_ctx st"
  using assms
  by (auto simp: enforcePermissionRequirement_def holds_as_def denial_def uses_def meets_def Let_def
      split: if_splits)

lemma scoped_permission:
  "resolveScopedPermission stem ps = Some sc \<Longrightarrow>
     fst (scoped_pair stem) \<in> set ps \<or> snd (scoped_pair stem) \<in> set ps"
  by (auto simp: resolveScopedPermission_def split: if_splits)

lemma automation_permission:
  assumes "checkAutomationAccess (UserViewer v) team executor op = Permit x"
  shows "\<exists>p \<in> set (the (requirementNarrowing (RqAutomation i op))). p \<in> set (uv_permissions v)"
  using assms
  by (cases op) (auto simp: ownedGate_def automationFacts_def has_def Let_def nullish_def
      dest!: scoped_permission split: if_splits option.splits)

lemma environment_allowed_permission:
  assumes "checkEnvironmentAccess (UserViewer v) team need = Permit x"
  shows "environment_permission need \<in> set (uv_permissions v)"
  using assms
  by (cases need) (auto simp: ownedGate_def environmentFacts_def has_def Let_def nullish_def
      split: if_splits option.splits)

lemma resource_viewer_user:
  assumes "resourceViewer d c = Got v" and "rq_authorization c = Some a"
  obtains u where "v = UserViewer u" and "uv_permissions u = ea_permissions a"
  using assms by (auto simp: resourceViewer_def if_got_iff viewer_of_user)

text \<open>A user or a token that meets a requirement holds one of the permissions that narrow it.\<close>

lemma requirement_narrowed:
  assumes "enforceRequirement d m r params q st = (st', None)" and "holds_as pr a st"
    and "truthy (canonicalUserIdOf (Some pr))" and "\<And>svc actor. pr \<noteq> PrService svc actor"
    and "requirementNarrowing q = Some ps"
  shows "(\<exists>p \<in> set ps. p \<in> set (ea_permissions a)) \<and> holds_as pr a st'"
proof -
  have user: "truthy (authorizationUserId (rs_ctx st))"
    using assms(2,3,4) by (cases pr) (auto simp: holds_as_def authorizationUserId_def)
  have keep: "holds_as pr a y" if "rs_ctx y = rs_ctx st" for y
    using that assms(2) by (simp add: holds_as_def)
  show ?thesis
  proof (cases q)
    case (RqPermission p)
    then show ?thesis
      using assms(1,5) permission_requirement [OF _ assms(2) user] keep by auto
  next
    case (RqTeam i need)
    then show ?thesis using assms(5) by simp
  next
    case (RqSession i action always)
    obtain sp where sp: "session_action_permission action = Some sp" and ps: "ps = [sp]"
      using assms(5) RqSession by auto
    have bind: "(case rq_principal (rs_ctx st) of Some (PrService svc None) \<Rightarrow> bind_channel d r svc ev st
               | _ \<Rightarrow> (st, None)) = (st, None)" for ev
      using assms(2,4) by (auto simp: holds_as_def split: principal.splits)
    from assms(1) RqSession obtain c p where
      adm: "evaluateSessionAdmission d m (the (params i)) action
              (if i = ''childId'' then ChildSlot else SessionSlot) always (rs_ctx st) = (c, Got (AdmAllowed p))"
      and st': "case p of None \<Rightarrow> st' = meets (EvRequirement q) (st\<lparr>rs_ctx := c\<rparr>)
            | Some lp \<Rightarrow> (\<exists>st3. enforcePermissionRequirement (EvRequirement (RqPermission lp)) lp (st\<lparr>rs_ctx := c\<rparr>)
                 = (st3, None) \<and> st' = meets (EvRequirement q) st3)"
      by (auto simp: enforceSessionRequirement_def bind denial_def unavailable_def Let_def
          split: if_splits prod.splits answer.splits admission_outcome.splits option.splits)
    have st2: "holds_as pr a (st\<lparr>rs_ctx := c\<rparr>)"
      using admission_ctx [OF adm] assms(2) by (simp add: holds_as_def)
    have user2: "truthy (authorizationUserId (rs_ctx (st\<lparr>rs_ctx := c\<rparr>)))"
      using st2 assms(3,4) by (cases pr) (auto simp: holds_as_def authorizationUserId_def)
    have a: "rq_authorization (rs_ctx st) = Some a" using assms(2) by (simp add: holds_as_def)
    show ?thesis
      using admission_permission [OF adm a sp] st' ps st2 permission_requirement [OF _ st2 user2]
      by (auto simp: holds_as_def meets_def split: option.splits)
  next
    case (RqAutomation i op)
    from assms(1) RqAutomation obtain v team executor x where v: "resourceViewer d (rs_ctx st) = Got v"
      and ok: "checkAutomationAccess v team executor op = Permit x"
      and st': "rs_ctx st' = rs_ctx st"
      by (auto simp: evaluateAutomationAdmission_def denial_def unavailable_def grant_of_def meets_def
          uses_def Let_def simp del: checkAutomationAccess.simps
          split: if_splits answer.splits option.splits access_decision.splits)
    obtain u where u: "v = UserViewer u" "uv_permissions u = ea_permissions a"
      using resource_viewer_user [OF v] assms(2) by (auto simp: holds_as_def)
    show ?thesis
      using automation_permission [OF ok [unfolded u(1)], of i] u(2) assms(5) RqAutomation keep [OF st']
      by simp
  next
    case (RqEnvironment i need)
    from assms(1) RqEnvironment obtain v team x where v: "resourceViewer d (rs_ctx st) = Got v"
      and ok: "checkEnvironmentAccess v team need = Permit x"
      and st': "rs_ctx st' = rs_ctx st"
      by (auto simp: evaluateEnvironmentAdmission_def denial_def unavailable_def grant_of_def meets_def
          uses_def Let_def simp del: checkEnvironmentAccess.simps
          split: if_splits answer.splits option.splits access_decision.splits)
    obtain u where u: "v = UserViewer u" "uv_permissions u = ea_permissions a"
      using resource_viewer_user [OF v] assms(2) by (auto simp: holds_as_def)
    show ?thesis
      using environment_allowed_permission [OF ok [unfolded u(1)]] u(2) assms(5) RqEnvironment keep [OF st']
      by auto
  qed
qed


lemma requirements_narrowed:
  assumes "enforce_all d m r params qs st = (st', None)" and "holds_as pr a st"
    and "truthy (canonicalUserIdOf (Some pr))" and "\<And>svc actor. pr \<noteq> PrService svc actor"
    and "\<forall>q \<in> set qs. requirementNarrowing q \<noteq> None"
  shows "\<forall>q \<in> set qs. \<exists>p \<in> set (the (requirementNarrowing q)). p \<in> set (ea_permissions a)"
  using assms(1,2,5)
proof (induction qs arbitrary: st)
  case (Cons q qs)
  obtain st1 where q: "enforceRequirement d m r params q st = (st1, None)"
    and qs: "enforce_all d m r params qs st1 = (st', None)"
    using Cons.prems(1) by (auto split: prod.splits option.splits)
  obtain ps where ps: "requirementNarrowing q = Some ps" using Cons.prems(3) by auto
  from requirement_narrowed [OF q Cons.prems(2) assms(3,4) ps] Cons.IH [OF qs] Cons.prems(3) ps
  show ?case by simp
qed simp

lemma no_violation_narrows:
  assumes "narrowing_violation qs = None"
  shows "\<forall>q \<in> set qs. requirementNarrowing q \<noteq> None"
  using assms by (induction qs) (auto split: option.splits)

definition narrowed_to :: "principal \<Rightarrow> effective_authorization \<Rightarrow> effective_authorization" where
  "narrowed_to pr a = (case pr of PrToken u i grant \<Rightarrow> restrictAuthorizationToGrant a grant | _ \<Rightarrow> a)"

lemma active_user:
  assumes "enforceActiveUser d st = (st', None)" and "rq_principal (rs_ctx st) = Some pr"
    and "canonicalUserIdOf (Some pr) = Some u" and "u \<noteq> []" and "\<And>svc actor. pr \<noteq> PrService svc actor"
  shows "\<exists>a. getEffectiveAuthorization d u = Got (Inr a) \<and> ea_suspendedAt a = None
    \<and> holds_as pr (narrowed_to pr a) st'"
proof -
  have nosvc: "\<not> (case Some pr of Some (PrService svc (Some actor)) \<Rightarrow> \<not> truthy actor | _ \<Rightarrow> False)"
    using assms(5) by (cases pr) auto
  have same: "(case Some pr of Some (PrToken u i grant) \<Rightarrow> restrictAuthorizationToGrant x grant | _ \<Rightarrow> x)
      = narrowed_to pr x" for x
    by (cases pr) (simp_all add: narrowed_to_def)
  show ?thesis
    using assms(1) unfolding enforceActiveUser_def Let_def assms(2,3) same
    using nosvc assms(2,4)
    by (auto simp: holds_as_def meets_def denial_def unavailable_def
        split: answer.splits sum.splits if_splits)
qed

lemma admitted_user:
  assumes "enforceRouteAuthorization d m enrol po params r c = (st', None)"
    and "rq_principal c = Some pr" and "canonicalUserIdOf (Some pr) = Some u" and "u \<noteq> []"
    and "\<And>svc actor. pr \<noteq> PrService svc actor" and "po_authorization po = ActiveUser allOf svc"
  obtains a st where "getEffectiveAuthorization d u = Got (Inr a)"
    and "ea_suspendedAt a = None" and "holds_as pr (narrowed_to pr a) st"
    and "enforce_all d m r params allOf st = (st', None)"
    and "enforceRoutePrincipal po pr \<lparr>rs_ctx = c, rs_requirements = [], rs_permissions = []\<rparr> = None"
proof -
  let ?st = "\<lparr>rs_ctx = c, rs_requirements = [], rs_permissions = []\<rparr>"
  have no_sandbox: "(case pr of PrSandbox s \<Rightarrow> f s | _ \<Rightarrow> x) = x" for f and x :: "route_state \<times> failure option"
    using assms(3) by (cases pr) auto
  have "then_do (gate (enforceRoutePrincipal po pr) ?st)
      (admit_principal_rest d m enrol po params r) = (st', None)"
    using assms(1) by (simp add: enforceRouteAuthorization_def assms(2) no_sandbox)
  then have rest: "admit_principal_rest d m enrol po params r ?st = (st', None)"
    and principal: "enforceRoutePrincipal po pr ?st = None"
    by (auto simp: then_do_passes gate_def)
  have service: "enforceServiceRouteAuthorization po params ?st = (?st, None)"
    using assms(2,5,6) by (cases pr) (auto simp: enforceServiceRouteAuthorization_def Let_def)
  have final: "finalizeServiceActor enrol ?st = (?st, None)"
    using assms(2,5) by (cases pr) (auto simp: finalizeServiceActor_def)
  obtain st where active: "enforceActiveUser d ?st = (st, None)"
    and all: "enforce_all d m r params allOf st = (st', None)"
    using rest service final assms(6)
    by (auto simp: admit_principal_rest_def then_do_passes gate_def loadsCanonicalSubject_def)
  show thesis
    using active_user [OF active _ assms(3,4,5)] assms(2) principal all that by auto
qed

text \<open>
  C8. A personal access token never acts beyond its grant. When a route whose policy may accept
  tokens admits one, the policy declares that it does, the token's owner has a role and is not
  suspended, and every requirement of the route is met by a permission that a token may be granted,
  that this token was granted, and that its owner holds now.
\<close>

theorem tokens_act_within_their_grant:
  assumes "personalAccessTokenRouteViolation po = None"
    and "enforceRouteAuthorization d envMode enrol po params r c = (st, None)"
    and "rq_principal c = Some (PrToken u i grant)" and "u \<noteq> []"
    and "po_authorization po = ActiveUser allOf svc" and "q \<in> set allOf"
  shows "po_acceptsTokens po \<and>
    (\<exists>a ps p. getEffectiveAuthorization d u = Got (Inr a) \<and> ea_suspendedAt a = None
       \<and> requirementNarrowing q = Some ps \<and> p \<in> set ps \<and> isPersonalAccessTokenGrantable p
       \<and> p \<in> set grant \<and> p \<in> set (ea_permissions a))"
proof -
  obtain a st1 where a: "getEffectiveAuthorization d u = Got (Inr a)" "ea_suspendedAt a = None"
    and st1: "holds_as (PrToken u i grant) (restrictAuthorizationToGrant a grant) st1"
    and all: "enforce_all d envMode r params allOf st1 = (st, None)"
    and principal: "enforceRoutePrincipal po (PrToken u i grant)
           \<lparr>rs_ctx = c, rs_requirements = [], rs_permissions = []\<rparr> = None"
    using admitted_user [OF assms(2,3) _ assms(4) _ assms(5)] by (auto simp: narrowed_to_def)
  have "narrowing_violation allOf = None"
    using assms(1,5) by (auto simp: personalAccessTokenRouteViolation_def split: if_splits)
  then have narrow: "\<forall>q \<in> set allOf. requirementNarrowing q \<noteq> None" by (rule no_violation_narrows)
  have "po_acceptsTokens po"
    using principal by (auto simp: enforceRoutePrincipal_def denial_def split: if_splits)
  moreover obtain ps p where "requirementNarrowing q = Some ps" "p \<in> set ps"
      "p \<in> set (ea_permissions (restrictAuthorizationToGrant a grant))"
    using requirements_narrowed [OF all st1 _ _ narrow] assms(4,6) narrow by fastforce
  ultimately show ?thesis using a restricted_permissions by blast
qed

section \<open>Sockets\<close>

text \<open>
  C35. The scope of a socket is decided by the same rules. Whatever a socket is allowed to do in a
  session of the index, its user is not suspended; in a private session the user is its owner, a
  collaborator or the workspace's owner, who may neither prompt in it nor open its sandbox; and
  beyond reading, a session a team owns takes an action only from a member of that team who holds
  the action's own permission.
\<close>

theorem sockets_keep_the_scope:
  assumes "resolveSessionViewer d envMode sid indexFirst u inc = ViewerValid r"
    and "allowed (decide_socket r action)"
  shows "\<exists>s. d_session d sid = Got (Some s) \<and> ea_suspendedAt (vr_authorization r) = None
    \<and> (se_visibility s = VisPrivate \<longrightarrow>
         se_userId s = Some (ea_userId (vr_authorization r))
         \<or> (\<exists>cs. d_collaborators d (se_id s) = Got cs \<and> ea_userId (vr_authorization r) \<in> set cs)
         \<or> (ea_roleKey (vr_authorization r) = Some OwnerRole \<and> action \<notin> {ActCollaborate, ActSandbox}))
    \<and> (\<forall>t. se_ownerTeamId s = Some t \<and> action \<noteq> ActRead \<longrightarrow>
         (\<exists>ms. d_memberships d u = Got ms \<and> ms t \<noteq> None)
         \<and> (\<forall>p. session_action_permission action = Some p \<longrightarrow>
              p \<in> set (ea_permissions (vr_authorization r))))"
proof -
  obtain s ms cs where s: "d_session d sid = Got (Some s)"
    and active: "ea_suspendedAt (vr_authorization r) = None"
    and ms: "(if resolverDecides (vr_mode r) (se_ownerTeamId s) (se_visibility s) ActCollaborate \<or> inc
              then d_memberships d u else Got Map.empty) = Got ms"
    and cs: "(if resolverDecides (vr_mode r) (se_ownerTeamId s) (se_visibility s) ActRead
              then d_collaborators d (se_id s) else Got []) = Got cs"
    and v: "vr_viewer r = \<lparr>uv_userId = ea_userId (vr_authorization r),
        uv_roleKey = ea_roleKey (vr_authorization r),
        uv_permissions = ea_permissions (vr_authorization r), uv_suspended = False,
        uv_memberships = ms\<rparr>"
    and row: "vr_row r = access_row s cs"
    using assms(1)
    by (fastforce simp: resolveSessionViewer_def access_row_def Let_def
        split: if_splits option.splits answer.splits sum.splits)
  have secret: "insider (vr_viewer r) (vr_row r) \<or> (uv_roleKey (vr_viewer r) = Some OwnerRole
      \<and> action \<notin> {ActCollaborate, ActSandbox})" if "se_visibility s = VisPrivate"
  proof -
    have "ar_visibility (vr_row r) = VisPrivate" using that row by (simp add: access_row_def)
    moreover from this have "allowed (checkSessionAccess (UserViewer (vr_viewer r)) (vr_row r) action)"
      using assms(2) private_decides by (simp add: decide_socket_def)
    ultimately show ?thesis using private_allowed by blast
  qed
  have team: "ms t \<noteq> None \<and> (\<forall>p. session_action_permission action = Some p \<longrightarrow>
      p \<in> set (ea_permissions (vr_authorization r)))" if t: "se_ownerTeamId s = Some t" "action \<noteq> ActRead" for t
  proof -
    have "allowed (checkSessionAccess (UserViewer (vr_viewer r)) (vr_row r) action)"
      using assms(2) t row by (simp add: decide_socket_def resolverDecides_def access_row_def)
    from allowed_permission [OF this] allowed_read_gate [OF this] this show ?thesis
      using t row v by (cases action) (auto simp: Let_def access_row_def role_in_def split: if_splits)
  qed
  show ?thesis
    using s active secret team ms cs v row
    by (auto simp: insider_def access_row_def resolverDecides_def split: if_splits)
qed

section \<open>Promotions\<close>

fun role_rank :: "role_key \<Rightarrow> nat" where
  "role_rank ViewerRole = 0"
| "role_rank MemberRole = 1"
| "role_rank AdministratorRole = 2"
| "role_rank OwnerRole = 3"

instantiation role_key :: linorder
begin

definition less_eq_role_key :: "role_key \<Rightarrow> role_key \<Rightarrow> bool" where
  "less_eq_role_key a b \<longleftrightarrow> role_rank a \<le> role_rank b"

definition less_role_key :: "role_key \<Rightarrow> role_key \<Rightarrow> bool" where
  "less_role_key a b \<longleftrightarrow> role_rank a < role_rank b"

lemma role_rank_inj: "role_rank a = role_rank b \<longleftrightarrow> a = b"
  by (cases a; cases b) simp_all

instance
  by standard (auto simp: less_eq_role_key_def less_role_key_def role_rank_inj antisym)

end

definition as_role :: "role_key \<Rightarrow> user_viewer \<Rightarrow> user_viewer" where
  "as_role k v = v\<lparr>uv_roleKey := Some k, uv_permissions := permissionsForBuiltInRole k\<rparr>"

lemma role_in_team: "role_in v team = Some x \<Longrightarrow> \<exists>t. team = Some t"
  by (cases team) (auto simp: role_in_def)

lemma role_permissions_mono:
  assumes "a \<le> b"
  shows "set (permissionsForBuiltInRole a) \<subseteq> set (permissionsForBuiltInRole b)"
proof -
  have "set VIEWER_PERMISSIONS \<subseteq> set MEMBER_PERMISSIONS" by (auto simp: MEMBER_PERMISSIONS_def)
  moreover have "PWorkspaceTransferOwnership \<notin> set MEMBER_PERMISSIONS"
    by (simp add: MEMBER_PERMISSIONS_def VIEWER_PERMISSIONS_def)
  ultimately show ?thesis using assms by (cases a; cases b) (auto simp: less_eq_role_key_def)
qed

lemma role_admin_mono: "a \<le> b \<Longrightarrow> isWorkspaceAdmin (Some a) \<Longrightarrow> isWorkspaceAdmin (Some b)"
  by (cases a; cases b) (auto simp: less_eq_role_key_def isWorkspaceAdmin_def)

lemma owner_top: "OwnerRole \<le> b \<Longrightarrow> b = OwnerRole"
  by (cases b) (auto simp: less_eq_role_key_def)

lemma scoped_rule_mono:
  assumes "set (fc_permissions f) \<subseteq> set (fc_permissions g)" and "owns f \<Longrightarrow> owns g"
    and "allowed (decide_rule (NeedsScope stem owns) f)"
  shows "allowed (decide_rule (NeedsScope stem owns) g)"
  using assms by (auto simp: resolveScopedPermission_def split: if_splits)

lemma session_promotion:
  assumes "a \<le> b" and "allowed (checkSessionAccess (UserViewer (as_role a v)) row action)"
  shows "allowed (checkSessionAccess (UserViewer (as_role b v)) row action)"
proof -
  let ?f = "sessionFacts (as_role a v) row" and ?g = "sessionFacts (as_role b v) row"
  have perms: "has ?f p \<Longrightarrow> has ?g p" for p
    using role_permissions_mono [OF assms(1)] by (auto simp: has_def as_role_def)
  have own: "sf_isOwner ?g = sf_isOwner ?f" "sf_isCollaborator ?g = sf_isCollaborator ?f"
      "sf_teamRole ?g = sf_teamRole ?f" "sf_isPrivate ?g = sf_isPrivate ?f"
      "sf_visibility ?g = sf_visibility ?f" "sf_suspended ?g = sf_suspended ?f"
    by (simp_all add: as_role_def sessionFacts_def role_in_def Let_def split: option.split)
  have admin: "sf_isAdmin ?f \<Longrightarrow> sf_isAdmin ?g" "sf_isWsOwner ?f \<Longrightarrow> sf_isWsOwner ?g"
    using role_admin_mono [OF assms(1)] owner_top assms(1) by (auto simp: as_role_def)
  have gate: "readGate ?f = None" using allowed_read_gate [OF assms(2)] .
  then have "readGate ?g = None"
    using perms [of PSessionsRead] own admin
    by (auto simp: readGate_def visible_def split: if_splits)
  then show ?thesis
    using assms(2) gate own admin perms
    by (cases action) (auto simp: Let_def takes_part_def privileged_def ownerOrWsOwner_def
        dest: role_in_team split: if_splits)
qed


lemma owned_promotion:
  assumes "a \<le> b" and "ownedGate f = None" and "of_suspended g = of_suspended f"
    and "of_eligible f \<Longrightarrow> of_eligible g"
  shows "ownedGate g = None"
  using assms by (auto simp: ownedGate_def split: if_splits)

lemma automation_promotion:
  assumes "a \<le> b" and "allowed (checkAutomationAccess (UserViewer (as_role a v)) team executor op)"
  shows "allowed (checkAutomationAccess (UserViewer (as_role b v)) team executor op)"
proof -
  let ?f = "automationFacts (as_role a v) team executor" and ?g = "automationFacts (as_role b v) team executor"
  have perms: "set (fc_permissions ?f) \<subseteq> set (fc_permissions ?g)"
    using role_permissions_mono [OF assms(1)] by (simp add: automationFacts_def as_role_def Let_def)
  have same: "of_teamRole ?g = of_teamRole ?f" "af_isExecutor ?g = af_isExecutor ?f"
      "of_suspended ?g = of_suspended ?f" "of_eligible ?f \<Longrightarrow> of_eligible ?g"
    using role_admin_mono [OF assms(1)]
    by (auto simp: automationFacts_def as_role_def role_in_def Let_def split: option.splits)
  have gate: "ownedGate ?f = None"
    using assms(2) by (auto simp: Let_def nullish_def ownedGate_def split: if_splits option.splits)
  have "allowed (decide_rule (automation_rule op) ?f)" using assms(2) gate by (simp add: Let_def)
  then have "allowed (decide_rule (automation_rule op) ?g)"
    using perms same(1,2) scoped_rule_mono [OF perms, of ownsAutomation]
    by (cases op) (auto simp: has_def ownsAutomation_def simp del: decide_rule.simps(3) split: if_splits)
  then show ?thesis using owned_promotion [OF assms(1) gate same(3,4)] by (simp add: Let_def)
qed

lemma environment_promotion:
  assumes "a \<le> b" and "allowed (checkEnvironmentAccess (UserViewer (as_role a v)) team need)"
  shows "allowed (checkEnvironmentAccess (UserViewer (as_role b v)) team need)"
proof -
  let ?f = "environmentFacts (as_role a v) team" and ?g = "environmentFacts (as_role b v) team"
  have perms: "set (fc_permissions ?f) \<subseteq> set (fc_permissions ?g)"
    using role_permissions_mono [OF assms(1)] by (simp add: environmentFacts_def as_role_def Let_def)
  have same: "of_teamRole ?g = of_teamRole ?f" "ef_teamOwned ?g = ef_teamOwned ?f"
      "of_suspended ?g = of_suspended ?f" "of_eligible ?f \<Longrightarrow> of_eligible ?g"
      "of_isAdmin ?f \<Longrightarrow> of_isAdmin ?g"
    using role_admin_mono [OF assms(1)]
    by (auto simp: environmentFacts_def as_role_def role_in_def Let_def split: option.splits)
  have gate: "ownedGate ?f = None"
    using assms(2) by (auto simp: Let_def nullish_def ownedGate_def split: if_splits option.splits)
  have "allowed (decide_rule (environment_rule need) ?f)" using assms(2) gate by (simp add: Let_def)
  then have "allowed (decide_rule (environment_rule need) ?g)"
    using perms same(1,2,5) by (cases need) (auto simp: has_def split: if_splits)
  then show ?thesis using owned_promotion [OF assms(1) gate same(3,4)] by (simp add: Let_def)
qed

text \<open>
  A promotion never loses access. The built-in roles are ordered, from viewer to owner; what a
  person may do with a session, an automation or an environment in one role they may do in every
  higher one, all else equal.
\<close>

theorem promotion_loses_no_access:
  fixes a b :: role_key
  assumes "a \<le> b"
  shows "(allowed (checkSessionAccess (UserViewer (as_role a v)) row action) \<longrightarrow>
           allowed (checkSessionAccess (UserViewer (as_role b v)) row action))
    \<and> (allowed (checkAutomationAccess (UserViewer (as_role a v)) team executor op) \<longrightarrow>
           allowed (checkAutomationAccess (UserViewer (as_role b v)) team executor op))
    \<and> (allowed (checkEnvironmentAccess (UserViewer (as_role a v)) team need) \<longrightarrow>
           allowed (checkEnvironmentAccess (UserViewer (as_role b v)) team need))"
  using session_promotion [OF assms] automation_promotion [OF assms] environment_promotion [OF assms]
  by blast

section \<open>Examples\<close>

text \<open>A private session of Ann's that a team owns, with Bob of that team as a collaborator; Ann and Bob
  are members of the workspace.\<close>

definition demo_directory :: directory where
  "demo_directory =
     \<lparr>d_account = (\<lambda>u. Got (if u \<in> {''ann'', ''bob''}
        then Some \<lparr>ac_userId = u, ac_suspendedAt = None, ac_role = Some (''role_builtin_member'', Some MemberRole)\<rparr>
        else None)),
      d_customPermissions = (\<lambda>r. Got []),
      d_session = (\<lambda>i. Got (if i = ''s1''
        then Some \<lparr>se_id = ''s1'', se_userId = Some ''ann'', se_ownerTeamId = Some ''t1'', se_visibility = VisPrivate\<rparr>
        else None)),
      d_collaborators = (\<lambda>i. Got [''bob'']),
      d_memberships = (\<lambda>u. Got [''t1'' \<mapsto> TeamMemberRole]),
      d_binding = (\<lambda>p e. Got None), d_automation = (\<lambda>i. Got None),
      d_automationOwner = (\<lambda>i. Got (None, None)), d_environment = (\<lambda>i. Got None),
      d_team = (\<lambda>i. Got None), d_leadCount = (\<lambda>i. Got 0), d_members = (\<lambda>i. Got []), d_audited = True\<rparr>"

definition demo_ctx :: "principal \<Rightarrow> effective_authorization option \<Rightarrow> request_ctx" where
  "demo_ctx pr a =
     \<lparr>rq_principal = Some pr, rq_authorization = a, rq_serviceTeamId = None, rq_slackPost = False,
      rq_sessionAdmission = None, rq_childAdmission = None, rq_shadowSessionDenial = None,
      rq_shadowBatchDenials = [], rq_audits = []\<rparr>"

definition demo_member_account :: "string \<Rightarrow> effective_authorization" where
  "demo_member_account u = \<lparr>ea_userId = u, ea_suspendedAt = None, ea_roleKey = Some MemberRole,
     ea_permissions = permissionsForBuiltInRole MemberRole\<rparr>"

lemma member_permissions [simp]:
  "PSessionsRead \<in> set (permissionsForBuiltInRole MemberRole)"
  "PSessionsCollaborate \<in> set (permissionsForBuiltInRole MemberRole)"
  "PSkillsRead \<in> set (permissionsForBuiltInRole MemberRole)"
  by (simp_all add: MEMBER_PERMISSIONS_def VIEWER_PERMISSIONS_def PERMISSION_IDS_def)

declare permissionsForBuiltInRole.simps [simp del]

lemma demo_admission:
  "\<exists>c'. evaluateSessionAdmission demo_directory (Some ''off'') ''s1'' ActCollaborate SessionSlot False
     (demo_ctx (PrUser ''bob'') (Some (demo_member_account ''bob''))) = (c', Got (AdmAllowed None))"
  by (simp add: evaluateSessionAdmission_def demo_directory_def demo_ctx_def demo_member_account_def
      parseTeamsEnforcementMode_def out_of_scope_def resolverDecides_def request_memberships_def
      viewer_of_user admit_viewer_def access_row_def sessionFacts_def role_in_def readGate_def
      visible_def has_def takes_part_def is_service_def denied_reason_def)

theorem private_sessions_stay_private_witness:
  "\<exists>c' cs. evaluateSessionAdmission demo_directory (Some ''off'') ''s1'' ActCollaborate SessionSlot False
       (demo_ctx (PrUser ''bob'') (Some (demo_member_account ''bob''))) = (c', Got (AdmAllowed None))
     \<and> d_collaborators demo_directory ''s1'' = Got cs \<and> ''bob'' \<in> set cs
     \<and> d_memberships demo_directory ''bob'' = Got [''t1'' \<mapsto> TeamMemberRole]"
proof -
  obtain c' where c': "evaluateSessionAdmission demo_directory (Some ''off'') ''s1'' ActCollaborate SessionSlot False
     (demo_ctx (PrUser ''bob'') (Some (demo_member_account ''bob''))) = (c', Got (AdmAllowed None))"
    using demo_admission by blast
  from private_sessions_stay_private [OF c', where s = "\<lparr>se_id = ''s1'', se_userId = Some ''ann'',
      se_ownerTeamId = Some ''t1'', se_visibility = VisPrivate\<rparr>" and a = "demo_member_account ''bob''"]
  have "\<exists>cs. d_collaborators demo_directory ''s1'' = Got cs \<and> ''bob'' \<in> set cs"
    by (auto simp: demo_directory_def demo_ctx_def demo_member_account_def)
  then show ?thesis using c' by (auto simp: demo_directory_def)
qed

definition demo_policy :: route_policy where
  "demo_policy = \<lparr>po_authentication = AuthUser,
     po_authorization = ActiveUser [RqPermission PSkillsRead, RqSession ''id'' ActCollaborate False] ServiceDeny,
     po_acceptsTokens = True\<rparr>"

definition demo_grant :: "permission list" where
  "demo_grant = [PSessionsRead, PSessionsCollaborate, PSkillsRead]"

definition demo_http_request :: http_request where
  "demo_http_request = \<lparr>hr_slackPost = False, hr_channels = [], hr_slackWrite = False\<rparr>"

lemma demo_narrowed:
  "{PSessionsRead, PSessionsCollaborate, PSkillsRead}
     \<subseteq> set (ea_permissions (restrictAuthorizationToGrant (demo_member_account ''bob'') demo_grant))"
proof -
  let ?ps = "filter (\<lambda>p. p \<in> set demo_grant \<and> isPersonalAccessTokenGrantable p)
    (permissionsForBuiltInRole MemberRole)"
  have "prerequisites_kept ?ps = ?ps"
    by (auto simp: prerequisites_kept_def prerequisitesOf_def demo_grant_def intro!: filter_cong)
  then have "withGrantPrerequisitesMet ?ps = ?ps" by (subst withGrantPrerequisitesMet.simps) simp
  then show ?thesis
    by (simp add: restrictAuthorizationToGrant_def demo_member_account_def demo_grant_def
        isPersonalAccessTokenGrantable_def withheld_permissions_def)
qed

lemma demo_account:
  "getEffectiveAuthorization demo_directory ''bob'' = Got (Inr (demo_member_account ''bob''))"
  by (simp add: getEffectiveAuthorization_def demo_directory_def demo_member_account_def loadRolePermissions_def)


lemma demo_directory_answers [simp]:
  "d_session demo_directory ''s1'' = Got (Some \<lparr>se_id = ''s1'', se_userId = Some ''ann'',
     se_ownerTeamId = Some ''t1'', se_visibility = VisPrivate\<rparr>)"
  "d_collaborators demo_directory i = Got [''bob'']"
  "d_memberships demo_directory u = Got [''t1'' \<mapsto> TeamMemberRole]"
  by (simp_all add: demo_directory_def)

lemma demo_token_admitted:
  "\<exists>st. enforceRouteAuthorization demo_directory (Some ''off'') enrol demo_policy [''id'' \<mapsto> ''s1''] demo_http_request
     (demo_ctx (PrToken ''bob'' ''pat'' demo_grant) None) = (st, None)"
proof -
  let ?a = "restrictAuthorizationToGrant (demo_member_account ''bob'') demo_grant"
  have "PSessionsRead \<in> set (ea_permissions ?a)" "PSessionsCollaborate \<in> set (ea_permissions ?a)"
      "PSkillsRead \<in> set (ea_permissions ?a)"
    using demo_narrowed by auto
  moreover have "ea_userId ?a = ''bob''" "ea_roleKey ?a = Some MemberRole" "ea_suspendedAt ?a = None"
      "ea_suspendedAt (demo_member_account ''bob'') = None"
    by (simp_all add: demo_member_account_def)
  ultimately show ?thesis
    by (simp add: enforceRouteAuthorization_def admit_principal_rest_def gate_def enforceRoutePrincipal_def
        demo_policy_def demo_ctx_def demo_http_request_def enforceServiceRouteAuthorization_def service_grants_def
        enforceStaticServicePermissionCeiling_def enforceSlackWriteScope_def loadsCanonicalSubject_def
        finalizeServiceActor_def enforceActiveUser_def demo_account meets_def uses_def
        enforcePermissionRequirement_def authorizationUserId_def enforceSessionRequirement_def Let_def
        evaluateSessionAdmission_def parseTeamsEnforcementMode_def out_of_scope_def resolverDecides_def
        request_memberships_def viewer_of_user admit_viewer_def access_row_def sessionFacts_def role_in_def
        readGate_def visible_def has_def takes_part_def is_service_def denied_reason_def)
qed


theorem tokens_act_within_their_grant_witness:
  "PSessionsCollaborate \<in> set demo_grant \<and> PSessionsCollaborate \<in> set (ea_permissions (demo_member_account ''bob''))"
proof -
  obtain st where st: "enforceRouteAuthorization demo_directory (Some ''off'') (\<lambda>p. Inr []) demo_policy
      [''id'' \<mapsto> ''s1''] demo_http_request (demo_ctx (PrToken ''bob'' ''pat'' demo_grant) None) = (st, None)"
    using demo_token_admitted by blast
  have "personalAccessTokenRouteViolation demo_policy = None"
    by (simp add: personalAccessTokenRouteViolation_def demo_policy_def isPersonalAccessTokenGrantable_def
        withheld_permissions_def)
  from tokens_act_within_their_grant [OF this st, where u = "''bob''" and i = "''pat''" and grant = demo_grant
      and q = "RqSession ''id'' ActCollaborate False"]
  show ?thesis by (simp add: demo_ctx_def demo_policy_def demo_account)
qed

definition demo_resolution :: viewer_resolution where
  "demo_resolution = \<lparr>vr_mode = ModeOff, vr_authorization = demo_member_account ''bob'',
     vr_viewer = \<lparr>uv_userId = ''bob'', uv_roleKey = Some MemberRole,
       uv_permissions = permissionsForBuiltInRole MemberRole, uv_suspended = False,
       uv_memberships = [''t1'' \<mapsto> TeamMemberRole]\<rparr>,
     vr_row = \<lparr>ar_id = ''s1'', ar_ownerUserId = Some ''ann'', ar_ownerTeamId = Some ''t1'',
       ar_visibility = VisPrivate, ar_collaboratorIds = [''bob'']\<rparr>\<rparr>"

theorem sockets_keep_the_scope_witness:
  "allowed (decide_socket demo_resolution ActCollaborate)
   \<and> PSessionsCollaborate \<in> set (ea_permissions (vr_authorization demo_resolution))"
proof -
  have r: "resolveSessionViewer demo_directory (Some ''off'') ''s1'' False ''bob'' False = ViewerValid demo_resolution"
    by (simp add: resolveSessionViewer_def parseTeamsEnforcementMode_def demo_account resolverDecides_def
        demo_resolution_def demo_member_account_def)
  have ok: "allowed (decide_socket demo_resolution ActCollaborate)"
    by (simp add: demo_resolution_def decide_socket_def resolverDecides_def sessionFacts_def role_in_def
        readGate_def visible_def has_def takes_part_def)
  from sockets_keep_the_scope [OF r ok] ok show ?thesis by auto
qed

theorem promotion_loses_no_access_witness:
  "\<not> allowed (checkSessionAccess (UserViewer (as_role ViewerRole (vr_viewer demo_resolution)))
       (vr_row demo_resolution) ActCollaborate)
   \<and> allowed (checkSessionAccess (UserViewer (as_role AdministratorRole (vr_viewer demo_resolution)))
       (vr_row demo_resolution) ActCollaborate)"
proof -
  have "MemberRole \<le> AdministratorRole" by (simp add: less_eq_role_key_def)
  moreover have "allowed (checkSessionAccess (UserViewer (as_role MemberRole (vr_viewer demo_resolution)))
       (vr_row demo_resolution) ActCollaborate)"
    by (simp add: demo_resolution_def as_role_def sessionFacts_def role_in_def readGate_def visible_def has_def
        takes_part_def)
  moreover have "PSessionsCollaborate \<notin> set (permissionsForBuiltInRole ViewerRole)"
    by (simp add: permissionsForBuiltInRole.simps VIEWER_PERMISSIONS_def)
  then have "\<not> allowed (checkSessionAccess (UserViewer (as_role ViewerRole (vr_viewer demo_resolution)))
       (vr_row demo_resolution) ActCollaborate)"
    using allowed_permission [of "as_role ViewerRole (vr_viewer demo_resolution)"] by (auto simp: as_role_def)
  ultimately show ?thesis using promotion_loses_no_access by blast
qed

end
