(* ===== verification/Participants.thy ===== *)
theory Participants
  imports Session_Types Text_Codec
begin

text \<open>
  The participants of one session (\<open>session/participant-repository.ts\<close>,
  \<open>session/participant-service.ts\<close>, \<open>session/participant-name.ts\<close>): who has joined, under which
  account, and the hash of the token that authenticates their sockets. A participant's stored
  provider tokens are columns nothing here writes, so they are left out.
\<close>

datatype participant_role = OwnerParticipant | MemberParticipant

record participant_row =
  pt_id :: string
  pt_user_id :: string
  pt_canonical_user_id :: "string option"
  pt_scm_user_id :: "string option"
  pt_scm_login :: "string option"
  pt_scm_email :: "string option"
  pt_scm_name :: "string option"
  pt_role :: participant_role
  pt_ws_auth_token :: "string option"
  pt_ws_token_created_at :: "ms option"
  pt_joined_at :: ms

type_synonym participant_table = "participant_row list"

section \<open>The repository\<close>

definition getParticipantByUserId :: "string \<Rightarrow> participant_table \<Rightarrow> participant_row option" where
  "getParticipantByUserId u t = find (\<lambda>p. pt_user_id p = u) t"

definition getParticipantByWsTokenHash :: "string \<Rightarrow> participant_table \<Rightarrow> participant_row option" where
  "getParticipantByWsTokenHash h t = find (\<lambda>p. pt_ws_auth_token p = Some h) t"

definition getParticipantById :: "string \<Rightarrow> participant_table \<Rightarrow> participant_row option" where
  "getParticipantById i t = find (\<lambda>p. pt_id p = i) t"

record participant_identity =
  pi_canonicalUserId :: "string option"
  pi_scmUserId :: "string option"
  pi_scmLogin :: "string option"
  pi_scmName :: "string option"
  pi_scmEmail :: "string option"

definition createParticipant ::
  "string \<Rightarrow> string \<Rightarrow> participant_identity \<Rightarrow> participant_role \<Rightarrow> ms \<Rightarrow> participant_table
   \<Rightarrow> participant_table option" where
  "createParticipant i userId d role joinedAt t =
     (if getParticipantById i t \<noteq> None then None
      else Some (t @ [\<lparr>pt_id = i, pt_user_id = userId, pt_canonical_user_id = pi_canonicalUserId d,
             pt_scm_user_id = pi_scmUserId d, pt_scm_login = pi_scmLogin d,
             pt_scm_email = pi_scmEmail d, pt_scm_name = pi_scmName d, pt_role = role,
             pt_ws_auth_token = None, pt_ws_token_created_at = None, pt_joined_at = joinedAt\<rparr>]))"

definition updateParticipantCoalesce ::
  "string \<Rightarrow> participant_identity \<Rightarrow> participant_table \<Rightarrow> participant_table" where
  "updateParticipantCoalesce i d =
     sql_update (\<lambda>p. pt_id p = i) (\<lambda>p. p\<lparr>
       pt_canonical_user_id := or_else (pi_canonicalUserId d) (pt_canonical_user_id p),
       pt_scm_user_id := or_else (pi_scmUserId d) (pt_scm_user_id p),
       pt_scm_login := or_else (pi_scmLogin d) (pt_scm_login p),
       pt_scm_name := or_else (pi_scmName d) (pt_scm_name p),
       pt_scm_email := or_else (pi_scmEmail d) (pt_scm_email p)\<rparr>)"

definition updateParticipantIdentity ::
  "string \<Rightarrow> participant_identity \<Rightarrow> participant_table \<Rightarrow> participant_table" where
  "updateParticipantIdentity i d =
     sql_update (\<lambda>p. pt_id p = i) (\<lambda>p. p\<lparr>
       pt_canonical_user_id := pi_canonicalUserId d, pt_scm_user_id := pi_scmUserId d,
       pt_scm_login := pi_scmLogin d, pt_scm_name := pi_scmName d, pt_scm_email := pi_scmEmail d\<rparr>)"

definition updateParticipantWsToken ::
  "string \<Rightarrow> string \<Rightarrow> ms \<Rightarrow> participant_table \<Rightarrow> participant_table" where
  "updateParticipantWsToken i tokenHash createdAt =
     sql_update (\<lambda>p. pt_id p = i)
       (\<lambda>p. p\<lparr>pt_ws_auth_token := Some tokenHash, pt_ws_token_created_at := Some createdAt\<rparr>)"

definition listParticipants :: "participant_table \<Rightarrow> participant_row list" where
  "listParticipants t = sort_key pt_joined_at t"

section \<open>The service\<close>

definition resolveParticipantName :: "string option \<Rightarrow> string option \<Rightarrow> string \<Rightarrow> string" where
  "resolveParticipantName scmName scmLogin userId =
     (if truthy scmName then the scmName else if truthy scmLogin then the scmLogin else userId)"

definition getAvatarUrl :: "string option \<Rightarrow> bool \<Rightarrow> string option \<Rightarrow> string option" where
  "getAvatarUrl login github userId =
     (if \<not> github then None
      else if truthy userId
      then Some (''https://avatars.githubusercontent.com/u/'' @ encodeURIComponent (the userId) @ ''?v=4'')
      else if truthy login then Some (''https://github.com/'' @ the login @ ''.png'') else None)"

datatype pull_request_author = PromptingUser | TheApp

definition pullRequestAuthorFor :: "message_source \<Rightarrow> pull_request_author" where
  "pullRequestAuthorFor s = (if s = SrcAutomation then TheApp else PromptingUser)"

text \<open>Who opens the pull request of the prompt being processed: its author, under the author's own
  token or the app's, or a refusal with its status.\<close>

datatype pull_request_credential = AuthorToken participant_row | AppToken participant_row | Refused nat

definition getPromptingParticipantForPR ::
  "(string \<times> message_source) option \<Rightarrow> participant_table \<Rightarrow> pull_request_credential" where
  "getPromptingParticipantForPR processing t =
     (case processing of
        None \<Rightarrow> Refused 400
      | Some (author, source) \<Rightarrow>
          (case getParticipantById author t of
             None \<Rightarrow> Refused 401
           | Some p \<Rightarrow> if pullRequestAuthorFor source = TheApp then AppToken p else AuthorToken p))"

text \<open>Resolving the author's token: nothing to resolve, the token, none, the account's refusal, or a
  failure.\<close>

datatype token_answer = TokenFor string | NoToken | TokenUnavailable | TokenFailed

datatype resolved_auth = OauthToken string | FallBackToApp | AuthError nat

definition resolveAuthForPR ::
  "bool \<Rightarrow> (string \<Rightarrow> string option \<Rightarrow> token_answer) \<Rightarrow> participant_row \<Rightarrow> resolved_auth" where
  "resolveAuthForPR configured tokens p =
     (if configured \<and> truthy (pt_canonical_user_id p)
      then (case tokens (the (pt_canonical_user_id p)) (pt_scm_user_id p) of
              TokenFor tok \<Rightarrow> if tok \<noteq> [] then OauthToken tok else FallBackToApp
            | NoToken \<Rightarrow> FallBackToApp
            | TokenUnavailable \<Rightarrow> FallBackToApp
            | TokenFailed \<Rightarrow> AuthError 500)
      else FallBackToApp)"

section \<open>Socket tokens\<close>

text \<open>A token request (\<open>session/http/handlers/ws-token.handler.ts\<close>) finds or creates the participant,
  awaits the hash of a fresh token and stores it with the time of the request.\<close>

definition ws_token_requested ::
  "string \<Rightarrow> string \<Rightarrow> participant_identity \<Rightarrow> bool \<Rightarrow> ms \<Rightarrow> participant_table
   \<Rightarrow> (participant_table \<times> string) option" where
  "ws_token_requested newId userId identity replaceScmIdentity now t =
     (if userId = [] then None
      else case getParticipantByUserId userId t of
        Some p \<Rightarrow>
          Some (if replaceScmIdentity then updateParticipantIdentity (pt_id p) identity t
                else updateParticipantCoalesce (pt_id p) identity t, pt_id p)
      | None \<Rightarrow>
          map_option (\<lambda>t'. (t', newId)) (createParticipant newId userId identity MemberParticipant now t))"

end
