(* ===== verification/Session_Sockets.thy ===== *)
theory Session_Sockets
  imports Participants Sandbox_Row Alarm_Scheduler Execution_Stop
begin

text \<open>
  The session's socket registry (\<open>session/websocket-manager.ts\<close>) over the host's sockets, the rows
  of \<open>ws_client_mapping\<close> (\<open>session/ws-client-mapping-repository.ts\<close>) and the sandbox row. A socket
  is named by the identity of its object. Closing a socket may fail: the environment says which
  calls take effect. The maps and the cached bridge are fields of the instance, lost when it is
  evicted; the sockets and their tags may survive it.
\<close>

section \<open>State\<close>

text \<open>A socket that has closed keeps its tags for the events still to come but is no longer listed.\<close>

record host_socket =
  hs_id :: string
  hs_tags :: "string list"
  hs_open :: bool
  hs_listed :: bool

datatype presence = PresenceActive | PresenceIdle | PresenceAway

record client_info =
  ci_participantId :: string
  ci_userId :: string
  ci_name :: string
  ci_avatar :: "string option"
  ci_status :: presence
  ci_lastSeen :: ms
  ci_clientId :: string
  ci_authorizationExpiresAt :: ms
  ci_lastFetchHistoryAtMs :: "ms option"

record ws_mapping =
  wm_wsId :: string
  wm_participantId :: string
  wm_clientId :: string
  wm_createdAt :: ms
  wm_authorizationExpiresAt :: ms

record socket_world =
  sw_sockets :: "host_socket list"
  sw_sandboxWs :: "string option"
  sw_clients :: "(string \<times> client_info) list"
  sw_synchronizing :: "string list"
  sw_mappings :: "ws_mapping list"
  sw_sandbox :: sandbox_table
  sw_participants :: participant_table
  sw_alarm :: alarm_table

text \<open>The clock, the closes that take effect and the sends that do.\<close>

record socket_env =
  sv_now :: ms
  sv_closes :: "string \<Rightarrow> bool"
  sv_sends :: "string \<Rightarrow> bool"

section \<open>The host\<close>

definition socket :: "string \<Rightarrow> socket_world \<Rightarrow> host_socket option" where
  "socket i w = find (\<lambda>s. hs_id s = i) (sw_sockets w)"

definition tags_of :: "string \<Rightarrow> socket_world \<Rightarrow> string list" where
  "tags_of i w = (case socket i w of None \<Rightarrow> [] | Some s \<Rightarrow> hs_tags s)"

definition isSocketOpen :: "string \<Rightarrow> socket_world \<Rightarrow> bool" where
  "isSocketOpen i w = some_holds hs_open (socket i w)"

definition listed :: "socket_world \<Rightarrow> host_socket list" where
  "listed w = filter hs_listed (sw_sockets w)"

definition adopt :: "string \<Rightarrow> string list \<Rightarrow> socket_world \<Rightarrow> socket_world" where
  "adopt i tags w =
     w\<lparr>sw_sockets := sw_sockets w @ [\<lparr>hs_id = i, hs_tags = tags, hs_open = True, hs_listed = True\<rparr>]\<rparr>"

definition close_socket :: "socket_env \<Rightarrow> string \<Rightarrow> socket_world \<Rightarrow> socket_world" where
  "close_socket e i w =
     w\<lparr>sw_sockets := sql_update (\<lambda>s. hs_id s = i \<and> sv_closes e i) (\<lambda>s. s\<lparr>hs_open := False\<rparr>) (sw_sockets w)\<rparr>"

definition send_socket :: "socket_env \<Rightarrow> string \<Rightarrow> socket_world \<Rightarrow> bool" where
  "send_socket e i w \<longleftrightarrow> isSocketOpen i w \<and> sv_sends e i"

section \<open>Mappings\<close>

definition upsertWsClientMapping :: "ws_mapping \<Rightarrow> ws_mapping list \<Rightarrow> ws_mapping list" where
  "upsertWsClientMapping m t =
     (if find (\<lambda>x. wm_wsId x = wm_wsId m) t = None then t @ [m]
      else sql_update (\<lambda>x. wm_wsId x = wm_wsId m) (\<lambda>x. m) t)"

text \<open>The row joined with its participant.\<close>

definition getWsClientMapping :: "string \<Rightarrow> socket_world \<Rightarrow> (ws_mapping \<times> participant_row) option" where
  "getWsClientMapping wsId w =
     (case find (\<lambda>m. wm_wsId m = wsId) (sw_mappings w) of
        None \<Rightarrow> None
      | Some m \<Rightarrow> map_option (Pair m) (getParticipantById (wm_participantId m) (sw_participants w)))"

definition hasWsClientMapping :: "string \<Rightarrow> socket_world \<Rightarrow> bool" where
  "hasWsClientMapping wsId w \<longleftrightarrow> find (\<lambda>m. wm_wsId m = wsId) (sw_mappings w) \<noteq> None"

definition deleteWsClientMapping :: "string \<Rightarrow> ws_mapping list \<Rightarrow> ws_mapping list" where
  "deleteWsClientMapping wsId = sql_delete (\<lambda>m. wm_wsId m = wsId)"

definition deleteExpiredMappings :: "ms \<Rightarrow> ws_mapping list \<Rightarrow> ws_mapping list" where
  "deleteExpiredMappings now = sql_delete (\<lambda>m. wm_authorizationExpiresAt m \<le> now)"

text \<open>\<open>SELECT MIN(...)\<close>, \<open>NULL\<close> over an empty table.\<close>

definition getNextAuthorizationExpiry :: "ws_mapping list \<Rightarrow> ms option" where
  "getNextAuthorizationExpiry t =
     foldr (\<lambda>m d. Some (min_bound (wm_authorizationExpiresAt m) d)) t None"

section \<open>Classification\<close>

datatype connection = SandboxConnection "string option" "string option" | ClientConnection "string option"

definition tag_value :: "string \<Rightarrow> string list \<Rightarrow> string option" where
  "tag_value p tags = map_option (drop (length p)) (find (\<lambda>t. take (length p) t = p) tags)"

definition classify_tags :: "string list \<Rightarrow> connection" where
  "classify_tags tags =
     (if ''sandbox'' \<in> set tags
      then SandboxConnection (tag_value ''sid:'' tags) (tag_value ''socket:'' tags)
      else ClientConnection (tag_value ''wsid:'' tags))"

definition classify :: "string \<Rightarrow> socket_world \<Rightarrow> connection" where
  "classify i w = classify_tags (tags_of i w)"

definition is_sandbox :: "connection \<Rightarrow> bool" where
  "is_sandbox c = (case c of SandboxConnection _ _ \<Rightarrow> True | ClientConnection _ \<Rightarrow> False)"

definition client_ws_id :: "connection \<Rightarrow> string option" where
  "client_ws_id c = (case c of SandboxConnection _ _ \<Rightarrow> None | ClientConnection i \<Rightarrow> if truthy i then i else None)"

section \<open>The bridge\<close>

text \<open>\<open>active_socket_id\<close> is three-valued: an id names exactly that socket, the empty text none, and
  \<open>NULL\<close> an untagged socket of the row's sandbox from before the ids.\<close>

definition isAuthoritative :: "connection \<Rightarrow> sandbox_row option \<Rightarrow> bool" where
  "isAuthoritative c row =
     (case (c, row) of
        (SandboxConnection sandboxId socketId, Some r) \<Rightarrow>
          if truthy (sb_modal_sandbox_id r) \<and> sandboxId \<noteq> sb_modal_sandbox_id r then False
          else if sb_active_socket_id r = None then socketId = None
          else socketId \<noteq> None \<and> socketId = sb_active_socket_id r
      | _ \<Rightarrow> False)"

definition isActiveSandboxSocket :: "string \<Rightarrow> socket_world \<Rightarrow> bool" where
  "isActiveSandboxSocket i w = isAuthoritative (classify i w) (getSandbox (sw_sandbox w))"

definition acceptClientSocket :: "string \<Rightarrow> string \<Rightarrow> socket_world \<Rightarrow> socket_world" where
  "acceptClientSocket i wsId = adopt i [''wsid:'' @ wsId]"

definition sandbox_tags :: "string option \<Rightarrow> string \<Rightarrow> string list" where
  "sandbox_tags sandboxId socketId =
     [''sandbox''] @ (if truthy sandboxId then [''sid:'' @ the sandboxId] else []) @ [''socket:'' @ socketId]"

fun close_each :: "socket_env \<Rightarrow> string list \<Rightarrow> socket_world \<Rightarrow> socket_world" where
  "close_each e [] w = w"
| "close_each e (i # is) w = close_each e is (close_socket e i w)"

text \<open>\<open>socketId\<close> is the fresh identity; \<open>replaced\<close> whether some close took effect.\<close>

definition acceptAndSetSandboxSocket ::
  "socket_env \<Rightarrow> string \<Rightarrow> string \<Rightarrow> string option \<Rightarrow> socket_world \<Rightarrow> socket_world \<times> bool" where
  "acceptAndSetSandboxSocket e socketId i sandboxId w =
     (let w1 = adopt i (sandbox_tags sandboxId socketId) w;
          w2 = w1\<lparr>sw_sandbox := setActiveSocketId socketId (sw_sandbox w1)\<rparr>;
          existing = map hs_id (filter (\<lambda>s. ''sandbox'' \<in> set (hs_tags s)) (listed w2))
                     @ (case sw_sandboxWs w2 of None \<Rightarrow> [] | Some p \<Rightarrow> [p]);
          others = filter (\<lambda>j. j \<noteq> i \<and> isSocketOpen j w2) existing;
          w3 = close_each e others w2 in
      (w3\<lparr>sw_sandboxWs := Some i\<rparr>, \<exists>j \<in> set others. sv_closes e j))"

text \<open>Recovery: the first listed open socket that the row names; a socket of another sandbox is
  closed on the way.\<close>

fun recover_bridge ::
  "socket_env \<Rightarrow> sandbox_row option \<Rightarrow> host_socket list \<Rightarrow> socket_world \<Rightarrow> socket_world \<times> string option" where
  "recover_bridge e row [] w = (w, None)"
| "recover_bridge e row (s # ss) w =
     (case classify_tags (hs_tags s) of
        ClientConnection wsId \<Rightarrow> recover_bridge e row ss w
      | SandboxConnection sandboxId socketId \<Rightarrow>
          if \<not> isSocketOpen (hs_id s) w then recover_bridge e row ss w
          else if some_holds (\<lambda>r. truthy (sb_modal_sandbox_id r) \<and> sandboxId \<noteq> sb_modal_sandbox_id r) row
          then recover_bridge e row ss (close_socket e (hs_id s) w)
          else if \<not> isAuthoritative (SandboxConnection sandboxId socketId) row
          then recover_bridge e row ss w
          else (w\<lparr>sw_sandboxWs := Some (hs_id s)\<rparr>, Some (hs_id s)))"

definition listed_bridges :: "socket_world \<Rightarrow> string list" where
  "listed_bridges w = map hs_id (filter (\<lambda>s. is_sandbox (classify_tags (hs_tags s))) (listed w))"

definition getSandboxSocketForRow ::
  "socket_env \<Rightarrow> sandbox_row option \<Rightarrow> socket_world \<Rightarrow> socket_world \<times> string option" where
  "getSandboxSocketForRow e row w =
     (if some_holds (\<lambda>r. isDeadSandboxStatus (sb_status r)) row
      then (close_each e (listed_bridges w) (w\<lparr>sw_sandboxWs := None\<rparr>), None)
      else
        (case sw_sandboxWs w of
           None \<Rightarrow> recover_bridge e row (listed w) w
         | Some p \<Rightarrow>
             if \<not> isSocketOpen p w then recover_bridge e row (listed w) w
             else if isAuthoritative (classify p w) row then (w, Some p)
             else let w1 = (close_socket e p w)\<lparr>sw_sandboxWs := None\<rparr> in
                  recover_bridge e row (listed w1) w1))"

definition getSandboxSocket :: "socket_env \<Rightarrow> socket_world \<Rightarrow> socket_world \<times> string option" where
  "getSandboxSocket e w = getSandboxSocketForRow e (getSandbox (sw_sandbox w)) w"

definition getSandboxCommandTarget :: "socket_env \<Rightarrow> socket_world \<Rightarrow> socket_world \<times> command_target" where
  "getSandboxCommandTarget e w =
     (case getSandboxSocketForRow e (getSandbox (sw_sandbox w)) w of
        (w1, answer) \<Rightarrow>
          (w1, case (answer, getSandbox (sw_sandbox w)) of
                 (Some i, Some r) \<Rightarrow>
                   (case evaluateSandboxCommandAvailability (sb_status r) of
                      Dispatch \<Rightarrow> TargetDispatch i
                    | Booting \<Rightarrow> TargetBooting
                    | Unavailable \<Rightarrow> TargetUnavailable)
               | _ \<Rightarrow> TargetUnavailable))"

definition clearSandboxSocket :: "socket_world \<Rightarrow> socket_world" where
  "clearSandboxSocket w = w\<lparr>sw_sandboxWs := None\<rparr>"

definition detachSandboxSocket :: "socket_env \<Rightarrow> socket_world \<Rightarrow> socket_world" where
  "detachSandboxSocket e w =
     (let sockets = (case sw_sandboxWs w of None \<Rightarrow> [] | Some p \<Rightarrow> [p]) @ listed_bridges w in
      close_each e sockets
        (w\<lparr>sw_sandbox := revokeActiveSocketId (sw_sandbox w), sw_sandboxWs := None\<rparr>))"

definition clearSandboxSocketIfMatch :: "string \<Rightarrow> socket_world \<Rightarrow> socket_world \<times> bool" where
  "clearSandboxSocketIfMatch i w =
     (let active = isActiveSandboxSocket i w in
      (if active \<or> sw_sandboxWs w = Some i then w\<lparr>sw_sandboxWs := None\<rparr> else w, active))"

section \<open>The client registry\<close>

definition client :: "string \<Rightarrow> socket_world \<Rightarrow> client_info option" where
  "client i w = map_option snd (find (\<lambda>c. fst c = i) (sw_clients w))"

text \<open>\<open>Map.set\<close> keeps the place of a key it already has.\<close>

definition setClient :: "string \<Rightarrow> client_info \<Rightarrow> socket_world \<Rightarrow> socket_world" where
  "setClient i info w =
     w\<lparr>sw_clients := (if client i w = None then sw_clients w @ [(i, info)]
                      else sql_update (\<lambda>c. fst c = i) (\<lambda>c. (i, info)) (sw_clients w))\<rparr>"

definition setClientSynchronizing :: "string \<Rightarrow> bool \<Rightarrow> socket_world \<Rightarrow> socket_world" where
  "setClientSynchronizing i synchronizing w =
     w\<lparr>sw_synchronizing := (if synchronizing then List.insert i (sw_synchronizing w)
                           else removeAll i (sw_synchronizing w))\<rparr>"

definition isClientSynchronizing :: "string \<Rightarrow> socket_world \<Rightarrow> bool" where
  "isClientSynchronizing i w \<longleftrightarrow> i \<in> set (sw_synchronizing w)"

definition hasPersistedMapping :: "string \<Rightarrow> socket_world \<Rightarrow> bool" where
  "hasPersistedMapping = hasWsClientMapping"

definition teardownClient :: "string \<Rightarrow> connection \<Rightarrow> socket_world \<Rightarrow> socket_world \<times> client_info option" where
  "teardownClient i parsed w =
     (w\<lparr>sw_clients := sql_delete (\<lambda>c. fst c = i) (sw_clients w),
        sw_synchronizing := removeAll i (sw_synchronizing w),
        sw_mappings := (case client_ws_id parsed of None \<Rightarrow> sw_mappings w
                        | Some wsId \<Rightarrow> deleteWsClientMapping wsId (sw_mappings w))\<rparr>,
      client i w)"

definition removeClient :: "string \<Rightarrow> socket_world \<Rightarrow> socket_world \<times> client_info option" where
  "removeClient i w = teardownClient i (classify i w) w"

definition rejectExpiredAuthorization :: "socket_env \<Rightarrow> string \<Rightarrow> connection \<Rightarrow> socket_world \<Rightarrow> socket_world" where
  "rejectExpiredAuthorization e i parsed w = close_socket e i (fst (teardownClient i parsed w))"

section \<open>Leases\<close>

definition mapping_expiry :: "connection \<Rightarrow> socket_world \<Rightarrow> ms option" where
  "mapping_expiry parsed w =
     (case client_ws_id parsed of None \<Rightarrow> None
      | Some wsId \<Rightarrow> map_option (\<lambda>(m, p). wm_authorizationExpiresAt m) (getWsClientMapping wsId w))"

definition authorizationExpiry :: "string \<Rightarrow> connection \<Rightarrow> socket_world \<Rightarrow> ms option" where
  "authorizationExpiry i parsed w =
     (case client i w of Some c \<Rightarrow> Some (ci_authorizationExpiresAt c) | None \<Rightarrow> mapping_expiry parsed w)"

datatype client_lookup =
    LookupCached client_info
  | LookupRecovered ws_mapping participant_row
  | LookupRejected
  | LookupMissing

definition lookupClient :: "socket_env \<Rightarrow> string \<Rightarrow> socket_world \<Rightarrow> socket_world \<times> client_lookup" where
  "lookupClient e i w =
     (case client i w of
        Some c \<Rightarrow>
          if ci_authorizationExpiresAt c \<le> sv_now e
          then (rejectExpiredAuthorization e i (classify i w) w, LookupRejected)
          else (w, LookupCached c)
      | None \<Rightarrow>
          (case client_ws_id (classify i w) of
             None \<Rightarrow> (w, LookupMissing)
           | Some wsId \<Rightarrow>
               (case getWsClientMapping wsId w of
                  None \<Rightarrow> (w, LookupMissing)
                | Some (m, p) \<Rightarrow>
                    if wm_authorizationExpiresAt m \<le> sv_now e
                    then (rejectExpiredAuthorization e i (classify i w) w, LookupRejected)
                    else (w, LookupRecovered m p))))"

definition isAuthenticated :: "socket_env \<Rightarrow> string \<Rightarrow> connection \<Rightarrow> socket_world \<Rightarrow> socket_world \<times> bool" where
  "isAuthenticated e i parsed w =
     (case authorizationExpiry i parsed w of
        None \<Rightarrow> (w, False)
      | Some t \<Rightarrow> if sv_now e < t then (w, True) else (rejectExpiredAuthorization e i parsed w, False))"

definition isClientAuthenticated :: "socket_env \<Rightarrow> string \<Rightarrow> socket_world \<Rightarrow> socket_world \<times> bool" where
  "isClientAuthenticated e i w = isAuthenticated e i (classify i w) w"

text \<open>What \<open>AlarmScheduler.schedule\<close> leaves in the table of deadlines.\<close>

definition schedule_deadline :: "ms \<Rightarrow> alarm_table \<Rightarrow> alarm_table" where
  "schedule_deadline d t =
     (let t1 = setPendingEarliest d t in if cancelled t then activate t1 else t1)"

text \<open>\<open>activateClient\<close> up to its await, and after it: \<open>synchronize\<close> is the snapshot's answer and the
  socket's identity is published in the table and the map together.\<close>

definition activation_begun :: "string \<Rightarrow> client_info \<Rightarrow> socket_world \<Rightarrow> socket_world option" where
  "activation_begun i info w =
     (case client_ws_id (classify i w) of
        None \<Rightarrow> None
      | Some wsId \<Rightarrow> Some (w\<lparr>sw_alarm := schedule_deadline (ci_authorizationExpiresAt info) (sw_alarm w)\<rparr>))"

datatype activation = Activated | NotSynchronized | ActivationFailed

definition activation_ended ::
  "socket_env \<Rightarrow> string \<Rightarrow> client_info \<Rightarrow> bool \<Rightarrow> socket_world \<Rightarrow> socket_world \<times> activation" where
  "activation_ended e i info synchronized w =
     (if \<not> isSocketOpen i w \<or> ci_authorizationExpiresAt info \<le> sv_now e then (w, ActivationFailed)
      else if \<not> synchronized then (w, NotSynchronized)
      else case client_ws_id (classify i w) of
        None \<Rightarrow> (w, ActivationFailed)
      | Some wsId \<Rightarrow>
          (setClient i info (w\<lparr>sw_mappings := upsertWsClientMapping
             \<lparr>wm_wsId = wsId, wm_participantId = ci_participantId info, wm_clientId = ci_clientId info,
              wm_createdAt = sv_now e, wm_authorizationExpiresAt = ci_authorizationExpiresAt info\<rparr>
             (sw_mappings w)\<rparr>), Activated))"

fun expire_sockets :: "socket_env \<Rightarrow> ms \<Rightarrow> host_socket list \<Rightarrow> socket_world \<Rightarrow> socket_world" where
  "expire_sockets e now [] w = w"
| "expire_sockets e now (s # ss) w =
     (let parsed = classify_tags (hs_tags s) in
      if is_sandbox parsed then expire_sockets e now ss w
      else if some_holds (\<lambda>t. t \<le> now) (authorizationExpiry (hs_id s) parsed w)
      then expire_sockets e now ss (rejectExpiredAuthorization e (hs_id s) parsed w)
      else expire_sockets e now ss w)"

definition expireAuthorizationLeases :: "socket_env \<Rightarrow> ms \<Rightarrow> socket_world \<Rightarrow> socket_world" where
  "expireAuthorizationLeases e now w =
     (let w1 = expire_sockets e now (listed w) w;
          w2 = w1\<lparr>sw_mappings := deleteExpiredMappings now (sw_mappings w1)\<rparr> in
      (case getNextAuthorizationExpiry (sw_mappings w2) of
         None \<Rightarrow> w2
       | Some t \<Rightarrow> w2\<lparr>sw_alarm := schedule_deadline t (sw_alarm w2)\<rparr>))"

section \<open>Fan-out, timeout and counting\<close>

datatype audience = AllClients | AuthenticatedOnly

text \<open>The sockets \<open>forEachClientSocket\<close> hands to its callback, in the order of the host's list.\<close>

fun visit_clients ::
  "socket_env \<Rightarrow> audience \<Rightarrow> host_socket list \<Rightarrow> socket_world \<Rightarrow> socket_world \<times> string list" where
  "visit_clients e mode [] w = (w, [])"
| "visit_clients e mode (s # ss) w =
     (let parsed = classify_tags (hs_tags s) in
      if is_sandbox parsed then visit_clients e mode ss w
      else if mode = AllClients
      then (let (w1, is) = visit_clients e mode ss w in (w1, hs_id s # is))
      else (let (w1, ok) = isAuthenticated e (hs_id s) parsed w;
                (w2, is) = visit_clients e mode ss w1 in
            (w2, if ok then hs_id s # is else is)))"

definition forEachClientSocket :: "socket_env \<Rightarrow> audience \<Rightarrow> socket_world \<Rightarrow> socket_world \<times> string list" where
  "forEachClientSocket e mode w = visit_clients e mode (listed w) w"

text \<open>\<open>SessionMessenger.broadcast\<close>: the sockets that got the message.\<close>

definition broadcast :: "socket_env \<Rightarrow> socket_world \<Rightarrow> socket_world \<times> string list" where
  "broadcast e w =
     (let (w1, is) = forEachClientSocket e AuthenticatedOnly w in (w1, filter (\<lambda>i. send_socket e i w1) is))"

datatype delivery_failure = NoSandboxConnected | SendFailed

definition sendToSandbox :: "socket_env \<Rightarrow> socket_world \<Rightarrow> socket_world \<times> (delivery_failure + string)" where
  "sendToSandbox e w =
     (case getSandboxCommandTarget e w of
        (w1, TargetDispatch i) \<Rightarrow> (w1, if send_socket e i w1 then Inr i else Inl SendFailed)
      | (w1, _) \<Rightarrow> (w1, Inl NoSandboxConnected))"

text \<open>\<open>enforceAuthTimeout\<close> once its wait is over.\<close>

definition auth_timed_out :: "socket_env \<Rightarrow> string \<Rightarrow> string \<Rightarrow> socket_world \<Rightarrow> socket_world" where
  "auth_timed_out e i wsId w =
     (if \<not> isSocketOpen i w \<or> client i w \<noteq> None \<or> isClientSynchronizing i w \<or> hasPersistedMapping wsId w
      then w else close_socket e i w)"

fun authenticated_among ::
  "socket_env \<Rightarrow> (string \<times> client_info) list \<Rightarrow> socket_world \<Rightarrow> socket_world \<times> client_info list" where
  "authenticated_among e [] w = (w, [])"
| "authenticated_among e ((i, c) # cs) w =
     (if ci_authorizationExpiresAt c \<le> sv_now e
      then authenticated_among e cs (rejectExpiredAuthorization e i (classify i w) w)
      else let (w1, rest) = authenticated_among e cs w in (w1, c # rest))"

definition getAuthenticatedClients :: "socket_env \<Rightarrow> socket_world \<Rightarrow> socket_world \<times> client_info list" where
  "getAuthenticatedClients e w = authenticated_among e (sw_clients w) w"

text \<open>A lease that cannot be read counts as absent: the read fails where the environment says.\<close>

definition getConnectedClientCount :: "(string \<Rightarrow> bool) \<Rightarrow> ms \<Rightarrow> socket_world \<Rightarrow> nat" where
  "getConnectedClientCount readable now w =
     length (filter (\<lambda>s. \<not> is_sandbox (classify_tags (hs_tags s)) \<and> isSocketOpen (hs_id s) w
       \<and> readable (hs_id s)
       \<and> some_holds (\<lambda>t. now < t) (authorizationExpiry (hs_id s) (classify_tags (hs_tags s)) w)) (listed w))"

end
