(* ===== verification/Connection_Admission.thy ===== *)
theory Connection_Admission
  imports Session_Sockets Session_Admission Launch_Gate Shutdown_Coordinator
begin

text \<open>
  \<open>session/connection-authenticator.ts\<close>, \<open>session/presence-service.ts\<close> and the token check of
  \<open>session/sandbox-access.ts\<close>. Every handler is cut at its awaits: a suspended handler is a task with
  the values it holds, and its continuation reads the state as it is when it resumes. What another
  component answers at an await (the viewer's resolution, an audit, the snapshot, the alarm) is an
  argument of the continuation.
\<close>

section \<open>State\<close>

record upgrade_request =
  ur_authorization :: "string option"
  ur_sandboxId :: "string option"

record sandbox_admission =
  sa_sandboxId :: "string option"
  sa_createdAt :: ms
  sa_authTokenHash :: "string option"
  sa_authToken :: "string option"

record history_cursor =
  hc_timestamp :: int
  hc_id :: string
  hc_sequence :: "int option"

text \<open>\<open>clientMessageSchema\<close>, as far as the session reads the messages here.\<close>

datatype client_message =
    MPing
  | MSubscribe string string
  | MPrompt string "string option"
  | MCancelPrompt string "string option"
  | MStop
  | MRecover string "string option"
  | MTyping
  | MFetchHistory "history_cursor option" "nat option"
  | MPresence presence

datatype connection_task =
    UpgradeHashing "string option" sandbox_row
  | UpgradeAccepted sandbox_admission
  | AttachScheduling string sandbox_admission ms
  | AuthTimeout string string
  | SubHashing string string string
  | SubResolving string participant_row string
  | SubAuditing string participant_row string viewer_resolution ms
  | SubEnriching string participant_row string viewer_resolution ms
  | SubActivating string participant_row client_info viewer_resolution
  | CmdAuthorizing string client_info client_message ms
  | CmdRunning string client_message

record participant_presence =
  pp_participantId :: string
  pp_userId :: string
  pp_name :: string
  pp_avatar :: "string option"
  pp_status :: presence
  pp_lastSeen :: ms

datatype server_reply =
    Pong ms
  | InvalidPrompt "string option"
  | InvalidMessage "string option"
  | AuthenticationRequired string
  | AuthorizationUnavailable "string option"
  | PermissionRequired denial_reason "string option"
  | InvalidCursor
  | RateLimited
  | RecoveryUnavailable "string option"
  | RecoveryAccepted string string
  | HistoryPage history_cursor "nat option"
  | PresenceSync "participant_presence list"

text \<open>What the session did for a connection, in order.\<close>

datatype session_event =
    Rejected nat string
  | Attached ms string string sandbox_admission bool
  | BridgeFrame ms string
  | Pumped
  | Granted ms string string client_info participant_row viewer_resolution bool
  | Ran ms ms string client_info client_message viewer_resolution
  | Replied string server_reply
  | ReadAudited string string
  | ShadowAudited string string denial_reason
  | PresenceLeft string

record connection_world =
  cw_sockets :: socket_world
  cw_session :: "session_status option"
  cw_startupPending :: bool
  cw_shadow :: "(string \<times> string \<times> denial_reason) list"
  cw_tasks :: "connection_task list"
  cw_log :: "session_event list"

record connection_env =
  ce_sockets :: socket_env
  ce_hash :: "string \<Rightarrow> string"
  ce_github :: bool
  ce_heartbeatTimeoutMs :: ms

definition now_of :: "connection_env \<Rightarrow> ms" where
  "now_of e = sv_now (ce_sockets e)"

definition on_sockets :: "(socket_world \<Rightarrow> socket_world) \<Rightarrow> connection_world \<Rightarrow> connection_world" where
  "on_sockets f w = w\<lparr>cw_sockets := f (cw_sockets w)\<rparr>"

definition log_event :: "session_event \<Rightarrow> connection_world \<Rightarrow> connection_world" where
  "log_event x w = w\<lparr>cw_log := cw_log w @ [x]\<rparr>"

definition await_task :: "connection_task \<Rightarrow> connection_world \<Rightarrow> connection_world" where
  "await_task t w = w\<lparr>cw_tasks := cw_tasks w @ [t]\<rparr>"

definition hang_up :: "connection_env \<Rightarrow> string \<Rightarrow> connection_world \<Rightarrow> connection_world" where
  "hang_up e i = on_sockets (close_socket (ce_sockets e) i)"

definition sandbox_of :: "connection_world \<Rightarrow> sandbox_row option" where
  "sandbox_of w = getSandbox (sw_sandbox (cw_sockets w))"

definition WS_TOKEN_TTL_MS :: ms where
  "WS_TOKEN_TTL_MS = 24 * 60 * 60 * 1000"

definition WS_AUTHORIZATION_LEASE_MS :: ms where
  "WS_AUTHORIZATION_LEASE_MS = 5 * 60 * 1000"

section \<open>Sandbox upgrades\<close>

definition isValidSandboxToken :: "(string \<Rightarrow> string) \<Rightarrow> string option \<Rightarrow> sandbox_row option \<Rightarrow> bool" where
  "isValidSandboxToken h token row =
     (case row of
        None \<Rightarrow> False
      | Some r \<Rightarrow>
          if \<not> truthy token then False
          else if truthy (sb_auth_token_hash r) then Some (h (the token)) = sb_auth_token_hash r
          else if truthy (sb_auth_token r) then token = sb_auth_token r
          else False)"

definition bearer :: "string option \<Rightarrow> string option" where
  "bearer h = (case h of None \<Rightarrow> None
     | Some s \<Rightarrow> if take 7 s = ''Bearer '' then Some (drop 7 s) else None)"

text \<open>A client is accepted as it comes; a sandbox names itself and shows its token. A missing row
  fails the token check.\<close>

definition authorize_sandbox :: "upgrade_request \<Rightarrow> connection_world \<Rightarrow> connection_world" where
  "authorize_sandbox req w =
     (case sandbox_of w of
        None \<Rightarrow> log_event (Rejected 401 ''Unauthorized: Invalid auth token'') w
      | Some r \<Rightarrow>
          if truthy (sb_modal_sandbox_id r) \<and> ur_sandboxId req \<noteq> sb_modal_sandbox_id r
          then log_event (Rejected 403 ''Forbidden: Wrong sandbox ID'') w
          else await_task (UpgradeHashing (bearer (ur_authorization req)) r) w)"

definition same_generation :: "sandbox_row \<Rightarrow> sandbox_row option \<Rightarrow> bool" where
  "same_generation r now_row \<longleftrightarrow>
     some_holds (\<lambda>c. sb_modal_sandbox_id c = sb_modal_sandbox_id r \<and> sb_created_at c = sb_created_at r) now_row"

definition refusedReconnect :: "sandbox_row \<Rightarrow> reconnect \<Rightarrow> connection_world \<Rightarrow> reconnect" where
  "refusedReconnect r answer w = (if same_generation r (sandbox_of w) then answer else ExitRuntime)"

definition reject_with :: "reconnect \<Rightarrow> string \<Rightarrow> connection_world \<Rightarrow> connection_world" where
  "reject_with instruction gone =
     log_event (if instruction = RetryReconnect then Rejected 503 ''Sandbox is being saved'' else Rejected 410 gone)"

definition admission_of :: "sandbox_row \<Rightarrow> sandbox_admission" where
  "admission_of r = \<lparr>sa_sandboxId = sb_modal_sandbox_id r, sa_createdAt = sb_created_at r,
     sa_authTokenHash = sb_auth_token_hash r, sa_authToken = sb_auth_token r\<rparr>"

definition matchesAdmission :: "sandbox_row option \<Rightarrow> sandbox_admission \<Rightarrow> bool" where
  "matchesAdmission row a \<longleftrightarrow> some_holds (\<lambda>r. admission_of r = a) row"

text \<open>After the hash: \<open>answer\<close> is what the shutdown coordinator tells a refused bridge of the current
  generation.\<close>

definition authorize_hashed ::
  "connection_env \<Rightarrow> string option \<Rightarrow> sandbox_row \<Rightarrow> reconnect \<Rightarrow> connection_world \<Rightarrow> connection_world" where
  "authorize_hashed e token r answer w =
     (if \<not> isValidSandboxToken (ce_hash e) token (Some r)
      then log_event (Rejected 401 ''Unauthorized: Invalid auth token'') w
      else if some_holds (\<lambda>s. \<not> isSessionPromptable s) (cw_session w)
      then reject_with (if cw_session w = Some SArchived then refusedReconnect r answer w else ExitRuntime)
             ''Session is terminal'' w
      else if some_holds (\<lambda>c. isSandboxReconnectBlockedStatus (sb_status c)) (sandbox_of w)
      then reject_with (refusedReconnect r answer w) ''Sandbox is stopped'' w
      else if \<not> matchesAdmission (sandbox_of w) (admission_of r)
      then log_event (Rejected 403 ''Forbidden: Sandbox credentials changed'') w
      else await_task (UpgradeAccepted (admission_of r)) w)"

definition attach_sandbox_begun ::
  "connection_env \<Rightarrow> string \<Rightarrow> sandbox_admission \<Rightarrow> connection_world \<Rightarrow> connection_world" where
  "attach_sandbox_begun e i a w =
     (if \<not> matchesAdmission (sandbox_of w) a then hang_up e i w
      else await_task (AttachScheduling i a (now_of e))
             (on_sockets (\<lambda>s. s\<lparr>sw_alarm :=
                schedule_deadline (now_of e + ce_heartbeatTimeoutMs e) (sw_alarm s)\<rparr>) w))"

text \<open>The socket, the heartbeat and the row's status land in one step; \<open>at0\<close> is the time read before
  the await and \<open>socketId\<close> the fresh identity.\<close>

definition publish_bridge ::
  "connection_env \<Rightarrow> string \<Rightarrow> string \<Rightarrow> sandbox_admission \<Rightarrow> ms \<Rightarrow> socket_world \<Rightarrow> socket_world" where
  "publish_bridge e i socketId a at0 s =
     (let s1 = s\<lparr>sw_sandbox := updateSandboxHeartbeat at0 (sw_sandbox s)\<rparr>;
          s2 = fst (acceptAndSetSandboxSocket (ce_sockets e) socketId i (sa_sandboxId a) s1) in
      s2\<lparr>sw_sandbox := fst (onSandboxSocketAttached
            \<lparr>g_sandboxId = sa_sandboxId a, g_createdAt = sa_createdAt a\<rparr>
            (onSandboxConnected (sw_sandbox s2)))\<rparr>)"

definition fan_out :: "connection_env \<Rightarrow> connection_world \<Rightarrow> connection_world" where
  "fan_out e = on_sockets (\<lambda>s. fst (broadcast (ce_sockets e) s))"

definition pump_if_ready :: "connection_env \<Rightarrow> connection_world \<Rightarrow> connection_world" where
  "pump_if_ready e w =
     (let (s, target) = getSandboxCommandTarget (ce_sockets e) (cw_sockets w);
          w1 = w\<lparr>cw_sockets := s\<rparr> in
      (case target of TargetDispatch i \<Rightarrow> log_event Pumped w1 | _ \<Rightarrow> w1))"

definition attach_sandbox_ended ::
  "connection_env \<Rightarrow> string \<Rightarrow> string \<Rightarrow> sandbox_admission \<Rightarrow> ms \<Rightarrow> connection_world \<Rightarrow> connection_world" where
  "attach_sandbox_ended e i socketId a at0 w =
     (if \<not> matchesAdmission (sandbox_of w) a then hang_up e i w
      else
        let w1 = log_event (Attached (now_of e) i socketId a (\<not> cw_startupPending w))
                   (on_sockets (publish_bridge e i socketId a at0) w);
            w2 = (if cw_startupPending w then w1 else fan_out e w1) in
        pump_if_ready e w2)"

definition attachClient :: "string \<Rightarrow> string \<Rightarrow> connection_world \<Rightarrow> connection_world" where
  "attachClient i wsId w = await_task (AuthTimeout i wsId) (on_sockets (acceptClientSocket i wsId) w)"

section \<open>Presence\<close>

definition present_as :: "client_info \<Rightarrow> participant_presence" where
  "present_as c = \<lparr>pp_participantId = ci_participantId c, pp_userId = ci_userId c, pp_name = ci_name c,
     pp_avatar = ci_avatar c, pp_status = ci_status c, pp_lastSeen = ci_lastSeen c\<rparr>"

definition merge_presence :: "client_info \<Rightarrow> participant_presence \<Rightarrow> participant_presence" where
  "merge_presence c p = p\<lparr>
     pp_status := (if ci_status c = PresenceActive then PresenceActive else pp_status p),
     pp_lastSeen := max (pp_lastSeen p) (ci_lastSeen c)\<rparr>"

fun project_onto :: "participant_presence list \<Rightarrow> client_info list \<Rightarrow> participant_presence list" where
  "project_onto ps [] = ps"
| "project_onto ps (c # cs) =
     project_onto
       (if find (\<lambda>p. pp_participantId p = ci_participantId c) ps = None then ps @ [present_as c]
        else sql_update (\<lambda>p. pp_participantId p = ci_participantId c) (merge_presence c) ps) cs"

definition projectConnectedParticipants :: "client_info list \<Rightarrow> participant_presence list" where
  "projectConnectedParticipants = project_onto []"

definition getPresenceList :: "connection_env \<Rightarrow> connection_world \<Rightarrow> connection_world \<times> participant_presence list" where
  "getPresenceList e w =
     (let (s, cs) = getAuthenticatedClients (ce_sockets e) (cw_sockets w) in
      (w\<lparr>cw_sockets := s\<rparr>, projectConnectedParticipants cs))"

definition broadcastPresence :: "connection_env \<Rightarrow> connection_world \<Rightarrow> connection_world" where
  "broadcastPresence e w = fan_out e (fst (getPresenceList e w))"

definition say :: "connection_env \<Rightarrow> string \<Rightarrow> server_reply \<Rightarrow> connection_world \<Rightarrow> connection_world" where
  "say e i r w = (if send_socket (ce_sockets e) i (cw_sockets w) then log_event (Replied i r) w else w)"

definition sendPresence :: "connection_env \<Rightarrow> string \<Rightarrow> connection_world \<Rightarrow> connection_world" where
  "sendPresence e i w = (let (w1, ps) = getPresenceList e w in say e i (PresenceSync ps) w1)"

section \<open>Subscribing\<close>

text \<open>A read the teams policy would deny, observed once for each socket, session and reason.\<close>

definition observeShadowReadDenial :: "string \<Rightarrow> viewer_resolution \<Rightarrow> connection_world \<Rightarrow> connection_world" where
  "observeShadowReadDenial i r w =
     (case checkSessionAccess (UserViewer (vr_viewer r)) (vr_row r) ActRead of
        Permit a \<Rightarrow> w
      | Deny reason \<Rightarrow>
          if vr_mode r \<noteq> ModeShadow \<or> (i, ar_id (vr_row r), reason) \<in> set (cw_shadow w)
             \<or> client_ws_id (classify i (cw_sockets w)) = None
          then w
          else log_event (ShadowAudited i (ar_id (vr_row r)) reason)
                 (w\<lparr>cw_shadow := cw_shadow w @ [(i, ar_id (vr_row r), reason)]\<rparr>))"

text \<open>The \<open>finally\<close> of a subscription.\<close>

definition sub_over :: "string \<Rightarrow> connection_world \<Rightarrow> connection_world" where
  "sub_over i = on_sockets (setClientSynchronizing i False)"

definition sub_refused :: "connection_env \<Rightarrow> string \<Rightarrow> connection_world \<Rightarrow> connection_world" where
  "sub_refused e i w = sub_over i (hang_up e i w)"

definition handleSubscribe :: "connection_env \<Rightarrow> string \<Rightarrow> string \<Rightarrow> string \<Rightarrow> connection_world \<Rightarrow> connection_world" where
  "handleSubscribe e i token clientId w =
     (if token = [] then hang_up e i w
      else
        let (s, authenticated) = isClientAuthenticated (ce_sockets e) i (cw_sockets w);
            w1 = w\<lparr>cw_sockets := s\<rparr> in
        if authenticated \<or> isClientSynchronizing i s then hang_up e i w1
        else await_task (SubHashing i token clientId) (on_sockets (setClientSynchronizing i True) w1))"

definition sub_hashed :: "connection_env \<Rightarrow> string \<Rightarrow> string \<Rightarrow> string \<Rightarrow> connection_world \<Rightarrow> connection_world" where
  "sub_hashed e i token clientId w =
     (case getParticipantByWsTokenHash (ce_hash e token) (sw_participants (cw_sockets w)) of
        None \<Rightarrow> sub_refused e i w
      | Some p \<Rightarrow> if truthy (pt_canonical_user_id p) then await_task (SubResolving i p clientId) w
                  else sub_refused e i w)"

definition token_fresh :: "ms \<Rightarrow> participant_row \<Rightarrow> bool" where
  "token_fresh now p \<longleftrightarrow> some_holds (\<lambda>t. now - t \<le> WS_TOKEN_TTL_MS) (pt_ws_token_created_at p)"

definition sub_resolved ::
  "connection_env \<Rightarrow> string \<Rightarrow> participant_row \<Rightarrow> string \<Rightarrow> resolved_viewer \<Rightarrow> connection_world \<Rightarrow> connection_world" where
  "sub_resolved e i p clientId answer w =
     (case answer of
        ViewerValid r \<Rightarrow>
          (case decide_socket r ActRead of
             Deny reason \<Rightarrow> sub_refused e i w
           | Permit audit \<Rightarrow>
               if \<not> token_fresh (now_of e) p then sub_refused e i w
               else let expires = now_of e + WS_AUTHORIZATION_LEASE_MS in
               if audit = Some PrivateBreakGlass then await_task (SubAuditing i p clientId r expires) w
               else await_task (SubEnriching i p clientId r expires) w)
      | ViewerRejected \<Rightarrow> sub_refused e i w
      | ViewerUnavailable \<Rightarrow> sub_refused e i w)"

definition sub_audited ::
  "connection_env \<Rightarrow> string \<Rightarrow> participant_row \<Rightarrow> string \<Rightarrow> viewer_resolution \<Rightarrow> ms \<Rightarrow> bool
     \<Rightarrow> connection_world \<Rightarrow> connection_world" where
  "sub_audited e i p clientId r expires audited w =
     (if \<not> audited then sub_refused e i w
      else await_task (SubEnriching i p clientId r expires)
             (log_event (ReadAudited (the (pt_canonical_user_id p)) (ar_id (vr_row r))) w))"

definition client_of :: "connection_env \<Rightarrow> participant_row \<Rightarrow> string \<Rightarrow> ms \<Rightarrow> client_info" where
  "client_of e p clientId expires =
     \<lparr>ci_participantId = pt_id p, ci_userId = nullish (pt_canonical_user_id p) (pt_user_id p),
      ci_name = resolveParticipantName (pt_scm_name p) (pt_scm_login p) (pt_user_id p),
      ci_avatar = getAvatarUrl (pt_scm_login p) (ce_github e) None, ci_status = PresenceActive,
      ci_lastSeen = now_of e, ci_clientId = clientId, ci_authorizationExpiresAt = expires,
      ci_lastFetchHistoryAtMs = None\<rparr>"

definition sub_enriched ::
  "connection_env \<Rightarrow> string \<Rightarrow> participant_row \<Rightarrow> string \<Rightarrow> viewer_resolution \<Rightarrow> ms
     \<Rightarrow> connection_world \<Rightarrow> connection_world" where
  "sub_enriched e i p clientId r expires w =
     (let info = client_of e p clientId expires in
      (case activation_begun i info (cw_sockets w) of
         None \<Rightarrow> sub_refused e i w
       | Some s \<Rightarrow> await_task (SubActivating i p info r) (w\<lparr>cw_sockets := s\<rparr>)))"

text \<open>\<open>scheduled\<close> is whether the alarm was set and \<open>snapshot\<close> whether the session could be read; the
  snapshot shows sandbox access to a viewer who may use it.\<close>

definition shows_sandbox_access :: "viewer_resolution \<Rightarrow> bool" where
  "shows_sandbox_access r \<longleftrightarrow>
     cp_canSandbox (effectiveSessionCapabilities (UserViewer (vr_viewer r)) (vr_row r) (vr_mode r))"

definition sub_activated ::
  "connection_env \<Rightarrow> string \<Rightarrow> participant_row \<Rightarrow> client_info \<Rightarrow> viewer_resolution \<Rightarrow> bool \<Rightarrow> bool
     \<Rightarrow> connection_world \<Rightarrow> connection_world" where
  "sub_activated e i p info r scheduled snapshot w =
     (if \<not> scheduled then sub_refused e i w
      else
        let synchronized = (snapshot \<and> send_socket (ce_sockets e) i (cw_sockets w));
            (s, answer) = activation_ended (ce_sockets e) i info synchronized (cw_sockets w) in
        if answer \<noteq> Activated then sub_refused e i w
        else
          let w1 = log_event (Granted (now_of e) i (nullish (client_ws_id (classify i s)) []) info p r
                                (shows_sandbox_access r)) (w\<lparr>cw_sockets := s\<rparr>);
              w2 = observeShadowReadDenial i r w1 in
          sub_over i (broadcastPresence e (sendPresence e i w2)))"

text \<open>An await that throws: the router catches it after the \<open>finally\<close>.\<close>

definition sub_threw :: "string \<Rightarrow> connection_world \<Rightarrow> connection_world" where
  "sub_threw i w = sub_over i w"

section \<open>Authorized commands\<close>

definition getClientInfo :: "connection_env \<Rightarrow> string \<Rightarrow> connection_world \<Rightarrow> connection_world \<times> client_info option" where
  "getClientInfo e i w =
     (case lookupClient (ce_sockets e) i (cw_sockets w) of
        (s, answer) \<Rightarrow>
          (let w1 = w\<lparr>cw_sockets := s\<rparr> in
           case answer of
             LookupCached c \<Rightarrow> (w1, Some c)
           | LookupRejected \<Rightarrow> (w1, None)
           | LookupMissing \<Rightarrow> (hang_up e i w1, None)
           | LookupRecovered m p \<Rightarrow>
               (let c = client_of e p
                      (if wm_clientId m = [] then ''client-'' @ show_int (now_of e) else wm_clientId m)
                      (wm_authorizationExpiresAt m) in
                (on_sockets (setClient i c) w1, Some c))))"

datatype command_authorization =
  CommandAllowed | CommandDenied denial_reason | CommandUnavailable | CommandRevoked

definition authorizeClientCommand ::
  "connection_env \<Rightarrow> string \<Rightarrow> session_action \<Rightarrow> resolved_viewer \<Rightarrow> connection_world
     \<Rightarrow> connection_world \<times> command_authorization" where
  "authorizeClientCommand e i action answer w =
     (let revoke = (hang_up e i (on_sockets (\<lambda>s. fst (removeClient i s)) w), CommandRevoked) in
      case answer of
        ViewerUnavailable \<Rightarrow> (w, CommandUnavailable)
      | ViewerRejected \<Rightarrow> revoke
      | ViewerValid r \<Rightarrow>
          if \<not> allowed (decide_socket r ActRead) then revoke
          else (observeShadowReadDenial i r w,
                case decide_socket r action of Permit a \<Rightarrow> CommandAllowed | Deny reason \<Rightarrow> CommandDenied reason))"

end
