(* ===== verification/Connection_Routing.thy ===== *)
theory Connection_Routing
  imports Connection_Admission
begin

text \<open>
  \<open>session/message-router.ts\<close>, \<open>session/disconnect-handler.ts\<close> and the commands of
  \<open>session/client-command-facade.ts\<close>, and the step relation of a session's connections: the frames
  that arrive, the handlers that resume, the sockets that close, the alarm, the restart of the host
  and what the other components do to the rows these handlers read.
\<close>

section \<open>Commands\<close>

fun required_action :: "client_message \<Rightarrow> session_action option" where
  "required_action MPing = None"
| "required_action (MSubscribe token clientId) = None"
| "required_action (MPrompt content req) = Some ActCollaborate"
| "required_action (MCancelPrompt messageId req) = Some ActLifecycle"
| "required_action MStop = Some ActLifecycle"
| "required_action (MRecover action req) = Some ActLifecycle"
| "required_action MTyping = Some ActCollaborate"
| "required_action (MFetchHistory c limit) = Some ActRead"
| "required_action (MPresence s) = Some ActRead"

fun correlatedRequestId :: "client_message \<Rightarrow> string option" where
  "correlatedRequestId (MPrompt content req) = req"
| "correlatedRequestId (MCancelPrompt messageId req) = req"
| "correlatedRequestId (MRecover action req) = req"
| "correlatedRequestId m = None"

text \<open>A frame the schema refuses, with the kind and the request id that could still be read.\<close>

datatype client_frame = Refused_frame bool "string option" | Parsed client_message

definition FETCH_HISTORY_MIN_INTERVAL_MS :: ms where
  "FETCH_HISTORY_MIN_INTERVAL_MS = 200"

definition valid_cursor :: "history_cursor option \<Rightarrow> bool" where
  "valid_cursor c \<longleftrightarrow>
     some_holds (\<lambda>k. none_or (\<lambda>s. \<bar>s\<bar> \<le> MAX_SAFE_INTEGER \<and> 0 \<le> s) (hc_sequence k)) c"

text \<open>A handler that holds a client's object and changes it changes the entry of the registry, as long
  as the entry is still that grant.\<close>

definition same_lease :: "client_info \<Rightarrow> client_info \<Rightarrow> bool" where
  "same_lease c d \<longleftrightarrow> ci_participantId c = ci_participantId d \<and> ci_clientId c = ci_clientId d
     \<and> ci_authorizationExpiresAt c = ci_authorizationExpiresAt d"

definition change_client ::
  "string \<Rightarrow> client_info \<Rightarrow> (client_info \<Rightarrow> client_info) \<Rightarrow> connection_world \<Rightarrow> connection_world" where
  "change_client i c f = on_sockets (\<lambda>s. s\<lparr>sw_clients :=
     sql_update (\<lambda>x. fst x = i \<and> same_lease c (snd x)) (\<lambda>x. (fst x, f (snd x))) (sw_clients s)\<rparr>)"

definition canFetchHistory ::
  "connection_env \<Rightarrow> string \<Rightarrow> client_info \<Rightarrow> history_cursor option \<Rightarrow> connection_world
     \<Rightarrow> connection_world \<times> bool" where
  "canFetchHistory e i c cursor w =
     (if \<not> valid_cursor cursor then (say e i InvalidCursor w, False)
      else if some_holds (\<lambda>t. now_of e - t < FETCH_HISTORY_MIN_INTERVAL_MS) (ci_lastFetchHistoryAtMs c)
      then (say e i RateLimited w, False)
      else (change_client i c (\<lambda>x. x\<lparr>ci_lastFetchHistoryAtMs := Some (now_of e)\<rparr>) w, True))"

definition updatePresence ::
  "connection_env \<Rightarrow> string \<Rightarrow> client_info \<Rightarrow> presence \<Rightarrow> connection_world \<Rightarrow> connection_world" where
  "updatePresence e i c st w =
     broadcastPresence e
       (change_client i c (\<lambda>x. x\<lparr>ci_status := st, ci_lastSeen := now_of e\<rparr>) w)"

text \<open>A command that passed its authorization. Presence and history are done at once; the others are
  other components' work, whose end is a step of its own.\<close>

fun perform ::
  "connection_env \<Rightarrow> string \<Rightarrow> client_info \<Rightarrow> client_message \<Rightarrow> connection_world \<Rightarrow> connection_world" where
  "perform e i c (MPresence st) w = updatePresence e i c st w"
| "perform e i c (MFetchHistory cursor limit) w =
     (case cursor of None \<Rightarrow> w | Some k \<Rightarrow> say e i (HistoryPage k limit) w)"
| "perform e i c m w = await_task (CmdRunning i m) w"

datatype command_outcome = CommandDone | RecoveryRejected | CommandThrew

definition cmd_returned ::
  "connection_env \<Rightarrow> string \<Rightarrow> client_message \<Rightarrow> command_outcome \<Rightarrow> connection_world \<Rightarrow> connection_world" where
  "cmd_returned e i m answer w =
     (case answer of
        CommandDone \<Rightarrow>
          (case m of
             MRecover action req \<Rightarrow> if truthy req then say e i (RecoveryAccepted (the req) action) w else w
           | _ \<Rightarrow> w)
      | RecoveryRejected \<Rightarrow> say e i (RecoveryUnavailable (correlatedRequestId m)) w
      | CommandThrew \<Rightarrow> say e i (InvalidMessage (correlatedRequestId m)) w)"

definition authorization_request_id :: "client_message \<Rightarrow> string option" where
  "authorization_request_id m =
     (case m of MRecover action req \<Rightarrow> if truthy req then req else None | _ \<Rightarrow> None)"

text \<open>\<open>authorizeCommand\<close> once the viewer's resolution is in.\<close>

definition cmd_authorized ::
  "connection_env \<Rightarrow> string \<Rightarrow> client_info \<Rightarrow> client_message \<Rightarrow> ms \<Rightarrow> resolved_viewer
     \<Rightarrow> connection_world \<Rightarrow> connection_world" where
  "cmd_authorized e i c m arrived answer w =
     (case required_action m of
        None \<Rightarrow> w
      | Some action \<Rightarrow>
          (case authorizeClientCommand e i action answer w of
             (w1, verdict) \<Rightarrow>
               (case (verdict, answer) of
                  (CommandAllowed, ViewerValid r) \<Rightarrow>
                    perform e i c m (log_event (Ran arrived (now_of e) i c m r) w1)
                | (CommandDenied reason, _) \<Rightarrow>
                    say e i (PermissionRequired reason (authorization_request_id m)) w1
                | (CommandUnavailable, _) \<Rightarrow>
                    say e i (AuthorizationUnavailable (authorization_request_id m)) w1
                | _ \<Rightarrow> w1)))"

text \<open>\<open>handleClientMessage\<close> up to its first await.\<close>

definition await_authorization ::
  "connection_env \<Rightarrow> string \<Rightarrow> client_info \<Rightarrow> client_message \<Rightarrow> connection_world \<Rightarrow> connection_world" where
  "await_authorization e i c m w =
     (case m of
        MFetchHistory cursor limit \<Rightarrow>
          (case canFetchHistory e i c cursor w of
             (w1, ok) \<Rightarrow> if ok then await_task (CmdAuthorizing i c m (now_of e)) w1 else w1)
      | _ \<Rightarrow> await_task (CmdAuthorizing i c m (now_of e)) w)"

definition unauthenticated :: "connection_env \<Rightarrow> string \<Rightarrow> client_message \<Rightarrow> connection_world \<Rightarrow> connection_world" where
  "unauthenticated e i m w =
     (case m of
        MRecover action req \<Rightarrow> if truthy req then say e i (AuthenticationRequired (the req)) w else w
      | _ \<Rightarrow> w)"

definition handleClientMessage ::
  "connection_env \<Rightarrow> string \<Rightarrow> client_frame \<Rightarrow> connection_world \<Rightarrow> connection_world" where
  "handleClientMessage e i frame w =
     (case frame of
        Refused_frame isPrompt req \<Rightarrow>
          say e i (if isPrompt then InvalidPrompt req else InvalidMessage req) w
      | Parsed m \<Rightarrow>
          (case m of
             MPing \<Rightarrow> say e i (Pong (now_of e)) w
           | MSubscribe token clientId \<Rightarrow> handleSubscribe e i token clientId w
           | _ \<Rightarrow>
               (case getClientInfo e i w of
                  (w1, None) \<Rightarrow> unauthenticated e i m w1
                | (w1, Some c) \<Rightarrow> await_authorization e i c m w1)))"

text \<open>\<open>route\<close>: a frame from a bridge that has been replaced closes it again.\<close>

definition route :: "connection_env \<Rightarrow> string \<Rightarrow> client_frame \<Rightarrow> connection_world \<Rightarrow> connection_world" where
  "route e i frame w =
     (if \<not> is_sandbox (classify i (cw_sockets w)) then handleClientMessage e i frame w
      else if isActiveSandboxSocket i (cw_sockets w) then log_event (BridgeFrame (now_of e) i) w
      else hang_up e i w)"

section \<open>Closed sockets\<close>

definition peer_closed :: "string \<Rightarrow> socket_world \<Rightarrow> socket_world" where
  "peer_closed i s = s\<lparr>sw_sockets :=
     sql_update (\<lambda>x. hs_id x = i) (\<lambda>x. x\<lparr>hs_open := False, hs_listed := False\<rparr>) (sw_sockets s)\<rparr>"

definition hasParticipant :: "connection_env \<Rightarrow> string \<Rightarrow> connection_world \<Rightarrow> connection_world \<times> bool" where
  "hasParticipant e participantId w =
     (let (s, cs) = getAuthenticatedClients (ce_sockets e) (cw_sockets w) in
      (w\<lparr>cw_sockets := s\<rparr>, list_ex (\<lambda>c. ci_participantId c = participantId) cs))"

definition bridge_lost :: "connection_env \<Rightarrow> connection_world \<Rightarrow> connection_world" where
  "bridge_lost e w =
     (if some_holds (\<lambda>r. isSandboxReconnectBlockedStatus (sb_status r)) (sandbox_of w) then w
      else on_sockets (\<lambda>s. s\<lparr>sw_alarm :=
             schedule_deadline (now_of e + ce_heartbeatTimeoutMs e) (sw_alarm s)\<rparr>) w)"

definition client_left :: "connection_env \<Rightarrow> client_info option \<Rightarrow> connection_world \<Rightarrow> connection_world" where
  "client_left e left w =
     (case left of
        None \<Rightarrow> w
      | Some c \<Rightarrow>
          (case hasParticipant e (ci_participantId c) w of
             (w1, True) \<Rightarrow> broadcastPresence e w1
           | (w1, False) \<Rightarrow> log_event (PresenceLeft (ci_userId c)) (fan_out e w1)))"

definition handleClose :: "connection_env \<Rightarrow> string \<Rightarrow> connection_world \<Rightarrow> connection_world" where
  "handleClose e i w =
     hang_up e i
       (if is_sandbox (classify i (cw_sockets w))
        then (let (s, active) = clearSandboxSocketIfMatch i (cw_sockets w);
                  w1 = w\<lparr>cw_sockets := s\<rparr> in
              if active then bridge_lost e w1 else w1)
        else (let (s, left) = removeClient i (cw_sockets w) in client_left e left (w\<lparr>cw_sockets := s\<rparr>)))"

section \<open>Steps\<close>

definition resumed :: "connection_task \<Rightarrow> connection_world \<Rightarrow> connection_world" where
  "resumed t w = w\<lparr>cw_tasks := remove1 t (cw_tasks w)\<rparr>"

fun subscriber :: "connection_task \<Rightarrow> string option" where
  "subscriber (SubHashing i tok cid) = Some i"
| "subscriber (SubResolving i p cid) = Some i"
| "subscriber (SubAuditing i p cid r x) = Some i"
| "subscriber (SubEnriching i p cid r x) = Some i"
| "subscriber (SubActivating i p info r) = Some i"
| "subscriber t = None"

text \<open>An instance that is evicted loses what it held in memory. A host that keeps sockets across it
  lists them under their tags; another loses them.\<close>

definition restarted :: "bool \<Rightarrow> connection_world \<Rightarrow> connection_world" where
  "restarted keepsSockets w =
     (on_sockets (\<lambda>s. s\<lparr>sw_sandboxWs := None, sw_clients := [], sw_synchronizing := [],
        sw_sockets := (if keepsSockets then sw_sockets s
                       else map (\<lambda>x. x\<lparr>hs_open := False, hs_listed := False\<rparr>) (sw_sockets s))\<rparr>) w)
     \<lparr>cw_tasks := [], cw_shadow := [], cw_startupPending := False\<rparr>"

text \<open>What the other components write to the sandbox row leaves the bridge it names, or revokes it
  (a reservation, a detach); a row is made without one.\<close>

definition keeps_or_revokes :: "sandbox_table \<Rightarrow> sandbox_table \<Rightarrow> bool" where
  "keeps_or_revokes t t' \<longleftrightarrow>
     none_or (\<lambda>r'. sb_active_socket_id r' = Some []
       \<or> (case getSandbox t of None \<Rightarrow> sb_active_socket_id r' = None
           | Some r \<Rightarrow> sb_active_socket_id r' = sb_active_socket_id r)) (getSandbox t')"

definition fresh_socket :: "string \<Rightarrow> connection_world \<Rightarrow> bool" where
  "fresh_socket i w \<longleftrightarrow> i \<notin> hs_id ` set (sw_sockets (cw_sockets w))"

definition fresh_ws_id :: "string \<Rightarrow> connection_world \<Rightarrow> bool" where
  "fresh_ws_id wsId w \<longleftrightarrow> wsId \<noteq> []
     \<and> (\<forall>s \<in> set (sw_sockets (cw_sockets w)). client_ws_id (classify_tags (hs_tags s)) \<noteq> Some wsId)"

definition attached_ids :: "session_event list \<Rightarrow> (string \<times> string) set" where
  "attached_ids l = {(i, socketId). \<exists>t a b. Attached t i socketId a b \<in> set l}"

definition fresh_bridge_id :: "string \<Rightarrow> connection_world \<Rightarrow> bool" where
  "fresh_bridge_id socketId w \<longleftrightarrow> socketId \<noteq> [] \<and> socketId \<notin> snd ` attached_ids (cw_log w)"

inductive connection_step :: "connection_env \<Rightarrow> connection_world \<Rightarrow> connection_world \<Rightarrow> bool" where
  client_upgrade: "fresh_socket i w \<Longrightarrow> fresh_ws_id wsId w \<Longrightarrow> connection_step e w (attachClient i wsId w)"
| sandbox_upgrade: "connection_step e w (authorize_sandbox req w)"
| upgrade_hashed: "UpgradeHashing token r \<in> set (cw_tasks w) \<Longrightarrow>
    connection_step e w (authorize_hashed e token r answer (resumed (UpgradeHashing token r) w))"
| bridge_attaching: "UpgradeAccepted a \<in> set (cw_tasks w) \<Longrightarrow> fresh_socket i w \<Longrightarrow>
    connection_step e w (attach_sandbox_begun e i a (resumed (UpgradeAccepted a) w))"
| bridge_attached: "AttachScheduling i a t \<in> set (cw_tasks w) \<Longrightarrow> fresh_socket i w \<Longrightarrow>
    fresh_bridge_id socketId w \<Longrightarrow>
    connection_step e w (attach_sandbox_ended e i socketId a t (resumed (AttachScheduling i a t) w))"
| auth_timeout: "AuthTimeout i wsId \<in> set (cw_tasks w) \<Longrightarrow>
    connection_step e w (on_sockets (auth_timed_out (ce_sockets e) i wsId) (resumed (AuthTimeout i wsId) w))"
| frame: "i \<in> hs_id ` set (sw_sockets (cw_sockets w)) \<Longrightarrow> connection_step e w (route e i f w)"
| hashed: "SubHashing i tok cid \<in> set (cw_tasks w) \<Longrightarrow>
    connection_step e w (sub_hashed e i tok cid (resumed (SubHashing i tok cid) w))"
| resolved: "SubResolving i p cid \<in> set (cw_tasks w) \<Longrightarrow>
    connection_step e w (sub_resolved e i p cid viewer (resumed (SubResolving i p cid) w))"
| audited: "SubAuditing i p cid r x \<in> set (cw_tasks w) \<Longrightarrow>
    connection_step e w (sub_audited e i p cid r x ok (resumed (SubAuditing i p cid r x) w))"
| enriched: "SubEnriching i p cid r x \<in> set (cw_tasks w) \<Longrightarrow>
    connection_step e w (sub_enriched e i p cid r x (resumed (SubEnriching i p cid r x) w))"
| activated: "SubActivating i p info r \<in> set (cw_tasks w) \<Longrightarrow>
    connection_step e w (sub_activated e i p info r ok snapshot (resumed (SubActivating i p info r) w))"
| subscription_threw: "t \<in> set (cw_tasks w) \<Longrightarrow> subscriber t = Some i \<Longrightarrow>
    connection_step e w (sub_threw i (resumed t w))"
| command_threw: "CmdAuthorizing i c m t \<in> set (cw_tasks w) \<Longrightarrow>
    connection_step e w (cmd_returned e i m CommandThrew (resumed (CmdAuthorizing i c m t) w))"
| command_authorized: "CmdAuthorizing i c m t \<in> set (cw_tasks w) \<Longrightarrow>
    connection_step e w (cmd_authorized e i c m t viewer (resumed (CmdAuthorizing i c m t) w))"
| command_returned: "CmdRunning i m \<in> set (cw_tasks w) \<Longrightarrow>
    connection_step e w (cmd_returned e i m outcome (resumed (CmdRunning i m) w))"
| closed: "i \<in> hs_id ` set (sw_sockets (cw_sockets w)) \<Longrightarrow>
    connection_step e w (handleClose e i (on_sockets (peer_closed i) w))"
| errored: "connection_step e w (hang_up e i w)"
| lease_alarm: "connection_step e w (on_sockets (expireAuthorizationLeases (ce_sockets e) (now_of e)) w)"
| bridge_lookup: "connection_step e w (on_sockets (\<lambda>s. fst (getSandboxSocket (ce_sockets e) s)) w)"
| bridge_detach: "connection_step e w (on_sockets (detachSandboxSocket (ce_sockets e)) w)"
| bridge_cleared: "connection_step e w (on_sockets clearSandboxSocket w)"
| notified: "connection_step e w (fan_out e w)"
| sandbox_row: "keeps_or_revokes (sw_sandbox (cw_sockets w)) t' \<Longrightarrow>
    connection_step e w (on_sockets (\<lambda>s. s\<lparr>sw_sandbox := t'\<rparr>) w)"
| participants: "connection_step e w (on_sockets (\<lambda>s. s\<lparr>sw_participants := ps\<rparr>) w)"
| session_row: "connection_step e w (w\<lparr>cw_session := st, cw_startupPending := b\<rparr>)"
| other_alarm: "connection_step e w (on_sockets (\<lambda>s. s\<lparr>sw_alarm := al\<rparr>) w)"
| restart: "connection_step e w (restarted keepsSockets w)"

text \<open>The session's connections from a fresh database on; \<open>h\<close> is the hash of a token.\<close>

definition opening_world :: "connection_world \<Rightarrow> bool" where
  "opening_world w \<longleftrightarrow> sw_sockets (cw_sockets w) = [] \<and> sw_clients (cw_sockets w) = []
     \<and> sw_mappings (cw_sockets w) = [] \<and> sw_sandboxWs (cw_sockets w) = None
     \<and> none_or (\<lambda>r. sb_active_socket_id r = None \<or> sb_active_socket_id r = Some []) (sandbox_of w)
     \<and> cw_tasks w = [] \<and> cw_log w = []"

inductive connected :: "(string \<Rightarrow> string) \<Rightarrow> connection_world \<Rightarrow> bool" for h where
  fresh: "opening_world w \<Longrightarrow> connected h w"
| step: "connected h w \<Longrightarrow> connection_step e w w' \<Longrightarrow> ce_hash e = h \<Longrightarrow> connected h w'"

inductive connection_steps :: "(string \<Rightarrow> string) \<Rightarrow> connection_world \<Rightarrow> connection_world \<Rightarrow> bool" for h where
  here: "connection_steps h w w"
| later: "connection_steps h w w1 \<Longrightarrow> connection_step e w1 w2 \<Longrightarrow> ce_hash e = h \<Longrightarrow> connection_steps h w w2"

end
