(* ===== verification/Connection_Invariants.thy ===== *)
theory Connection_Invariants
  imports Connection_Routing
begin

text \<open>
  What every step of a session's connections keeps: each socket carries the tags it was adopted with,
  each bridge identity belongs to one socket, each registered client and each stored mapping goes back
  to a grant in the log, and each suspended handler holds what its guards have established.
\<close>

section \<open>Tags\<close>

lemma classify_sandbox_tags [simp]:
  "classify_tags (sandbox_tags sid k) = SandboxConnection (if truthy sid then sid else None) (Some k)"
  by (cases sid) (auto simp: classify_tags_def sandbox_tags_def tag_value_def truthy_def)

lemma classify_client_tags: "classify_tags [''wsid:'' @ W] = ClientConnection (Some W)"
  by (simp add: classify_tags_def tag_value_def)

lemmas classify_wsid_tags [simp] = classify_client_tags [simplified append.simps]

lemma classify_no_tags: "classify_tags [] = ClientConnection None"
  by (simp add: classify_tags_def tag_value_def)

lemma client_ws_id_simps [simp]:
  "client_ws_id (SandboxConnection a b) = None"
  "client_ws_id (ClientConnection i) = (if truthy i then i else None)"
  "is_sandbox (SandboxConnection a b)" "\<not> is_sandbox (ClientConnection i)"
  by (simp_all add: client_ws_id_def is_sandbox_def)

lemma client_ws_id_nonempty: "client_ws_id c = Some W \<Longrightarrow> W \<noteq> [] \<and> \<not> is_sandbox c"
  by (cases c) (auto simp: truthy_def split: if_splits)

section \<open>Operations that only close and forget\<close>

definition calmer :: "host_socket \<Rightarrow> host_socket \<Rightarrow> bool" where
  "calmer x y \<longleftrightarrow> hs_id y = hs_id x \<and> hs_tags y = hs_tags x \<and> hs_listed y = hs_listed x
     \<and> (hs_open y \<longrightarrow> hs_open x)"

definition quiets :: "socket_world \<Rightarrow> socket_world \<Rightarrow> bool" where
  "quiets s s' \<longleftrightarrow> list_all2 calmer (sw_sockets s) (sw_sockets s')
     \<and> set (sw_clients s') \<subseteq> set (sw_clients s) \<and> set (sw_mappings s') \<subseteq> set (sw_mappings s)
     \<and> sw_participants s' = sw_participants s \<and> sw_sandbox s' = sw_sandbox s"

named_theorems quieting "operations that only close sockets and forget clients"

lemma calmer_refl [simp]: "calmer x x"
  by (simp add: calmer_def)

lemma calmer_trans: "calmer x y \<Longrightarrow> calmer y z \<Longrightarrow> calmer x z"
  by (simp add: calmer_def)

lemma quiets_refl [simp]: "quiets s s"
  by (simp add: quiets_def list_all2_refl)

lemma quiets_trans: "quiets s s' \<Longrightarrow> quiets s' s'' \<Longrightarrow> quiets s s''"
  unfolding quiets_def
  by (intro conjI) (auto intro: list_all2_trans [of calmer calmer calmer, OF calmer_trans])

lemma quiets_fields [simp]:
  "quiets s (s'\<lparr>sw_sandboxWs := p\<rparr>) = quiets s s'"
  "quiets s (s'\<lparr>sw_synchronizing := y\<rparr>) = quiets s s'"
  "quiets s (s'\<lparr>sw_alarm := l\<rparr>) = quiets s s'"
  "quiets (s\<lparr>sw_sandboxWs := p\<rparr>) s' = quiets s s'"
  "quiets (s\<lparr>sw_synchronizing := y\<rparr>) s' = quiets s s'"
  "quiets (s\<lparr>sw_alarm := l\<rparr>) s' = quiets s s'"
  by (simp_all add: quiets_def)

lemma list_all2_update: "(\<And>x. r x (f x)) \<Longrightarrow> (\<And>x. r x x) \<Longrightarrow> list_all2 r xs (sql_update p f xs)"
  by (simp add: sql_update_def list_all2_conv_all_nth)

lemma quiets_close [quieting]: "quiets s (close_socket e i s)"
  by (auto simp: quiets_def close_socket_def calmer_def intro: list_all2_update)

lemma quiets_close_each [quieting]: "quiets s (close_each e is s)"
  by (induction "is" arbitrary: s) (auto intro: quiets_trans quiets_close)

lemma quiets_teardown [quieting]: "quiets s (fst (teardownClient i parsed s))"
  by (auto simp: quiets_def teardownClient_def list_all2_refl deleteWsClientMapping_def split: option.splits)

lemma quiets_remove [quieting]: "quiets s (fst (removeClient i s))"
  by (simp add: removeClient_def quiets_teardown)

lemma quiets_reject [quieting]: "quiets s (rejectExpiredAuthorization e i parsed s)"
  unfolding rejectExpiredAuthorization_def by (rule quiets_trans [OF quiets_teardown quiets_close])

lemma quiets_authenticated [quieting]: "quiets s (fst (isAuthenticated e i parsed s))"
  by (auto simp: isAuthenticated_def quiets_reject split: option.splits)

lemma quiets_client_authenticated [quieting]: "quiets s (fst (isClientAuthenticated e i s))"
  by (simp add: isClientAuthenticated_def quiets_authenticated)

lemma quiets_lookup [quieting]: "quiets s (fst (lookupClient e i s))"
  by (auto simp: lookupClient_def quiets_reject split: option.splits)

lemma quiets_visit [quieting]: "quiets s (fst (visit_clients e mode xs s))"
proof (induction xs arbitrary: s)
  case (Cons x xs)
  have "quiets s (fst (visit_clients e mode xs (fst (isAuthenticated e i c s))))" for i c
    by (rule quiets_trans [OF quiets_authenticated Cons.IH])
  then show ?case
    using Cons.IH by (auto simp: Let_def case_prod_unfold)
qed simp

lemma quiets_broadcast [quieting]: "quiets s (fst (broadcast e s))"
  by (simp add: broadcast_def forEachClientSocket_def case_prod_unfold Let_def quiets_visit)

lemma quiets_among [quieting]: "quiets s (fst (authenticated_among e cs s))"
proof (induction cs arbitrary: s)
  case (Cons x cs)
  have "quiets s (fst (authenticated_among e cs (rejectExpiredAuthorization e i c s)))" for i c
    by (rule quiets_trans [OF quiets_reject Cons.IH])
  then show ?case
    using Cons.IH by (cases x) (auto simp: Let_def case_prod_unfold)
qed simp

lemma quiets_clients [quieting]: "quiets s (fst (getAuthenticatedClients e s))"
  by (simp add: getAuthenticatedClients_def quiets_among)

lemma quiets_expire_sockets [quieting]: "quiets s (expire_sockets e now xs s)"
proof (induction xs arbitrary: s)
  case (Cons x xs)
  have "quiets s (expire_sockets e now xs (rejectExpiredAuthorization e i c s))" for i c
    by (rule quiets_trans [OF quiets_reject Cons.IH])
  then show ?case
    using Cons.IH by (auto simp: Let_def)
qed simp

lemma quiets_expire [quieting]: "quiets s (expireAuthorizationLeases e now s)"
proof -
  have "quiets s1 (s1\<lparr>sw_mappings := deleteExpiredMappings now (sw_mappings s1)\<rparr>)" for s1
    by (auto simp: quiets_def deleteExpiredMappings_def list_all2_refl)
  with quiets_trans [OF quiets_expire_sockets this] show ?thesis
    by (auto simp: expireAuthorizationLeases_def Let_def split: option.splits)
qed

lemma quiets_recover [quieting]: "quiets s (fst (recover_bridge e row xs s))"
proof (induction xs arbitrary: s)
  case (Cons x xs)
  have "quiets s (fst (recover_bridge e row xs (close_socket e i s)))" for i
    by (rule quiets_trans [OF quiets_close Cons.IH])
  then show ?case
    using Cons.IH by (auto split: connection.splits)
qed simp

lemma quiets_for_row [quieting]: "quiets s (fst (getSandboxSocketForRow e row s))"
proof -
  have a: "quiets s (close_each e is (s\<lparr>sw_sandboxWs := None\<rparr>))" for "is"
    using quiets_close_each [of "s\<lparr>sw_sandboxWs := None\<rparr>" e "is"] by simp
  have b: "quiets s (fst (recover_bridge e row xs ((close_socket e p s)\<lparr>sw_sandboxWs := None\<rparr>)))" for p xs
    using quiets_trans [OF quiets_close [of s e p],
        of "fst (recover_bridge e row xs ((close_socket e p s)\<lparr>sw_sandboxWs := None\<rparr>))"]
      quiets_recover [of "(close_socket e p s)\<lparr>sw_sandboxWs := None\<rparr>" e row xs] by simp
  show ?thesis
    by (auto simp: getSandboxSocketForRow_def Let_def a b quiets_recover split: option.splits)
qed

lemma quiets_get [quieting]: "quiets s (fst (getSandboxSocket e s))"
  by (simp add: getSandboxSocket_def quiets_for_row)

lemma quiets_target [quieting]: "quiets s (fst (getSandboxCommandTarget e s))"
  using quiets_for_row by (simp add: getSandboxCommandTarget_def case_prod_unfold)

lemma quiets_timed_out [quieting]: "quiets s (auth_timed_out e i wsId s)"
  by (simp add: auth_timed_out_def quiets_close)

lemma quiets_clear [quieting]: "quiets s (clearSandboxSocket s)"
  by (simp add: clearSandboxSocket_def)

lemma quiets_clear_match [quieting]: "quiets s (fst (clearSandboxSocketIfMatch i s))"
  by (simp add: clearSandboxSocketIfMatch_def Let_def)

lemma quiets_synchronizing [quieting]: "quiets s (setClientSynchronizing i b s)"
  by (simp add: setClientSynchronizing_def)

section \<open>Steps that only quieten\<close>

text \<open>Events that promise nothing: what is sent back, audits, pumps.\<close>

fun plain :: "session_event \<Rightarrow> bool" where
  "plain (Attached t i k a b) = False"
| "plain (Granted t i W info p r b) = False"
| "plain (Ran t0 t i c m r) = False"
| "plain (BridgeFrame t i) = False"
| "plain x = True"

definition hushes :: "connection_world \<Rightarrow> connection_world \<Rightarrow> bool" where
  "hushes w w' \<longleftrightarrow> quiets (cw_sockets w) (cw_sockets w') \<and> set (cw_tasks w') \<subseteq> set (cw_tasks w)
     \<and> (\<exists>xs. cw_log w' = cw_log w @ xs \<and> list_all plain xs)"

lemma hushes_refl [simp]: "hushes w w"
  by (simp add: hushes_def)

lemma hushes_trans: "hushes w w1 \<Longrightarrow> hushes w1 w2 \<Longrightarrow> hushes w w2"
  by (fastforce simp: hushes_def intro: quiets_trans)

lemma hushes_sockets [quieting]: "quiets (cw_sockets w) s \<Longrightarrow> hushes w (w\<lparr>cw_sockets := s\<rparr>)"
  by (simp add: hushes_def)

lemma hushes_on_sockets [quieting]: "quiets (cw_sockets w) (f (cw_sockets w)) \<Longrightarrow> hushes w (on_sockets f w)"
  by (simp add: hushes_def on_sockets_def)

lemma hushes_hang_up [quieting]: "hushes w (hang_up e i w)"
  by (simp add: hang_up_def quieting)

lemma hushes_log [quieting]: "plain x \<Longrightarrow> hushes w (log_event x w)"
  by (simp add: hushes_def log_event_def)

lemma hushes_say [quieting]: "hushes w (say e i r w)"
  by (simp add: say_def hushes_log)

lemma hushes_reject [quieting]: "hushes w (reject_with ins g w)"
  by (simp add: reject_with_def hushes_log)

lemma hushes_fan_out [quieting]: "hushes w (fan_out e w)"
  by (simp add: fan_out_def quieting)

lemma hushes_presence_list [quieting]: "hushes w (fst (getPresenceList e w))"
  by (simp add: getPresenceList_def case_prod_unfold Let_def quieting)

lemma hushes_broadcast_presence [quieting]: "hushes w (broadcastPresence e w)"
  unfolding broadcastPresence_def by (rule hushes_trans [OF hushes_presence_list hushes_fan_out])

lemma hushes_send_presence [quieting]: "hushes w (sendPresence e i w)"
  unfolding sendPresence_def case_prod_unfold Let_def
  by (rule hushes_trans [OF hushes_presence_list hushes_say])

lemma hushes_shadow [quieting]: "hushes w (observeShadowReadDenial i r w)"
  by (auto simp: observeShadowReadDenial_def hushes_def log_event_def split: access_decision.splits)

lemma hushes_sub_over [quieting]: "hushes w (sub_over i w)"
  by (simp add: sub_over_def quieting)

lemma hushes_sub_refused [quieting]: "hushes w (sub_refused e i w)"
  unfolding sub_refused_def by (rule hushes_trans [OF hushes_hang_up hushes_sub_over])

lemma hushes_pump [quieting]: "hushes w (pump_if_ready e w)"
proof -
  have "hushes w (w\<lparr>cw_sockets := fst (getSandboxCommandTarget (ce_sockets e) (cw_sockets w))\<rparr>)"
    by (simp add: quieting)
  from this hushes_trans [OF this hushes_log [of Pumped]] show ?thesis
    by (auto simp: pump_if_ready_def case_prod_unfold Let_def split: command_target.splits)
qed

lemma hushes_resumed [quieting]: "hushes w (resumed t w)"
  by (auto simp: resumed_def hushes_def dest: subsetD [OF set_remove1_subset])

lemma hushes_has_participant [quieting]: "hushes w (fst (hasParticipant e p w))"
  by (simp add: hasParticipant_def case_prod_unfold Let_def quieting)

lemma hushes_returned [quieting]: "hushes w (cmd_returned e i m outcome w)"
  by (auto simp: cmd_returned_def quieting split: command_outcome.splits client_message.splits)

lemma hushes_unauthenticated [quieting]: "hushes w (unauthenticated e i m w)"
  by (auto simp: unauthenticated_def quieting split: client_message.splits)

lemma hushes_authorize [quieting]: "hushes w (fst (authorizeClientCommand e i action viewer w))"
proof -
  have "hushes w (hang_up e i (on_sockets (\<lambda>s. fst (removeClient i s)) w))"
    by (rule hushes_trans [OF hushes_on_sockets hushes_hang_up]) (simp add: quieting)
  then show ?thesis
    by (auto simp: authorizeClientCommand_def Let_def hushes_shadow split: resolved_viewer.splits)
qed

lemma hushes_left [quieting]: "hushes w (client_left e left w)"
proof (cases left)
  case (Some c)
  let ?h = "hasParticipant e (ci_participantId c) w"
  have p: "hushes w (fst ?h)"
    by (rule hushes_has_participant)
  show ?thesis
    using hushes_trans [OF p hushes_broadcast_presence]
      hushes_trans [OF hushes_trans [OF p hushes_fan_out] hushes_log [of "PresenceLeft (ci_userId c)"]]
    by (cases ?h; cases "snd ?h") (auto simp: client_left_def Some)
qed (simp add: client_left_def)

lemma hushes_lost [quieting]: "hushes w (bridge_lost e w)"
  by (auto simp: bridge_lost_def quieting)

lemma hushes_close [quieting]: "hushes w (handleClose e i w)"
proof -
  have a: "hushes w (w\<lparr>cw_sockets := fst (clearSandboxSocketIfMatch i (cw_sockets w))\<rparr>)"
    "hushes w (w\<lparr>cw_sockets := fst (removeClient i (cw_sockets w))\<rparr>)"
    by (simp_all add: quieting)
  show ?thesis
    unfolding handleClose_def
    by (rule hushes_trans [OF _ hushes_hang_up])
      (use a hushes_trans [OF a(1) hushes_lost] hushes_trans [OF a(2) hushes_left] in
        \<open>auto simp: case_prod_unfold Let_def\<close>)
qed

section \<open>The invariant\<close>

definition tags_sound :: "session_event list \<Rightarrow> host_socket \<Rightarrow> bool" where
  "tags_sound l x \<longleftrightarrow>
     (\<exists>sid k. hs_tags x = sandbox_tags sid k \<and> (hs_id x, k) \<in> attached_ids l)
     \<or> (\<exists>W. W \<noteq> [] \<and> hs_tags x = [''wsid:'' @ W])"

definition ws_id_of :: "host_socket \<Rightarrow> string option" where
  "ws_id_of x = client_ws_id (classify_tags (hs_tags x))"

definition sockets_sound :: "session_event list \<Rightarrow> socket_world \<Rightarrow> bool" where
  "sockets_sound l s \<longleftrightarrow> distinct (map hs_id (sw_sockets s))
     \<and> (\<forall>x \<in> set (sw_sockets s). tags_sound l x \<and> (hs_open x \<longrightarrow> hs_listed x))
     \<and> (\<forall>x \<in> set (sw_sockets s). \<forall>y \<in> set (sw_sockets s).
          ws_id_of x \<noteq> None \<and> ws_id_of x = ws_id_of y \<longrightarrow> hs_id x = hs_id y)"

definition bridges_sound :: "session_event list \<Rightarrow> socket_world \<Rightarrow> bool" where
  "bridges_sound l s \<longleftrightarrow>
     none_or (\<lambda>r. none_or (\<lambda>k. k = [] \<or> k \<in> snd ` attached_ids l) (sb_active_socket_id r)) (getSandbox (sw_sandbox s))
     \<and> (\<forall>i j k k'. (i, k) \<in> attached_ids l \<and> (j, k') \<in> attached_ids l \<longrightarrow> (i = j \<longleftrightarrow> k = k'))
     \<and> (\<forall>i k. (i, k) \<in> attached_ids l \<longrightarrow> k \<noteq> [] \<and> i \<in> hs_id ` set (sw_sockets s))"

definition lease_of :: "session_event list \<Rightarrow> string \<Rightarrow> string \<Rightarrow> string \<Rightarrow> ms \<Rightarrow> bool" where
  "lease_of l i W pid x \<longleftrightarrow>
     (\<exists>t info p r b. Granted t i W info p r b \<in> set l
        \<and> ci_participantId info = pid \<and> ci_authorizationExpiresAt info = x)"

definition client_sound :: "session_event list \<Rightarrow> string \<Rightarrow> client_info \<Rightarrow> bool" where
  "client_sound l i c \<longleftrightarrow> (\<exists>W. lease_of l i W (ci_participantId c) (ci_authorizationExpiresAt c))"

definition mapping_sound :: "session_event list \<Rightarrow> ws_mapping \<Rightarrow> bool" where
  "mapping_sound l m \<longleftrightarrow>
     (\<exists>i. lease_of l i (wm_wsId m) (wm_participantId m) (wm_authorizationExpiresAt m))"

definition registry_sound :: "session_event list \<Rightarrow> socket_world \<Rightarrow> bool" where
  "registry_sound l s \<longleftrightarrow> (\<forall>(i, c) \<in> set (sw_clients s). client_sound l i c)
     \<and> (\<forall>m \<in> set (sw_mappings s). mapping_sound l m)
     \<and> (\<forall>t i W info p r b. Granted t i W info p r b \<in> set l \<longrightarrow>
          (\<exists>x \<in> set (sw_sockets s). hs_id x = i \<and> ws_id_of x = Some W))"

text \<open>What a subscription has established by the time it holds a lease.\<close>

definition lease_sound ::
  "(string \<Rightarrow> string) \<Rightarrow> session_event list \<Rightarrow> participant_row \<Rightarrow> viewer_resolution \<Rightarrow> ms \<Rightarrow> bool" where
  "lease_sound h l p r x \<longleftrightarrow> (\<exists>token. pt_ws_auth_token p = Some (h token)) \<and> truthy (pt_canonical_user_id p)
     \<and> allowed (decide_socket r ActRead) \<and> token_fresh (x - WS_AUTHORIZATION_LEASE_MS) p
     \<and> (decide_socket r ActRead = Permit (Some PrivateBreakGlass) \<longrightarrow>
          ReadAudited (the (pt_canonical_user_id p)) (ar_id (vr_row r)) \<in> set l)"

definition credentials_sound :: "(string \<Rightarrow> string) \<Rightarrow> sandbox_admission \<Rightarrow> bool" where
  "credentials_sound h a \<longleftrightarrow> (\<exists>token r. admission_of r = a \<and> isValidSandboxToken h token (Some r))"

fun task_sound :: "(string \<Rightarrow> string) \<Rightarrow> session_event list \<Rightarrow> connection_task \<Rightarrow> bool" where
  "task_sound h l (UpgradeAccepted a) = credentials_sound h a"
| "task_sound h l (AttachScheduling i a t) = credentials_sound h a"
| "task_sound h l (SubResolving i p cid) =
     ((\<exists>token. pt_ws_auth_token p = Some (h token)) \<and> truthy (pt_canonical_user_id p))"
| "task_sound h l (SubAuditing i p cid r x) =
     ((\<exists>token. pt_ws_auth_token p = Some (h token)) \<and> truthy (pt_canonical_user_id p)
      \<and> allowed (decide_socket r ActRead) \<and> token_fresh (x - WS_AUTHORIZATION_LEASE_MS) p)"
| "task_sound h l (SubEnriching i p cid r x) = lease_sound h l p r x"
| "task_sound h l (SubActivating i p info r) =
     (lease_sound h l p r (ci_authorizationExpiresAt info) \<and> ci_participantId info = pt_id p
      \<and> Some (ci_userId info) = pt_canonical_user_id p)"
| "task_sound h l (CmdAuthorizing i c m t) = (client_sound l i c \<and> t < ci_authorizationExpiresAt c)"
| "task_sound h l t = True"

text \<open>What an event says about the events before it.\<close>

fun event_sound :: "(string \<Rightarrow> string) \<Rightarrow> session_event list \<Rightarrow> session_event \<Rightarrow> bool" where
  "event_sound h l (Granted t i W info p r b) =
     (lease_sound h l p r (ci_authorizationExpiresAt info) \<and> t < ci_authorizationExpiresAt info
      \<and> ci_participantId info = pt_id p \<and> Some (ci_userId info) = pt_canonical_user_id p
      \<and> b = shows_sandbox_access r)"
| "event_sound h l (Ran t0 t i c m r) =
     (client_sound l i c \<and> t0 < ci_authorizationExpiresAt c \<and> allowed (decide_socket r ActRead)
      \<and> some_holds (\<lambda>a. allowed (decide_socket r a)) (required_action m))"
| "event_sound h l x = True"

definition log_sound :: "(string \<Rightarrow> string) \<Rightarrow> session_event list \<Rightarrow> bool" where
  "log_sound h l \<longleftrightarrow> (\<forall>n < length l. event_sound h (take n l) (l ! n))"

definition world_sound :: "(string \<Rightarrow> string) \<Rightarrow> connection_world \<Rightarrow> bool" where
  "world_sound h w \<longleftrightarrow> sockets_sound (cw_log w) (cw_sockets w) \<and> bridges_sound (cw_log w) (cw_sockets w)
     \<and> registry_sound (cw_log w) (cw_sockets w)
     \<and> (\<forall>t \<in> set (cw_tasks w). task_sound h (cw_log w) t) \<and> log_sound h (cw_log w)"

section \<open>Longer logs\<close>

lemma log_sound_snoc [simp]: "log_sound h (l @ [x]) \<longleftrightarrow> log_sound h l \<and> event_sound h l x"
  by (auto simp: log_sound_def nth_append less_Suc_eq)

lemma log_sound_plain: "log_sound h l \<Longrightarrow> list_all plain xs \<Longrightarrow> log_sound h (l @ xs)"
proof (induction xs rule: rev_induct)
  case (snoc x xs)
  then have "event_sound h (l @ xs) x"
    by (cases x) auto
  moreover have "log_sound h (l @ xs)"
    using snoc by simp
  ultimately show ?case
    using log_sound_snoc [of h "l @ xs" x] by simp
qed simp

lemma attached_ids_append [simp]: "attached_ids (l @ xs) = attached_ids l \<union> attached_ids xs"
  by (auto simp: attached_ids_def)

lemma attached_ids_plain: "list_all plain xs \<Longrightarrow> attached_ids xs = {}"
  by (auto simp: attached_ids_def list_all_iff)

lemma attached_ids_single [simp]:
  "attached_ids [Attached t i k a b] = {(i, k)}" "attached_ids [Granted t i W info p r b] = {}"
  "attached_ids [Ran t0 t i c m r] = {}" "attached_ids [BridgeFrame t i] = {}" "attached_ids [] = {}"
  by (auto simp: attached_ids_def)

lemma tags_sound_append: "tags_sound l x \<Longrightarrow> tags_sound (l @ xs) x"
  by (auto simp: tags_sound_def)

lemma lease_ofI:
  "Granted t i W info p r b \<in> set l \<Longrightarrow>
     lease_of l i W (ci_participantId info) (ci_authorizationExpiresAt info)"
  unfolding lease_of_def by blast

lemma lease_of_append: "lease_of l i W pid x \<Longrightarrow> lease_of (l @ xs) i W pid x"
  by (force simp: lease_of_def)

lemma client_sound_append: "client_sound l i c \<Longrightarrow> client_sound (l @ xs) i c"
  by (auto simp: client_sound_def intro: lease_of_append)

lemma mapping_sound_append: "mapping_sound l m \<Longrightarrow> mapping_sound (l @ xs) m"
  by (auto simp: mapping_sound_def intro: lease_of_append)

lemma lease_sound_append: "lease_sound h l p r x \<Longrightarrow> lease_sound h (l @ xs) p r x"
  by (auto simp: lease_sound_def)

lemma task_sound_append: "task_sound h l t \<Longrightarrow> task_sound h (l @ xs) t"
  by (cases t) (auto intro: lease_sound_append client_sound_append)

lemma log_sound_at: "log_sound h (xs @ y # ys) \<Longrightarrow> event_sound h xs y"
  unfolding log_sound_def by (drule spec [of _ "length xs"]) (simp add: nth_append)

section \<open>Quiet steps keep it\<close>

lemma calmer_ids: "list_all2 calmer xs ys \<Longrightarrow> map hs_id ys = map hs_id xs"
  by (induction rule: list_all2_induct) (auto simp: calmer_def)

lemma calmer_memberD: "list_all2 calmer xs ys \<Longrightarrow> y \<in> set ys \<Longrightarrow> \<exists>x \<in> set xs. calmer x y"
  by (induction rule: list_all2_induct) auto

lemma calmer_memberI: "list_all2 calmer xs ys \<Longrightarrow> x \<in> set xs \<Longrightarrow> \<exists>y \<in> set ys. calmer x y"
  by (induction rule: list_all2_induct) auto

lemma sockets_ws_id:
  "sockets_sound l s \<Longrightarrow> x \<in> set (sw_sockets s) \<Longrightarrow> y \<in> set (sw_sockets s) \<Longrightarrow> ws_id_of x \<noteq> None \<Longrightarrow>
     ws_id_of x = ws_id_of y \<Longrightarrow> hs_id x = hs_id y"
  unfolding sockets_sound_def by blast

lemma sockets_sound_quiets:
  assumes "sockets_sound l s" and q: "quiets s s'"
  shows "sockets_sound (l @ xs) s'"
proof -
  have c: "list_all2 calmer (sw_sockets s) (sw_sockets s')"
    using q by (simp add: quiets_def)
  have m: "\<exists>x \<in> set (sw_sockets s). calmer x y" if "y \<in> set (sw_sockets s')" for y
    by (rule calmer_memberD [OF c that])
  have e: "tags_sound (l @ xs) y \<and> (hs_open y \<longrightarrow> hs_listed y)" if y: "y \<in> set (sw_sockets s')" for y
    using m [OF y] assms(1) tags_sound_append [of l _ xs]
    by (force simp: sockets_sound_def calmer_def tags_sound_def)
  have f: "hs_id x = hs_id y"
    if xy: "x \<in> set (sw_sockets s')" "y \<in> set (sw_sockets s')" "ws_id_of x \<noteq> None" "ws_id_of x = ws_id_of y" for x y
  proof -
    obtain x0 y0 where "x0 \<in> set (sw_sockets s)" "calmer x0 x" "y0 \<in> set (sw_sockets s)" "calmer y0 y"
      using m [OF xy(1)] m [OF xy(2)] by blast
    then show ?thesis
      using sockets_ws_id [OF assms(1), of x0 y0] xy by (simp add: calmer_def ws_id_of_def)
  qed
  show ?thesis
    unfolding sockets_sound_def
  proof (intro conjI ballI impI)
    show "distinct (map hs_id (sw_sockets s'))"
      using assms(1) calmer_ids [OF c] by (simp add: sockets_sound_def)
  qed (use e f in blast)+
qed

lemma quiets_ids: "quiets s s' \<Longrightarrow> hs_id ` set (sw_sockets s') = hs_id ` set (sw_sockets s)"
  by (metis calmer_ids list.set_map quiets_def)

lemma bridges_sound_quiets:
  "bridges_sound l s \<Longrightarrow> quiets s s' \<Longrightarrow> list_all plain xs \<Longrightarrow> bridges_sound (l @ xs) s'"
  using quiets_ids [of s s'] by (auto simp: bridges_sound_def attached_ids_plain quiets_def)

lemma registry_socket:
  "registry_sound l s \<Longrightarrow> Granted t i W info p r b \<in> set l \<Longrightarrow>
     \<exists>x \<in> set (sw_sockets s). hs_id x = i \<and> ws_id_of x = Some W"
  unfolding registry_sound_def by blast

lemma registry_client: "registry_sound l s \<Longrightarrow> (i, c) \<in> set (sw_clients s) \<Longrightarrow> client_sound l i c"
  unfolding registry_sound_def by blast

lemma registry_mapping: "registry_sound l s \<Longrightarrow> m \<in> set (sw_mappings s) \<Longrightarrow> mapping_sound l m"
  unfolding registry_sound_def by blast

lemma grant_socket:
  "registry_sound l s \<Longrightarrow> lease_of l i W pid x \<Longrightarrow>
     \<exists>y \<in> set (sw_sockets s). hs_id y = i \<and> ws_id_of y = Some W"
  unfolding lease_of_def by (blast dest: registry_socket)

lemma registryI:
  assumes "\<And>i c. (i, c) \<in> set (sw_clients s) \<Longrightarrow> client_sound l i c"
    and "\<And>m. m \<in> set (sw_mappings s) \<Longrightarrow> mapping_sound l m"
    and "\<And>t i W info p r b. Granted t i W info p r b \<in> set l \<Longrightarrow>
       \<exists>x \<in> set (sw_sockets s). hs_id x = i \<and> ws_id_of x = Some W"
  shows "registry_sound l s"
  unfolding registry_sound_def using assms by blast

lemma registry_sound_quiets:
  assumes r: "registry_sound l s" and q: "quiets s s'" and p: "list_all plain xs"
  shows "registry_sound (l @ xs) s'"
proof -
  have c: "list_all2 calmer (sw_sockets s) (sw_sockets s')" and k: "set (sw_clients s') \<subseteq> set (sw_clients s)"
    and m: "set (sw_mappings s') \<subseteq> set (sw_mappings s)"
    using q by (auto simp: quiets_def)
  have g: "\<exists>x \<in> set (sw_sockets s'). hs_id x = i \<and> ws_id_of x = Some W"
    if "Granted t i W info pt rs b \<in> set (l @ xs)" for t i W info pt rs b
  proof -
    have "Granted t i W info pt rs b \<in> set l"
      using that p by (auto simp: list_all_iff)
    then obtain x where "x \<in> set (sw_sockets s)" "hs_id x = i" "ws_id_of x = Some W"
      using registry_socket [OF r] by blast
    then show ?thesis
      using calmer_memberI [OF c, of x] by (auto simp: calmer_def ws_id_of_def)
  qed
  show ?thesis
  proof (rule registryI)
    show "client_sound (l @ xs) i cl" if "(i, cl) \<in> set (sw_clients s')" for i cl
      using that k registry_client [OF r] by (blast intro: client_sound_append)
    show "mapping_sound (l @ xs) x" if "x \<in> set (sw_mappings s')" for x
      using that m registry_mapping [OF r] by (blast intro: mapping_sound_append)
  qed (rule g)
qed

lemma world_sound_hushes:
  assumes "world_sound h w" and q: "hushes w w'"
  shows "world_sound h w'"
proof -
  obtain xs where l: "cw_log w' = cw_log w @ xs" "list_all plain xs"
    and s: "quiets (cw_sockets w) (cw_sockets w')" and t: "set (cw_tasks w') \<subseteq> set (cw_tasks w)"
    using q by (auto simp: hushes_def)
  show ?thesis
    using assms(1) s t l(2) unfolding world_sound_def l(1)
    by (auto intro: sockets_sound_quiets bridges_sound_quiets registry_sound_quiets log_sound_plain
        task_sound_append)
qed

section \<open>The row's bridge\<close>

definition named :: "sandbox_table \<Rightarrow> (string option \<times> string option) option" where
  "named t = map_option (\<lambda>r. (sb_modal_sandbox_id r, sb_active_socket_id r)) (getSandbox t)"

lemma named_update_first:
  "(\<And>r. sb_modal_sandbox_id (f r) = sb_modal_sandbox_id r \<and> sb_active_socket_id (f r) = sb_active_socket_id r) \<Longrightarrow>
     named (fst (update_first p f t)) = named t"
  by (cases t) (simp_all add: named_def)

lemma named_writes [simp]:
  "named (updateSandboxHeartbeat ts t) = named t"
  "named (setLastSpawnError err when t) = named t"
  "named (fst (transitionSandboxStatus g a b t)) = named t"
  "named (onSandboxConnected t) = named t"
  by (simp_all add: updateSandboxHeartbeat_def setLastSpawnError_def transitionSandboxStatus_def
      set_first_def onSandboxConnected_def named_update_first)

lemma named_attached [simp]: "named (fst (onSandboxSocketAttached g t)) = named t"
proof -
  have "named t1 = named t" if "transitionSandboxStatus g a b t = (t1, ok)" for a b t1 ok t
    using named_writes(3) [of g a b t] that by simp
  then show ?thesis
    by (auto simp: onSandboxSocketAttached_def split: prod.splits option.splits)
qed

lemma named_set [simp]: "named (setActiveSocketId k t) = map_option (\<lambda>(m, a). (m, Some k)) (named t)"
  by (cases t) (simp_all add: setActiveSocketId_def set_first_def named_def)

lemma named_revoke [simp]: "named (revokeActiveSocketId t) = map_option (\<lambda>(m, a). (m, Some [])) (named t)"
  by (cases t) (simp_all add: revokeActiveSocketId_def set_first_def named_def)

lemma isAuthoritative_named:
  "isAuthoritative c row \<longleftrightarrow>
     (case (c, map_option (\<lambda>r. (sb_modal_sandbox_id r, sb_active_socket_id r)) row) of
        (SandboxConnection sid k, Some (m, a)) \<Rightarrow> (truthy m \<longrightarrow> sid = m) \<and> k = a
      | _ \<Rightarrow> False)"
  by (auto simp: isAuthoritative_def split: connection.splits option.splits)

lemma active_named:
  "isActiveSandboxSocket i s \<longleftrightarrow>
     (case (classify i s, named (sw_sandbox s)) of
        (SandboxConnection sid k, Some (m, a)) \<Rightarrow> (truthy m \<longrightarrow> sid = m) \<and> k = a
      | _ \<Rightarrow> False)"
  by (simp add: isActiveSandboxSocket_def isAuthoritative_named named_def)

definition named_ok :: "session_event list \<Rightarrow> (string option \<times> string option) option \<Rightarrow> bool" where
  "named_ok l n \<longleftrightarrow> none_or (\<lambda>(m, a). none_or (\<lambda>k. k = [] \<or> k \<in> snd ` attached_ids l) a) n"

lemma bridges_sound_named:
  "bridges_sound l s \<longleftrightarrow> named_ok l (named (sw_sandbox s))
     \<and> (\<forall>i j k k'. (i, k) \<in> attached_ids l \<and> (j, k') \<in> attached_ids l \<longrightarrow> (i = j \<longleftrightarrow> k = k'))
     \<and> (\<forall>i k. (i, k) \<in> attached_ids l \<longrightarrow> k \<noteq> [] \<and> i \<in> hs_id ` set (sw_sockets s))"
  by (cases "getSandbox (sw_sandbox s)") (auto simp: bridges_sound_def named_ok_def named_def)

lemma bridges_injective:
  "bridges_sound l s \<Longrightarrow> (i, k) \<in> attached_ids l \<Longrightarrow> (j, k') \<in> attached_ids l \<Longrightarrow> i = j \<longleftrightarrow> k = k'"
  unfolding bridges_sound_def by blast

lemma bridges_known:
  "bridges_sound l s \<Longrightarrow> (i, k) \<in> attached_ids l \<Longrightarrow> k \<noteq> [] \<and> i \<in> hs_id ` set (sw_sockets s)"
  unfolding bridges_sound_def by blast

section \<open>The other writes\<close>

lemma sockets_sound_append: "sockets_sound l s \<Longrightarrow> sockets_sound (l @ xs) s"
  by (rule sockets_sound_quiets [OF _ quiets_refl])

fun ungranted :: "session_event \<Rightarrow> bool" where
  "ungranted (Granted t i W info p r b) = False"
| "ungranted x = True"

lemma registry_sound_log:
  assumes "registry_sound l s" and "ungranted x"
  shows "registry_sound (l @ [x]) s"
proof (rule registryI)
  show "\<exists>y \<in> set (sw_sockets s). hs_id y = i \<and> ws_id_of y = Some W"
    if "Granted t i W info p r b \<in> set (l @ [x])" for t i W info p r b
    using that assms(2) registry_socket [OF assms(1), of t i W info p r b] by auto
qed (use registry_client [OF assms(1)] registry_mapping [OF assms(1)] in
    \<open>blast intro: client_sound_append mapping_sound_append\<close>)+

lemma world_sound_log:
  assumes "world_sound h w" and "event_sound h (cw_log w) x" and "ungranted x" and "attached_ids [x] = {}"
  shows "world_sound h (log_event x w)"
  using assms
  by (auto simp: world_sound_def log_event_def bridges_sound_named named_ok_def
      intro: sockets_sound_append registry_sound_log task_sound_append)

lemma world_sound_suspend:
  "world_sound h w \<Longrightarrow> task_sound h (cw_log w) t \<Longrightarrow> world_sound h (await_task t w)"
  by (auto simp: world_sound_def await_task_def)

lemma sockets_soundI:
  assumes "distinct (map hs_id (sw_sockets s))"
    and "\<And>x. x \<in> set (sw_sockets s) \<Longrightarrow> tags_sound l x \<and> (hs_open x \<longrightarrow> hs_listed x)"
    and "\<And>x y. x \<in> set (sw_sockets s) \<Longrightarrow> y \<in> set (sw_sockets s) \<Longrightarrow> ws_id_of x \<noteq> None \<Longrightarrow>
       ws_id_of x = ws_id_of y \<Longrightarrow> hs_id x = hs_id y"
  shows "sockets_sound l s"
  unfolding sockets_sound_def using assms by blast

lemma sockets_soundD:
  assumes "sockets_sound l s"
  shows "distinct (map hs_id (sw_sockets s))"
    and "x \<in> set (sw_sockets s) \<Longrightarrow> tags_sound l x"
    and "x \<in> set (sw_sockets s) \<Longrightarrow> hs_open x \<Longrightarrow> hs_listed x"
  using assms unfolding sockets_sound_def by blast+

lemma sockets_sound_adopt:
  assumes s: "sockets_sound l s" and i: "i \<notin> hs_id ` set (sw_sockets s)"
    and t: "tags_sound l \<lparr>hs_id = i, hs_tags = tags, hs_open = True, hs_listed = True\<rparr>"
    and f: "\<And>x W. x \<in> set (sw_sockets s) \<Longrightarrow> client_ws_id (classify_tags tags) = Some W \<Longrightarrow> ws_id_of x \<noteq> Some W"
  shows "sockets_sound l (adopt i tags s)"
proof (rule sockets_soundI)
  show "distinct (map hs_id (sw_sockets (adopt i tags s)))"
    using sockets_soundD(1) [OF s] i by (auto simp: adopt_def)
  show "tags_sound l x \<and> (hs_open x \<longrightarrow> hs_listed x)" if "x \<in> set (sw_sockets (adopt i tags s))" for x
    using that t sockets_soundD(2, 3) [OF s] by (auto simp: adopt_def)
  show "hs_id x = hs_id y"
    if "x \<in> set (sw_sockets (adopt i tags s))" "y \<in> set (sw_sockets (adopt i tags s))"
      "ws_id_of x \<noteq> None" "ws_id_of x = ws_id_of y" for x y
    using that sockets_ws_id [OF s] f by (auto simp: adopt_def ws_id_of_def)
qed

lemma world_sound_sockets:
  assumes "world_sound h w" and "sockets_sound (cw_log w) s" and "bridges_sound (cw_log w) s"
    and "registry_sound (cw_log w) s"
  shows "world_sound h (w\<lparr>cw_sockets := s\<rparr>)"
  using assms by (simp add: world_sound_def)

lemma world_soundD:
  assumes "world_sound h w"
  shows "sockets_sound (cw_log w) (cw_sockets w)" "bridges_sound (cw_log w) (cw_sockets w)"
    "registry_sound (cw_log w) (cw_sockets w)" "t \<in> set (cw_tasks w) \<Longrightarrow> task_sound h (cw_log w) t"
    "log_sound h (cw_log w)"
  using assms by (auto simp: world_sound_def)

lemma registry_sound_grow:
  assumes r: "registry_sound l s" and "sw_clients s' = sw_clients s" and "sw_mappings s' = sw_mappings s"
    and "\<And>x. x \<in> set (sw_sockets s) \<Longrightarrow> \<exists>y \<in> set (sw_sockets s'). hs_id y = hs_id x \<and> hs_tags y = hs_tags x"
  shows "registry_sound l s'"
proof (rule registryI)
  show "\<exists>y \<in> set (sw_sockets s'). hs_id y = i \<and> ws_id_of y = Some W"
    if g: "Granted t i W info p rs b \<in> set l" for t i W info p rs b
  proof -
    from registry_socket [OF r g] obtain x where "x \<in> set (sw_sockets s)" "hs_id x = i" "ws_id_of x = Some W"
      by blast
    with assms(4) [of x] show ?thesis
      by (auto simp: ws_id_of_def)
  qed
qed (use assms registry_client [OF r] registry_mapping [OF r] in simp_all)

lemma world_sound_client_upgrade:
  assumes "world_sound h w" and "fresh_socket i w" and "fresh_ws_id W w"
  shows "world_sound h (attachClient i W w)"
proof -
  let ?s = "acceptClientSocket i W (cw_sockets w)"
  note ws = world_soundD [OF assms(1)]
  have a: "sockets_sound (cw_log w) ?s"
    unfolding acceptClientSocket_def
    by (rule sockets_sound_adopt [OF ws(1)])
      (use assms(2, 3) in \<open>auto simp: fresh_socket_def fresh_ws_id_def tags_sound_def ws_id_of_def\<close>)
  have b: "bridges_sound (cw_log w) ?s"
    using ws(2) by (auto simp: bridges_sound_def acceptClientSocket_def adopt_def)
  have c: "registry_sound (cw_log w) ?s"
    by (rule registry_sound_grow [OF ws(3)]) (auto simp: acceptClientSocket_def adopt_def)
  have "world_sound h (on_sockets (acceptClientSocket i W) w)"
    unfolding on_sockets_def by (rule world_sound_sockets [OF assms(1) a b c])
  then show ?thesis
    unfolding attachClient_def by (rule world_sound_suspend) simp
qed

section \<open>Attaching a bridge\<close>

lemma quiets_sandbox: "quiets s s' \<Longrightarrow> quiets (s\<lparr>sw_sandbox := t\<rparr>) (s'\<lparr>sw_sandbox := t\<rparr>)"
  by (simp add: quiets_def)

lemma close_each_sandbox [simp]: "sw_sandbox (close_each e is s) = sw_sandbox s"
  using quiets_close_each [of s e "is"] by (simp add: quiets_def)

lemma publish_shape:
  "quiets ((adopt i (sandbox_tags (sa_sandboxId a) k) s)\<lparr>sw_sandbox := sw_sandbox (publish_bridge e i k a t s)\<rparr>)
     (publish_bridge e i k a t s)
   \<and> named (sw_sandbox (publish_bridge e i k a t s)) = map_option (\<lambda>(m, x). (m, Some k)) (named (sw_sandbox s))"
proof -
  let ?s0 = "adopt i (sandbox_tags (sa_sandboxId a) k) (s\<lparr>sw_sandbox := updateSandboxHeartbeat t (sw_sandbox s)\<rparr>)"
  let ?s1 = "?s0\<lparr>sw_sandbox := setActiveSocketId k (sw_sandbox ?s0)\<rparr>"
  let ?p = "publish_bridge e i k a t s"
  obtain "is" where p: "?p = (close_each (ce_sockets e) is ?s1)\<lparr>sw_sandboxWs := Some i, sw_sandbox := sw_sandbox ?p\<rparr>"
    and b: "sw_sandbox ?p = fst (onSandboxSocketAttached
        \<lparr>g_sandboxId = sa_sandboxId a, g_createdAt = sa_createdAt a\<rparr>
        (onSandboxConnected (setActiveSocketId k (updateSandboxHeartbeat t (sw_sandbox s)))))"
    by (simp add: publish_bridge_def acceptAndSetSandboxSocket_def Let_def adopt_def)
  have "quiets (?s1\<lparr>sw_sandbox := sw_sandbox ?p\<rparr>) ((close_each (ce_sockets e) is ?s1)\<lparr>sw_sandbox := sw_sandbox ?p\<rparr>)"
    by (rule quiets_sandbox [OF quiets_close_each])
  then have "quiets (?s1\<lparr>sw_sandbox := sw_sandbox ?p\<rparr>) ?p"
    by (subst p) (simp add: quiets_def)
  moreover have "?s1\<lparr>sw_sandbox := sw_sandbox ?p\<rparr>
      = (adopt i (sandbox_tags (sa_sandboxId a) k) s)\<lparr>sw_sandbox := sw_sandbox ?p\<rparr>"
    by (simp add: adopt_def)
  ultimately show ?thesis
    by (simp add: b)
qed

lemma quiets_member: "quiets s s' \<Longrightarrow> x \<in> set (sw_sockets s) \<Longrightarrow>
    \<exists>y \<in> set (sw_sockets s'). hs_id y = hs_id x \<and> hs_tags y = hs_tags x"
  unfolding quiets_def by (meson calmer_def calmer_memberI)

lemma sockets_sound_cong: "sw_sockets s' = sw_sockets s \<Longrightarrow> sockets_sound l s' = sockets_sound l s"
  by (simp only: sockets_sound_def)

lemma sockets_sound_sandbox: "sockets_sound l s \<Longrightarrow> sockets_sound l (s\<lparr>sw_sandbox := t\<rparr>)"
  using sockets_sound_cong [of "s\<lparr>sw_sandbox := t\<rparr>" s l] by simp

lemma world_sound_attached:
  assumes w: "world_sound h w" and i: "fresh_socket i w" and k: "fresh_bridge_id k w"
  shows "world_sound h (log_event (Attached now i k a b) (on_sockets (publish_bridge e i k a t) w))"
proof -
  let ?s = "cw_sockets w" and ?l = "cw_log w @ [Attached now i k a b]"
  let ?p = "publish_bridge e i k a t ?s" and ?tags = "sandbox_tags (sa_sandboxId a) k"
  note ws = world_soundD [OF w]
  have q: "quiets ((adopt i ?tags ?s)\<lparr>sw_sandbox := sw_sandbox ?p\<rparr>) ?p"
    and n: "named (sw_sandbox ?p) = map_option (\<lambda>(m, x). (m, Some k)) (named (sw_sandbox ?s))"
    using publish_shape [where s = ?s] by blast+
  have "sockets_sound ?l (adopt i ?tags ?s)"
    by (rule sockets_sound_adopt [OF sockets_sound_append [OF ws(1)]])
      (use i in \<open>auto simp: fresh_socket_def tags_sound_def\<close>)
  then have a: "sockets_sound ?l ?p"
    using sockets_sound_quiets [OF _ q, of ?l "[]"] sockets_sound_sandbox by simp
  have ids: "hs_id ` set (sw_sockets ?p) = insert i (hs_id ` set (sw_sockets ?s))"
    using quiets_ids [OF q] by (simp add: adopt_def)
  have "named_ok ?l (named (sw_sandbox ?p))"
    unfolding n named_ok_def by (cases "named (sw_sandbox ?s)") auto
  moreover have "j = j' \<longleftrightarrow> x = x'" if "(j, x) \<in> attached_ids ?l" "(j', x') \<in> attached_ids ?l" for j j' x x'
  proof -
    have "j \<noteq> i \<and> x \<noteq> k" if "(j, x) \<in> attached_ids (cw_log w)" for j x
      using bridges_known [OF ws(2) that] that k i unfolding fresh_bridge_id_def fresh_socket_def
      by (metis image_eqI snd_conv)
    then show ?thesis
      using that bridges_injective [OF ws(2), of j x j' x'] by auto
  qed
  moreover have "x \<noteq> [] \<and> j \<in> hs_id ` set (sw_sockets ?p)" if "(j, x) \<in> attached_ids ?l" for j x
    using that ws(2) k unfolding ids by (auto simp: bridges_sound_def fresh_bridge_id_def)
  ultimately have b: "bridges_sound ?l ?p"
    unfolding bridges_sound_named by blast
  have "registry_sound (cw_log w) ((adopt i ?tags ?s)\<lparr>sw_sandbox := sw_sandbox ?p\<rparr>)"
    by (rule registry_sound_grow [OF ws(3)]) (auto simp: adopt_def)
  from registry_sound_quiets [OF this q, of "[]"] have "registry_sound (cw_log w) ?p"
    by simp
  then have c: "registry_sound ?l ?p"
    by (rule registry_sound_log) simp
  show ?thesis
    using a b c ws(4, 5) by (auto simp: world_sound_def log_event_def on_sockets_def intro: task_sound_append)
qed

section \<open>Granting a lease\<close>

lemma registry_sound_client:
  assumes r: "registry_sound l s" and c: "client_sound l i info"
  shows "registry_sound l (setClient i info s)"
proof (rule registryI)
  show "client_sound l j d" if "(j, d) \<in> set (sw_clients (setClient i info s))" for j d
    using that registry_client [OF r] c
    by (auto simp: setClient_def set_sql_update split: if_splits)
qed (use registry_mapping [OF r] registry_socket [OF r] in \<open>simp_all add: setClient_def\<close>)

lemma set_upsertMapping: "set (upsertWsClientMapping m t) \<subseteq> insert m (set t)"
  by (auto simp: upsertWsClientMapping_def set_sql_update)

lemma tags_of_socket: "client_ws_id (classify i s) = Some W \<Longrightarrow>
    \<exists>x \<in> set (sw_sockets s). hs_id x = i \<and> ws_id_of x = Some W"
  by (cases "socket i s")
    (auto simp: classify_def tags_of_def socket_def ws_id_of_def classify_no_tags dest!: find_SomeD)

lemma world_sound_granted:
  assumes w: "world_sound h w" and l: "lease_sound h (cw_log w) p r (ci_authorizationExpiresAt info)"
    and p: "ci_participantId info = pt_id p" "Some (ci_userId info) = pt_canonical_user_id p"
    and a: "activation_ended e i info sync (cw_sockets w) = (s, Activated)"
    and t: "now = sv_now e" and b: "b = shows_sandbox_access r"
    and W: "W = nullish (client_ws_id (classify i s)) []"
  shows "world_sound h (log_event (Granted now i W info p r b) (w\<lparr>cw_sockets := s\<rparr>))"
proof -
  let ?s = "cw_sockets w" and ?l = "cw_log w @ [Granted now i W info p r b]"
  note ws = world_soundD [OF w]
  obtain V where V: "client_ws_id (classify i ?s) = Some V" and x: "now < ci_authorizationExpiresAt info"
    and s: "s = setClient i info (?s\<lparr>sw_mappings := upsertWsClientMapping
      \<lparr>wm_wsId = V, wm_participantId = ci_participantId info, wm_clientId = ci_clientId info,
       wm_createdAt = now, wm_authorizationExpiresAt = ci_authorizationExpiresAt info\<rparr> (sw_mappings ?s)\<rparr>)"
    (is "_ = setClient i info (?s\<lparr>sw_mappings := upsertWsClientMapping ?m _\<rparr>)")
    using a t by (auto simp: activation_ended_def split: if_splits option.splits)
  have same: "sw_sockets s = sw_sockets ?s" "sw_sandbox s = sw_sandbox ?s"
    by (simp_all add: s setClient_def)
  have WV: "W = V"
    using V W same by (simp add: classify_def tags_of_def socket_def)
  have g: "lease_of ?l i V (ci_participantId info) (ci_authorizationExpiresAt info)"
    by (rule lease_ofI [of now _ _ _ p r b]) (simp add: WV)
  have base: "registry_sound ?l (?s\<lparr>sw_mappings := upsertWsClientMapping ?m (sw_mappings ?s)\<rparr>)"
  proof (rule registryI)
    fix m
    assume "m \<in> set (sw_mappings (?s\<lparr>sw_mappings := upsertWsClientMapping ?m (sw_mappings ?s)\<rparr>))"
    then have "m = ?m \<or> m \<in> set (sw_mappings ?s)"
      using set_upsertMapping [of ?m "sw_mappings ?s"] by auto
    then show "mapping_sound ?l m"
      using g registry_mapping [OF ws(3)] by (auto simp: mapping_sound_def intro: lease_of_append)
  next
    fix t' j V' info' p' r' b'
    assume "Granted t' j V' info' p' r' b' \<in> set ?l"
    then show "\<exists>x \<in> set (sw_sockets (?s\<lparr>sw_mappings := upsertWsClientMapping ?m (sw_mappings ?s)\<rparr>)).
        hs_id x = j \<and> ws_id_of x = Some V'"
      using tags_of_socket [OF V] registry_socket [OF ws(3), of t' j V' info' p' r' b'] WV by auto
  qed (use registry_client [OF ws(3)] in \<open>auto intro: client_sound_append\<close>)
  have "registry_sound ?l s"
    unfolding s by (rule registry_sound_client [OF base]) (use g in \<open>auto simp: client_sound_def\<close>)
  moreover have "sockets_sound ?l s"
    using sockets_sound_append [OF ws(1)] sockets_sound_cong [OF same(1)] by blast
  moreover have "bridges_sound ?l s"
    using ws(2) by (simp add: bridges_sound_named named_ok_def same)
  moreover have "event_sound h (cw_log w) (Granted now i W info p r b)"
    using l p x b by simp
  ultimately show ?thesis
    using ws(4, 5) by (auto simp: world_sound_def log_event_def intro: task_sound_append)
qed

section \<open>Client lookups\<close>

lemma client_member: "client i s = Some c \<Longrightarrow> (i, c) \<in> set (sw_clients s)"
  by (auto simp: client_def dest!: find_SomeD)

lemma lookup_sound:
  assumes w: "world_sound h w" and g: "getClientInfo e i w = (w1, answer)"
  shows "world_sound h w1 \<and> cw_log w1 = cw_log w
    \<and> none_or (\<lambda>c. client_sound (cw_log w) i c \<and> now_of e < ci_authorizationExpiresAt c) answer"
proof -
  obtain s a where l: "lookupClient (ce_sockets e) i (cw_sockets w) = (s, a)"
    by fastforce
  note ws = world_soundD [OF w]
  have "hushes w (w\<lparr>cw_sockets := s\<rparr>)"
    using quiets_lookup [of "cw_sockets w" "ce_sockets e" i] l by (simp add: hushes_sockets)
  from world_sound_hushes [OF w this] have s: "world_sound h (w\<lparr>cw_sockets := s\<rparr>)" .
  show ?thesis
  proof (cases a)
    case (LookupCached c)
    then have "client i (cw_sockets w) = Some c" "now_of e < ci_authorizationExpiresAt c"
      using l by (auto simp: lookupClient_def now_of_def split: option.splits if_splits)
    then show ?thesis
      using registry_client [OF ws(3) client_member] g l LookupCached s by (auto simp: getClientInfo_def)
  next
    case (LookupRecovered m p)
    then obtain W where W: "client_ws_id (classify i (cw_sockets w)) = Some W"
      and m: "getWsClientMapping W (cw_sockets w) = Some (m, p)" and x: "now_of e < wm_authorizationExpiresAt m"
      and sw: "s = cw_sockets w"
      using l by (auto simp: lookupClient_def now_of_def split: option.splits if_splits)
    have mm: "m \<in> set (sw_mappings (cw_sockets w))" "wm_wsId m = W" "pt_id p = wm_participantId m"
      using m by (auto simp: getWsClientMapping_def getParticipantById_def split: option.splits dest!: find_SomeD)
    from registry_mapping [OF ws(3) mm(1)] obtain j where
      gj: "lease_of (cw_log w) j W (pt_id p) (wm_authorizationExpiresAt m)"
      using mm by (auto simp: mapping_sound_def)
    have "j = i"
    proof -
      obtain x where x: "x \<in> set (sw_sockets (cw_sockets w))" "hs_id x = j" "ws_id_of x = Some W"
        using grant_socket [OF ws(3) gj] by blast
      obtain y where "y \<in> set (sw_sockets (cw_sockets w))" "hs_id y = i" "ws_id_of y = Some W"
        using tags_of_socket [OF W] by blast
      with x sockets_ws_id [OF ws(1), of x y] show ?thesis
        by simp
    qed
    then have c: "client_sound (cw_log w) i (client_of e p cid (wm_authorizationExpiresAt m))" for cid
      using gj by (auto simp: client_sound_def client_of_def)
    have "world_sound h (on_sockets (setClient i (client_of e p cid (wm_authorizationExpiresAt m))) w)" for cid
      unfolding on_sockets_def
      by (rule world_sound_sockets [OF w])
        (use ws(1, 2) sockets_sound_cong [of "setClient i (client_of e p cid (wm_authorizationExpiresAt m)) (cw_sockets w)" "cw_sockets w"]
           registry_sound_client [OF ws(3) c]
         in \<open>auto simp: setClient_def bridges_sound_named\<close>)
    with c x show ?thesis
      using g l LookupRecovered sw by (auto simp: getClientInfo_def Let_def client_of_def on_sockets_def)
  next
    case LookupRejected
    then show ?thesis
      using g l s by (auto simp: getClientInfo_def)
  next
    case LookupMissing
    then show ?thesis
      using g l world_sound_hushes [OF s hushes_hang_up [where e = e and i = i]]
      by (auto simp: getClientInfo_def hang_up_def on_sockets_def)
  qed
qed

end
