(* ===== verification/Connection_Safety.thy ===== *)
theory Connection_Safety
  imports Connection_Invariants
begin

text \<open>
  The invariant holds in every state of a session's connections, and what follows from it: commands go
  prev to a grant, bridges attach with current credentials, a replaced bridge never returns, and a
  lookup answers with the socket the row names.
\<close>

section \<open>Every step keeps the invariant\<close>

lemma resumed_sound: "world_sound h w \<Longrightarrow> world_sound h (resumed t w)"
  by (rule world_sound_hushes [OF _ hushes_resumed])

lemma resumed_log [simp]: "cw_log (resumed t w) = cw_log w" "cw_sockets (resumed t w) = cw_sockets w"
  by (simp_all add: resumed_def)

lemma hang_up_sound: "world_sound h w \<Longrightarrow> world_sound h (hang_up e i w)"
  by (rule world_sound_hushes [OF _ hushes_hang_up])

lemma refused_sound: "world_sound h w \<Longrightarrow> world_sound h (sub_refused e i w)"
  by (rule world_sound_hushes [OF _ hushes_sub_refused])

lemma authorize_sandbox_sound: "world_sound h w \<Longrightarrow> world_sound h (authorize_sandbox req w)"
  by (auto simp: authorize_sandbox_def intro!: world_sound_suspend
      intro: world_sound_hushes [OF _ hushes_log] split: option.splits)

lemma credentials_soundI: "isValidSandboxToken h token (Some r) \<Longrightarrow> credentials_sound h (admission_of r)"
  unfolding credentials_sound_def by blast

lemma authorize_hashed_sound:
  "world_sound (ce_hash e) w \<Longrightarrow> world_sound (ce_hash e) (authorize_hashed e token r answer w)"
  by (auto simp: authorize_hashed_def credentials_soundI intro!: world_sound_suspend
      intro: world_sound_hushes [OF _ hushes_log] world_sound_hushes [OF _ hushes_reject])

lemma attach_begun_sound:
  assumes "world_sound h w" and "credentials_sound h a"
  shows "world_sound h (attach_sandbox_begun e i a w)"
proof -
  have "world_sound h (on_sockets (\<lambda>s. s\<lparr>sw_alarm := f s\<rparr>) w)" for f
    by (rule world_sound_hushes [OF assms(1) hushes_on_sockets]) simp
  then show ?thesis
    using assms by (auto simp: attach_sandbox_begun_def intro: hang_up_sound intro!: world_sound_suspend)
qed

lemma attach_ended_sound:
  assumes w: "world_sound h w" and "fresh_socket i w" and "fresh_bridge_id k w"
  shows "world_sound h (attach_sandbox_ended e i k a t w)"
proof -
  have a: "world_sound h (log_event (Attached now i k a b) (on_sockets (publish_bridge e i k a t) w))" for now b
    by (rule world_sound_attached [OF assms])
  show ?thesis
    unfolding attach_sandbox_ended_def Let_def
    using world_sound_hushes [OF a hushes_pump] world_sound_hushes [OF a hushes_trans [OF hushes_fan_out hushes_pump]]
      hang_up_sound [OF w] by simp
qed

lemma subscribe_sound:
  assumes w: "world_sound h w"
  shows "world_sound h (handleSubscribe e i token cid w)"
proof -
  obtain s b where s: "isClientAuthenticated (ce_sockets e) i (cw_sockets w) = (s, b)"
    by fastforce
  have "hushes w (w\<lparr>cw_sockets := s\<rparr>)"
    using quiets_client_authenticated [of "cw_sockets w" "ce_sockets e" i] s by (simp add: hushes_sockets)
  from world_sound_hushes [OF w this] have a: "world_sound h (w\<lparr>cw_sockets := s\<rparr>)" .
  have "world_sound h (on_sockets (setClientSynchronizing i True) (w\<lparr>cw_sockets := s\<rparr>))"
    by (rule world_sound_hushes [OF a hushes_on_sockets]) (rule quiets_synchronizing)
  from world_sound_suspend [OF this] show ?thesis
    using hang_up_sound [OF w] hang_up_sound [OF a] s by (simp add: handleSubscribe_def Let_def)
qed

lemma hashed_sound:
  assumes "world_sound (ce_hash e) w"
  shows "world_sound (ce_hash e) (sub_hashed e i tok cid w)"
proof (cases "getParticipantByWsTokenHash (ce_hash e tok) (sw_participants (cw_sockets w))")
  case (Some p)
  then have "pt_ws_auth_token p = Some (ce_hash e tok)"
    by (auto simp: getParticipantByWsTokenHash_def dest: find_SomeD)
  then have "task_sound (ce_hash e) (cw_log w) (SubResolving i p cid)" if "truthy (pt_canonical_user_id p)"
    using that by simp blast
  then show ?thesis
    using world_sound_suspend [OF assms, of "SubResolving i p cid"] refused_sound [OF assms]
    by (simp add: sub_hashed_def Some)
qed (use refused_sound [OF assms] in \<open>simp add: sub_hashed_def\<close>)

lemma decide_permit: "allowed d \<longleftrightarrow> (\<exists>a. d = Permit a)"
  by (cases d) simp_all

lemma resolved_sound:
  assumes "world_sound h w" and "task_sound h (cw_log w) (SubResolving i p cid)"
  shows "world_sound h (sub_resolved e i p cid viewer w)"
proof (cases viewer)
  case (ViewerValid r)
  show ?thesis
  proof (cases "decide_socket r ActRead")
    case (Permit audit)
    have "world_sound h (await_task (SubEnriching i p cid r (now_of e + WS_AUTHORIZATION_LEASE_MS)) w)"
      if "audit \<noteq> Some PrivateBreakGlass" "token_fresh (now_of e) p"
      by (rule world_sound_suspend [OF assms(1)])
        (use that assms(2) Permit in \<open>auto simp: lease_sound_def\<close>)
    moreover have "world_sound h (await_task (SubAuditing i p cid r (now_of e + WS_AUTHORIZATION_LEASE_MS)) w)"
      if "token_fresh (now_of e) p"
      by (rule world_sound_suspend [OF assms(1)]) (use that assms(2) Permit in auto)
    ultimately show ?thesis
      using refused_sound [OF assms(1)] by (simp add: sub_resolved_def ViewerValid Permit Let_def)
  qed (use refused_sound [OF assms(1)] in \<open>simp add: sub_resolved_def ViewerValid\<close>)
qed (use refused_sound [OF assms(1)] in \<open>simp_all add: sub_resolved_def\<close>)

lemma audited_sound:
  assumes "world_sound h w" and "task_sound h (cw_log w) (SubAuditing i p cid r x)"
  shows "world_sound h (sub_audited e i p cid r x ok w)"
proof -
  let ?e = "ReadAudited (the (pt_canonical_user_id p)) (ar_id (vr_row r))"
  have "world_sound h (log_event ?e w)"
    by (rule world_sound_hushes [OF assms(1) hushes_log]) simp
  from world_sound_suspend [OF this, of "SubEnriching i p cid r x"]
  have "world_sound h (await_task (SubEnriching i p cid r x) (log_event ?e w))"
    using assms(2) by (simp add: lease_sound_def log_event_def)
  then show ?thesis
    using refused_sound [OF assms(1)] by (simp add: sub_audited_def)
qed

lemma enriched_sound:
  assumes w: "world_sound h w" and t: "task_sound h (cw_log w) (SubEnriching i p cid r x)"
  shows "world_sound h (sub_enriched e i p cid r x w)"
proof (cases "activation_begun i (client_of e p cid x) (cw_sockets w)")
  case (Some s)
  have "hushes w (w\<lparr>cw_sockets := s\<rparr>)"
    by (rule hushes_sockets) (use Some in \<open>auto simp: activation_begun_def split: option.splits\<close>)
  from world_sound_suspend [OF world_sound_hushes [OF w this], of "SubActivating i p (client_of e p cid x) r"]
  have "world_sound h (await_task (SubActivating i p (client_of e p cid x) r) (w\<lparr>cw_sockets := s\<rparr>))"
    using t by (auto simp: client_of_def lease_sound_def elim: truthyE)
  then show ?thesis
    by (simp add: sub_enriched_def Some)
qed (use refused_sound [OF w] in \<open>simp add: sub_enriched_def\<close>)

lemma activated_sound:
  assumes w: "world_sound h w" and t: "task_sound h (cw_log w) (SubActivating i p info r)"
  shows "world_sound h (sub_activated e i p info r ok snapshot w)"
proof -
  define sync where "sync = (snapshot \<and> send_socket (ce_sockets e) i (cw_sockets w))"
  obtain s a where a: "activation_ended (ce_sockets e) i info sync (cw_sockets w) = (s, a)"
    by fastforce
  let ?g = "log_event (Granted (now_of e) i (nullish (client_ws_id (classify i s)) []) info p r
      (shows_sandbox_access r)) (w\<lparr>cw_sockets := s\<rparr>)"
  have "hushes ?g (sub_over i (broadcastPresence e (sendPresence e i (observeShadowReadDenial i r ?g))))"
    by (intro hushes_trans [OF _ hushes_sub_over] hushes_trans [OF _ hushes_broadcast_presence]
        hushes_trans [OF _ hushes_send_presence] hushes_shadow)
  moreover have "world_sound h ?g" if "a = Activated"
    using world_sound_granted [OF w _ _ _ a [unfolded that]] t by (simp add: now_of_def)
  ultimately show ?thesis
    using refused_sound [OF w] world_sound_hushes a
    by (auto simp: sub_activated_def sync_def [symmetric] Let_def)
qed

lemma change_client_sound:
  assumes w: "world_sound h w"
    and f: "\<And>x. ci_participantId (f x) = ci_participantId x \<and> ci_authorizationExpiresAt (f x) = ci_authorizationExpiresAt x"
  shows "world_sound h (change_client i c f w)"
proof -
  note ws = world_soundD [OF w]
  let ?s = "(cw_sockets w)\<lparr>sw_clients :=
     sql_update (\<lambda>x. fst x = i \<and> same_lease c (snd x)) (\<lambda>x. (fst x, f (snd x))) (sw_clients (cw_sockets w))\<rparr>"
  have "registry_sound (cw_log w) ?s"
  proof (rule registryI)
    show "client_sound (cw_log w) j d" if "(j, d) \<in> set (sw_clients ?s)" for j d
      using that registry_client [OF ws(3)] f
      by (auto simp: set_sql_update client_sound_def split: if_splits)
  qed (use registry_mapping [OF ws(3)] registry_socket [OF ws(3)] in simp_all)
  then show ?thesis
    unfolding change_client_def on_sockets_def
    by (intro world_sound_sockets [OF w])
      (use ws(1, 2) sockets_sound_cong [of ?s "cw_sockets w"] in \<open>auto simp: bridges_sound_named\<close>)
qed

lemma change_client_log [simp]: "cw_log (change_client i c f w) = cw_log w"
  by (simp add: change_client_def on_sockets_def)

lemma update_presence_sound: "world_sound h w \<Longrightarrow> world_sound h (updatePresence e i c st w)"
  unfolding updatePresence_def
  by (rule world_sound_hushes [OF _ hushes_broadcast_presence], rule change_client_sound) simp_all

lemma perform_sound: "world_sound h w \<Longrightarrow> world_sound h (perform e i c m w)"
  by (cases m) (auto simp: update_presence_sound intro: world_sound_suspend
      world_sound_hushes [OF _ hushes_say] split: option.splits)

lemma say_log_sound: "world_sound h w \<Longrightarrow> world_sound h (say e i r w)"
  by (rule world_sound_hushes [OF _ hushes_say])

lemma authorized_sound:
  assumes w: "world_sound h w" and t: "task_sound h (cw_log w) (CmdAuthorizing i c m t0)"
  shows "world_sound h (cmd_authorized e i c m t0 viewer w)"
proof (cases "required_action m")
  case (Some action)
  obtain w1 v where a: "authorizeClientCommand e i action viewer w = (w1, v)"
    by fastforce
  have q: "hushes w w1"
    using hushes_authorize [of w e i action viewer] a by simp
  from world_sound_hushes [OF w q] have w1: "world_sound h w1" .
  obtain xs where l: "cw_log w1 = cw_log w @ xs"
    using q by (auto simp: hushes_def)
  have r: "world_sound h (perform e i c m (log_event (Ran t0 (now_of e) i c m r) w1))"
    if "v = CommandAllowed" "viewer = ViewerValid r" for r
  proof (rule perform_sound, rule world_sound_log [OF w1])
    have "allowed (decide_socket r ActRead)" "allowed (decide_socket r action)"
      using a that by (auto simp: authorizeClientCommand_def Let_def split: if_splits access_decision.splits)
    then show "event_sound h (cw_log w1) (Ran t0 (now_of e) i c m r)"
      using t Some l by (auto intro: client_sound_append)
  qed simp_all
  show ?thesis
    using w1 r say_log_sound [OF w1] a
    by (auto simp: cmd_authorized_def Some split: command_authorization.splits resolved_viewer.splits)
qed (use w in \<open>simp add: cmd_authorized_def\<close>)

lemma await_sound:
  assumes w: "world_sound h w" and c: "client_sound (cw_log w) i c" "now_of e < ci_authorizationExpiresAt c"
  shows "world_sound h (await_authorization e i c m w)"
proof -
  have s: "world_sound h (await_task (CmdAuthorizing i c m' (now_of e)) w')"
    if "world_sound h w'" "cw_log w' = cw_log w" for w' m'
    by (rule world_sound_suspend [OF that(1)]) (use c that in simp)
  have f: "world_sound h (change_client i c (\<lambda>x. x\<lparr>ci_lastFetchHistoryAtMs := Some (now_of e)\<rparr>) w)"
    by (rule change_client_sound [OF w]) simp
  show ?thesis
    by (auto simp: await_authorization_def canFetchHistory_def
        intro!: s f w say_log_sound split: client_message.splits)
qed

lemma client_message_sound:
  assumes w: "world_sound h w"
  shows "world_sound h (handleClientMessage e i frm w)"
proof -
  obtain w1 a where g: "getClientInfo e i w = (w1, a)"
    by fastforce
  from lookup_sound [OF w g] have w1: "world_sound h w1" and
    c: "world_sound h (await_authorization e i c m w1)" if "a = Some c" for c m
    using that by (auto intro: await_sound)
  from lookup_sound [OF w g] have "world_sound h w1" by blast
  then have u: "world_sound h (unauthenticated e i m w1)" for m
    by (rule world_sound_hushes [OF _ hushes_unauthenticated])
  show ?thesis
    using c u g by (cases a)
      (auto simp: handleClientMessage_def intro: say_log_sound [OF w] subscribe_sound [OF w]
        split: client_frame.splits client_message.splits)
qed

lemma route_sound:
  assumes "world_sound h w"
  shows "world_sound h (route e i frm w)"
  using assms client_message_sound hang_up_sound
  by (auto simp: route_def intro!: world_sound_log)

lemma tags_sound_same: "hs_id x = hs_id y \<Longrightarrow> hs_tags x = hs_tags y \<Longrightarrow> tags_sound l x = tags_sound l y"
  by (simp add: tags_sound_def)

lemma map_eq_member:
  assumes "map f xs = map f ys" and "x \<in> set xs"
  shows "\<exists>y \<in> set ys. f y = f x"
proof -
  have "f x \<in> set (map f ys)"
    using assms by (metis image_eqI list.set_map)
  then show ?thesis
    by auto
qed

lemma on_sockets_grow_sound:
  assumes w: "world_sound h w"
    and pair: "map (\<lambda>x. (hs_id x, hs_tags x)) (sw_sockets (f (cw_sockets w)))
      = map (\<lambda>x. (hs_id x, hs_tags x)) (sw_sockets (cw_sockets w))"
    and "\<And>x. x \<in> set (sw_sockets (f (cw_sockets w))) \<Longrightarrow> hs_open x \<Longrightarrow> hs_listed x"
    and "set (sw_clients (f (cw_sockets w))) \<subseteq> set (sw_clients (cw_sockets w))"
    and "set (sw_mappings (f (cw_sockets w))) \<subseteq> set (sw_mappings (cw_sockets w))"
    and "named_ok (cw_log w) (named (sw_sandbox (f (cw_sockets w))))"
  shows "world_sound h (on_sockets f w)"
proof -
  let ?s = "cw_sockets w" and ?s' = "f (cw_sockets w)" and ?l = "cw_log w"
  note ws = world_soundD [OF w]
  have ids: "map hs_id (sw_sockets ?s') = map hs_id (sw_sockets ?s)"
    using arg_cong [OF pair, of "map fst"] by (simp add: comp_def)
  have prev: "\<exists>x \<in> set (sw_sockets ?s). hs_id x = hs_id y \<and> hs_tags x = hs_tags y" if "y \<in> set (sw_sockets ?s')" for y
    using map_eq_member [OF pair that] by auto
  have forth: "\<exists>y \<in> set (sw_sockets ?s'). hs_id y = hs_id x \<and> hs_tags y = hs_tags x" if "x \<in> set (sw_sockets ?s)" for x
    using map_eq_member [OF pair [symmetric] that] by auto
  have "sockets_sound ?l ?s'"
  proof (rule sockets_soundI)
    show "distinct (map hs_id (sw_sockets ?s'))"
      using sockets_soundD(1) [OF ws(1)] ids by simp
    show "tags_sound ?l x \<and> (hs_open x \<longrightarrow> hs_listed x)" if x: "x \<in> set (sw_sockets ?s')" for x
    proof -
      obtain y where "y \<in> set (sw_sockets ?s)" "hs_id x = hs_id y" "hs_tags x = hs_tags y"
        using prev [OF x] by metis
      with tags_sound_same [of x y ?l] sockets_soundD(2) [OF ws(1), of y] assms(3) [OF x] show ?thesis
        by blast
    qed
    show "hs_id x = hs_id y" if xy: "x \<in> set (sw_sockets ?s')" "y \<in> set (sw_sockets ?s')"
      "ws_id_of x \<noteq> None" "ws_id_of x = ws_id_of y" for x y
    proof -
      obtain x0 y0 where "x0 \<in> set (sw_sockets ?s)" "hs_id x0 = hs_id x" "hs_tags x0 = hs_tags x"
        and "y0 \<in> set (sw_sockets ?s)" "hs_id y0 = hs_id y" "hs_tags y0 = hs_tags y"
        using prev [OF xy(1)] prev [OF xy(2)] by metis
      with sockets_ws_id [OF ws(1), of x0 y0] xy(3, 4) show ?thesis
        by (simp add: ws_id_of_def)
    qed
  qed
  moreover have "bridges_sound ?l ?s'"
    using ws(2) assms(6) arg_cong [OF ids, of set] unfolding bridges_sound_named by simp
  moreover have "registry_sound ?l ?s'"
  proof (rule registryI)
    show "\<exists>y \<in> set (sw_sockets ?s'). hs_id y = i \<and> ws_id_of y = Some W"
      if g: "Granted t i W info p r b \<in> set ?l" for t i W info p r b
    proof -
      obtain x where "x \<in> set (sw_sockets ?s)" "hs_id x = i" "ws_id_of x = Some W"
        using registry_socket [OF ws(3) g] by metis
      with forth [of x] show ?thesis
        by (auto simp: ws_id_of_def)
    qed
  qed (use assms(4, 5) registry_client [OF ws(3)] registry_mapping [OF ws(3)] in blast)+
  ultimately show ?thesis
    unfolding on_sockets_def by (rule world_sound_sockets [OF w])
qed

lemma listed_open_sound: "world_sound h w \<Longrightarrow> x \<in> set (sw_sockets (cw_sockets w)) \<Longrightarrow> hs_open x \<Longrightarrow> hs_listed x"
  using sockets_soundD(3) [OF world_soundD(1)] .

lemma named_ok_sound: "world_sound h w \<Longrightarrow> named_ok (cw_log w) (named (sw_sandbox (cw_sockets w)))"
  using world_soundD(2) [of h w] by (simp add: bridges_sound_named)

lemma peer_closed_sound: "world_sound h w \<Longrightarrow> world_sound h (on_sockets (peer_closed i) w)"
  by (rule on_sockets_grow_sound)
    (auto simp: peer_closed_def sql_update_def named_ok_sound dest: listed_open_sound split: if_splits)

lemma detach_shape:
  "quiets (s\<lparr>sw_sandbox := revokeActiveSocketId (sw_sandbox s)\<rparr>) (detachSandboxSocket e s)"
  using quiets_close_each [of "s\<lparr>sw_sandbox := revokeActiveSocketId (sw_sandbox s), sw_sandboxWs := None\<rparr>"]
  by (simp add: detachSandboxSocket_def Let_def quiets_def)

lemma sandbox_row_sound:
  assumes w: "world_sound h w" and n: "named_ok (cw_log w) (named t)"
  shows "world_sound h (on_sockets (\<lambda>s. s\<lparr>sw_sandbox := t\<rparr>) w)"
  by (rule on_sockets_grow_sound [OF w]) (use n listed_open_sound [OF w] in simp_all)

lemma named_ok_revoke: "named_ok l n \<Longrightarrow> named_ok l (map_option (\<lambda>(m, a). (m, Some [])) n)"
  by (cases n) (auto simp: named_ok_def)

lemma detach_sound:
  assumes w: "world_sound h w"
  shows "world_sound h (on_sockets (detachSandboxSocket e) w)"
proof -
  let ?w = "on_sockets (\<lambda>s. s\<lparr>sw_sandbox := revokeActiveSocketId (sw_sandbox (cw_sockets w))\<rparr>) w"
  have "world_sound h ?w"
    by (rule sandbox_row_sound [OF w]) (simp add: named_ok_revoke [OF named_ok_sound [OF w]])
  moreover have "hushes ?w (on_sockets (detachSandboxSocket e) w)"
    using detach_shape [of "cw_sockets w" e] by (simp add: hushes_def on_sockets_def)
  ultimately show ?thesis
    by (rule world_sound_hushes)
qed

lemma keeps_or_revokes_named:
  "keeps_or_revokes t t' \<Longrightarrow> named_ok l (named t) \<Longrightarrow> named_ok l (named t')"
  by (cases "getSandbox t'"; cases "getSandbox t")
    (auto simp: keeps_or_revokes_def named_ok_def named_def)

lemma restarted_sound:
  assumes w: "world_sound h w"
  shows "world_sound h (restarted survive w)"
proof -
  let ?f = "\<lambda>s. s\<lparr>sw_sandboxWs := None, sw_clients := [], sw_synchronizing := [],
        sw_sockets := (if survive then sw_sockets s
                       else map (\<lambda>x. x\<lparr>hs_open := False, hs_listed := False\<rparr>) (sw_sockets s))\<rparr>"
  have "world_sound h (on_sockets ?f w)"
    by (rule on_sockets_grow_sound [OF w])
      (use listed_open_sound [OF w] named_ok_sound [OF w] in \<open>auto simp: comp_def split: if_splits\<close>)
  then show ?thesis
    unfolding restarted_def by (simp add: world_sound_def)
qed

lemma on_sockets_quiet_sound:
  "world_sound h w \<Longrightarrow> quiets (cw_sockets w) (f (cw_sockets w)) \<Longrightarrow> world_sound h (on_sockets f w)"
  by (rule world_sound_hushes [OF _ hushes_on_sockets])

lemma participants_sound:
  assumes w: "world_sound h w"
  shows "world_sound h (on_sockets (\<lambda>s. s\<lparr>sw_participants := ps\<rparr>) w)"
  by (rule on_sockets_grow_sound [OF w]) (use listed_open_sound [OF w] named_ok_sound [OF w] in simp_all)

lemma step_sound:
  assumes "connection_step e w w'" and w: "world_sound (ce_hash e) w"
  shows "world_sound (ce_hash e) w'"
  using assms(1)
proof cases
  case (bridge_attaching a i)
  then show ?thesis
    using world_soundD(4) [OF w] attach_begun_sound [OF resumed_sound [OF w]] by fastforce
next
  case (bridge_attached i a t k)
  then show ?thesis
    by (auto simp: fresh_socket_def fresh_bridge_id_def intro!: attach_ended_sound resumed_sound w)
next
  case (resolved i p cid viewer)
  then show ?thesis
    using world_soundD(4) [OF w] resolved_sound [OF resumed_sound [OF w]] by fastforce
next
  case (audited i p cid r x ok)
  then show ?thesis
    using world_soundD(4) [OF w] audited_sound [OF resumed_sound [OF w]] by fastforce
next
  case (enriched i p cid r x)
  then show ?thesis
    using world_soundD(4) [OF w] enriched_sound [OF resumed_sound [OF w]] by fastforce
next
  case (activated i p info r ok snapshot)
  then show ?thesis
    using world_soundD(4) [OF w] activated_sound [OF resumed_sound [OF w]] by fastforce
next
  case (command_authorized i c m t viewer)
  then show ?thesis
    using world_soundD(4) [OF w] authorized_sound [OF resumed_sound [OF w]] by fastforce
next
  case (closed i)
  then show ?thesis
    using world_sound_hushes [OF peer_closed_sound [OF w] hushes_close] by simp
next
  case (session_row st b)
  then show ?thesis
    using w by (simp add: world_sound_def)
next
  case (sandbox_row t')
  then show ?thesis
    using sandbox_row_sound [OF w keeps_or_revokes_named [OF _ named_ok_sound [OF w]]] by simp
qed (auto simp: clearSandboxSocket_def sub_threw_def
    intro: world_sound_client_upgrade authorize_sandbox_sound authorize_hashed_sound resumed_sound w
      hang_up_sound on_sockets_quiet_sound detach_sound participants_sound restarted_sound route_sound hashed_sound
      world_sound_hushes [OF _ hushes_returned] world_sound_hushes [OF _ hushes_sub_over]
      world_sound_hushes [OF w hushes_fan_out] quieting)

lemma opening_sound: "opening_world w \<Longrightarrow> world_sound h w"
  by (auto simp: opening_world_def world_sound_def sockets_sound_def registry_sound_def log_sound_def
      bridges_sound_def attached_ids_def sandbox_of_def)

lemma connected_sound: "connected h w \<Longrightarrow> world_sound h w"
  by (induction rule: connected.induct) (auto intro: opening_sound step_sound)

section \<open>What steps log and write to the row\<close>

text \<open>The sandbox row stays, and the log grows by events with \<open>p\<close>.\<close>

definition lengthens :: "(session_event \<Rightarrow> bool) \<Rightarrow> connection_world \<Rightarrow> connection_world \<Rightarrow> bool" where
  "lengthens p w w' \<longleftrightarrow> sw_sandbox (cw_sockets w') = sw_sandbox (cw_sockets w)
     \<and> (\<exists>xs. cw_log w' = cw_log w @ xs \<and> list_all p xs)"

text \<open>Anything but a bridge's attachment and a bridge's frame.\<close>

fun bridgeless :: "session_event \<Rightarrow> bool" where
  "bridgeless (Attached t i k a b) = False"
| "bridgeless (BridgeFrame t i) = False"
| "bridgeless x = True"

lemma plain_bridgeless: "plain x \<Longrightarrow> bridgeless x"
  by (cases x) auto

lemma lengthens_refl [simp]: "lengthens p w w"
  by (simp add: lengthens_def)

lemma lengthens_trans: "lengthens p w w1 \<Longrightarrow> lengthens p w1 w2 \<Longrightarrow> lengthens p w w2"
  by (auto simp: lengthens_def)

lemma hushes_lengthens: "hushes w w' \<Longrightarrow> lengthens bridgeless w w'"
  by (auto simp: hushes_def lengthens_def quiets_def intro: list.pred_mono_strong plain_bridgeless)

lemma lengthens_log: "lengthens p w w' \<Longrightarrow> p x \<Longrightarrow> lengthens p w (log_event x w')"
  by (auto simp: lengthens_def log_event_def)

lemma lengthens_same [simp]:
  "lengthens p w (await_task t w') = lengthens p w w'"
  "lengthens p w (change_client i c g w') = lengthens p w w'"
  "lengthens p (resumed t w) w' = lengthens p w w'"
  "lengthens p w (resumed t w') = lengthens p w w'"
  by (simp_all add: lengthens_def await_task_def on_sockets_def resumed_def change_client_def)

lemma lengthens_sockets [simp]:
  "sw_sandbox s = sw_sandbox (cw_sockets w') \<Longrightarrow> lengthens p w (w'\<lparr>cw_sockets := s\<rparr>) = lengthens p w w'"
  "sw_sandbox (f (cw_sockets w')) = sw_sandbox (cw_sockets w') \<Longrightarrow> lengthens p w (on_sockets f w') = lengthens p w w'"
  by (simp_all add: lengthens_def on_sockets_def)

lemma quiets_row: "quiets s s' \<Longrightarrow> sw_sandbox s' = sw_sandbox s"
  by (simp add: quiets_def)

lemma row_same [simp]:
  "sw_sandbox (close_socket e i s) = sw_sandbox s"
  "sw_sandbox (setClient i c s) = sw_sandbox s"
  "sw_sandbox (setClientSynchronizing i b s) = sw_sandbox s"
  "sw_sandbox (fst (lookupClient e i s)) = sw_sandbox s"
  "sw_sandbox (fst (isClientAuthenticated e i s)) = sw_sandbox s"
  "sw_sandbox (acceptClientSocket i W s) = sw_sandbox s"
  "sw_sandbox (peer_closed i s) = sw_sandbox s"
  "sw_sandbox (auth_timed_out e i W s) = sw_sandbox s"
  "sw_sandbox (expireAuthorizationLeases e t s) = sw_sandbox s"
  "sw_sandbox (fst (getSandboxSocket e s)) = sw_sandbox s"
  "sw_sandbox (clearSandboxSocket s) = sw_sandbox s"
  "sw_sandbox (fst (broadcast e s)) = sw_sandbox s"
  by (simp_all add: quieting quiets_row setClient_def acceptClientSocket_def adopt_def peer_closed_def)

lemma lengthens_hushed: "lengthens bridgeless w w1 \<Longrightarrow> hushes w1 w2 \<Longrightarrow> lengthens bridgeless w w2"
  by (rule lengthens_trans [OF _ hushes_lengthens])

lemma lookup_lengthens: "lengthens bridgeless w (fst (getClientInfo e i w))"
  by (auto simp: getClientInfo_def Let_def hang_up_def case_prod_unfold split: client_lookup.splits)

lemma perform_lengthens: "lengthens bridgeless w (perform e i c m w)"
  by (cases m) (auto simp: updatePresence_def intro: lengthens_hushed [OF _ hushes_broadcast_presence]
      hushes_lengthens [OF hushes_say] split: option.splits)

lemma authorized_lengthens: "lengthens bridgeless w (cmd_authorized e i c m t viewer w)"
proof (cases "required_action m")
  case (Some action)
  obtain w1 v where a: "authorizeClientCommand e i action viewer w = (w1, v)"
    by fastforce
  have w1: "lengthens bridgeless w w1"
    using hushes_lengthens [OF hushes_authorize [of w e i action viewer]] a by simp
  then have "lengthens bridgeless w (perform e i c m (log_event (Ran t (now_of e) i c m r) w1))" for r
    by (rule lengthens_trans [OF lengthens_log perform_lengthens]) simp
  then show ?thesis
    using w1 lengthens_hushed [OF w1 hushes_say] a
    by (auto simp: cmd_authorized_def Some split: command_authorization.splits resolved_viewer.splits)
qed (simp add: cmd_authorized_def)

lemma await_lengthens: "lengthens bridgeless w (await_authorization e i c m w)"
  by (auto simp: await_authorization_def canFetchHistory_def intro: hushes_lengthens [OF hushes_say]
      split: client_message.splits)

lemma subscribe_lengthens: "lengthens bridgeless w (handleSubscribe e i token cid w)"
  by (auto simp: handleSubscribe_def Let_def hang_up_def case_prod_unfold)

lemma message_lengthens: "lengthens bridgeless w (handleClientMessage e i frm w)"
proof -
  obtain w1 a where g: "getClientInfo e i w = (w1, a)"
    by fastforce
  have w1: "lengthens bridgeless w w1"
    using lookup_lengthens [of w e i] g by simp
  show ?thesis
    using g lengthens_hushed [OF w1 hushes_unauthenticated] lengthens_trans [OF w1 await_lengthens]
    by (cases a) (auto simp: handleClientMessage_def intro: hushes_lengthens [OF hushes_say] subscribe_lengthens
        split: client_frame.splits client_message.splits)
qed

lemma activated_lengthens: "lengthens bridgeless w (sub_activated e i p info r ok snapshot w)"
proof -
  have "lengthens bridgeless w (sub_over i (broadcastPresence e (sendPresence e i (observeShadowReadDenial i r
      (log_event (Granted t i W info p r b) (w\<lparr>cw_sockets := s\<rparr>))))))"
    if "sw_sandbox s = sw_sandbox (cw_sockets w)" for t W b s
    by (intro lengthens_hushed [OF _ hushes_sub_over] lengthens_hushed [OF _ hushes_broadcast_presence]
        lengthens_hushed [OF _ hushes_send_presence] lengthens_hushed [OF _ hushes_shadow] lengthens_log)
      (use that in simp_all)
  moreover have "sw_sandbox s = sw_sandbox (cw_sockets w)"
    if "activation_ended (ce_sockets e) i info sync (cw_sockets w) = (s, a)" for sync s a
    using that by (auto simp: activation_ended_def setClient_def split: if_splits option.splits)
  ultimately show ?thesis
    using hushes_lengthens [OF hushes_sub_refused]
    by (auto simp: sub_activated_def Let_def split: prod.splits)
qed

lemma resolved_lengthens: "lengthens bridgeless w (sub_resolved e i p cid viewer w)"
  by (auto simp: sub_resolved_def Let_def intro: hushes_lengthens [OF hushes_sub_refused]
      split: resolved_viewer.splits access_decision.splits)

lemma upgrade_lengthens: "lengthens bridgeless w (authorize_sandbox req w)"
  by (auto simp: authorize_sandbox_def intro!: lengthens_log split: option.splits)

lemma hashed_lengthens: "lengthens bridgeless w (authorize_hashed e token r answer w)"
  by (simp add: authorize_hashed_def hushes_lengthens [OF hushes_reject] lengthens_log)

lemma begun_lengthens: "lengthens bridgeless w (attach_sandbox_begun e i a w)"
  by (simp add: attach_sandbox_begun_def hang_up_def)

lemma sub_hashed_lengthens: "lengthens bridgeless w (sub_hashed e i tok cid w)"
  by (auto simp: sub_hashed_def intro: hushes_lengthens [OF hushes_sub_refused] split: option.splits)

lemma audited_lengthens: "lengthens bridgeless w (sub_audited e i p cid r x ok w)"
  by (simp add: sub_audited_def hushes_lengthens [OF hushes_sub_refused] lengthens_log)

lemma enriched_lengthens: "lengthens bridgeless w (sub_enriched e i p cid r x w)"
  by (auto simp: sub_enriched_def Let_def activation_begun_def intro: hushes_lengthens [OF hushes_sub_refused]
      split: option.splits)

lemma restarted_lengthens: "lengthens bridgeless w (restarted survive w)"
  by (simp add: restarted_def lengthens_def on_sockets_def)

definition names :: "string \<Rightarrow> connection_world \<Rightarrow> bool" where
  "names k w \<longleftrightarrow> map_option snd (named (sw_sandbox (cw_sockets w))) = Some (Some k)"

lemma names_revoked: "named t' = map_option (\<lambda>(m, a). (m, Some [])) n \<Longrightarrow> k \<noteq> [] \<Longrightarrow>
    map_option snd (named t') \<noteq> Some (Some k)"
  by (cases n) auto

lemma names_keeps: "keeps_or_revokes (sw_sandbox (cw_sockets w)) t' \<Longrightarrow> k \<noteq> [] \<Longrightarrow>
    map_option snd (named t') = Some (Some k) \<Longrightarrow> names k w"
  by (auto simp: keeps_or_revokes_def names_def named_def split: option.splits)

text \<open>The one step that attaches a bridge, and the one that takes a frame from it.\<close>

lemma step_log:
  assumes "connection_step e w w'"
  shows "lengthens bridgeless w w'
    \<or> (cw_log w' = cw_log w \<and> (\<forall>k. k \<noteq> [] \<and> names k w' \<longrightarrow> names k w))
    \<or> (\<exists>i k a t. fresh_socket i w \<and> fresh_bridge_id k w \<and> AttachScheduling i a t \<in> set (cw_tasks w)
         \<and> matchesAdmission (sandbox_of w) a
         \<and> w' = attach_sandbox_ended e i k a t (resumed (AttachScheduling i a t) w))
    \<or> (\<exists>i. isActiveSandboxSocket i (cw_sockets w) \<and> w' = log_event (BridgeFrame (now_of e) i) w)"
  using assms
proof cases
  case (bridge_attached i a t k)
  show ?thesis
  proof (cases "matchesAdmission (sandbox_of w) a")
    case True
    with bridge_attached show ?thesis by blast
  next
    case False
    then have "lengthens bridgeless w w'"
      by (simp add: bridge_attached attach_sandbox_ended_def sandbox_of_def hang_up_def)
    then show ?thesis ..
  qed
next
  case (frame i f)
  then show ?thesis
    using message_lengthens by (auto simp: route_def hang_up_def)
next
  case (session_row st b)
  then show ?thesis
    by (simp add: lengthens_def)
next
  case (sandbox_row t')
  then have "\<forall>k. k \<noteq> [] \<and> names k w' \<longrightarrow> names k w" and "cw_log w' = cw_log w"
    using names_keeps [OF sandbox_row(2)] by (simp_all add: names_def [of _ "_\<lparr>cw_sockets := _\<rparr>"] on_sockets_def)
  then show ?thesis
    by blast
next
  case bridge_detach
  have "named (sw_sandbox (detachSandboxSocket (ce_sockets e) (cw_sockets w)))
      = map_option (\<lambda>(m, a). (m, Some [])) (named (sw_sandbox (cw_sockets w)))"
    using quiets_row [OF detach_shape [of "cw_sockets w" "ce_sockets e"]] by simp
  from names_revoked [OF this] have "\<forall>k. k \<noteq> [] \<and> names k w' \<longrightarrow> names k w" and "cw_log w' = cw_log w"
    by (auto simp: bridge_detach names_def [of _ "_\<lparr>cw_sockets := _\<rparr>"] on_sockets_def)
  then show ?thesis
    by blast
next
  case (upgrade_hashed token r answer)
  then show ?thesis
    using hashed_lengthens [of "resumed _ w"] by simp
next
  case (bridge_attaching a i)
  then show ?thesis
    using begun_lengthens [of "resumed _ w"] by simp
next
  case (hashed i tok cid)
  then show ?thesis
    using sub_hashed_lengthens [of "resumed _ w"] by simp
next
  case (resolved i p cid viewer)
  then show ?thesis
    using resolved_lengthens [of "resumed _ w"] by simp
next
  case (audited i p cid r x ok)
  then show ?thesis
    using audited_lengthens [of "resumed _ w"] by simp
next
  case (enriched i p cid r x)
  then show ?thesis
    using enriched_lengthens [of "resumed _ w"] by simp
next
  case (activated i p info r ok snapshot)
  then show ?thesis
    using activated_lengthens [of "resumed _ w"] by simp
next
  case (command_threw i c m t)
  then show ?thesis
    using hushes_lengthens [OF hushes_returned [of "resumed _ w"]] by simp
next
  case (command_authorized i c m t viewer)
  then show ?thesis
    using authorized_lengthens [of "resumed _ w"] by simp
next
  case (command_returned i m outcome)
  then show ?thesis
    using hushes_lengthens [OF hushes_returned [of "resumed _ w"]] by simp
next
  case (closed i)
  have "lengthens bridgeless (on_sockets (peer_closed i) w) w'"
    unfolding closed by (rule hushes_lengthens [OF hushes_close])
  then show ?thesis
    by (simp add: lengthens_def on_sockets_def)
qed (simp_all add: attachClient_def upgrade_lengthens hang_up_def sub_threw_def sub_over_def fan_out_def
    restarted_lengthens)

end
