(* ===== verification/Connection_Demo.thy ===== *)
theory Connection_Demo
  imports Connection_Routing
begin

text \<open>
  Two runs of a session's connections, worked out step by step: a browser that subscribes and stops the execution,
  and a bridge that is replaced by another while its close fails.
\<close>

section \<open>A world with few moving parts\<close>

definition quiet_env :: "ms \<Rightarrow> connection_env" where
  "quiet_env now = \<lparr>ce_sockets = \<lparr>sv_now = now, sv_closes = (\<lambda>i. False), sv_sends = (\<lambda>i. True)\<rparr>,
     ce_hash = (\<lambda>s. ''#'' @ s), ce_github = True, ce_heartbeatTimeoutMs = 30\<rparr>"

lemma quiet_env_simps [simp]:
  "now_of (quiet_env now) = now" "sv_now (ce_sockets (quiet_env now)) = now"
  "\<not> sv_closes (ce_sockets (quiet_env now)) i" "sv_sends (ce_sockets (quiet_env now)) i"
  "ce_hash (quiet_env now) = (\<lambda>s. ''#'' @ s)" "ce_heartbeatTimeoutMs (quiet_env now) = 30"
  by (simp_all add: quiet_env_def now_of_def)

section \<open>A browser\<close>

definition browser_socket :: host_socket where
  "browser_socket = \<lparr>hs_id = ''c'', hs_tags = [''wsid:1''], hs_open = True, hs_listed = True\<rparr>"

definition ann_row :: participant_row where
  "ann_row = \<lparr>pt_id = ''p1'', pt_user_id = ''u1'', pt_canonical_user_id = Some ''ann'', pt_scm_user_id = None,
     pt_scm_login = None, pt_scm_email = None, pt_scm_name = None, pt_role = OwnerParticipant,
     pt_ws_auth_token = Some ''#tok'', pt_ws_token_created_at = Some 0, pt_joined_at = 0\<rparr>"

definition browser :: "host_socket list \<Rightarrow> (string \<times> client_info) list \<Rightarrow> string list \<Rightarrow> ws_mapping list
    \<Rightarrow> alarm_table \<Rightarrow> connection_task list \<Rightarrow> session_event list \<Rightarrow> connection_world" where
  "browser ss cs sync ms al ts l = \<lparr>cw_sockets = \<lparr>sw_sockets = ss, sw_sandboxWs = None, sw_clients = cs,
       sw_synchronizing = sync, sw_mappings = ms, sw_sandbox = [], sw_participants = [ann_row], sw_alarm = al\<rparr>,
     cw_session = Some SActive, cw_startupPending = False, cw_shadow = [], cw_tasks = ts, cw_log = l\<rparr>"

definition ann_may :: viewer_resolution where
  "ann_may = \<lparr>vr_mode = ModeOff,
     vr_authorization = \<lparr>ea_userId = ''ann'', ea_suspendedAt = None, ea_roleKey = Some MemberRole,
       ea_permissions = [PSessionsRead, PSessionsLifecycle]\<rparr>,
     vr_viewer = \<lparr>uv_userId = ''ann'', uv_roleKey = Some MemberRole,
       uv_permissions = [PSessionsRead, PSessionsLifecycle], uv_suspended = False, uv_memberships = Map.empty\<rparr>,
     vr_row = \<lparr>ar_id = ''s1'', ar_ownerUserId = Some ''ann'', ar_ownerTeamId = None, ar_visibility = VisWorkspace,
       ar_collaboratorIds = []\<rparr>\<rparr>"

lemma ann_may_simps [simp]:
  "decide_socket ann_may ActRead = Permit None" "decide_socket ann_may ActLifecycle = Permit None"
  "observeShadowReadDenial i ann_may w = w"
  by (auto simp: ann_may_def decide_socket_def resolverDecides_def observeShadowReadDenial_def
      split: access_decision.split)

definition ann_client :: client_info where
  "ann_client = client_of (quiet_env 3) ann_row ''tab'' 300002"

definition ann_mapping :: ws_mapping where
  "ann_mapping = \<lparr>wm_wsId = ''1'', wm_participantId = ''p1'', wm_clientId = ''tab'', wm_createdAt = 4,
     wm_authorizationExpiresAt = 300002\<rparr>"

lemma browser_socket_simps [simp]:
  "hs_id browser_socket = ''c''" "hs_open browser_socket" "hs_listed browser_socket"
  "classify_tags (hs_tags browser_socket) = ClientConnection (Some ''1'')"
  by (simp_all add: browser_socket_def classify_tags_def tag_value_def)

lemma ann_simps [simp]:
  "pt_ws_auth_token ann_row = Some ''#tok''" "pt_canonical_user_id ann_row = Some ''ann''"
  "pt_ws_token_created_at ann_row = Some 0" "pt_id ann_row = ''p1''"
  "ci_authorizationExpiresAt ann_client = 300002" "ci_participantId ann_client = ''p1''"
  "ci_clientId ann_client = ''tab''" "ci_userId ann_client = ''ann''"
  by (simp_all add: ann_row_def ann_client_def client_of_def)

lemma browser_simps [simp]:
  "resumed t (browser ss cs sync ms al ts l) = browser ss cs sync ms al (remove1 t ts) l"
  "await_task t (browser ss cs sync ms al ts l) = browser ss cs sync ms al (ts @ [t]) l"
  "log_event x (browser ss cs sync ms al ts l) = browser ss cs sync ms al ts (l @ [x])"
  "cw_tasks (browser ss cs sync ms al ts l) = ts" "cw_log (browser ss cs sync ms al ts l) = l"
  "sw_sockets (cw_sockets (browser ss cs sync ms al ts l)) = ss"
  "sw_clients (cw_sockets (browser ss cs sync ms al ts l)) = cs"
  "sw_synchronizing (cw_sockets (browser ss cs sync ms al ts l)) = sync"
  "sw_mappings (cw_sockets (browser ss cs sync ms al ts l)) = ms"
  "sw_participants (cw_sockets (browser ss cs sync ms al ts l)) = [ann_row]"
  by (simp_all add: browser_def resumed_def await_task_def log_event_def)

lemma browser_opens: "opening_world (browser [] [] [] [] None [] [])"
  by (simp add: opening_world_def browser_def sandbox_of_def)

lemma browser_attached:
  "attachClient ''c'' ''1'' (browser [] [] [] [] None [] []) = browser [browser_socket] [] [] [] None [AuthTimeout ''c'' ''1''] []"
  by (simp add: browser_def attachClient_def await_task_def on_sockets_def acceptClientSocket_def adopt_def browser_socket_def)

lemma browser_classify [simp]:
  "classify ''c'' (cw_sockets (browser [browser_socket] cs sync ms al ts l)) = ClientConnection (Some ''1'')"
  "isSocketOpen ''c'' (cw_sockets (browser [browser_socket] cs sync ms al ts l))"
  by (simp_all add: classify_def tags_of_def socket_def isSocketOpen_def)

lemma browser_subscribes:
  "route (quiet_env 1) ''c'' (Parsed (MSubscribe ''tok'' ''tab'')) (browser [browser_socket] [] [] [] None [AuthTimeout ''c'' ''1''] [])
    = browser [browser_socket] [] [''c''] [] None [AuthTimeout ''c'' ''1'', SubHashing ''c'' ''tok'' ''tab''] []"
  by (simp add: route_def handleClientMessage_def handleSubscribe_def isClientAuthenticated_def isAuthenticated_def
      authorizationExpiry_def client_def mapping_expiry_def getWsClientMapping_def isClientSynchronizing_def
      is_sandbox_def client_ws_id_def on_sockets_def setClientSynchronizing_def)
    (simp add: browser_def await_task_def)

abbreviation waiting :: "connection_task" where
  "waiting \<equiv> AuthTimeout ''c'' ''1''"

lemma browser_hashed:
  "sub_hashed (quiet_env 1) ''c'' ''tok'' ''tab'' (browser [browser_socket] [] [''c''] [] None [waiting] [])
    = browser [browser_socket] [] [''c''] [] None [waiting, SubResolving ''c'' ann_row ''tab''] []"
  by (simp add: sub_hashed_def getParticipantByWsTokenHash_def)

lemma browser_resolved:
  "sub_resolved (quiet_env 2) ''c'' ann_row ''tab'' (ViewerValid ann_may)
      (browser [browser_socket] [] [''c''] [] None [waiting] [])
    = browser [browser_socket] [] [''c''] [] None [waiting, SubEnriching ''c'' ann_row ''tab'' ann_may 300002] []"
  by (simp add: sub_resolved_def token_fresh_def WS_TOKEN_TTL_MS_def WS_AUTHORIZATION_LEASE_MS_def Let_def)

definition lease_alarm_row :: alarm_table where
  "lease_alarm_row = schedule_deadline 300002 None"

lemma browser_enriched:
  "sub_enriched (quiet_env 3) ''c'' ann_row ''tab'' ann_may 300002 (browser [browser_socket] [] [''c''] [] None [waiting] [])
    = browser [browser_socket] [] [''c''] [] lease_alarm_row [waiting, SubActivating ''c'' ann_row ann_client ann_may] []"
  by (simp add: sub_enriched_def Let_def activation_begun_def client_ws_id_def ann_client_def [symmetric] truthy_def)
    (simp add: browser_def await_task_def lease_alarm_row_def)

abbreviation granted :: session_event where
  "granted \<equiv> Granted 4 ''c'' ''1'' ann_client ann_row ann_may (shows_sandbox_access ann_may)"

definition ann_present :: session_event where
  "ann_present = Replied ''c'' (PresenceSync [present_as ann_client])"

abbreviation subscribed :: "connection_task list \<Rightarrow> session_event list \<Rightarrow> connection_world" where
  "subscribed ts l \<equiv> browser [browser_socket] [(''c'', ann_client)] [] [ann_mapping] lease_alarm_row ts l"

lemma browser_fan_out:
  "now < 300002 \<Longrightarrow> fan_out (quiet_env now) (browser [browser_socket] [(''c'', ann_client)] sync ms al ts l)
    = browser [browser_socket] [(''c'', ann_client)] sync ms al ts l"
  by (simp add: fan_out_def on_sockets_def broadcast_def forEachClientSocket_def listed_def Let_def
      isAuthenticated_def authorizationExpiry_def client_def is_sandbox_def case_prod_unfold)

lemma browser_presence:
  "now < 300002 \<Longrightarrow> getPresenceList (quiet_env now) (browser [browser_socket] [(''c'', ann_client)] sync ms al ts l)
    = (browser [browser_socket] [(''c'', ann_client)] sync ms al ts l, [present_as ann_client])"
  by (simp add: getPresenceList_def getAuthenticatedClients_def projectConnectedParticipants_def)

lemma browser_activates:
  "activation_ended (ce_sockets (quiet_env 4)) ''c'' ann_client True
      (cw_sockets (browser [browser_socket] [] sync [] al ts l))
    = (cw_sockets (browser [browser_socket] [(''c'', ann_client)] sync [ann_mapping] al ts l), Activated)"
  by (simp add: activation_ended_def client_ws_id_def truthy_def setClient_def client_def upsertWsClientMapping_def ann_mapping_def)
    (simp add: browser_def)

lemma browser_activated:
  "sub_activated (quiet_env 4) ''c'' ann_row ann_client ann_may True True
      (browser [browser_socket] [] [''c''] [] lease_alarm_row [waiting] [])
    = subscribed [waiting] [granted, ann_present]"
proof -
  let ?w = "browser [browser_socket] [] [''c''] [] lease_alarm_row [waiting] []"
  have a: "?w\<lparr>cw_sockets := cw_sockets (browser [browser_socket] [(''c'', ann_client)] [''c''] [ann_mapping] lease_alarm_row [waiting] [])\<rparr>
      = browser [browser_socket] [(''c'', ann_client)] [''c''] [ann_mapping] lease_alarm_row [waiting] []"
    by (simp add: browser_def)
  have s: "send_socket (ce_sockets (quiet_env 4)) ''c'' (cw_sockets (browser [browser_socket] cs sync ms al ts l))" for cs sync ms al ts l
    by (simp add: send_socket_def)
  show ?thesis
    by (simp add: sub_activated_def Let_def browser_activates s a sendPresence_def broadcastPresence_def
        browser_presence browser_fan_out say_def client_ws_id_def truthy_def ann_present_def)
      (simp add: browser_def sub_over_def on_sockets_def setClientSynchronizing_def)
qed

lemma browser_stops:
  "route (quiet_env 5) ''c'' (Parsed MStop) (subscribed [waiting] l)
    = subscribed [waiting, CmdAuthorizing ''c'' ann_client MStop 5] l"
  by (simp add: route_def handleClientMessage_def getClientInfo_def lookupClient_def client_def Let_def
      await_authorization_def is_sandbox_def)

lemma browser_stopped:
  "cmd_authorized (quiet_env 6) ''c'' ann_client MStop 5 (ViewerValid ann_may) (subscribed [waiting] l)
    = subscribed [waiting, CmdRunning ''c'' MStop] (l @ [Ran 5 6 ''c'' ann_client MStop ann_may])"
  by (simp add: cmd_authorized_def authorizeClientCommand_def Let_def)

abbreviation browser_end :: connection_world where
  "browser_end \<equiv> subscribed [waiting, CmdRunning ''c'' MStop]
     [granted, ann_present, Ran 5 6 ''c'' ann_client MStop ann_may]"

abbreviation sharp :: "string \<Rightarrow> string" where
  "sharp \<equiv> \<lambda>s. ''#'' @ s"

lemma connected_step:
  "connected sharp w \<Longrightarrow> connection_step (quiet_env now) w w' \<Longrightarrow> w' = v \<Longrightarrow> connected sharp v"
  by (auto intro: connected.step)

lemma browser_run: "connected sharp browser_end"
proof -
  have "connected sharp (browser [] [] [] [] None [] [])"
    by (rule connected.fresh [OF browser_opens])
  from connected_step [OF this client_upgrade [of "''c''" _ "''1''"] browser_attached]
  have "connected sharp (browser [browser_socket] [] [] [] None [waiting] [])"
    by (simp add: fresh_socket_def fresh_ws_id_def)
  from connected_step [OF this frame browser_subscribes]
  have "connected sharp (browser [browser_socket] [] [''c''] [] None [waiting, SubHashing ''c'' ''tok'' ''tab''] [])"
    by simp
  from connected_step [of _ 1, OF this hashed [of "''c''" "''tok''" "''tab''"]]
  have "connected sharp (browser [browser_socket] [] [''c''] [] None [waiting, SubResolving ''c'' ann_row ''tab''] [])"
    by (simp add: browser_hashed)
  from connected_step [of _ 2, OF this resolved [of "''c''" ann_row "''tab''" _ _ "ViewerValid ann_may"]]
  have "connected sharp (browser [browser_socket] [] [''c''] [] None [waiting, SubEnriching ''c'' ann_row ''tab'' ann_may 300002] [])"
    by (simp add: browser_resolved)
  from connected_step [of _ 3, OF this enriched [of "''c''" ann_row "''tab''" ann_may 300002]]
  have "connected sharp (browser [browser_socket] [] [''c''] [] lease_alarm_row [waiting, SubActivating ''c'' ann_row ann_client ann_may] [])"
    by (simp add: browser_enriched)
  from connected_step [of _ 4, OF this activated [of "''c''" ann_row ann_client ann_may _ _ True True]]
  have "connected sharp (subscribed [waiting] [granted, ann_present])"
    by (simp add: browser_activated)
  from connected_step [OF this frame browser_stops]
  have "connected sharp (subscribed [waiting, CmdAuthorizing ''c'' ann_client MStop 5] [granted, ann_present])"
    by simp
  from connected_step [of _ 6, OF this command_authorized [of "''c''" ann_client MStop 5 _ _ "ViewerValid ann_may"]]
  show ?thesis
    by (simp add: browser_stopped)
qed

section \<open>Two bridges\<close>

definition bridge_row :: "string option \<Rightarrow> ms option \<Rightarrow> sandbox_row" where
  "bridge_row act hb = booting_row\<lparr>sb_auth_token_hash := Some ''#key'', sb_active_socket_id := act,
     sb_last_heartbeat := hb\<rparr>"

definition bridge_admission :: sandbox_admission where
  "bridge_admission = \<lparr>sa_sandboxId = Some ''sb-2'', sa_createdAt = 20, sa_authTokenHash = Some ''#key'',
     sa_authToken = None\<rparr>"

lemma bridge_row_simps [simp]:
  "admission_of (bridge_row act hb) = bridge_admission" "sb_modal_sandbox_id (bridge_row act hb) = Some ''sb-2''"
  "sb_active_socket_id (bridge_row act hb) = act" "sb_status (bridge_row act hb) = Connecting"
  "sb_created_at (bridge_row act hb) = 20"
  "sa_sandboxId bridge_admission = Some ''sb-2''" "sa_createdAt bridge_admission = 20"
  "isValidSandboxToken ((#) CHR ''#'') (Some ''key'') (Some (bridge_row act hb))"
  by (simp_all add: bridge_row_def bridge_admission_def admission_of_def booting_row_def isValidSandboxToken_def)

definition bridge_socket :: "string \<Rightarrow> string \<Rightarrow> host_socket" where
  "bridge_socket i k = \<lparr>hs_id = i, hs_tags = sandbox_tags (Some ''sb-2'') k, hs_open = True, hs_listed = True\<rparr>"

lemma bridge_socket_simps [simp]:
  "hs_id (bridge_socket i k) = i" "hs_open (bridge_socket i k)" "hs_listed (bridge_socket i k)"
  "''sandbox'' \<in> set (hs_tags (bridge_socket i k))"
  "classify_tags (hs_tags (bridge_socket i k)) = SandboxConnection (Some ''sb-2'') (Some k)"
  by (simp_all add: bridge_socket_def sandbox_tags_def classify_tags_def tag_value_def)

definition bridged :: "host_socket list \<Rightarrow> string option \<Rightarrow> string option \<Rightarrow> ms option \<Rightarrow> alarm_table
    \<Rightarrow> connection_task list \<Rightarrow> session_event list \<Rightarrow> connection_world" where
  "bridged ss ptr act hb al ts l = \<lparr>cw_sockets = \<lparr>sw_sockets = ss, sw_sandboxWs = ptr, sw_clients = [],
       sw_synchronizing = [], sw_mappings = [], sw_sandbox = [bridge_row act hb], sw_participants = [], sw_alarm = al\<rparr>,
     cw_session = Some SActive, cw_startupPending = False, cw_shadow = [], cw_tasks = ts, cw_log = l\<rparr>"

lemma bridged_simps [simp]:
  "resumed t (bridged ss ptr act hb al ts l) = bridged ss ptr act hb al (remove1 t ts) l"
  "await_task t (bridged ss ptr act hb al ts l) = bridged ss ptr act hb al (ts @ [t]) l"
  "log_event x (bridged ss ptr act hb al ts l) = bridged ss ptr act hb al ts (l @ [x])"
  "cw_tasks (bridged ss ptr act hb al ts l) = ts" "cw_log (bridged ss ptr act hb al ts l) = l"
  "sw_sockets (cw_sockets (bridged ss ptr act hb al ts l)) = ss"
  "sw_sandbox (cw_sockets (bridged ss ptr act hb al ts l)) = [bridge_row act hb]"
  "sandbox_of (bridged ss ptr act hb al ts l) = Some (bridge_row act hb)"
  "cw_session (bridged ss ptr act hb al ts l) = Some SActive" "\<not> cw_startupPending (bridged ss ptr act hb al ts l)"
  by (simp_all add: bridged_def resumed_def await_task_def log_event_def sandbox_of_def)

lemma bridged_opens: "opening_world (bridged [] None None None None [] [])"
  by (simp add: opening_world_def) (simp add: bridged_def)

definition bridge_request :: upgrade_request where
  "bridge_request = \<lparr>ur_authorization = Some ''Bearer key'', ur_sandboxId = Some ''sb-2''\<rparr>"

lemma bridge_asks:
  "authorize_sandbox bridge_request (bridged ss ptr act hb al [] l)
    = bridged ss ptr act hb al [UpgradeHashing (Some ''key'') (bridge_row act hb)] l"
  by (simp add: authorize_sandbox_def bridge_request_def bearer_def)

lemma bridge_hashed:
  "authorize_hashed (quiet_env now) (Some ''key'') (bridge_row act hb) answer (bridged ss ptr act hb al [] l)
    = bridged ss ptr act hb al [UpgradeAccepted bridge_admission] l"
  by (simp add: authorize_hashed_def isSandboxReconnectBlockedStatus_def matchesAdmission_def)

lemma bridge_begun:
  "attach_sandbox_begun (quiet_env now) i bridge_admission (bridged ss ptr act hb al [] l)
    = bridged ss ptr act hb (schedule_deadline (now + 30) al) [AttachScheduling i bridge_admission now] l"
  by (simp add: attach_sandbox_begun_def matchesAdmission_def)
    (simp add: bridged_def on_sockets_def await_task_def)

lemma bridge_row_heartbeat:
  "updateSandboxHeartbeat t [bridge_row act hb] = [bridge_row act (Some t)]"
  "setActiveSocketId k [bridge_row act hb] = [bridge_row (Some k) hb]"
  "onSandboxConnected [bridge_row act hb] = [bridge_row act hb]"
  "onSandboxSocketAttached g [bridge_row act hb] = ([bridge_row act hb], [])"
  by (simp_all add: updateSandboxHeartbeat_def setActiveSocketId_def set_first_def onSandboxConnected_def
      setLastSpawnError_def onSandboxSocketAttached_def transitionSandboxStatus_def getSandbox_def)
    (simp_all add: bridge_row_def booting_row_def)

lemma quiet_closes: "close_each (ce_sockets (quiet_env now)) is s = s"
proof (induction "is" arbitrary: s)
  case (Cons i "is")
  have "close_socket (ce_sockets (quiet_env now)) i s = s"
    by (simp add: close_socket_def sql_update_idle)
  with Cons show ?case
    by simp
qed simp

lemma bridge_published:
  "on_sockets (publish_bridge (quiet_env now) i k bridge_admission t) (bridged ss ptr act hb al ts l)
    = bridged (ss @ [bridge_socket i k]) (Some i) (Some k) (Some t) al ts l"
  by (simp add: bridged_def on_sockets_def publish_bridge_def acceptAndSetSandboxSocket_def Let_def adopt_def
      bridge_row_heartbeat quiet_closes bridge_socket_def)

lemma bridge_fan_out:
  "list_all (\<lambda>s. is_sandbox (classify_tags (hs_tags s))) ss \<Longrightarrow>
     fan_out e (bridged ss ptr act hb al ts l) = bridged ss ptr act hb al ts l"
proof -
  have "list_all (\<lambda>s. is_sandbox (classify_tags (hs_tags s))) xs \<Longrightarrow> visit_clients e' m xs s = (s, [])" for e' m xs s
    by (induction xs) (auto simp: Let_def)
  moreover assume "list_all (\<lambda>s. is_sandbox (classify_tags (hs_tags s))) ss"
  ultimately show ?thesis
    by (simp add: fan_out_def on_sockets_def broadcast_def forEachClientSocket_def listed_def list_all_iff)
qed

definition attached_event :: "string \<Rightarrow> string \<Rightarrow> ms \<Rightarrow> session_event" where
  "attached_event i k now = Attached now i k bridge_admission True"

lemma bridge_pump:
  assumes "socket i (cw_sockets (bridged ss (Some i) (Some k) hb al ts l)) = Some (bridge_socket i k)"
  shows "pump_if_ready e (bridged ss (Some i) (Some k) hb al ts l) = bridged ss (Some i) (Some k) hb al ts l"
proof -
  let ?s = "cw_sockets (bridged ss (Some i) (Some k) hb al ts l)"
  have "isSocketOpen i ?s" "classify i ?s = SandboxConnection (Some ''sb-2'') (Some k)"
    using assms by (simp_all add: isSocketOpen_def classify_def tags_of_def)
  moreover have "sw_sandboxWs ?s = Some i"
    by (simp add: bridged_def)
  ultimately have "getSandboxCommandTarget (ce_sockets e) ?s = (?s, TargetBooting)"
    by (simp add: getSandboxCommandTarget_def getSandboxSocketForRow_def isDeadSandboxStatus_def
        isAuthoritative_def evaluateSandboxCommandAvailability_def)
  then show ?thesis
    by (simp add: pump_if_ready_def)
qed

lemma bridge_ended:
  assumes "list_all (\<lambda>s. is_sandbox (classify_tags (hs_tags s))) (ss @ [bridge_socket i k])"
    and "find (\<lambda>s. hs_id s = i) (ss @ [bridge_socket i k]) = Some (bridge_socket i k)"
  shows "attach_sandbox_ended (quiet_env now) i k bridge_admission t (bridged ss ptr act hb al [] l)
    = bridged (ss @ [bridge_socket i k]) (Some i) (Some k) (Some t) al [] (l @ [attached_event i k now])"
proof -
  have "socket i (cw_sockets (bridged (ss @ [bridge_socket i k]) (Some i) (Some k) (Some t) al [] l')) = Some (bridge_socket i k)" for l'
    using assms(2) by (simp add: socket_def)
  from bridge_pump [OF this] show ?thesis
    using bridge_fan_out [OF assms(1)]
    by (simp add: attach_sandbox_ended_def matchesAdmission_def bridge_published attached_event_def)
qed

text \<open>One bridge after the other; the close of the first one fails.\<close>

lemma bridge_cycle:
  assumes c: "connected sharp (bridged ss ptr act hb al [] l)"
    and i: "i \<notin> hs_id ` set ss" and k: "k \<noteq> []" "k \<notin> snd ` attached_ids l"
    and ss: "list_all (\<lambda>s. is_sandbox (classify_tags (hs_tags s))) ss"
  shows "connected sharp (bridged ss ptr act hb (schedule_deadline 32 al) [AttachScheduling i bridge_admission 2] l)"
    and "connection_step (quiet_env 3) (bridged ss ptr act hb (schedule_deadline 32 al) [AttachScheduling i bridge_admission 2] l)
      (bridged (ss @ [bridge_socket i k]) (Some i) (Some k) (Some 2) (schedule_deadline 32 al) [] (l @ [attached_event i k 3]))"
proof -
  have f: "fresh_socket i (bridged ss ptr' act' hb' al' ts l)" "fresh_bridge_id k (bridged ss ptr' act' hb' al' ts l)"
    for ptr' act' hb' al' ts
    using i k by (simp_all add: fresh_socket_def fresh_bridge_id_def)
  have n: "find (\<lambda>s. hs_id s = i) (ss @ [bridge_socket i k]) = Some (bridge_socket i k)"
    using i by (induction ss) auto
  have a: "list_all (\<lambda>s. is_sandbox (classify_tags (hs_tags s))) (ss @ [bridge_socket i k])"
    using ss by (simp add: is_sandbox_def)
  from connected_step [of _ 1, OF c sandbox_upgrade bridge_asks]
  have "connected sharp (bridged ss ptr act hb al [UpgradeHashing (Some ''key'') (bridge_row act hb)] l)" .
  from connected_step [of _ 1, OF this upgrade_hashed [of "Some ''key''" "bridge_row act hb" _ _ ExitRuntime]]
  have "connected sharp (bridged ss ptr act hb al [UpgradeAccepted bridge_admission] l)"
    by (simp add: bridge_hashed)
  from connected_step [of _ 2, OF this bridge_attaching [of bridge_admission _ i]]
  show c1: "connected sharp (bridged ss ptr act hb (schedule_deadline 32 al) [AttachScheduling i bridge_admission 2] l)"
    by (simp add: bridge_begun f)
  show "connection_step (quiet_env 3) (bridged ss ptr act hb (schedule_deadline 32 al) [AttachScheduling i bridge_admission 2] l)
      (bridged (ss @ [bridge_socket i k]) (Some i) (Some k) (Some 2) (schedule_deadline 32 al) [] (l @ [attached_event i k 3]))"
    using bridge_attached [of i bridge_admission 2 "bridged ss ptr act hb (schedule_deadline 32 al) [AttachScheduling i bridge_admission 2] l" k "quiet_env 3"]
    by (simp add: f bridge_ended [OF a n])
qed

abbreviation one_bridge :: connection_world where
  "one_bridge \<equiv> bridged [bridge_socket ''b1'' ''k1''] (Some ''b1'') (Some ''k1'') (Some 2)
     (schedule_deadline 32 None) [] [attached_event ''b1'' ''k1'' 3]"

abbreviation two_bridges :: connection_world where
  "two_bridges \<equiv> bridged [bridge_socket ''b1'' ''k1'', bridge_socket ''b2'' ''k2''] (Some ''b2'') (Some ''k2'') (Some 2)
     (schedule_deadline 32 (schedule_deadline 32 None)) [] [attached_event ''b1'' ''k1'' 3, attached_event ''b2'' ''k2'' 3]"

abbreviation before_bridge :: connection_world where
  "before_bridge \<equiv> bridged [] None None None (schedule_deadline 32 None) [AttachScheduling ''b1'' bridge_admission 2] []"

lemma before_bridge_run: "connected sharp before_bridge"
  by (rule bridge_cycle(1) [OF connected.fresh [OF bridged_opens], of _ "''k1''"]) (simp_all add: attached_ids_def)

lemma one_bridge_step: "connection_step (quiet_env 3) before_bridge one_bridge"
  using bridge_cycle(2) [OF connected.fresh [OF bridged_opens], of "''b1''" "''k1''"] by (simp add: attached_ids_def)

lemma one_bridge_run: "connected sharp one_bridge"
  by (rule connected_step [OF before_bridge_run one_bridge_step refl])

lemma two_bridges_run: "connected sharp two_bridges"
proof -
  have "snd ` attached_ids [attached_event ''b1'' ''k1'' 3] = {''k1''}"
    by (force simp: attached_ids_def attached_event_def)
  then have "''k2'' \<notin> snd ` attached_ids [attached_event ''b1'' ''k1'' 3]"
    by simp
  note c = bridge_cycle [OF one_bridge_run, of "''b2''" "''k2''", OF _ _ this]
  have "connected sharp (bridged [bridge_socket ''b1'' ''k1''] (Some ''b1'') (Some ''k1'') (Some 2)
      (schedule_deadline 32 (schedule_deadline 32 None)) [AttachScheduling ''b2'' bridge_admission 2] [attached_event ''b1'' ''k1'' 3])"
    by (rule c(1)) (simp_all add: is_sandbox_def)
  moreover have "connection_step (quiet_env 3) (bridged [bridge_socket ''b1'' ''k1''] (Some ''b1'') (Some ''k1'') (Some 2)
      (schedule_deadline 32 (schedule_deadline 32 None)) [AttachScheduling ''b2'' bridge_admission 2] [attached_event ''b1'' ''k1'' 3]) two_bridges"
    using c(2) by (simp add: is_sandbox_def)
  ultimately show ?thesis
    by (rule connected_step) (rule refl)
qed

end
