(* ===== verification/Connection_Theorems.thy ===== *)
theory Connection_Theorems
  imports Connection_Safety Connection_Demo
begin

text \<open>
  The properties of a session's connections, over every reachable state of their step relation.
\<close>

section \<open>Commands\<close>

lemma grant_split:
  "lease_of l i W pid x \<Longrightarrow> \<exists>t info p r b xs ys. l = xs @ Granted t i W info p r b # ys
     \<and> ci_participantId info = pid \<and> ci_authorizationExpiresAt info = x"
proof -
  assume "lease_of l i W pid x"
  then obtain t info p r b where "Granted t i W info p r b \<in> set l" "ci_participantId info = pid"
    "ci_authorizationExpiresAt info = x"
    unfolding lease_of_def by blast
  then show ?thesis
    by (metis split_list)
qed



section \<open>Bridges\<close>

lemma socket_of: "socket i s = Some x \<Longrightarrow> x \<in> set (sw_sockets s) \<and> hs_id x = i"
  by (auto simp: socket_def dest: find_SomeD)

lemma socket_known:
  assumes "distinct (map hs_id (sw_sockets s))" and "x \<in> set (sw_sockets s)"
  shows "socket (hs_id x) s = Some x"
proof -
  obtain y where y: "socket (hs_id x) s = Some y"
    using assms(2) by (cases "socket (hs_id x) s") (auto simp: socket_def dest: find_NoneD)
  then have "y = x"
    using socket_of [OF y] assms by (auto simp: distinct_map inj_on_def)
  with y show ?thesis
    by simp
qed

text \<open>An authoritative socket was attached under the id the row names.\<close>

lemma active_attached:
  assumes w: "world_sound h w" and a: "isActiveSandboxSocket i (cw_sockets w)"
  shows "\<exists>k. (i, k) \<in> attached_ids (cw_log w) \<and> names k w"
proof -
  let ?s = "cw_sockets w"
  obtain m act where n: "named (sw_sandbox ?s) = Some (m, act)"
    and c: "\<exists>sid. classify i ?s = SandboxConnection sid act"
    using a by (auto simp: active_named split: connection.splits option.splits)
  obtain x where x: "socket i ?s = Some x"
    using c by (cases "socket i ?s") (auto simp: classify_def tags_of_def classify_no_tags)
  have "tags_sound (cw_log w) x" and "hs_id x = i"
    using sockets_soundD(2) [OF world_soundD(1) [OF w], of x] socket_of [OF x] by auto
  then obtain k where "(i, k) \<in> attached_ids (cw_log w)" "act = Some k"
    using c x by (auto simp: tags_sound_def classify_def tags_of_def)
  then show ?thesis
    using n by (auto simp: names_def)
qed

lemma names_unique: "names k w \<Longrightarrow> names k' w \<Longrightarrow> k = k'"
  by (auto simp: names_def)

lemma active_unique:
  assumes w: "world_sound h w" and "isActiveSandboxSocket i (cw_sockets w)" and "isActiveSandboxSocket j (cw_sockets w)"
  shows "i = j"
  using active_attached [OF w assms(2)] active_attached [OF w assms(3)] names_unique
    bridges_injective [OF world_soundD(2) [OF w]] by blast

text \<open>What the attaching step leaves.\<close>

lemma attached_row:
  assumes "matchesAdmission (sandbox_of w) a"
  shows "names k (on_sockets (publish_bridge e i k a t) w)"
proof -
  have "named (sw_sandbox (publish_bridge e i k a t (cw_sockets w)))
      = map_option (\<lambda>(m, x). (m, Some k)) (named (sw_sandbox (cw_sockets w)))"
    using publish_shape [where s = "cw_sockets w"] by blast
  moreover have "named (sw_sandbox (cw_sockets w)) \<noteq> None"
    using assms by (auto simp: matchesAdmission_def named_def sandbox_of_def)
  ultimately show ?thesis
    by (auto simp: names_def on_sockets_def)
qed

lemma classify_known:
  assumes "world_sound h w" and "x \<in> set (sw_sockets (cw_sockets w))"
  shows "classify (hs_id x) (cw_sockets w) = classify_tags (hs_tags x)"
  using socket_known [OF sockets_soundD(1) [OF world_soundD(1) [OF assms(1)]] assms(2)]
  by (simp add: classify_def tags_of_def)

lemma named_quiets: "quiets s s' \<Longrightarrow> named (sw_sandbox s') = named (sw_sandbox s)"
  by (simp add: quiets_def)

lemma ended_shape:
  assumes "matchesAdmission (sandbox_of w) a"
  shows "\<exists>b. hushes (log_event (Attached (now_of e) i k a b) (on_sockets (publish_bridge e i k a t) w))
    (attach_sandbox_ended e i k a t w)"
  using assms by (auto simp: attach_sandbox_ended_def Let_def
      intro: hushes_pump hushes_trans [OF hushes_fan_out hushes_pump])

lemma plain_unattached: "list_all plain xs \<Longrightarrow> Attached t i k a b \<notin> set xs"
  by (metis list_all_iff plain.simps(1))

lemma same_token:
  "admission_of r = admission_of r' \<Longrightarrow> isValidSandboxToken h token (Some r) = isValidSandboxToken h token (Some r')"
  by (simp add: isValidSandboxToken_def admission_of_def)

lemma ended_active:
  assumes w: "world_sound h w" and f: "fresh_socket i w" "fresh_bridge_id k w"
    and m: "matchesAdmission (sandbox_of w) a"
  shows "isActiveSandboxSocket i (cw_sockets (attach_sandbox_ended e i k a t w))"
proof -
  let ?s = "cw_sockets w" and ?w' = "attach_sandbox_ended e i k a t w"
  let ?p = "publish_bridge e i k a t ?s"
  have p: "quiets ((adopt i (sandbox_tags (sa_sandboxId a) k) ?s)\<lparr>sw_sandbox := sw_sandbox ?p\<rparr>) ?p"
    and n: "named (sw_sandbox ?p) = map_option (\<lambda>(m, x). (m, Some k)) (named (sw_sandbox ?s))"
    using publish_shape [where s = ?s] by blast+
  have q: "quiets ?p (cw_sockets ?w')"
    using ended_shape [OF m, of e i k t] by (auto simp: hushes_def log_event_def on_sockets_def)
  have "\<lparr>hs_id = i, hs_tags = sandbox_tags (sa_sandboxId a) k, hs_open = True, hs_listed = True\<rparr>
      \<in> set (sw_sockets ((adopt i (sandbox_tags (sa_sandboxId a) k) ?s)\<lparr>sw_sandbox := sw_sandbox ?p\<rparr>))"
    by (simp add: adopt_def)
  from quiets_member [OF quiets_trans [OF p q] this] obtain y where
    y: "y \<in> set (sw_sockets (cw_sockets ?w'))" "hs_id y = i" "hs_tags y = sandbox_tags (sa_sandboxId a) k"
    by auto
  have "classify i (cw_sockets ?w') = SandboxConnection (if truthy (sa_sandboxId a) then sa_sandboxId a else None) (Some k)"
    using classify_known [OF attach_ended_sound [OF w f] y(1)] y by simp
  moreover have "named (sw_sandbox (cw_sockets ?w')) = Some (sa_sandboxId a, Some k)"
    using n m named_quiets [OF q]
    by (auto simp: matchesAdmission_def named_def sandbox_of_def admission_of_def)
  ultimately show ?thesis
    by (simp add: active_named)
qed



text \<open>What \<open>getSandboxSocket\<close> answers.\<close>

definition named_bridge :: "socket_world \<Rightarrow> string option" where
  "named_bridge s =
     (if some_holds (\<lambda>r. isDeadSandboxStatus (sb_status r)) (getSandbox (sw_sandbox s)) then None
      else map_option hs_id (find (\<lambda>x. hs_open x \<and> isActiveSandboxSocket (hs_id x) s) (sw_sockets s)))"

lemma open_after_close: "i \<noteq> j \<Longrightarrow> isSocketOpen i (close_socket e j s) = isSocketOpen i s"
proof (unfold isSocketOpen_def socket_def close_socket_def, simp)
  assume "i \<noteq> j"
  then show "(\<exists>a. find (\<lambda>s. hs_id s = i) (sql_update (\<lambda>s. hs_id s = j \<and> sv_closes e j) (hs_open_update (\<lambda>_. False)) xs) = Some a \<and> hs_open a)
      = (\<exists>a. find (\<lambda>s. hs_id s = i) xs = Some a \<and> hs_open a)" for xs
    by (induction xs) (auto simp: sql_update_def)
qed

lemma recover_answer:
  assumes "\<And>x. x \<in> set ss \<Longrightarrow> isAuthoritative (classify_tags (hs_tags x)) row \<Longrightarrow> isSocketOpen (hs_id x) s = hs_open x"
    and "distinct (map hs_id ss)"
  shows "snd (recover_bridge e row ss s)
    = map_option hs_id (find (\<lambda>x. hs_open x \<and> isAuthoritative (classify_tags (hs_tags x)) row) ss)"
  using assms
proof (induction ss arbitrary: s)
  case (Cons x ss)
  show ?case
  proof (cases "classify_tags (hs_tags x)")
    case (SandboxConnection sid k)
    let ?answer = "map_option hs_id (find (\<lambda>x. hs_open x \<and> isAuthoritative (classify_tags (hs_tags x)) row) ss)"
    have ih: "snd (recover_bridge e row ss s) = ?answer"
      using Cons.IH Cons.prems by simp
    have ih': "snd (recover_bridge e row ss (close_socket e (hs_id x) s)) = ?answer"
    proof (rule Cons.IH)
      fix y
      assume y: "y \<in> set ss" "isAuthoritative (classify_tags (hs_tags y)) row"
      have "hs_id y \<noteq> hs_id x"
      proof
        assume "hs_id y = hs_id x"
        then have "hs_id x \<in> hs_id ` set ss"
          using y(1) by (metis image_eqI)
        then show False
          using Cons.prems(2) by simp
      qed
      then show "isSocketOpen (hs_id y) (close_socket e (hs_id x) s) = hs_open y"
        using Cons.prems(1) y by (simp add: open_after_close)
    qed (use Cons.prems(2) in simp)
    show ?thesis
      using Cons.prems(1) [of x] SandboxConnection ih ih'
      by (auto simp: isAuthoritative_def split: option.splits)
  qed (use Cons in \<open>simp add: isAuthoritative_def\<close>)
qed simp

lemma socket_open_known:
  assumes "world_sound h w" and "x \<in> set (sw_sockets (cw_sockets w))"
  shows "isSocketOpen (hs_id x) (cw_sockets w) = hs_open x"
  using socket_known [OF sockets_soundD(1) [OF world_soundD(1) [OF assms(1)]] assms(2)]
  by (simp add: isSocketOpen_def)

lemma find_filter_listed: "(\<And>x. x \<in> set xs \<Longrightarrow> p x \<Longrightarrow> q x) \<Longrightarrow> find p (filter q xs) = find p xs"
  by (induction xs) auto

lemma find_calmer:
  assumes "list_all2 calmer xs ys" and "\<And>x y. x \<in> set xs \<Longrightarrow> y \<in> set ys \<Longrightarrow> calmer x y \<Longrightarrow> p x = q y"
  shows "map_option hs_id (find q ys) = map_option hs_id (find p xs)"
  using assms by (induction rule: list_all2_induct) (auto simp: calmer_def)

text \<open>Recovery from a state in which no socket with authority was closed.\<close>

lemma recover_named:
  assumes w: "world_sound h w"
    and live: "\<not> some_holds (\<lambda>r. isDeadSandboxStatus (sb_status r)) (getSandbox (sw_sandbox (cw_sockets w)))"
    and q: "quiets (cw_sockets w) s"
    and o: "\<And>x. x \<in> set (sw_sockets (cw_sockets w)) \<Longrightarrow> isActiveSandboxSocket (hs_id x) (cw_sockets w) \<Longrightarrow>
       isSocketOpen (hs_id x) s = hs_open x"
  shows "snd (recover_bridge e (getSandbox (sw_sandbox (cw_sockets w))) (listed s) s) = named_bridge (cw_sockets w)"
proof -
  let ?S = "cw_sockets w" and ?row = "getSandbox (sw_sandbox (cw_sockets w))"
  let ?auth = "\<lambda>x. isAuthoritative (classify_tags (hs_tags x)) ?row"
  have ss: "sockets_sound (cw_log w) s"
    using sockets_sound_quiets [OF world_soundD(1) [OF w] q, of "[]"] by simp
  have op: "isSocketOpen (hs_id y) s = hs_open y" if "y \<in> set (sw_sockets s)" for y
    using socket_known [OF sockets_soundD(1) [OF ss] that] by (simp add: isSocketOpen_def)
  have auth: "isActiveSandboxSocket (hs_id x) ?S = ?auth x" if "x \<in> set (sw_sockets ?S)" for x
    by (simp add: isActiveSandboxSocket_def classify_known [OF w that])
  have "snd (recover_bridge e ?row (listed s) s)
      = map_option hs_id (find (\<lambda>x. hs_open x \<and> ?auth x) (listed s))"
    by (rule recover_answer)
      (use op sockets_soundD(1) [OF ss] in \<open>auto simp: listed_def distinct_map inj_on_def intro: distinct_filter\<close>)
  also have "\<dots> = map_option hs_id (find (\<lambda>x. hs_open x \<and> ?auth x) (sw_sockets s))"
    unfolding listed_def
    by (rule arg_cong [where f = "map_option hs_id"], rule find_filter_listed) (use sockets_soundD(3) [OF ss] in blast)
  also have "\<dots> = map_option hs_id (find (\<lambda>x. hs_open x \<and> isActiveSandboxSocket (hs_id x) ?S) (sw_sockets ?S))"
  proof (rule find_calmer)
    show "list_all2 calmer (sw_sockets ?S) (sw_sockets s)"
      using q by (simp add: quiets_def)
    show "(hs_open x \<and> isActiveSandboxSocket (hs_id x) ?S) = (hs_open y \<and> ?auth y)"
      if "x \<in> set (sw_sockets ?S)" "y \<in> set (sw_sockets s)" "calmer x y" for x y
      using o [OF that(1)] op [OF that(2)] auth [OF that(1)] that(3) by (auto simp: calmer_def)
  qed
  finally show ?thesis
    unfolding named_bridge_def if_not_P [OF live] .
qed

lemma named_bridge_active:
  assumes w: "world_sound h w" and p: "isSocketOpen p (cw_sockets w)" and a: "isActiveSandboxSocket p (cw_sockets w)"
    and live: "\<not> some_holds (\<lambda>r. isDeadSandboxStatus (sb_status r)) (getSandbox (sw_sandbox (cw_sockets w)))"
  shows "named_bridge (cw_sockets w) = Some p"
proof -
  let ?q = "\<lambda>x. hs_open x \<and> isActiveSandboxSocket (hs_id x) (cw_sockets w)"
  obtain x where x: "x \<in> set (sw_sockets (cw_sockets w))" "hs_id x = p" "hs_open x"
    using p by (auto simp: isSocketOpen_def dest: socket_of)
  obtain y where y: "find ?q (sw_sockets (cw_sockets w)) = Some y"
    using x a by (cases "find ?q (sw_sockets (cw_sockets w))") (auto dest: find_NoneD)
  have "hs_id y = p"
    using find_SomeD [OF y] a active_unique [OF w] by blast
  then show ?thesis
    unfolding named_bridge_def if_not_P [OF live] by (simp add: y)
qed

lemma lookup_row:
  assumes "connected h w"
  shows "snd (getSandboxSocket e (cw_sockets w)) = named_bridge (cw_sockets w)"
proof -
  let ?S = "cw_sockets w" and ?row = "getSandbox (sw_sandbox (cw_sockets w))"
  note w = connected_sound [OF assms]
  have "snd (getSandboxSocketForRow e ?row ?S) = named_bridge ?S"
  proof (cases "some_holds (\<lambda>r. isDeadSandboxStatus (sb_status r)) ?row")
    case False
    have fresh: "snd (recover_bridge e ?row (listed ?S) ?S) = named_bridge ?S"
      by (rule recover_named [OF w False quiets_refl]) (rule socket_open_known [OF w])
    have closed: "snd (recover_bridge e ?row (listed s1) s1) = named_bridge ?S"
      if "s1 = (close_socket e p ?S)\<lparr>sw_sandboxWs := None\<rparr>" "\<not> isActiveSandboxSocket p ?S" for p s1
    proof (rule recover_named [OF w False])
      show "quiets ?S s1"
        by (simp add: that(1) quiets_close)
      show "isSocketOpen (hs_id x) s1 = hs_open x"
        if x: "x \<in> set (sw_sockets ?S)" "isActiveSandboxSocket (hs_id x) ?S" for x
      proof -
        have "hs_id x \<noteq> p"
          using x(2) \<open>\<not> isActiveSandboxSocket p ?S\<close> by blast
        then have "isSocketOpen (hs_id x) (close_socket e p ?S) = hs_open x"
          by (simp add: open_after_close socket_open_known [OF w x(1)])
        then show ?thesis
          by (simp add: \<open>s1 = _\<close> isSocketOpen_def socket_def)
      qed
    qed
    show ?thesis
      using False fresh closed named_bridge_active [OF w _ _ False]
      by (auto simp: getSandboxSocketForRow_def Let_def isActiveSandboxSocket_def split: option.split)
  qed (auto simp: getSandboxSocketForRow_def named_bridge_def)
  then show ?thesis
    by (simp add: getSandboxSocket_def)
qed

lemma lookup_target:
  assumes "connected h w"
  shows "snd (getSandboxCommandTarget e (cw_sockets w)) = TargetDispatch i
    \<longleftrightarrow> named_bridge (cw_sockets w) = Some i
      \<and> some_holds (\<lambda>r. evaluateSandboxCommandAvailability (sb_status r) = Dispatch) (sandbox_of w)"
  using lookup_row [OF assms, of e]
  by (auto simp: getSandboxSocket_def getSandboxCommandTarget_def case_prod_unfold sandbox_of_def
      split: option.splits command_availability.splits)

text \<open>
  C36. However the session came to be where it is (bridges replaced whose closes failed, closes that
  never arrived, a pointer cached or lost in a restart, sockets of other sandboxes still listed),
  looking up the bridge answers with the one open socket that carries the identity the sandbox row names, and
  with none when the row names none, its socket is gone, or the sandbox is dead; and commands are
  dispatched to exactly that socket, when the row is ready.
\<close>

theorem lookup_is_the_named_bridge:
  assumes "connected h w"
  shows "snd (getSandboxSocket e (cw_sockets w)) = named_bridge (cw_sockets w)
    \<and> (snd (getSandboxCommandTarget e (cw_sockets w)) = TargetDispatch i
         \<longleftrightarrow> named_bridge (cw_sockets w) = Some i
           \<and> some_holds (\<lambda>r. evaluateSandboxCommandAvailability (sb_status r) = Dispatch) (sandbox_of w))"
  using lookup_row [OF assms] lookup_target [OF assms] by blast

theorem lookup_is_the_named_bridge_witness:
  "snd (getSandboxSocket (ce_sockets (quiet_env 9)) (cw_sockets two_bridges)) = Some ''b2''
   \<and> snd (getSandboxCommandTarget (ce_sockets (quiet_env 9)) (cw_sockets two_bridges)) \<noteq> TargetDispatch ''b2''"
proof -
  have "named_bridge (cw_sockets two_bridges) = Some ''b2''"
    by (simp add: named_bridge_def active_named named_def classify_def tags_of_def socket_def isDeadSandboxStatus_def)
  then show ?thesis
    using lookup_is_the_named_bridge [OF two_bridges_run, of "ce_sockets (quiet_env 9)" "''b2''"]
    by (simp add: evaluateSandboxCommandAvailability_def isDeadSandboxStatus_def)
qed

lemma named_bridge_is_active:
  assumes "named_bridge s = Some i"
  shows "isActiveSandboxSocket i s"
  using assms by (auto simp: named_bridge_def dest!: find_SomeD split: if_splits)

text \<open>One step from a state in which the identity of a bridge is no longer the row's.\<close>

lemma retired_step:
  assumes w: "world_sound h w" and st: "connection_step e w w'"
    and k: "(i, k) \<in> attached_ids (cw_log w)" and n: "\<not> names k w"
  shows "\<not> names k w' \<and> (\<exists>xs. cw_log w' = cw_log w @ xs \<and> (\<forall>t. BridgeFrame t i \<notin> set xs))"
proof -
  have kn: "k \<noteq> []"
    using bridges_known [OF world_soundD(2) [OF w] k] by blast
  from step_log [OF st] show ?thesis
  proof (elim disjE exE conjE)
    assume "lengthens bridgeless w w'"
    then obtain xs where "sw_sandbox (cw_sockets w') = sw_sandbox (cw_sockets w)"
      "cw_log w' = cw_log w @ xs" "list_all bridgeless xs"
      by (auto simp: lengthens_def)
    moreover have "BridgeFrame t i \<notin> set xs" if "list_all bridgeless xs" for t
      using that by (metis bridgeless.simps(2) list_all_iff)
    ultimately show ?thesis
      using n by (simp add: names_def)
  next
    assume "cw_log w' = cw_log w" "\<forall>k. k \<noteq> [] \<and> names k w' \<longrightarrow> names k w"
    then show ?thesis
      using n kn by auto
  next
    fix j assume a: "isActiveSandboxSocket j (cw_sockets w)" and w': "w' = log_event (BridgeFrame (now_of e) j) w"
    obtain k' where "(j, k') \<in> attached_ids (cw_log w)" "names k' w"
      using active_attached [OF w a] by blast
    then have "j \<noteq> i"
      using n bridges_injective [OF world_soundD(2) [OF w] k] by blast
    then show ?thesis
      using n by (auto simp: w' log_event_def names_def)
  next
    fix i0 k0 a0 t0
    let ?w = "resumed (AttachScheduling i0 a0 t0) w"
    assume f: "fresh_bridge_id k0 w" and m: "matchesAdmission (sandbox_of w) a0"
      and w': "w' = attach_sandbox_ended e i0 k0 a0 t0 ?w"
    have m': "matchesAdmission (sandbox_of ?w) a0"
      using m by (simp add: sandbox_of_def)
    obtain b xs where q: "quiets (publish_bridge e i0 k0 a0 t0 (cw_sockets w)) (cw_sockets w')"
      and l: "cw_log w' = cw_log w @ Attached (now_of e) i0 k0 a0 b # xs" "list_all plain xs"
      using ended_shape [OF m', of e i0 k0 t0] unfolding w' [symmetric]
      by (auto simp: hushes_def log_event_def on_sockets_def)
    have "names k0 w'"
      using attached_row [OF m', of k0 e i0 t0] named_quiets [OF q] by (simp add: names_def on_sockets_def)
    moreover have "k0 \<noteq> k"
      using f k by (force simp: fresh_bridge_id_def)
    moreover have "BridgeFrame t i \<notin> set xs" for t
      using l(2) by (metis list_all_iff plain.simps(4))
    ultimately show ?thesis
      using names_unique [of k0 w' k] l(1) by auto
  qed
qed

lemma attached_ids_mono: "(i, k) \<in> attached_ids l \<Longrightarrow> (i, k) \<in> attached_ids (l @ xs)"
  by simp

lemma retired_steps:
  assumes "connection_steps h w w'" and "world_sound h w"
    and "(i, k) \<in> attached_ids (cw_log w)" and "\<not> names k w"
  shows "world_sound h w' \<and> (i, k) \<in> attached_ids (cw_log w') \<and> \<not> names k w'
    \<and> (\<exists>xs. cw_log w' = cw_log w @ xs \<and> (\<forall>t. BridgeFrame t i \<notin> set xs))"
  using assms
proof (induction rule: connection_steps.induct)
  case (later w w1 e w2)
  then have w1: "world_sound h w1" and k: "(i, k) \<in> attached_ids (cw_log w1)" and n: "\<not> names k w1"
    by blast+
  obtain xs where xs: "cw_log w1 = cw_log w @ xs" "\<And>t. BridgeFrame t i \<notin> set xs"
    using later by blast
  obtain ys where ys: "cw_log w2 = cw_log w1 @ ys" "\<And>t. BridgeFrame t i \<notin> set ys" and n2: "\<not> names k w2"
    using retired_step [OF w1 later.hyps(2) k n] by blast
  have "world_sound h w2"
    using step_sound [OF later.hyps(2)] w1 later.hyps(3) by simp
  moreover have "(i, k) \<in> attached_ids (cw_log w2)"
    using k attached_ids_mono by (simp add: ys(1))
  moreover have "cw_log w2 = cw_log w @ (xs @ ys) \<and> (\<forall>t. BridgeFrame t i \<notin> set (xs @ ys))"
    using xs ys by auto
  ultimately show ?case
    using n2 by blast
qed simp

text \<open>
  C11. A bridge that has been replaced never comes back: once the row has stopped naming the identity
  a bridge was attached under (another bridge attached, the bridge was detached, a new generation was
  reserved), then however the session goes on, across restarts and with the old socket still open because its
  close failed or is late, that socket is never again the active bridge, lookups never answer
  with it, commands are never dispatched to it, and none of its frames is processed.
\<close>

theorem replaced_bridge_never_returns:
  assumes "connected h w" and "Attached t i k a b \<in> set (cw_log w)" and "\<not> names k w"
    and "connection_steps h w w'"
  shows "\<not> isActiveSandboxSocket i (cw_sockets w')
    \<and> snd (getSandboxSocket e (cw_sockets w')) \<noteq> Some i
    \<and> snd (getSandboxCommandTarget e (cw_sockets w')) \<noteq> TargetDispatch i
    \<and> (\<exists>xs. cw_log w' = cw_log w @ xs \<and> (\<forall>t. BridgeFrame t i \<notin> set xs))"
proof -
  have k: "(i, k) \<in> attached_ids (cw_log w)"
    using assms(2) unfolding attached_ids_def by blast
  note r = retired_steps [OF assms(4) connected_sound [OF assms(1)] k assms(3)]
  have c: "connected h w'"
    using assms(4, 1) by (induction rule: connection_steps.induct) (auto intro: connected.step)
  have n: "\<not> isActiveSandboxSocket i (cw_sockets w')"
  proof
    assume "isActiveSandboxSocket i (cw_sockets w')"
    then obtain k' where "(i, k') \<in> attached_ids (cw_log w')" "names k' w'"
      using active_attached r by blast
    then show False
      using r bridges_injective [OF world_soundD(2), of h w' i k i k'] by blast
  qed
  then have "named_bridge (cw_sockets w') \<noteq> Some i"
    using named_bridge_is_active by blast
  then show ?thesis
    using n r by (simp add: lookup_row [OF c] lookup_target [OF c])
qed

theorem replaced_bridge_never_returns_witness:
  "isSocketOpen ''b1'' (cw_sockets two_bridges) \<and> \<not> isActiveSandboxSocket ''b1'' (cw_sockets (restarted True two_bridges))"
proof -
  have "\<not> names ''k1'' two_bridges" and "Attached 3 ''b1'' ''k1'' bridge_admission True \<in> set (cw_log two_bridges)"
    by (simp_all add: names_def named_def attached_event_def)
  moreover have "connection_steps sharp two_bridges (restarted True two_bridges)"
    by (rule connection_steps.later [OF connection_steps.here restart [where e = "quiet_env 9"]]) simp
  ultimately have "\<not> isActiveSandboxSocket ''b1'' (cw_sockets (restarted True two_bridges))"
    using replaced_bridge_never_returns [OF two_bridges_run] by blast
  then show ?thesis
    by (simp add: isSocketOpen_def socket_def)
qed

section \<open>Leases\<close>

text \<open>The table after \<open>schedule\<close>'s writes, whatever the slot.\<close>

lemma deadline_writes: "fst (run_writes ops (schedule_writes d t) (t, s)) = schedule_deadline d t"
  by (cases t) (auto simp: schedule_writes_def schedule_deadline_def row_defs Let_def min_bound_def new_alarm_row_def
      split: option.splits)

lemma deadline_scheduled: "\<exists>d'. earliest (schedule_deadline d t) = Some d' \<and> d' \<le> d"
  by (cases t) (auto simp: schedule_deadline_def setPendingEarliest_def earliest_def activate_def cancelled_def
      min_present_def new_alarm_row_def min_bound_def Let_def split: option.split)

lemma next_expiry: "m \<in> set ms \<Longrightarrow>
    \<exists>t. getNextAuthorizationExpiry ms = Some t \<and> t \<le> wm_authorizationExpiresAt m"
proof (induction ms)
  case (Cons a ms)
  then show ?case
    by (cases "foldr (\<lambda>m d. Some (min_bound (wm_authorizationExpiresAt m) d)) ms None")
      (auto simp: getNextAuthorizationExpiry_def min_bound_def)
qed simp

lemma client_teardown [simp]:
  "client j (rejectExpiredAuthorization e i parsed s) = (if j = i then None else client j s)"
proof -
  have "find (\<lambda>c. fst c = j) (sql_delete (\<lambda>c. fst c = i) cs) = (if j = i then None else find (\<lambda>c. fst c = j) cs)"
    for cs :: "(string \<times> client_info) list"
    by (induction cs) auto
  then show ?thesis
    by (simp add: client_def rejectExpiredAuthorization_def teardownClient_def close_socket_def)
qed

lemma expire_sockets_client:
  "client j (expire_sockets e now ss s) = Some c \<Longrightarrow> client j s = Some c"
proof (induction ss arbitrary: s)
  case (Cons x ss)
  have "client j s = Some c"
    if "client j (expire_sockets e now ss (rejectExpiredAuthorization e i parsed s)) = Some c" for i parsed
    using Cons.IH [OF that] by (simp split: if_splits)
  then show ?case
    using Cons.IH [of s] Cons.prems unfolding expire_sockets.simps Let_def by (metis (full_types))
qed simp

lemma expire_sockets_leases:
  "x \<in> set ss \<Longrightarrow> \<not> is_sandbox (classify_tags (hs_tags x)) \<Longrightarrow>
     client (hs_id x) (expire_sockets e now ss s) = Some c \<Longrightarrow> now < ci_authorizationExpiresAt c"
proof (induction ss arbitrary: s)
  case (Cons a ss)
  show ?case
  proof (cases "x = a")
    case True
    from expire_sockets_client [OF Cons.prems(3)] have c: "client (hs_id x) s = Some c" .
    show ?thesis
    proof (rule ccontr)
      assume "\<not> now < ci_authorizationExpiresAt c"
      then have "client (hs_id x) (expire_sockets e now ss (rejectExpiredAuthorization e (hs_id x) (classify_tags (hs_tags x)) s)) = Some c"
        using Cons.prems(2, 3) c True by (simp add: authorizationExpiry_def)
      from expire_sockets_client [OF this] show False
        by simp
    qed
  next
    case False
    with Cons.prems(1) have "x \<in> set ss"
      by simp
    with Cons.IH Cons.prems(2, 3) show ?thesis
      unfolding expire_sockets.simps Let_def by (metis (full_types))
  qed
qed simp

lemma sweep_leaves:
  assumes "s' = expireAuthorizationLeases e now s"
  shows "list_all (\<lambda>m. now < wm_authorizationExpiresAt m \<and> m \<in> set (sw_mappings s)
        \<and> (\<exists>d. earliest (sw_alarm s') = Some d \<and> d \<le> wm_authorizationExpiresAt m)) (sw_mappings s')
    \<and> list_all (\<lambda>x. none_or (\<lambda>c. now < ci_authorizationExpiresAt c \<and> client (hs_id x) s = Some c) (client (hs_id x) s'))
      (filter (\<lambda>x. \<not> is_sandbox (classify_tags (hs_tags x))) (listed s))"
proof -
  let ?s1 = "expire_sockets e now (listed s) s"
  have cl: "client j s' = client j ?s1" for j
    by (simp add: assms expireAuthorizationLeases_def Let_def client_def split: option.split)
  have ms: "sw_mappings s' = deleteExpiredMappings now (sw_mappings ?s1)"
    by (simp add: assms expireAuthorizationLeases_def Let_def split: option.split)
  have al: "\<exists>d. earliest (sw_alarm s') = Some d \<and> d \<le> wm_authorizationExpiresAt m" if m: "m \<in> set (sw_mappings s')" for m
  proof -
    obtain t where t: "getNextAuthorizationExpiry (sw_mappings s') = Some t" "t \<le> wm_authorizationExpiresAt m"
      using next_expiry [OF m] by blast
    then have "sw_alarm s' = schedule_deadline t (sw_alarm ?s1)"
      using ms by (simp add: assms expireAuthorizationLeases_def Let_def split: option.splits)
    with t deadline_scheduled [of t "sw_alarm ?s1"] show ?thesis
      by force
  qed
  have sub: "set (sw_mappings ?s1) \<subseteq> set (sw_mappings s)"
    using quiets_expire_sockets [of s e now "listed s"] by (simp add: quiets_def)
  have left: "now < wm_authorizationExpiresAt m \<and> m \<in> set (sw_mappings s)" if "m \<in> set (sw_mappings s')" for m
    using that ms sub by (auto simp: deleteExpiredMappings_def)
  have clients: "now < ci_authorizationExpiresAt c \<and> client (hs_id x) s = Some c"
    if "x \<in> set (listed s)" "\<not> is_sandbox (classify_tags (hs_tags x))" "client (hs_id x) s' = Some c" for x c
    using expire_sockets_leases [OF that(1, 2)] expire_sockets_client that(3) unfolding cl by blast
  show ?thesis
    using left al clients by (simp add: list_all_iff) blast
qed


section \<open>Presence\<close>

lemma project_snoc:
  "project_onto ps (cs @ [c]) =
     (let r = project_onto ps cs in
      if find (\<lambda>p. pp_participantId p = ci_participantId c) r = None then r @ [present_as c]
      else sql_update (\<lambda>p. pp_participantId p = ci_participantId c) (merge_presence c) r)"
  by (induction cs arbitrary: ps) (simp_all add: Let_def)

definition presence_of :: "client_info list \<Rightarrow> participant_presence \<Rightarrow> bool" where
  "presence_of cs p \<longleftrightarrow>
     (pp_status p = PresenceActive \<longleftrightarrow>
        (\<exists>c \<in> set cs. ci_participantId c = pp_participantId p \<and> ci_status c = PresenceActive))
     \<and> (\<exists>c \<in> set cs. ci_participantId c = pp_participantId p \<and> pp_lastSeen p = ci_lastSeen c)
     \<and> (\<forall>c \<in> set cs. ci_participantId c = pp_participantId p \<longrightarrow> ci_lastSeen c \<le> pp_lastSeen p)"

lemma presence_other: "presence_of cs p \<Longrightarrow> ci_participantId c \<noteq> pp_participantId p \<Longrightarrow> presence_of (cs @ [c]) p"
  by (auto simp: presence_of_def)

lemma presence_merged: "presence_of cs p \<Longrightarrow> ci_participantId c = pp_participantId p \<Longrightarrow>
    presence_of (cs @ [c]) (merge_presence c p)"
  by (auto simp: presence_of_def merge_presence_def max_def)

lemma presence_new: "ci_participantId c \<notin> ci_participantId ` set cs \<Longrightarrow> presence_of (cs @ [c]) (present_as c)"
  by (auto simp: presence_of_def present_as_def) (metis image_eqI)+

lemma merged_ids [simp]: "map pp_participantId (sql_update q (merge_presence c) r) = map pp_participantId r"
  by (auto simp: sql_update_def merge_presence_def)

lemma presence_projected:
  "distinct (map pp_participantId (project_onto [] cs))
   \<and> set (map pp_participantId (project_onto [] cs)) = ci_participantId ` set cs
   \<and> list_all (presence_of cs) (project_onto [] cs)"
proof (induction cs rule: rev_induct)
  case (snoc c cs)
  let ?r = "project_onto [] cs"
  show ?case
  proof (cases "find (\<lambda>p. pp_participantId p = ci_participantId c) ?r")
    case None
    then have new: "ci_participantId c \<notin> pp_participantId ` set ?r"
      by (auto dest: find_NoneD)
    then have "list_all (presence_of (cs @ [c])) ?r"
      using snoc by (auto simp: list_all_iff intro!: presence_other)
    moreover have "presence_of (cs @ [c]) (present_as c)"
      using new snoc by (intro presence_new) simp
    ultimately show ?thesis
      using snoc new None by (auto simp: project_snoc Let_def present_as_def)
  next
    case (Some p)
    then have p: "p \<in> set ?r" "pp_participantId p = ci_participantId c"
      using find_SomeD by fast+
    have "ci_participantId c \<in> pp_participantId ` set ?r"
      using imageI [OF p(1), of pp_participantId] p(2) by simp
    moreover have "list_all (presence_of (cs @ [c])) (sql_update (\<lambda>p. pp_participantId p = ci_participantId c) (merge_presence c) ?r)"
      using snoc by (auto simp: list_all_iff set_sql_update intro: presence_other presence_merged)
    ultimately show ?thesis
      using snoc Some by (auto simp: project_snoc Let_def)
  qed
qed simp

text \<open>
  Presence is told per participant, whatever tabs are open: the list names each participant who has an
  authorized connection exactly once, shows them active exactly when one of their connections is
  active, and with the latest time any of them was seen.
\<close>

theorem presence_is_per_participant:
  "distinct (map pp_participantId (projectConnectedParticipants cs))
   \<and> set (map pp_participantId (projectConnectedParticipants cs)) = ci_participantId ` set cs
   \<and> list_all (presence_of cs) (projectConnectedParticipants cs)"
  unfolding projectConnectedParticipants_def by (rule presence_projected)

end
