(* ===== verification/Job_Queue.thy ===== *)
theory Job_Queue
  imports Prelude
begin

text \<open>
  The background jobs of the Node host: the jobs table (\<open>node/job-store.ts\<close>), the poller that leases
  and delivers its rows (\<open>node/job-queue.ts\<close>), and the retry policy and delivery of the job registry
  (\<open>jobs.ts\<close>). A delivery is cut where the handler is awaited; what the handler answers, whether a
  stored payload can be read and whether the database answers are arguments of the steps.
\<close>

section \<open>The registry\<close>

record job_retry_policy =
  rp_maxAttempts :: nat
  rp_retryDelayMs :: ms

definition JOB_KINDS :: "(string \<times> job_retry_policy) list" where
  "JOB_KINDS = [(''image_build.finalize'', \<lparr>rp_maxAttempts = 13, rp_retryDelayMs = 15000\<rparr>),
     (''github.autofix'', \<lparr>rp_maxAttempts = 5, rp_retryDelayMs = 30000\<rparr>)]"

definition KNOWN_KINDS :: "string list" where
  "KNOWN_KINDS = map fst JOB_KINDS"

definition job_policy :: "string \<Rightarrow> job_retry_policy option" where
  "job_policy kind = map_of JOB_KINDS kind"

definition isJobKind :: "string \<Rightarrow> bool" where
  "isJobKind kind \<longleftrightarrow> kind \<in> set KNOWN_KINDS"

datatype job_outcome = JobAck | JobRetry "ms option"

datatype handler_end = PayloadInvalid | HandlerThrew | HandlerAnswered job_outcome

definition deliverJob :: "handler_end \<Rightarrow> job_outcome" where
  "deliverJob answer = (case answer of
     PayloadInvalid \<Rightarrow> JobRetry None
   | HandlerThrew \<Rightarrow> JobRetry None
   | HandlerAnswered outcome \<Rightarrow> outcome)"

section \<open>The table\<close>

datatype job_status = JobPending | JobRunning | JobDead

record job_row =
  jb_id :: string
  jb_kind :: string
  jb_payload :: string
  jb_status :: job_status
  jb_attempts :: nat
  jb_run_at :: ms
  jb_claim_token :: "string option"
  jb_lease_expires_at :: "ms option"
  jb_last_error :: "string option"
  jb_created_at :: ms

type_synonym job_table = "job_row list"

record claimed_job =
  cj_id :: string
  cj_kind :: string
  cj_payload :: string
  cj_attempts :: nat
  cj_token :: string

text \<open>The insert fails on a taken id.\<close>

definition add_job :: "string \<Rightarrow> string \<Rightarrow> string \<Rightarrow> ms \<Rightarrow> ms \<Rightarrow> job_table \<Rightarrow> job_table option" where
  "add_job i kind payload runAt now t =
     (if i \<in> jb_id ` set t then None
      else Some (t @ [\<lparr>jb_id = i, jb_kind = kind, jb_payload = payload, jb_status = JobPending,
             jb_attempts = 0, jb_run_at = runAt, jb_claim_token = None, jb_lease_expires_at = None,
             jb_last_error = None, jb_created_at = now\<rparr>]))"

definition claimable :: "string list \<Rightarrow> job_row \<Rightarrow> bool" where
  "claimable kinds r \<longleftrightarrow> jb_status r = JobPending \<and> jb_kind r \<in> set kinds"

definition earliest_job :: "string list \<Rightarrow> job_table \<Rightarrow> ms option" where
  "earliest_job kinds t =
     (case map jb_run_at (filter (claimable kinds) t) of [] \<Rightarrow> None | x # xs \<Rightarrow> Some (fold min xs x))"

definition chosen_jobs :: "ms \<Rightarrow> nat \<Rightarrow> string list \<Rightarrow> job_table \<Rightarrow> job_table" where
  "chosen_jobs now limit kinds t =
     take limit (sort_key (\<lambda>r. (jb_run_at r, jb_id r)) (filter (\<lambda>r. claimable kinds r \<and> jb_run_at r \<le> now) t))"

definition claim_row :: "string \<Rightarrow> ms \<Rightarrow> job_row \<Rightarrow> job_row" where
  "claim_row token leaseUntil r = r\<lparr>jb_status := JobRunning, jb_attempts := jb_attempts r + 1,
     jb_claim_token := Some token, jb_lease_expires_at := Some leaseUntil\<rparr>"

definition job_handed_out :: "string \<Rightarrow> job_row \<Rightarrow> claimed_job" where
  "job_handed_out token r = \<lparr>cj_id = jb_id r, cj_kind = jb_kind r, cj_payload = jb_payload r,
     cj_attempts = jb_attempts r, cj_token = token\<rparr>"

definition claim_jobs ::
  "ms \<Rightarrow> nat \<Rightarrow> string list \<Rightarrow> ms \<Rightarrow> string \<Rightarrow> job_table \<Rightarrow> job_table \<times> claimed_job list" where
  "claim_jobs now limit kinds leaseUntil token t =
     (let ids = map jb_id (chosen_jobs now limit kinds t);
          t' = sql_update (\<lambda>r. jb_id r \<in> set ids) (claim_row token leaseUntil) t in
      (t', map (job_handed_out token) (filter (\<lambda>r. jb_id r \<in> set ids) t')))"

definition holds_job_claim :: "string \<Rightarrow> string \<Rightarrow> job_row \<Rightarrow> bool" where
  "holds_job_claim i token r \<longleftrightarrow> jb_id r = i \<and> jb_claim_token r = Some token"

definition complete_job :: "string \<Rightarrow> string \<Rightarrow> job_table \<Rightarrow> job_table" where
  "complete_job i token = sql_delete (holds_job_claim i token)"

definition retry_job :: "string \<Rightarrow> string \<Rightarrow> ms \<Rightarrow> job_table \<Rightarrow> job_table" where
  "retry_job i token runAt = sql_update (holds_job_claim i token)
     (\<lambda>r. r\<lparr>jb_status := JobPending, jb_run_at := runAt, jb_claim_token := None, jb_lease_expires_at := None\<rparr>)"

definition bury_job :: "string \<Rightarrow> string \<Rightarrow> string \<Rightarrow> job_table \<Rightarrow> job_table" where
  "bury_job i token why = sql_update (holds_job_claim i token)
     (\<lambda>r. r\<lparr>jb_status := JobDead, jb_claim_token := None, jb_lease_expires_at := None, jb_last_error := Some why\<rparr>)"

definition release_claim :: "job_row \<Rightarrow> job_row" where
  "release_claim r = r\<lparr>jb_status := JobPending, jb_claim_token := None, jb_lease_expires_at := None\<rparr>"

definition recoverAllClaims :: "job_table \<Rightarrow> job_table" where
  "recoverAllClaims = sql_update (\<lambda>r. jb_status r = JobRunning) release_claim"

definition recoverExpiredClaims :: "ms \<Rightarrow> job_table \<Rightarrow> job_table" where
  "recoverExpiredClaims now = sql_update
     (\<lambda>r. jb_status r = JobRunning \<and> some_holds (\<lambda>x. x \<le> now) (jb_lease_expires_at r)) release_claim"

record job_stats =
  js_pending :: nat
  js_running :: nat
  js_dead :: nat
  js_oldestRunnableLagMs :: "ms option"

definition jobs_stats :: "ms \<Rightarrow> job_table \<Rightarrow> job_stats" where
  "jobs_stats now t =
     \<lparr>js_pending = sql_count (\<lambda>r. jb_status r = JobPending) t,
      js_running = sql_count (\<lambda>r. jb_status r = JobRunning) t,
      js_dead = sql_count (\<lambda>r. jb_status r = JobDead) t,
      js_oldestRunnableLagMs =
        (case map jb_run_at (filter (\<lambda>r. jb_status r = JobPending \<and> jb_run_at r \<le> now) t) of
           [] \<Rightarrow> None | x # xs \<Rightarrow> Some (max 0 (now - fold min xs x)))\<rparr>"

section \<open>The poller\<close>

definition MAX_TIMER_DELAY_MS :: ms where
  "MAX_TIMER_DELAY_MS = 2 ^ 31 - 1"

definition DEFAULT_MAX_CONCURRENT_JOBS :: nat where
  "DEFAULT_MAX_CONCURRENT_JOBS = 8"

definition JOB_CLAIM_LEASE_MS :: ms where
  "JOB_CLAIM_LEASE_MS = 15 * 60 * 1000"

definition LEASE_SWEEP_INTERVAL_MS :: ms where
  "LEASE_SWEEP_INTERVAL_MS = 60 * 1000"

text \<open>A counted delivery; \<open>jf_delivery\<close> is the identity of its promise.\<close>

record job_flight =
  jf_delivery :: nat
  jf_leaseUntil :: ms

record job_delivery =
  jd_number :: nat
  jd_job :: claimed_job
  jd_leaseUntil :: ms
  jd_handling :: bool

datatype job_event =
    JobSent string string
  | JobClaimed ms claimed_job ms
  | JobHandled ms claimed_job
  | JobAcked string string

record job_world =
  jw_table :: job_table
  jw_running :: bool
  jw_timer :: "ms option"
  jw_inFlight :: "(string \<times> job_flight) list"
  jw_deliveries :: "job_delivery list"
  jw_next :: nat
  jw_clock :: ms
  jw_log :: "job_event list"

text \<open>\<open>reads\<close> is whether the table answered when it was asked for the next due time.\<close>

definition arm_jobs :: "nat \<Rightarrow> ms \<Rightarrow> bool \<Rightarrow> job_world \<Rightarrow> job_world" where
  "arm_jobs maxConcurrent now reads w =
     w\<lparr>jw_timer :=
        (if \<not> jw_running w then None
         else
           let sweep = now + LEASE_SWEEP_INTERVAL_MS;
               wakeAt = (if length (jw_inFlight w) < maxConcurrent \<and> reads
                         then min_bound sweep (earliest_job KNOWN_KINDS (jw_table w)) else sweep) in
           Some (now + min (max 0 (wakeAt - now)) MAX_TIMER_DELAY_MS))\<rparr>"

definition send_job ::
  "nat \<Rightarrow> string \<Rightarrow> string \<Rightarrow> string \<Rightarrow> ms option \<Rightarrow> ms \<Rightarrow> bool \<Rightarrow> job_world \<Rightarrow> job_world option" where
  "send_job maxConcurrent i kind payload delayMs now reads w =
     map_option (\<lambda>t. arm_jobs maxConcurrent now reads
         (w\<lparr>jw_table := t, jw_log := jw_log w @ [JobSent i kind]\<rparr>))
       (add_job i kind payload (now + nullish delayMs 0) now (jw_table w))"

definition start_jobs :: "nat \<Rightarrow> ms \<Rightarrow> bool \<Rightarrow> job_world \<Rightarrow> job_world" where
  "start_jobs maxConcurrent now reads w = arm_jobs maxConcurrent now reads (w\<lparr>jw_running := True\<rparr>)"

definition stop_jobs :: "job_world \<Rightarrow> job_world" where
  "stop_jobs w = w\<lparr>jw_running := False, jw_timer := None\<rparr>"

definition forgetExpiredDeliveries :: "ms \<Rightarrow> job_world \<Rightarrow> job_world" where
  "forgetExpiredDeliveries now w =
     w\<lparr>jw_inFlight := filter (\<lambda>(i, f). now < jf_leaseUntil f) (jw_inFlight w)\<rparr>"

text \<open>\<open>Map.set\<close>: the value of a present key is replaced where it stands.\<close>

definition flight_set :: "string \<Rightarrow> job_flight \<Rightarrow> (string \<times> job_flight) list \<Rightarrow> (string \<times> job_flight) list" where
  "flight_set i f m = (if i \<in> fst ` set m then map (\<lambda>x. if fst x = i then (i, f) else x) m else m @ [(i, f)])"

definition register_delivery :: "ms \<Rightarrow> ms \<Rightarrow> claimed_job \<Rightarrow> job_world \<Rightarrow> job_world" where
  "register_delivery now leaseUntil j w =
     w\<lparr>jw_inFlight := flight_set (cj_id j) \<lparr>jf_delivery = jw_next w, jf_leaseUntil = leaseUntil\<rparr> (jw_inFlight w),
       jw_deliveries := jw_deliveries w @
         [\<lparr>jd_number = jw_next w, jd_job = j, jd_leaseUntil = leaseUntil, jd_handling = False\<rparr>],
       jw_next := Suc (jw_next w),
       jw_log := jw_log w @ [JobClaimed now j leaseUntil]\<rparr>"

definition register_deliveries :: "ms \<Rightarrow> ms \<Rightarrow> claimed_job list \<Rightarrow> job_world \<Rightarrow> job_world" where
  "register_deliveries now leaseUntil js w = fold (register_delivery now leaseUntil) js w"

definition claimAndRun :: "nat \<Rightarrow> ms \<Rightarrow> string \<Rightarrow> job_world \<Rightarrow> job_world" where
  "claimAndRun maxConcurrent now token w =
     (let capacity = maxConcurrent - length (jw_inFlight w); leaseUntil = now + JOB_CLAIM_LEASE_MS in
      if capacity = 0 then w
      else case claim_jobs now capacity KNOWN_KINDS leaseUntil token (jw_table w) of
        (t, js) \<Rightarrow> register_deliveries now leaseUntil js (w\<lparr>jw_table := t\<rparr>))"

text \<open>How far a wake-up gets before the database throws: the times are those the parts of the wake-up
  read.\<close>

datatype tick_extent = RecoveryThrew ms | ClaimThrew ms ms | TickedOver ms ms ms string

definition tick_jobs :: "nat \<Rightarrow> tick_extent \<Rightarrow> ms \<Rightarrow> bool \<Rightarrow> job_world \<Rightarrow> job_world" where
  "tick_jobs maxConcurrent extent now reads w =
     arm_jobs maxConcurrent now reads
       (case extent of
          RecoveryThrew t1 \<Rightarrow> forgetExpiredDeliveries t1 w
        | ClaimThrew t1 t2 \<Rightarrow>
            (let w1 = forgetExpiredDeliveries t1 w in
             w1\<lparr>jw_table := recoverExpiredClaims t2 (jw_table w1)\<rparr>)
        | TickedOver t1 t2 t3 token \<Rightarrow>
            (let w1 = forgetExpiredDeliveries t1 w in
             claimAndRun maxConcurrent t3 token (w1\<lparr>jw_table := recoverExpiredClaims t2 (jw_table w1)\<rparr>)))"

section \<open>Deliveries\<close>

text \<open>What is done to the row in the end; a settling write that throws leaves the row as it is, and
  it comes back when the lease runs out.\<close>

datatype settling = Complete_job | Retry_job ms | Bury_job string

definition settle_job :: "claimed_job \<Rightarrow> settling \<Rightarrow> bool \<Rightarrow> job_table \<Rightarrow> job_table" where
  "settle_job j s writes t =
     (if \<not> writes then t
      else case s of
        Complete_job \<Rightarrow> complete_job (cj_id j) (cj_token j) t
      | Retry_job runAt \<Rightarrow> retry_job (cj_id j) (cj_token j) runAt t
      | Bury_job why \<Rightarrow> bury_job (cj_id j) (cj_token j) why t)"

definition failed_job :: "claimed_job \<Rightarrow> nat \<Rightarrow> ms \<Rightarrow> string \<Rightarrow> ms \<Rightarrow> settling" where
  "failed_job j maxAttempts delayMs why now =
     (if maxAttempts \<le> cj_attempts j then Bury_job why else Retry_job (now + delayMs))"

text \<open>The \<open>finally\<close> of a delivery.\<close>

definition delivery_over :: "nat \<Rightarrow> job_delivery \<Rightarrow> ms \<Rightarrow> bool \<Rightarrow> job_world \<Rightarrow> job_world" where
  "delivery_over maxConcurrent d now reads w =
     arm_jobs maxConcurrent now reads
       (w\<lparr>jw_inFlight := (if some_holds (\<lambda>f. jf_delivery f = jd_number d) (map_of (jw_inFlight w) (cj_id (jd_job d)))
                          then filter (\<lambda>x. fst x \<noteq> cj_id (jd_job d)) (jw_inFlight w) else jw_inFlight w),
          jw_deliveries := filter (\<lambda>x. jd_number x \<noteq> jd_number d) (jw_deliveries w)\<rparr>)"

definition settled_over ::
  "nat \<Rightarrow> job_delivery \<Rightarrow> settling \<Rightarrow> bool \<Rightarrow> ms \<Rightarrow> bool \<Rightarrow> job_world \<Rightarrow> job_world" where
  "settled_over maxConcurrent d s writes now reads w =
     delivery_over maxConcurrent d now reads (w\<lparr>jw_table := settle_job (jd_job d) s writes (jw_table w)\<rparr>)"

text \<open>\<open>deliver\<close> up to the handler; \<open>unreadable\<close> is the parser's complaint about the stored payload, if any.\<close>

definition deliver_begun ::
  "nat \<Rightarrow> job_delivery \<Rightarrow> string option \<Rightarrow> bool \<Rightarrow> ms \<Rightarrow> bool \<Rightarrow> job_world \<Rightarrow> job_world" where
  "deliver_begun maxConcurrent d unreadable writes now reads w =
     (let j = jd_job d in
      case job_policy (cj_kind j) of
        None \<Rightarrow> settled_over maxConcurrent d (Bury_job (''Unknown job kind: '' @ cj_kind j)) writes now reads w
      | Some p \<Rightarrow>
          if rp_maxAttempts p < cj_attempts j
          then settled_over maxConcurrent d (Bury_job ''Attempts were exhausted before this delivery'') writes now reads w
          else if unreadable \<noteq> None
          then settled_over maxConcurrent d
                 (failed_job j (rp_maxAttempts p) (rp_retryDelayMs p) (''Unreadable payload: '' @ the unreadable) now) writes now reads w
          else w\<lparr>jw_deliveries := sql_update (\<lambda>x. jd_number x = jd_number d) (\<lambda>x. x\<lparr>jd_handling := True\<rparr>) (jw_deliveries w),
                 jw_log := jw_log w @ [JobHandled now j]\<rparr>)"

text \<open>\<open>deliver\<close> once the handler is done.\<close>

definition deliver_answered ::
  "nat \<Rightarrow> job_delivery \<Rightarrow> handler_end \<Rightarrow> bool \<Rightarrow> ms \<Rightarrow> bool \<Rightarrow> job_world \<Rightarrow> job_world" where
  "deliver_answered maxConcurrent d answer writes now reads w =
     (let j = jd_job d in
      case deliverJob answer of
        JobAck \<Rightarrow>
          settled_over maxConcurrent d Complete_job writes now reads
            (w\<lparr>jw_log := jw_log w @ [JobAcked (cj_id j) (cj_token j)]\<rparr>)
      | JobRetry delayMs \<Rightarrow>
          (case job_policy (cj_kind j) of
             None \<Rightarrow> w
           | Some p \<Rightarrow>
               settled_over maxConcurrent d
                 (failed_job j (rp_maxAttempts p) (nullish delayMs (rp_retryDelayMs p)) ''The handler asked for a retry'' now)
                 writes now reads w))"

text \<open>The process dies; the next one returns every claim before it starts a poller.\<close>

definition host_restarts :: "job_world \<Rightarrow> job_world" where
  "host_restarts w = w\<lparr>jw_table := recoverAllClaims (jw_table w), jw_running := False, jw_timer := None,
     jw_inFlight := [], jw_deliveries := []\<rparr>"

section \<open>Steps\<close>

definition fresh_token :: "string \<Rightarrow> job_world \<Rightarrow> bool" where
  "fresh_token token w \<longleftrightarrow> (\<forall>t j x. JobClaimed t j x \<in> set (jw_log w) \<longrightarrow> cj_token j \<noteq> token)"

definition fresh_job :: "string \<Rightarrow> job_world \<Rightarrow> bool" where
  "fresh_job i w \<longleftrightarrow> (\<forall>k. JobSent i k \<notin> set (jw_log w))"

definition at_time :: "ms \<Rightarrow> job_world \<Rightarrow> job_world" where
  "at_time now w = w\<lparr>jw_clock := now\<rparr>"

fun tick_time :: "tick_extent \<Rightarrow> job_world \<Rightarrow> ms \<Rightarrow> bool" where
  "tick_time (RecoveryThrew t1) w now \<longleftrightarrow> jw_clock w \<le> t1 \<and> t1 \<le> now"
| "tick_time (ClaimThrew t1 t2) w now \<longleftrightarrow> jw_clock w \<le> t1 \<and> t1 \<le> t2 \<and> t2 \<le> now"
| "tick_time (TickedOver t1 t2 t3 token) w now \<longleftrightarrow>
     jw_clock w \<le> t1 \<and> t1 \<le> t2 \<and> t2 \<le> t3 \<and> t3 \<le> now \<and> fresh_token token w"

inductive job_step :: "nat \<Rightarrow> job_world \<Rightarrow> job_world \<Rightarrow> bool" for m where
  send: "jw_clock w \<le> now \<Longrightarrow> fresh_job i w \<Longrightarrow> send_job m i kind payload delayMs now reads w = Some w' \<Longrightarrow>
    job_step m w (at_time now w')"
| start: "jw_clock w \<le> now \<Longrightarrow> job_step m w (at_time now (start_jobs m now reads w))"
| stop: "job_step m w (stop_jobs w)"
| tick: "jw_running w \<Longrightarrow> tick_time extent w now \<Longrightarrow>
    job_step m w (at_time now (tick_jobs m extent now reads w))"
| handle: "jw_clock w \<le> now \<Longrightarrow> d \<in> set (jw_deliveries w) \<Longrightarrow> \<not> jd_handling d \<Longrightarrow>
    job_step m w (at_time now (deliver_begun m d unreadable writes now reads w))"
| answer: "jw_clock w \<le> now \<Longrightarrow> d \<in> set (jw_deliveries w) \<Longrightarrow> jd_handling d \<Longrightarrow>
    job_step m w (at_time now (deliver_answered m d outcome writes now reads w))"
| restart: "job_step m w (host_restarts w)"

text \<open>From a new table on.\<close>

definition new_jobs :: "ms \<Rightarrow> job_world" where
  "new_jobs now = \<lparr>jw_table = [], jw_running = False, jw_timer = None, jw_inFlight = [], jw_deliveries = [],
     jw_next = 0, jw_clock = now, jw_log = []\<rparr>"

inductive jobs_reachable :: "nat \<Rightarrow> job_world \<Rightarrow> bool" for m where
  new: "jobs_reachable m (new_jobs now)"
| step: "jobs_reachable m w \<Longrightarrow> job_step m w w' \<Longrightarrow> jobs_reachable m w'"

end
