(* ===== verification/Job_Safety.thy ===== *)
theory Job_Safety
  imports Job_Queue
begin

text \<open>
  The invariant of the jobs table and its poller over every reachable state.
\<close>

section \<open>The invariant\<close>

fun handled_jobs :: "job_event list \<Rightarrow> claimed_job list" where
  "handled_jobs [] = []"
| "handled_jobs (JobHandled t j # l) = j # handled_jobs l"
| "handled_jobs (x # l) = handled_jobs l"

lemma handled_jobs_append [simp]: "handled_jobs (l @ l') = handled_jobs l @ handled_jobs l'"
  by (induction l rule: handled_jobs.induct) auto

definition attempts_spent :: "string \<Rightarrow> nat \<Rightarrow> bool" where
  "attempts_spent kind n \<longleftrightarrow> some_holds (\<lambda>p. rp_maxAttempts p \<le> n) (job_policy kind)"

definition claimed_as :: "job_event list \<Rightarrow> claimed_job \<Rightarrow> ms \<Rightarrow> bool" where
  "claimed_as l j x \<longleftrightarrow> (\<exists>t. JobClaimed t j x \<in> set l)"

definition claims_sound :: "job_event list \<Rightarrow> bool" where
  "claims_sound l \<longleftrightarrow>
     (\<forall>j x. claimed_as l j x \<longrightarrow> 0 < cj_attempts j \<and> job_policy (cj_kind j) \<noteq> None \<and> JobSent (cj_id j) (cj_kind j) \<in> set l)
     \<and> (\<forall>j x j' x'. claimed_as l j x \<and> claimed_as l j' x' \<and> cj_id j = cj_id j'
          \<and> (cj_attempts j = cj_attempts j' \<or> cj_token j = cj_token j') \<longrightarrow> j = j' \<and> x = x')"

definition sent_sound :: "job_event list \<Rightarrow> bool" where
  "sent_sound l \<longleftrightarrow> (\<forall>i k k'. JobSent i k \<in> set l \<and> JobSent i k' \<in> set l \<longrightarrow> k = k')"

definition row_sound :: "job_event list \<Rightarrow> job_row \<Rightarrow> bool" where
  "row_sound l r \<longleftrightarrow>
     (jb_status r = JobRunning \<longleftrightarrow> jb_claim_token r \<noteq> None)
     \<and> (jb_claim_token r = None \<longleftrightarrow> jb_lease_expires_at r = None)
     \<and> (\<forall>T. jb_claim_token r = Some T \<longrightarrow>
          (\<exists>j x. claimed_as l j x \<and> jb_lease_expires_at r = Some x \<and> cj_id j = jb_id r \<and> cj_token j = T
             \<and> cj_attempts j = jb_attempts r))
     \<and> (\<forall>j x. claimed_as l j x \<and> cj_id j = jb_id r \<longrightarrow> cj_attempts j \<le> jb_attempts r)
     \<and> JobSent (jb_id r) (jb_kind r) \<in> set l
     \<and> (jb_status r = JobDead \<longrightarrow> attempts_spent (jb_kind r) (jb_attempts r))"

definition table_sound :: "job_event list \<Rightarrow> job_table \<Rightarrow> bool" where
  "table_sound l t \<longleftrightarrow> distinct (map jb_id t) \<and> (\<forall>r \<in> set t. row_sound l r)"

definition kept :: "job_event list \<Rightarrow> job_table \<Rightarrow> bool" where
  "kept l t \<longleftrightarrow> (\<forall>i k. JobSent i k \<in> set l \<longrightarrow> i \<in> jb_id ` set t \<or> (\<exists>T. JobAcked i T \<in> set l))"

definition current_claim :: "job_table \<Rightarrow> job_delivery \<Rightarrow> bool" where
  "current_claim t d \<longleftrightarrow> (\<exists>r \<in> set t. holds_job_claim (cj_id (jd_job d)) (cj_token (jd_job d)) r
     \<and> jb_lease_expires_at r = Some (jd_leaseUntil d))"

definition delivery_sound :: "job_world \<Rightarrow> job_delivery \<Rightarrow> bool" where
  "delivery_sound w d \<longleftrightarrow>
     jd_number d < jw_next w
     \<and> claimed_as (jw_log w) (jd_job d) (jd_leaseUntil d)
     \<and> (jd_handling d \<longleftrightarrow> jd_job d \<in> set (handled_jobs (jw_log w)))
     \<and> (jd_leaseUntil d \<le> jw_clock w \<or> current_claim (jw_table w) d
          \<and> map_of (jw_inFlight w) (cj_id (jd_job d)) = Some \<lparr>jf_delivery = jd_number d, jf_leaseUntil = jd_leaseUntil d\<rparr>)"

definition deliveries_sound :: "job_world \<Rightarrow> bool" where
  "deliveries_sound w \<longleftrightarrow> distinct (map jd_number (jw_deliveries w)) \<and> distinct (map jd_job (jw_deliveries w))
     \<and> (\<forall>d \<in> set (jw_deliveries w). delivery_sound w d)"

definition handled_sound :: "job_event list \<Rightarrow> bool" where
  "handled_sound l \<longleftrightarrow> distinct (handled_jobs l)
     \<and> (\<forall>j \<in> set (handled_jobs l). (\<exists>x. claimed_as l j x)
          \<and> some_holds (\<lambda>p. cj_attempts j \<le> rp_maxAttempts p) (job_policy (cj_kind j)))
     \<and> (\<forall>i T. JobAcked i T \<in> set l \<longrightarrow> (\<exists>j \<in> set (handled_jobs l). cj_id j = i \<and> cj_token j = T))"

definition flights_sound :: "nat \<Rightarrow> job_world \<Rightarrow> bool" where
  "flights_sound m w \<longleftrightarrow> distinct (map fst (jw_inFlight w)) \<and> length (jw_inFlight w) \<le> m"

definition timer_sound :: "job_world \<Rightarrow> bool" where
  "timer_sound w \<longleftrightarrow> (if jw_running w then some_holds (\<lambda>t. t \<le> jw_clock w + LEASE_SWEEP_INTERVAL_MS) (jw_timer w)
     else jw_timer w = None)"

definition jobs_sound :: "nat \<Rightarrow> job_world \<Rightarrow> bool" where
  "jobs_sound m w \<longleftrightarrow> claims_sound (jw_log w) \<and> sent_sound (jw_log w) \<and> handled_sound (jw_log w)
     \<and> table_sound (jw_log w) (jw_table w) \<and> kept (jw_log w) (jw_table w)
     \<and> deliveries_sound w \<and> flights_sound m w"

lemma jobs_soundD:
  assumes "jobs_sound m w"
  shows "claims_sound (jw_log w)" "sent_sound (jw_log w)" "handled_sound (jw_log w)"
    "table_sound (jw_log w) (jw_table w)" "kept (jw_log w) (jw_table w)" "deliveries_sound w" "flights_sound m w"
  using assms by (simp_all add: jobs_sound_def)

text \<open>What the parts read of the world.\<close>

lemma sound_timer [simp]:
  "jobs_sound m (w\<lparr>jw_timer := x\<rparr>) = jobs_sound m w"
  "jobs_sound m (w\<lparr>jw_running := b\<rparr>) = jobs_sound m w"
  by (simp_all add: jobs_sound_def deliveries_sound_def delivery_sound_def flights_sound_def)

lemma sound_armed [simp]: "jobs_sound m (arm_jobs k now reads w) = jobs_sound m w"
  by (simp add: arm_jobs_def)

lemma sound_later:
  assumes "jobs_sound m w" and "jw_clock w \<le> now"
  shows "jobs_sound m (at_time now w)"
proof -
  have "deliveries_sound (at_time now w)"
    using jobs_soundD(6) [OF assms(1)] assms(2)
    by (fastforce simp: deliveries_sound_def delivery_sound_def at_time_def)
  with assms(1) show ?thesis
    by (simp add: jobs_sound_def flights_sound_def at_time_def)
qed

section \<open>Claims\<close>

lemma claimed_as_append: "claimed_as (l @ xs) j x \<longleftrightarrow> claimed_as l j x \<or> claimed_as xs j x"
  by (auto simp: claimed_as_def)

lemma claimed_as_plain [simp]:
  "\<not> claimed_as [] j x" "\<not> claimed_as [JobSent i k] j x" "\<not> claimed_as [JobAcked i T] j x"
  "\<not> claimed_as [JobHandled t j'] j x"
  by (simp_all add: claimed_as_def)

lemma claim_unique:
  "claims_sound l \<Longrightarrow> claimed_as l j x \<Longrightarrow> claimed_as l j' x' \<Longrightarrow> cj_id j = cj_id j' \<Longrightarrow>
     cj_attempts j = cj_attempts j' \<or> cj_token j = cj_token j' \<Longrightarrow> j = j' \<and> x = x'"
  unfolding claims_sound_def by blast

lemma claim_known:
  "claims_sound l \<Longrightarrow> claimed_as l j x \<Longrightarrow>
     0 < cj_attempts j \<and> job_policy (cj_kind j) \<noteq> None \<and> JobSent (cj_id j) (cj_kind j) \<in> set l"
  unfolding claims_sound_def by blast

text \<open>The row that still carries the claim of a delivery.\<close>

lemma held_row:
  assumes "claims_sound l" and "sent_sound l" and "row_sound l r"
    and "claimed_as l j x" and "holds_job_claim (cj_id j) (cj_token j) r"
  shows "jb_attempts r = cj_attempts j" and "jb_kind r = cj_kind j" and "jb_lease_expires_at r = Some x"
proof -
  have h: "jb_id r = cj_id j" "jb_claim_token r = Some (cj_token j)"
    using assms(5) by (auto simp: holds_job_claim_def)
  then obtain j' x' where c: "claimed_as l j' x'" "jb_lease_expires_at r = Some x'" "cj_id j' = cj_id j"
      "cj_token j' = cj_token j" "cj_attempts j' = jb_attempts r"
    using assms(3) unfolding row_sound_def by metis
  then have "j' = j" "x' = x"
    using claim_unique [OF assms(1) c(1) assms(4)] by auto
  with c show "jb_attempts r = cj_attempts j" "jb_lease_expires_at r = Some x"
    by auto
  have "JobSent (cj_id j) (jb_kind r) \<in> set l"
    using assms(3) h by (simp add: row_sound_def)
  then show "jb_kind r = cj_kind j"
    using claim_known [OF assms(1, 4)] assms(2) unfolding sent_sound_def by blast
qed

section \<open>Sending\<close>

lemma row_sound_sent: "row_sound l r \<Longrightarrow> row_sound (l @ [JobSent i k]) r"
  unfolding row_sound_def claimed_as_append by auto

lemma row_sound_plain:
  "row_sound (l @ [JobAcked i T]) r \<longleftrightarrow> row_sound l r"
  "row_sound (l @ [JobHandled t j]) r \<longleftrightarrow> row_sound l r"
  unfolding row_sound_def claimed_as_append by auto

lemma send_sound:
  assumes s: "jobs_sound m w" and f: "fresh_job i w"
    and e: "send_job m i kind payload delayMs now reads w = Some w'"
  shows "jobs_sound m w'"
proof -
  let ?l = "jw_log w @ [JobSent i kind]"
  note d = jobs_soundD [OF s]
  obtain t where t: "add_job i kind payload (now + nullish delayMs 0) now (jw_table w) = Some t"
    and w': "w' = arm_jobs m now reads (w\<lparr>jw_table := t, jw_log := ?l\<rparr>)"
    using e by (auto simp: send_job_def)
  obtain r where r: "t = jw_table w @ [r]" "jb_id r = i" "jb_kind r = kind" "jb_status r = JobPending"
      "jb_claim_token r = None" "jb_lease_expires_at r = None" "i \<notin> jb_id ` set (jw_table w)"
    using t by (auto simp: add_job_def split: if_splits)
  have new: "\<not> claimed_as (jw_log w) j x" if "cj_id j = i" for j x
    using f claim_known [OF d(1)] that unfolding fresh_job_def by blast
  have "row_sound ?l r"
    using r new unfolding row_sound_def claimed_as_append by auto
  then have "table_sound ?l t"
    using d(4) r row_sound_sent unfolding table_sound_def by auto
  moreover have "kept ?l t"
    using d(5) r unfolding kept_def by auto
  moreover have "claims_sound ?l"
    using d(1) unfolding claims_sound_def claimed_as_append by auto
  moreover have "sent_sound ?l"
    using d(2) f unfolding sent_sound_def fresh_job_def by auto
  moreover have "handled_sound ?l"
    using d(3) by (auto simp: handled_sound_def claimed_as_append)
  moreover have "deliveries_sound (w\<lparr>jw_table := t, jw_log := ?l\<rparr>)"
    using d(6) r(1) by (auto simp: deliveries_sound_def delivery_sound_def claimed_as_append current_claim_def)
  ultimately have "jobs_sound m (w\<lparr>jw_table := t, jw_log := ?l\<rparr>)"
    using d(7) by (simp add: jobs_sound_def flights_sound_def)
  then show ?thesis
    by (simp add: w')
qed

section \<open>Forgetting and recovering\<close>

lemma map_of_filter_value: "map_of m k = Some v \<Longrightarrow> P (k, v) \<Longrightarrow> distinct (map fst m) \<Longrightarrow> map_of (filter P m) k = Some v"
  by (induction m) (auto split: if_splits simp: map_of_eq_None_iff rev_image_eqI dest: map_of_SomeD)

lemma forget_sound:
  assumes "jobs_sound m w" and "t1 \<le> jw_clock w"
  shows "jobs_sound m (forgetExpiredDeliveries t1 w)"
proof -
  note d = jobs_soundD [OF assms(1)]
  have u: "distinct (map fst (jw_inFlight w))" "length (jw_inFlight w) \<le> m"
    using d(7) by (auto simp: flights_sound_def)
  have "delivery_sound (forgetExpiredDeliveries t1 w) x" if "delivery_sound w x" for x
    using that assms(2) map_of_filter_value [OF _ _ u(1)]
    by (fastforce simp: delivery_sound_def forgetExpiredDeliveries_def)
  then have "deliveries_sound (forgetExpiredDeliveries t1 w)"
    using d(6) by (simp add: deliveries_sound_def) (simp add: forgetExpiredDeliveries_def)
  moreover have "flights_sound m (forgetExpiredDeliveries t1 w)"
    using u by (simp add: flights_sound_def forgetExpiredDeliveries_def distinct_map_filter)
      (meson length_filter_le le_trans)
  ultimately show ?thesis
    using d by (simp add: jobs_sound_def) (simp add: forgetExpiredDeliveries_def)
qed

lemma released_sound: "row_sound l r \<Longrightarrow> row_sound l (release_claim r)"
  by (auto simp: row_sound_def release_claim_def)

lemma release_simps [simp]: "jb_id (release_claim r) = jb_id r" "jb_kind (release_claim r) = jb_kind r"
  "jb_attempts (release_claim r) = jb_attempts r"
  by (simp_all add: release_claim_def)

lemma released_table:
  assumes "table_sound l t"
  shows "table_sound l (sql_update p release_claim t)"
  using assms by (auto simp: table_sound_def map_sql_update set_sql_update released_sound)

lemma ids_updated: "(\<And>r. jb_id (f r) = jb_id r) \<Longrightarrow> jb_id ` set (sql_update p f t) = jb_id ` set t"
  by (metis map_sql_update set_map)

lemma kept_update: "(\<And>r. jb_id (f r) = jb_id r) \<Longrightarrow> kept l (sql_update p f t) = kept l t"
  by (simp add: kept_def ids_updated)

lemma recover_sound:
  assumes "jobs_sound m w" and "t2 \<le> jw_clock w"
  shows "jobs_sound m (w\<lparr>jw_table := recoverExpiredClaims t2 (jw_table w)\<rparr>)"
proof -
  note d = jobs_soundD [OF assms(1)]
  let ?t = "recoverExpiredClaims t2 (jw_table w)"
  have "current_claim ?t x" 
    if c: "current_claim (jw_table w) x" "\<not> jd_leaseUntil x \<le> jw_clock w" for x
  proof -
    obtain r where "r \<in> set (jw_table w)" "holds_job_claim (cj_id (jd_job x)) (cj_token (jd_job x)) r"
      "jb_lease_expires_at r = Some (jd_leaseUntil x)"
      using c(1) by (auto simp: current_claim_def)
    moreover from this have "r \<in> set ?t"
      using c(2) assms(2) unfolding recoverExpiredClaims_def by (intro sql_update_other) auto
    ultimately show ?thesis
      by (auto simp: current_claim_def)
  qed
  then have "delivery_sound (w\<lparr>jw_table := ?t\<rparr>) x" if "delivery_sound w x" for x
    using that by (auto simp: delivery_sound_def)
  then have "deliveries_sound (w\<lparr>jw_table := ?t\<rparr>)"
    using d(6) by (simp add: deliveries_sound_def)
  then show ?thesis
    using d by (simp add: jobs_sound_def flights_sound_def recoverExpiredClaims_def released_table kept_update)
qed

lemma restart_sound:
  assumes "jobs_sound m w"
  shows "jobs_sound m (host_restarts w)"
  using jobs_soundD [OF assms]
  by (simp add: jobs_sound_def host_restarts_def recoverAllClaims_def released_table kept_update
      deliveries_sound_def flights_sound_def)

section \<open>Settling\<close>

fun settle_allowed :: "job_event list \<Rightarrow> claimed_job \<Rightarrow> settling \<Rightarrow> bool" where
  "settle_allowed l j Complete_job \<longleftrightarrow> JobAcked (cj_id j) (cj_token j) \<in> set l"
| "settle_allowed l j (Retry_job runAt) \<longleftrightarrow> True"
| "settle_allowed l j (Bury_job why) \<longleftrightarrow> attempts_spent (cj_kind j) (cj_attempts j)"

lemma settled_table:
  assumes c: "claims_sound l" "sent_sound l" "claimed_as l j x"
    and t: "table_sound l t" "kept l t" and a: "settle_allowed l j s"
  shows "table_sound l (settle_job j s writes t)" and "kept l (settle_job j s writes t)"
    and "\<And>r. r \<in> set t \<Longrightarrow> \<not> holds_job_claim (cj_id j) (cj_token j) r \<Longrightarrow> r \<in> set (settle_job j s writes t)"
proof -
  let ?h = "holds_job_claim (cj_id j) (cj_token j)" and ?t = "settle_job j s writes t"
  show other: "r \<in> set ?t" if "r \<in> set t" "\<not> ?h r" for r
    using that by (auto simp: settle_job_def complete_job_def retry_job_def bury_job_def sql_update_other
        split: settling.split)
  have "table_sound l ?t \<and> kept l ?t"
  proof (cases s)
    case Complete_job
    have "kept l (sql_delete ?h t)"
      unfolding kept_def
    proof (intro allI impI)
      fix i k
      assume "JobSent i k \<in> set l"
      with t(2) have "i \<in> jb_id ` set t \<or> (\<exists>T. JobAcked i T \<in> set l)"
        by (auto simp: kept_def)
      moreover have "JobAcked i (cj_token j) \<in> set l" if "r \<in> set t" "jb_id r = i" "?h r" for r
        using that a Complete_job by (auto simp: holds_job_claim_def)
      ultimately show "i \<in> jb_id ` set (sql_delete ?h t) \<or> (\<exists>T. JobAcked i T \<in> set l)"
        by fastforce
    qed
    then show ?thesis
      using t Complete_job
      by (auto simp: settle_job_def complete_job_def table_sound_def sql_delete_def distinct_map_filter)
  next
    case (Retry_job runAt)
    have "row_sound l (r\<lparr>jb_status := JobPending, jb_run_at := runAt, jb_claim_token := None, jb_lease_expires_at := None\<rparr>)"
      if "row_sound l r" for r
      using that by (auto simp: row_sound_def)
    then show ?thesis
      using t Retry_job
      by (auto simp: settle_job_def retry_job_def table_sound_def kept_update map_sql_update set_sql_update)
  next
    case (Bury_job why)
    have "row_sound l (r\<lparr>jb_status := JobDead, jb_claim_token := None, jb_lease_expires_at := None, jb_last_error := Some why\<rparr>)"
      if "row_sound l r" "?h r" for r
      using that(1) a Bury_job held_row [OF c(1, 2) that(1) c(3) that(2)] by (auto simp: row_sound_def)
    then show ?thesis
      using t Bury_job
      by (auto simp: settle_job_def bury_job_def table_sound_def kept_update map_sql_update set_sql_update)
  qed
  then show "table_sound l ?t" and "kept l ?t"
    by simp_all
qed

lemma delivery_over_shape:
  "jw_table (delivery_over m d now reads w) = jw_table w"
  "jw_log (delivery_over m d now reads w) = jw_log w"
  "jw_next (delivery_over m d now reads w) = jw_next w"
  "jw_clock (delivery_over m d now reads w) = jw_clock w"
  "jw_deliveries (delivery_over m d now reads w) = filter (\<lambda>x. jd_number x \<noteq> jd_number d) (jw_deliveries w)"
  by (simp_all add: delivery_over_def arm_jobs_def)

lemma map_of_drop_key: "k \<noteq> k' \<Longrightarrow> map_of (filter (\<lambda>x. fst x \<noteq> k') m) k = map_of m k"
  by (induction m) auto

lemma flights_over:
  assumes "flights_sound m w"
  shows "flights_sound m (delivery_over m d now reads w)"
  using assms by (auto simp: flights_sound_def delivery_over_def arm_jobs_def distinct_map_filter
      intro: le_trans [OF length_filter_le])

lemma flight_kept:
  assumes "map_of (jw_inFlight w) i = Some f" and "jf_delivery f \<noteq> jd_number d"
  shows "map_of (jw_inFlight (delivery_over m d now reads w)) i = Some f"
  using assms by (cases "i = cj_id (jd_job d)") (auto simp: delivery_over_def arm_jobs_def map_of_drop_key)

lemma settle_sound:
  assumes s: "jobs_sound m w" and mem: "d \<in> set (jw_deliveries w)"
    and a: "settle_allowed (jw_log w) (jd_job d) st"
  shows "jobs_sound m (settled_over m d st writes now reads w)"
proof -
  note i = jobs_soundD [OF s]
  let ?t = "settle_job (jd_job d) st writes (jw_table w)" and ?w = "settled_over m d st writes now reads w"
  have d: "claimed_as (jw_log w) (jd_job d) (jd_leaseUntil d)"
    using i(6) mem by (auto simp: deliveries_sound_def delivery_sound_def)
  note t = settled_table [OF i(1, 2) d i(4, 5) a, where writes = writes]
  have shape: "jw_table ?w = ?t" "jw_log ?w = jw_log w" "jw_next ?w = jw_next w" "jw_clock ?w = jw_clock w"
    "jw_deliveries ?w = filter (\<lambda>x. jd_number x \<noteq> jd_number d) (jw_deliveries w)"
    by (simp_all add: settled_over_def delivery_over_shape)
  have "delivery_sound ?w x" if x: "x \<in> set (jw_deliveries w)" "jd_number x \<noteq> jd_number d" for x
  proof -
    have xs: "delivery_sound w x"
      using i(6) x(1) by (simp add: deliveries_sound_def)
    have ne: "jd_job x \<noteq> jd_job d"
      using i(6) x mem by (auto simp: deliveries_sound_def distinct_map inj_on_def)
    have "current_claim ?t x" if c: "current_claim (jw_table w) x"
    proof -
      obtain r where r: "r \<in> set (jw_table w)" "holds_job_claim (cj_id (jd_job x)) (cj_token (jd_job x)) r"
          "jb_lease_expires_at r = Some (jd_leaseUntil x)"
        using c by (auto simp: current_claim_def)
      have "\<not> holds_job_claim (cj_id (jd_job d)) (cj_token (jd_job d)) r"
        using r(2) ne claim_unique [OF i(1) d, of "jd_job x" "jd_leaseUntil x"] xs
        by (auto simp: holds_job_claim_def delivery_sound_def)
      with t(3) r show ?thesis
        by (auto simp: current_claim_def)
    qed
    moreover have "map_of (jw_inFlight ?w) k = Some \<lparr>jf_delivery = jd_number x, jf_leaseUntil = y\<rparr>"
      if "map_of (jw_inFlight w) k = Some \<lparr>jf_delivery = jd_number x, jf_leaseUntil = y\<rparr>" for k y
      unfolding settled_over_def by (rule flight_kept) (use that x(2) in auto)
    ultimately show ?thesis
      using xs by (auto simp: delivery_sound_def shape)
  qed
  then have "deliveries_sound ?w"
    using i(6) by (auto simp: deliveries_sound_def shape distinct_map_filter)
  moreover have "flights_sound m ?w"
    unfolding settled_over_def by (rule flights_over) (use i(7) in \<open>simp add: flights_sound_def\<close>)
  ultimately show ?thesis
    using i t(1, 2) by (simp add: jobs_sound_def shape)
qed

section \<open>Handling\<close>

lemma ack_sound:
  assumes s: "jobs_sound m w" and mem: "d \<in> set (jw_deliveries w)" and h: "jd_handling d"
  shows "jobs_sound m (w\<lparr>jw_log := jw_log w @ [JobAcked (cj_id (jd_job d)) (cj_token (jd_job d))]\<rparr>)"
proof -
  note i = jobs_soundD [OF s]
  let ?l = "jw_log w @ [JobAcked (cj_id (jd_job d)) (cj_token (jd_job d))]"
  have "jd_job d \<in> set (handled_jobs (jw_log w))"
    using i(6) mem h by (simp add: deliveries_sound_def delivery_sound_def)
  then have "handled_sound ?l"
    using i(3) by (auto simp: handled_sound_def claimed_as_append)
  moreover have "claims_sound ?l" "sent_sound ?l" "table_sound ?l (jw_table w)" "kept ?l (jw_table w)"
    using i(1, 2, 4, 5) by (auto simp: claims_sound_def sent_sound_def table_sound_def kept_def claimed_as_append row_sound_plain)
  moreover have "deliveries_sound (w\<lparr>jw_log := ?l\<rparr>)"
    using i(6) by (auto simp: deliveries_sound_def delivery_sound_def claimed_as_append)
  ultimately show ?thesis
    using i(7) by (simp add: jobs_sound_def flights_sound_def)
qed

lemma answered_sound:
  assumes s: "jobs_sound m w" and mem: "d \<in> set (jw_deliveries w)" and h: "jd_handling d"
  shows "jobs_sound m (deliver_answered m d answer writes now reads w)"
proof (cases "deliverJob answer")
  case JobAck
  then show ?thesis
    using settle_sound [OF ack_sound [OF assms]] mem by (simp add: deliver_answered_def Let_def)
next
  case (JobRetry delayMs)
  then show ?thesis
    using s mem by (auto simp: deliver_answered_def Let_def failed_job_def attempts_spent_def intro!: settle_sound split: option.split)
qed

lemma handle_sound:
  assumes s: "jobs_sound m w" and mem: "d \<in> set (jw_deliveries w)" and h: "\<not> jd_handling d"
    and p: "job_policy (cj_kind (jd_job d)) = Some p" "cj_attempts (jd_job d) \<le> rp_maxAttempts p"
  shows "jobs_sound m (w\<lparr>jw_deliveries := sql_update (\<lambda>x. jd_number x = jd_number d) (\<lambda>x. x\<lparr>jd_handling := True\<rparr>) (jw_deliveries w),
    jw_log := jw_log w @ [JobHandled now (jd_job d)]\<rparr>)" (is "jobs_sound m ?w")
proof -
  note i = jobs_soundD [OF s]
  let ?l = "jw_log w @ [JobHandled now (jd_job d)]"
  have d: "jd_job d \<notin> set (handled_jobs (jw_log w))" "claimed_as (jw_log w) (jd_job d) (jd_leaseUntil d)"
    using i(6) mem h by (auto simp: deliveries_sound_def delivery_sound_def)
  have "handled_sound ?l"
    using i(3) d p by (auto simp: handled_sound_def claimed_as_append)
  moreover have "claims_sound ?l" "sent_sound ?l" "table_sound ?l (jw_table w)" "kept ?l (jw_table w)"
    using i(1, 2, 4, 5) by (auto simp: claims_sound_def sent_sound_def table_sound_def kept_def claimed_as_append row_sound_plain)
  moreover have "deliveries_sound ?w"
  proof -
    have sound: "delivery_sound w x" and same: "jd_number x = jd_number d \<or> jd_job x = jd_job d \<Longrightarrow> x = d"
      if "x \<in> set (jw_deliveries w)" for x
      using i(6) that mem by (auto simp: deliveries_sound_def distinct_map inj_on_def)
    have "delivery_sound ?w (x\<lparr>jd_handling := True\<rparr>)" if "x \<in> set (jw_deliveries w)" "jd_number x = jd_number d" for x
      using sound [OF that(1)] same [OF that(1)] that(2) by (auto simp: delivery_sound_def claimed_as_append current_claim_def)
    moreover have "delivery_sound ?w x" if "x \<in> set (jw_deliveries w)" "jd_number x \<noteq> jd_number d" for x
      using sound [OF that(1)] same [OF that(1)] that(2) by (auto simp: delivery_sound_def claimed_as_append current_claim_def)
    ultimately have "\<forall>x \<in> set (jw_deliveries ?w). delivery_sound ?w x"
      by (auto simp: set_sql_update)
    then show ?thesis
      using i(6) by (simp add: deliveries_sound_def map_sql_update)
  qed
  ultimately show ?thesis
    using i(7) by (simp add: jobs_sound_def flights_sound_def)
qed

lemma begun_sound:
  assumes s: "jobs_sound m w" and mem: "d \<in> set (jw_deliveries w)" and h: "\<not> jd_handling d"
  shows "jobs_sound m (deliver_begun m d unreadable writes now reads w)"
proof -
  have "job_policy (cj_kind (jd_job d)) \<noteq> None"
    using jobs_soundD(1, 6) [OF s] mem claim_known by (fastforce simp: deliveries_sound_def delivery_sound_def)
  then obtain p where p: "job_policy (cj_kind (jd_job d)) = Some p"
    by blast
  then show ?thesis
    using handle_sound [OF assms p] s mem
    by (auto simp: deliver_begun_def Let_def failed_job_def attempts_spent_def intro!: settle_sound)
qed

section \<open>Claiming\<close>

definition new_delivery :: "ms \<Rightarrow> nat \<Rightarrow> claimed_job \<Rightarrow> job_delivery" where
  "new_delivery x n j = \<lparr>jd_number = n, jd_job = j, jd_leaseUntil = x, jd_handling = False\<rparr>"

lemma new_delivery_simps [simp]:
  "jd_number (new_delivery x n j) = n" "jd_job (new_delivery x n j) = j"
  "jd_leaseUntil (new_delivery x n j) = x" "\<not> jd_handling (new_delivery x n j)"
  by (simp_all add: new_delivery_def)

lemma register_simps [simp]:
  "jw_table (register_delivery now x j w) = jw_table w"
  "jw_clock (register_delivery now x j w) = jw_clock w"
  "jw_log (register_delivery now x j w) = jw_log w @ [JobClaimed now j x]"
  "jw_next (register_delivery now x j w) = Suc (jw_next w)"
  "jw_deliveries (register_delivery now x j w) = jw_deliveries w @ [new_delivery x (jw_next w) j]"
  "jw_inFlight (register_delivery now x j w)
     = flight_set (cj_id j) \<lparr>jf_delivery = jw_next w, jf_leaseUntil = x\<rparr> (jw_inFlight w)"
  by (simp_all add: register_delivery_def new_delivery_def)

lemma register_all_simps [simp]:
  "register_deliveries now x [] w = w"
  "register_deliveries now x (j # js) w = register_deliveries now x js (register_delivery now x j w)"
  by (simp_all add: register_deliveries_def)

lemma numbered_Cons:
  "zip [n ..< n + length (j # js)] (j # js) = (n, j) # zip [Suc n ..< Suc n + length js] js"
proof -
  have "[n ..< n + length (j # js)] = n # [Suc n ..< Suc n + length js]"
    using upt_conv_Cons [of n "n + length (j # js)"] by simp
  then show ?thesis
    by simp
qed

lemma register_deliveries_are:
  "jw_deliveries (register_deliveries now x js w)
     = jw_deliveries w @ map (\<lambda>(n, j). new_delivery x n j) (zip [jw_next w ..< jw_next w + length js] js)"
proof (induction js arbitrary: w)
  case (Cons j js)
  show ?case
    unfolding numbered_Cons register_all_simps Cons.IH by simp
qed simp

lemma register_next: "jw_next (register_deliveries now x js w) = jw_next w + length js"
  by (induction js arbitrary: w) simp_all

lemma register_log: "jw_log (register_deliveries now x js w) = jw_log w @ map (\<lambda>j. JobClaimed now j x) js"
  by (induction js arbitrary: w) simp_all

lemma register_rest:
  "jw_table (register_deliveries now x js w) = jw_table w"
  "jw_clock (register_deliveries now x js w) = jw_clock w"
  by (induction js arbitrary: w) simp_all

lemmas register_shape = register_rest register_log register_next register_deliveries_are

lemma flight_set_distinct:
  assumes "distinct (map fst fl)"
  shows "distinct (map fst (flight_set i f fl))"
proof -
  have "map fst (map (\<lambda>x. if fst x = i then (i, f) else x) fl) = map fst fl"
    by (induction fl) auto
  then have "distinct (map fst (map (\<lambda>x. if fst x = i then (i, f) else x) fl))"
    using assms by metis
  then show ?thesis
    using assms by (simp add: flight_set_def del: map_map)
qed

lemma flight_set_length: "length (flight_set i f fl) \<le> Suc (length fl)"
  by (simp add: flight_set_def)

lemma map_of_replace:
  "k \<noteq> i \<Longrightarrow> map_of (map (\<lambda>x. if fst x = i then (i, f) else x) fl) k = map_of fl k"
  "i \<in> fst ` set fl \<Longrightarrow> map_of (map (\<lambda>x. if fst x = i then (i, f) else x) fl) i = Some f"
  by (induction fl) auto

lemma map_of_flight_set: "map_of (flight_set i f fl) k = (if k = i then Some f else map_of fl k)"
proof (cases "i \<in> fst ` set fl")
  case True
  then show ?thesis
    by (simp add: flight_set_def map_of_replace)
next
  case False
  then have "map_of fl i = None"
    by (simp add: map_of_eq_None_iff)
  with False show ?thesis
    by (simp add: flight_set_def map_add_def split: option.split)
qed

lemma register_distinct:
  "distinct (map fst (jw_inFlight w)) \<Longrightarrow> distinct (map fst (jw_inFlight (register_deliveries now x js w)))"
  by (induction js arbitrary: w) (simp_all add: flight_set_distinct)

lemma register_length:
  "length (jw_inFlight (register_deliveries now x js w)) \<le> length (jw_inFlight w) + length js"
proof (induction js arbitrary: w)
  case (Cons j js)
  let ?f = "\<lparr>jf_delivery = jw_next w, jf_leaseUntil = x\<rparr>"
  have "length (jw_inFlight (register_deliveries now x (j # js) w)) \<le> length (flight_set (cj_id j) ?f (jw_inFlight w)) + length js"
    using Cons [of "register_delivery now x j w"] by simp
  also have "\<dots> \<le> length (jw_inFlight w) + length (j # js)"
    using flight_set_length [of "cj_id j" ?f "jw_inFlight w"] by simp
  finally show ?case .
qed simp

lemma register_others:
  "k \<notin> cj_id ` set js \<Longrightarrow> map_of (jw_inFlight (register_deliveries now x js w)) k = map_of (jw_inFlight w) k"
  by (induction js arbitrary: w) (simp_all add: map_of_flight_set)

lemma register_own:
  assumes "distinct (map cj_id js)" and "(n, j) \<in> set (zip [jw_next w ..< jw_next w + length js] js)"
  shows "map_of (jw_inFlight (register_deliveries now x js w)) (cj_id j) = Some \<lparr>jf_delivery = n, jf_leaseUntil = x\<rparr>"
  using assms
proof (induction js arbitrary: w)
  case (Cons a js)
  have d: "cj_id a \<notin> cj_id ` set js" "distinct (map cj_id js)"
    using Cons.prems(1) by simp_all
  have "(n, j) = (jw_next w, a) \<or> (n, j) \<in> set (zip [Suc (jw_next w) ..< Suc (jw_next w) + length js] js)"
    using Cons.prems(2) unfolding numbered_Cons by simp
  then show ?case
  proof
    assume "(n, j) = (jw_next w, a)"
    then show ?thesis
      by (simp add: register_others [OF d(1)] map_of_flight_set)
  next
    assume "(n, j) \<in> set (zip [Suc (jw_next w) ..< Suc (jw_next w) + length js] js)"
    with Cons.IH [OF d(2), of "register_delivery now x a w"] show ?thesis
      by simp
  qed
qed simp

lemma chosen_jobs_are:
  assumes "r \<in> set (chosen_jobs now limit kinds t)"
  shows "r \<in> set t" and "claimable kinds r" and "jb_run_at r \<le> now"
  using set_take_subset assms by (fastforce simp: chosen_jobs_def)+

lemma chosen_length: "length (chosen_jobs now limit kinds t) \<le> limit"
  by (simp add: chosen_jobs_def)

text \<open>A claim as seen from its rows: what is handed out are pending rows, each once.\<close>

lemma claim_facts:
  assumes d: "distinct (map jb_id t)" and c: "claim_jobs now limit kinds x token t = (t', js)"
  defines "ids \<equiv> jb_id ` set (chosen_jobs now limit kinds t)"
  shows "t' = sql_update (\<lambda>r. jb_id r \<in> ids) (claim_row token x) t"
    and "distinct (map cj_id js)" and "length js \<le> limit"
    and "j \<in> set js \<Longrightarrow> \<exists>r \<in> set t. claimable kinds r \<and> jb_id r \<in> ids \<and> j = job_handed_out token (claim_row token x r)"
    and "r \<in> set t \<Longrightarrow> jb_id r \<in> ids \<Longrightarrow> claimable kinds r \<and> job_handed_out token (claim_row token x r) \<in> set js"
proof -
  let ?c = "chosen_jobs now limit kinds t"
  show t': "t' = sql_update (\<lambda>r. jb_id r \<in> ids) (claim_row token x) t"
    using c by (simp add: claim_jobs_def Let_def ids_def)
  have js: "js = map (job_handed_out token) (filter (\<lambda>r. jb_id r \<in> ids) t')"
    using c t' by (simp add: claim_jobs_def Let_def ids_def)
  have idt: "map jb_id t' = map jb_id t"
    unfolding t' by (rule map_sql_update) (simp add: claim_row_def)
  have cjs: "map cj_id js = map jb_id (filter (\<lambda>r. jb_id r \<in> ids) t')"
    by (simp add: js job_handed_out_def)
  show dis: "distinct (map cj_id js)"
    unfolding cjs by (rule distinct_map_filter) (simp add: idt d)
  have "set (map cj_id js) \<subseteq> ids"
    by (auto simp: cjs)
  then have "card (set (map cj_id js)) \<le> card (set (map jb_id ?c))"
    unfolding ids_def by (intro card_mono) auto
  also have "\<dots> \<le> limit"
    using card_length [of "map jb_id ?c"] chosen_length by (metis le_trans length_map)
  finally show "length js \<le> limit"
    using distinct_card [OF dis] by simp
  have one: "claimable kinds r" if r: "r \<in> set t" "jb_id r \<in> ids" for r
  proof -
    obtain r' where r': "r' \<in> set ?c" "jb_id r' = jb_id r"
      using r(2) by (auto simp: ids_def)
    then have "r' = r"
      using d r(1) chosen_jobs_are(1) [OF r'(1)] by (auto simp: distinct_map inj_on_def)
    then show ?thesis
      using chosen_jobs_are(2) [OF r'(1)] by simp
  qed
  show "\<exists>r \<in> set t. claimable kinds r \<and> jb_id r \<in> ids \<and> j = job_handed_out token (claim_row token x r)" if "j \<in> set js"
    using that one by (auto simp: js t' set_sql_update claim_row_def)
  show "claimable kinds r \<and> job_handed_out token (claim_row token x r) \<in> set js" if r: "r \<in> set t" "jb_id r \<in> ids"
  proof -
    have "claim_row token x r \<in> set t'"
      using r by (auto simp: t' set_sql_update)
    moreover have "jb_id (claim_row token x r) \<in> ids"
      using r(2) by (simp add: claim_row_def)
    ultimately show ?thesis
      using one [OF r] by (auto simp: js)
  qed
qed

lemma known_policy: "kind \<in> set KNOWN_KINDS \<Longrightarrow> job_policy kind \<noteq> None"
  by (auto simp: KNOWN_KINDS_def job_policy_def JOB_KINDS_def)

lemma claimed_now: "claimed_as (map (\<lambda>j. JobClaimed now j x) js) j y \<longleftrightarrow> j \<in> set js \<and> y = x"
  by (auto simp: claimed_as_def)

lemma handled_claims [simp]: "handled_jobs (map (\<lambda>j. JobClaimed now j x) js) = []"
  by (induction js) simp_all

lemma claim_sound:
  assumes s: "jobs_sound m w" and f: "fresh_token token w"
    and cap: "limit \<le> m - length (jw_inFlight w)"
    and c: "claim_jobs now limit KNOWN_KINDS x token (jw_table w) = (t', js)"
  shows "jobs_sound m (register_deliveries now x js (w\<lparr>jw_table := t'\<rparr>))" (is "jobs_sound m ?w")
proof -
  note i = jobs_soundD [OF s]
  let ?l = "jw_log w" and ?l' = "jw_log w @ map (\<lambda>j. JobClaimed now j x) js" and ?t = "jw_table w"
  have d: "distinct (map jb_id ?t)" "\<And>r. r \<in> set ?t \<Longrightarrow> row_sound ?l r"
    using i(4) by (auto simp: table_sound_def)
  note cf = claim_facts [OF d(1) c]
  have from_row: "\<exists>r \<in> set ?t. jb_status r = JobPending \<and> jb_kind r \<in> set KNOWN_KINDS \<and> cj_id j = jb_id r
      \<and> cj_kind j = jb_kind r \<and> cj_attempts j = Suc (jb_attempts r) \<and> cj_token j = token" if "j \<in> set js" for j
    using cf(4) [OF that] by (auto simp: claimable_def job_handed_out_def claim_row_def)
  have newer: "cj_attempts j' < cj_attempts j \<and> cj_token j' \<noteq> cj_token j"
    if a: "j \<in> set js" "claimed_as ?l j' y" "cj_id j' = cj_id j" for j j' y
  proof -
    obtain r where r: "r \<in> set ?t" "cj_id j = jb_id r" "cj_attempts j = Suc (jb_attempts r)" "cj_token j = token"
      using from_row [OF a(1)] by blast
    have "cj_attempts j' \<le> jb_attempts r"
      using d(2) [OF r(1)] a(2, 3) r(2) unfolding row_sound_def by auto
    moreover have "cj_token j' \<noteq> token"
      using f a(2) by (auto simp: fresh_token_def claimed_as_def)
    ultimately show ?thesis
      using r by simp
  qed
  have inj: "j = j'" if "j \<in> set js" "j' \<in> set js" "cj_id j = cj_id j'" for j j'
    using cf(2) that by (auto simp: distinct_map inj_on_def)
  have "claims_sound ?l'"
    unfolding claims_sound_def claimed_as_append claimed_now
  proof (intro conjI allI impI)
    fix j y
    assume "claimed_as ?l j y \<or> j \<in> set js \<and> y = x"
    then show "0 < cj_attempts j" "job_policy (cj_kind j) \<noteq> None" "JobSent (cj_id j) (cj_kind j) \<in> set ?l'"
      using claim_known [OF i(1), of j y] from_row [of j] d(2) known_policy by (auto simp: row_sound_def)
  next
    fix j y j' y'
    assume "(claimed_as ?l j y \<or> j \<in> set js \<and> y = x) \<and> (claimed_as ?l j' y' \<or> j' \<in> set js \<and> y' = x)
      \<and> cj_id j = cj_id j' \<and> (cj_attempts j = cj_attempts j' \<or> cj_token j = cj_token j')"
    then have e: "cj_id j = cj_id j'" "cj_attempts j = cj_attempts j' \<or> cj_token j = cj_token j'"
      and o1: "claimed_as ?l j y \<or> j \<in> set js \<and> y = x" and o2: "claimed_as ?l j' y' \<or> j' \<in> set js \<and> y' = x"
      by simp_all
    have "\<not> (j' \<in> set js \<and> claimed_as ?l j y)" "\<not> (j \<in> set js \<and> claimed_as ?l j' y')"
      using newer [of j' j y] newer [of j j' y'] e by auto
    with o1 o2 have "claimed_as ?l j y \<and> claimed_as ?l j' y' \<or> j \<in> set js \<and> j' \<in> set js \<and> y = y'"
      by blast
    then have "j = j' \<and> y = y'"
      using claim_unique [OF i(1), of j y j' y'] inj [of j j'] e by blast
    then show "j = j'" "y = y'"
      by simp_all
  qed
  moreover have "sent_sound ?l'"
    using i(2) by (auto simp: sent_sound_def)
  moreover have "handled_sound ?l'"
    using i(3) by (auto simp: handled_sound_def claimed_as_append)
  moreover have table: "table_sound ?l' t'"
  proof -
    have "row_sound ?l' (claim_row token x r)" if r: "r \<in> set ?t" "jb_id r \<in> jb_id ` set (chosen_jobs now limit KNOWN_KINDS ?t)" for r
    proof -
      have mem: "job_handed_out token (claim_row token x r) \<in> set js"
        using cf(5) [OF r] by simp
      have "cj_attempts j \<le> Suc (jb_attempts r)" if "claimed_as ?l' j y" "cj_id j = jb_id r" for j y
        using that newer [OF mem, of j y] inj [OF _ mem, of j] unfolding claimed_as_append claimed_now
        by (auto simp: job_handed_out_def claim_row_def)
      moreover have "claimed_as ?l' (job_handed_out token (claim_row token x r)) x"
        using mem by (simp add: claimed_as_append claimed_now)
      ultimately show ?thesis
        using d(2) [OF r(1)] by (auto simp: row_sound_def claim_row_def job_handed_out_def)
    qed
    moreover have "row_sound ?l' r" if r: "r \<in> set ?t" "jb_id r \<notin> jb_id ` set (chosen_jobs now limit KNOWN_KINDS ?t)" for r
    proof -
      have "cj_id j \<noteq> jb_id r" if "j \<in> set js" for j
      proof -
        have "cj_id j \<in> jb_id ` set (chosen_jobs now limit KNOWN_KINDS ?t)"
          using cf(4) [OF that] by (elim bexE conjE) (simp only: job_handed_out_def claim_row_def, simp)
        with r(2) show ?thesis
          by metis
      qed
      then show ?thesis
        using d(2) [OF r(1)] unfolding row_sound_def claimed_as_append claimed_now by (auto; metis)
    qed
    ultimately show ?thesis
      using d(1) by (auto simp: table_sound_def cf(1) set_sql_update map_sql_update claim_row_def)
  qed
  moreover have "kept ?l' t'"
    using i(5) ids_updated [of "claim_row token x"] by (auto simp: kept_def cf(1) claim_row_def)
  moreover have "deliveries_sound ?w"
  proof -
    let ?n = "jw_next w"
    let ?z = "zip [?n ..< ?n + length js] js"
    have old: "delivery_sound ?w y" if y: "delivery_sound w y" for y
    proof -
      have lapsed: "jd_leaseUntil y \<le> jw_clock w" if a: "cj_id (jd_job y) \<in> cj_id ` set js"
      proof (rule ccontr)
        assume "\<not> jd_leaseUntil y \<le> jw_clock w"
        then obtain r where r: "r \<in> set ?t" "jb_id r = cj_id (jd_job y)" "jb_claim_token r \<noteq> None"
          using y by (auto simp: delivery_sound_def current_claim_def holds_job_claim_def)
        obtain j where "j \<in> set js" "cj_id j = cj_id (jd_job y)"
          using a by auto
        then obtain r' where "r' \<in> set ?t" "jb_id r' = jb_id r" "jb_status r' = JobPending"
          using from_row [of j] r(2) by auto
        moreover from this have "r' = r"
          using d(1) r(1) by (simp add: distinct_map inj_on_def)
        ultimately show False
          using d(2) [OF r(1)] r(3) by (simp add: row_sound_def)
      qed
      have "current_claim t' y" if a: "current_claim ?t y" "cj_id (jd_job y) \<notin> cj_id ` set js"
      proof -
        obtain r where r: "r \<in> set ?t" "holds_job_claim (cj_id (jd_job y)) (cj_token (jd_job y)) r"
            "jb_lease_expires_at r = Some (jd_leaseUntil y)"
          using a(1) by (auto simp: current_claim_def)
        have "jb_id r \<notin> jb_id ` set (chosen_jobs now limit KNOWN_KINDS ?t)"
        proof
          assume "jb_id r \<in> jb_id ` set (chosen_jobs now limit KNOWN_KINDS ?t)"
          then have "cj_id (job_handed_out token (claim_row token x r)) \<in> cj_id ` set js"
            using cf(5) [OF r(1)] by blast
          with r(2) a(2) show False
            by (simp add: holds_job_claim_def job_handed_out_def claim_row_def)
        qed
        then have "r \<in> set t'"
          unfolding cf(1) using r(1) by (intro sql_update_other) auto
        with r show ?thesis
          by (auto simp: current_claim_def)
      qed
      note current = this
      show ?thesis
      proof (cases "cj_id (jd_job y) \<in> cj_id ` set js")
        case True
        then show ?thesis
          using y lapsed by (simp add: delivery_sound_def register_shape claimed_as_append)
      next
        case False
        then show ?thesis
          using y current register_others [OF False, of now x "w\<lparr>jw_table := t'\<rparr>"]
          by (auto simp: delivery_sound_def register_shape claimed_as_append)
      qed
    qed
    have new: "delivery_sound ?w (new_delivery x n j)" if z: "(n, j) \<in> set ?z" for n j
    proof -
      have mem: "j \<in> set js" "n < ?n + length js"
        using z set_zip_leftD [OF z] by (auto dest: set_zip_rightD)
      have "j \<notin> set (handled_jobs ?l)"
        using i(3) newer [OF mem(1), of j] unfolding handled_sound_def by blast
      moreover have "current_claim t' (new_delivery x n j)"
      proof -
        obtain r where r: "r \<in> set ?t" "jb_id r \<in> jb_id ` set (chosen_jobs now limit KNOWN_KINDS ?t)"
            "j = job_handed_out token (claim_row token x r)"
          using cf(4) [OF mem(1)] by blast
        then have "claim_row token x r \<in> set t'"
          by (auto simp: cf(1) set_sql_update)
        then show ?thesis
          unfolding current_claim_def
          by (rule bexI [rotated]) (simp add: r(3) holds_job_claim_def job_handed_out_def claim_row_def)
      qed
      moreover have "map_of (jw_inFlight ?w) (cj_id j) = Some \<lparr>jf_delivery = n, jf_leaseUntil = x\<rparr>"
        by (rule register_own [OF cf(2)]) (use z in simp)
      ultimately show ?thesis
        using mem by (auto simp: delivery_sound_def register_shape claimed_as_append claimed_now)
    qed
    have ds: "distinct (map jd_number (jw_deliveries w))" "distinct (map jd_job (jw_deliveries w))"
        "\<And>y. y \<in> set (jw_deliveries w) \<Longrightarrow> delivery_sound w y"
      using i(6) by (auto simp: deliveries_sound_def)
    have num: "map jd_number (map (\<lambda>(n, j). new_delivery x n j) ?z) = [?n ..< ?n + length js]"
      and job: "map jd_job (map (\<lambda>(n, j). new_delivery x n j) ?z) = js"
      by (simp_all add: case_prod_beta' comp_def)
    have "jd_job ` set (jw_deliveries w) \<inter> set js = {}"
      using ds(3) newer by (fastforce simp: delivery_sound_def)
    moreover have "distinct js"
      using cf(2) by (simp add: distinct_map)
    moreover have "\<forall>y \<in> set (jw_deliveries w). jd_number y < ?n"
      using ds(3) by (simp add: delivery_sound_def)
    then have "jd_number ` set (jw_deliveries w) \<inter> {?n ..< ?n + length js} = {}"
      by fastforce
    moreover have "map jd_number (jw_deliveries ?w) = map jd_number (jw_deliveries w) @ [?n ..< ?n + length js]"
      "map jd_job (jw_deliveries ?w) = map jd_job (jw_deliveries w) @ js"
      using num job by (simp_all add: register_shape)
    ultimately have "distinct (map jd_number (jw_deliveries ?w))" "distinct (map jd_job (jw_deliveries ?w))"
      using ds(1, 2) by simp_all
    moreover have "\<forall>y \<in> set (jw_deliveries ?w). delivery_sound ?w y"
      using old new ds(3) by (auto simp: register_shape)
    ultimately show ?thesis
      by (simp add: deliveries_sound_def)
  qed
  moreover have "flights_sound m ?w"
    using i(7) register_distinct [of "w\<lparr>jw_table := t'\<rparr>" now x js] register_length [of now x js "w\<lparr>jw_table := t'\<rparr>"] cf(3) cap
    by (auto simp: flights_sound_def)
  ultimately show ?thesis
    by (simp add: jobs_sound_def register_shape)
qed

section \<open>Every reachable state\<close>

lemma at_time_commutes:
  "at_time t (arm_jobs m now reads w) = arm_jobs m now reads (at_time t w)"
  "at_time t (start_jobs m now reads w) = start_jobs m now reads (at_time t w)"
  "at_time t (forgetExpiredDeliveries now w) = forgetExpiredDeliveries now (at_time t w)"
  by (simp_all add: at_time_def arm_jobs_def start_jobs_def forgetExpiredDeliveries_def Let_def)

lemma register_at_time:
  "at_time t (register_deliveries now x js w) = register_deliveries now x js (at_time t w)"
proof (induction js arbitrary: w)
  case (Cons j js)
  have "at_time t (register_delivery now x j w) = register_delivery now x j (at_time t w)"
    by (simp add: at_time_def register_delivery_def)
  with Cons show ?case
    by simp
qed simp

lemma claimAndRun_at_time: "at_time t (claimAndRun m now token w) = claimAndRun m now token (at_time t w)"
proof -
  have "at_time t (w\<lparr>jw_table := t'\<rparr>) = (at_time t w)\<lparr>jw_table := t'\<rparr>" for t'
    by (simp add: at_time_def)
  moreover have "jw_inFlight (at_time t w) = jw_inFlight w" "jw_table (at_time t w) = jw_table w"
    by (simp_all add: at_time_def)
  ultimately show ?thesis
    by (simp add: claimAndRun_def Let_def register_at_time split: prod.split)
qed

lemma tick_at_time: "at_time t (tick_jobs m extent now reads w) = tick_jobs m extent now reads (at_time t w)"
proof -
  have "at_time t (w\<lparr>jw_table := f (jw_table w)\<rparr>) = (at_time t w)\<lparr>jw_table := f (jw_table (at_time t w))\<rparr>" for w f
    by (simp add: at_time_def)
  then show ?thesis
    by (cases extent) (simp_all add: tick_jobs_def at_time_commutes claimAndRun_at_time Let_def)
qed

lemma claimAndRun_sound:
  assumes "jobs_sound m w" and "fresh_token token w"
  shows "jobs_sound m (claimAndRun m now token w)"
proof (cases "m - length (jw_inFlight w) = 0")
  case False
  obtain t' js where c: "claim_jobs now (m - length (jw_inFlight w)) KNOWN_KINDS (now + JOB_CLAIM_LEASE_MS) token (jw_table w) = (t', js)"
    by fastforce
  from claim_sound [OF assms order_refl c] False show ?thesis
    by (simp add: claimAndRun_def c)
qed (use assms in \<open>simp add: claimAndRun_def\<close>)

lemma tick_sound:
  assumes s: "jobs_sound m w" and t: "tick_time extent w now"
  shows "jobs_sound m (at_time now (tick_jobs m extent now reads w))"
proof -
  let ?w = "at_time now w"
  have c: "jw_clock ?w = now"
    by (simp add: at_time_def)
  have w: "jobs_sound m ?w"
    using t by (intro sound_later [OF s]) (cases extent; simp)
  have f: "jobs_sound m (forgetExpiredDeliveries t1 ?w) \<and> jw_clock (forgetExpiredDeliveries t1 ?w) = now" if "t1 \<le> now" for t1
    using forget_sound [OF w, of t1] that c by (simp add: forgetExpiredDeliveries_def)
  have r: "jobs_sound m ((forgetExpiredDeliveries t1 ?w)
      \<lparr>jw_table := recoverExpiredClaims t2 (jw_table (forgetExpiredDeliveries t1 ?w))\<rparr>)" if "t1 \<le> now" "t2 \<le> now" for t1 t2
    using recover_sound [of m "forgetExpiredDeliveries t1 ?w" t2] f [OF that(1)] that(2) by simp
  have fresh: "fresh_token token ((forgetExpiredDeliveries t1 ?w)\<lparr>jw_table := x\<rparr>)" if "fresh_token token w" for token t1 x
    using that by (simp add: fresh_token_def forgetExpiredDeliveries_def at_time_def)
  show ?thesis
    unfolding tick_at_time
    using t f r by (cases extent) (auto simp: tick_jobs_def Let_def intro!: claimAndRun_sound fresh)
qed

lemma settled_at_time:
  "at_time t (settled_over m d st writes now reads w) = settled_over m d st writes now reads (at_time t w)"
proof -
  have "at_time t (w\<lparr>jw_table := x, jw_inFlight := y, jw_deliveries := z\<rparr>)
      = (at_time t w)\<lparr>jw_table := x, jw_inFlight := y, jw_deliveries := z\<rparr>" for x y z
    by (simp add: at_time_def)
  moreover have "jw_inFlight (at_time t w) = jw_inFlight w" "jw_table (at_time t w) = jw_table w"
    "jw_deliveries (at_time t w) = jw_deliveries w"
    by (simp_all add: at_time_def)
  ultimately show ?thesis
    by (simp add: settled_over_def delivery_over_def at_time_commutes(1) del: some_holds_iff)
qed

lemma begun_at_time: "at_time t (deliver_begun m d unreadable writes now reads w) = deliver_begun m d unreadable writes now reads (at_time t w)"
  by (simp add: deliver_begun_def Let_def settled_at_time split: option.split) (simp add: at_time_def)

lemma answered_at_time: "at_time t (deliver_answered m d answer writes now reads w) = deliver_answered m d answer writes now reads (at_time t w)"
proof -
  have "at_time t (w\<lparr>jw_log := l\<rparr>) = (at_time t w)\<lparr>jw_log := l\<rparr>" "jw_log (at_time t w) = jw_log w" for l
    by (simp_all add: at_time_def)
  then show ?thesis
    by (simp add: deliver_answered_def Let_def settled_at_time split: option.split job_outcome.split)
qed

lemma job_step_sound:
  assumes "job_step m w w'" and "jobs_sound m w"
  shows "jobs_sound m w'"
  using assms
proof cases
  case (send now i kind payload delayMs reads w1)
  have "jw_clock w1 = jw_clock w"
    using send(4) by (auto simp: send_job_def arm_jobs_def)
  with send show ?thesis
    using send_sound [OF assms(2) send(3, 4)] by (auto intro: sound_later)
next
  case (start now reads)
  then show ?thesis
    using assms(2) sound_later by (simp add: at_time_commutes) (simp add: start_jobs_def)
next
  case stop
  then show ?thesis
    using assms(2) by (simp add: stop_jobs_def)
next
  case (tick extent now reads)
  then show ?thesis
    using tick_sound [OF assms(2)] by simp
next
  case (handle now d unreadable writes reads)
  have "d \<in> set (jw_deliveries (at_time now w))"
    using handle by (simp add: at_time_def)
  from begun_sound [OF sound_later [OF assms(2) handle(2)] this handle(4)] handle(1) show ?thesis
    by (simp add: begun_at_time)
next
  case (answer now d outcome writes reads)
  have "d \<in> set (jw_deliveries (at_time now w))"
    using answer by (simp add: at_time_def)
  from answered_sound [OF sound_later [OF assms(2) answer(2)] this answer(4)] answer(1) show ?thesis
    by (simp add: answered_at_time)
next
  case restart
  then show ?thesis
    using restart_sound [OF assms(2)] by simp
qed

lemma jobs_reachable_sound: "jobs_reachable m w \<Longrightarrow> jobs_sound m w"
proof (induction rule: jobs_reachable.induct)
  case (new now)
  then show ?case
    by (simp add: new_jobs_def jobs_sound_def claims_sound_def sent_sound_def handled_sound_def table_sound_def
        kept_def deliveries_sound_def flights_sound_def)
next
  case (step w w')
  then show ?case
    using job_step_sound by blast
qed

end
