(* ===== verification/Job_Theorems.thy ===== *)
theory Job_Theorems
  imports Job_Safety
begin

text \<open>
  What the jobs table and its poller promise those who send jobs, and a worked run.
\<close>

section \<open>What is promised\<close>

lemma length_image: "inj_on f (set xs) \<Longrightarrow> distinct xs \<Longrightarrow> length xs = card (f ` set xs)"
  by (metis card_image distinct_card)

lemma one_row: "distinct (map jb_id t) \<Longrightarrow> r \<in> set t \<Longrightarrow> filter (\<lambda>x. jb_id x = jb_id r) t = [r]"
  by (induction t) (auto simp: filter_empty_conv image_iff)

lemma known_bound: "claims_sound l \<Longrightarrow> sent_sound l \<Longrightarrow> claimed_as l j x \<Longrightarrow> JobSent (cj_id j) kind \<in> set l \<Longrightarrow> cj_kind j = kind"
  using claim_known unfolding sent_sound_def by blast

text \<open>
  C14. A job's handler is started at most as often as its kind allows. However often the process dies,
  a handler hangs past its lease or a settling write fails, the attempts a job is charged for are
  never refunded, and no attempt starts the handler twice.
\<close>

theorem handler_starts_are_bounded:
  assumes "jobs_reachable m w" and "JobSent i kind \<in> set (jw_log w)" and "job_policy kind = Some p"
  shows "length (filter (\<lambda>j. cj_id j = i) (handled_jobs (jw_log w))) \<le> rp_maxAttempts p"
proof -
  note s = jobs_soundD [OF jobs_reachable_sound [OF assms(1)]]
  let ?js = "filter (\<lambda>j. cj_id j = i) (handled_jobs (jw_log w))"
  have claimed: "\<exists>x. claimed_as (jw_log w) j x" and bound: "cj_attempts j \<le> rp_maxAttempts p" if "j \<in> set ?js" for j
  proof -
    have h: "(\<exists>x. claimed_as (jw_log w) j x) \<and> some_holds (\<lambda>p. cj_attempts j \<le> rp_maxAttempts p) (job_policy (cj_kind j))"
      using s(3) that unfolding handled_sound_def by simp
    then show "\<exists>x. claimed_as (jw_log w) j x"
      by blast
    then have "cj_kind j = kind"
      using known_bound [OF s(1, 2)] that assms(2) by auto
    then show "cj_attempts j \<le> rp_maxAttempts p"
      using h assms(3) by simp
  qed
  have "inj_on cj_attempts (set ?js)"
  proof (rule inj_onI)
    fix j j'
    assume "j \<in> set ?js" "j' \<in> set ?js" "cj_attempts j = cj_attempts j'"
    then show "j = j'"
      using claimed [of j] claimed [of j'] claim_unique [OF s(1)] by fastforce
  qed
  moreover have "distinct ?js"
    using s(3) by (simp add: handled_sound_def)
  ultimately have "length ?js = card (cj_attempts ` set ?js)"
    by (rule length_image)
  also have "\<dots> \<le> card {1..rp_maxAttempts p}"
  proof (rule card_mono)
    show "cj_attempts ` set ?js \<subseteq> {1..rp_maxAttempts p}"
      using claimed bound claim_known [OF s(1)] by (fastforce simp: Suc_le_eq)
  qed simp
  finally show ?thesis
    by simp
qed

text \<open>
  C13. A job that was sent is never lost. Until a handler that was started for it has acknowledged it,
  the table holds exactly one row for it, of its kind, and the row is waiting, or leased to the
  newest claim, or dead after as many attempts as its kind allows.
\<close>

theorem sent_jobs_are_never_lost:
  assumes "jobs_reachable m w" and "JobSent i kind \<in> set (jw_log w)"
  shows "(\<exists>j T. JobAcked i T \<in> set (jw_log w) \<and> j \<in> set (handled_jobs (jw_log w)) \<and> cj_id j = i \<and> cj_token j = T)
    \<or> (\<exists>r. filter (\<lambda>r. jb_id r = i) (jw_table w) = [r] \<and> jb_kind r = kind
        \<and> (case jb_status r of
             JobPending \<Rightarrow> jb_claim_token r = None
           | JobRunning \<Rightarrow> (\<exists>t j x. JobClaimed t j x \<in> set (jw_log w) \<and> jb_claim_token r = Some (cj_token j)
               \<and> jb_lease_expires_at r = Some x \<and> cj_id j = i \<and> cj_attempts j = jb_attempts r
               \<and> (\<forall>t' j' x'. JobClaimed t' j' x' \<in> set (jw_log w) \<and> cj_id j' = i \<longrightarrow> cj_attempts j' \<le> cj_attempts j))
           | JobDead \<Rightarrow> some_holds (\<lambda>p. rp_maxAttempts p \<le> jb_attempts r) (job_policy kind)))"
proof -
  note s = jobs_soundD [OF jobs_reachable_sound [OF assms(1)]]
  have "(\<exists>T. JobAcked i T \<in> set (jw_log w)) \<or> i \<in> jb_id ` set (jw_table w)"
    using s(5) assms(2) by (auto simp: kept_def)
  then show ?thesis
  proof
    assume "\<exists>T. JobAcked i T \<in> set (jw_log w)"
    then show ?thesis
      using s(3) unfolding handled_sound_def by blast
  next
    assume "i \<in> jb_id ` set (jw_table w)"
    then obtain r where r: "r \<in> set (jw_table w)" "jb_id r = i"
      by auto
    have sound: "row_sound (jw_log w) r" and d: "distinct (map jb_id (jw_table w))"
      using s(4) r by (auto simp: table_sound_def)
    have "filter (\<lambda>r. jb_id r = i) (jw_table w) = [r]"
      using one_row [OF d r(1)] r(2) by simp
    moreover have "jb_kind r = kind"
      using sound r(2) s(2) assms(2) unfolding row_sound_def sent_sound_def by blast
    moreover have "case jb_status r of
             JobPending \<Rightarrow> jb_claim_token r = None
           | JobRunning \<Rightarrow> (\<exists>t j x. JobClaimed t j x \<in> set (jw_log w) \<and> jb_claim_token r = Some (cj_token j)
               \<and> jb_lease_expires_at r = Some x \<and> cj_id j = i \<and> cj_attempts j = jb_attempts r
               \<and> (\<forall>t' j' x'. JobClaimed t' j' x' \<in> set (jw_log w) \<and> cj_id j' = i \<longrightarrow> cj_attempts j' \<le> cj_attempts j))
           | JobDead \<Rightarrow> some_holds (\<lambda>p. rp_maxAttempts p \<le> jb_attempts r) (job_policy (jb_kind r))"
    proof (cases "jb_status r")
      case JobRunning
      then obtain T where "jb_claim_token r = Some T"
        using sound by (auto simp: row_sound_def)
      moreover from this obtain j x where "claimed_as (jw_log w) j x" "jb_lease_expires_at r = Some x" "cj_id j = i"
          "cj_token j = T" "cj_attempts j = jb_attempts r"
        using sound r(2) unfolding row_sound_def by metis
      moreover have "\<forall>t' j' x'. JobClaimed t' j' x' \<in> set (jw_log w) \<and> cj_id j' = i \<longrightarrow> cj_attempts j' \<le> jb_attempts r"
        using sound r(2) by (auto simp: row_sound_def claimed_as_def)
      ultimately show ?thesis
        unfolding JobRunning claimed_as_def by (simp; metis)
    qed (use sound in \<open>auto simp: row_sound_def attempts_spent_def\<close>)
    ultimately show ?thesis
      by blast
  qed
qed

text \<open>A delivery whose claim the row no longer carries settles nothing.\<close>

lemma settle_idle:
  assumes "\<And>r. r \<in> set t \<Longrightarrow> \<not> holds_job_claim (cj_id j) (cj_token j) r"
  shows "settle_job j st writes t = t"
proof -
  have "sql_delete (holds_job_claim (cj_id j) (cj_token j)) t = t"
    using assms by (simp add: sql_delete_def filter_id_conv)
  then show ?thesis
    using assms by (auto simp: settle_job_def complete_job_def retry_job_def bury_job_def sql_update_idle split: settling.split)
qed

lemma live_deliveries_agree:
  assumes s: "jobs_sound m w" and d: "d \<in> set (jw_deliveries w)" "d' \<in> set (jw_deliveries w)"
    and i: "cj_id (jd_job d) = cj_id (jd_job d')" and l: "jw_clock w < jd_leaseUntil d" "jw_clock w < jd_leaseUntil d'"
  shows "d = d'"
proof -
  note js = jobs_soundD [OF s]
  have "delivery_sound w d" "delivery_sound w d'" and u: "distinct (map jd_number (jw_deliveries w))"
    using js(6) d by (auto simp: deliveries_sound_def)
  then have "jd_number d = jd_number d'"
    using i l by (auto simp: delivery_sound_def)
  with u d show ?thesis
    by (simp add: distinct_map inj_on_def)
qed

lemma live_deliveries_bounded:
  assumes s: "jobs_sound m w"
  shows "length (filter (\<lambda>d. jw_clock w < jd_leaseUntil d) (jw_deliveries w)) \<le> m"
proof -
  note js = jobs_soundD [OF s]
  let ?live = "filter (\<lambda>d. jw_clock w < jd_leaseUntil d) (jw_deliveries w)"
  have "inj_on (\<lambda>d. cj_id (jd_job d)) (set ?live)"
    using live_deliveries_agree [OF s] by (intro inj_onI) simp
  moreover have "distinct ?live"
    using js(6) by (simp add: deliveries_sound_def distinct_map)
  ultimately have "length ?live = card ((\<lambda>d. cj_id (jd_job d)) ` set ?live)"
    by (rule length_image)
  also have "\<dots> \<le> card (fst ` set (jw_inFlight w))"
  proof (rule card_mono)
    show "(\<lambda>d. cj_id (jd_job d)) ` set ?live \<subseteq> fst ` set (jw_inFlight w)"
    proof (rule image_subsetI)
      fix d
      assume "d \<in> set ?live"
      then have "map_of (jw_inFlight w) (cj_id (jd_job d)) \<noteq> None"
        using js(6) by (auto simp: deliveries_sound_def delivery_sound_def)
      then show "cj_id (jd_job d) \<in> fst ` set (jw_inFlight w)"
        by (simp add: map_of_eq_None_iff)
    qed
  qed simp
  also have "\<dots> \<le> length (jw_inFlight w)"
    using card_length [of "map fst (jw_inFlight w)"] by simp
  also have "\<dots> \<le> m"
    using js(7) by (simp add: flights_sound_def)
  finally show ?thesis .
qed

text \<open>
  C15. Two deliveries of one job overlap only when the lease of one of them has run out, and
  deliveries within their lease never number more than the host's bound. Once its job has been
  claimed anew, a delivery is past its lease and nothing it answers changes a row, so the one that
  replaced it cannot be settled by it.
\<close>

theorem deliveries_overlap_past_the_lease:
  assumes "jobs_reachable m w" and "d \<in> set (jw_deliveries w)"
  shows "(\<forall>d' \<in> set (jw_deliveries w). cj_id (jd_job d) = cj_id (jd_job d') \<and> d \<noteq> d' \<longrightarrow>
        jd_leaseUntil d \<le> jw_clock w \<or> jd_leaseUntil d' \<le> jw_clock w)
    \<and> length (filter (\<lambda>x. jw_clock w < jd_leaseUntil x) (jw_deliveries w)) \<le> m
    \<and> (\<forall>r \<in> set (jw_table w). jb_id r = cj_id (jd_job d) \<and> jb_attempts r \<noteq> cj_attempts (jd_job d) \<longrightarrow>
        jd_leaseUntil d \<le> jw_clock w \<and> (\<forall>st writes. settle_job (jd_job d) st writes (jw_table w) = jw_table w))"
proof -
  have s: "jobs_sound m w"
    by (rule jobs_reachable_sound [OF assms(1)])
  note js = jobs_soundD [OF s]
  have ds: "delivery_sound w d" and c: "claimed_as (jw_log w) (jd_job d) (jd_leaseUntil d)"
    using js(6) assms(2) by (auto simp: deliveries_sound_def delivery_sound_def)
  have "\<not> holds_job_claim (cj_id (jd_job d)) (cj_token (jd_job d)) x"
    if "r \<in> set (jw_table w)" "jb_id r = cj_id (jd_job d)" "jb_attempts r \<noteq> cj_attempts (jd_job d)" "x \<in> set (jw_table w)" for r x
  proof
    assume h: "holds_job_claim (cj_id (jd_job d)) (cj_token (jd_job d)) x"
    have t: "distinct (map jb_id (jw_table w))" "row_sound (jw_log w) x"
      using js(4) that(4) by (auto simp: table_sound_def)
    then have "x = r"
      using that h by (auto simp: distinct_map inj_on_def holds_job_claim_def)
    with held_row(1) [OF js(1, 2) t(2) c h] that(3) show False
      by simp
  qed
  then have "jd_leaseUntil d \<le> jw_clock w \<and> (\<forall>st writes. settle_job (jd_job d) st writes (jw_table w) = jw_table w)"
    if "r \<in> set (jw_table w)" "jb_id r = cj_id (jd_job d)" "jb_attempts r \<noteq> cj_attempts (jd_job d)" for r
    using that ds settle_idle [of "jw_table w" "jd_job d"] by (auto simp: delivery_sound_def current_claim_def)
  moreover have "jd_leaseUntil d \<le> jw_clock w \<or> jd_leaseUntil d' \<le> jw_clock w"
    if "d' \<in> set (jw_deliveries w)" "cj_id (jd_job d) = cj_id (jd_job d')" "d \<noteq> d'" for d'
    using live_deliveries_agree [OF s assms(2) that(1, 2)] that(3) by fastforce
  ultimately show ?thesis
    using live_deliveries_bounded [OF s] by blast
qed

section \<open>Progress\<close>

lemma fold_min_le: "fold min xs x \<le> (x :: ms)" "y \<in> set xs \<Longrightarrow> fold min xs x \<le> y"
proof (induction xs arbitrary: x)
  case (Cons a xs)
  {
    case 1
    show ?case
      using Cons(1) [of "min a x"] by simp
  next
    case 2
    then show ?case
      using Cons(1) [of "min a x"] Cons(2) [of "min a x"] by auto
  }
qed simp_all

lemma earliest_job_le:
  assumes "r \<in> set t" and "claimable kinds r"
  shows "\<exists>x. earliest_job kinds t = Some x \<and> x \<le> jb_run_at r"
proof -
  have mem: "jb_run_at r \<in> set (map jb_run_at (filter (claimable kinds) t))"
    using assms by simp
  then obtain z zs where z: "map jb_run_at (filter (claimable kinds) t) = z # zs"
    by (cases "map jb_run_at (filter (claimable kinds) t)") auto
  with mem have "fold min zs z \<le> jb_run_at r"
    using fold_min_le by auto
  with z show ?thesis
    by (simp add: earliest_job_def)
qed

lemma sort_key_prefix:
  assumes "x \<in> set (take n (sort_key k xs))" and "y \<in> set xs" and "y \<notin> set (take n (sort_key k xs))"
  shows "k x \<le> k y"
proof -
  let ?s = "sort_key k xs"
  obtain i where i: "i < n" "i < length ?s" "?s ! i = x"
    using assms(1) by (auto simp: in_set_conv_nth)
  obtain j where j: "j < length ?s" "?s ! j = y"
    using assms(2) by (metis in_set_conv_nth set_sort)
  have "n \<le> j"
  proof (rule ccontr)
    assume "\<not> n \<le> j"
    then have "y \<in> set (take n ?s)"
      using j by (auto simp: in_set_conv_nth)
    with assms(3) show False ..
  qed
  moreover have "sorted (map k ?s)"
    by simp
  ultimately have "map k ?s ! i \<le> map k ?s ! j"
    using i j by (intro sorted_nth_mono) auto
  with i j show ?thesis
    by simp
qed

lemma armed_timer:
  assumes "jw_running w"
  shows "\<exists>wake. jw_timer (arm_jobs m now True w) = Some wake \<and> now \<le> wake \<and> wake \<le> now + LEASE_SWEEP_INTERVAL_MS
    \<and> (length (jw_inFlight w) < m \<longrightarrow>
         (\<forall>r \<in> set (jw_table w). claimable KNOWN_KINDS r \<longrightarrow> wake \<le> max now (jb_run_at r)))"
proof -
  let ?sweep = "now + LEASE_SWEEP_INTERVAL_MS"
  let ?wakeAt = "if length (jw_inFlight w) < m then min_bound ?sweep (earliest_job KNOWN_KINDS (jw_table w)) else ?sweep"
  have "?wakeAt \<le> ?sweep"
    using min_bound_le by simp
  moreover have early: "?wakeAt \<le> jb_run_at r" if "length (jw_inFlight w) < m" "r \<in> set (jw_table w)" "claimable KNOWN_KINDS r" for r
    using earliest_job_le [OF that(2, 3)] that(1) by auto
  moreover have "now + min (max 0 (x - now)) MAX_TIMER_DELAY_MS = max now x" if "x \<le> ?sweep" for x :: ms
    using that by (auto simp: LEASE_SWEEP_INTERVAL_MS_def MAX_TIMER_DELAY_MS_def)
  ultimately have "jw_timer (arm_jobs m now True w) = Some (max now ?wakeAt)"
    using assms by (simp add: arm_jobs_def Let_def)
  moreover have "now \<le> max now ?wakeAt" "max now ?wakeAt \<le> ?sweep"
    using \<open>?wakeAt \<le> ?sweep\<close> by (simp_all add: LEASE_SWEEP_INTERVAL_MS_def)
  moreover have "max now ?wakeAt \<le> max now (jb_run_at r)" if "length (jw_inFlight w) < m" "r \<in> set (jw_table w)" "claimable KNOWN_KINDS r" for r
    by (rule max.mono [OF order_refl early [OF that]])
  ultimately show ?thesis
    by blast
qed

lemma recovered_row:
  assumes "table_sound l t" and "r \<in> set (recoverExpiredClaims t2 t)" and "jb_status r = JobRunning"
  shows "\<exists>x. jb_lease_expires_at r = Some x \<and> t2 < x"
proof -
  obtain r0 where r0: "r0 \<in> set t" "r = (if jb_status r0 = JobRunning \<and> some_holds (\<lambda>x. x \<le> t2) (jb_lease_expires_at r0)
      then release_claim r0 else r0)"
    using assms(2) unfolding recoverExpiredClaims_def by (auto elim!: sql_updateE)
  then have "r = r0" "\<not> some_holds (\<lambda>x. x \<le> t2) (jb_lease_expires_at r0)"
    using assms(3) by (auto simp: release_claim_def split: if_splits)
  moreover have "row_sound l r0"
    using assms(1) r0(1) by (simp add: table_sound_def)
  ultimately show ?thesis
    using assms(3) by (cases "jb_lease_expires_at r0") (auto simp: row_sound_def not_le)
qed

lemma unclaimed_token:
  assumes "table_sound (jw_log w) t" and "fresh_token token w" and "r \<in> set t"
  shows "jb_claim_token r \<noteq> Some token"
proof
  assume "jb_claim_token r = Some token"
  then obtain j x where "claimed_as (jw_log w) j x" "cj_token j = token"
    using assms(1, 3) unfolding table_sound_def row_sound_def by blast
  with assms(2) show False
    by (auto simp: fresh_token_def claimed_as_def)
qed

text \<open>The table after a wake-up that claims: what is left is later than what was taken.\<close>

definition served :: "ms \<Rightarrow> ms \<Rightarrow> string \<Rightarrow> job_table \<Rightarrow> bool" where
  "served t2 t3 token t \<longleftrightarrow>
     (\<forall>r \<in> set t. jb_status r = JobRunning \<longrightarrow> (\<exists>x. jb_lease_expires_at r = Some x \<and> t2 < x))
     \<and> (\<forall>r \<in> set t. \<forall>r' \<in> set t. claimable KNOWN_KINDS r \<and> jb_run_at r \<le> t3 \<and> jb_claim_token r' = Some token \<longrightarrow>
          (jb_run_at r', jb_id r') \<le> (jb_run_at r, jb_id r))"

lemma claim_serves:
  assumes t: "table_sound (jw_log w) t" and f: "fresh_token token w" and le: "t2 \<le> t3"
    and run: "\<And>r. r \<in> set t \<Longrightarrow> jb_status r = JobRunning \<Longrightarrow> \<exists>x. jb_lease_expires_at r = Some x \<and> t2 < x"
    and c: "claim_jobs t3 limit KNOWN_KINDS (t3 + JOB_CLAIM_LEASE_MS) token t = (t', js)"
  shows "served t2 t3 token t'"
proof -
  let ?k = "\<lambda>r. (jb_run_at r, jb_id r)" and ?due = "filter (\<lambda>r. claimable KNOWN_KINDS r \<and> jb_run_at r \<le> t3) t"
  let ?c = "chosen_jobs t3 limit KNOWN_KINDS t" and ?x = "t3 + JOB_CLAIM_LEASE_MS"
  have d: "distinct (map jb_id t)"
    using t by (simp add: table_sound_def)
  have t': "t' = sql_update (\<lambda>r. jb_id r \<in> jb_id ` set ?c) (claim_row token ?x) t"
    by (rule claim_facts(1) [OF d c])
  have chosen: "r \<in> set ?c" if r: "r \<in> set t" "jb_id r \<in> jb_id ` set ?c" for r
  proof -
    obtain r' where "r' \<in> set ?c" "jb_id r' = jb_id r"
      using r(2) by auto
    moreover from this have "r' = r"
      using d r(1) chosen_jobs_are(1) by (fastforce simp: distinct_map inj_on_def)
    ultimately show ?thesis
      by simp
  qed
  have "\<exists>x. jb_lease_expires_at r = Some x \<and> t2 < x" if "r \<in> set t'" "jb_status r = JobRunning" for r
    using that run le unfolding t' by (auto simp: set_sql_update claim_row_def JOB_CLAIM_LEASE_MS_def split: if_splits)
  moreover have "?k r' \<le> ?k r" if a: "r \<in> set t'" "r' \<in> set t'" "claimable KNOWN_KINDS r" "jb_run_at r \<le> t3"
      "jb_claim_token r' = Some token" for r r'
  proof -
    obtain s where s: "s \<in> set t" "r = (if jb_id s \<in> jb_id ` set ?c then claim_row token ?x s else s)"
      using a(1) unfolding t' by (auto elim: sql_updateE)
    obtain s' where s': "s' \<in> set t" "r' = (if jb_id s' \<in> jb_id ` set ?c then claim_row token ?x s' else s')"
      using a(2) unfolding t' by (auto elim: sql_updateE)
    have "r = s" "jb_id s \<notin> jb_id ` set ?c"
      using s(2) a(3) by (auto simp: claimable_def claim_row_def split: if_splits)
    moreover have "jb_id s' \<in> jb_id ` set ?c"
      using s' a(5) unclaimed_token [OF t f s'(1)] by (auto split: if_splits)
    then have "s' \<in> set ?c" "?k r' = ?k s'"
      using chosen [OF s'(1)] s'(2) by (simp_all add: claim_row_def)
    moreover have "s \<notin> set ?c" "s \<in> set ?due"
      using \<open>jb_id s \<notin> _\<close> s(1) a(3, 4) \<open>r = s\<close> by auto
    ultimately show ?thesis
      using sort_key_prefix [of s' limit ?k ?due s] by (simp add: chosen_jobs_def)
  qed
  ultimately show ?thesis
    by (auto simp: served_def)
qed

lemma claimAndRun_serves:
  assumes t: "table_sound (jw_log w) (jw_table w)" and f: "fresh_token token w" and le: "t2 \<le> t3"
    and run: "\<And>r. r \<in> set (jw_table w) \<Longrightarrow> jb_status r = JobRunning \<Longrightarrow> \<exists>x. jb_lease_expires_at r = Some x \<and> t2 < x"
  shows "served t2 t3 token (jw_table (claimAndRun m t3 token w))"
proof (cases "m - length (jw_inFlight w) = 0")
  case True
  then show ?thesis
    using run unclaimed_token [OF t f] by (auto simp: served_def claimAndRun_def Let_def)
next
  case False
  obtain t' js where c: "claim_jobs t3 (m - length (jw_inFlight w)) KNOWN_KINDS (t3 + JOB_CLAIM_LEASE_MS) token (jw_table w) = (t', js)"
    by fastforce
  from claim_serves [OF t f le run c] False show ?thesis
    by (simp add: claimAndRun_def c register_shape)
qed

lemma register_running: "jw_running (register_deliveries now x js w) = jw_running w"
proof (induction js arbitrary: w)
  case (Cons j js)
  from Cons [of "register_delivery now x j w"] show ?case
    by (simp add: register_delivery_def)
qed simp


section \<open>A worked run\<close>

lemma fresh_token_code [code]:
  "fresh_token token w \<longleftrightarrow> list_all (\<lambda>e. case e of JobClaimed t j x \<Rightarrow> cj_token j \<noteq> token | _ \<Rightarrow> True) (jw_log w)"
  by (auto simp: fresh_token_def list_all_iff split: job_event.splits)

lemma fresh_job_code [code]:
  "fresh_job i w \<longleftrightarrow> list_all (\<lambda>e. case e of JobSent i' k \<Rightarrow> i' \<noteq> i | _ \<Rightarrow> True) (jw_log w)"
  by (auto simp: fresh_job_def list_all_iff split: job_event.splits)

text \<open>One job. Its first delivery is answered with a retry, the process dies during the second, the
  third hangs until its lease is over and is replaced by a fourth.\<close>

definition run0 :: job_world where "run0 = new_jobs 0"
definition run1 :: job_world where "run1 = at_time 1 (the (send_job 8 ''a'' ''github.autofix'' ''{}'' None 1 True run0))"
definition run2 :: job_world where "run2 = at_time 2 (start_jobs 8 2 True run1)"
definition run3 :: job_world where "run3 = at_time 3 (tick_jobs 8 (TickedOver 3 3 3 ''t1'') 3 True run2)"
definition run4 :: job_world where "run4 = at_time 4 (deliver_begun 8 (hd (jw_deliveries run3)) None True 4 True run3)"
definition run5 :: job_world where "run5 = at_time 5 (deliver_answered 8 (hd (jw_deliveries run4)) HandlerThrew True 5 True run4)"
definition run6 :: job_world where "run6 = at_time 30005 (tick_jobs 8 (TickedOver 30005 30005 30005 ''t2'') 30005 True run5)"
definition run7 :: job_world where "run7 = at_time 30006 (deliver_begun 8 (hd (jw_deliveries run6)) None True 30006 True run6)"
definition run8 :: job_world where "run8 = host_restarts run7"
definition run9 :: job_world where "run9 = at_time 30007 (start_jobs 8 30007 True run8)"
definition run10 :: job_world where "run10 = at_time 30008 (tick_jobs 8 (TickedOver 30008 30008 30008 ''t3'') 30008 True run9)"
definition run11 :: job_world where "run11 = at_time 30009 (deliver_begun 8 (hd (jw_deliveries run10)) None True 30009 True run10)"
definition run12 :: job_world where "run12 = at_time 930008 (tick_jobs 8 (TickedOver 930008 930008 930008 ''t4'') 930008 True run11)"

lemma runs: "jobs_reachable 8 run2" "jobs_reachable 8 run11" "jobs_reachable 8 run12"
proof -
  have r0: "jobs_reachable 8 run0"
    by (simp add: run0_def jobs_reachable.new)
  have r1: "jobs_reachable 8 run1"
  proof (rule jobs_reachable.step [OF r0])
    show "job_step 8 run0 run1"
      unfolding run1_def
      by (rule job_step.send [where i = "''a''" and kind = "''github.autofix''"
          and payload = "''{}''" and delayMs = None and reads = True]) code_simp+
  qed
  have r2: "jobs_reachable 8 run2"
  proof (rule jobs_reachable.step [OF r1])
    show "job_step 8 run1 run2"
      unfolding run2_def
      by (rule job_step.start) code_simp
  qed
  have r3: "jobs_reachable 8 run3"
  proof (rule jobs_reachable.step [OF r2])
    show "job_step 8 run2 run3"
      unfolding run3_def
      by (rule job_step.tick) code_simp+
  qed
  have r4: "jobs_reachable 8 run4"
  proof (rule jobs_reachable.step [OF r3])
    show "job_step 8 run3 run4"
      unfolding run4_def
      by (rule job_step.handle) code_simp+
  qed
  have r5: "jobs_reachable 8 run5"
  proof (rule jobs_reachable.step [OF r4])
    show "job_step 8 run4 run5"
      unfolding run5_def
      by (rule job_step.answer) code_simp+
  qed
  have r6: "jobs_reachable 8 run6"
  proof (rule jobs_reachable.step [OF r5])
    show "job_step 8 run5 run6"
      unfolding run6_def
      by (rule job_step.tick) code_simp+
  qed
  have r7: "jobs_reachable 8 run7"
  proof (rule jobs_reachable.step [OF r6])
    show "job_step 8 run6 run7"
      unfolding run7_def
      by (rule job_step.handle) code_simp+
  qed
  have r8: "jobs_reachable 8 run8"
  proof (rule jobs_reachable.step [OF r7])
    show "job_step 8 run7 run8"
      unfolding run8_def
      by (rule job_step.restart)
  qed
  have r9: "jobs_reachable 8 run9"
  proof (rule jobs_reachable.step [OF r8])
    show "job_step 8 run8 run9"
      unfolding run9_def
      by (rule job_step.start) code_simp
  qed
  have r10: "jobs_reachable 8 run10"
  proof (rule jobs_reachable.step [OF r9])
    show "job_step 8 run9 run10"
      unfolding run10_def
      by (rule job_step.tick) code_simp+
  qed
  have r11: "jobs_reachable 8 run11"
  proof (rule jobs_reachable.step [OF r10])
    show "job_step 8 run10 run11"
      unfolding run11_def
      by (rule job_step.handle) code_simp+
  qed
  have r12: "jobs_reachable 8 run12"
  proof (rule jobs_reachable.step [OF r11])
    show "job_step 8 run11 run12"
      unfolding run12_def
      by (rule job_step.tick) code_simp+
  qed
  show "jobs_reachable 8 run2" "jobs_reachable 8 run11" "jobs_reachable 8 run12"
    by (rule r2 r11 r12)+
qed

lemma sent_a: "JobSent ''a'' ''github.autofix'' \<in> set (jw_log run11)" "JobSent ''a'' ''github.autofix'' \<in> set (jw_log run12)"
  by code_simp+

theorem handler_starts_are_bounded_witness:
  "length (filter (\<lambda>j. cj_id j = ''a'') (handled_jobs (jw_log run11))) = 3
   \<and> length (filter (\<lambda>j. cj_id j = ''a'') (handled_jobs (jw_log run11))) \<le> 5"
proof
  show "length (filter (\<lambda>j. cj_id j = ''a'') (handled_jobs (jw_log run11))) = 3"
    by code_simp
  have "job_policy ''github.autofix'' = Some \<lparr>rp_maxAttempts = 5, rp_retryDelayMs = 30000\<rparr>"
    by code_simp
  from handler_starts_are_bounded [OF runs(2) sent_a(1) this]
  show "length (filter (\<lambda>j. cj_id j = ''a'') (handled_jobs (jw_log run11))) \<le> 5"
    by simp
qed

theorem sent_jobs_are_never_lost_witness:
  "\<exists>r. filter (\<lambda>r. jb_id r = ''a'') (jw_table run12) = [r] \<and> jb_kind r = ''github.autofix''"
proof -
  have "JobAcked ''a'' T \<notin> set (jw_log run12)" for T
  proof -
    have "list_all (\<lambda>e. case e of JobAcked i t \<Rightarrow> False | _ \<Rightarrow> True) (jw_log run12)"
      by code_simp
    then show ?thesis
      by (auto simp: list_all_iff split: job_event.splits)
  qed
  with sent_jobs_are_never_lost [OF runs(3) sent_a(2)] show ?thesis
    by blast
qed

theorem deliveries_overlap_past_the_lease_witness:
  "jd_leaseUntil (hd (jw_deliveries run12)) \<le> jw_clock run12
   \<and> settle_job (jd_job (hd (jw_deliveries run12))) Complete_job True (jw_table run12) = jw_table run12"
proof -
  have d: "hd (jw_deliveries run12) \<in> set (jw_deliveries run12)"
    by code_simp
  have "hd (jw_table run12) \<in> set (jw_table run12)" "jb_id (hd (jw_table run12)) = cj_id (jd_job (hd (jw_deliveries run12)))"
    "jb_attempts (hd (jw_table run12)) \<noteq> cj_attempts (jd_job (hd (jw_deliveries run12)))"
    by code_simp+
  with deliveries_overlap_past_the_lease [OF runs(3) d] show ?thesis
    by blast
qed


end
