(* ===== verification/Automation_Store.thy ===== *)
theory Automation_Store
  imports Prelude
begin

text \<open>
  The tables of the automations and their statements (\<open>db/automation-store.ts\<close>): automations, their
  firings (invocations), the runs a firing fans out to, and the receipts of webhook follow-ups. A
  method of the store is one function; its single statement, or its batch, is one transaction of
  the database. \<open>Date.now()\<close> is an argument, and a statement that violates a unique index rolls
  its batch back and is an error.
\<close>

section \<open>Rows\<close>

record automation_row =
  au_id :: string
  au_name :: string
  au_instructions :: string
  au_trigger_type :: string
  au_schedule_cron :: "string option"
  au_schedule_once_at :: "ms option"
  au_schedule_tz :: string
  au_harness :: string
  au_model :: string
  au_reasoning_effort :: "string option"
  au_enabled :: bool
  au_max_concurrent_runs :: int
  au_next_run_at :: "ms option"
  au_consecutive_failures :: nat
  au_max_retries :: nat
  au_created_by :: string
  au_user_id :: "string option"
  au_owner_team_id :: "string option"
  au_created_at :: ms
  au_updated_at :: ms
  au_deleted_at :: "ms option"
  au_event_type :: "string option"
  au_trigger_config :: "string option"
  au_trigger_auth_data :: "string option"

datatype run_status =
  RunStarting | RunRunning | RunRetrying | RunCompleted | RunFailed | RunSkipped | RunUnauthorized

text \<open>The target columns of a run: a repository, an environment, or none.\<close>

datatype run_target =
    NoTarget
  | RepositoryTarget string string "int option" "string option"
  | EnvironmentTarget string

record automation_run =
  rn_id :: string
  rn_automation_id :: string
  rn_invocation_id :: string
  rn_session_id :: "string option"
  rn_status :: run_status
  rn_failure_reason :: "string option"
  rn_scheduled_at :: ms
  rn_started_at :: "ms option"
  rn_completed_at :: "ms option"
  rn_execution_deadline_at :: "ms option"
  rn_created_at :: ms
  rn_target :: run_target
  rn_first_prompt_pending :: bool
  rn_attempt :: nat
  rn_retry_at :: "ms option"

datatype invocation_source = SourceSchedule | SourceManual | SourceEvent

datatype invocation_actor = ActorPerson | ActorBot | ActorSystem | ActorUnknown

record automation_invocation =
  iv_id :: string
  iv_automation_id :: string
  iv_source :: invocation_source
  iv_actor_kind :: invocation_actor
  iv_scheduled_at :: "ms option"
  iv_trigger_key :: "string option"
  iv_concurrency_key :: "string option"
  iv_trigger_metadata :: "string option"
  iv_skip_reason :: "string option"
  iv_failure_counted_at :: "ms option"
  iv_created_at :: ms
  iv_updated_at :: ms

text \<open>A receipt is a claim until it is accepted: the table's check constraint allows no other row.\<close>

datatype receipt_state = ReceiptClaimed string string ms | ReceiptAccepted string ms

record follow_up_receipt =
  fr_automation_id :: string
  fr_trigger_key :: string
  fr_state :: receipt_state
  fr_created_at :: ms

text \<open>\<open>ad_grants\<close> are the teams with their \<open>grants_version\<close>, which other components keep.\<close>

record automation_db =
  ad_automations :: "automation_row list"
  ad_invocations :: "automation_invocation list"
  ad_runs :: "automation_run list"
  ad_receipts :: "follow_up_receipt list"
  ad_grants :: "(string \<times> int) list"

text \<open>An \<open>UPDATE\<close> and whether it changed a row.\<close>

definition update_automations ::
  "(automation_row \<Rightarrow> bool) \<Rightarrow> (automation_row \<Rightarrow> automation_row) \<Rightarrow> automation_db \<Rightarrow> automation_db \<times> bool" where
  "update_automations p f db =
     (db\<lparr>ad_automations := sql_update p f (ad_automations db)\<rparr>, 0 < sql_count p (ad_automations db))"

definition update_runs ::
  "(automation_run \<Rightarrow> bool) \<Rightarrow> (automation_run \<Rightarrow> automation_run) \<Rightarrow> automation_db \<Rightarrow> automation_db \<times> bool" where
  "update_runs p f db = (db\<lparr>ad_runs := sql_update p f (ad_runs db)\<rparr>, 0 < sql_count p (ad_runs db))"

definition update_invocations ::
  "(automation_invocation \<Rightarrow> bool) \<Rightarrow> (automation_invocation \<Rightarrow> automation_invocation) \<Rightarrow> automation_db
     \<Rightarrow> automation_db \<times> bool" where
  "update_invocations p f db =
     (db\<lparr>ad_invocations := sql_update p f (ad_invocations db)\<rparr>, 0 < sql_count p (ad_invocations db))"

definition update_receipts ::
  "(follow_up_receipt \<Rightarrow> bool) \<Rightarrow> (follow_up_receipt \<Rightarrow> follow_up_receipt) \<Rightarrow> automation_db
     \<Rightarrow> automation_db \<times> bool" where
  "update_receipts p f db =
     (db\<lparr>ad_receipts := sql_update p f (ad_receipts db)\<rparr>, 0 < sql_count p (ad_receipts db))"

section \<open>Automations\<close>

definition bindAutomationInsert :: "automation_row \<Rightarrow> automation_db \<Rightarrow> automation_db option" where
  "bindAutomationInsert a db =
     (if au_id a \<in> au_id ` set (ad_automations db) then None
      else Some (db\<lparr>ad_automations := ad_automations db @ [a]\<rparr>))"

definition live_automation :: "string \<Rightarrow> automation_row \<Rightarrow> bool" where
  "live_automation i a \<longleftrightarrow> au_id a = i \<and> au_deleted_at a = None"

definition getAutomationById :: "string \<Rightarrow> automation_db \<Rightarrow> automation_row option" where
  "getAutomationById i db = find (live_automation i) (ad_automations db)"

definition needsCanonicalOwner :: "automation_row \<Rightarrow> bool" where
  "needsCanonicalOwner a \<longleftrightarrow> \<not> truthy (au_user_id a) \<and> au_created_by a \<noteq> [] \<and> au_created_by a \<noteq> ''anonymous''"

text \<open>The compare-and-set of \<open>resolveCanonicalOwner\<close>, once the identity of the creator is known.\<close>

definition repair_owner :: "string \<Rightarrow> string \<Rightarrow> automation_db \<Rightarrow> automation_db \<times> bool" where
  "repair_owner i userId = update_automations (\<lambda>a. au_id a = i \<and> au_user_id a = None)
     (\<lambda>a. a\<lparr>au_user_id := Some userId\<rparr>)"

text \<open>\<open>Partial<AutomationRow>\<close> over the fields an update may name: an absent field is \<open>None\<close>.\<close>

record automation_fields =
  af_name :: "string option"
  af_instructions :: "string option"
  af_schedule_cron :: "string option option"
  af_schedule_once_at :: "ms option option"
  af_schedule_tz :: "string option"
  af_harness :: "string option"
  af_model :: "string option"
  af_reasoning_effort :: "string option option"
  af_next_run_at :: "ms option option"
  af_enabled :: "bool option"
  af_max_concurrent_runs :: "int option"
  af_consecutive_failures :: "nat option"
  af_max_retries :: "nat option"
  af_event_type :: "string option option"
  af_trigger_config :: "string option option"
  af_trigger_auth_data :: "string option option"

definition no_fields :: automation_fields where
  "no_fields = \<lparr>af_name = None, af_instructions = None, af_schedule_cron = None, af_schedule_once_at = None,
     af_schedule_tz = None, af_harness = None, af_model = None, af_reasoning_effort = None,
     af_next_run_at = None, af_enabled = None, af_max_concurrent_runs = None,
     af_consecutive_failures = None, af_max_retries = None, af_event_type = None,
     af_trigger_config = None, af_trigger_auth_data = None\<rparr>"

text \<open>The next time of a one-shot that is moved is computed from the row as it is.\<close>

definition updated_next_run :: "automation_fields \<Rightarrow> automation_row \<Rightarrow> ms option" where
  "updated_next_run f a =
     (case nullish (af_schedule_once_at f) None of
        Some t \<Rightarrow> if au_schedule_once_at a = Some t then au_next_run_at a
                  else if au_enabled a then Some t else None
      | None \<Rightarrow> nullish (af_next_run_at f) (au_next_run_at a))"

definition bindAutomationUpdate ::
  "string \<Rightarrow> automation_fields \<Rightarrow> ms \<Rightarrow> (automation_db \<Rightarrow> automation_db \<times> bool) option" where
  "bindAutomationUpdate i f now =
     (if f = no_fields then None
      else Some (update_automations (live_automation i) (\<lambda>a. a\<lparr>
        au_name := nullish (af_name f) (au_name a),
        au_instructions := nullish (af_instructions f) (au_instructions a),
        au_schedule_cron := nullish (af_schedule_cron f) (au_schedule_cron a),
        au_schedule_once_at := nullish (af_schedule_once_at f) (au_schedule_once_at a),
        au_schedule_tz := nullish (af_schedule_tz f) (au_schedule_tz a),
        au_harness := nullish (af_harness f) (au_harness a),
        au_model := nullish (af_model f) (au_model a),
        au_reasoning_effort := nullish (af_reasoning_effort f) (au_reasoning_effort a),
        au_next_run_at := updated_next_run f a,
        au_enabled := nullish (af_enabled f) (au_enabled a),
        au_max_concurrent_runs := nullish (af_max_concurrent_runs f) (au_max_concurrent_runs a),
        au_consecutive_failures := nullish (af_consecutive_failures f) (au_consecutive_failures a),
        au_max_retries := nullish (af_max_retries f) (au_max_retries a),
        au_event_type := nullish (af_event_type f) (au_event_type a),
        au_trigger_config := nullish (af_trigger_config f) (au_trigger_config a),
        au_trigger_auth_data := nullish (af_trigger_auth_data f) (au_trigger_auth_data a),
        au_updated_at := now\<rparr>)))"

definition bindSoftDelete :: "string \<Rightarrow> ms \<Rightarrow> automation_db \<Rightarrow> automation_db \<times> bool" where
  "bindSoftDelete i now = update_automations (live_automation i)
     (\<lambda>a. a\<lparr>au_deleted_at := Some now, au_next_run_at := None, au_updated_at := now\<rparr>)"

definition bindPause :: "string \<Rightarrow> ms \<Rightarrow> automation_db \<Rightarrow> automation_db \<times> bool" where
  "bindPause i now = update_automations (live_automation i)
     (\<lambda>a. a\<lparr>au_enabled := False, au_next_run_at := None, au_updated_at := now\<rparr>)"

definition bindResume :: "string \<Rightarrow> ms option \<Rightarrow> ms \<Rightarrow> automation_db \<Rightarrow> automation_db \<times> bool" where
  "bindResume i nextRunAt now = update_automations
     (\<lambda>a. live_automation i a \<and>
        (au_schedule_once_at a = None \<or> (nextRunAt \<noteq> None \<and> au_schedule_once_at a = nextRunAt)))
     (\<lambda>a. a\<lparr>au_enabled := True, au_next_run_at := nextRunAt, au_consecutive_failures := 0, au_updated_at := now\<rparr>)"

definition advanceNextRunAt :: "string \<Rightarrow> ms \<Rightarrow> ms \<Rightarrow> automation_db \<Rightarrow> automation_db \<times> bool" where
  "advanceNextRunAt i nextRunAt now = update_automations
     (\<lambda>a. au_id a = i \<and> none_or (\<lambda>t. t < nextRunAt) (au_next_run_at a))
     (\<lambda>a. a\<lparr>au_next_run_at := Some nextRunAt, au_updated_at := now\<rparr>)"

definition overdue :: "ms \<Rightarrow> automation_row \<Rightarrow> bool" where
  "overdue now a \<longleftrightarrow> au_enabled a \<and> au_deleted_at a = None \<and> au_trigger_type a = ''schedule''
     \<and> some_holds (\<lambda>t. t \<le> now) (au_next_run_at a)"

definition getOverdueAutomations :: "ms \<Rightarrow> nat \<Rightarrow> automation_db \<Rightarrow> automation_row list" where
  "getOverdueAutomations now limit db =
     take limit (sort_key (\<lambda>a. nullish (au_next_run_at a) 0) (filter (overdue now) (ad_automations db)))"

section \<open>Runs\<close>

definition active_status :: "run_status \<Rightarrow> bool" where
  "active_status s \<longleftrightarrow> s \<in> {RunStarting, RunRunning, RunRetrying}"

definition EXECUTION_TIMEOUT_FAILURE_REASON :: string where
  "EXECUTION_TIMEOUT_FAILURE_REASON = ''execution_timeout''"

text \<open>\<open>Partial<AutomationRunRow>\<close> over the fields \<open>updateRun\<close> allows.\<close>

record run_fields =
  rf_session_id :: "string option option"
  rf_status :: "run_status option"
  rf_failure_reason :: "string option option"
  rf_started_at :: "ms option option"
  rf_completed_at :: "ms option option"

definition no_run_fields :: run_fields where
  "no_run_fields = \<lparr>rf_session_id = None, rf_status = None, rf_failure_reason = None, rf_started_at = None,
     rf_completed_at = None\<rparr>"

definition updateRun :: "string \<Rightarrow> run_fields \<Rightarrow> automation_db \<Rightarrow> automation_db \<times> bool" where
  "updateRun i f db =
     (if f = no_run_fields then (db, False)
      else update_runs (\<lambda>r. rn_id r = i \<and> rn_status r \<in> {RunStarting, RunRunning})
        (\<lambda>r. r\<lparr>rn_session_id := nullish (rf_session_id f) (rn_session_id r),
              rn_status := nullish (rf_status f) (rn_status r),
              rn_failure_reason := nullish (rf_failure_reason f) (rn_failure_reason r),
              rn_started_at := nullish (rf_started_at f) (rn_started_at r),
              rn_completed_at := nullish (rf_completed_at f) (rn_completed_at r)\<rparr>) db)"

definition claimRunSession :: "string \<Rightarrow> string \<Rightarrow> ms \<Rightarrow> ms \<Rightarrow> automation_db \<Rightarrow> automation_db \<times> bool" where
  "claimRunSession i sessionId startedAt executionDeadlineAt =
     update_runs (\<lambda>r. rn_id r = i \<and> rn_status r = RunStarting)
       (\<lambda>r. r\<lparr>rn_status := RunRunning, rn_session_id := Some sessionId, rn_started_at := Some startedAt,
          rn_execution_deadline_at := Some executionDeadlineAt, rn_first_prompt_pending := True\<rparr>)"

definition markRunFirstPromptQueued :: "string \<Rightarrow> automation_db \<Rightarrow> automation_db \<times> bool" where
  "markRunFirstPromptQueued i = update_runs (\<lambda>r. rn_id r = i) (\<lambda>r. r\<lparr>rn_first_prompt_pending := False\<rparr>)"

definition setRunExecutionDeadline :: "string \<Rightarrow> ms \<Rightarrow> automation_db \<Rightarrow> automation_db \<times> bool" where
  "setRunExecutionDeadline i executionDeadlineAt =
     update_runs (\<lambda>r. rn_id r = i \<and> rn_status r = RunRunning)
       (\<lambda>r. r\<lparr>rn_execution_deadline_at := Some executionDeadlineAt\<rparr>)"

definition completeTimedOutRun :: "string \<Rightarrow> ms \<Rightarrow> automation_db \<Rightarrow> automation_db \<times> bool" where
  "completeTimedOutRun i completedAt =
     update_runs (\<lambda>r. rn_id r = i \<and> rn_status r = RunFailed
          \<and> rn_failure_reason r = Some EXECUTION_TIMEOUT_FAILURE_REASON)
       (\<lambda>r. r\<lparr>rn_status := RunCompleted, rn_failure_reason := None, rn_completed_at := Some completedAt\<rparr>)"

definition orphaned_starting :: "ms \<Rightarrow> automation_run \<Rightarrow> bool" where
  "orphaned_starting cutoff r \<longleftrightarrow> rn_status r = RunStarting \<and> rn_created_at r < cutoff"

definition past_execution_deadline :: "ms \<Rightarrow> ms \<Rightarrow> automation_run \<Rightarrow> bool" where
  "past_execution_deadline now startedBefore r \<longleftrightarrow> rn_status r = RunRunning
     \<and> (case rn_execution_deadline_at r of Some d \<Rightarrow> d < now
        | None \<Rightarrow> some_holds (\<lambda>t. t < startedBefore) (rn_started_at r))"

definition bulkFailRuns ::
  "string list \<Rightarrow> string \<Rightarrow> ms \<Rightarrow> (automation_run \<Rightarrow> bool) \<Rightarrow> automation_db \<Rightarrow> automation_db" where
  "bulkFailRuns runIds reason completedAt p db =
     (if runIds = [] then db
      else fst (update_runs (\<lambda>r. rn_id r \<in> set runIds \<and> p r)
        (\<lambda>r. r\<lparr>rn_status := RunFailed, rn_failure_reason := Some reason, rn_completed_at := Some completedAt\<rparr>) db))"

definition bulkFailStartingRuns :: "string list \<Rightarrow> string \<Rightarrow> ms \<Rightarrow> ms \<Rightarrow> automation_db \<Rightarrow> automation_db" where
  "bulkFailStartingRuns runIds reason completedAt createdBefore =
     bulkFailRuns runIds reason completedAt (orphaned_starting createdBefore)"

definition bulkFailRunningRuns :: "string list \<Rightarrow> string \<Rightarrow> ms \<Rightarrow> ms \<Rightarrow> automation_db \<Rightarrow> automation_db" where
  "bulkFailRunningRuns runIds reason completedAt defaultDeadlineMs =
     bulkFailRuns runIds reason completedAt (past_execution_deadline completedAt (completedAt - defaultDeadlineMs))"

definition getOrphanedStartingRuns :: "ms \<Rightarrow> ms \<Rightarrow> nat \<Rightarrow> automation_db \<Rightarrow> automation_run list" where
  "getOrphanedStartingRuns now thresholdMs limit db =
     take limit (sort_key rn_created_at (filter (orphaned_starting (now - thresholdMs)) (ad_runs db)))"

definition getRunsPastExecutionDeadline :: "ms \<Rightarrow> ms \<Rightarrow> nat \<Rightarrow> automation_db \<Rightarrow> automation_run list" where
  "getRunsPastExecutionDeadline now defaultDeadlineMs limit db =
     take limit (sort_key (\<lambda>r. nullish (or_else (rn_execution_deadline_at r) (rn_started_at r)) 0)
       (filter (past_execution_deadline now (now - defaultDeadlineMs)) (ad_runs db)))"

section \<open>Launch retries\<close>

definition retry_allowed :: "automation_db \<Rightarrow> automation_run \<Rightarrow> bool" where
  "retry_allowed db r \<longleftrightarrow> list_ex (\<lambda>a. au_id a = rn_automation_id r \<and> au_enabled a \<and> au_deleted_at a = None
     \<and> rn_attempt r \<le> au_max_retries a
     \<and> none_or (\<lambda>t. t = rn_scheduled_at r) (au_schedule_once_at a)) (ad_automations db)"

text \<open>A batch of two updates; the second sees the first.\<close>

definition failLaunchOrRetry ::
  "string \<Rightarrow> string \<Rightarrow> ms \<Rightarrow> ms \<Rightarrow> automation_db \<Rightarrow> automation_db \<times> run_status option" where
  "failLaunchOrRetry i reason failedAt retryAt db =
     (let (db1, retried) = update_runs
            (\<lambda>r. rn_id r = i \<and> rn_status r \<in> {RunStarting, RunRunning} \<and> retry_allowed db r)
            (\<lambda>r. r\<lparr>rn_status := RunRetrying, rn_failure_reason := Some reason, rn_retry_at := Some retryAt,
               rn_session_id := None, rn_started_at := None, rn_execution_deadline_at := None,
               rn_first_prompt_pending := False\<rparr>) db;
          (db2, failed) = update_runs (\<lambda>r. rn_id r = i \<and> rn_status r \<in> {RunStarting, RunRunning})
            (\<lambda>r. r\<lparr>rn_status := RunFailed, rn_failure_reason := Some reason, rn_completed_at := Some failedAt\<rparr>) db1 in
      (db2, if retried then Some RunRetrying else if failed then Some RunFailed else None))"

definition getRetriesToSettle :: "ms \<Rightarrow> nat \<Rightarrow> automation_db \<Rightarrow> automation_run list" where
  "getRetriesToSettle now limit db =
     take limit (sort_key (\<lambda>r. nullish (rn_retry_at r) 0)
       (filter (\<lambda>r. rn_status r = RunRetrying
          \<and> (some_holds (\<lambda>t. t \<le> now) (rn_retry_at r) \<or> \<not> retry_allowed db r)) (ad_runs db)))"

text \<open>\<open>teamGrantsGuard\<close>: the team's grants are still at the version that was checked.\<close>

definition team_grants_current :: "(string \<times> int) option \<Rightarrow> automation_db \<Rightarrow> bool" where
  "team_grants_current grants db = none_or (\<lambda>g. g \<in> set (ad_grants db)) grants"

definition claimed_retry :: "ms \<Rightarrow> automation_run \<Rightarrow> automation_run" where
  "claimed_retry now r = r\<lparr>rn_status := RunStarting, rn_attempt := rn_attempt r + 1, rn_retry_at := None,
     rn_failure_reason := None, rn_created_at := now\<rparr>"

definition claimRetry ::
  "automation_run \<Rightarrow> ms \<Rightarrow> (string \<times> int) option \<Rightarrow> automation_db \<Rightarrow> automation_db \<times> automation_run option" where
  "claimRetry run now grants db =
     (let (db', changed) = update_runs
            (\<lambda>r. rn_id r = rn_id run \<and> rn_status r = RunRetrying \<and> rn_attempt r = rn_attempt run
               \<and> some_holds (\<lambda>t. t \<le> now) (rn_retry_at r) \<and> retry_allowed db r \<and> team_grants_current grants db)
            (claimed_retry now) db in
      (db', if changed then Some (claimed_retry now run) else None))"

definition failWithdrawnRetry :: "string \<Rightarrow> ms \<Rightarrow> automation_db \<Rightarrow> automation_db \<times> bool" where
  "failWithdrawnRetry i completedAt db =
     update_runs (\<lambda>r. rn_id r = i \<and> rn_status r = RunRetrying \<and> \<not> retry_allowed db r)
       (\<lambda>r. r\<lparr>rn_status := RunFailed, rn_retry_at := None, rn_completed_at := Some completedAt\<rparr>) db"

section \<open>Firings\<close>

datatype write_error = InvocationKeyTaken | RunKeyTaken

text \<open>The unique indexes of \<open>automation_invocations\<close>: the id, a schedule's slot, an event's key.\<close>

definition same_firing :: "automation_invocation \<Rightarrow> automation_invocation \<Rightarrow> bool" where
  "same_firing v w \<longleftrightarrow> iv_id v = iv_id w
     \<or> (iv_automation_id v = iv_automation_id w
        \<and> ((iv_source v = SourceSchedule \<and> iv_source w = SourceSchedule
              \<and> iv_scheduled_at v \<noteq> None \<and> iv_scheduled_at v = iv_scheduled_at w)
           \<or> (iv_trigger_key v \<noteq> None \<and> iv_trigger_key v = iv_trigger_key w)))"

text \<open>Those of \<open>automation_runs\<close>: the id, and a firing's target.\<close>

fun same_target :: "run_target \<Rightarrow> run_target \<Rightarrow> bool" where
  "same_target (RepositoryTarget o1 n1 i1 b1) (RepositoryTarget o2 n2 i2 b2) \<longleftrightarrow> o1 = o2 \<and> n1 = n2"
| "same_target (EnvironmentTarget e1) (EnvironmentTarget e2) \<longleftrightarrow> e1 = e2"
| "same_target _ _ \<longleftrightarrow> False"

definition same_run :: "automation_run \<Rightarrow> automation_run \<Rightarrow> bool" where
  "same_run r q \<longleftrightarrow> rn_id r = rn_id q
     \<or> (rn_invocation_id r = rn_invocation_id q \<and> same_target (rn_target r) (rn_target q))"

definition DEFAULT_AUTOMATION_MAX_CONCURRENT_RUNS :: int where
  "DEFAULT_AUTOMATION_MAX_CONCURRENT_RUNS = 1"

datatype overlap_scope = AutomationScope | ConcurrencyKeyScope string

definition active_run_of :: "string \<Rightarrow> automation_run \<Rightarrow> bool" where
  "active_run_of i r \<longleftrightarrow> rn_automation_id r = i \<and> active_status (rn_status r)"

definition countActiveInvocations :: "string \<Rightarrow> automation_db \<Rightarrow> nat" where
  "countActiveInvocations i db = length (remdups (map rn_invocation_id (filter (active_run_of i) (ad_runs db))))"

definition stored_concurrency_limit :: "string \<Rightarrow> automation_db \<Rightarrow> int" where
  "stored_concurrency_limit i db =
     (case find (\<lambda>a. au_id a = i \<and> 1 \<le> au_max_concurrent_runs a) (ad_automations db) of
        Some a \<Rightarrow> au_max_concurrent_runs a | None \<Rightarrow> DEFAULT_AUTOMATION_MAX_CONCURRENT_RUNS)"

definition holds_key :: "automation_db \<Rightarrow> string \<Rightarrow> automation_run \<Rightarrow> bool" where
  "holds_key db k r \<longleftrightarrow>
     list_ex (\<lambda>v. iv_id v = rn_invocation_id r \<and> iv_concurrency_key v = Some k) (ad_invocations db)"

definition overlapPredicate :: "string \<Rightarrow> overlap_scope \<Rightarrow> automation_db \<Rightarrow> bool" where
  "overlapPredicate i scope db =
     (case scope of
        ConcurrencyKeyScope k \<Rightarrow> list_ex (\<lambda>r. active_run_of i r \<and> holds_key db k r) (ad_runs db)
      | AutomationScope \<Rightarrow> stored_concurrency_limit i db \<le> int (countActiveInvocations i db))"

definition getActiveRunForKey :: "string \<Rightarrow> string \<Rightarrow> automation_db \<Rightarrow> automation_run option" where
  "getActiveRunForKey i k db =
     first_by (\<lambda>r. - rn_created_at r) (filter (\<lambda>r. active_run_of i r \<and> holds_key db k r) (ad_runs db))"

definition scheduledInvocationGuard :: "automation_invocation \<Rightarrow> automation_db \<Rightarrow> bool" where
  "scheduledInvocationGuard v db \<longleftrightarrow> iv_source v \<noteq> SourceSchedule \<or>
     list_ex (\<lambda>a. au_id a = iv_automation_id v \<and> au_deleted_at a = None
       \<and> (au_schedule_once_at a = None
          \<or> (au_enabled a \<and> au_next_run_at a \<noteq> None \<and> au_next_run_at a = iv_scheduled_at v
             \<and> au_schedule_once_at a = au_next_run_at a))) (ad_automations db)"

text \<open>A run is stored with the defaults of the columns the insert leaves out, and only where its firing
  is on record.\<close>

definition stored_run :: "string \<Rightarrow> automation_run \<Rightarrow> automation_run" where
  "stored_run invocationId c = c\<lparr>rn_invocation_id := invocationId, rn_execution_deadline_at := None,
     rn_first_prompt_pending := False, rn_attempt := 1, rn_retry_at := None\<rparr>"

definition insert_run ::
  "string \<Rightarrow> automation_run \<Rightarrow> automation_db \<Rightarrow> write_error + automation_db" where
  "insert_run invocationId c db =
     (if \<not> list_ex (\<lambda>v. iv_id v = invocationId) (ad_invocations db) then Inr db
      else if list_ex (same_run (stored_run invocationId c)) (ad_runs db) then Inl RunKeyTaken
      else Inr (db\<lparr>ad_runs := ad_runs db @ [stored_run invocationId c]\<rparr>))"

fun insert_runs :: "string \<Rightarrow> automation_run list \<Rightarrow> automation_db \<Rightarrow> write_error + automation_db" where
  "insert_runs invocationId [] db = Inr db"
| "insert_runs invocationId (c # cs) db =
     (case insert_run invocationId c db of Inl e \<Rightarrow> Inl e | Inr db' \<Rightarrow> insert_runs invocationId cs db')"

record schedule_advance =
  sa_fromSlot :: ms
  sa_nextRunAt :: "ms option"

definition bindScheduleAdvance ::
  "automation_invocation \<Rightarrow> schedule_advance \<Rightarrow> (string \<times> int) option \<Rightarrow> ms \<Rightarrow> automation_db \<Rightarrow> automation_db" where
  "bindScheduleAdvance v advance grants now db =
     fst (update_automations
       (\<lambda>a. live_automation (iv_automation_id v) a \<and> au_next_run_at a = Some (sa_fromSlot advance)
          \<and> team_grants_current grants db
          \<and> (au_schedule_once_at a = None \<or> list_ex (\<lambda>x. iv_id x = iv_id v) (ad_invocations db)))
       (\<lambda>a. a\<lparr>au_next_run_at := sa_nextRunAt advance, au_updated_at := now,
          au_enabled := (if au_schedule_once_at a \<noteq> None
              \<and> \<not> list_ex (\<lambda>r. rn_invocation_id r = iv_id v \<and> active_status (rn_status r)) (ad_runs db)
            then False else au_enabled a)\<rparr>) db)"

definition advance_if ::
  "automation_invocation \<Rightarrow> schedule_advance option \<Rightarrow> (string \<times> int) option \<Rightarrow> ms \<Rightarrow> automation_db \<Rightarrow> automation_db" where
  "advance_if v advance grants now db =
     (case advance of None \<Rightarrow> db | Some s \<Rightarrow> bindScheduleAdvance v s grants now db)"

definition insertInvocationGuarded ::
  "automation_invocation \<Rightarrow> automation_run list \<Rightarrow> overlap_scope \<Rightarrow> schedule_advance option
     \<Rightarrow> (string \<times> int) option \<Rightarrow> ms \<Rightarrow> automation_db \<Rightarrow> write_error + (automation_db \<times> bool)" where
  "insertInvocationGuarded v children scope advance grants now db =
     (let admits = \<not> overlapPredicate (iv_automation_id v) scope db \<and> team_grants_current grants db
            \<and> scheduledInvocationGuard v db in
      if admits \<and> list_ex (same_firing v) (ad_invocations db) then Inl InvocationKeyTaken
      else
        let db1 = (if admits then db\<lparr>ad_invocations := ad_invocations db @ [v]\<rparr> else db) in
        (case insert_runs (iv_id v) children db1 of
           Inl e \<Rightarrow> Inl e
         | Inr db2 \<Rightarrow> Inr (advance_if v advance grants now db2, admits)))"

definition isDuplicateKeyError :: "write_error \<Rightarrow> bool" where
  "isDuplicateKeyError e \<longleftrightarrow> e = InvocationKeyTaken"

definition bindChildlessInvocation :: "automation_invocation \<Rightarrow> automation_db \<Rightarrow> automation_db \<times> bool" where
  "bindChildlessInvocation v db =
     (if scheduledInvocationGuard v db \<and> \<not> list_ex (same_firing v) (ad_invocations db)
      then (db\<lparr>ad_invocations := ad_invocations db @ [v]\<rparr>, True) else (db, False))"

definition insertSkippedInvocation ::
  "automation_invocation \<Rightarrow> schedule_advance option \<Rightarrow> ms \<Rightarrow> automation_db \<Rightarrow> automation_db \<times> bool" where
  "insertSkippedInvocation v advance now db =
     (case bindChildlessInvocation v db of (db1, inserted) \<Rightarrow> (advance_if v advance None now db1, inserted))"

definition recordAuthorizationDenied ::
  "automation_invocation \<Rightarrow> ms \<Rightarrow> ms \<Rightarrow> automation_db \<Rightarrow> automation_db \<times> bool \<times> bool" where
  "recordAuthorizationDenied v fromSlot now db =
     (case bindChildlessInvocation v db of (db1, inserted) \<Rightarrow>
        case update_automations
          (\<lambda>a. live_automation (iv_automation_id v) a \<and> au_enabled a \<and> au_next_run_at a = Some fromSlot
             \<and> (au_schedule_once_at a = None \<or> au_schedule_once_at a = au_next_run_at a))
          (\<lambda>a. a\<lparr>au_enabled := False, au_next_run_at := None, au_updated_at := now\<rparr>) db1 of
          (db2, paused) \<Rightarrow> (db2, inserted, paused))"

section \<open>Accounting\<close>

definition runs_of :: "string \<Rightarrow> automation_db \<Rightarrow> automation_run list" where
  "runs_of invocationId db = filter (\<lambda>r. rn_invocation_id r = invocationId) (ad_runs db)"

definition status_count :: "run_status \<Rightarrow> automation_run list \<Rightarrow> nat" where
  "status_count s rs = sql_count (\<lambda>r. rn_status r = s) rs"

record run_aggregate =
  ra_total :: nat
  ra_active :: nat
  ra_retrying :: nat
  ra_failed :: nat
  ra_completed :: nat
  ra_skipped :: nat

definition getInvocationRunAggregate :: "string \<Rightarrow> automation_db \<Rightarrow> run_aggregate" where
  "getInvocationRunAggregate invocationId db =
     (let rs = runs_of invocationId db in
      \<lparr>ra_total = length rs, ra_active = sql_count (\<lambda>r. active_status (rn_status r)) rs,
       ra_retrying = status_count RunRetrying rs, ra_failed = status_count RunFailed rs,
       ra_completed = status_count RunCompleted rs, ra_skipped = status_count RunSkipped rs\<rparr>)"

definition tryMarkInvocationFailureCounted :: "string \<Rightarrow> ms \<Rightarrow> automation_db \<Rightarrow> automation_db \<times> bool" where
  "tryMarkInvocationFailureCounted invocationId now =
     update_invocations (\<lambda>v. iv_id v = invocationId \<and> iv_failure_counted_at v = None)
       (\<lambda>v. v\<lparr>iv_failure_counted_at := Some now, iv_updated_at := now\<rparr>)"

definition incrementConsecutiveFailures :: "string \<Rightarrow> ms \<Rightarrow> automation_db \<Rightarrow> automation_db" where
  "incrementConsecutiveFailures i now db = fst (update_automations (live_automation i)
     (\<lambda>a. a\<lparr>au_consecutive_failures := au_consecutive_failures a + 1, au_updated_at := now\<rparr>) db)"

text \<open>The select that follows the increment.\<close>

definition consecutive_failures :: "string \<Rightarrow> automation_db \<Rightarrow> nat" where
  "consecutive_failures i db = (case getAutomationById i db of None \<Rightarrow> 0 | Some a \<Rightarrow> au_consecutive_failures a)"

definition resetConsecutiveFailures :: "string \<Rightarrow> ms \<Rightarrow> automation_db \<Rightarrow> automation_db" where
  "resetConsecutiveFailures i now db = fst (update_automations (live_automation i)
     (\<lambda>a. a\<lparr>au_consecutive_failures := 0, au_updated_at := now\<rparr>) db)"

definition autoPause :: "string \<Rightarrow> ms \<Rightarrow> automation_db \<Rightarrow> automation_db" where
  "autoPause i now db = fst (update_automations (live_automation i)
     (\<lambda>a. a\<lparr>au_enabled := False, au_next_run_at := None, au_updated_at := now\<rparr>) db)"

definition settled_one_shot :: "automation_db \<Rightarrow> automation_row \<Rightarrow> bool" where
  "settled_one_shot db a \<longleftrightarrow> au_trigger_type a = ''schedule'' \<and> au_schedule_once_at a \<noteq> None
     \<and> au_enabled a \<and> au_deleted_at a = None \<and> au_next_run_at a = None
     \<and> list_ex (\<lambda>v. iv_automation_id v = au_id a \<and> iv_source v = SourceSchedule
          \<and> iv_scheduled_at v = au_schedule_once_at a) (ad_invocations db)
     \<and> \<not> list_ex (active_run_of (au_id a)) (ad_runs db)"

definition disableSettledOneShots :: "string option \<Rightarrow> ms \<Rightarrow> automation_db \<Rightarrow> automation_db" where
  "disableSettledOneShots i now db = fst (update_automations
     (\<lambda>a. settled_one_shot db a \<and> none_or (\<lambda>x. au_id a = x) i)
     (\<lambda>a. a\<lparr>au_enabled := False, au_updated_at := now\<rparr>) db)"

definition getUncountedFailedInvocations :: "ms \<Rightarrow> nat \<Rightarrow> automation_db \<Rightarrow> automation_invocation list" where
  "getUncountedFailedInvocations sinceMs limit db =
     take limit (sort_key iv_created_at (filter (\<lambda>v. sinceMs \<le> iv_created_at v
        \<and> iv_skip_reason v = None \<and> iv_failure_counted_at v = None
        \<and> list_ex (\<lambda>r. rn_status r = RunFailed) (runs_of (iv_id v) db)
        \<and> \<not> list_ex (\<lambda>r. active_status (rn_status r)) (runs_of (iv_id v) db)) (ad_invocations db)))"

text \<open>The newest firing that counts for an automation's streak.\<close>

definition latest_counting_firing :: "ms \<Rightarrow> string \<Rightarrow> automation_db \<Rightarrow> automation_invocation option" where
  "latest_counting_firing sinceMs i db = first_by (\<lambda>v. - iv_created_at v)
     (filter (\<lambda>v. iv_automation_id v = i \<and> iv_skip_reason v = None \<and> sinceMs \<le> iv_created_at v
        \<and> list_ex (\<lambda>r. rn_status r \<in> {RunStarting, RunRunning, RunRetrying, RunCompleted, RunFailed})
            (runs_of (iv_id v) db)) (ad_invocations db))"

text \<open>The limit counts automations, those without such a firing included.\<close>

definition getStaleFailureResetCandidates :: "ms \<Rightarrow> nat \<Rightarrow> automation_db \<Rightarrow> (string \<times> string) list" where
  "getStaleFailureResetCandidates sinceMs limit db =
     List.map_filter (\<lambda>a. map_option (\<lambda>v. (au_id a, iv_id v)) (latest_counting_firing sinceMs (au_id a) db))
       (take limit (filter (\<lambda>a. 0 < au_consecutive_failures a \<and> au_deleted_at a = None) (ad_automations db)))"

section \<open>Derived status\<close>

datatype invocation_status =
    InvocationStarting | InvocationRunning | InvocationRetrying | InvocationSkipped
  | InvocationUnauthorized | InvocationCompleted | InvocationFailed | InvocationPartialFailed

definition DERIVED_INVOCATION_STATUS_SQL :: "automation_run list \<Rightarrow> invocation_status" where
  "DERIVED_INVOCATION_STATUS_SQL rs =
     (if length rs = 0 then InvocationSkipped
      else if 0 < sql_count (\<lambda>r. rn_status r \<in> {RunStarting, RunRunning}) rs
      then (if sql_count (\<lambda>r. rn_status r \<noteq> RunStarting) rs = 0 then InvocationStarting else InvocationRunning)
      else if 0 < status_count RunRetrying rs then InvocationRetrying
      else if status_count RunSkipped rs = length rs then InvocationSkipped
      else if 0 < status_count RunUnauthorized rs then InvocationUnauthorized
      else if status_count RunFailed rs = 0 then InvocationCompleted
      else if status_count RunCompleted rs = 0 then InvocationFailed
      else InvocationPartialFailed)"

record run_counts = run_aggregate +
  rc_unauthorized :: nat
  rc_starting :: nat

definition deriveInvocationStatus :: "run_counts \<Rightarrow> invocation_status" where
  "deriveInvocationStatus c =
     (if ra_total c = 0 then InvocationSkipped
      else if ra_retrying c < ra_active c
      then (if rc_starting c = ra_total c then InvocationStarting else InvocationRunning)
      else if 0 < ra_retrying c then InvocationRetrying
      else if ra_skipped c = ra_total c then InvocationSkipped
      else if 0 < rc_unauthorized c then InvocationUnauthorized
      else if ra_failed c = 0 then InvocationCompleted
      else if ra_completed c = 0 then InvocationFailed
      else InvocationPartialFailed)"

definition allRunsUnauthorized :: "automation_run list \<Rightarrow> bool" where
  "allRunsUnauthorized rs \<longleftrightarrow> 0 < length rs \<and> list_all (\<lambda>r. rn_status r = RunUnauthorized) rs"

section \<open>Follow-up receipts\<close>

text \<open>The invocation that admitted an event, or that an accepted receipt names.\<close>

definition getInvocationIdByTriggerKey :: "string \<Rightarrow> string \<Rightarrow> automation_db \<Rightarrow> string option" where
  "getInvocationIdByTriggerKey i key db =
     or_else (map_option iv_id (find (\<lambda>v. iv_automation_id v = i \<and> iv_trigger_key v = Some key) (ad_invocations db)))
       (case find (\<lambda>c. fr_automation_id c = i \<and> fr_trigger_key c = key) (ad_receipts db) of
          Some c \<Rightarrow> (case fr_state c of ReceiptAccepted invocationId t \<Rightarrow> Some invocationId | _ \<Rightarrow> None)
        | None \<Rightarrow> None)"

definition receipt_for :: "string \<Rightarrow> string \<Rightarrow> follow_up_receipt \<Rightarrow> bool" where
  "receipt_for i key c \<longleftrightarrow> fr_automation_id c = i \<and> fr_trigger_key c = key"

datatype receipt_claim = ClaimTaken | ClaimAccepted string | ClaimPending string

definition claim_expired :: "ms \<Rightarrow> follow_up_receipt \<Rightarrow> bool" where
  "claim_expired now c \<longleftrightarrow> (case fr_state c of ReceiptClaimed x y expiresAt \<Rightarrow> expiresAt \<le> now | _ \<Rightarrow> False)"

text \<open>Three statements, each on its own: the first that succeeds, or what the third reads.\<close>

definition insert_receipt ::
  "string \<Rightarrow> string \<Rightarrow> string \<Rightarrow> string \<Rightarrow> ms \<Rightarrow> ms \<Rightarrow> automation_db \<Rightarrow> automation_db \<times> bool" where
  "insert_receipt i key claimId claimInvocationId expiresAt now db =
     (if list_ex (receipt_for i key) (ad_receipts db) then (db, False)
      else (db\<lparr>ad_receipts := ad_receipts db @ [\<lparr>fr_automation_id = i, fr_trigger_key = key,
          fr_state = ReceiptClaimed claimId claimInvocationId expiresAt, fr_created_at = now\<rparr>]\<rparr>, True))"

definition reclaim_receipt ::
  "string \<Rightarrow> string \<Rightarrow> string \<Rightarrow> string \<Rightarrow> ms \<Rightarrow> ms \<Rightarrow> automation_db \<Rightarrow> automation_db \<times> bool" where
  "reclaim_receipt i key claimId claimInvocationId expiresAt now =
     update_receipts (\<lambda>c. receipt_for i key c \<and> claim_expired now c)
       (\<lambda>c. c\<lparr>fr_state := ReceiptClaimed claimId claimInvocationId expiresAt\<rparr>)"

definition receipt_owner :: "string \<Rightarrow> string \<Rightarrow> automation_db \<Rightarrow> receipt_claim option" where
  "receipt_owner i key db = map_option (\<lambda>c. case fr_state c of
       ReceiptAccepted invocationId t \<Rightarrow> ClaimAccepted invocationId
     | ReceiptClaimed x claimInvocationId t \<Rightarrow> ClaimPending claimInvocationId)
     (find (receipt_for i key) (ad_receipts db))"

definition holds_receipt :: "string \<Rightarrow> follow_up_receipt \<Rightarrow> bool" where
  "holds_receipt claimId c \<longleftrightarrow> (case fr_state c of ReceiptClaimed x y t \<Rightarrow> x = claimId | _ \<Rightarrow> False)"

definition acceptFollowUpReceipt ::
  "string \<Rightarrow> string \<Rightarrow> string \<Rightarrow> string \<Rightarrow> ms \<Rightarrow> automation_db \<Rightarrow> automation_db option" where
  "acceptFollowUpReceipt i key claimId invocationId acceptedAt db =
     (case update_receipts (\<lambda>c. receipt_for i key c \<and> holds_receipt claimId c)
             (\<lambda>c. c\<lparr>fr_state := ReceiptAccepted invocationId acceptedAt\<rparr>) db of
        (db', changed) \<Rightarrow> if changed then Some db' else None)"

definition releaseFollowUpReceipt :: "string \<Rightarrow> string \<Rightarrow> string \<Rightarrow> automation_db \<Rightarrow> automation_db" where
  "releaseFollowUpReceipt i key claimId db =
     db\<lparr>ad_receipts := sql_delete (\<lambda>c. receipt_for i key c \<and> holds_receipt claimId c) (ad_receipts db)\<rparr>"

end
