(* ===== verification/Automation_Service.thy ===== *)
theory Automation_Service
  imports Automation_Store
begin

text \<open>
  The services that fire automations (\<open>scheduler/invocation-service.ts\<close>,
  \<open>scheduler/run-launch-service.ts\<close>, \<open>scheduler/automation-session-service.ts\<close>), account for their
  outcomes (\<open>scheduler/failure-service.ts\<close>) and repair what a crash left behind
  (\<open>scheduler/recovery-service.ts\<close>, \<open>scheduler/scheduler.ts\<close>). Any number of requests run at the same
  time over one database, so a method is cut at every \<open>await\<close>: a task is the rest of a method, and
  one step of it runs one statement. What the database does not answer (authorization, repository
  resolution, provider routing, the session that is created) is an argument of the step.
\<close>

section \<open>Launches\<close>

text \<open>\<open>AutomationExecutionUnauthorizedError\<close> with its reason, a harness or provider-account
  configuration error, any other error.\<close>

datatype launch_failure = ErrUnauthorized string | ErrConfiguration string | ErrOther string

fun launch_error_message :: "launch_failure \<Rightarrow> string" where
  "launch_error_message (ErrUnauthorized reason) = ''Automation execution principal is not authorized''"
| "launch_error_message (ErrConfiguration m) = m"
| "launch_error_message (ErrOther m) = m"

text \<open>Where \<open>launch\<close> is: before the claim, with the session claimed, with its deadline set, with the
  session created, with the prompt queued, on the way to recording a failure (and whether it may be
  retried), or over.\<close>

datatype launch_stage =
    ToClaim
  | ToCreate string ms
  | ToInitialize string
  | ToPrompt string
  | ToMark
  | ToRecord launch_failure bool
  | Launched

record launch_job =
  lj_run :: automation_run
  lj_retryable :: bool
  lj_stage :: launch_stage

text \<open>A statement's reply: it ran, or it threw, having run or not.\<close>

datatype db_reply = Replied | Threw bool

definition executed :: "db_reply \<Rightarrow> bool" where
  "executed r \<longleftrightarrow> r \<noteq> Threw False"

definition if_executed :: "db_reply \<Rightarrow> (automation_db \<Rightarrow> automation_db \<times> 'a) \<Rightarrow> automation_db \<Rightarrow> automation_db" where
  "if_executed r f db = (if executed r then fst (f db) else db)"

definition lj_id :: "launch_job \<Rightarrow> string" where
  "lj_id j = rn_id (lj_run j)"

definition at_stage :: "launch_stage \<Rightarrow> launch_job \<Rightarrow> launch_job" where
  "at_stage s j = j\<lparr>lj_stage := s\<rparr>"

definition launch_failed :: "launch_failure \<Rightarrow> bool \<Rightarrow> launch_job \<Rightarrow> launch_job" where
  "launch_failed e promptSent j = at_stage (ToRecord e (lj_retryable j \<and> \<not> promptSent)) j"

datatype automation_event =
    BoundSet string int
  | FiringAdmitted string string
  | SessionClaimed string string
  | FirstPromptSent string string
  | Struck string string
  | AutoPaused string

type_synonym automation_events = "automation_event list"

text \<open>Up to the claim: \<open>failure\<close> is the error of the attribution, of the provider snapshot or of the
  target, if any.\<close>

definition launch_claim ::
  "launch_failure option \<Rightarrow> string \<Rightarrow> ms \<Rightarrow> ms \<Rightarrow> db_reply \<Rightarrow> launch_job \<Rightarrow> automation_db
     \<Rightarrow> automation_db \<times> launch_job \<times> automation_events" where
  "launch_claim failure sessionId claimedAt deadlineMs reply j db =
     (case failure of
        Some e \<Rightarrow> (db, launch_failed e False j, [])
      | None \<Rightarrow>
          (let (db', claimed) = (if executed reply then claimRunSession (lj_id j) sessionId claimedAt (claimedAt + deadlineMs) db
                 else (db, False));
               events = (if claimed then [SessionClaimed (lj_id j) sessionId] else []) in
           if reply \<noteq> Replied then (db', launch_failed (ErrOther ''D1 error'') False j, events)
           else if \<not> claimed
           then (db', launch_failed (ErrOther ''Automation run was recovered before launch claimed its session'') False j, events)
           else (db', at_stage (ToCreate sessionId claimedAt) j, events)))"

text \<open>\<open>sessions.create\<close> up to the session's own deadline, which its settings resolve to.\<close>

definition launch_create ::
  "launch_failure option \<Rightarrow> ms \<Rightarrow> db_reply \<Rightarrow> launch_job \<Rightarrow> automation_db \<Rightarrow> automation_db \<times> launch_job" where
  "launch_create failure deadlineMs reply j db =
     (case lj_stage j of
        ToCreate sessionId claimedAt \<Rightarrow>
          (case failure of
             Some e \<Rightarrow> (db, launch_failed e False j)
           | None \<Rightarrow>
               (if_executed reply (setRunExecutionDeadline (lj_id j) (claimedAt + deadlineMs)) db,
                if reply = Replied then at_stage (ToInitialize sessionId) j
                else launch_failed (ErrOther ''D1 error'') False j))
      | _ \<Rightarrow> (db, j))"

text \<open>The rest of \<open>sessions.create\<close>: the second authorization and the session's initialization.\<close>

definition launch_initialize :: "launch_failure option \<Rightarrow> launch_job \<Rightarrow> launch_job" where
  "launch_initialize failure j =
     (case lj_stage j of
        ToInitialize sessionId \<Rightarrow>
          (case failure of Some e \<Rightarrow> launch_failed e False j | None \<Rightarrow> at_stage (ToPrompt sessionId) j)
      | _ \<Rightarrow> j)"

text \<open>The session may take the prompt even when the call fails.\<close>

definition launch_prompt :: "launch_failure option \<Rightarrow> launch_job \<Rightarrow> launch_job \<times> automation_events" where
  "launch_prompt failure j =
     (case lj_stage j of
        ToPrompt sessionId \<Rightarrow>
          (case failure of
             Some e \<Rightarrow> launch_failed e True j
           | None \<Rightarrow> at_stage ToMark (j\<lparr>lj_run := (lj_run j)\<lparr>rn_status := RunRunning, rn_session_id := Some sessionId\<rparr>\<rparr>),
           [FirstPromptSent (lj_id j) sessionId])
      | _ \<Rightarrow> (j, []))"

definition launch_mark :: "db_reply \<Rightarrow> launch_job \<Rightarrow> automation_db \<Rightarrow> automation_db \<times> launch_job" where
  "launch_mark reply j db = (if_executed reply (markRunFirstPromptQueued (lj_id j)) db, at_stage Launched j)"

definition LAUNCH_RETRY_BASE_DELAY_MS :: ms where
  "LAUNCH_RETRY_BASE_DELAY_MS = 2 * 60 * 1000"

definition launchRetryDelayMs :: "nat \<Rightarrow> ms" where
  "launchRetryDelayMs attempt = LAUNCH_RETRY_BASE_DELAY_MS * 2 ^ (attempt - 1)"

text \<open>The fields of a denial and of a failure.\<close>

definition denied_fields :: "string \<Rightarrow> ms \<Rightarrow> run_fields" where
  "denied_fields reason failedAt = \<lparr>rf_session_id = Some None, rf_status = Some RunUnauthorized,
     rf_failure_reason = Some (Some reason), rf_started_at = None, rf_completed_at = Some (Some failedAt)\<rparr>"

definition failed_fields :: "string \<Rightarrow> ms \<Rightarrow> run_fields" where
  "failed_fields reason failedAt = \<lparr>rf_session_id = None, rf_status = Some RunFailed,
     rf_failure_reason = Some (Some reason), rf_started_at = None, rf_completed_at = Some (Some failedAt)\<rparr>"

definition completed_fields :: "ms \<Rightarrow> run_fields" where
  "completed_fields completedAt = \<lparr>rf_session_id = None, rf_status = Some RunCompleted,
     rf_failure_reason = None, rf_started_at = None, rf_completed_at = Some (Some completedAt)\<rparr>"

fun configuration_error :: "launch_failure \<Rightarrow> bool" where
  "configuration_error (ErrConfiguration m) \<longleftrightarrow> True"
| "configuration_error _ \<longleftrightarrow> False"

definition recordFailure ::
  "launch_failure \<Rightarrow> bool \<Rightarrow> ms \<Rightarrow> db_reply \<Rightarrow> automation_run \<Rightarrow> automation_db \<Rightarrow> automation_db \<times> automation_run" where
  "recordFailure e retryable failedAt reply child db =
     (case e of
        ErrUnauthorized reason \<Rightarrow>
          (if_executed reply (updateRun (rn_id child) (denied_fields reason failedAt)) db,
           child\<lparr>rn_status := RunUnauthorized, rn_failure_reason := Some reason, rn_session_id := None\<rparr>)
      | _ \<Rightarrow>
          (let message = launch_error_message e;
               failed = child\<lparr>rn_status := RunFailed, rn_failure_reason := Some message\<rparr>;
               retryAt = failedAt + launchRetryDelayMs (rn_attempt child) in
           if retryable \<and> \<not> configuration_error e
           then (if_executed reply (failLaunchOrRetry (rn_id child) message failedAt retryAt) db,
                 if reply = Replied \<and> snd (failLaunchOrRetry (rn_id child) message failedAt retryAt db) = Some RunRetrying
                 then failed\<lparr>rn_status := RunRetrying, rn_retry_at := Some retryAt, rn_session_id := None\<rparr>
                 else failed)
           else (if_executed reply (updateRun (rn_id child) (failed_fields message failedAt)) db, failed)))"

definition launch_record :: "ms \<Rightarrow> db_reply \<Rightarrow> launch_job \<Rightarrow> automation_db \<Rightarrow> automation_db \<times> launch_job" where
  "launch_record failedAt reply j db =
     (case lj_stage j of
        ToRecord e retryable \<Rightarrow>
          (case recordFailure e retryable failedAt reply (lj_run j) db of
             (db', run) \<Rightarrow> (db', at_stage Launched (j\<lparr>lj_run := run\<rparr>)))
      | _ \<Rightarrow> (db, j))"

section \<open>Firings\<close>

text \<open>\<open>StartInvocationParams\<close>, with the automation as the caller read it; the principal of a manual
  firing is its user. \<open>fi_advance\<close> tells an absent next slot from the null that consumes a one-shot.\<close>

record firing =
  fi_automation :: automation_row
  fi_source :: invocation_source
  fi_actor :: invocation_actor
  fi_invocationId :: "string option"
  fi_principal :: "string option"
  fi_scheduledAt :: "ms option"
  fi_advance :: "ms option option"
  fi_triggerKey :: "string option"
  fi_claimId :: "string option"
  fi_concurrencyKey :: "string option"
  fi_triggerMetadata :: "string option"
  fi_eventRepositoryId :: "int option"

definition ownerExecutionPrincipal :: "automation_row \<Rightarrow> string option" where
  "ownerExecutionPrincipal a = (if truthy (au_user_id a) then au_user_id a else None)"

definition automationConcurrencyLimit :: "automation_row \<Rightarrow> int" where
  "automationConcurrencyLimit a =
     (if 1 \<le> au_max_concurrent_runs a then au_max_concurrent_runs a else DEFAULT_AUTOMATION_MAX_CONCURRENT_RUNS)"

definition firing_scope :: "firing \<Rightarrow> overlap_scope" where
  "firing_scope f = (case fi_concurrencyKey f of
       Some k \<Rightarrow> if fi_source f = SourceEvent then ConcurrencyKeyScope k else AutomationScope
     | None \<Rightarrow> AutomationScope)"

definition firing_blocked :: "firing \<Rightarrow> automation_db \<Rightarrow> bool" where
  "firing_blocked f db =
     (case firing_scope f of
        ConcurrencyKeyScope k \<Rightarrow> getActiveRunForKey (au_id (fi_automation f)) k db \<noteq> None
      | AutomationScope \<Rightarrow>
          automationConcurrencyLimit (fi_automation f) \<le> int (countActiveInvocations (au_id (fi_automation f)) db))"

definition schedule_slot :: "firing \<Rightarrow> schedule_advance option" where
  "schedule_slot f =
     (if fi_source f \<noteq> SourceSchedule then None
      else case (fi_scheduledAt f, fi_advance f) of
        (Some s, Some n) \<Rightarrow> Some \<lparr>sa_fromSlot = s, sa_nextRunAt = n\<rparr>
      | _ \<Rightarrow> None)"

record repository_choice =
  rp_owner :: string
  rp_name :: string
  rp_repoId :: "int option"
  rp_branch :: "string option"

record repository_resolution =
  rr_requested :: repository_choice
  rr_repository :: "repository_choice option"
  rr_error :: "string option"

definition check_identity :: "int option \<Rightarrow> repository_resolution \<Rightarrow> repository_resolution" where
  "check_identity eventRepositoryId r =
     (if eventRepositoryId \<noteq> None
         \<and> some_holds (\<lambda>x. rp_repoId x \<noteq> eventRepositoryId) (rr_repository r)
      then r\<lparr>rr_repository := None, rr_error := Some ''Repository identity changed during event resolution''\<rparr>
      else r)"

definition child_base :: "firing \<Rightarrow> ms \<Rightarrow> string \<Rightarrow> string \<Rightarrow> automation_run" where
  "child_base f now invocationId i =
     \<lparr>rn_id = i, rn_automation_id = au_id (fi_automation f), rn_invocation_id = invocationId,
      rn_session_id = None, rn_status = RunStarting, rn_failure_reason = None,
      rn_scheduled_at = nullish (fi_scheduledAt f) now, rn_started_at = None, rn_completed_at = None,
      rn_execution_deadline_at = None, rn_created_at = now, rn_target = NoTarget,
      rn_first_prompt_pending = False, rn_attempt = 1, rn_retry_at = None\<rparr>"

definition resolution_target :: "repository_resolution \<Rightarrow> run_target" where
  "resolution_target r =
     (let q = rr_requested r in
      case rr_repository r of
        None \<Rightarrow> RepositoryTarget (rp_owner q) (rp_name q) (rp_repoId q) (rp_branch q)
      | Some x \<Rightarrow> RepositoryTarget (rp_owner x) (rp_name x) (or_else (rp_repoId x) (rp_repoId q))
                   (or_else (rp_branch x) (rp_branch q)))"

definition repository_child :: "ms \<Rightarrow> repository_resolution \<Rightarrow> automation_run \<Rightarrow> automation_run" where
  "repository_child now r c =
     c\<lparr>rn_status := (if truthy (rr_error r) then RunFailed else RunStarting), rn_failure_reason := rr_error r,
       rn_completed_at := (if truthy (rr_error r) then Some now else None), rn_target := resolution_target r\<rparr>"

definition environment_child :: "string \<Rightarrow> automation_run \<Rightarrow> automation_run" where
  "environment_child e c = c\<lparr>rn_target := EnvironmentTarget e\<rparr>"

text \<open>One child per target, and one without a target where there is none.\<close>

definition child_makers ::
  "ms \<Rightarrow> repository_resolution list \<Rightarrow> string list \<Rightarrow> (automation_run \<Rightarrow> automation_run) list" where
  "child_makers now resolutions environments =
     (case map (repository_child now) resolutions @ map environment_child environments of
        [] \<Rightarrow> [\<lambda>c. c] | ms \<Rightarrow> ms)"

definition firing_children ::
  "firing \<Rightarrow> ms \<Rightarrow> string \<Rightarrow> string list \<Rightarrow> repository_resolution list \<Rightarrow> string list \<Rightarrow> automation_run list" where
  "firing_children f now invocationId ids resolutions environments =
     map (\<lambda>(i, make). make (child_base f now invocationId i))
       (zip ids (child_makers now (map (check_identity (fi_eventRepositoryId f)) resolutions) environments))"

definition firing_invocation :: "firing \<Rightarrow> ms \<Rightarrow> string \<Rightarrow> automation_invocation" where
  "firing_invocation f now i =
     \<lparr>iv_id = i, iv_automation_id = au_id (fi_automation f), iv_source = fi_source f,
      iv_actor_kind = fi_actor f, iv_scheduled_at = fi_scheduledAt f, iv_trigger_key = fi_triggerKey f,
      iv_concurrency_key = fi_concurrencyKey f, iv_trigger_metadata = fi_triggerMetadata f,
      iv_skip_reason = None, iv_failure_counted_at = None, iv_created_at = now, iv_updated_at = now\<rparr>"

text \<open>A skip never stores the trigger key.\<close>

definition skip_invocation :: "firing \<Rightarrow> string \<Rightarrow> ms \<Rightarrow> string \<Rightarrow> automation_invocation" where
  "skip_invocation f reason now i =
     \<lparr>iv_id = i, iv_automation_id = au_id (fi_automation f), iv_source = fi_source f,
      iv_actor_kind = fi_actor f, iv_scheduled_at = fi_scheduledAt f, iv_trigger_key = None,
      iv_concurrency_key = fi_concurrencyKey f, iv_trigger_metadata = fi_triggerMetadata f,
      iv_skip_reason = Some reason, iv_failure_counted_at = None, iv_created_at = now, iv_updated_at = now\<rparr>"

text \<open>The denial a tick records.\<close>

definition denied_invocation :: "string \<Rightarrow> ms \<Rightarrow> string option \<Rightarrow> ms \<Rightarrow> string \<Rightarrow> automation_invocation" where
  "denied_invocation automationId slot reason now i =
     \<lparr>iv_id = i, iv_automation_id = automationId, iv_source = SourceSchedule, iv_actor_kind = ActorSystem,
      iv_scheduled_at = Some slot, iv_trigger_key = None, iv_concurrency_key = None,
      iv_trigger_metadata = None, iv_skip_reason = Some (nullish reason ''execution_authorization_denied''),
      iv_failure_counted_at = None, iv_created_at = now, iv_updated_at = now\<rparr>"

section \<open>Tasks\<close>

datatype launch_group = GroupFiring | GroupRetry

datatype automation_task =
    FiringOwner firing
  | FiringKey firing ms
  | FiringOverlap firing ms
  | FiringAdmission firing ms
  | FiringInsert firing "automation_invocation" "automation_run list" "(string \<times> int) option" ms
  | FiringDuplicate firing
  | FiringRaced firing "(string \<times> int) option"
  | FiringSkip firing string "schedule_advance option"
  | FiringSkipInsert firing string "schedule_advance option"
  | FiringDenied firing "string option"
  | FiringReceipt firing string "automation_run list"
  | Launching launch_group string string "launch_job list"
  | RetrySweep ms
  | Relaunch automation_run
  | RelaunchAdmitted automation_run "launch_failure option" "(string \<times> int) option"
  | Withdraw automation_run
  | AccountRead string string
  | AccountOneShot string string run_aggregate
  | AccountMark string string
  | AccountIncrement string string
  | AccountThreshold string
  | AccountPause string
  | AccountReset string
  | CompleteMark automation_run bool string
  | CompleteUpdate automation_run bool string
  | CompleteCorrect automation_run ms
  | RecoverOrphaned ms
  | RecoverTimedOut ms "automation_run list"
  | FailOrphaned ms "automation_run list" "automation_run list"
  | FailTimedOut ms "automation_run list" "automation_run list"
  | FinalSweep
  | SweepUncounted ms
  | SweepResets ms
  | TickOverdue ms
  | TickDue "automation_row list" nat

record automation_world =
  aw_db :: automation_db
  aw_tasks :: "automation_task list"
  aw_ids :: "string list"
  aw_log :: automation_events

text \<open>The step of a task leaves a database, the tasks that follow, the ids it generated and what it
  logged.\<close>

type_synonym task_outcome = "automation_db \<times> automation_task list \<times> string list \<times> automation_events"

definition follows :: "automation_db \<Rightarrow> automation_task list \<Rightarrow> task_outcome" where
  "follows db ts = (db, ts, [], [])"

definition resume_task :: "automation_task \<Rightarrow> task_outcome \<Rightarrow> automation_world \<Rightarrow> automation_world" where
  "resume_task t r w = (case r of (db, ts, ids, events) \<Rightarrow>
     w\<lparr>aw_db := db, aw_tasks := ts @ remove1 t (aw_tasks w), aw_ids := ids @ aw_ids w, aw_log := aw_log w @ events\<rparr>)"

subsection \<open>Admission\<close>

text \<open>\<open>identity\<close> is the user the creator's identity names, \<open>reread\<close> what \<open>getById\<close> answers when another
  request repaired the owner first.\<close>

definition resolveCanonicalOwner ::
  "string option \<Rightarrow> automation_row option \<Rightarrow> automation_row \<Rightarrow> automation_db \<Rightarrow> automation_db \<times> automation_row" where
  "resolveCanonicalOwner identity reread a db =
     (if \<not> needsCanonicalOwner a then (db, a)
      else case identity of
        None \<Rightarrow> (db, a)
      | Some userId \<Rightarrow>
          (case repair_owner (au_id a) userId db of
             (db', changed) \<Rightarrow> (db', if changed then a\<lparr>au_user_id := Some userId\<rparr> else nullish reread a)))"

text \<open>A firing that is denied ends, unless it was the tick's, which records the denial.\<close>

definition denied :: "firing \<Rightarrow> string option \<Rightarrow> automation_task list" where
  "denied f reason = (if fi_source f = SourceSchedule then [FiringDenied f reason] else [])"

definition firing_owner ::
  "firing \<Rightarrow> string option \<Rightarrow> automation_row option \<Rightarrow> ms \<Rightarrow> automation_db \<Rightarrow> task_outcome" where
  "firing_owner f identity reread now db =
     (case resolveCanonicalOwner identity reread (fi_automation f) db of
        (db', a) \<Rightarrow>
          (let f' = f\<lparr>fi_automation := a\<rparr> in
           follows db' (if or_else (fi_principal f) (ownerExecutionPrincipal a) = None then denied f' None
                        else if fi_triggerKey f = None then [FiringOverlap f' now] else [FiringKey f' now])))"

definition firing_key :: "firing \<Rightarrow> ms \<Rightarrow> automation_db \<Rightarrow> task_outcome" where
  "firing_key f now db =
     follows db (if some_holds (\<lambda>k. truthy (getInvocationIdByTriggerKey (au_id (fi_automation f)) k db)) (fi_triggerKey f)
                 then [] else [FiringOverlap f now])"

definition recordOverlapSkip :: "firing \<Rightarrow> bool \<Rightarrow> automation_task list" where
  "recordOverlapSkip f advanceSchedule =
     (if fi_source f = SourceManual then []
      else [FiringSkip f ''concurrent_run_active'' (if advanceSchedule then schedule_slot f else None)])"

definition firing_overlap :: "firing \<Rightarrow> ms \<Rightarrow> automation_db \<Rightarrow> task_outcome" where
  "firing_overlap f now db =
     follows db (if firing_blocked f db then recordOverlapSkip f True else [FiringAdmission f now])"

text \<open>What the authorization, the repository resolution and the team's grants answer. A firing that has
  been given an id keeps it; the ids of the children, and of the firing otherwise, are new.\<close>

datatype admission_answer =
    AdmissionDenied "string option"
  | AdmissionGranted "repository_resolution list" "string list" "(string \<times> int) option"

definition firing_admission ::
  "firing \<Rightarrow> ms \<Rightarrow> admission_answer \<Rightarrow> string \<Rightarrow> string list \<Rightarrow> automation_db \<Rightarrow> task_outcome" where
  "firing_admission f now answer newId childIds db =
     (case answer of
        AdmissionDenied reason \<Rightarrow> follows db (denied f reason)
      | AdmissionGranted resolutions environments grants \<Rightarrow>
          (let i = nullish (fi_invocationId f) newId in
           (db, [FiringInsert f (firing_invocation f now i)
                   (firing_children f now i childIds resolutions environments) grants now],
            newId # childIds, [])))"

definition launch_jobs :: "firing \<Rightarrow> automation_run list \<Rightarrow> launch_job list" where
  "launch_jobs f children = map (\<lambda>c. \<lparr>lj_run = c,
     lj_retryable = (fi_source f = SourceSchedule \<and> 0 < au_max_retries (fi_automation f)),
     lj_stage = (if rn_status c = RunStarting then ToClaim else Launched)\<rparr>) children"

definition firing_launch :: "firing \<Rightarrow> string \<Rightarrow> automation_run list \<Rightarrow> automation_task" where
  "firing_launch f invocationId children =
     Launching GroupFiring (au_id (fi_automation f)) invocationId (launch_jobs f children)"

definition firing_insert ::
  "firing \<Rightarrow> automation_invocation \<Rightarrow> automation_run list \<Rightarrow> (string \<times> int) option \<Rightarrow> ms
     \<Rightarrow> automation_db \<Rightarrow> task_outcome" where
  "firing_insert f v children grants now db =
     (case insertInvocationGuarded v children (firing_scope f) (schedule_slot f) grants now db of
        Inl e \<Rightarrow> follows db
          (if isDuplicateKeyError e \<and> fi_source f = SourceSchedule \<and> nullish (fi_advance f) None \<noteq> None
           then [FiringDuplicate f] else [])
      | Inr (db', inserted) \<Rightarrow>
          if \<not> inserted then follows db' [FiringRaced f grants]
          else (db',
            if truthy (fi_claimId f) \<and> truthy (fi_triggerKey f) then [FiringReceipt f (iv_id v) children]
            else [firing_launch f (iv_id v) children],
            [], [FiringAdmitted (iv_automation_id v) (iv_id v)]))"

definition firing_duplicate :: "firing \<Rightarrow> ms \<Rightarrow> automation_db \<Rightarrow> task_outcome" where
  "firing_duplicate f now db =
     follows (case nullish (fi_advance f) None of
                Some n \<Rightarrow> fst (advanceNextRunAt (au_id (fi_automation f)) n now db) | None \<Rightarrow> db) []"

definition firing_raced :: "firing \<Rightarrow> (string \<times> int) option \<Rightarrow> automation_db \<Rightarrow> task_outcome" where
  "firing_raced f grants db =
     follows db (if team_grants_current grants db
                 then recordOverlapSkip f (au_schedule_once_at (fi_automation f) \<noteq> None) else [])"

definition firing_skip :: "firing \<Rightarrow> string \<Rightarrow> schedule_advance option \<Rightarrow> automation_db \<Rightarrow> task_outcome" where
  "firing_skip f reason advance db =
     follows db (if truthy (fi_triggerKey f)
          \<and> truthy (getInvocationIdByTriggerKey (au_id (fi_automation f)) (nullish (fi_triggerKey f) []) db)
        then [] else [FiringSkipInsert f reason advance])"

definition firing_skip_insert ::
  "firing \<Rightarrow> string \<Rightarrow> schedule_advance option \<Rightarrow> string \<Rightarrow> ms \<Rightarrow> automation_db \<Rightarrow> task_outcome" where
  "firing_skip_insert f reason advance newId now db =
     (fst (insertSkippedInvocation (skip_invocation f reason now newId) advance now db), [], [newId], [])"

text \<open>The tick denies the slot it read.\<close>

definition firing_denied :: "firing \<Rightarrow> string option \<Rightarrow> string \<Rightarrow> ms \<Rightarrow> automation_db \<Rightarrow> task_outcome" where
  "firing_denied f reason newId now db =
     (case fi_scheduledAt f of
        None \<Rightarrow> follows db []
      | Some slot \<Rightarrow>
          (fst (recordAuthorizationDenied
             (denied_invocation (au_id (fi_automation f)) slot reason now newId) slot now db),
           [], [newId], []))"

text \<open>A receipt that cannot be accepted does not hold up the children.\<close>

definition firing_receipt :: "firing \<Rightarrow> string \<Rightarrow> automation_run list \<Rightarrow> ms \<Rightarrow> bool \<Rightarrow> automation_db \<Rightarrow> task_outcome" where
  "firing_receipt f invocationId children now runs db =
     follows (if runs then nullish (acceptFollowUpReceipt (au_id (fi_automation f)) (nullish (fi_triggerKey f) [])
                (nullish (fi_claimId f) []) invocationId now db) db else db)
       [firing_launch f invocationId children]"

subsection \<open>Launching\<close>

definition AUTOMATION_LAUNCH_CONCURRENCY :: nat where
  "AUTOMATION_LAUNCH_CONCURRENCY = 4"

text \<open>\<open>forEachConcurrently\<close>: a worker takes the next candidate once it is done with one.\<close>

definition launch_may_begin :: "launch_job list \<Rightarrow> nat \<Rightarrow> bool" where
  "launch_may_begin js k \<longleftrightarrow>
     list_all (\<lambda>j. lj_stage j \<noteq> ToClaim) (take k js)
     \<and> length (filter (\<lambda>j. lj_stage j \<noteq> ToClaim \<and> lj_stage j \<noteq> Launched) js) < AUTOMATION_LAUNCH_CONCURRENCY"

text \<open>What a launch's next call answers, which its stage says.\<close>

datatype launch_answer =
    AnswerClaim "launch_failure option" string ms ms db_reply
  | AnswerCreate "launch_failure option" ms db_reply
  | AnswerInitialize "launch_failure option"
  | AnswerPrompt "launch_failure option"
  | AnswerMark db_reply
  | AnswerRecord ms db_reply

fun launch_step ::
  "launch_answer \<Rightarrow> launch_job \<Rightarrow> automation_db \<Rightarrow> (automation_db \<times> launch_job \<times> automation_events) option" where
  "launch_step (AnswerClaim failure sessionId claimedAt deadlineMs reply) j db =
     (if lj_stage j = ToClaim then Some (launch_claim failure sessionId claimedAt deadlineMs reply j db) else None)"
| "launch_step (AnswerCreate failure deadlineMs reply) j db =
     (case lj_stage j of
        ToCreate s c \<Rightarrow> (case launch_create failure deadlineMs reply j db of (db', j') \<Rightarrow> Some (db', j', []))
      | _ \<Rightarrow> None)"
| "launch_step (AnswerInitialize failure) j db =
     (case lj_stage j of ToInitialize s \<Rightarrow> Some (db, launch_initialize failure j, []) | _ \<Rightarrow> None)"
| "launch_step (AnswerPrompt failure) j db =
     (case lj_stage j of ToPrompt s \<Rightarrow> Some (db, launch_prompt failure j) | _ \<Rightarrow> None)"
| "launch_step (AnswerMark reply) j db =
     (if lj_stage j = ToMark then (case launch_mark reply j db of (db', j') \<Rightarrow> Some (db', j', [])) else None)"
| "launch_step (AnswerRecord failedAt reply) j db =
     (case lj_stage j of
        ToRecord e r \<Rightarrow> (case launch_record failedAt reply j db of (db', j') \<Rightarrow> Some (db', j', []))
      | _ \<Rightarrow> None)"

definition launching_step ::
  "launch_group \<Rightarrow> string \<Rightarrow> string \<Rightarrow> launch_job list \<Rightarrow> nat \<Rightarrow> launch_answer \<Rightarrow> automation_db \<Rightarrow> task_outcome option" where
  "launching_step g automationId invocationId js k answer db =
     (if k < length js \<and> (lj_stage (js ! k) = ToClaim \<longrightarrow> launch_may_begin js k)
      then map_option (\<lambda>(db', j, events). (db', [Launching g automationId invocationId (js[k := j])], [], events))
             (launch_step answer (js ! k) db)
      else None)"

text \<open>Failed children have no callback coming, and neither has a retry that did not end up running.\<close>

definition needs_accounting :: "launch_group \<Rightarrow> automation_run list \<Rightarrow> bool" where
  "needs_accounting g runs \<longleftrightarrow>
     (case g of
        GroupFiring \<Rightarrow> list_ex (\<lambda>r. rn_status r = RunFailed) runs \<or> allRunsUnauthorized runs
      | GroupRetry \<Rightarrow> list_ex (\<lambda>r. rn_status r \<notin> {RunRunning, RunRetrying}) runs)"

definition launching_over ::
  "launch_group \<Rightarrow> string \<Rightarrow> string \<Rightarrow> launch_job list \<Rightarrow> automation_db \<Rightarrow> task_outcome" where
  "launching_over g automationId invocationId js db =
     follows db (if needs_accounting g (map lj_run js) then [AccountRead automationId invocationId] else [])"

subsection \<open>Retries\<close>

definition MAX_RELAUNCHES_PER_TICK :: nat where
  "MAX_RELAUNCHES_PER_TICK = 25"

definition retryDue :: "ms \<Rightarrow> automation_db \<Rightarrow> task_outcome" where
  "retryDue now db = follows db (map Relaunch (getRetriesToSettle now MAX_RELAUNCHES_PER_TICK db))"

text \<open>\<open>admitRetry\<close> answers an error, or the automation with the grants it checked and the error its launch
  will meet, if any. Either way the run is claimed; an admission error is then its failure.\<close>

definition relaunch_admitted ::
  "launch_failure option \<Rightarrow> (string \<times> int) option \<Rightarrow> automation_run \<Rightarrow> automation_db \<Rightarrow> task_outcome" where
  "relaunch_admitted admissionError grants run db = follows db [RelaunchAdmitted run admissionError grants]"

definition relaunch_claim ::
  "automation_run \<Rightarrow> launch_failure option \<Rightarrow> (string \<times> int) option \<Rightarrow> ms \<Rightarrow> automation_db \<Rightarrow> task_outcome" where
  "relaunch_claim run admissionError grants now db =
     (case claimRetry run now (if admissionError = None then grants else None) db of
        (db', None) \<Rightarrow> follows db' [Withdraw run]
      | (db', Some claimed) \<Rightarrow>
          follows db' [Launching GroupRetry (rn_automation_id claimed) (rn_invocation_id claimed)
            [\<lparr>lj_run = claimed, lj_retryable = True,
              lj_stage = (case admissionError of None \<Rightarrow> ToClaim | Some e \<Rightarrow> ToRecord e True)\<rparr>]])"

definition withdraw_run :: "automation_run \<Rightarrow> ms \<Rightarrow> automation_db \<Rightarrow> task_outcome" where
  "withdraw_run run now db =
     (case failWithdrawnRetry (rn_id run) now db of
        (db', failed) \<Rightarrow>
          follows db' (if failed then [AccountRead (rn_automation_id run) (rn_invocation_id run)] else []))"

subsection \<open>Accounting\<close>

definition AUTO_PAUSE_THRESHOLD :: nat where
  "AUTO_PAUSE_THRESHOLD = 5"

definition account_decided :: "string \<Rightarrow> string \<Rightarrow> run_aggregate \<Rightarrow> automation_task list" where
  "account_decided a v agg =
     (if 0 < ra_failed agg
      then (if 0 < ra_retrying agg then [] else [AccountMark a v])
      else if ra_active agg = 0 \<and> ra_completed agg = ra_total agg then [AccountReset a] else [])"

definition account_read :: "string \<Rightarrow> string \<Rightarrow> automation_db \<Rightarrow> task_outcome" where
  "account_read a v db =
     (let agg = getInvocationRunAggregate v db in
      follows db (if ra_total agg = 0 then []
        else if ra_active agg = 0 then [AccountOneShot a v agg] else account_decided a v agg))"

definition account_one_shot :: "string \<Rightarrow> string \<Rightarrow> run_aggregate \<Rightarrow> ms \<Rightarrow> automation_db \<Rightarrow> task_outcome" where
  "account_one_shot a v agg now db = follows (disableSettledOneShots (Some a) now db) (account_decided a v agg)"

definition account_mark :: "string \<Rightarrow> string \<Rightarrow> ms \<Rightarrow> automation_db \<Rightarrow> task_outcome" where
  "account_mark a v now db =
     (case tryMarkInvocationFailureCounted v now db of
        (db', won) \<Rightarrow> follows db' (if won then [AccountIncrement a v] else []))"

definition account_increment :: "string \<Rightarrow> string \<Rightarrow> ms \<Rightarrow> automation_db \<Rightarrow> task_outcome" where
  "account_increment a v now db =
     (incrementConsecutiveFailures a now db, [AccountThreshold a], [], [Struck a v])"

definition account_threshold :: "string \<Rightarrow> automation_db \<Rightarrow> task_outcome" where
  "account_threshold a db =
     follows db (if AUTO_PAUSE_THRESHOLD \<le> consecutive_failures a db then [AccountPause a] else [])"

definition account_pause :: "string \<Rightarrow> ms \<Rightarrow> automation_db \<Rightarrow> task_outcome" where
  "account_pause a now db = (autoPause a now db, [], [], [AutoPaused a])"

definition account_reset :: "string \<Rightarrow> ms \<Rightarrow> automation_db \<Rightarrow> task_outcome" where
  "account_reset a now db = follows (resetConsecutiveFailures a now db) []"

subsection \<open>Completion callbacks\<close>

definition getRunById :: "string \<Rightarrow> string \<Rightarrow> automation_db \<Rightarrow> automation_run option" where
  "getRunById automationId runId db =
     find (\<lambda>r. rn_id r = runId \<and> rn_automation_id r = automationId) (ad_runs db)"

text \<open>\<open>runComplete\<close> from its first read on; \<open>message\<close> is what the run is said to have failed with.\<close>

definition complete_begun :: "string \<Rightarrow> string \<Rightarrow> bool \<Rightarrow> string \<Rightarrow> automation_db \<Rightarrow> automation_task list" where
  "complete_begun automationId runId success message db =
     (case getRunById automationId runId db of None \<Rightarrow> [] | Some r \<Rightarrow> [CompleteMark r success message])"

definition complete_mark :: "automation_run \<Rightarrow> bool \<Rightarrow> string \<Rightarrow> automation_db \<Rightarrow> task_outcome" where
  "complete_mark r success message db =
     follows (fst (markRunFirstPromptQueued (rn_id r) db)) [CompleteUpdate r success message]"

definition complete_update :: "automation_run \<Rightarrow> bool \<Rightarrow> string \<Rightarrow> ms \<Rightarrow> automation_db \<Rightarrow> task_outcome" where
  "complete_update r success message now db =
     (case updateRun (rn_id r)
             (if success then completed_fields now
              else failed_fields (if message = [] then ''Unknown error'' else message) now) db of
        (db', transitioned) \<Rightarrow>
          follows db' (if transitioned then [AccountRead (rn_automation_id r) (rn_invocation_id r)]
                       else if success then [CompleteCorrect r now] else []))"

definition complete_correct :: "automation_run \<Rightarrow> ms \<Rightarrow> automation_db \<Rightarrow> task_outcome" where
  "complete_correct r now db = follows (fst (completeTimedOutRun (rn_id r) now db)) []"

subsection \<open>Recovery\<close>

definition ORPHAN_THRESHOLD_MS :: ms where
  "ORPHAN_THRESHOLD_MS = 5 * 60 * 1000"

definition RECOVERY_SWEEP_LIMIT :: nat where
  "RECOVERY_SWEEP_LIMIT = 50"

definition INVOCATION_SWEEP_WINDOW_MS :: ms where
  "INVOCATION_SWEEP_WINDOW_MS = 24 * 60 * 60 * 1000"

text \<open>\<open>recoverRuns\<close>: the two queries, the two bulk failures, the accounting of the firings they touched.
  Each statement may fail on its own (\<open>runs\<close>). \<open>deadlineMs\<close> is the deployment's default deadline.\<close>

definition recover_orphaned :: "ms \<Rightarrow> ms \<Rightarrow> bool \<Rightarrow> automation_db \<Rightarrow> task_outcome" where
  "recover_orphaned now readAt runs db =
     follows db [RecoverTimedOut now
       (if runs then getOrphanedStartingRuns readAt ORPHAN_THRESHOLD_MS RECOVERY_SWEEP_LIMIT db else [])]"

definition recover_timed_out :: "ms \<Rightarrow> ms \<Rightarrow> bool \<Rightarrow> automation_run list \<Rightarrow> automation_db \<Rightarrow> task_outcome" where
  "recover_timed_out deadlineMs now runs orphaned db =
     follows db [FailOrphaned now orphaned
       (if runs then getRunsPastExecutionDeadline now deadlineMs RECOVERY_SWEEP_LIMIT db else [])]"

definition fail_orphaned ::
  "ms \<Rightarrow> bool \<Rightarrow> automation_run list \<Rightarrow> automation_run list \<Rightarrow> automation_db \<Rightarrow> task_outcome" where
  "fail_orphaned now runs orphaned timedOut db =
     (if runs
      then follows (bulkFailStartingRuns (map rn_id orphaned) ''session_creation_timeout'' now (now - ORPHAN_THRESHOLD_MS) db)
             [FailTimedOut now orphaned timedOut]
      else follows db [FailTimedOut now [] timedOut])"

text \<open>A strike is per firing, so a firing is accounted for once.\<close>

definition affected_invocations :: "automation_run list \<Rightarrow> automation_task list" where
  "affected_invocations rs = map (\<lambda>(v, a). AccountRead a v) (remdups (map (\<lambda>r. (rn_invocation_id r, rn_automation_id r)) rs))"

definition fail_timed_out ::
  "ms \<Rightarrow> ms \<Rightarrow> bool \<Rightarrow> automation_run list \<Rightarrow> automation_run list \<Rightarrow> automation_db \<Rightarrow> task_outcome" where
  "fail_timed_out deadlineMs now runs recovered timedOut db =
     (if runs
      then follows (bulkFailRunningRuns (map rn_id timedOut) EXECUTION_TIMEOUT_FAILURE_REASON now deadlineMs db)
             (affected_invocations (recovered @ timedOut) @ [FinalSweep])
      else follows db (affected_invocations recovered @ [FinalSweep]))"

definition final_sweep :: "ms \<Rightarrow> automation_db \<Rightarrow> task_outcome" where
  "final_sweep now db =
     follows (disableSettledOneShots None now db) [SweepUncounted (now - INVOCATION_SWEEP_WINDOW_MS)]"

definition sweep_uncounted :: "ms \<Rightarrow> automation_db \<Rightarrow> task_outcome" where
  "sweep_uncounted since db =
     follows db (map (\<lambda>v. AccountRead (iv_automation_id v) (iv_id v))
         (getUncountedFailedInvocations since RECOVERY_SWEEP_LIMIT db) @ [SweepResets since])"

definition sweep_resets :: "ms \<Rightarrow> automation_db \<Rightarrow> task_outcome" where
  "sweep_resets since db =
     follows db (map (\<lambda>(a, v). AccountRead a v) (getStaleFailureResetCandidates since RECOVERY_SWEEP_LIMIT db))"

subsection \<open>Ticks, triggers and events\<close>

definition MAX_PER_TICK :: nat where
  "MAX_PER_TICK = 25"

definition TICK_CHILD_LAUNCH_BUDGET :: nat where
  "TICK_CHILD_LAUNCH_BUDGET = 50"

text \<open>The firing of a due slot; \<open>cron\<close> is the next occurrence of a recurring schedule.\<close>

definition tick_firing :: "ms \<Rightarrow> automation_row \<Rightarrow> firing" where
  "tick_firing cron a =
     \<lparr>fi_automation = a, fi_source = SourceSchedule, fi_actor = ActorSystem, fi_invocationId = None,
      fi_principal = None, fi_scheduledAt = au_next_run_at a,
      fi_advance = Some (if au_schedule_once_at a \<noteq> None then None else Some cron),
      fi_triggerKey = None, fi_claimId = None, fi_concurrencyKey = None, fi_triggerMetadata = None,
      fi_eventRepositoryId = None\<rparr>"

definition tick_overdue :: "ms \<Rightarrow> nat \<Rightarrow> automation_db \<Rightarrow> task_outcome" where
  "tick_overdue now relaunched db = follows db [TickDue (getOverdueAutomations now MAX_PER_TICK db) relaunched]"

text \<open>\<open>previous\<close> is the number of children of the firing before this one, \<open>targets\<close> of this one's.\<close>

definition tick_due :: "ms \<Rightarrow> nat \<Rightarrow> nat \<Rightarrow> automation_row list \<Rightarrow> nat \<Rightarrow> automation_db \<Rightarrow> task_outcome" where
  "tick_due cron previous targets rows launched db =
     (case rows of
        [] \<Rightarrow> follows db []
      | a # rest \<Rightarrow>
          (let launchedChildren = launched + previous in
           if 0 < launchedChildren \<and> TICK_CHILD_LAUNCH_BUDGET < launchedChildren + max targets 1 then follows db []
           else follows db [FiringOwner (tick_firing cron a), TickDue rest launchedChildren]))"

definition manual_firing :: "automation_row \<Rightarrow> string \<Rightarrow> invocation_actor \<Rightarrow> firing" where
  "manual_firing a userId actor =
     \<lparr>fi_automation = a, fi_source = SourceManual, fi_actor = actor, fi_invocationId = None,
      fi_principal = Some userId, fi_scheduledAt = None, fi_advance = None,
      fi_triggerKey = None, fi_claimId = None, fi_concurrencyKey = None, fi_triggerMetadata = None,
      fi_eventRepositoryId = None\<rparr>"

text \<open>What the handlers of events pass; the claim and the id are a webhook's.\<close>

definition event_firing ::
  "automation_row \<Rightarrow> invocation_actor \<Rightarrow> (string \<times> string) option \<Rightarrow> string \<Rightarrow> string option \<Rightarrow> string option
     \<Rightarrow> int option \<Rightarrow> firing" where
  "event_firing a actor webhookClaim triggerKey concurrencyKey metadata repositoryId =
     \<lparr>fi_automation = a, fi_source = SourceEvent, fi_actor = actor,
      fi_invocationId = map_option snd webhookClaim, fi_principal = None, fi_scheduledAt = None,
      fi_advance = None, fi_triggerKey = Some triggerKey, fi_claimId = map_option fst webhookClaim,
      fi_concurrencyKey = concurrencyKey, fi_triggerMetadata = metadata,
      fi_eventRepositoryId = repositoryId\<rparr>"

section \<open>Steps\<close>

definition fresh_ids :: "string list \<Rightarrow> automation_world \<Rightarrow> bool" where
  "fresh_ids ids w \<longleftrightarrow> distinct ids \<and> list_all (\<lambda>i. i \<notin> set (aw_ids w)) ids"

text \<open>\<open>task_step t r w\<close>: in world \<open>w\<close> the next statement of task \<open>t\<close> may come out as \<open>r\<close>.\<close>

inductive task_step :: "automation_task \<Rightarrow> task_outcome \<Rightarrow> automation_world \<Rightarrow> bool" where
  owner: "task_step (FiringOwner f) (firing_owner f identity reread now (aw_db w)) w"
    if "none_or (\<lambda>a. au_id a = au_id (fi_automation f)
          \<and> (au_schedule_once_at a = None) = (au_schedule_once_at (fi_automation f) = None)) reread"
| key: "task_step (FiringKey f now) (firing_key f now (aw_db w)) w"
| overlap: "task_step (FiringOverlap f now) (firing_overlap f now (aw_db w)) w"
| admission: "task_step (FiringAdmission f now) (firing_admission f now answer newId childIds (aw_db w)) w"
    if "fresh_ids (newId # childIds) w"
      "\<forall>rs es g. answer = AdmissionGranted rs es g \<longrightarrow> length childIds = max 1 (length rs + length es)"
| insert: "task_step (FiringInsert f v children grants now) (firing_insert f v children grants now (aw_db w)) w"
| duplicate: "task_step (FiringDuplicate f) (firing_duplicate f now (aw_db w)) w"
| raced: "task_step (FiringRaced f grants) (firing_raced f grants (aw_db w)) w"
| skip: "task_step (FiringSkip f reason advance) (firing_skip f reason advance (aw_db w)) w"
| skip_insert: "task_step (FiringSkipInsert f reason advance) (firing_skip_insert f reason advance newId now (aw_db w)) w"
    if "fresh_ids [newId] w"
| denied: "task_step (FiringDenied f why) (firing_denied f why newId now (aw_db w)) w" if "fresh_ids [newId] w"
| receipt: "task_step (FiringReceipt f i children) (firing_receipt f i children now runs (aw_db w)) w"
| launching: "task_step (Launching g a v js) r w" if "launching_step g a v js k answer (aw_db w) = Some r"
| launched: "task_step (Launching g a v js) (launching_over g a v js (aw_db w)) w"
    if "list_all (\<lambda>j. lj_stage j = Launched) js"
| retries: "task_step (RetrySweep now) (retryDue now (aw_db w)) w"
| admit_retry: "task_step (Relaunch run) (relaunch_admitted failure grants run (aw_db w)) w"
| relaunch: "task_step (RelaunchAdmitted run failure grants) (relaunch_claim run failure grants now (aw_db w)) w"
| withdraw: "task_step (Withdraw run) (withdraw_run run now (aw_db w)) w"
| account_read: "task_step (AccountRead a v) (account_read a v (aw_db w)) w"
| account_one_shot: "task_step (AccountOneShot a v agg) (account_one_shot a v agg now (aw_db w)) w"
| account_mark: "task_step (AccountMark a v) (account_mark a v now (aw_db w)) w"
| account_increment: "task_step (AccountIncrement a v) (account_increment a v now (aw_db w)) w"
| account_threshold: "task_step (AccountThreshold a) (account_threshold a (aw_db w)) w"
| account_pause: "task_step (AccountPause a) (account_pause a now (aw_db w)) w"
| account_reset: "task_step (AccountReset a) (account_reset a now (aw_db w)) w"
| complete_mark: "task_step (CompleteMark run success message) (complete_mark run success message (aw_db w)) w"
| complete_update: "task_step (CompleteUpdate run success message) (complete_update run success message now (aw_db w)) w"
| complete_correct: "task_step (CompleteCorrect run now) (complete_correct run now (aw_db w)) w"
| recover_orphaned: "task_step (RecoverOrphaned now) (recover_orphaned now readAt runs (aw_db w)) w"
| recover_timed_out: "task_step (RecoverTimedOut now rs) (recover_timed_out deadlineMs now runs rs (aw_db w)) w"
| fail_orphaned: "task_step (FailOrphaned now rs ts) (fail_orphaned now runs rs ts (aw_db w)) w"
| fail_timed_out: "task_step (FailTimedOut now rs ts) (fail_timed_out deadlineMs now runs rs ts (aw_db w)) w"
| final_sweep: "task_step FinalSweep (final_sweep now (aw_db w)) w"
| sweep_uncounted: "task_step (SweepUncounted since) (sweep_uncounted since (aw_db w)) w"
| sweep_resets: "task_step (SweepResets since) (sweep_resets since (aw_db w)) w"
| tick_overdue: "task_step (TickOverdue now) (tick_overdue now relaunched (aw_db w)) w"
| tick_due: "task_step (TickDue rows launched) (tick_due cron previous targets rows launched (aw_db w)) w"

text \<open>What the routes accept. A create starts live, enabled and at its one-shot's time; an edit changes
  neither the kind of a schedule nor what only the scheduler writes.\<close>

definition MAX_AUTOMATION_RETRIES :: nat where
  "MAX_AUTOMATION_RETRIES = 5"

definition MAX_AUTOMATION_CONCURRENT_RUNS :: int where
  "MAX_AUTOMATION_CONCURRENT_RUNS = 10"

definition createable :: "automation_row \<Rightarrow> bool" where
  "createable a \<longleftrightarrow> au_enabled a \<and> au_deleted_at a = None \<and> au_consecutive_failures a = 0
     \<and> au_max_retries a \<le> MAX_AUTOMATION_RETRIES
     \<and> 1 \<le> au_max_concurrent_runs a \<and> au_max_concurrent_runs a \<le> MAX_AUTOMATION_CONCURRENT_RUNS
     \<and> (au_schedule_once_at a \<noteq> None \<longrightarrow> au_trigger_type a = ''schedule'' \<and> au_next_run_at a = au_schedule_once_at a)"

definition editable :: "automation_row \<Rightarrow> automation_fields \<Rightarrow> bool" where
  "editable existing f \<longleftrightarrow> af_enabled f = None \<and> af_consecutive_failures f = None
     \<and> none_or (\<lambda>n. n \<le> MAX_AUTOMATION_RETRIES) (af_max_retries f)
     \<and> none_or (\<lambda>m. 1 \<le> m \<and> m \<le> MAX_AUTOMATION_CONCURRENT_RUNS) (af_max_concurrent_runs f)
     \<and> none_or (\<lambda>t. t \<noteq> None \<and> au_schedule_once_at existing \<noteq> None) (af_schedule_once_at f)
     \<and> (af_next_run_at f \<noteq> None \<longrightarrow> au_schedule_once_at existing = None)"

definition in_db :: "(automation_db \<Rightarrow> automation_db) \<Rightarrow> automation_world \<Rightarrow> automation_world" where
  "in_db f w = w\<lparr>aw_db := f (aw_db w)\<rparr>"

definition logged :: "automation_events \<Rightarrow> automation_world \<Rightarrow> automation_world" where
  "logged es w = w\<lparr>aw_log := aw_log w @ es\<rparr>"

definition begin_tasks :: "automation_task list \<Rightarrow> automation_world \<Rightarrow> automation_world" where
  "begin_tasks ts w = w\<lparr>aw_tasks := ts @ aw_tasks w\<rparr>"

definition generated :: "string list \<Rightarrow> automation_world \<Rightarrow> automation_world" where
  "generated ids w = w\<lparr>aw_ids := ids @ aw_ids w\<rparr>"

definition list_of_option :: "'a option \<Rightarrow> 'a list" where
  "list_of_option x = (case x of None \<Rightarrow> [] | Some a \<Rightarrow> [a])"

inductive automation_step :: "automation_world \<Rightarrow> automation_world \<Rightarrow> bool" where
  task: "automation_step w (resume_task t r w)" if "t \<in> set (aw_tasks w)" "task_step t r w"
| lost: "automation_step w (w\<lparr>aw_tasks := remove1 t (aw_tasks w)\<rparr>)" if "t \<in> set (aw_tasks w)"
| create: "automation_step w (generated [au_id a] (logged [BoundSet (au_id a) (au_max_concurrent_runs a)] (w\<lparr>aw_db := db\<rparr>)))"
    if "createable a" "fresh_ids [au_id a] w" "bindAutomationInsert a (aw_db w) = Some db"
| edit: "automation_step w (logged
      (case af_max_concurrent_runs f of None \<Rightarrow> [] | Some m \<Rightarrow> [BoundSet (au_id a) m]) (in_db (\<lambda>db. fst (g db)) w))"
    if "a \<in> set (ad_automations (aw_db w))" "editable a f" "bindAutomationUpdate (au_id a) f now = Some g"
| pause: "automation_step w (in_db (\<lambda>db. fst (bindPause i now db)) w)"
| resume: "automation_step w (in_db (\<lambda>db. fst (bindResume i nextRunAt now db)) w)"
| delete: "automation_step w (in_db (\<lambda>db. fst (bindSoftDelete i now db)) w)"
| grants: "automation_step w (in_db (\<lambda>db. db\<lparr>ad_grants := g\<rparr>) w)"
| receipts: "automation_step w (in_db (\<lambda>db. db\<lparr>ad_receipts := rs\<rparr>) w)"
| tick: "automation_step w (begin_tasks [t] w)" if "t \<in> {RecoverOrphaned now, RetrySweep now, TickOverdue now}"
| trigger: "automation_step w (begin_tasks [FiringOwner (manual_firing a userId actor)] w)"
    if "getAutomationById i (aw_db w) = Some a"
| event: "automation_step w (begin_tasks [FiringOwner (event_firing a actor webhookClaim key concurrencyKey metadata repositoryId)]
      (generated (map snd (list_of_option webhookClaim)) w))"
    if "a \<in> set (ad_automations (aw_db w))" "fresh_ids (map snd (list_of_option webhookClaim)) w"
| callback: "automation_step w (begin_tasks (complete_begun a i success message (aw_db w)) w)"

text \<open>From an empty database on.\<close>

definition new_automations :: "(string \<times> int) list \<Rightarrow> automation_world" where
  "new_automations grants =
     \<lparr>aw_db = \<lparr>ad_automations = [], ad_invocations = [], ad_runs = [], ad_receipts = [], ad_grants = grants\<rparr>,
      aw_tasks = [], aw_ids = [], aw_log = []\<rparr>"

inductive automations_reachable :: "automation_world \<Rightarrow> bool" where
  new: "automations_reachable (new_automations grants)"
| step: "automations_reachable w \<Longrightarrow> automation_step w w' \<Longrightarrow> automations_reachable w'"

end
