(* ===== verification/Automation_Changes.thy ===== *)
theory Automation_Changes
  imports Automation_Service
begin

text \<open>
  What the statements of the automation store do to the tables: each run moves along the edges of its
  life cycle (\<open>row_move\<close>), every other change is one of a few kinds (\<open>db_change\<close>), and all of them
  keep the tables' invariant (\<open>tables_ok\<close>).
\<close>

section \<open>Runs\<close>

definition terminal_status :: "run_status \<Rightarrow> bool" where
  "terminal_status s \<longleftrightarrow> \<not> active_status s"

text \<open>What the columns of a run say in each status.\<close>

definition run_row_ok :: "automation_run \<Rightarrow> bool" where
  "run_row_ok r \<longleftrightarrow>
     (rn_status r = RunRunning \<longrightarrow> rn_session_id r \<noteq> None \<and> rn_started_at r \<noteq> None \<and> rn_execution_deadline_at r \<noteq> None)
     \<and> (rn_status r = RunRetrying \<longleftrightarrow> rn_retry_at r \<noteq> None)
     \<and> (rn_status r = RunRetrying \<longrightarrow> rn_session_id r = None)
     \<and> (terminal_status (rn_status r) \<longleftrightarrow> rn_completed_at r \<noteq> None)
     \<and> rn_status r \<noteq> RunSkipped \<and> 1 \<le> rn_attempt r"

definition same_run_identity :: "automation_run \<Rightarrow> automation_run \<Rightarrow> bool" where
  "same_run_identity r q \<longleftrightarrow> rn_id q = rn_id r \<and> rn_automation_id q = rn_automation_id r
     \<and> rn_invocation_id q = rn_invocation_id r \<and> rn_target q = rn_target r \<and> rn_scheduled_at q = rn_scheduled_at r"

definition status_move :: "automation_db \<Rightarrow> automation_run \<Rightarrow> automation_run \<Rightarrow> bool" where
  "status_move db r q \<longleftrightarrow>
     (rn_status q = rn_status r \<and> rn_failure_reason q = rn_failure_reason r)
     \<or> (rn_status r = RunStarting \<and> rn_status q = RunRunning)
     \<or> (rn_status r \<in> {RunStarting, RunRunning}
         \<and> rn_status q \<in> {RunRetrying, RunCompleted, RunFailed, RunUnauthorized})
     \<or> (rn_status r = RunRetrying \<and> rn_status q = RunStarting \<and> retry_allowed db r)
     \<or> (rn_status r = RunRetrying \<and> rn_status q = RunFailed)
     \<or> (rn_status r = RunFailed \<and> rn_failure_reason r = Some EXECUTION_TIMEOUT_FAILURE_REASON
         \<and> rn_status q = RunCompleted)"

definition row_move :: "automation_db \<Rightarrow> automation_run \<Rightarrow> automation_run \<Rightarrow> bool" where
  "row_move db r q \<longleftrightarrow> same_run_identity r q \<and> status_move db r q
     \<and> rn_attempt q = (if rn_status r = RunRetrying \<and> rn_status q = RunStarting then rn_attempt r + 1 else rn_attempt r)
     \<and> (run_row_ok r \<longrightarrow> run_row_ok q)"

text \<open>A statement that moves runs, and nothing else.\<close>

definition runs_moved :: "automation_db \<Rightarrow> automation_db \<Rightarrow> bool" where
  "runs_moved db db' \<longleftrightarrow> (\<exists>f. db' = db\<lparr>ad_runs := map f (ad_runs db)\<rparr> \<and> (\<forall>r. row_move db r (f r)))"

lemma row_move_refl: "row_move db r r"
  by (cases "rn_status r") (simp_all add: row_move_def same_run_identity_def status_move_def)

lemma runs_moved_refl: "runs_moved db db"
  unfolding runs_moved_def by (rule exI [of _ "\<lambda>r. r"]) (simp add: row_move_refl)

lemma runs_moved_update:
  assumes "\<And>r. p r \<Longrightarrow> row_move db r (f r)"
  shows "runs_moved db (fst (update_runs p f db))"
  unfolding runs_moved_def update_runs_def sql_update_def
  using assms by (intro exI [of _ "\<lambda>r. if p r then f r else r"]) (simp add: row_move_refl)

lemmas row_move_defs = row_move_def same_run_identity_def status_move_def run_row_ok_def
  terminal_status_def active_status_def

lemma run_row_ok_prompt [simp]: "run_row_ok (r\<lparr>rn_first_prompt_pending := x\<rparr>) = run_row_ok r"
  by (simp add: run_row_ok_def)

lemma row_move_ends:
  assumes "rn_status r \<in> {RunStarting, RunRunning}" and "rn_status q \<in> {RunCompleted, RunFailed, RunUnauthorized}"
    and "same_run_identity r q" and "rn_attempt q = rn_attempt r" and "rn_completed_at q \<noteq> None"
    and "rn_retry_at q = rn_retry_at r"
  shows "row_move db r q"
proof -
  have m: "status_move db r q" unfolding status_move_def using assms(1,2) by blast
  have n: "rn_status r \<noteq> RunRetrying" "rn_status q \<noteq> RunStarting" "terminal_status (rn_status q)"
    "rn_status q \<notin> {RunRunning, RunRetrying, RunSkipped}"
    using assms(1,2) by (auto simp: terminal_status_def active_status_def)
  then have "run_row_ok q" if "run_row_ok r"
    using that assms(4-6) by (simp add: run_row_ok_def)
  with m n assms(3,4) show ?thesis by (simp add: row_move_def)
qed

lemma runs_moved_claim: "runs_moved db (fst (claimRunSession i s t d db))"
  unfolding claimRunSession_def by (rule runs_moved_update) (simp add: row_move_defs)

lemma runs_moved_mark: "runs_moved db (fst (markRunFirstPromptQueued i db))"
  unfolding markRunFirstPromptQueued_def
  by (rule runs_moved_update) (simp add: row_move_def same_run_identity_def status_move_def)

lemma runs_moved_deadline: "runs_moved db (fst (setRunExecutionDeadline i d db))"
  unfolding setRunExecutionDeadline_def by (rule runs_moved_update) (simp add: row_move_defs)

lemma runs_moved_timed_out: "runs_moved db (fst (completeTimedOutRun i t db))"
  unfolding completeTimedOutRun_def by (rule runs_moved_update) (auto simp: row_move_defs)

lemma runs_moved_fields:
  assumes "f = denied_fields reason t \<or> f = failed_fields reason t \<or> f = completed_fields t"
  shows "runs_moved db (fst (updateRun i f db))"
proof -
  have "f \<noteq> no_run_fields"
    using assms by (auto simp: denied_fields_def failed_fields_def completed_fields_def no_run_fields_def)
  then show ?thesis
    unfolding updateRun_def using assms
    by (simp, intro runs_moved_update row_move_ends)
      (auto simp: same_run_identity_def denied_fields_def failed_fields_def completed_fields_def)
qed

lemma runs_moved_bulk:
  assumes "\<And>r. p r \<Longrightarrow> rn_status r \<in> {RunStarting, RunRunning}"
  shows "runs_moved db (bulkFailRuns ids reason t p db)"
  unfolding bulkFailRuns_def
  using assms by (auto intro!: runs_moved_update row_move_ends simp: runs_moved_refl same_run_identity_def)

lemma runs_moved_orphans: "runs_moved db (bulkFailStartingRuns ids reason t c db)"
  unfolding bulkFailStartingRuns_def by (rule runs_moved_bulk) (simp add: orphaned_starting_def)

lemma runs_moved_overdue: "runs_moved db (bulkFailRunningRuns ids reason t d db)"
  unfolding bulkFailRunningRuns_def by (rule runs_moved_bulk) (simp add: past_execution_deadline_def)

lemma runs_moved_withdraw: "runs_moved db (fst (failWithdrawnRetry i t db))"
  unfolding failWithdrawnRetry_def by (rule runs_moved_update) (auto simp: row_move_defs)

lemma runs_moved_claim_retry: "runs_moved db (fst (claimRetry run now grants db))"
proof -
  have "fst (claimRetry run now grants db) = fst (update_runs
            (\<lambda>r. rn_id r = rn_id run \<and> rn_status r = RunRetrying \<and> rn_attempt r = rn_attempt run
               \<and> some_holds (\<lambda>t. t \<le> now) (rn_retry_at r) \<and> retry_allowed db r \<and> team_grants_current grants db)
            (claimed_retry now) db)"
    by (simp add: claimRetry_def Let_def case_prod_beta)
  then show ?thesis
    by (auto intro!: runs_moved_update simp: row_move_defs claimed_retry_def)
qed

text \<open>The batch that retries or fails: a run it sets to wait is not failed by its second statement.\<close>

definition retry_wait :: "string \<Rightarrow> ms \<Rightarrow> automation_run \<Rightarrow> automation_run" where
  "retry_wait reason retryAt r = r\<lparr>rn_status := RunRetrying, rn_failure_reason := Some reason, rn_retry_at := Some retryAt,
     rn_session_id := None, rn_started_at := None, rn_execution_deadline_at := None, rn_first_prompt_pending := False\<rparr>"

definition launch_lost :: "string \<Rightarrow> ms \<Rightarrow> automation_run \<Rightarrow> automation_run" where
  "launch_lost reason failedAt r =
     r\<lparr>rn_status := RunFailed, rn_failure_reason := Some reason, rn_completed_at := Some failedAt\<rparr>"

definition retry_or_fail :: "automation_db \<Rightarrow> string \<Rightarrow> string \<Rightarrow> ms \<Rightarrow> ms \<Rightarrow> automation_run \<Rightarrow> automation_run" where
  "retry_or_fail db i reason failedAt retryAt r =
     (if rn_id r = i \<and> rn_status r \<in> {RunStarting, RunRunning}
      then (if retry_allowed db r then retry_wait reason retryAt r else launch_lost reason failedAt r) else r)"

lemma failLaunchOrRetry_db:
  "fst (failLaunchOrRetry i reason failedAt retryAt db)
     = db\<lparr>ad_runs := map (retry_or_fail db i reason failedAt retryAt) (ad_runs db)\<rparr>"
  by (simp add: failLaunchOrRetry_def update_runs_def sql_update_def Let_def,
      rule arg_cong [where f = "\<lambda>x. db\<lparr>ad_runs := x\<rparr>"], rule map_cong [OF refl],
      auto simp: retry_or_fail_def retry_wait_def launch_lost_def)

lemma runs_moved_retry_or_fail: "runs_moved db (fst (failLaunchOrRetry i reason failedAt retryAt db))"
  unfolding failLaunchOrRetry_db runs_moved_def
  by (rule exI [of _ "retry_or_fail db i reason failedAt retryAt"])
    (auto simp: retry_or_fail_def retry_wait_def launch_lost_def row_move_refl row_move_defs)

lemma runs_moved_if_executed: "runs_moved db (fst (f db)) \<Longrightarrow> runs_moved db (if_executed reply f db)"
  by (simp add: if_executed_def runs_moved_refl)

lemma runs_moved_record: "runs_moved db (fst (recordFailure e retryable t reply child db))"
  by (cases e) (auto simp: recordFailure_def Let_def
      intro!: runs_moved_if_executed runs_moved_fields runs_moved_retry_or_fail)

section \<open>Changes of the tables\<close>

text \<open>A one-shot is due at its time, or its firing is on record, as long as it is enabled and live.\<close>

definition slot_recorded :: "automation_db \<Rightarrow> string \<Rightarrow> ms \<Rightarrow> bool" where
  "slot_recorded db i t \<longleftrightarrow> (\<exists>v \<in> set (ad_invocations db). iv_automation_id v = i
     \<and> iv_source v = SourceSchedule \<and> iv_scheduled_at v = Some t)"

definition one_shot_ok :: "automation_db \<Rightarrow> automation_row \<Rightarrow> bool" where
  "one_shot_ok db a \<longleftrightarrow> (\<forall>t. au_schedule_once_at a = Some t \<longrightarrow>
     au_trigger_type a = ''schedule'' \<and> au_next_run_at a \<in> {None, Some t}
     \<and> (au_enabled a \<and> au_deleted_at a = None \<and> au_next_run_at a = None \<longrightarrow> slot_recorded db (au_id a) t))"

definition row_change :: "automation_db \<Rightarrow> automation_row \<Rightarrow> automation_row \<Rightarrow> bool" where
  "row_change db a q \<longleftrightarrow> au_id q = au_id a
     \<and> (au_schedule_once_at q = None) = (au_schedule_once_at a = None)
     \<and> (au_max_retries a \<le> MAX_AUTOMATION_RETRIES \<longrightarrow> au_max_retries q \<le> MAX_AUTOMATION_RETRIES)
     \<and> (one_shot_ok db a \<longrightarrow> one_shot_ok db q)"

text \<open>The scope a firing is counted in.\<close>

definition invocation_scope :: "automation_invocation \<Rightarrow> overlap_scope" where
  "invocation_scope v = (case iv_concurrency_key v of
       Some k \<Rightarrow> if iv_source v = SourceEvent then ConcurrencyKeyScope k else AutomationScope
     | None \<Rightarrow> AutomationScope)"

definition new_child :: "automation_invocation \<Rightarrow> automation_run \<Rightarrow> bool" where
  "new_child v c \<longleftrightarrow> rn_automation_id c = iv_automation_id v \<and> rn_session_id c = None
     \<and> (rn_status c = RunStarting \<and> rn_completed_at c = None \<or> rn_status c = RunFailed \<and> rn_completed_at c \<noteq> None)"

definition admitted_db :: "automation_invocation \<Rightarrow> automation_run list \<Rightarrow> automation_db \<Rightarrow> automation_db" where
  "admitted_db v cs db = db\<lparr>ad_invocations := ad_invocations db @ [v],
     ad_runs := ad_runs db @ map (stored_run (iv_id v)) cs\<rparr>"

text \<open>Changes that add no row.\<close>

inductive quiet_change :: "automation_db \<Rightarrow> automation_db \<Rightarrow> bool" where
  runs: "quiet_change db db'" if "runs_moved db db'"
| rows: "quiet_change db (fst (update_automations p f db))"
    if "\<And>a. a \<in> set (ad_automations db) \<Longrightarrow> p a \<Longrightarrow> row_change db a (f a)"
| counted: "quiet_change db (fst (tryMarkInvocationFailureCounted i now db))"
| receipts: "quiet_change db (db\<lparr>ad_receipts := rs\<rparr>)"
| grants: "quiet_change db (db\<lparr>ad_grants := g\<rparr>)"

abbreviation quiet_changes :: "automation_db \<Rightarrow> automation_db \<Rightarrow> bool" where
  "quiet_changes \<equiv> quiet_change\<^sup>*\<^sup>*"

inductive db_change :: "automation_db \<Rightarrow> automation_db \<Rightarrow> bool" where
  quiet: "db_change db db'" if "quiet_change db db'"
| childless: "db_change db (db\<lparr>ad_invocations := ad_invocations db @ [v]\<rparr>)"
    if "\<not> list_ex (same_firing v) (ad_invocations db)" "iv_skip_reason v \<noteq> None"
| admitted: "db_change db (admitted_db v cs db)"
    if "\<not> overlapPredicate (iv_automation_id v) (invocation_scope v) db"
      "\<not> list_ex (same_firing v) (ad_invocations db)" "list_all (new_child v) cs"
      "distinct (map rn_id cs)" "\<And>c. c \<in> set cs \<Longrightarrow> rn_id c \<notin> rn_id ` set (ad_runs db)"
      "iv_failure_counted_at v = None" "iv_skip_reason v = None"
| created: "db_change db (db\<lparr>ad_automations := ad_automations db @ [a]\<rparr>)"
    if "createable a" "au_id a \<notin> au_id ` set (ad_automations db)"

abbreviation db_changes :: "automation_db \<Rightarrow> automation_db \<Rightarrow> bool" where
  "db_changes \<equiv> db_change\<^sup>*\<^sup>*"

lemma changes_quiet: "quiet_changes db db' \<Longrightarrow> db_changes db db'"
  by (rule mono_rtranclp [rule_format]) (auto intro: db_change.quiet)

lemma quiet_runs: "runs_moved db db' \<Longrightarrow> quiet_changes db db'"
  by (rule r_into_rtranclp) (rule quiet_change.runs)

lemma quiet_rows:
  assumes "\<And>a. a \<in> set (ad_automations db) \<Longrightarrow> p a \<Longrightarrow> row_change db a (f a)"
  shows "quiet_changes db (fst (update_automations p f db))"
  by (rule r_into_rtranclp, rule quiet_change.rows) (rule assms)

lemmas row_change_defs = row_change_def one_shot_ok_def

lemma quiet_repair: "quiet_changes db (fst (repair_owner i u db))"
  unfolding repair_owner_def by (rule quiet_rows) (simp add: row_change_defs)

lemma quiet_pause: "quiet_changes db (fst (bindPause i now db))"
  unfolding bindPause_def by (rule quiet_rows) (simp add: row_change_defs)

lemma quiet_delete: "quiet_changes db (fst (bindSoftDelete i now db))"
  unfolding bindSoftDelete_def by (rule quiet_rows) (simp add: row_change_defs)

lemma quiet_resume: "quiet_changes db (fst (bindResume i n now db))"
  unfolding bindResume_def by (rule quiet_rows) (auto simp: row_change_defs)

lemma quiet_auto_pause: "quiet_changes db (autoPause i now db)"
  unfolding autoPause_def by (rule quiet_rows) (simp add: row_change_defs)

lemma quiet_increment: "quiet_changes db (incrementConsecutiveFailures i now db)"
  unfolding incrementConsecutiveFailures_def by (rule quiet_rows) (simp add: row_change_defs)

lemma quiet_reset: "quiet_changes db (resetConsecutiveFailures i now db)"
  unfolding resetConsecutiveFailures_def by (rule quiet_rows) (simp add: row_change_defs)

lemma quiet_disable: "quiet_changes db (disableSettledOneShots i now db)"
  unfolding disableSettledOneShots_def by (rule quiet_rows) (simp add: row_change_defs)

lemma quiet_advance_next:
  assumes "\<And>a. a \<in> set (ad_automations db) \<Longrightarrow> au_id a = i \<Longrightarrow> au_schedule_once_at a = None"
  shows "quiet_changes db (fst (advanceNextRunAt i n now db))"
  unfolding advanceNextRunAt_def by (rule quiet_rows) (simp add: row_change_defs assms)

lemma quiet_edit:
  assumes "bindAutomationUpdate (au_id b) f now = Some g" and "editable b f"
    and "b \<in> set (ad_automations db)" and "distinct (map au_id (ad_automations db))"
  shows "quiet_changes db (fst (g db))"
proof -
  have g: "g = update_automations (live_automation (au_id b)) (\<lambda>a. a\<lparr>
        au_name := nullish (af_name f) (au_name a),
        au_instructions := nullish (af_instructions f) (au_instructions a),
        au_schedule_cron := nullish (af_schedule_cron f) (au_schedule_cron a),
        au_schedule_once_at := nullish (af_schedule_once_at f) (au_schedule_once_at a),
        au_schedule_tz := nullish (af_schedule_tz f) (au_schedule_tz a),
        au_harness := nullish (af_harness f) (au_harness a),
        au_model := nullish (af_model f) (au_model a),
        au_reasoning_effort := nullish (af_reasoning_effort f) (au_reasoning_effort a),
        au_next_run_at := updated_next_run f a,
        au_enabled := nullish (af_enabled f) (au_enabled a),
        au_max_concurrent_runs := nullish (af_max_concurrent_runs f) (au_max_concurrent_runs a),
        au_consecutive_failures := nullish (af_consecutive_failures f) (au_consecutive_failures a),
        au_max_retries := nullish (af_max_retries f) (au_max_retries a),
        au_event_type := nullish (af_event_type f) (au_event_type a),
        au_trigger_config := nullish (af_trigger_config f) (au_trigger_config a),
        au_trigger_auth_data := nullish (af_trigger_auth_data f) (au_trigger_auth_data a),
        au_updated_at := now\<rparr>)"
    using assms(1) by (simp add: bindAutomationUpdate_def split: if_splits)
  have "a = b" if "a \<in> set (ad_automations db)" "live_automation (au_id b) a" for a
    using that assms(3,4) by (simp add: live_automation_def distinct_map inj_on_def)
  then show ?thesis
    unfolding g using assms(2)
    by (intro quiet_rows)
      (cases "af_schedule_once_at f"; cases "af_next_run_at f"; cases "af_max_retries f"; cases "au_schedule_once_at b";
       fastforce simp: row_change_defs editable_def updated_next_run_def)
qed

lemma insert_runs_known:
  assumes "insert_runs i cs db = Inr db'" and "list_ex (\<lambda>v. iv_id v = i) (ad_invocations db)"
  shows "db' = db\<lparr>ad_runs := ad_runs db @ map (stored_run i) cs\<rparr> \<and> distinct (map rn_id cs)
    \<and> (\<forall>c \<in> set cs. rn_id c \<notin> rn_id ` set (ad_runs db))"
  using assms
proof (induction cs arbitrary: db)
  case (Cons c cs)
  let ?db = "db\<lparr>ad_runs := ad_runs db @ [stored_run i c]\<rparr>"
  have one: "insert_run i c db = Inr ?db" and new: "rn_id c \<notin> rn_id ` set (ad_runs db)"
    using Cons.prems
    by (auto simp: insert_run_def list_ex_iff same_run_def stored_run_def split: if_splits sum.splits)
  then have rest: "insert_runs i cs ?db = Inr db'" using Cons.prems(1) by simp
  have "list_ex (\<lambda>v. iv_id v = i) (ad_invocations ?db)" using Cons.prems(2) by simp
  from Cons.IH [OF rest this] new show ?case by (auto simp: stored_run_def)
qed simp

lemma insert_runs_unknown:
  "\<not> list_ex (\<lambda>v. iv_id v = i) (ad_invocations db) \<Longrightarrow> insert_runs i cs db = Inr db"
  by (induction cs) (simp_all add: insert_run_def)

lemma quiet_advance:
  assumes "\<And>a. a \<in> set (ad_automations db) \<Longrightarrow> au_id a = iv_automation_id v \<Longrightarrow> au_schedule_once_at a \<noteq> None
      \<Longrightarrow> sa_nextRunAt adv = None"
    and "list_ex (\<lambda>x. iv_id x = iv_id v) (ad_invocations db) \<Longrightarrow> slot_recorded db (iv_automation_id v) (sa_fromSlot adv)"
  shows "quiet_changes db (bindScheduleAdvance v adv g now db)"
  unfolding bindScheduleAdvance_def
proof (rule quiet_rows)
  fix a
  assume a: "a \<in> set (ad_automations db)"
    and p: "live_automation (iv_automation_id v) a \<and> au_next_run_at a = Some (sa_fromSlot adv)
      \<and> team_grants_current g db
      \<and> (au_schedule_once_at a = None \<or> list_ex (\<lambda>x. iv_id x = iv_id v) (ad_invocations db))"
  have i: "au_id a = iv_automation_id v" using p by (simp add: live_automation_def)
  show "row_change db a (a\<lparr>au_next_run_at := sa_nextRunAt adv, au_updated_at := now,
          au_enabled := (if au_schedule_once_at a \<noteq> None
              \<and> \<not> list_ex (\<lambda>r. rn_invocation_id r = iv_id v \<and> active_status (rn_status r)) (ad_runs db)
            then False else au_enabled a)\<rparr>)"
  proof (cases "au_schedule_once_at a")
    case None
    then show ?thesis by (simp add: row_change_defs)
  next
    case (Some t)
    then have "slot_recorded db (au_id a) (sa_fromSlot adv)" "sa_nextRunAt adv = None"
      using p assms a i by auto
    with Some p show ?thesis by (auto simp: row_change_defs)
  qed
qed

lemma quiet_advance_if:
  assumes "\<And>s a. adv = Some s \<Longrightarrow> a \<in> set (ad_automations db) \<Longrightarrow> au_id a = iv_automation_id v
      \<Longrightarrow> au_schedule_once_at a \<noteq> None \<Longrightarrow> sa_nextRunAt s = None"
    and "\<And>s. adv = Some s \<Longrightarrow> list_ex (\<lambda>x. iv_id x = iv_id v) (ad_invocations db)
      \<Longrightarrow> slot_recorded db (iv_automation_id v) (sa_fromSlot s)"
  shows "quiet_changes db (advance_if v adv g now db)"
  using assms by (cases adv) (auto simp: advance_if_def intro: quiet_advance)

text \<open>The advance a firing carries is for the slot it serves, and consumes a one-shot.\<close>

definition advance_fits :: "automation_db \<Rightarrow> automation_invocation \<Rightarrow> schedule_advance option \<Rightarrow> bool" where
  "advance_fits db v adv \<longleftrightarrow> (\<forall>s. adv = Some s \<longrightarrow> iv_source v = SourceSchedule \<and> iv_scheduled_at v = Some (sa_fromSlot s)
     \<and> (\<forall>a \<in> set (ad_automations db). au_id a = iv_automation_id v \<longrightarrow> au_schedule_once_at a \<noteq> None \<longrightarrow> sa_nextRunAt s = None))"

lemma changes_insert:
  assumes ins: "insertInvocationGuarded v cs (invocation_scope v) adv g now db = Inr (db', inserted)"
    and new: "iv_id v \<notin> iv_id ` set (ad_invocations db)" and children: "list_all (new_child v) cs"
    and v: "iv_failure_counted_at v = None" "iv_skip_reason v = None" and fits: "advance_fits db v adv"
  shows "inserted \<Longrightarrow> db_change db (admitted_db v cs db) \<and> quiet_changes (admitted_db v cs db) db'"
    and "\<not> inserted \<Longrightarrow> quiet_changes db db'"
proof -
  define admits where "admits \<longleftrightarrow> \<not> overlapPredicate (iv_automation_id v) (invocation_scope v) db
    \<and> team_grants_current g db \<and> scheduledInvocationGuard v db"
  define db1 where "db1 = (if admits then db\<lparr>ad_invocations := ad_invocations db @ [v]\<rparr> else db)"
  obtain db2 where db2: "insert_runs (iv_id v) cs db1 = Inr db2" and db': "db' = advance_if v adv g now db2"
    and ia: "inserted = admits" and nd: "admits \<Longrightarrow> \<not> list_ex (same_firing v) (ad_invocations db)"
    using ins unfolding insertInvocationGuarded_def admits_def [symmetric] Let_def db1_def [symmetric]
    by (auto split: if_splits sum.splits)
  have unknown: "\<not> list_ex (\<lambda>x. iv_id x = iv_id v) (ad_invocations db)"
    using new by (auto simp: list_ex_iff image_iff)
  show "quiet_changes db db'" if "\<not> inserted"
  proof -
    have "db' = advance_if v adv g now db"
      using that db2 db' ia insert_runs_unknown [OF unknown] by (simp add: db1_def)
    moreover have "quiet_changes db (advance_if v adv g now db)"
      using fits unknown by (intro quiet_advance_if) (auto simp: advance_fits_def)
    ultimately show ?thesis by simp
  qed
  show "db_change db (admitted_db v cs db) \<and> quiet_changes (admitted_db v cs db) db'" if "inserted"
  proof -
    have a: admits using that ia by simp
    have "list_ex (\<lambda>x. iv_id x = iv_id v) (ad_invocations db1)" using a by (simp add: db1_def)
    from insert_runs_known [OF db2 this] a have
      f: "db2 = admitted_db v cs db" "distinct (map rn_id cs)" "\<forall>c \<in> set cs. rn_id c \<notin> rn_id ` set (ad_runs db)"
      by (simp_all add: db1_def admitted_db_def)
    have "db_change db (admitted_db v cs db)"
      using a nd children v f(2,3) by (intro db_change.admitted) (simp_all add: admits_def)
    moreover have "quiet_changes (admitted_db v cs db) (advance_if v adv g now (admitted_db v cs db))"
      using fits by (intro quiet_advance_if) (auto simp: advance_fits_def admitted_db_def slot_recorded_def)
    ultimately show ?thesis using db' f(1) by simp
  qed
qed

text \<open>A firing without children: it is recorded, or its slot is taken.\<close>

definition recorded_or_not :: "automation_invocation \<Rightarrow> automation_db \<Rightarrow> automation_db \<Rightarrow> bool" where
  "recorded_or_not v db db1 \<longleftrightarrow> db1 = db \<or>
     (db1 = db\<lparr>ad_invocations := ad_invocations db @ [v]\<rparr> \<and> \<not> list_ex (same_firing v) (ad_invocations db))"

lemma childless_recorded: "recorded_or_not v db (fst (bindChildlessInvocation v db))"
  by (simp add: recorded_or_not_def bindChildlessInvocation_def)

lemma changes_skip:
  assumes "iv_id v \<notin> iv_id ` set (ad_invocations db)" and "advance_fits db v adv"
  shows "\<exists>db1. recorded_or_not v db db1 \<and> quiet_changes db1 (fst (insertSkippedInvocation v adv now db))"
proof -
  let ?db = "fst (bindChildlessInvocation v db)"
  have "quiet_changes ?db (advance_if v adv None now ?db)"
    using assms by (intro quiet_advance_if)
      (auto simp: bindChildlessInvocation_def advance_fits_def slot_recorded_def list_ex_iff image_iff split: if_splits)
  then show ?thesis
    using childless_recorded by (auto simp: insertSkippedInvocation_def case_prod_beta)
qed

lemma changes_denied: "\<exists>db1. recorded_or_not v db db1 \<and> quiet_changes db1 (fst (recordAuthorizationDenied v slot now db))"
proof -
  let ?db = "fst (bindChildlessInvocation v db)"
  have "fst (recordAuthorizationDenied v slot now db) = fst (update_automations
          (\<lambda>a. live_automation (iv_automation_id v) a \<and> au_enabled a \<and> au_next_run_at a = Some slot
             \<and> (au_schedule_once_at a = None \<or> au_schedule_once_at a = au_next_run_at a))
          (\<lambda>a. a\<lparr>au_enabled := False, au_next_run_at := None, au_updated_at := now\<rparr>) ?db)"
    by (simp add: recordAuthorizationDenied_def case_prod_beta)
  moreover have "quiet_changes ?db \<dots>" by (rule quiet_rows) (simp add: row_change_defs)
  ultimately show ?thesis using childless_recorded [of v db] by metis
qed

section \<open>The tables' invariant\<close>

definition firing_of_run :: "automation_db \<Rightarrow> automation_run \<Rightarrow> automation_invocation \<Rightarrow> bool" where
  "firing_of_run db r v \<longleftrightarrow> v \<in> set (ad_invocations db) \<and> iv_id v = rn_invocation_id r
     \<and> iv_automation_id v = rn_automation_id r"

definition tables_ok :: "automation_db \<Rightarrow> bool" where
  "tables_ok db \<longleftrightarrow> distinct (map au_id (ad_automations db)) \<and> distinct (map iv_id (ad_invocations db))
     \<and> distinct (map rn_id (ad_runs db))
     \<and> (\<forall>v \<in> set (ad_invocations db). \<forall>w \<in> set (ad_invocations db). same_firing v w \<longrightarrow> iv_id v = iv_id w)
     \<and> (\<forall>a \<in> set (ad_automations db). au_max_retries a \<le> MAX_AUTOMATION_RETRIES \<and> one_shot_ok db a)
     \<and> (\<forall>r \<in> set (ad_runs db). run_row_ok r \<and> rn_attempt r \<le> 1 + MAX_AUTOMATION_RETRIES
          \<and> (\<exists>v. firing_of_run db r v))"

lemma tables_okD:
  assumes "tables_ok db"
  shows "distinct (map au_id (ad_automations db))" "distinct (map iv_id (ad_invocations db))"
    "distinct (map rn_id (ad_runs db))"
    "\<And>v w. v \<in> set (ad_invocations db) \<Longrightarrow> w \<in> set (ad_invocations db) \<Longrightarrow> same_firing v w \<Longrightarrow> iv_id v = iv_id w"
    "\<And>a. a \<in> set (ad_automations db) \<Longrightarrow> au_max_retries a \<le> MAX_AUTOMATION_RETRIES"
    "\<And>a. a \<in> set (ad_automations db) \<Longrightarrow> one_shot_ok db a"
    "\<And>r. r \<in> set (ad_runs db) \<Longrightarrow> run_row_ok r"
    "\<And>r. r \<in> set (ad_runs db) \<Longrightarrow> rn_attempt r \<le> 1 + MAX_AUTOMATION_RETRIES"
    "\<And>r. r \<in> set (ad_runs db) \<Longrightarrow> \<exists>v. firing_of_run db r v"
  using assms unfolding tables_ok_def by blast+

lemma tables_okI:
  assumes "distinct (map au_id (ad_automations db))" "distinct (map iv_id (ad_invocations db))"
    "distinct (map rn_id (ad_runs db))"
    "\<And>v w. v \<in> set (ad_invocations db) \<Longrightarrow> w \<in> set (ad_invocations db) \<Longrightarrow> same_firing v w \<Longrightarrow> iv_id v = iv_id w"
    "\<And>a. a \<in> set (ad_automations db) \<Longrightarrow> au_max_retries a \<le> MAX_AUTOMATION_RETRIES \<and> one_shot_ok db a"
    "\<And>r. r \<in> set (ad_runs db) \<Longrightarrow> run_row_ok r \<and> rn_attempt r \<le> 1 + MAX_AUTOMATION_RETRIES \<and> (\<exists>v. firing_of_run db r v)"
  shows "tables_ok db"
  using assms unfolding tables_ok_def by blast

lemma retry_allowed_bound:
  assumes "tables_ok db" and "retry_allowed db r"
  shows "rn_attempt r \<le> MAX_AUTOMATION_RETRIES"
  using assms tables_okD(5) [OF assms(1)] by (auto simp: retry_allowed_def list_ex_iff intro: le_trans)

lemma one_shot_mono:
  assumes "one_shot_ok db a" and "\<And>i t. slot_recorded db i t \<Longrightarrow> slot_recorded db' i t"
  shows "one_shot_ok db' a"
  using assms unfolding one_shot_ok_def by blast

lemma one_shot_same: "ad_invocations db' = ad_invocations db \<Longrightarrow> one_shot_ok db' a = one_shot_ok db a"
  by (simp add: one_shot_ok_def slot_recorded_def)

lemma firing_of_run_same: "ad_invocations db' = ad_invocations db \<Longrightarrow> firing_of_run db' r = firing_of_run db r"
  by (simp add: fun_eq_iff firing_of_run_def)

lemma same_firing_sym: "same_firing v w = same_firing w v"
  by (simp add: same_firing_def) metis

lemma tables_ok_runs:
  assumes ok: "tables_ok db" and moved: "runs_moved db db'"
  shows "tables_ok db'"
proof -
  note d = tables_okD [OF ok]
  obtain f where f: "db' = db\<lparr>ad_runs := map f (ad_runs db)\<rparr>" "\<And>r. row_move db r (f r)"
    using moved by (auto simp: runs_moved_def)
  have ids: "rn_id (f r) = rn_id r" "rn_automation_id (f r) = rn_automation_id r"
    "rn_invocation_id (f r) = rn_invocation_id r" for r
    using f(2) [of r] by (simp_all add: row_move_def same_run_identity_def)
  have runs: "run_row_ok (f r)" "rn_attempt (f r) \<le> 1 + MAX_AUTOMATION_RETRIES" if "r \<in> set (ad_runs db)" for r
    using f(2) [of r] d(7,8) [OF that] retry_allowed_bound [OF ok, of r]
    by (auto simp: row_move_def status_move_def)
  show ?thesis
  proof (rule tables_okI)
    fix r
    assume "r \<in> set (ad_runs db')"
    then obtain q where q: "q \<in> set (ad_runs db)" "r = f q" using f(1) by auto
    then show "run_row_ok r \<and> rn_attempt r \<le> 1 + MAX_AUTOMATION_RETRIES \<and> (\<exists>v. firing_of_run db' r v)"
      using runs [OF q(1)] d(9) [OF q(1)] f(1) ids by (simp add: firing_of_run_def)
  next
    fix a assume "a \<in> set (ad_automations db')"
    then show "au_max_retries a \<le> MAX_AUTOMATION_RETRIES \<and> one_shot_ok db' a"
      using d(5,6) f(1) one_shot_same [of db' db] by simp
  qed (use d(1-4) f(1) ids in \<open>simp_all add: comp_def\<close>)
qed

lemma tables_ok_rows:
  assumes ok: "tables_ok db" and change: "\<And>a. a \<in> set (ad_automations db) \<Longrightarrow> p a \<Longrightarrow> row_change db a (f a)"
  shows "tables_ok (fst (update_automations p f db))"
proof -
  note d = tables_okD [OF ok]
  let ?f = "\<lambda>a. if p a then f a else a"
  have "map au_id (ad_automations (fst (update_automations p f db))) = map au_id (ad_automations db)"
    using change by (simp add: row_change_def update_automations_def sql_update_def)
  then have ids: "distinct (map au_id (ad_automations (fst (update_automations p f db))))"
    using d(1) by simp
  show ?thesis
  proof (rule tables_okI)
    fix a
    assume "a \<in> set (ad_automations (fst (update_automations p f db)))"
    then obtain b where b: "b \<in> set (ad_automations db)" "a = ?f b"
      by (auto simp: update_automations_def set_sql_update)
    have "au_max_retries a \<le> MAX_AUTOMATION_RETRIES \<and> one_shot_ok db a"
      using b(2) change [OF b(1)] d(5,6) [OF b(1)] by (auto simp: row_change_def)
    then show "au_max_retries a \<le> MAX_AUTOMATION_RETRIES \<and> one_shot_ok (fst (update_automations p f db)) a"
      using one_shot_same [of "fst (update_automations p f db)" db] by (simp add: update_automations_def)
  next
    fix r
    assume "r \<in> set (ad_runs (fst (update_automations p f db)))"
    then show "run_row_ok r \<and> rn_attempt r \<le> 1 + MAX_AUTOMATION_RETRIES
        \<and> (\<exists>v. firing_of_run (fst (update_automations p f db)) r v)"
      using d(7-9) firing_of_run_same [of "fst (update_automations p f db)" db] by (simp add: update_automations_def)
  qed (use d(2-4) ids in \<open>simp_all add: update_automations_def\<close>)
qed

lemma tables_ok_counted:
  assumes ok: "tables_ok db"
  shows "tables_ok (fst (tryMarkInvocationFailureCounted i now db))"
proof -
  note d = tables_okD [OF ok]
  define f :: "automation_invocation \<Rightarrow> automation_invocation" where "f v = (if iv_id v = i \<and> iv_failure_counted_at v = None
    then v\<lparr>iv_failure_counted_at := Some now, iv_updated_at := now\<rparr> else v)" for v
  let ?db = "fst (tryMarkInvocationFailureCounted i now db)"
  have db: "?db = db\<lparr>ad_invocations := map f (ad_invocations db)\<rparr>"
    by (simp add: tryMarkInvocationFailureCounted_def update_invocations_def sql_update_def f_def)
  have f: "iv_id (f v) = iv_id v" "iv_automation_id (f v) = iv_automation_id v" "iv_source (f v) = iv_source v"
    "iv_scheduled_at (f v) = iv_scheduled_at v" "same_firing (f v) (f w) = same_firing v w" for v w
    by (simp_all add: same_firing_def f_def)
  have slot: "slot_recorded ?db i t = slot_recorded db i t" for i t
    unfolding db slot_recorded_def by (simp add: f)
  have "\<exists>v. firing_of_run ?db r v" if "firing_of_run db r v" for r v
    using that unfolding db by (intro exI [of _ "f v"]) (simp add: firing_of_run_def f)
  then have runs: "\<exists>v. firing_of_run ?db r v" if "r \<in> set (ad_runs db)" for r
    using d(9) [OF that] by blast
  show ?thesis
  proof (rule tables_okI)
    fix v w
    assume "v \<in> set (ad_invocations ?db)" "w \<in> set (ad_invocations ?db)" "same_firing v w"
    then obtain v' w' where "v' \<in> set (ad_invocations db)" "v = f v'" "w' \<in> set (ad_invocations db)" "w = f w'"
      unfolding db by auto
    with \<open>same_firing v w\<close> d(4) [of v' w'] f(1,5) show "iv_id v = iv_id w" by metis
  next
    fix a assume "a \<in> set (ad_automations ?db)"
    then have a: "a \<in> set (ad_automations db)" by (simp add: db)
    have "one_shot_ok ?db a" by (rule one_shot_mono [OF d(6) [OF a]]) (simp add: slot)
    with d(5) [OF a] show "au_max_retries a \<le> MAX_AUTOMATION_RETRIES \<and> one_shot_ok ?db a" by simp
  next
    fix r assume "r \<in> set (ad_runs ?db)"
    then show "run_row_ok r \<and> rn_attempt r \<le> 1 + MAX_AUTOMATION_RETRIES \<and> (\<exists>v. firing_of_run ?db r v)"
      using d(7,8) runs by (simp add: db)
  qed (use d(1-3) f(1) in \<open>simp_all add: db comp_def\<close>)
qed

text \<open>A firing is put on record, with its runs.\<close>

lemma tables_ok_recorded:
  assumes ok: "tables_ok db" and new: "\<not> list_ex (same_firing v) (ad_invocations db)"
    and children: "\<And>c. c \<in> set cs \<Longrightarrow> new_child v c" "distinct (map rn_id cs)"
      "\<And>c. c \<in> set cs \<Longrightarrow> rn_id c \<notin> rn_id ` set (ad_runs db)"
  shows "tables_ok (admitted_db v cs db)"
proof -
  note d = tables_okD [OF ok]
  let ?db = "admitted_db v cs db"
  have other: "\<not> same_firing v w" "\<not> same_firing w v" if "w \<in> set (ad_invocations db)" for w
    using new that same_firing_sym [of v w] by (auto simp: list_ex_iff)
  then have ids: "iv_id v \<notin> iv_id ` set (ad_invocations db)" by (auto simp: same_firing_def)
  have child: "run_row_ok (stored_run (iv_id v) c) \<and> rn_attempt (stored_run (iv_id v) c) \<le> 1 + MAX_AUTOMATION_RETRIES
      \<and> firing_of_run ?db (stored_run (iv_id v) c) v" if "c \<in> set cs" for c
    using children(1) [OF that]
    by (auto simp: new_child_def run_row_ok_def stored_run_def terminal_status_def active_status_def
        firing_of_run_def admitted_db_def)
  show ?thesis
  proof (rule tables_okI)
    fix x y
    assume "x \<in> set (ad_invocations ?db)" "y \<in> set (ad_invocations ?db)" "same_firing x y"
    then show "iv_id x = iv_id y" using other d(4) by (auto simp: admitted_db_def)
  next
    fix a
    assume "a \<in> set (ad_automations ?db)"
    then have a: "a \<in> set (ad_automations db)" by (simp add: admitted_db_def)
    have "one_shot_ok ?db a"
      by (rule one_shot_mono [OF d(6) [OF a]]) (auto simp: slot_recorded_def admitted_db_def)
    with d(5) [OF a] show "au_max_retries a \<le> MAX_AUTOMATION_RETRIES \<and> one_shot_ok ?db a" by simp
  next
    fix r
    assume "r \<in> set (ad_runs ?db)"
    then consider "r \<in> set (ad_runs db)" | c where "c \<in> set cs" "r = stored_run (iv_id v) c"
      by (auto simp: admitted_db_def)
    then show "run_row_ok r \<and> rn_attempt r \<le> 1 + MAX_AUTOMATION_RETRIES \<and> (\<exists>v. firing_of_run ?db r v)"
    proof cases
      case 1
      then show ?thesis using d(7-9) by (fastforce simp: firing_of_run_def admitted_db_def)
    next
      case 2
      then show ?thesis using child by blast
    qed
  next
    have "map rn_id (ad_runs ?db) = map rn_id (ad_runs db) @ map rn_id cs"
      by (simp add: admitted_db_def stored_run_def)
    moreover have "set (map rn_id (ad_runs db)) \<inter> set (map rn_id cs) = {}"
      by (auto dest!: children(3)) (metis image_eqI)
    ultimately show "distinct (map rn_id (ad_runs ?db))"
      using d(3) children(2) by (simp only: distinct_append)
  qed (use d(1,2) ids in \<open>simp_all add: admitted_db_def\<close>)
qed

lemma tables_ok_created:
  assumes ok: "tables_ok db" and a: "createable a" "au_id a \<notin> au_id ` set (ad_automations db)"
  shows "tables_ok (db\<lparr>ad_automations := ad_automations db @ [a]\<rparr>)"
proof -
  note d = tables_okD [OF ok]
  let ?db = "db\<lparr>ad_automations := ad_automations db @ [a]\<rparr>"
  have "one_shot_ok ?db a" using a(1) by (simp add: createable_def one_shot_ok_def)
  then show ?thesis
    using d a firing_of_run_same [of ?db db] one_shot_same [of ?db db] by (intro tables_okI) (auto simp: createable_def)
qed

lemma tables_ok_quiet:
  assumes "quiet_change db db'" and ok: "tables_ok db"
  shows "tables_ok db'"
  using assms
proof cases
  case (receipts rs)
  then show ?thesis
    using tables_okD [OF ok] firing_of_run_same [of db' db] one_shot_same [of db' db] by (intro tables_okI) simp_all
next
  case (grants g)
  then show ?thesis
    using tables_okD [OF ok] firing_of_run_same [of db' db] one_shot_same [of db' db] by (intro tables_okI) simp_all
qed (auto intro: tables_ok_runs tables_ok_rows tables_ok_counted ok)

lemma tables_ok_change:
  assumes "db_change db db'" and ok: "tables_ok db"
  shows "tables_ok db'"
  using assms
proof cases
  case (childless v)
  then show ?thesis using tables_ok_recorded [OF ok, of v "[]"] by (simp add: admitted_db_def)
qed (auto intro: tables_ok_quiet tables_ok_recorded tables_ok_created ok simp: list_all_iff)

lemma tables_ok_changes: "db_changes db db' \<Longrightarrow> tables_ok db \<Longrightarrow> tables_ok db'"
  by (induction rule: rtranclp_induct) (auto intro: tables_ok_change)

end
