(* ===== verification/Automation_Safety.thy ===== *)
theory Automation_Safety
  imports Automation_Changes "HOL-Library.Multiset"
begin

text \<open>
  The invariant of the services' interleavings (\<open>automation_sound\<close>): a firing's task knows its
  automation's kind, the ids a task holds are held by no other, the row behind every launch in
  progress is where the launch thinks it is, and the log agrees with the tables.
\<close>

section \<open>What tasks know\<close>

text \<open>The kind of a schedule, recurring or one-shot, never changes, so a stale row still tells it.\<close>

definition kind_known :: "automation_db \<Rightarrow> automation_row \<Rightarrow> bool" where
  "kind_known db a \<longleftrightarrow> (\<exists>b \<in> set (ad_automations db). au_id b = au_id a
     \<and> (au_schedule_once_at b = None) = (au_schedule_once_at a = None))"

definition firing_ok :: "automation_db \<Rightarrow> firing \<Rightarrow> bool" where
  "firing_ok db f \<longleftrightarrow> kind_known db (fi_automation f)
     \<and> (fi_source f = SourceSchedule \<longrightarrow> fi_scheduledAt f \<noteq> None
         \<and> (\<exists>n. fi_advance f = Some n \<and> (n = None) = (au_schedule_once_at (fi_automation f) \<noteq> None)))
     \<and> (fi_source f \<noteq> SourceEvent \<longrightarrow> fi_concurrencyKey f = None)"

definition advance_of :: "firing \<Rightarrow> schedule_advance option \<Rightarrow> bool" where
  "advance_of f adv \<longleftrightarrow> adv = None \<or> adv = schedule_slot f"

definition insert_ok :: "firing \<Rightarrow> automation_invocation \<Rightarrow> automation_run list \<Rightarrow> bool" where
  "insert_ok f v cs \<longleftrightarrow> (\<exists>now i. v = firing_invocation f now i) \<and> list_all (new_child v) cs
     \<and> (\<forall>c \<in> set cs. rn_attempt c = 1)"

fun task_ok :: "automation_db \<Rightarrow> automation_task \<Rightarrow> bool" where
  "task_ok db (FiringOwner f) \<longleftrightarrow> firing_ok db f"
| "task_ok db (FiringKey f now) \<longleftrightarrow> firing_ok db f"
| "task_ok db (FiringOverlap f now) \<longleftrightarrow> firing_ok db f"
| "task_ok db (FiringAdmission f now) \<longleftrightarrow> firing_ok db f"
| "task_ok db (FiringInsert f v cs g now) \<longleftrightarrow> firing_ok db f \<and> insert_ok f v cs"
| "task_ok db (FiringDuplicate f) \<longleftrightarrow> firing_ok db f \<and> fi_source f = SourceSchedule"
| "task_ok db (FiringRaced f g) \<longleftrightarrow> firing_ok db f"
| "task_ok db (FiringSkip f reason adv) \<longleftrightarrow> firing_ok db f \<and> advance_of f adv"
| "task_ok db (FiringSkipInsert f reason adv) \<longleftrightarrow> firing_ok db f \<and> advance_of f adv"
| "task_ok db (FiringDenied f reason) \<longleftrightarrow> firing_ok db f"
| "task_ok db (FiringReceipt f i cs) \<longleftrightarrow> firing_ok db f"
| "task_ok db (TickDue rows n) \<longleftrightarrow> (\<forall>a \<in> set rows. kind_known db a \<and> au_next_run_at a \<noteq> None)"
| "task_ok db _ \<longleftrightarrow> True"

lemma kind_known_change:
  assumes "db_change db db'" and "kind_known db a"
  shows "kind_known db' a"
  using assms(1)
proof cases
  case quiet
  then show ?thesis
  proof cases
    case (rows p f)
    obtain b where b: "b \<in> set (ad_automations db)" "au_id b = au_id a"
        "(au_schedule_once_at b = None) = (au_schedule_once_at a = None)"
      using assms(2) by (auto simp: kind_known_def)
    have "(if p b then f b else b) \<in> set (ad_automations db')"
      using b(1) rows(1) by (simp add: update_automations_def set_sql_update)
    moreover have "au_id (if p b then f b else b) = au_id a"
      "(au_schedule_once_at (if p b then f b else b) = None) = (au_schedule_once_at a = None)"
      using b rows(2) [OF b(1)] by (simp_all add: row_change_def)
    ultimately show ?thesis unfolding kind_known_def by (intro bexI conjI)
  qed (use assms(2) in \<open>auto simp: kind_known_def runs_moved_def tryMarkInvocationFailureCounted_def update_invocations_def\<close>)
next
  case (created b)
  then show ?thesis using assms(2) unfolding kind_known_def by auto
qed (use assms(2) in \<open>simp_all add: kind_known_def admitted_db_def\<close>)

lemma kind_known_changes: "db_changes db db' \<Longrightarrow> kind_known db a \<Longrightarrow> kind_known db' a"
  by (induction rule: rtranclp_induct) (auto intro: kind_known_change)

lemma kind_known_once:
  assumes "kind_known db a" and "tables_ok db" and "b \<in> set (ad_automations db)" and "au_id b = au_id a"
  shows "(au_schedule_once_at b = None) = (au_schedule_once_at a = None)"
proof -
  obtain c where "c \<in> set (ad_automations db)" "au_id c = au_id a"
      "(au_schedule_once_at c = None) = (au_schedule_once_at a = None)"
    using assms(1) by (auto simp: kind_known_def)
  moreover have "c = b"
    using tables_okD(1) [OF assms(2)] assms(3,4) calculation(1,2) by (simp add: distinct_map inj_on_def)
  ultimately show ?thesis by simp
qed

lemma firing_ok_changes: "db_changes db db' \<Longrightarrow> firing_ok db f \<Longrightarrow> firing_ok db' f"
  using kind_known_changes unfolding firing_ok_def by blast

lemma task_ok_changes: "db_changes db db' \<Longrightarrow> task_ok db t \<Longrightarrow> task_ok db' t"
  by (cases t) (simp_all add: firing_ok_changes kind_known_changes)

lemma advance_fits_firing:
  assumes "firing_ok db f" and "tables_ok db" and "advance_of f adv"
    and "iv_automation_id v = au_id (fi_automation f)" "iv_source v = fi_source f" "iv_scheduled_at v = fi_scheduledAt f"
  shows "advance_fits db v adv"
  unfolding advance_fits_def
proof (intro allI impI)
  fix s
  assume "adv = Some s"
  then have slot: "schedule_slot f = Some s" using assms(3) by (auto simp: advance_of_def)
  then obtain t n where s: "s = \<lparr>sa_fromSlot = t, sa_nextRunAt = n\<rparr>" "fi_source f = SourceSchedule"
      "fi_scheduledAt f = Some t" "fi_advance f = Some n"
    by (auto simp: schedule_slot_def split: if_splits option.splits)
  have n: "(n = None) = (au_schedule_once_at (fi_automation f) \<noteq> None)"
    using assms(1) s(2,4) by (auto simp: firing_ok_def)
  have "sa_nextRunAt s = None"
    if "a \<in> set (ad_automations db)" "au_id a = iv_automation_id v" "au_schedule_once_at a \<noteq> None" for a
    using that kind_known_once [OF _ assms(2) that(1)] assms(1,4) n s(1) by (auto simp: firing_ok_def)
  then show "iv_source v = SourceSchedule \<and> iv_scheduled_at v = Some (sa_fromSlot s)
     \<and> (\<forall>a \<in> set (ad_automations db). au_id a = iv_automation_id v \<longrightarrow> au_schedule_once_at a \<noteq> None \<longrightarrow> sa_nextRunAt s = None)"
    using s assms(5,6) by simp
qed

section \<open>What a step does to the tables\<close>

definition db_ids :: "automation_db \<Rightarrow> string set" where
  "db_ids db = au_id ` set (ad_automations db) \<union> iv_id ` set (ad_invocations db) \<union> rn_id ` set (ad_runs db)"

text \<open>The ids a task works on: of a firing that has none yet on record, with its runs, and of the launches
  in progress.\<close>

fun held_ids :: "automation_task \<Rightarrow> string list" where
  "held_ids (FiringOwner f) = list_of_option (fi_invocationId f)"
| "held_ids (FiringKey f now) = list_of_option (fi_invocationId f)"
| "held_ids (FiringOverlap f now) = list_of_option (fi_invocationId f)"
| "held_ids (FiringAdmission f now) = list_of_option (fi_invocationId f)"
| "held_ids (FiringInsert f v cs g now) = iv_id v # map rn_id cs"
| "held_ids (FiringReceipt f i cs) = map rn_id cs"
| "held_ids (Launching g a v js) = map lj_id (filter (\<lambda>j. lj_stage j \<noteq> Launched) js)"
| "held_ids _ = []"

fun recorded_ids :: "automation_task \<Rightarrow> bool" where
  "recorded_ids (FiringReceipt f i cs) \<longleftrightarrow> True"
| "recorded_ids (Launching g a v js) \<longleftrightarrow> True"
| "recorded_ids _ \<longleftrightarrow> False"

definition step_effect :: "automation_task \<Rightarrow> string list \<Rightarrow> automation_db \<Rightarrow> automation_db \<Rightarrow> bool" where
  "step_effect t ids db db' \<longleftrightarrow>
     quiet_changes db db'
     \<or> (\<exists>v db1. iv_id v \<in> set ids \<and> iv_skip_reason v \<noteq> None \<and> recorded_or_not v db db1 \<and> quiet_changes db1 db')
     \<or> (\<exists>f v cs g now. t = FiringInsert f v cs g now \<and> db_change db (admitted_db v cs db)
         \<and> \<not> overlapPredicate (iv_automation_id v) (invocation_scope v) db \<and> iv_id v \<notin> db_ids db
         \<and> quiet_changes (admitted_db v cs db) db')"

lemma quiet_effect: "quiet_changes db db' \<Longrightarrow> step_effect t ids db db'"
  by (simp add: step_effect_def)

lemma effect_refl: "step_effect t ids db db"
  by (rule quiet_effect) simp

lemma effect_changes:
  assumes "step_effect t ids db db'"
  shows "db_changes db db'"
proof -
  have "db_changes db db1" if "recorded_or_not v db db1" "iv_skip_reason v \<noteq> None" for v db1
    using that by (auto simp: recorded_or_not_def intro: db_change.childless)
  with assms show ?thesis
    unfolding step_effect_def
    by (elim disjE exE conjE) (blast intro: changes_quiet rtranclp_trans converse_rtranclp_into_rtranclp)+
qed

lemma launch_step_runs:
  assumes "launch_step answer j db = Some (db', j', es)"
  shows "runs_moved db db'"
  using assms
proof (cases answer)
  case (AnswerClaim failure sessionId claimedAt deadlineMs reply)
  then show ?thesis
    using assms runs_moved_claim [of db "lj_id j" sessionId claimedAt "claimedAt + deadlineMs"]
    by (auto simp: launch_claim_def Let_def case_prod_beta runs_moved_refl split: if_splits option.splits)
next
  case (AnswerCreate failure deadlineMs reply)
  then show ?thesis using assms
    by (auto simp: launch_create_def runs_moved_refl split: launch_stage.splits option.splits
        intro!: runs_moved_if_executed runs_moved_deadline)
next
  case (AnswerMark reply)
  then show ?thesis using assms
    by (auto simp: launch_mark_def split: if_splits intro!: runs_moved_if_executed runs_moved_mark)
next
  case (AnswerRecord failedAt reply)
  then obtain e r where "lj_stage j = ToRecord e r" using assms by (auto split: launch_stage.splits)
  then show ?thesis
    using assms AnswerRecord runs_moved_record [of db e r failedAt reply "lj_run j"]
    by (auto simp: launch_record_def split: prod.splits)
qed (auto simp: runs_moved_refl split: launch_stage.splits)

lemma follows_db [simp]: "fst (follows db ts) = db"
  by (simp add: follows_def)

lemma runs_moved_effect: "runs_moved db db' \<Longrightarrow> step_effect t ids db db'"
  by (rule quiet_effect) (rule quiet_runs)

lemmas plain_steps = firing_key_def firing_overlap_def firing_raced_def firing_skip_def launching_over_def retryDue_def
  relaunch_admitted_def account_read_def account_threshold_def recover_orphaned_def recover_timed_out_def
  sweep_uncounted_def sweep_resets_def tick_overdue_def Let_def

lemma effect_owner: "step_effect t ids db (fst (firing_owner f identity reread now db))"
  by (auto simp: firing_owner_def resolveCanonicalOwner_def Let_def case_prod_beta effect_refl
      split: option.split intro: quiet_effect quiet_repair)

lemma effect_insert:
  assumes ok: "tables_ok db" and f: "firing_ok db f" "insert_ok f v cs" and new: "iv_id v \<notin> db_ids db"
  shows "step_effect (FiringInsert f v cs g now) ids db (fst (firing_insert f v cs g now db))"
proof -
  obtain t i where v: "v = firing_invocation f t i" using f(2) by (auto simp: insert_ok_def)
  have scope: "firing_scope f = invocation_scope v"
    by (simp add: v firing_scope_def invocation_scope_def firing_invocation_def split: option.split)
  have fits: "advance_fits db v (schedule_slot f)"
    by (rule advance_fits_firing [OF f(1) ok]) (simp_all add: advance_of_def v firing_invocation_def)
  show ?thesis
  proof (cases "insertInvocationGuarded v cs (firing_scope f) (schedule_slot f) g now db")
    case (Inl e)
    then show ?thesis by (simp add: firing_insert_def effect_refl)
  next
    case (Inr r)
    then obtain db' inserted where r: "r = (db', inserted)" by fastforce
    have n: "iv_id v \<notin> iv_id ` set (ad_invocations db)" using new by (auto simp: db_ids_def)
    have c: "list_all (new_child v) cs" using f(2) by (simp add: insert_ok_def)
    have s: "iv_failure_counted_at v = None" "iv_skip_reason v = None" by (simp_all add: v firing_invocation_def)
    note ins = changes_insert [OF Inr [unfolded r scope] n c s fits]
    have db': "fst (firing_insert f v cs g now db) = db'" using Inr r by (simp add: firing_insert_def)
    show ?thesis
    proof (cases inserted)
      case True
      moreover from this have "\<not> overlapPredicate (iv_automation_id v) (invocation_scope v) db"
        using Inr [unfolded r scope] by (auto simp: insertInvocationGuarded_def Let_def split: if_splits sum.splits)
      ultimately show ?thesis using ins(1) db' new unfolding step_effect_def by blast
    next
      case False
      then show ?thesis using ins(2) db' by (simp add: quiet_effect)
    qed
  qed
qed

lemma effect_skip:
  assumes ok: "tables_ok db" and f: "firing_ok db f" "advance_of f adv" and new: "newId \<notin> db_ids db"
  shows "step_effect t [newId] db (fst (firing_skip_insert f reason adv newId now db))"
proof -
  let ?v = "skip_invocation f reason now newId"
  have "advance_fits db ?v adv"
    by (rule advance_fits_firing [OF f(1) ok f(2)]) (simp_all add: skip_invocation_def)
  then obtain db1 where "recorded_or_not ?v db db1"
      "quiet_changes db1 (fst (insertSkippedInvocation ?v adv now db))"
    using changes_skip [of ?v db adv now] new by (auto simp: skip_invocation_def db_ids_def)
  moreover have "iv_id ?v \<in> set [newId]" "iv_skip_reason ?v \<noteq> None" by (simp_all add: skip_invocation_def)
  ultimately show ?thesis
    unfolding step_effect_def firing_skip_insert_def fst_conv by blast
qed

lemma effect_denied: "step_effect t (fst (snd (snd (firing_denied f why newId now db)))) db (fst (firing_denied f why newId now db))"
proof (cases "fi_scheduledAt f")
  case None
  then show ?thesis by (simp add: firing_denied_def effect_refl)
next
  case (Some slot)
  let ?v = "denied_invocation (au_id (fi_automation f)) slot why now newId"
  obtain db1 where "recorded_or_not ?v db db1"
      "quiet_changes db1 (fst (recordAuthorizationDenied ?v slot now db))"
    using changes_denied [of ?v db slot now] by blast
  moreover have "iv_id ?v \<in> set [newId]" "iv_skip_reason ?v \<noteq> None" by (simp_all add: denied_invocation_def)
  ultimately show ?thesis using Some
    unfolding step_effect_def by (auto simp: firing_denied_def)
qed

lemma account_mark_db: "fst (account_mark a v now db) = fst (tryMarkInvocationFailureCounted v now db)"
  by (simp add: account_mark_def case_prod_beta)

lemma complete_update_moved: "runs_moved db (fst (complete_update r success message now db))"
proof -
  have "runs_moved db (fst (updateRun i (failed_fields m now) db))"
    "runs_moved db (fst (updateRun i (completed_fields now) db))" for i m
    by (rule runs_moved_fields, blast)+
  then show ?thesis by (simp add: complete_update_def case_prod_beta)
qed

lemma relaunch_claim_db:
  "fst (relaunch_claim run e g now db) = fst (claimRetry run now (if e = None then g else None) db)"
  by (simp add: relaunch_claim_def split: prod.split option.split)

lemma task_step_effect:
  assumes step: "task_step t r w" and ok: "tables_ok (aw_db w)" and t: "task_ok (aw_db w) t"
    and known: "db_ids (aw_db w) \<subseteq> set (aw_ids w)"
    and pending: "\<not> recorded_ids t \<Longrightarrow> set (held_ids t) \<inter> db_ids (aw_db w) = {}"
  shows "step_effect t (fst (snd (snd r))) (aw_db w) (fst r)"
  using step
proof cases
  case (insert f v cs g now)
  then show ?thesis using effect_insert [OF ok] t pending by auto
next
  case (skip_insert newId f reason adv now)
  then have "newId \<notin> db_ids (aw_db w)" using known by (auto simp: fresh_ids_def)
  then show ?thesis using skip_insert effect_skip [OF ok] t by (simp add: firing_skip_insert_def)
next
  case (denied newId f why now)
  then show ?thesis using effect_denied by simp
next
  case (owner f reread identity now)
  then show ?thesis using effect_owner by simp
next
  case (duplicate f now)
  then have k: "kind_known (aw_db w) (fi_automation f)"
    and s: "\<And>n. fi_advance f = Some (Some n) \<Longrightarrow> au_schedule_once_at (fi_automation f) = None"
    using t by (auto simp: firing_ok_def)
  have "quiet_changes (aw_db w) (fst (firing_duplicate f now (aw_db w)))"
    using kind_known_once [OF k ok] s
    by (auto simp: firing_duplicate_def nullish_def split: option.split intro!: quiet_advance_next)
  then show ?thesis using duplicate by (simp add: quiet_effect)
next
  case (receipt f i cs now runs)
  have "quiet_changes db (nullish (acceptFollowUpReceipt a k c i now db) db)" for db a k c
    by (auto simp: acceptFollowUpReceipt_def update_receipts_def nullish_def intro: quiet_change.receipts split: if_splits)
  then show ?thesis using receipt by (simp add: firing_receipt_def quiet_effect)
next
  case (launching g a v js k answer)
  then obtain j db' es where "launch_step answer (js ! k) (aw_db w) = Some (db', j, es)" "fst r = db'"
    by (auto simp: launching_step_def split: if_splits)
  then show ?thesis using launch_step_runs by (blast intro: runs_moved_effect)
next
  case (account_mark a v now)
  then show ?thesis by (auto simp: account_mark_db intro: quiet_effect quiet_change.counted)
next
  case (complete_update run success message now)
  then show ?thesis by (simp add: runs_moved_effect complete_update_moved)
next
  case (relaunch run e g now)
  then show ?thesis by (simp add: relaunch_claim_db runs_moved_effect runs_moved_claim_retry)
next
  case (withdraw run now)
  then show ?thesis by (simp add: withdraw_run_def case_prod_beta runs_moved_effect runs_moved_withdraw)
next
  case (fail_orphaned now rs ts runs)
  then show ?thesis by (simp add: fail_orphaned_def effect_refl runs_moved_effect runs_moved_orphans)
next
  case (fail_timed_out now rs ts deadlineMs runs)
  then show ?thesis by (simp add: fail_timed_out_def effect_refl runs_moved_effect runs_moved_overdue)
next
  case (complete_mark run success message)
  then show ?thesis by (simp add: complete_mark_def runs_moved_effect runs_moved_mark)
next
  case (complete_correct run now)
  then show ?thesis by (simp add: complete_correct_def runs_moved_effect runs_moved_timed_out)
next
  case (admission newId childIds answer f now)
  then show ?thesis by (simp add: firing_admission_def Let_def effect_refl split: admission_answer.split)
next
  case (tick_due rows launched cron previous targets)
  then show ?thesis by (simp add: tick_due_def Let_def effect_refl split: list.split)
qed (simp_all add: plain_steps effect_refl account_one_shot_def account_increment_def account_pause_def account_reset_def
      final_sweep_def quiet_effect quiet_disable quiet_increment quiet_auto_pause quiet_reset)

section \<open>The tasks that follow\<close>

lemma follows_tasks [simp]: "fst (snd (follows db ts)) = ts" "fst (snd (snd (follows db ts))) = []" "snd (snd (snd (follows db ts))) = []"
  by (simp_all add: follows_def)

lemma known_self: "a \<in> set (ad_automations db) \<Longrightarrow> kind_known db a"
  unfolding kind_known_def by blast

lemma resolved_row:
  "snd (resolveCanonicalOwner identity reread a db) = a
    \<or> (\<exists>u. snd (resolveCanonicalOwner identity reread a db) = a\<lparr>au_user_id := u\<rparr>)
    \<or> reread = Some (snd (resolveCanonicalOwner identity reread a db))"
  by (cases identity; cases reread) (auto simp: resolveCanonicalOwner_def case_prod_beta)

lemma resolved_known:
  assumes "none_or (\<lambda>b. au_id b = au_id a
      \<and> (au_schedule_once_at b = None) = (au_schedule_once_at a = None)) reread"
  shows "au_id (snd (resolveCanonicalOwner identity reread a db)) = au_id a
    \<and> (au_schedule_once_at (snd (resolveCanonicalOwner identity reread a db)) = None) = (au_schedule_once_at a = None)"
  using resolved_row [of identity reread a db]
proof (elim disjE exE)
  assume "reread = Some (snd (resolveCanonicalOwner identity reread a db))"
  with assms show ?thesis unfolding none_or_iff by blast
qed simp_all

lemma child_makers_cases:
  assumes "mk \<in> set (child_makers now rs es)"
  obtains "mk = (\<lambda>c. c)" | q where "mk = repository_child now q" | e where "mk = environment_child e"
proof -
  let ?ms = "map (repository_child now) rs @ map environment_child es"
  have "child_makers now rs es = (if ?ms = [] then [\<lambda>c. c] else ?ms)"
    by (cases ?ms) (simp_all add: child_makers_def)
  then have "mk \<in> {\<lambda>c. c} \<union> set ?ms" using assms by (auto split: if_splits)
  then show thesis using that by auto
qed

lemma child_new:
  assumes "(i, mk) \<in> set (zip ids (child_makers now rs es))"
  shows "new_child (firing_invocation f now v) (mk (child_base f now v i))
    \<and> rn_attempt (mk (child_base f now v i)) = 1 \<and> rn_id (mk (child_base f now v i)) = i"
  using set_zip_rightD [OF assms]
  by (cases rule: child_makers_cases)
    (simp_all add: new_child_def firing_invocation_def child_base_def repository_child_def environment_child_def)

lemma admission_insert_ok: "insert_ok f (firing_invocation f now v) (firing_children f now v ids rs es)"
  unfolding insert_ok_def firing_children_def
  by (auto simp: list_all_iff dest!: child_new)

lemma denied_ok: "firing_ok db f \<Longrightarrow> \<forall>t \<in> set (denied f reason). task_ok db t"
  by (simp add: denied_def)

lemma overlap_skip_ok: "firing_ok db f \<Longrightarrow> \<forall>t \<in> set (recordOverlapSkip f adv). task_ok db t"
  by (simp add: recordOverlapSkip_def advance_of_def)

lemma firing_ok_owner:
  assumes "firing_ok db f" and "none_or (\<lambda>a. au_id a = au_id (fi_automation f)
          \<and> (au_schedule_once_at a = None) = (au_schedule_once_at (fi_automation f) = None)) reread"
  shows "firing_ok db (f\<lparr>fi_automation := snd (resolveCanonicalOwner identity reread (fi_automation f) db)\<rparr>)"
  using resolved_known [OF assms(2), of identity db] assms(1) by (simp add: firing_ok_def kind_known_def)

lemma task_step_tasks:
  assumes step: "task_step t r w" and t: "task_ok (aw_db w) t"
  shows "\<forall>t' \<in> set (fst (snd r)). task_ok (aw_db w) t'"
  using step
proof cases
  case (owner f reread identity now)
  have "firing_ok (aw_db w) (f\<lparr>fi_automation := snd (resolveCanonicalOwner identity reread (fi_automation f) (aw_db w))\<rparr>)"
    by (rule firing_ok_owner [OF _ owner(3)]) (use t owner(1) in simp)
  then show ?thesis using owner(2) by (simp add: firing_owner_def Let_def case_prod_beta denied_def)
next
  case (admission newId childIds answer f now)
  then show ?thesis using t admission_insert_ok
    by (auto simp: firing_admission_def Let_def denied_ok split: admission_answer.split)
next
  case (insert f v cs g now)
  then show ?thesis using t
    by (auto simp: firing_insert_def firing_launch_def split: sum.split)
next
  case (launching g a v js k answer)
  then show ?thesis by (auto simp: launching_step_def split: if_splits)
next
  case (tick_overdue now relaunched)
  then show ?thesis
    by (auto simp: tick_overdue_def getOverdueAutomations_def overdue_def dest!: in_set_takeD intro: known_self)
next
  case (tick_due rows launched cron previous targets)
  then show ?thesis using t
    by (auto simp: tick_due_def Let_def firing_ok_def tick_firing_def split: list.split)
next
  case (relaunch run e g now)
  then show ?thesis by (auto simp: relaunch_claim_def split: prod.split option.split)
qed (use t in \<open>auto simp: firing_key_def firing_overlap_def firing_duplicate_def firing_raced_def firing_skip_def
      firing_skip_insert_def firing_denied_def firing_receipt_def firing_launch_def launching_over_def retryDue_def
      relaunch_admitted_def withdraw_run_def account_read_def account_one_shot_def account_decided_def account_mark_def
      account_increment_def account_threshold_def account_pause_def account_reset_def complete_mark_def
      complete_update_def complete_correct_def recover_orphaned_def recover_timed_out_def fail_orphaned_def
      fail_timed_out_def affected_invocations_def final_sweep_def sweep_uncounted_def sweep_resets_def
      overlap_skip_ok advance_of_def Let_def case_prod_beta recordOverlapSkip_def split: option.split\<close>)

section \<open>What a step does to a run\<close>

definition run_at :: "automation_db \<Rightarrow> string \<Rightarrow> automation_run option" where
  "run_at db i = find (\<lambda>r. rn_id r = i) (ad_runs db)"

text \<open>Tasks other than launches leave a run as it is, or end it.\<close>

definition calm :: "automation_run \<Rightarrow> automation_run \<Rightarrow> bool" where
  "calm r q \<longleftrightarrow> rn_id q = rn_id r \<and> rn_attempt q = rn_attempt r
     \<and> (rn_status q = rn_status r \<or> terminal_status (rn_status q))"

definition runs_calm :: "automation_db \<Rightarrow> automation_db \<Rightarrow> bool" where
  "runs_calm db db' \<longleftrightarrow> (\<exists>f. ad_runs db' = map f (ad_runs db) \<and> (\<forall>r. calm r (f r)))"

definition run_calm :: "automation_run option \<Rightarrow> automation_run option \<Rightarrow> bool" where
  "run_calm x y \<longleftrightarrow> (case x of None \<Rightarrow> y = None | Some r \<Rightarrow> some_holds (calm r) y)"

lemma calm_refl [simp]: "calm r r"
  by (simp add: calm_def)

lemma runs_calm_same: "ad_runs db' = ad_runs db \<Longrightarrow> runs_calm db db'"
  unfolding runs_calm_def by (rule exI [of _ "\<lambda>r. r"]) simp

lemma runs_calm_refl [simp]: "runs_calm db db"
  by (rule runs_calm_same) simp

lemma runs_calm_update:
  assumes "\<And>r. p r \<Longrightarrow> calm r (f r)"
  shows "runs_calm db (fst (update_runs p f db))"
  unfolding runs_calm_def update_runs_def sql_update_def
  using assms by (intro exI [of _ "\<lambda>r. if p r then f r else r"]) simp

lemma find_map_id:
  assumes "\<And>r. rn_id (f r) = rn_id r"
  shows "find (\<lambda>r. rn_id r = i) (map f rs) = map_option f (find (\<lambda>r. rn_id r = i) rs)"
  using assms by (induction rs) auto

lemma runs_calm_at:
  assumes "runs_calm db db'"
  shows "run_calm (run_at db i) (run_at db' i)"
proof -
  obtain f where f: "ad_runs db' = map f (ad_runs db)" "\<And>r. calm r (f r)"
    using assms by (auto simp: runs_calm_def)
  then have "run_at db' i = map_option f (run_at db i)"
    unfolding run_at_def f(1) by (intro find_map_id) (simp add: calm_def)
  with f(2) show ?thesis by (simp add: run_calm_def split: option.split)
qed

lemma rows_runs [simp]: "ad_runs (fst (update_automations p f db)) = ad_runs db"
  by (simp add: update_automations_def)

lemma calm_ends: "terminal_status (rn_status q) \<Longrightarrow> rn_id q = rn_id r \<Longrightarrow> rn_attempt q = rn_attempt r \<Longrightarrow> calm r q"
  by (simp add: calm_def)

lemma ended [simp]: "terminal_status RunFailed" "terminal_status RunCompleted" "terminal_status RunUnauthorized"
  "terminal_status RunSkipped" "\<not> terminal_status RunStarting" "\<not> terminal_status RunRunning" "\<not> terminal_status RunRetrying"
  by (simp_all add: terminal_status_def active_status_def)

lemma calm_mark: "runs_calm db (fst (markRunFirstPromptQueued i db))"
  unfolding markRunFirstPromptQueued_def by (rule runs_calm_update) (simp add: calm_def)

lemma calm_deadline: "runs_calm db (fst (setRunExecutionDeadline i d db))"
  unfolding setRunExecutionDeadline_def by (rule runs_calm_update) (simp add: calm_def)

lemma calm_timed_out: "runs_calm db (fst (completeTimedOutRun i t db))"
  unfolding completeTimedOutRun_def by (rule runs_calm_update) (simp add: calm_def)

lemma calm_failed: "runs_calm db (fst (updateRun i (failed_fields m now) db))"
  "runs_calm db (fst (updateRun i (denied_fields m now) db))" "runs_calm db (fst (updateRun i (completed_fields now) db))"
  by (auto simp: updateRun_def calm_def failed_fields_def denied_fields_def completed_fields_def intro!: runs_calm_update)

lemma calm_bulk: "runs_calm db (bulkFailRuns ids reason t p db)"
  by (auto simp: bulkFailRuns_def calm_def intro!: runs_calm_update)

lemma calm_withdraw: "runs_calm db (fst (failWithdrawnRetry i t db))"
  unfolding failWithdrawnRetry_def by (rule runs_calm_update) (simp add: calm_def)

lemma calm_if_executed: "runs_calm db (fst (f db)) \<Longrightarrow> runs_calm db (if_executed reply f db)"
  by (simp add: if_executed_def)

lemma calm_complete: "runs_calm db (fst (complete_update r success message now db))"
  using calm_failed by (simp add: complete_update_def case_prod_beta)

text \<open>The events that concern a run's launches.\<close>

definition run_events :: "automation_events \<Rightarrow> automation_events" where
  "run_events es = filter (\<lambda>e. (\<exists>i s. e = SessionClaimed i s) \<or> (\<exists>i s. e = FirstPromptSent i s)) es"

fun quiet_task :: "automation_task \<Rightarrow> bool" where
  "quiet_task (FiringInsert f v cs g now) \<longleftrightarrow> False"
| "quiet_task (Launching g a v js) \<longleftrightarrow> False"
| "quiet_task (RelaunchAdmitted run e g) \<longleftrightarrow> False"
| "quiet_task _ \<longleftrightarrow> True"

lemma owner_runs [simp]: "ad_runs (fst (resolveCanonicalOwner identity reread a db)) = ad_runs db"
  by (simp add: resolveCanonicalOwner_def repair_owner_def case_prod_beta split: option.split)

lemma accept_runs [simp]: "ad_runs (nullish (acceptFollowUpReceipt a k c i now db) db) = ad_runs db"
  by (simp add: acceptFollowUpReceipt_def update_receipts_def nullish_def)

lemma advance_runs [simp]: "ad_runs (advance_if v adv g now db) = ad_runs db"
  by (simp add: advance_if_def bindScheduleAdvance_def split: option.split)

lemma childless_runs [simp]: "ad_runs (fst (bindChildlessInvocation v db)) = ad_runs db"
  by (simp add: bindChildlessInvocation_def)

lemma quiet_step_calm:
  assumes "task_step t r w" and "quiet_task t"
  shows "runs_calm (aw_db w) (fst r)"
  using assms(1)
proof cases
  case (duplicate f now)
  then show ?thesis
    by (intro runs_calm_same) (simp add: firing_duplicate_def advanceNextRunAt_def split: option.split)
next
  case (denied newId f why now)
  then show ?thesis
    by (intro runs_calm_same)
      (simp add: firing_denied_def recordAuthorizationDenied_def case_prod_beta split: option.split)
next
  case (account_mark a v now)
  then show ?thesis
    by (intro runs_calm_same) (simp add: account_mark_db tryMarkInvocationFailureCounted_def update_invocations_def)
qed (use assms(2) in \<open>auto simp: plain_steps firing_owner_def firing_admission_def case_prod_beta
      firing_skip_insert_def insertSkippedInvocation_def
      firing_receipt_def withdraw_run_def account_one_shot_def disableSettledOneShots_def account_increment_def
      incrementConsecutiveFailures_def account_pause_def autoPause_def account_reset_def resetConsecutiveFailures_def
      complete_mark_def complete_correct_def fail_orphaned_def bulkFailStartingRuns_def fail_timed_out_def
      bulkFailRunningRuns_def final_sweep_def tick_due_def calm_mark calm_timed_out calm_bulk calm_withdraw calm_complete
      split: admission_answer.split list.split intro!: runs_calm_same\<close>)

lemma run_events_simps [simp]:
  "run_events [] = []" "run_events [Struck a v] = []" "run_events [AutoPaused a] = []"
  "run_events [FiringAdmitted a v] = []" "run_events [BoundSet a m] = []"
  by (simp_all add: run_events_def)

lemma quiet_step_events:
  assumes "task_step t r w" and "quiet_task t"
  shows "run_events (snd (snd (snd r))) = []"
  using assms(1)
  by cases (use assms(2) in \<open>simp_all add: plain_steps firing_owner_def firing_admission_def case_prod_beta
      firing_skip_insert_def firing_duplicate_def firing_denied_def firing_receipt_def withdraw_run_def account_one_shot_def
      account_mark_def account_increment_def account_pause_def account_reset_def complete_mark_def complete_update_def
      complete_correct_def fail_orphaned_def fail_timed_out_def final_sweep_def tick_due_def
      split: admission_answer.split list.split option.split\<close>)

section \<open>Held ids\<close>

definition held_all :: "automation_task list \<Rightarrow> string list" where
  "held_all ts = concat (map held_ids ts)"

lemma held_all_simps [simp]:
  "held_all [] = []" "held_all (t # ts) = held_ids t @ held_all ts" "held_all (xs @ ys) = held_all xs @ held_all ys"
  by (simp_all add: held_all_def)

lemma held_all_none: "(\<And>t. t \<in> set ts \<Longrightarrow> held_ids t = []) \<Longrightarrow> held_all ts = []"
  by (simp add: held_all_def)

lemma held_all_map [simp]: "(\<And>x. held_ids (g x) = []) \<Longrightarrow> held_all (map g xs) = []"
  by (rule held_all_none) auto

lemma held_all_remove:
  assumes "t \<in> set ts"
  shows "mset (held_all ts) = mset (held_ids t) + mset (held_all (remove1 t ts))"
  using assms by (induction ts) auto

lemma held_remove:
  assumes "t \<in> set ts" and "distinct (held_all ts)"
  shows "distinct (held_ids t)" "distinct (held_all (remove1 t ts))"
    "set (held_ids t) \<inter> set (held_all (remove1 t ts)) = {}"
    "set (held_all ts) = set (held_ids t) \<union> set (held_all (remove1 t ts))"
proof -
  have m: "mset (held_all ts) = mset (held_ids t @ held_all (remove1 t ts))"
    using held_all_remove [OF assms(1)] by simp
  then have "distinct (held_ids t @ held_all (remove1 t ts))"
    using assms(2) mset_eq_imp_distinct_iff by blast
  then show "distinct (held_ids t)" "distinct (held_all (remove1 t ts))"
    "set (held_ids t) \<inter> set (held_all (remove1 t ts)) = {}" by auto
  show "set (held_all ts) = set (held_ids t) \<union> set (held_all (remove1 t ts))"
    using mset_eq_setD [OF m] by simp
qed

definition hold_on :: "string list \<Rightarrow> string set \<Rightarrow> automation_task list \<Rightarrow> bool" where
  "hold_on hs new ts \<longleftrightarrow> set (held_all ts) \<subseteq> set hs \<union> new \<and> (distinct hs \<longrightarrow> distinct (held_all ts))"

lemma hold_on_none: "held_all ts = [] \<Longrightarrow> hold_on hs new ts"
  by (simp add: hold_on_def)

lemma hold_on_same: "held_all ts = hs \<Longrightarrow> hold_on hs new ts"
  by (simp add: hold_on_def)

lemma denied_held [simp]: "held_all (denied f reason) = []"
  by (simp add: denied_def)

lemma overlap_skip_held [simp]: "held_all (recordOverlapSkip f adv) = []"
  by (simp add: recordOverlapSkip_def)

lemma decided_held [simp]: "held_all (account_decided a v agg) = []"
  by (simp add: account_decided_def)

lemma affected_held [simp]: "held_all (affected_invocations rs) = []"
  by (rule held_all_none) (auto simp: affected_invocations_def)

lemma launch_jobs_held: "map lj_id (filter (\<lambda>j. lj_stage j \<noteq> Launched) (launch_jobs f cs))
    = map rn_id (filter (\<lambda>c. rn_status c = RunStarting) cs)"
  by (induction cs) (auto simp: launch_jobs_def lj_id_def)

lemma firing_launch_held: "hold_on (map rn_id cs) new [firing_launch f i cs]"
  by (auto simp: hold_on_def firing_launch_def launch_jobs_held distinct_map_filter)

lemma firing_children_ids:
  "map rn_id (firing_children f now v ids rs es)
    = map fst (zip ids (child_makers now (map (check_identity (fi_eventRepositoryId f)) rs) es))"
  unfolding firing_children_def map_map using child_new by (intro map_cong) auto

lemma map_fst_zip_take': "map fst (zip xs ys) = take (length ys) xs"
  by (simp add: map_fst_zip_take min_def)

lemma admission_held:
  assumes "fresh_ids (newId # childIds) w" and "set (held_ids (FiringAdmission f now)) \<subseteq> set (aw_ids w)"
  shows "hold_on (held_ids (FiringAdmission f now)) (set (newId # childIds))
    (fst (snd (firing_admission f now answer newId childIds db)))"
proof (cases answer)
  case (AdmissionDenied reason)
  then show ?thesis by (simp add: firing_admission_def hold_on_none)
next
  case (AdmissionGranted rs es g)
  have d: "distinct (newId # childIds)" "\<And>i. i \<in> set (newId # childIds) \<Longrightarrow> i \<notin> set (aw_ids w)"
    using assms(1) by (auto simp: fresh_ids_def list_all_iff)
  have "nullish (fi_invocationId f) newId \<notin> set childIds"
    using d assms(2) by (cases "fi_invocationId f") (auto simp: list_of_option_def)
  then show ?thesis
    using AdmissionGranted d(1) assms(2)
    by (cases "fi_invocationId f")
      (auto simp: firing_admission_def Let_def hold_on_def firing_invocation_def firing_children_ids
        map_fst_zip_take' list_of_option_def dest: in_set_takeD)
qed

lemma step_held_quiet:
  assumes step: "task_step t r w" and q: "quiet_task t" and known: "set (held_ids t) \<subseteq> set (aw_ids w)"
  shows "hold_on (held_ids t) (set (fst (snd (snd r)))) (fst (snd r))"
  using step
proof cases
  case (owner f reread identity now)
  then show ?thesis
    by (simp add: firing_owner_def case_prod_beta Let_def hold_on_none hold_on_same)
next
  case (admission newId childIds answer f now)
  then have "fst (snd (snd r)) = newId # childIds \<or> held_all (fst (snd r)) = []"
    by (auto simp: firing_admission_def Let_def split: admission_answer.split)
  then show ?thesis
    using admission_held [OF admission(3), of f now answer "aw_db w"] known admission(1,2) by (auto simp: hold_on_none)
next
  case (receipt f i cs now runs)
  then show ?thesis using firing_launch_held by (simp add: firing_receipt_def)
next
  case (key f now)
  then show ?thesis by (simp add: firing_key_def hold_on_none hold_on_same)
next
  case (overlap f now)
  then show ?thesis by (simp add: firing_overlap_def hold_on_none hold_on_same)
qed (use q in \<open>simp_all add: hold_on_none case_prod_unfold plain_steps firing_duplicate_def firing_denied_def firing_skip_insert_def withdraw_run_def
      account_one_shot_def account_mark_def account_increment_def account_pause_def account_reset_def complete_mark_def
      complete_update_def complete_correct_def fail_orphaned_def fail_timed_out_def final_sweep_def tick_due_def
      tick_firing_def list_of_option_def case_prod_beta
      split: list.split option.split\<close>)

section \<open>Launches and their rows\<close>

definition claims_of :: "string \<Rightarrow> automation_events \<Rightarrow> nat" where
  "claims_of i es = sql_count (\<lambda>e. case e of SessionClaimed x s \<Rightarrow> x = i | _ \<Rightarrow> False) es"

definition prompts_of :: "string \<Rightarrow> automation_events \<Rightarrow> nat" where
  "prompts_of i es = sql_count (\<lambda>e. case e of FirstPromptSent x s \<Rightarrow> x = i | _ \<Rightarrow> False) es"

definition run_log_ok :: "automation_db \<Rightarrow> automation_events \<Rightarrow> string \<Rightarrow> bool" where
  "run_log_ok db log i \<longleftrightarrow> (case run_at db i of
       None \<Rightarrow> claims_of i log = 0 \<and> prompts_of i log = 0
     | Some r \<Rightarrow> claims_of i log + (if rn_status r = RunStarting then 1 else 0) \<le> rn_attempt r
         \<and> prompts_of i log \<le> 1
         \<and> (0 < prompts_of i log \<longrightarrow> rn_status r \<noteq> RunStarting \<and> rn_status r \<noteq> RunRetrying))"

fun claimed_stage :: "launch_stage \<Rightarrow> bool" where
  "claimed_stage (ToCreate s c) \<longleftrightarrow> True"
| "claimed_stage (ToInitialize s) \<longleftrightarrow> True"
| "claimed_stage (ToPrompt s) \<longleftrightarrow> True"
| "claimed_stage ToMark \<longleftrightarrow> True"
| "claimed_stage _ \<longleftrightarrow> False"

fun before_prompt :: "launch_stage \<Rightarrow> bool" where
  "before_prompt ToMark \<longleftrightarrow> False"
| "before_prompt Launched \<longleftrightarrow> False"
| "before_prompt (ToRecord e retryable) \<longleftrightarrow> retryable"
| "before_prompt _ \<longleftrightarrow> True"

definition job_ok :: "automation_db \<Rightarrow> automation_events \<Rightarrow> launch_job \<Rightarrow> bool" where
  "job_ok db log j \<longleftrightarrow> (\<exists>r. run_at db (lj_id j) = Some r \<and> rn_status r \<noteq> RunRetrying
     \<and> (claimed_stage (lj_stage j) \<longrightarrow> rn_status r \<noteq> RunStarting))
     \<and> (before_prompt (lj_stage j) \<longrightarrow> prompts_of (lj_id j) log = 0)"

fun launch_ok :: "automation_db \<Rightarrow> automation_events \<Rightarrow> automation_task \<Rightarrow> bool" where
  "launch_ok db log (Launching g a v js) \<longleftrightarrow> (\<forall>j \<in> set js. lj_stage j \<noteq> Launched \<longrightarrow> job_ok db log j)"
| "launch_ok db log (FiringReceipt f i cs) \<longleftrightarrow> (\<forall>c \<in> set cs. prompts_of (rn_id c) log = 0
     \<and> (\<exists>r. run_at db (rn_id c) = Some r \<and> rn_status r \<noteq> RunRetrying))"
| "launch_ok db log _ \<longleftrightarrow> True"

text \<open>What happens to others' runs.\<close>

definition undisturbed :: "automation_db \<Rightarrow> automation_db \<Rightarrow> automation_events \<Rightarrow> string \<Rightarrow> bool" where
  "undisturbed db db' es i \<longleftrightarrow> run_calm (run_at db i) (run_at db' i) \<and> claims_of i es = 0 \<and> prompts_of i es = 0"

lemma events_append [simp]:
  "claims_of i (xs @ ys) = claims_of i xs + claims_of i ys"
  "prompts_of i (xs @ ys) = prompts_of i xs + prompts_of i ys"
  by (simp_all add: claims_of_def prompts_of_def)

lemma events_simps [simp]:
  "claims_of i [] = 0" "prompts_of i [] = 0"
  "claims_of i [SessionClaimed x s] = (if x = i then 1 else 0)" "prompts_of i [SessionClaimed x s] = 0"
  "claims_of i [FirstPromptSent x s] = 0" "prompts_of i [FirstPromptSent x s] = (if x = i then 1 else 0)"
  by (simp_all add: claims_of_def prompts_of_def)

lemma no_run_events: "run_events es = [] \<Longrightarrow> claims_of i es = 0 \<and> prompts_of i es = 0"
  by (induction es) (auto simp: run_events_def claims_of_def prompts_of_def split: if_splits automation_event.splits)

lemma run_log_undisturbed:
  assumes "undisturbed db db' es i" and "run_log_ok db log i"
  shows "run_log_ok db' (log @ es) i"
proof (cases "run_at db i")
  case (Some r)
  then obtain q where "run_at db' i = Some q" "calm r q"
    using assms(1) by (auto simp: undisturbed_def run_calm_def)
  with Some assms show ?thesis
    by (auto simp: run_log_ok_def undisturbed_def calm_def split: if_splits)
qed (use assms in \<open>auto simp: undisturbed_def run_calm_def run_log_ok_def\<close>)

lemma status_undisturbed:
  assumes "undisturbed db db' es i" and "run_at db i = Some r"
  obtains q where "run_at db' i = Some q" and "rn_status q = RunRetrying \<Longrightarrow> rn_status r = RunRetrying"
    and "rn_status q = RunStarting \<Longrightarrow> rn_status r = RunStarting"
  using assms by (auto simp: undisturbed_def run_calm_def calm_def terminal_status_def active_status_def)

lemma job_undisturbed:
  assumes "undisturbed db db' es (lj_id j)" and "job_ok db log j"
  shows "job_ok db' (log @ es) j"
proof -
  obtain r where r: "run_at db (lj_id j) = Some r" "rn_status r \<noteq> RunRetrying"
      "claimed_stage (lj_stage j) \<longrightarrow> rn_status r \<noteq> RunStarting"
    using assms(2) by (auto simp: job_ok_def)
  obtain q where "run_at db' (lj_id j) = Some q" "rn_status q = RunRetrying \<Longrightarrow> rn_status r = RunRetrying"
      "rn_status q = RunStarting \<Longrightarrow> rn_status r = RunStarting"
    using status_undisturbed [OF assms(1) r(1)] by blast
  with r assms show ?thesis by (auto simp: job_ok_def undisturbed_def)
qed

lemma launch_undisturbed:
  assumes "\<And>i. i \<in> set (held_ids t) \<Longrightarrow> undisturbed db db' es i" and "launch_ok db log t"
  shows "launch_ok db' (log @ es) t"
proof (cases t)
  case (Launching g a v js)
  have "job_ok db' (log @ es) j" if "j \<in> set js" "lj_stage j \<noteq> Launched" for j
    using that assms Launching by (intro job_undisturbed) auto
  with Launching show ?thesis by simp
next
  case (FiringReceipt f i cs)
  have "prompts_of (rn_id c) (log @ es) = 0 \<and> (\<exists>r. run_at db' (rn_id c) = Some r \<and> rn_status r \<noteq> RunRetrying)"
    if c: "c \<in> set cs" for c
  proof -
    have u: "undisturbed db db' es (rn_id c)" using assms(1) c FiringReceipt by simp
    obtain r where r: "run_at db (rn_id c) = Some r" "rn_status r \<noteq> RunRetrying"
      using assms(2) c FiringReceipt by auto
    from status_undisturbed [OF u r(1)] r(2) u assms(2) c FiringReceipt show ?thesis
      by (metis add.right_neutral events_append(2) launch_ok.simps(2) undisturbed_def)
  qed
  with FiringReceipt show ?thesis by simp
qed simp_all

lemma run_at_update:
  assumes "\<And>r. rn_id (f r) = rn_id r"
  shows "run_at (fst (update_runs p f db)) i = map_option (\<lambda>r. if p r then f r else r) (run_at db i)"
  unfolding run_at_def update_runs_def sql_update_def fst_conv using assms by (simp add: find_map_id)

lemma run_at_id: "run_at db i = Some r \<Longrightarrow> r \<in> set (ad_runs db) \<and> rn_id r = i"
  unfolding run_at_def by (drule find_SomeD) simp

lemma run_at_known:
  assumes "tables_ok db" and "r \<in> set (ad_runs db)"
  shows "run_at db (rn_id r) = Some r"
proof -
  obtain q where "run_at db (rn_id r) = Some q"
    using assms(2) by (cases "run_at db (rn_id r)") (auto simp: run_at_def find_None_iff)
  moreover have "q = r"
    using run_at_id [OF calculation] assms tables_okD(3) [OF assms(1)] by (simp add: distinct_map inj_on_def)
  ultimately show ?thesis by simp
qed

lemma run_calm_refl [simp]: "run_calm x x"
  by (simp add: run_calm_def split: option.split)

lemma calm_undisturbed: "runs_calm db db' \<Longrightarrow> claims_of i es = 0 \<Longrightarrow> prompts_of i es = 0 \<Longrightarrow> undisturbed db db' es i"
  by (simp add: undisturbed_def runs_calm_at)

definition run_touched :: "automation_db \<Rightarrow> automation_db \<Rightarrow> automation_events \<Rightarrow> automation_events
    \<Rightarrow> launch_job \<Rightarrow> launch_job \<Rightarrow> bool" where
  "run_touched db db' log es j j' \<longleftrightarrow> lj_id j' = lj_id j \<and> (\<forall>i. i \<noteq> lj_id j \<longrightarrow> undisturbed db db' es i)
     \<and> run_log_ok db' (log @ es) (lj_id j) \<and> (lj_stage j' \<noteq> Launched \<longrightarrow> job_ok db' (log @ es) j')"

lemma touched_calm:
  assumes "runs_calm db db'" and "lj_id j' = lj_id j" and "job_ok db log j" and "run_log_ok db log (lj_id j)"
    and "claimed_stage (lj_stage j') \<Longrightarrow> claimed_stage (lj_stage j)"
    and "before_prompt (lj_stage j') \<Longrightarrow> before_prompt (lj_stage j)"
  shows "run_touched db db' log [] j j'"
proof -
  have u: "undisturbed db db' [] i" for i using assms(1) by (simp add: calm_undisturbed)
  have "job_ok db' (log @ []) j" by (rule job_undisturbed [OF u assms(3)])
  then have "job_ok db' (log @ []) j'" using assms(2,5,6) by (auto simp: job_ok_def)
  then show ?thesis unfolding run_touched_def using assms(2) u run_log_undisturbed [OF u assms(4)] by blast
qed

lemma stage_simps [simp]: "lj_id (at_stage s j) = lj_id j" "lj_stage (at_stage s j) = s"
  "lj_run (at_stage s j) = lj_run j" "lj_run (launch_failed e b j) = lj_run j"
  "lj_id (launch_failed e b j) = lj_id j" "lj_stage (launch_failed e b j) = ToRecord e (lj_retryable j \<and> \<not> b)"
  by (simp_all add: at_stage_def lj_id_def launch_failed_def)

lemma claim_touched:
  assumes ok: "tables_ok db" and s: "lj_stage j = ToClaim" and j: "job_ok db log j" "run_log_ok db log (lj_id j)"
  shows "case launch_claim failure sessionId claimedAt deadlineMs reply j db of
    (db', j', es) \<Rightarrow> run_touched db db' log es j j'"
proof (cases "failure = None \<and> executed reply")
  case False
  then show ?thesis using j s
    by (cases failure) (auto simp: launch_claim_def Let_def executed_def intro!: touched_calm)
next
  case True
  let ?c = "claimRunSession (lj_id j) sessionId claimedAt (claimedAt + deadlineMs) db"
  obtain r where r: "run_at db (lj_id j) = Some r" "rn_status r \<noteq> RunRetrying" "prompts_of (lj_id j) log = 0"
    using j(1) s by (auto simp: job_ok_def)
  have at: "run_at (fst ?c) i = map_option (\<lambda>r. if rn_id r = lj_id j \<and> rn_status r = RunStarting
       then r\<lparr>rn_status := RunRunning, rn_session_id := Some sessionId, rn_started_at := Some claimedAt,
          rn_execution_deadline_at := Some (claimedAt + deadlineMs), rn_first_prompt_pending := True\<rparr> else r) (run_at db i)" for i
    unfolding claimRunSession_def by (rule run_at_update) simp
  have other: "undisturbed db (fst ?c) es i" if "i \<noteq> lj_id j" "claims_of i es = 0" "prompts_of i es = 0" for i es
    using that run_at_id [of db i] by (auto simp: undisturbed_def at run_calm_def split: option.split)
  show ?thesis
  proof (cases "rn_status r = RunStarting")
    case True
    have won: "snd ?c" using run_at_id [OF r(1)] True
      by (auto simp: claimRunSession_def update_runs_def sql_count_pos)
    have "run_log_ok (fst ?c) (log @ [SessionClaimed (lj_id j) sessionId]) (lj_id j)"
      using j(2) r True run_at_id [OF r(1)] by (simp add: run_log_ok_def at)
    moreover have "job_ok (fst ?c) (log @ [SessionClaimed (lj_id j) sessionId]) j'" if "lj_id j' = lj_id j" for j'
      using that r True run_at_id [OF r(1)] by (simp add: job_ok_def at)
    ultimately have "run_touched db (fst ?c) log [SessionClaimed (lj_id j) sessionId] j j'" if "lj_id j' = lj_id j" for j'
      using that other by (simp add: run_touched_def)
    then show ?thesis using won \<open>failure = None \<and> executed reply\<close>
      by (simp add: launch_claim_def Let_def case_prod_beta)
  next
    case False
    have "\<not> snd ?c"
    proof
      assume "snd ?c"
      then obtain q where q: "q \<in> set (ad_runs db)" "rn_id q = lj_id j" "rn_status q = RunStarting"
        by (auto simp: claimRunSession_def update_runs_def sql_count_pos)
      have "run_at db (lj_id j) = Some q" using run_at_known [OF ok q(1)] q(2) by simp
      with r(1) q(3) False show False by simp
    qed
    moreover have "runs_calm db (fst ?c)"
    proof (rule runs_calm_same)
      have "\<not> (rn_id q = lj_id j \<and> rn_status q = RunStarting)" if "q \<in> set (ad_runs db)" for q
        using that calculation by (auto simp: claimRunSession_def update_runs_def sql_count_pos)
      then show "ad_runs (fst ?c) = ad_runs db"
        by (simp add: claimRunSession_def update_runs_def sql_update_idle)
    qed
    ultimately show ?thesis using j s True
      by (auto simp: launch_claim_def Let_def case_prod_beta intro!: touched_calm)
  qed
qed

lemma recorded_id: "rn_id (snd (recordFailure e retryable t reply child db)) = rn_id child"
  by (simp add: recordFailure_def Let_def split: launch_failure.split)

lemma record_db:
  "runs_calm db (fst (recordFailure e retryable t reply child db))
    \<or> (retryable \<and> (\<exists>reason t' retryAt. fst (recordFailure e retryable t reply child db)
          = fst (failLaunchOrRetry (rn_id child) reason t' retryAt db)))"
  by (cases e) (auto simp: recordFailure_def Let_def if_executed_def intro: calm_failed)

lemma retry_touched:
  assumes s: "lj_stage j = ToRecord e True" and j: "job_ok db log j" "run_log_ok db log (lj_id j)"
    and j': "lj_id j' = lj_id j" "lj_stage j' = Launched"
  shows "run_touched db (fst (failLaunchOrRetry (lj_id j) reason t retryAt db)) log [] j j'"
proof -
  let ?f = "retry_or_fail db (lj_id j) reason t retryAt"
  have at: "run_at (fst (failLaunchOrRetry (lj_id j) reason t retryAt db)) i = map_option ?f (run_at db i)" for i
    unfolding failLaunchOrRetry_db run_at_def
    by (simp add: find_map_id retry_or_fail_def retry_wait_def launch_lost_def)
  have "undisturbed db (fst (failLaunchOrRetry (lj_id j) reason t retryAt db)) [] i" if "i \<noteq> lj_id j" for i
    using that run_at_id [of db i] by (auto simp: undisturbed_def at run_calm_def retry_or_fail_def split: option.split)
  moreover obtain r where "run_at db (lj_id j) = Some r" "prompts_of (lj_id j) log = 0"
    using j(1) s by (auto simp: job_ok_def)
  then have "run_log_ok (fst (failLaunchOrRetry (lj_id j) reason t retryAt db)) (log @ []) (lj_id j)"
    using j(2) by (auto simp: run_log_ok_def at retry_or_fail_def retry_wait_def launch_lost_def split: if_splits)
  ultimately show ?thesis using j' by (simp add: run_touched_def)
qed

lemma record_touched:
  assumes s: "lj_stage j = ToRecord e retryable" and j: "job_ok db log j" "run_log_ok db log (lj_id j)"
  shows "case launch_record t reply j db of (db', j') \<Rightarrow> run_touched db db' log [] j j'"
proof -
  let ?r = "recordFailure e retryable t reply (lj_run j) db"
  let ?j = "at_stage Launched (j\<lparr>lj_run := snd ?r\<rparr>)"
  have l: "launch_record t reply j db = (fst ?r, ?j)" by (simp add: launch_record_def s case_prod_beta)
  have i: "lj_id ?j = lj_id j" by (simp add: lj_id_def recorded_id)
  have "run_touched db (fst ?r) log [] j ?j"
    using record_db [of db e retryable t reply "lj_run j"]
  proof (elim disjE conjE exE)
    assume "runs_calm db (fst ?r)"
    then show ?thesis by (rule touched_calm [OF _ i j]) simp_all
  next
    fix reason t' retryAt
    assume r: retryable and db': "fst ?r = fst (failLaunchOrRetry (rn_id (lj_run j)) reason t' retryAt db)"
    show ?thesis unfolding db' lj_id_def [symmetric]
      using s r j i by (intro retry_touched [where e = e]) simp_all
  qed
  then show ?thesis by (simp add: l)
qed

lemma prompt_touched:
  assumes s: "lj_stage j = ToPrompt sessionId" and j: "job_ok db log j" "run_log_ok db log (lj_id j)"
  shows "case launch_prompt failure j of (j', es) \<Rightarrow> run_touched db db log es j j'"
proof -
  obtain r where r: "run_at db (lj_id j) = Some r" "rn_status r \<noteq> RunRetrying" "rn_status r \<noteq> RunStarting"
      "prompts_of (lj_id j) log = 0"
    using j(1) s by (auto simp: job_ok_def)
  have "undisturbed db db [FirstPromptSent (lj_id j) sessionId] i" if "i \<noteq> lj_id j" for i
    using that by (simp add: undisturbed_def)
  moreover have "run_log_ok db (log @ [FirstPromptSent (lj_id j) sessionId]) (lj_id j)"
    using j(2) r by (simp add: run_log_ok_def)
  ultimately show ?thesis
    using s r by (cases failure) (simp_all add: launch_prompt_def run_touched_def job_ok_def lj_id_def)
qed

lemma launch_step_touched:
  assumes step: "launch_step answer j db = Some (db', j', es)" and ok: "tables_ok db"
    and j: "job_ok db log j" "run_log_ok db log (lj_id j)"
  shows "run_touched db db' log es j j'"
proof (cases answer)
  case (AnswerClaim failure sessionId claimedAt deadlineMs reply)
  then show ?thesis
    using step claim_touched [OF ok _ j, of failure sessionId claimedAt deadlineMs reply] by (auto split: if_splits)
next
  case (AnswerCreate failure deadlineMs reply)
  then show ?thesis using step j
    by (auto simp: launch_create_def split: launch_stage.splits option.splits if_splits
        intro!: touched_calm calm_if_executed calm_deadline)
next
  case (AnswerInitialize failure)
  then show ?thesis using step j
    by (auto simp: launch_initialize_def split: launch_stage.splits option.splits intro!: touched_calm)
next
  case (AnswerPrompt failure)
  then obtain sessionId where "lj_stage j = ToPrompt sessionId" "launch_prompt failure j = (j', es)" "db' = db"
    using step by (auto split: launch_stage.splits)
  with prompt_touched [OF _ j, of sessionId failure] show ?thesis by simp
next
  case (AnswerMark reply)
  then show ?thesis using step j
    by (auto simp: launch_mark_def split: if_splits intro!: touched_calm calm_if_executed calm_mark)
next
  case (AnswerRecord failedAt reply)
  then obtain e retryable where s: "lj_stage j = ToRecord e retryable"
    using step by (auto split: launch_stage.splits)
  then have "launch_record failedAt reply j db = (db', j')" "es = []"
    using step AnswerRecord by (auto split: prod.splits)
  with record_touched [OF s j, of failedAt reply] show ?thesis by simp
qed

section \<open>The invariant\<close>

definition pending_ok :: "automation_db \<Rightarrow> automation_task \<Rightarrow> bool" where
  "pending_ok db t \<longleftrightarrow> recorded_ids t \<or> set (held_ids t) \<inter> db_ids db = {}"

definition automation_sound :: "automation_world \<Rightarrow> bool" where
  "automation_sound w \<longleftrightarrow> tables_ok (aw_db w) \<and> db_ids (aw_db w) \<subseteq> set (aw_ids w)
     \<and> set (held_all (aw_tasks w)) \<subseteq> set (aw_ids w) \<and> distinct (held_all (aw_tasks w))
     \<and> (\<forall>t \<in> set (aw_tasks w). task_ok (aw_db w) t \<and> launch_ok (aw_db w) (aw_log w) t \<and> pending_ok (aw_db w) t)
     \<and> (\<forall>i. run_log_ok (aw_db w) (aw_log w) i)"

lemma soundD:
  assumes "automation_sound w"
  shows "tables_ok (aw_db w)" "db_ids (aw_db w) \<subseteq> set (aw_ids w)" "set (held_all (aw_tasks w)) \<subseteq> set (aw_ids w)"
    "distinct (held_all (aw_tasks w))" "\<And>t. t \<in> set (aw_tasks w) \<Longrightarrow> task_ok (aw_db w) t"
    "\<And>t. t \<in> set (aw_tasks w) \<Longrightarrow> launch_ok (aw_db w) (aw_log w) t"
    "\<And>t. t \<in> set (aw_tasks w) \<Longrightarrow> pending_ok (aw_db w) t" "\<And>i. run_log_ok (aw_db w) (aw_log w) i"
  using assms unfolding automation_sound_def by blast+

definition retrying_ids :: "automation_db \<Rightarrow> string set" where
  "retrying_ids db = {i. \<exists>r. run_at db i = Some r \<and> rn_status r = RunRetrying}"

lemma held_member: "t \<in> set ts \<Longrightarrow> set (held_ids t) \<subseteq> set (held_all ts)"
  by (auto simp: held_all_def)

lemma run_at_ids: "run_at db i = Some r \<Longrightarrow> i \<in> db_ids db"
  by (drule run_at_id) (auto simp: db_ids_def)

lemma recorded_not_retrying:
  assumes "launch_ok db log t" and "recorded_ids t" and "i \<in> set (held_ids t)"
  shows "i \<notin> retrying_ids db"
proof (cases t)
  case (Launching g a v js)
  then obtain j where "j \<in> set js" "lj_stage j \<noteq> Launched" "i = lj_id j" using assms(3) by auto
  then show ?thesis using assms(1) Launching by (auto simp: job_ok_def retrying_ids_def)
next
  case (FiringReceipt f x cs)
  then obtain c where "c \<in> set cs" "i = rn_id c" using assms(3) by auto
  then show ?thesis using assms(1) FiringReceipt by (auto simp: retrying_ids_def)
qed (use assms(2) in simp_all)

lemma held_not_retrying:
  assumes "automation_sound w" and "t \<in> set (aw_tasks w)" and "i \<in> set (held_ids t)"
  shows "i \<notin> retrying_ids (aw_db w)"
proof (cases "recorded_ids t")
  case True
  then show ?thesis using recorded_not_retrying soundD(6) [OF assms(1,2)] assms(3) by blast
next
  case False
  then have "i \<notin> db_ids (aw_db w)" using soundD(7) [OF assms(1,2)] assms(3) by (auto simp: pending_ok_def)
  then show ?thesis using run_at_ids by (auto simp: retrying_ids_def)
qed

lemma sound_resume:
  assumes sound: "automation_sound w" and t: "t \<in> set (aw_tasks w)"
    and changes: "db_changes (aw_db w) db'" and fresh: "set ids \<inter> set (aw_ids w) = {}"
    and ids: "db_ids db' \<subseteq> db_ids (aw_db w) \<union> set ids \<union> set (held_ids t)"
    and tasks: "\<And>t'. t' \<in> set ts \<Longrightarrow> task_ok (aw_db w) t' \<and> launch_ok db' (aw_log w @ es) t' \<and> pending_ok db' t'"
    and held: "set (held_all ts) \<subseteq> set (held_ids t) \<union> set ids \<union> retrying_ids (aw_db w)" "distinct (held_all ts)"
    and T: "T \<subseteq> set (held_ids t) \<union> retrying_ids (aw_db w)" "\<And>i. i \<notin> T \<Longrightarrow> undisturbed (aw_db w) db' es i"
      "\<And>i. i \<in> T \<Longrightarrow> run_log_ok db' (aw_log w @ es) i"
  shows "automation_sound (resume_task t (db', ts, ids, es) w)"
proof -
  note d = soundD [OF sound]
  let ?rest = "remove1 t (aw_tasks w)"
  note h = held_remove [OF t d(4)]
  have rest_not: "x \<notin> set (held_ids t)" "x \<notin> retrying_ids (aw_db w)" "x \<notin> set ids" if x: "x \<in> set (held_all ?rest)" for x
  proof -
    show "x \<notin> set (held_ids t)" using h(3) x by blast
    obtain u where "u \<in> set ?rest" "x \<in> set (held_ids u)" using x by (auto simp: held_all_def)
    then show "x \<notin> retrying_ids (aw_db w)" using held_not_retrying [OF sound] by (meson notin_set_remove1)
    show "x \<notin> set ids" using h(4) d(3) fresh x by blast
  qed
  have retrying_known: "retrying_ids (aw_db w) \<subseteq> db_ids (aw_db w)" using run_at_ids by (auto simp: retrying_ids_def)
  have rest: "task_ok db' u \<and> launch_ok db' (aw_log w @ es) u \<and> pending_ok db' u" if u: "u \<in> set ?rest" for u
  proof -
    have mem: "u \<in> set (aw_tasks w)" using u by (meson notin_set_remove1)
    have sub: "set (held_ids u) \<subseteq> set (held_all ?rest)" using held_member u by blast
    have "launch_ok db' (aw_log w @ es) u"
    proof (rule launch_undisturbed [OF _ d(6) [OF mem]])
      fix i assume "i \<in> set (held_ids u)"
      then have "i \<notin> T" using sub rest_not T(1) by blast
      then show "undisturbed (aw_db w) db' es i" by (rule T(2))
    qed
    moreover have "pending_ok db' u"
      using d(7) [OF mem] sub rest_not(1,3) ids unfolding pending_ok_def by blast
    ultimately show ?thesis using task_ok_changes [OF changes d(5) [OF mem]] by blast
  qed
  have "run_log_ok db' (aw_log w @ es) i" for i
    using T(2,3) run_log_undisturbed [OF _ d(8)] by (cases "i \<in> T") blast+
  moreover have "set (held_all (ts @ ?rest)) \<subseteq> set (ids @ aw_ids w)"
  proof -
    have "set (held_ids t) \<subseteq> set (aw_ids w)" "set (held_all ?rest) \<subseteq> set (aw_ids w)"
      using d(3) h(4) by blast+
    with held(1) d(2) retrying_known show ?thesis unfolding held_all_simps set_append by blast
  qed
  moreover have "distinct (held_all (ts @ ?rest))"
  proof -
    have "set (held_all ts) \<inter> set (held_all ?rest) = {}" using held(1) rest_not by blast
    with held(2) h(2) show ?thesis by simp
  qed
  moreover have "db_ids db' \<subseteq> set (ids @ aw_ids w)"
  proof -
    have "set (held_ids t) \<subseteq> set (aw_ids w)" using d(3) h(4) by blast
    with ids d(2) show ?thesis unfolding set_append by blast
  qed
  ultimately show ?thesis
    unfolding automation_sound_def resume_task_def
    using rest tasks tables_ok_changes [OF changes d(1)] task_ok_changes [OF changes] by auto
qed


subsection \<open>The ids of a step\<close>

lemma update_image:
  assumes "\<And>x. x \<in> set xs \<Longrightarrow> p x \<Longrightarrow> g (f x) = g x"
  shows "g ` set (sql_update p f xs) = g ` set xs"
  unfolding sql_update_def set_map image_image by (rule image_cong [OF refl]) (use assms in simp)

lemma quiet_change_ids:
  assumes "quiet_change db db'"
  shows "db_ids db' = db_ids db"
  using assms
proof cases
  case runs
  then obtain f where f: "db' = db\<lparr>ad_runs := map f (ad_runs db)\<rparr>" "\<And>r. row_move db r (f r)"
    by (auto simp: runs_moved_def)
  have "rn_id (f r) = rn_id r" for r using f(2) [of r] by (simp add: row_move_def same_run_identity_def)
  then show ?thesis by (simp add: f(1) db_ids_def image_image)
next
  case (rows p f)
  have "au_id ` set (sql_update p f (ad_automations db)) = au_id ` set (ad_automations db)"
    by (rule update_image) (use rows(2) in \<open>simp add: row_change_def\<close>)
  then show ?thesis by (simp add: rows(1) db_ids_def update_automations_def)
next
  case (counted i now)
  have "iv_id ` set (ad_invocations db') = iv_id ` set (ad_invocations db)"
    by (simp add: counted tryMarkInvocationFailureCounted_def update_invocations_def update_image)
  then show ?thesis by (simp add: db_ids_def counted tryMarkInvocationFailureCounted_def update_invocations_def)
qed (simp_all add: db_ids_def)

lemma quiet_changes_ids: "quiet_changes db db' \<Longrightarrow> db_ids db' = db_ids db"
  by (induction rule: rtranclp_induct) (simp_all add: quiet_change_ids)

lemma admitted_ids: "db_ids (admitted_db v cs db) = db_ids db \<union> {iv_id v} \<union> rn_id ` set cs"
  by (simp add: db_ids_def admitted_db_def stored_run_def image_image image_Un Un_ac)

lemma recorded_or_not_ids: "recorded_or_not v db db1 \<Longrightarrow> db_ids db1 \<subseteq> db_ids db \<union> {iv_id v}"
  by (auto simp: recorded_or_not_def db_ids_def)

lemma effect_ids:
  assumes "step_effect t ids db db'"
  shows "db_ids db' \<subseteq> db_ids db \<union> set ids \<union> set (held_ids t)"
  using assms unfolding step_effect_def
proof (elim disjE exE conjE)
  fix v db1
  assume "iv_id v \<in> set ids" "recorded_or_not v db db1" "quiet_changes db1 db'"
  then show ?thesis using recorded_or_not_ids [of v db db1] quiet_changes_ids [of db1 db'] by blast
next
  fix f v cs g now
  assume "t = FiringInsert f v cs g now" "quiet_changes (admitted_db v cs db) db'"
  then show ?thesis using quiet_changes_ids admitted_ids by auto
qed (use quiet_changes_ids in blast)

lemma effect_ids_same:
  assumes "step_effect t [] db db'" and "quiet_task t"
  shows "db_ids db' = db_ids db"
  using assms(1) unfolding step_effect_def
  by (elim disjE exE conjE) (use assms(2) in \<open>simp_all add: quiet_changes_ids\<close>)

lemma fresh_ids_new: "fresh_ids ids w \<Longrightarrow> set ids \<inter> set (aw_ids w) = {}"
  by (auto simp: fresh_ids_def list_all_iff)

lemma task_step_ids:
  assumes "task_step t r w"
  shows "set (fst (snd (snd r))) \<inter> set (aw_ids w) = {}"
  using assms
proof cases
  case (launching g a v js k answer)
  then show ?thesis by (auto simp: launching_step_def split: if_splits)
next
  case (admission newId childIds answer f now)
  then show ?thesis using fresh_ids_new [OF admission(3)]
    by (auto simp: firing_admission_def Let_def split: admission_answer.split)
next
  case (denied newId f why now)
  then show ?thesis using fresh_ids_new [OF denied(3)] by (auto simp: firing_denied_def split: option.split)
next
  case (skip_insert newId f reason advance now)
  then show ?thesis using fresh_ids_new [OF skip_insert(3)] by (simp add: firing_skip_insert_def)
qed (simp_all add: plain_steps firing_owner_def case_prod_beta firing_insert_def firing_duplicate_def firing_receipt_def
      relaunch_claim_def withdraw_run_def account_one_shot_def
      account_mark_def account_increment_def account_pause_def account_reset_def complete_mark_def complete_update_def
      complete_correct_def fail_orphaned_def fail_timed_out_def final_sweep_def tick_due_def
      split: sum.split prod.split list.split option.split)

lemma quiet_step_kind:
  assumes "task_step t r w" and "quiet_task t"
  shows "fst (snd (snd r)) = [] \<or> held_all (fst (snd r)) = [] \<or> fst r = aw_db w"
  using assms(1)
proof cases
  case (admission newId childIds answer f now)
  then show ?thesis by (simp add: firing_admission_def Let_def split: admission_answer.split)
qed (use assms(2) in \<open>simp_all add: plain_steps firing_owner_def case_prod_beta
      firing_skip_insert_def firing_duplicate_def firing_denied_def firing_receipt_def withdraw_run_def account_one_shot_def
      account_mark_def account_increment_def account_pause_def account_reset_def complete_mark_def complete_update_def
      complete_correct_def fail_orphaned_def fail_timed_out_def final_sweep_def tick_due_def
      split: list.split option.split\<close>)

lemma quiet_step_unrecorded:
  assumes "task_step t r w" and "quiet_task t"
  shows "\<not> recorded_ids t \<and> (\<forall>t' \<in> set (fst (snd r)). \<not> recorded_ids t')
    \<or> (\<exists>f i cs. t = FiringReceipt f i cs \<and> fst (snd r) = [firing_launch f i cs])"
  using assms(1)
proof cases
  case (receipt f i cs now runs)
  then show ?thesis by (simp add: firing_receipt_def)
qed (use assms(2) in \<open>auto simp: plain_steps firing_owner_def case_prod_beta denied_def recordOverlapSkip_def
      account_decided_def affected_invocations_def firing_admission_def
      firing_skip_insert_def firing_duplicate_def firing_denied_def withdraw_run_def account_one_shot_def
      account_mark_def account_increment_def account_pause_def account_reset_def complete_mark_def complete_update_def
      complete_correct_def fail_orphaned_def fail_timed_out_def final_sweep_def tick_due_def
      split: admission_answer.split list.split option.split\<close>)


subsection \<open>Steps of tasks\<close>

lemma unrecorded_launch_ok: "\<not> recorded_ids t \<Longrightarrow> launch_ok db log t"
  by (cases t) simp_all

lemma receipt_launch_ok: "launch_ok db log (FiringReceipt f i cs) \<Longrightarrow> launch_ok db log (firing_launch f i cs)"
  by (auto simp: firing_launch_def launch_jobs_def job_ok_def lj_id_def)

lemma step_context:
  assumes sound: "automation_sound w" and t: "t \<in> set (aw_tasks w)" and step: "task_step t r w"
  shows "step_effect t (fst (snd (snd r))) (aw_db w) (fst r)"
    "db_changes (aw_db w) (fst r)" "set (fst (snd (snd r))) \<inter> set (aw_ids w) = {}"
    "db_ids (fst r) \<subseteq> db_ids (aw_db w) \<union> set (fst (snd (snd r))) \<union> set (held_ids t)"
    "\<And>t'. t' \<in> set (fst (snd r)) \<Longrightarrow> task_ok (aw_db w) t'"
    "set (held_ids t) \<subseteq> set (aw_ids w)" "distinct (held_ids t)"
proof -
  note d = soundD [OF sound]
  show e: "step_effect t (fst (snd (snd r))) (aw_db w) (fst r)"
    using task_step_effect [OF step d(1) d(5) [OF t] d(2)] d(7) [OF t] by (auto simp: pending_ok_def)
  show "db_changes (aw_db w) (fst r)" by (rule effect_changes [OF e])
  show "set (fst (snd (snd r))) \<inter> set (aw_ids w) = {}" by (rule task_step_ids [OF step])
  show "db_ids (fst r) \<subseteq> db_ids (aw_db w) \<union> set (fst (snd (snd r))) \<union> set (held_ids t)" by (rule effect_ids [OF e])
  show "\<And>t'. t' \<in> set (fst (snd r)) \<Longrightarrow> task_ok (aw_db w) t'" using task_step_tasks [OF step d(5) [OF t]] by blast
  show "set (held_ids t) \<subseteq> set (aw_ids w)" "distinct (held_ids t)"
    using held_remove [OF t d(4)] d(3) by blast+
qed

lemma quiet_step_sound:
  assumes sound: "automation_sound w" and t: "t \<in> set (aw_tasks w)" and step: "task_step t (db', ts, ids, es) w"
    and q: "quiet_task t"
  shows "automation_sound (resume_task t (db', ts, ids, es) w)"
proof -
  note d = soundD [OF sound] and c = step_context [OF sound t step, unfolded fst_conv snd_conv]
  have u: "undisturbed (aw_db w) db' es i" for i
    using quiet_step_calm [OF step q] no_run_events [OF quiet_step_events [OF step q], of i]
    by (intro calm_undisturbed) simp_all
  have hold: "hold_on (held_ids t) (set ids) ts" using step_held_quiet [OF step q c(6)] by simp
  have new: "set (held_ids t') \<inter> db_ids db' = {}" if t': "t' \<in> set ts" "\<not> recorded_ids t" for t'
  proof (cases "held_all ts = []")
    case True
    then show ?thesis using held_member [OF t'(1)] by simp
  next
    case False
    then have "db_ids db' = db_ids (aw_db w)"
      using quiet_step_kind [OF step q] effect_ids_same [OF _ q] c(1) by auto
    moreover have "set (held_ids t') \<subseteq> set (held_ids t) \<union> set ids"
      using hold held_member [OF t'(1)] by (auto simp: hold_on_def)
    moreover have "set (held_ids t) \<inter> db_ids (aw_db w) = {}" using d(7) [OF t] t'(2) by (simp add: pending_ok_def)
    ultimately show ?thesis using d(2) c(3) by blast
  qed
  have tasks: "task_ok (aw_db w) t' \<and> launch_ok db' (aw_log w @ es) t' \<and> pending_ok db' t'" if t': "t' \<in> set ts" for t'
    using quiet_step_unrecorded [OF step q]
  proof (elim disjE exE conjE)
    assume "\<not> recorded_ids t" "\<forall>t' \<in> set (fst (snd (db', ts, ids, es))). \<not> recorded_ids t'"
    then show ?thesis
      using c(5) [OF t'] new [OF t'] unrecorded_launch_ok [of t'] t' by (simp add: pending_ok_def)
  next
    fix f i cs
    assume f: "t = FiringReceipt f i cs" "fst (snd (db', ts, ids, es)) = [firing_launch f i cs]"
    have "launch_ok db' (aw_log w @ es) t" by (rule launch_undisturbed [OF u d(6) [OF t]])
    with f t' c(5) [OF t'] receipt_launch_ok show ?thesis by (auto simp: pending_ok_def firing_launch_def)
  qed
  show ?thesis
  proof (rule sound_resume [OF sound t c(2,3,4) tasks, where T = "{}"])
    show "set (held_all ts) \<subseteq> set (held_ids t) \<union> set ids \<union> retrying_ids (aw_db w)" "distinct (held_all ts)"
      using hold c(7) by (auto simp: hold_on_def)
  qed (simp_all add: u)
qed


lemma admitted_run_at:
  assumes "distinct (map rn_id cs)" and "c \<in> set cs" and "run_at db (rn_id c) = None"
    and "ad_runs db' = ad_runs db @ map (stored_run v) cs"
  shows "run_at db' (rn_id c) = Some (stored_run v c)"
proof -
  have "find (\<lambda>r. rn_id r = rn_id c) (map (stored_run v) cs) = Some (stored_run v c)"
    using assms(1,2) by (induction cs) (auto simp: stored_run_def)
  then show ?thesis using assms(3,4) by (simp add: run_at_def find_append)
qed

lemma admitted_other:
  assumes "i \<notin> rn_id ` set cs" and "ad_runs db' = ad_runs db @ map (stored_run v) cs"
  shows "run_at db' i = run_at db i"
proof -
  have "find (\<lambda>r. rn_id r = i) (map (stored_run v) cs) = None"
    using assms(1) by (auto simp: find_None_iff stored_run_def)
  then show ?thesis using assms(2) by (cases "run_at db i") (simp_all add: run_at_def find_append)
qed

lemma insert_runs_tables:
  assumes "insertInvocationGuarded v cs scope adv g now db = Inr (db', inserted)"
    and new: "iv_id v \<notin> iv_id ` set (ad_invocations db)"
  shows "ad_runs db' = (if inserted then ad_runs db @ map (stored_run (iv_id v)) cs else ad_runs db)"
proof -
  define db1 where "db1 = (if inserted then db\<lparr>ad_invocations := ad_invocations db @ [v]\<rparr> else db)"
  obtain db2 where db2: "insert_runs (iv_id v) cs db1 = Inr db2" and db': "db' = advance_if v adv g now db2"
    using assms(1) unfolding insertInvocationGuarded_def Let_def db1_def by (auto split: if_splits sum.splits)
  have "ad_runs db2 = (if inserted then ad_runs db @ map (stored_run (iv_id v)) cs else ad_runs db)"
  proof (cases inserted)
    case True
    then show ?thesis using insert_runs_known [OF db2] by (simp add: db1_def)
  next
    case False
    have "\<not> list_ex (\<lambda>x. iv_id x = iv_id v) (ad_invocations db)" using new by (auto simp: list_ex_iff image_iff)
    with False db2 insert_runs_unknown show ?thesis by (simp add: db1_def)
  qed
  then show ?thesis by (simp add: db')
qed

lemma insert_step_sound:
  assumes sound: "automation_sound w" and t: "FiringInsert f v cs g now \<in> set (aw_tasks w)"
    and step: "task_step (FiringInsert f v cs g now) (db', ts, ids, es) w"
  shows "automation_sound (resume_task (FiringInsert f v cs g now) (db', ts, ids, es) w)"
proof -
  let ?t = "FiringInsert f v cs g now"
  note d = soundD [OF sound] and c = step_context [OF sound t step, unfolded fst_conv snd_conv]
  have out: "firing_insert f v cs g now (aw_db w) = (db', ts, ids, es)" using step by (auto elim: task_step.cases)
  have dis: "iv_id v \<notin> db_ids (aw_db w)" "\<And>x. x \<in> set cs \<Longrightarrow> rn_id x \<notin> db_ids (aw_db w)"
    using d(7) [OF t] by (auto simp: pending_ok_def)
  have none: "run_at (aw_db w) (rn_id x) = None" if "x \<in> set cs" for x
    using dis(2) [OF that] run_at_ids [of "aw_db w" "rn_id x"] by (cases "run_at (aw_db w) (rn_id x)") auto
  have ids: "ids = []" using out by (auto simp: firing_insert_def follows_def split: sum.splits prod.splits if_splits)
  show ?thesis
  proof (cases "\<exists>db''. insertInvocationGuarded v cs (firing_scope f) (schedule_slot f) g now (aw_db w) = Inr (db'', True)")
    case False
    then have same: "ad_runs db' = ad_runs (aw_db w)" and es: "es = []"
      and ts: "\<forall>t' \<in> set ts. \<not> recorded_ids t' \<and> held_ids t' = []"
      using out insert_runs_tables [of v cs "firing_scope f" "schedule_slot f" g now "aw_db w"] dis(1)
      by (auto simp: firing_insert_def follows_def db_ids_def split: sum.splits prod.splits if_splits)
    have "launch_ok db' (aw_log w @ es) t' \<and> pending_ok db' t'" if "t' \<in> set ts" for t'
      using ts that unrecorded_launch_ok by (auto simp: pending_ok_def)
    moreover have "held_all ts = []" using ts by (intro held_all_none) simp
    ultimately show ?thesis
      using c(5) runs_calm_same [OF same]
      by (intro sound_resume [OF sound t c(2,3,4), where T = "{}"]) (simp_all add: es calm_undisturbed)
  next
    case True
    then obtain db'' where ins: "insertInvocationGuarded v cs (firing_scope f) (schedule_slot f) g now (aw_db w) = Inr (db'', True)"
      by blast
    have o: "db' = db''" "es = [FiringAdmitted (iv_automation_id v) (iv_id v)]"
      "ts = [FiringReceipt f (iv_id v) cs] \<or> ts = [firing_launch f (iv_id v) cs]"
      using out ins by (auto simp: firing_insert_def split: if_splits)
    have runs: "ad_runs db' = ad_runs (aw_db w) @ map (stored_run (iv_id v)) cs"
      using insert_runs_tables [OF ins] dis(1) o(1) by (auto simp: db_ids_def)
    have distinct: "distinct (map rn_id cs)" using c(7) by simp
    have at: "run_at db' (rn_id x) = Some (stored_run (iv_id v) x)" if "x \<in> set cs" for x
      by (rule admitted_run_at [OF distinct that none [OF that] runs])
    have e [simp]: "claims_of i es = 0" "prompts_of i es = 0" for i
      using no_run_events [of es i] o(2) by simp_all
    have child: "rn_status x = RunStarting \<or> rn_status x = RunFailed" if "x \<in> set cs" for x
      using d(5) [OF t] that by (auto simp: insert_ok_def new_child_def list_all_iff)
    have silent: "claims_of (rn_id x) (aw_log w) = 0" "prompts_of (rn_id x) (aw_log w) = 0" if "x \<in> set cs" for x
      using d(8) [of "rn_id x"] none [OF that] by (simp_all add: run_log_ok_def)
    have l: "launch_ok db' (aw_log w @ es) (FiringReceipt f (iv_id v) cs)"
      using at silent child by (fastforce simp: stored_run_def)
    show ?thesis
    proof (rule sound_resume [OF sound t c(2,3,4), where T = "rn_id ` set cs"])
      show "task_ok (aw_db w) t' \<and> launch_ok db' (aw_log w @ es) t' \<and> pending_ok db' t'" if "t' \<in> set ts" for t'
        using c(5) [OF that] that o(3) l receipt_launch_ok [OF l] by (auto simp: pending_ok_def firing_launch_def)
      have "hold_on (map rn_id cs) {} ts"
        using o(3) firing_launch_held [of cs "{}" f "iv_id v"] by (auto simp: hold_on_def)
      then show "set (held_all ts) \<subseteq> set (held_ids ?t) \<union> set ids \<union> retrying_ids (aw_db w)" "distinct (held_all ts)"
        using distinct by (auto simp: hold_on_def)
      show "undisturbed (aw_db w) db' es i" if "i \<notin> rn_id ` set cs" for i
        using admitted_other [OF that runs] by (simp add: undisturbed_def)
      show "run_log_ok db' (aw_log w @ es) i" if "i \<in> rn_id ` set cs" for i
        using that at silent by (auto simp: run_log_ok_def stored_run_def)
    qed auto
  qed
qed


lemma relaunch_step_sound:
  assumes sound: "automation_sound w" and t: "RelaunchAdmitted run e g \<in> set (aw_tasks w)"
    and step: "task_step (RelaunchAdmitted run e g) (db', ts, ids, es) w"
  shows "automation_sound (resume_task (RelaunchAdmitted run e g) (db', ts, ids, es) w)"
proof -
  let ?t = "RelaunchAdmitted run e g"
  let ?g = "if e = None then g else None"
  note d = soundD [OF sound] and c = step_context [OF sound t step, unfolded fst_conv snd_conv]
  obtain now where out: "relaunch_claim run e g now (aw_db w) = (db', ts, ids, es)"
    using step by (auto elim: task_step.cases)
  define p where "p = (\<lambda>r. rn_id r = rn_id run \<and> rn_status r = RunRetrying \<and> rn_attempt r = rn_attempt run
     \<and> some_holds (\<lambda>t. t \<le> now) (rn_retry_at r) \<and> retry_allowed (aw_db w) r \<and> team_grants_current ?g (aw_db w))"
  have claim: "claimRetry run now ?g (aw_db w) = (fst (update_runs p (claimed_retry now) (aw_db w)),
      if snd (update_runs p (claimed_retry now) (aw_db w)) then Some (claimed_retry now run) else None)"
    unfolding claimRetry_def p_def [symmetric] Let_def case_prod_beta ..
  have db': "db' = fst (update_runs p (claimed_retry now) (aw_db w))" and es: "es = []"
    using out by (auto simp: relaunch_claim_def claim follows_def split: if_splits)
  show ?thesis
  proof (cases "\<exists>r \<in> set (ad_runs (aw_db w)). p r")
    case False
    then have idle: "\<not> snd (update_runs p (claimed_retry now) (aw_db w))" "ad_runs db' = ad_runs (aw_db w)"
      by (auto simp: update_runs_def sql_count_pos db' sql_update_idle)
    then have ts: "ts = [Withdraw run]"
      using out by (simp add: relaunch_claim_def claim follows_def)
    show ?thesis
      by (intro sound_resume [OF sound t c(2,3,4), where T = "{}"])
        (use ts runs_calm_same [OF idle(2)] in \<open>simp_all add: es calm_undisturbed pending_ok_def\<close>)
  next
    case True
    then obtain r where r: "r \<in> set (ad_runs (aw_db w))" "p r" by blast
    have i: "rn_id r = rn_id run" and retrying: "rn_status r = RunRetrying" using r(2) by (simp_all add: p_def)
    have at: "run_at (aw_db w) (rn_id run) = Some r" using run_at_known [OF d(1) r(1)] i by simp
    have at': "run_at db' x = map_option (\<lambda>r. if p r then claimed_retry now r else r) (run_at (aw_db w) x)" for x
      unfolding db' by (rule run_at_update) (simp add: claimed_retry_def)
    have won: "snd (update_runs p (claimed_retry now) (aw_db w))"
      using r by (auto simp: update_runs_def sql_count_pos)
    then have ts: "ts = [Launching GroupRetry (rn_automation_id (claimed_retry now run)) (rn_invocation_id (claimed_retry now run))
            [\<lparr>lj_run = claimed_retry now run, lj_retryable = True,
              lj_stage = (case e of None \<Rightarrow> ToClaim | Some e \<Rightarrow> ToRecord e True)\<rparr>]]" (is "ts = [Launching _ _ _ [?j]]")
      using out by (auto simp: relaunch_claim_def claim follows_def)
    have j: "lj_id ?j = rn_id run" by (simp add: lj_id_def claimed_retry_def)
    have silent: "prompts_of (rn_id run) (aw_log w) = 0" "claims_of (rn_id run) (aw_log w) \<le> rn_attempt r"
      using d(8) [of "rn_id run"] at retrying by (auto simp: run_log_ok_def)
    have row: "run_at db' (rn_id run) = Some (claimed_retry now r)" using at at' r(2) by simp
    have job: "job_ok db' (aw_log w @ es) ?j"
      using row silent by (simp add: job_ok_def lj_id_def es claimed_retry_def split: option.split)
    show ?thesis
    proof (rule sound_resume [OF sound t c(2,3,4), where T = "{rn_id run}"])
      show "task_ok (aw_db w) t' \<and> launch_ok db' (aw_log w @ es) t' \<and> pending_ok db' t'" if "t' \<in> set ts" for t'
        using that ts job by (simp add: pending_ok_def)
      show "set (held_all ts) \<subseteq> set (held_ids ?t) \<union> set ids \<union> retrying_ids (aw_db w)" "distinct (held_all ts)"
        "{rn_id run} \<subseteq> set (held_ids ?t) \<union> retrying_ids (aw_db w)"
        using at retrying by (simp_all add: ts lj_id_def claimed_retry_def retrying_ids_def split: option.split)
      show "undisturbed (aw_db w) db' es x" if "x \<notin> {rn_id run}" for x
        using that run_at_id [of "aw_db w" x]
        by (auto simp: undisturbed_def at' run_calm_def es p_def split: option.split)
      show "run_log_ok db' (aw_log w @ es) x" if "x \<in> {rn_id run}" for x
        using that row silent by (simp add: run_log_ok_def es claimed_retry_def)
    qed
  qed
qed

lemma unlaunched_updated:
  assumes "k < length js" and "lj_id j = lj_id (js ! k)" and "lj_stage (js ! k) \<noteq> Launched"
    and "distinct (map lj_id (filter (\<lambda>j. lj_stage j \<noteq> Launched) js))"
  shows "distinct (map lj_id (filter (\<lambda>j. lj_stage j \<noteq> Launched) (js[k := j])))"
    "lj_id ` set (filter (\<lambda>j. lj_stage j \<noteq> Launched) (js[k := j])) \<subseteq> lj_id ` set (filter (\<lambda>j. lj_stage j \<noteq> Launched) js)"
    "\<And>x. x \<in> set (filter (\<lambda>j. lj_stage j \<noteq> Launched) (js[k := j])) \<Longrightarrow> x = j
      \<or> (x \<in> set (filter (\<lambda>j. lj_stage j \<noteq> Launched) js) \<and> lj_id x \<noteq> lj_id j)"
proof -
  obtain xs y ys where js: "js = xs @ y # ys" "length xs = k" "y = js ! k"
    using id_take_nth_drop [OF assms(1)] assms(1) by (metis length_take min.absorb4)
  then have u: "js[k := j] = xs @ j # ys" by (metis list_update_length)
  define A where "A = filter (\<lambda>j. lj_stage j \<noteq> Launched) xs"
  define B where "B = filter (\<lambda>j. lj_stage j \<noteq> Launched) ys"
  have new: "filter (\<lambda>j. lj_stage j \<noteq> Launched) (js[k := j]) = A @ (if lj_stage j = Launched then [] else [j]) @ B"
    unfolding u A_def B_def by simp
  have old: "filter (\<lambda>j. lj_stage j \<noteq> Launched) js = A @ y # B"
    unfolding A_def B_def by (subst js(1)) (use js(3) assms(3) in simp)
  have i: "lj_id j = lj_id y" using assms(2) js(3) by simp
  have d: "distinct (map lj_id (A @ y # B))" using assms(4) unfolding old .
  show "distinct (map lj_id (filter (\<lambda>j. lj_stage j \<noteq> Launched) (js[k := j])))"
    "lj_id ` set (filter (\<lambda>j. lj_stage j \<noteq> Launched) (js[k := j])) \<subseteq> lj_id ` set (filter (\<lambda>j. lj_stage j \<noteq> Launched) js)"
    using d unfolding new old by (simp_all add: i) blast?
  show "x = j \<or> (x \<in> set (filter (\<lambda>j. lj_stage j \<noteq> Launched) js) \<and> lj_id x \<noteq> lj_id j)"
    if x: "x \<in> set (filter (\<lambda>j. lj_stage j \<noteq> Launched) (js[k := j]))" for x
  proof (cases "x = j")
    case False
    then have "x \<in> set A \<union> set B" using x unfolding new by (auto split: if_splits)
    moreover have "lj_id y \<notin> lj_id ` (set A \<union> set B)" using d by (simp add: image_Un)
    then have "lj_id x \<noteq> lj_id y" using calculation by (metis imageI)
    ultimately show ?thesis using i unfolding old by simp
  qed simp
qed

lemma launch_step_unlaunched: "launch_step answer j db = Some x \<Longrightarrow> lj_stage j \<noteq> Launched"
  by (cases answer) (auto split: if_splits)

lemma launching_step_sound:
  assumes sound: "automation_sound w" and t: "Launching g a v js \<in> set (aw_tasks w)"
    and step: "task_step (Launching g a v js) (db', ts, ids, es) w"
    and move: "launching_step g a v js k answer (aw_db w) = Some (db', ts, ids, es)"
  shows "automation_sound (resume_task (Launching g a v js) (db', ts, ids, es) w)"
proof -
  let ?t = "Launching g a v js"
  note d = soundD [OF sound] and c = step_context [OF sound t step, unfolded fst_conv snd_conv]
  obtain j where k: "k < length js" and l: "launch_step answer (js ! k) (aw_db w) = Some (db', j, es)"
    and ts: "ts = [Launching g a v (js[k := j])]" and ids: "ids = []"
    using move by (auto simp: launching_step_def split: if_splits)
  let ?i = "lj_id (js ! k)"
  have s: "lj_stage (js ! k) \<noteq> Launched" by (rule launch_step_unlaunched [OF l])
  then have jok: "job_ok (aw_db w) (aw_log w) (js ! k)" using d(6) [OF t] k by simp
  have touched: "run_touched (aw_db w) db' (aw_log w) es (js ! k) j"
    by (rule launch_step_touched [OF l d(1) jok d(8)])
  then have i: "lj_id j = ?i" and other: "\<And>x. x \<noteq> ?i \<Longrightarrow> undisturbed (aw_db w) db' es x"
    and log: "run_log_ok db' (aw_log w @ es) ?i" and j': "lj_stage j \<noteq> Launched \<Longrightarrow> job_ok db' (aw_log w @ es) j"
    by (auto simp: run_touched_def)
  have dis: "distinct (map lj_id (filter (\<lambda>j. lj_stage j \<noteq> Launched) js))" using c(7) by simp
  note u = unlaunched_updated [OF k i s dis]
  have held: "?i \<in> set (held_ids ?t)" using k s by auto
  show ?thesis
  proof (rule sound_resume [OF sound t c(2,3,4), where T = "{?i}"])
    have "job_ok db' (aw_log w @ es) x" if x: "x \<in> set (js[k := j])" "lj_stage x \<noteq> Launched" for x
    proof -
      consider "x = j" | "x \<in> set js" "lj_stage x \<noteq> Launched" "lj_id x \<noteq> ?i" using u(3) [of x] x i by auto
      then show ?thesis
      proof cases
        case 2
        then show ?thesis using d(6) [OF t] by (intro job_undisturbed [OF other]) auto
      qed (use j' x(2) in simp)
    qed
    then show "task_ok (aw_db w) t' \<and> launch_ok db' (aw_log w @ es) t' \<and> pending_ok db' t'" if "t' \<in> set ts" for t'
      using that by (simp add: ts pending_ok_def)
    show "set (held_all ts) \<subseteq> set (held_ids ?t) \<union> set ids \<union> retrying_ids (aw_db w)"
      using u(2) by (auto simp: ts)
    show "distinct (held_all ts)" using u(1) by (simp add: ts)
    show "{?i} \<subseteq> set (held_ids ?t) \<union> retrying_ids (aw_db w)" using held by blast
  qed (use other log in auto)
qed

lemma launching_over_sound:
  assumes sound: "automation_sound w" and t: "Launching g a v js \<in> set (aw_tasks w)"
    and step: "task_step (Launching g a v js) (launching_over g a v js (aw_db w)) w"
  shows "automation_sound (resume_task (Launching g a v js) (launching_over g a v js (aw_db w)) w)"
proof -
  obtain ts where o: "launching_over g a v js (aw_db w) = (aw_db w, ts, [], [])" and ts: "ts = [] \<or> ts = [AccountRead a v]"
    by (auto simp: launching_over_def follows_def)
  note c = step_context [OF sound t step, unfolded o fst_conv snd_conv]
  show ?thesis unfolding o
    by (intro sound_resume [OF sound t c(2,3,4), where T = "{}"])
      (use ts in \<open>auto simp: calm_undisturbed pending_ok_def\<close>)
qed

lemma task_step_sound:
  assumes sound: "automation_sound w" and t: "t \<in> set (aw_tasks w)" and step: "task_step t r w"
  shows "automation_sound (resume_task t r w)"
proof -
  obtain db' ts ids es where r: "r = (db', ts, ids, es)" by (metis prod_cases4)
  show ?thesis
  proof (cases "quiet_task t")
    case True
    then show ?thesis using quiet_step_sound [OF sound t] step r by simp
  next
    case False
    then consider f v cs g now where "t = FiringInsert f v cs g now" | run e g where "t = RelaunchAdmitted run e g"
      | g a v js where "t = Launching g a v js"
      by (cases t) simp_all
    then show ?thesis
    proof cases
      case 1
      then show ?thesis using insert_step_sound [OF sound] t step r by simp
    next
      case 2
      then show ?thesis using relaunch_step_sound [OF sound] t step r by simp
    next
      case 3
      from step have "task_step (Launching g a v js) r w" by (simp add: 3)
      then show ?thesis
      proof cases
        case (launching k answer)
        then show ?thesis using launching_step_sound [OF sound] t step r 3 by simp
      next
        case launched
        then show ?thesis using launching_over_sound [OF sound] t step 3 by simp
      qed
    qed
  qed
qed


subsection \<open>Requests\<close>

lemma sound_world:
  assumes sound: "automation_sound w" and changes: "db_changes (aw_db w) db'" and calm: "runs_calm (aw_db w) db'"
    and fresh: "set ids \<inter> set (aw_ids w) = {}" and ids: "db_ids db' \<subseteq> db_ids (aw_db w) \<union> set ids"
    and tasks: "\<And>t'. t' \<in> set ts \<Longrightarrow> task_ok (aw_db w) t' \<and> \<not> recorded_ids t' \<and> set (held_ids t') \<inter> db_ids db' = {}"
    and held: "set (held_all ts) \<subseteq> set ids" "distinct (held_all ts)" and es: "run_events es = []"
  shows "automation_sound (w\<lparr>aw_db := db', aw_tasks := ts @ aw_tasks w, aw_ids := ids @ aw_ids w, aw_log := aw_log w @ es\<rparr>)"
proof -
  let ?w = "begin_tasks [FinalSweep] w"
  have begun: "automation_sound ?w" using sound by (simp add: automation_sound_def begin_tasks_def pending_ok_def)
  have same: "aw_db ?w = aw_db w" "aw_ids ?w = aw_ids w" "aw_log ?w = aw_log w" by (simp_all add: begin_tasks_def)
  have u: "undisturbed (aw_db w) db' es i" for i
    using calm no_run_events [OF es, of i] by (intro calm_undisturbed) simp_all
  have "automation_sound (resume_task FinalSweep (db', ts, ids, es) ?w)"
  proof (rule sound_resume [OF begun, where T = "{}"])
    show "task_ok (aw_db ?w) t' \<and> launch_ok db' (aw_log ?w @ es) t' \<and> pending_ok db' t'" if "t' \<in> set ts" for t'
      using tasks [OF that] unrecorded_launch_ok [of t'] by (simp add: same pending_ok_def)
  qed (use changes fresh ids held u in \<open>auto simp: same begin_tasks_def\<close>)
  then show ?thesis by (simp add: resume_task_def begin_tasks_def)
qed

lemma sound_quiet:
  assumes "automation_sound w" and "quiet_changes (aw_db w) db'" and "ad_runs db' = ad_runs (aw_db w)"
    and "run_events es = []"
  shows "automation_sound (w\<lparr>aw_db := db', aw_log := aw_log w @ es\<rparr>)"
  using sound_world [OF assms(1) changes_quiet [OF assms(2)] runs_calm_same [OF assms(3)], of "[]" "[]" es]
    quiet_changes_ids [OF assms(2)] assms(4) by simp

lemma sound_begin:
  assumes "automation_sound w" and "set ids \<inter> set (aw_ids w) = {}" and "\<And>t. t \<in> set ts \<Longrightarrow> task_ok (aw_db w) t \<and> \<not> recorded_ids t"
    and "set (held_all ts) \<subseteq> set ids" "distinct (held_all ts)"
  shows "automation_sound (w\<lparr>aw_ids := ids @ aw_ids w, aw_tasks := ts @ aw_tasks w\<rparr>)"
proof -
  have "set (held_ids t) \<inter> db_ids (aw_db w) = {}" if "t \<in> set ts" for t
    using held_member [OF that] assms(2,4) soundD(2) [OF assms(1)] by blast
  then have "automation_sound (w\<lparr>aw_db := aw_db w, aw_tasks := ts @ aw_tasks w, aw_ids := ids @ aw_ids w, aw_log := aw_log w @ []\<rparr>)"
    using assms by (intro sound_world) auto
  moreover have "w\<lparr>aw_ids := ids @ aw_ids w, aw_tasks := ts @ aw_tasks w\<rparr>
      = w\<lparr>aw_db := aw_db w, aw_tasks := ts @ aw_tasks w, aw_ids := ids @ aw_ids w, aw_log := aw_log w @ []\<rparr>"
    by (cases w) simp
  ultimately show ?thesis by (simp only:)
qed

lemma sound_lost:
  assumes sound: "automation_sound w" and t: "t \<in> set (aw_tasks w)"
  shows "automation_sound (w\<lparr>aw_tasks := remove1 t (aw_tasks w)\<rparr>)"
proof -
  note d = soundD [OF sound] and h = held_remove [OF t soundD(4) [OF sound]]
  have m: "u \<in> set (aw_tasks w)" if "u \<in> set (remove1 t (aw_tasks w))" for u
    using that by (meson notin_set_remove1)
  have "set (held_all (remove1 t (aw_tasks w))) \<subseteq> set (aw_ids w)" using h(4) d(3) by blast
  then show ?thesis
    unfolding automation_sound_def using d(1,2) h(2) d(5) [OF m] d(6) [OF m] d(7) [OF m] d(8) by auto
qed

lemma bound_events [simp]: "run_events (case m of None \<Rightarrow> [] | Some m \<Rightarrow> [BoundSet a m]) = []"
  by (simp split: option.split)

lemma edit_runs: "bindAutomationUpdate i f now = Some g \<Longrightarrow> ad_runs (fst (g db)) = ad_runs db"
  by (auto simp: bindAutomationUpdate_def split: if_splits)

lemma event_held: "held_ids (FiringOwner (event_firing a actor claim key ck metadata repositoryId)) = map snd (list_of_option claim)"
  by (cases claim) (simp_all add: event_firing_def list_of_option_def)

lemma automation_step_sound:
  assumes step: "automation_step w w'" and sound: "automation_sound w"
  shows "automation_sound w'"
proof -
  note d = soundD [OF sound]
  from step show ?thesis
  proof cases
    case (task t r)
    then show ?thesis using task_step_sound [OF sound] by simp
  next
    case (lost t)
    then show ?thesis using sound_lost [OF sound] by simp
  next
    case (create a db)
    have db: "db = (aw_db w)\<lparr>ad_automations := ad_automations (aw_db w) @ [a]\<rparr>"
      "au_id a \<notin> au_id ` set (ad_automations (aw_db w))"
      using create(4) by (auto simp: bindAutomationInsert_def list_ex_iff split: if_splits)
    have new: "set [au_id a] \<inter> set (aw_ids w) = {}" by (rule fresh_ids_new [OF create(3)])
    have "db_changes (aw_db w) db" unfolding db(1) using create(2) db(2) by (intro r_into_rtranclp db_change.created)
    then have "automation_sound (w\<lparr>aw_db := db, aw_tasks := [] @ aw_tasks w, aw_ids := [au_id a] @ aw_ids w,
        aw_log := aw_log w @ [BoundSet (au_id a) (au_max_concurrent_runs a)]\<rparr>)"
      using new by (intro sound_world [OF sound] runs_calm_same) (auto simp: db(1) db_ids_def)
    moreover have "w' = w\<lparr>aw_db := db, aw_tasks := [] @ aw_tasks w, aw_ids := [au_id a] @ aw_ids w,
        aw_log := aw_log w @ [BoundSet (au_id a) (au_max_concurrent_runs a)]\<rparr>"
      using create(1) by (cases w) (simp add: generated_def logged_def)
    ultimately show ?thesis by (simp only:)
  next
    case (edit a f now g)
    then show ?thesis
      using sound_quiet [OF sound quiet_edit [OF edit(4,3,2) d(1) [THEN tables_okD(1)]] edit_runs [OF edit(4)] bound_events]
      by (simp add: logged_def in_db_def)
  next
    case (pause i now)
    then show ?thesis using sound_quiet [OF sound quiet_pause _ run_events_simps(1)] by (simp add: in_db_def bindPause_def)
  next
    case (resume i nextRunAt now)
    then show ?thesis using sound_quiet [OF sound quiet_resume _ run_events_simps(1)] by (simp add: in_db_def bindResume_def)
  next
    case (delete i now)
    then show ?thesis using sound_quiet [OF sound quiet_delete _ run_events_simps(1)] by (simp add: in_db_def bindSoftDelete_def)
  next
    case (grants g)
    have "quiet_changes (aw_db w) (aw_db w\<lparr>ad_grants := g\<rparr>)" by (rule r_into_rtranclp) (rule quiet_change.grants)
    then show ?thesis using grants sound_quiet [OF sound _ _ run_events_simps(1)] by (simp add: in_db_def)
  next
    case (receipts rs)
    have "quiet_changes (aw_db w) (aw_db w\<lparr>ad_receipts := rs\<rparr>)" by (rule r_into_rtranclp) (rule quiet_change.receipts)
    then show ?thesis using receipts sound_quiet [OF sound _ _ run_events_simps(1)] by (simp add: in_db_def)
  next
    case (tick t now)
    then show ?thesis using sound_begin [OF sound, of "[]" "[t]"] by (auto simp: begin_tasks_def)
  next
    case (trigger i a userId actor)
    then have "a \<in> set (ad_automations (aw_db w))"
      by (auto simp: getAutomationById_def dest: find_SomeD)
    then show ?thesis
      using trigger(1) sound_begin [OF sound, of "[]" "[FiringOwner (manual_firing a userId actor)]"] known_self
      by (simp add: begin_tasks_def manual_firing_def firing_ok_def list_of_option_def)
  next
    case (event a claim actor key concurrencyKey metadata repositoryId)
    have "firing_ok (aw_db w) (event_firing a actor claim key concurrencyKey metadata repositoryId)"
      using event(2) known_self by (simp add: event_firing_def firing_ok_def)
    then show ?thesis
      using event(1) fresh_ids_new [OF event(3)] event(3)
        sound_begin [OF sound, of "map snd (list_of_option claim)"
          "[FiringOwner (event_firing a actor claim key concurrencyKey metadata repositoryId)]"]
      by (simp add: begin_tasks_def generated_def event_held fresh_ids_def del: held_ids.simps)
  next
    case (callback a i success message)
    then show ?thesis
      using sound_begin [OF sound, of "[]" "complete_begun a i success message (aw_db w)"]
      by (simp add: begin_tasks_def complete_begun_def split: option.splits)
  qed
qed

lemma new_sound: "automation_sound (new_automations grants)"
  by (simp add: automation_sound_def new_automations_def tables_ok_def db_ids_def run_log_ok_def run_at_def)

lemma reachable_sound: "automations_reachable w \<Longrightarrow> automation_sound w"
  by (induction rule: automations_reachable.induct) (auto intro: new_sound automation_step_sound)

end
