(* ===== verification/Automation_Limits.thy ===== *)
theory Automation_Limits
  imports Automation_Safety
begin

text \<open>
  The limits the services keep: a firing strikes its automation once, an automation is auto-paused
  after five strikes, and the active firings of a scope stay within its bound (\<open>limits_ok\<close>).
\<close>

section \<open>Strikes\<close>

definition strikes_on :: "string \<Rightarrow> automation_events \<Rightarrow> nat" where
  "strikes_on a es = sql_count (\<lambda>e. case e of Struck x v \<Rightarrow> x = a | _ \<Rightarrow> False) es"

definition strikes_of :: "string \<Rightarrow> automation_events \<Rightarrow> nat" where
  "strikes_of v es = sql_count (\<lambda>e. case e of Struck a x \<Rightarrow> x = v | _ \<Rightarrow> False) es"

text \<open>The increments still to come.\<close>

fun pending_strike :: "automation_task \<Rightarrow> string option" where
  "pending_strike (AccountIncrement a v) = Some v"
| "pending_strike _ = None"

definition striking :: "string \<Rightarrow> automation_task list \<Rightarrow> nat" where
  "striking v ts = sql_count (\<lambda>t. pending_strike t = Some v) ts"

definition counted_firing :: "string \<Rightarrow> automation_db \<Rightarrow> bool" where
  "counted_firing i db \<longleftrightarrow> list_ex (\<lambda>v. iv_id v = i \<and> iv_failure_counted_at v \<noteq> None) (ad_invocations db)"

lemma strike_simps [simp]:
  "strikes_on a [] = 0" "strikes_on a (xs @ ys) = strikes_on a xs + strikes_on a ys"
  "strikes_on a [Struck x v] = (if x = a then 1 else 0)" "strikes_on a [AutoPaused x] = 0"
  "strikes_on a [FiringAdmitted x v] = 0" "strikes_on a [BoundSet x m] = 0"
  "strikes_of i [] = 0" "strikes_of i (xs @ ys) = strikes_of i xs + strikes_of i ys"
  "strikes_of i [Struck x v] = (if v = i then 1 else 0)" "strikes_of i [AutoPaused x] = 0"
  "strikes_of i [FiringAdmitted x v] = 0" "strikes_of i [BoundSet x m] = 0"
  "striking i [] = 0" "striking i (ts @ us) = striking i ts + striking i us"
  by (simp_all add: strikes_on_def strikes_of_def striking_def)

lemma striking_simps [simp]: "striking i (t # ts) = (if pending_strike t = Some i then 1 else 0) + striking i ts"
  by (simp add: striking_def)

lemma striking_none: "(\<And>t. t \<in> set ts \<Longrightarrow> pending_strike t = None) \<Longrightarrow> striking i ts = 0"
  by (induction ts) simp_all

lemma striking_map [simp]: "(\<And>x. pending_strike (g x) = None) \<Longrightarrow> striking i (map g xs) = 0"
  by (rule striking_none) auto

lemma affected_striking [simp]: "striking i (affected_invocations rs) = 0"
  unfolding affected_invocations_def by (rule striking_map) (simp split: prod.split)

lemma striking_remove: "t \<in> set ts \<Longrightarrow> striking i ts = striking i [t] + striking i (remove1 t ts)"
  by (induction ts) auto

lemma no_strikes: "(\<And>a v. Struck a v \<notin> set es) \<Longrightarrow> strikes_on x es = 0 \<and> strikes_of y es = 0"
  by (induction es) (auto simp: strikes_on_def strikes_of_def split: automation_event.splits)

lemmas task_outcomes = plain_steps firing_owner_def firing_admission_def case_prod_beta firing_insert_def
  firing_skip_insert_def firing_duplicate_def firing_denied_def firing_receipt_def relaunch_claim_def withdraw_run_def
  account_one_shot_def account_mark_def account_increment_def account_pause_def account_reset_def complete_mark_def
  complete_update_def complete_correct_def fail_orphaned_def fail_timed_out_def final_sweep_def tick_due_def

lemma launch_step_strikes:
  "launch_step answer j db = Some (db', j', es) \<Longrightarrow> strikes_on a es = 0 \<and> strikes_of v es = 0"
  by (rule no_strikes, cases answer)
    (auto simp: launch_claim_def launch_prompt_def Let_def case_prod_beta split: if_splits option.splits launch_stage.splits prod.splits)

lemma launch_step_log:
  assumes "launch_step answer j db = Some (db', j', es)"
  shows "AutoPaused a \<notin> set es \<and> BoundSet b m \<notin> set es"
  using assms
  by (cases answer)
    (auto simp: launch_claim_def launch_prompt_def Let_def case_prod_beta split: if_splits option.splits launch_stage.splits prod.splits)

lemma quiet_task_strikes:
  assumes "task_step t r w"
  shows "(\<exists>a v. t = AccountIncrement a v \<and> snd (snd (snd r)) = [Struck a v])
    \<or> (\<forall>a v. strikes_on a (snd (snd (snd r))) = 0 \<and> strikes_of v (snd (snd (snd r))) = 0)"
  using assms
proof cases
  case (launching g a v js k answer)
  then show ?thesis using launch_step_strikes by (auto simp: launching_step_def split: if_splits)
qed (simp_all add: task_outcomes split: sum.split option.split list.split admission_answer.split)

lemma changed_counted:
  assumes "quiet_change db db'" and "counted_firing v db"
  shows "counted_firing v db'"
  using assms(1)
proof cases
  case (counted i now)
  then show ?thesis using assms(2)
    by (auto simp: counted_firing_def list_ex_iff tryMarkInvocationFailureCounted_def update_invocations_def set_sql_update)
qed (use assms(2) in \<open>auto simp: counted_firing_def runs_moved_def update_automations_def\<close>)

lemma quiet_counted: "quiet_changes db db' \<Longrightarrow> counted_firing v db \<Longrightarrow> counted_firing v db'"
  by (induction rule: rtranclp_induct) (auto intro: changed_counted)

lemma effect_counted:
  assumes "step_effect t ids db db'" and "counted_firing v db"
  shows "counted_firing v db'"
  using assms(1) unfolding step_effect_def
proof (elim disjE exE conjE)
  fix x db1
  assume "recorded_or_not x db db1" "quiet_changes db1 db'"
  moreover from this have "counted_firing v db1" using assms(2) by (auto simp: recorded_or_not_def counted_firing_def)
  ultimately show ?thesis by (rule_tac quiet_counted)
next
  fix x cs
  assume "quiet_changes (admitted_db x cs db) db'"
  moreover have "counted_firing v (admitted_db x cs db)" using assms(2) by (simp add: admitted_db_def counted_firing_def)
  ultimately show ?thesis by (rule quiet_counted)
qed (use quiet_counted assms(2) in blast)

lemma updated_row: "x \<in> set xs \<Longrightarrow> p x \<Longrightarrow> f x \<in> set (sql_update p f xs)"
  unfolding set_sql_update by (rule image_eqI [of _ _ x]) simp_all

lemma mark_won:
  assumes "tables_ok db" and "snd (tryMarkInvocationFailureCounted v now db)"
  shows "\<not> counted_firing v db \<and> counted_firing v (fst (tryMarkInvocationFailureCounted v now db))"
proof -
  obtain x where x: "x \<in> set (ad_invocations db)" "iv_id x = v" "iv_failure_counted_at x = None"
    using assms(2) by (auto simp: tryMarkInvocationFailureCounted_def update_invocations_def sql_count_pos)
  have same: "y = x" if "y \<in> set (ad_invocations db)" "iv_id y = v" for y
    using that x(1,2) tables_okD(2) [OF assms(1)] unfolding distinct_map by (blast dest: inj_onD)
  have "\<not> counted_firing v db"
  proof
    assume "counted_firing v db"
    then obtain y where "y \<in> set (ad_invocations db)" "iv_id y = v" "iv_failure_counted_at y \<noteq> None"
      unfolding counted_firing_def list_ex_iff by blast
    with same [of y] x(3) show False by simp
  qed
  moreover have "x\<lparr>iv_failure_counted_at := Some now, iv_updated_at := now\<rparr>
      \<in> set (ad_invocations (fst (tryMarkInvocationFailureCounted v now db)))"
    using updated_row [OF x(1), of "\<lambda>u. iv_id u = v \<and> iv_failure_counted_at u = None"
        "\<lambda>u. u\<lparr>iv_failure_counted_at := Some now, iv_updated_at := now\<rparr>"] x(2,3)
    by (simp add: tryMarkInvocationFailureCounted_def update_invocations_def)
  then have "counted_firing v (fst (tryMarkInvocationFailureCounted v now db))"
    unfolding counted_firing_def list_ex_iff by (rule bexI [rotated]) (simp add: x(2))
  ultimately show ?thesis by blast
qed

lemma task_step_increments:
  assumes "task_step t r w" and "tables_ok (aw_db w)"
  shows "(\<exists>a v. fst (snd r) = [AccountIncrement a v] \<and> \<not> counted_firing v (aw_db w) \<and> counted_firing v (fst r))
    \<or> (\<forall>v. striking v (fst (snd r)) = 0)"
  using assms(1)
proof cases
  case (account_mark a v now)
  then show ?thesis using mark_won [OF assms(2), of v now] by (simp add: account_mark_def case_prod_beta)
next
  case (launching g a v js k answer)
  then show ?thesis by (auto simp: launching_step_def split: if_splits)
qed (simp_all add: task_outcomes denied_def recordOverlapSkip_def account_decided_def firing_launch_def
      split: sum.split option.split list.split admission_answer.split)

definition strikes_ok :: "automation_world \<Rightarrow> bool" where
  "strikes_ok w \<longleftrightarrow> (\<forall>v. strikes_of v (aw_log w) + striking v (aw_tasks w)
     \<le> (if counted_firing v (aw_db w) then 1 else 0))"

lemma strikes_ok_task:
  assumes sound: "automation_sound w" and ok: "strikes_ok w" and t: "t \<in> set (aw_tasks w)" and step: "task_step t r w"
  shows "strikes_ok (resume_task t r w)"
proof -
  obtain db' ts ids es where r: "r = (db', ts, ids, es)" by (metis prod_cases4)
  have kept: "counted_firing v db'" if "counted_firing v (aw_db w)" for v
    using effect_counted [OF step_context(1) [OF sound t step] that] by (simp add: r)
  have held: "striking v (aw_tasks w) = striking v [t] + striking v (remove1 t (aw_tasks w))" for v
    by (rule striking_remove [OF t])
  have es: "strikes_of v es \<le> striking v [t]" for v
    using quiet_task_strikes [OF step] by (auto simp: r)
  have "strikes_of v (aw_log w @ es) + striking v (ts @ remove1 t (aw_tasks w)) \<le> (if counted_firing v db' then 1 else 0)" for v
  proof -
    have before: "strikes_of v (aw_log w) + (striking v [t] + striking v (remove1 t (aw_tasks w)))
        \<le> (if counted_firing v (aw_db w) then 1 else 0)"
      using ok [unfolded strikes_ok_def, THEN spec, of v] unfolding held [of v] .
    show ?thesis
      using task_step_increments [OF step soundD(1) [OF sound]]
    proof (elim disjE exE conjE)
      fix a u
      assume u: "fst (snd r) = [AccountIncrement a u]" "\<not> counted_firing u (aw_db w)" "counted_firing u (fst r)"
      then show ?thesis using before es [of v] kept [of v] by (cases "u = v") (auto simp: r split: if_splits)
    next
      assume "\<forall>v. striking v (fst (snd r)) = 0"
      then show ?thesis using before es [of v] kept [of v] by (auto simp: r split: if_splits)
    qed
  qed
  then show ?thesis by (simp add: strikes_ok_def resume_task_def r del: striking_simps)
qed


section \<open>Rows\<close>

text \<open>Between two tables: every row was there, its bound unchanged, with \<open>n\<close> more failures at most.\<close>

definition rows_within :: "(string \<Rightarrow> nat) \<Rightarrow> automation_db \<Rightarrow> automation_db \<Rightarrow> bool" where
  "rows_within n db db' \<longleftrightarrow> (\<forall>q \<in> set (ad_automations db'). \<exists>a \<in> set (ad_automations db). au_id q = au_id a
     \<and> au_max_concurrent_runs q = au_max_concurrent_runs a
     \<and> au_consecutive_failures q \<le> au_consecutive_failures a + n (au_id a))"

lemma rows_within_same: "ad_automations db' = ad_automations db \<Longrightarrow> rows_within n db db'"
  unfolding rows_within_def by auto

lemma rows_within_refl [simp]: "rows_within n db db"
  by (rule rows_within_same) simp

lemma rows_within_update:
  assumes "\<And>a. p a \<Longrightarrow> au_id (f a) = au_id a \<and> au_max_concurrent_runs (f a) = au_max_concurrent_runs a
     \<and> au_consecutive_failures (f a) \<le> au_consecutive_failures a + n (au_id a)"
    and "ad_automations db1 = ad_automations db"
  shows "rows_within n db (fst (update_automations p f db1))"
  unfolding rows_within_def
proof
  fix q
  assume "q \<in> set (ad_automations (fst (update_automations p f db1)))"
  then obtain a where "a \<in> set (ad_automations db)" "q = (if p a then f a else a)"
    using assms(2) by (auto simp: update_automations_def set_sql_update)
  with assms(1) [of a] show "\<exists>a \<in> set (ad_automations db). au_id q = au_id a
     \<and> au_max_concurrent_runs q = au_max_concurrent_runs a
     \<and> au_consecutive_failures q \<le> au_consecutive_failures a + n (au_id a)"
    by (intro bexI [of _ a]) simp_all
qed

lemma runs_rows [simp]: "ad_automations (fst (update_runs p f db)) = ad_automations db"
  by (simp add: update_runs_def)

lemma runs_moved_rows: "runs_moved db db' \<Longrightarrow> rows_within n db db'"
  by (rule rows_within_same) (auto simp: runs_moved_def)

lemma insert_run_rows: "insert_run i c db = Inr db' \<Longrightarrow> ad_automations db' = ad_automations db"
  by (auto simp: insert_run_def split: if_splits)

lemma insert_runs_rows: "insert_runs i cs db = Inr db' \<Longrightarrow> ad_automations db' = ad_automations db"
  by (induction cs arbitrary: db) (auto split: sum.splits dest: insert_run_rows)

lemma advance_rows:
  assumes "ad_automations db1 = ad_automations db"
  shows "rows_within n db (advance_if v adv g now db1)"
proof (cases adv)
  case None
  then show ?thesis using assms by (simp add: advance_if_def rows_within_same)
next
  case (Some s)
  then show ?thesis
    using assms unfolding advance_if_def bindScheduleAdvance_def by (auto intro!: rows_within_update)
qed

lemma childless_rows [simp]: "ad_automations (fst (bindChildlessInvocation v db)) = ad_automations db"
  by (simp add: bindChildlessInvocation_def)

lemma insert_rows:
  assumes "insertInvocationGuarded v cs scope adv g now db = Inr (db', inserted)"
  shows "rows_within n db db'"
proof -
  obtain db2 where "insert_runs (iv_id v) cs (if inserted then db\<lparr>ad_invocations := ad_invocations db @ [v]\<rparr> else db) = Inr db2"
      "db' = advance_if v adv g now db2"
    using assms unfolding insertInvocationGuarded_def Let_def by (auto split: if_splits sum.splits)
  then show ?thesis using insert_runs_rows by (auto intro: advance_rows split: if_splits)
qed

lemma step_rows:
  assumes "task_step t r w"
  shows "rows_within (\<lambda>a. strikes_on a (snd (snd (snd r)))) (aw_db w) (fst r)"
  using assms
proof cases
  case (owner f reread identity now)
  then show ?thesis
    by (auto simp: firing_owner_def case_prod_beta Let_def resolveCanonicalOwner_def repair_owner_def
        split: option.split intro!: rows_within_update)
next
  case (insert f v cs g now)
  then show ?thesis using insert_rows
    by (auto simp: firing_insert_def split: sum.splits prod.splits)
next
  case (duplicate f now)
  then show ?thesis
    by (auto simp: firing_duplicate_def advanceNextRunAt_def split: option.split intro!: rows_within_update)
next
  case (skip_insert newId f reason advance now)
  then show ?thesis by (simp add: firing_skip_insert_def insertSkippedInvocation_def case_prod_beta advance_rows)
next
  case (denied newId f why now)
  then show ?thesis
    by (auto simp: firing_denied_def recordAuthorizationDenied_def case_prod_beta split: option.split intro!: rows_within_update)
next
  case (receipt f i cs now runs)
  then show ?thesis
    by (auto simp: firing_receipt_def acceptFollowUpReceipt_def update_receipts_def nullish_def intro!: rows_within_same)
next
  case (launching g a v js k answer)
  then obtain db' j es where "launch_step answer (js ! k) (aw_db w) = Some (db', j, es)" "fst r = db'"
    by (auto simp: launching_step_def split: if_splits)
  then show ?thesis using launch_step_runs runs_moved_rows by blast
next
  case (account_mark a v now)
  then show ?thesis
    by (simp add: account_mark_db tryMarkInvocationFailureCounted_def update_invocations_def rows_within_same)
next
  case (account_increment a v now)
  then show ?thesis
    by (auto simp: account_increment_def incrementConsecutiveFailures_def live_automation_def intro!: rows_within_update)
next
  case (complete_update run success message now)
  then show ?thesis by (simp add: runs_moved_rows complete_update_moved)
next
  case (relaunch run e g now)
  then show ?thesis by (simp add: relaunch_claim_db runs_moved_rows runs_moved_claim_retry)
next
  case (withdraw run now)
  then show ?thesis by (simp add: withdraw_run_def case_prod_beta runs_moved_rows runs_moved_withdraw)
next
  case (fail_orphaned now rs ts runs)
  then show ?thesis by (simp add: fail_orphaned_def runs_moved_rows runs_moved_orphans)
next
  case (fail_timed_out now rs ts deadlineMs runs)
  then show ?thesis by (simp add: fail_timed_out_def runs_moved_rows runs_moved_overdue)
next
  case (complete_mark run success message)
  then show ?thesis by (simp add: complete_mark_def runs_moved_rows runs_moved_mark)
next
  case (complete_correct run now)
  then show ?thesis by (simp add: complete_correct_def runs_moved_rows runs_moved_timed_out)
next
  case (admission newId childIds answer f now)
  then show ?thesis by (simp add: firing_admission_def Let_def split: admission_answer.split)
next
  case (tick_due rows launched cron previous targets)
  then show ?thesis by (simp add: tick_due_def Let_def split: list.split)
qed (auto simp: plain_steps account_one_shot_def disableSettledOneShots_def account_pause_def autoPause_def
      account_reset_def resetConsecutiveFailures_def final_sweep_def intro!: rows_within_update)

text \<open>An auto-pause is on its way, or has happened, only after five strikes.\<close>

lemma task_step_pauses:
  assumes "task_step t r w"
  shows "AccountPause a \<in> set (fst (snd r)) \<Longrightarrow> AUTO_PAUSE_THRESHOLD \<le> consecutive_failures a (aw_db w)"
    and "AutoPaused a \<in> set (snd (snd (snd r))) \<Longrightarrow> t = AccountPause a \<and> snd (snd (snd r)) = [AutoPaused a]"
proof -
  show "AUTO_PAUSE_THRESHOLD \<le> consecutive_failures a (aw_db w)" if p: "AccountPause a \<in> set (fst (snd r))"
    using assms
  proof cases
    case (account_threshold x)
    then show ?thesis using p by (auto simp: account_threshold_def split: if_splits)
  next
    case (launching g a v js k answer)
    then show ?thesis using p by (auto simp: launching_step_def split: if_splits)
  qed (use p in \<open>auto simp: task_outcomes denied_def recordOverlapSkip_def account_decided_def affected_invocations_def
      firing_launch_def split: sum.splits option.splits list.splits admission_answer.splits if_splits\<close>)
  show "t = AccountPause a \<and> snd (snd (snd r)) = [AutoPaused a]" if p: "AutoPaused a \<in> set (snd (snd (snd r)))"
    using assms
  proof cases
    case (launching g x v js k answer)
    then obtain db' j es where "launch_step answer (js ! k) (aw_db w) = Some (db', j, es)" "snd (snd (snd r)) = es"
      by (auto simp: launching_step_def split: if_splits)
    then show ?thesis using p launch_step_log by force
  qed (use p in \<open>auto simp: task_outcomes split: sum.splits option.splits list.splits admission_answer.splits if_splits\<close>)
qed


section \<open>Active firings\<close>

definition firings_in_scope :: "string \<Rightarrow> overlap_scope \<Rightarrow> automation_db \<Rightarrow> string list" where
  "firings_in_scope i scope db = remdups (map rn_invocation_id (filter (\<lambda>r. active_run_of i r
     \<and> list_ex (\<lambda>v. iv_id v = rn_invocation_id r \<and> invocation_scope v = scope) (ad_invocations db)) (ad_runs db)))"

lemma in_scope_iff: "x \<in> set (firings_in_scope i s db) \<longleftrightarrow> (\<exists>r \<in> set (ad_runs db). rn_invocation_id r = x \<and> active_run_of i r)
    \<and> (\<exists>v \<in> set (ad_invocations db). iv_id v = x \<and> invocation_scope v = s)"
  unfolding firings_in_scope_def by (auto simp: list_ex_iff)

lemma in_scope_length: "length (firings_in_scope i s db) = card (set (firings_in_scope i s db))"
  by (simp add: firings_in_scope_def length_remdups_card_conv)

lemma active_before:
  assumes "row_move db r q" and "active_run_of i q"
  shows "active_run_of i r"
  using assms by (auto simp: row_move_def same_run_identity_def status_move_def active_run_of_def active_status_def)

lemma scope_counted [simp]: "invocation_scope (v\<lparr>iv_failure_counted_at := x, iv_updated_at := y\<rparr>) = invocation_scope v"
  by (simp add: invocation_scope_def split: option.split)

lemma quiet_change_scope:
  assumes "quiet_change db db'"
  shows "set (firings_in_scope i s db') \<subseteq> set (firings_in_scope i s db)"
  using assms
proof cases
  case runs
  then obtain f where f: "db' = db\<lparr>ad_runs := map f (ad_runs db)\<rparr>" "\<And>r. row_move db r (f r)"
    by (auto simp: runs_moved_def)
  have "rn_invocation_id (f r) = rn_invocation_id r" for r
    using f(2) [of r] by (simp add: row_move_def same_run_identity_def)
  then show ?thesis using active_before [OF f(2)] by (force simp: in_scope_iff f(1))
next
  case (counted j now)
  define f where "f v = (if iv_id v = j \<and> iv_failure_counted_at v = None
    then v\<lparr>iv_failure_counted_at := Some now, iv_updated_at := now\<rparr> else v)" for v :: automation_invocation
  have same: "iv_id (f v) = iv_id v" "invocation_scope (f v) = invocation_scope v" for v by (simp_all add: f_def)
  have db': "db' = db\<lparr>ad_invocations := map f (ad_invocations db)\<rparr>"
    by (simp add: counted tryMarkInvocationFailureCounted_def update_invocations_def sql_update_def f_def)
  have "(\<exists>v \<in> set (ad_invocations db'). iv_id v = x \<and> invocation_scope v = s)
      = (\<exists>v \<in> set (ad_invocations db). iv_id v = x \<and> invocation_scope v = s)" for x
    unfolding db' using same by simp
  then show ?thesis by (auto simp: in_scope_iff db')
qed (auto simp: in_scope_iff update_automations_def)

lemma quiet_scope: "quiet_changes db db' \<Longrightarrow> set (firings_in_scope i s db') \<subseteq> set (firings_in_scope i s db)"
  by (induction rule: rtranclp_induct) (use quiet_change_scope in blast)+

lemma new_firing_scope:
  assumes ok: "tables_ok db" and new: "iv_id v \<notin> iv_id ` set (ad_invocations db)"
    and children: "list_all (new_child v) cs"
  shows "set (firings_in_scope i s (admitted_db v cs db))
     \<subseteq> set (firings_in_scope i s db) \<union> (if iv_automation_id v = i \<and> invocation_scope v = s \<and> cs \<noteq> [] then {iv_id v} else {})"
proof -
  have old: "rn_invocation_id r \<noteq> iv_id v" if "r \<in> set (ad_runs db)" for r
    using tables_okD(9) [OF ok that] new unfolding firing_of_run_def by (metis imageI)
  have child: "active_run_of i (stored_run (iv_id v) c) \<Longrightarrow> iv_automation_id v = i" if "c \<in> set cs" for c
    using children that by (auto simp: list_all_iff new_child_def active_run_of_def stored_run_def)
  have "x \<in> set (firings_in_scope i s db) \<or> (x = iv_id v \<and> iv_automation_id v = i \<and> invocation_scope v = s \<and> cs \<noteq> [])"
    if x: "x \<in> set (firings_in_scope i s (admitted_db v cs db))" for x
  proof -
    obtain r u where r: "r \<in> set (ad_runs (admitted_db v cs db))" "rn_invocation_id r = x" "active_run_of i r"
      and u: "u \<in> set (ad_invocations (admitted_db v cs db))" "iv_id u = x" "invocation_scope u = s"
      using x unfolding in_scope_iff by blast
    show ?thesis
    proof (cases "x = iv_id v")
      case True
      have "u \<notin> set (ad_invocations db)" using u(2) True new by (metis imageI)
      then have "u = v" using u(1) by (simp add: admitted_db_def)
      moreover obtain c where "c \<in> set cs" "r = stored_run (iv_id v) c"
        using r(1,2) old True by (auto simp: admitted_db_def)
      ultimately show ?thesis using True child r(3) u(3) by auto
    next
      case False
      then have "u \<in> set (ad_invocations db)" "r \<in> set (ad_runs db)"
        using u(1,2) r(1,2) by (auto simp: admitted_db_def stored_run_def)
      then show ?thesis using r u unfolding in_scope_iff by blast
    qed
  qed
  then show ?thesis by auto
qed

lemma childless_scope:
  assumes "tables_ok db" and "recorded_or_not v db db1"
  shows "set (firings_in_scope i s db1) \<subseteq> set (firings_in_scope i s db)"
proof (cases "db1 = db")
  case False
  then have v: "db1 = admitted_db v [] db" "\<not> list_ex (same_firing v) (ad_invocations db)"
    using assms(2) by (auto simp: recorded_or_not_def admitted_db_def)
  then have "iv_id v \<notin> iv_id ` set (ad_invocations db)" by (auto simp: list_ex_iff same_firing_def)
  with new_firing_scope [OF assms(1), where v = v and i = i and s = s and cs = "[]"] show ?thesis by (simp add: v(1))
qed simp

text \<open>A step leaves a scope's active firings as they are or fewer, or admits one that does not overlap.\<close>

lemma step_scope:
  assumes ok: "tables_ok db" and effect: "step_effect t ids db db'" and t: "task_ok db t"
  shows "set (firings_in_scope i s db') \<subseteq> set (firings_in_scope i s db)
    \<or> (\<exists>x. set (firings_in_scope i s db') \<subseteq> insert x (set (firings_in_scope i s db))
        \<and> \<not> overlapPredicate i s db \<and> i \<in> au_id ` set (ad_automations db))"
  using effect unfolding step_effect_def
proof (elim disjE exE conjE)
  fix v db1
  assume "recorded_or_not v db db1" "quiet_changes db1 db'"
  then show ?thesis using childless_scope [OF ok] quiet_scope by blast
next
  fix f v cs g now
  assume a: "t = FiringInsert f v cs g now" "\<not> overlapPredicate (iv_automation_id v) (invocation_scope v) db"
    "iv_id v \<notin> db_ids db" "quiet_changes (admitted_db v cs db) db'"
  have c: "list_all (new_child v) cs" and i: "iv_automation_id v = au_id (fi_automation f)" and k: "kind_known db (fi_automation f)"
    using t a(1) by (auto simp: insert_ok_def firing_invocation_def firing_ok_def)
  have n: "iv_id v \<notin> iv_id ` set (ad_invocations db)" using a(3) by (auto simp: db_ids_def)
  have known: "iv_automation_id v \<in> au_id ` set (ad_automations db)"
    using k i unfolding kind_known_def by (metis image_eqI)
  note grown = subset_trans [OF quiet_scope [OF a(4), of i s] new_firing_scope [OF ok n c, of i s]]
  show ?thesis
  proof (cases "iv_automation_id v = i \<and> invocation_scope v = s")
    case True
    then have "set (firings_in_scope i s db') \<subseteq> insert (iv_id v) (set (firings_in_scope i s db))"
      using grown by (auto split: if_splits)
    with True a(2) known show ?thesis by blast
  next
    case False
    then have "set (firings_in_scope i s db') \<subseteq> set (firings_in_scope i s db)"
      using grown by (simp split: if_splits)
    then show ?thesis ..
  qed
qed (use quiet_scope in blast)


section \<open>The invariant of the limits\<close>

definition rows_logged :: "automation_db \<Rightarrow> automation_events \<Rightarrow> bool" where
  "rows_logged db log \<longleftrightarrow> (\<forall>a \<in> set (ad_automations db). au_consecutive_failures a \<le> strikes_on (au_id a) log
     \<and> 1 \<le> au_max_concurrent_runs a \<and> BoundSet (au_id a) (au_max_concurrent_runs a) \<in> set log)"

definition bounds_logged :: "automation_events \<Rightarrow> bool" where
  "bounds_logged log \<longleftrightarrow> (\<forall>a m. BoundSet a m \<in> set log \<longrightarrow> 1 \<le> m \<and> m \<le> MAX_AUTOMATION_CONCURRENT_RUNS)"

definition pauses_ok :: "automation_task list \<Rightarrow> automation_events \<Rightarrow> bool" where
  "pauses_ok ts log \<longleftrightarrow> (\<forall>a. AccountPause a \<in> set ts \<longrightarrow> AUTO_PAUSE_THRESHOLD \<le> strikes_on a log)
     \<and> (\<forall>xs a ys. log = xs @ AutoPaused a # ys \<longrightarrow> AUTO_PAUSE_THRESHOLD \<le> strikes_on a xs)"

definition scopes_ok :: "automation_db \<Rightarrow> automation_events \<Rightarrow> bool" where
  "scopes_ok db log \<longleftrightarrow> (\<forall>i. (firings_in_scope i AutomationScope db = []
       \<or> (\<exists>m. BoundSet i m \<in> set log \<and> int (length (firings_in_scope i AutomationScope db)) \<le> m))
     \<and> (\<forall>k. length (firings_in_scope i (ConcurrencyKeyScope k) db) \<le> 1))"

definition limits_ok :: "automation_world \<Rightarrow> bool" where
  "limits_ok w \<longleftrightarrow> strikes_ok w \<and> rows_logged (aw_db w) (aw_log w) \<and> bounds_logged (aw_log w)
     \<and> pauses_ok (aw_tasks w) (aw_log w) \<and> scopes_ok (aw_db w) (aw_log w)"

lemma rows_logged_step:
  assumes "rows_logged db log" and "rows_within (\<lambda>a. strikes_on a es) db db'"
  shows "rows_logged db' (log @ es)"
  unfolding rows_logged_def
proof
  fix q
  assume "q \<in> set (ad_automations db')"
  then obtain a where a: "a \<in> set (ad_automations db)" "au_id q = au_id a"
      "au_max_concurrent_runs q = au_max_concurrent_runs a"
      "au_consecutive_failures q \<le> au_consecutive_failures a + strikes_on (au_id a) es"
    using assms(2) unfolding rows_within_def by blast
  have "au_consecutive_failures a \<le> strikes_on (au_id a) log \<and> 1 \<le> au_max_concurrent_runs a
      \<and> BoundSet (au_id a) (au_max_concurrent_runs a) \<in> set log"
    using assms(1) a(1) unfolding rows_logged_def by blast
  with a(2-4) show "au_consecutive_failures q \<le> strikes_on (au_id q) (log @ es) \<and> 1 \<le> au_max_concurrent_runs q
      \<and> BoundSet (au_id q) (au_max_concurrent_runs q) \<in> set (log @ es)"
    by (simp del: One_nat_def)
qed

lemma key_scope_free:
  assumes "\<not> overlapPredicate i (ConcurrencyKeyScope k) db"
  shows "firings_in_scope i (ConcurrencyKeyScope k) db = []"
proof (rule ccontr)
  assume "firings_in_scope i (ConcurrencyKeyScope k) db \<noteq> []"
  then obtain x where "x \<in> set (firings_in_scope i (ConcurrencyKeyScope k) db)"
    by (meson hd_in_set)
  then obtain r v where r: "r \<in> set (ad_runs db)" "rn_invocation_id r = x" "active_run_of i r"
    and v: "v \<in> set (ad_invocations db)" "iv_id v = x" "invocation_scope v = ConcurrencyKeyScope k"
    unfolding in_scope_iff by blast
  have "iv_concurrency_key v = Some k" using v(3) by (simp add: invocation_scope_def split: option.splits if_splits)
  then have "holds_key db k r" using v r(2) by (auto simp: holds_key_def list_ex_iff)
  with r assms show False by (auto simp: overlapPredicate_def list_ex_iff)
qed

lemma automation_scope_room:
  assumes "\<not> overlapPredicate i AutomationScope db" and "i \<in> au_id ` set (ad_automations db)" and "rows_logged db log"
  shows "\<exists>m. BoundSet i m \<in> set log \<and> int (length (firings_in_scope i AutomationScope db)) < m"
proof -
  obtain a where a: "a \<in> set (ad_automations db)" "au_id a = i" using assms(2) by blast
  have "au_id a = i \<and> 1 \<le> au_max_concurrent_runs a" using a assms(3) by (auto simp: rows_logged_def)
  then obtain b where b: "find (\<lambda>a. au_id a = i \<and> 1 \<le> au_max_concurrent_runs a) (ad_automations db) = Some b"
    using a(1) by (cases "find (\<lambda>a. au_id a = i \<and> 1 \<le> au_max_concurrent_runs a) (ad_automations db)") (auto simp: find_None_iff)
  have m: "b \<in> set (ad_automations db)" "au_id b = i" using find_SomeD [OF b] by simp_all
  have "set (firings_in_scope i AutomationScope db) \<subseteq> set (map rn_invocation_id (filter (active_run_of i) (ad_runs db)))"
    by (auto simp: firings_in_scope_def)
  then have "length (firings_in_scope i AutomationScope db) \<le> countActiveInvocations i db"
    unfolding in_scope_length countActiveInvocations_def length_remdups_card_conv by (intro card_mono) simp_all
  moreover have "int (countActiveInvocations i db) < au_max_concurrent_runs b"
    using assms(1) b by (simp add: overlapPredicate_def stored_concurrency_limit_def)
  moreover have "BoundSet i (au_max_concurrent_runs b) \<in> set log" using assms(3) m by (auto simp: rows_logged_def)
  ultimately show ?thesis by (intro exI [of _ "au_max_concurrent_runs b"]) simp
qed

lemma scope_length_mono:
  "set (firings_in_scope i s db') \<subseteq> set (firings_in_scope i s db)
     \<Longrightarrow> length (firings_in_scope i s db') \<le> length (firings_in_scope i s db)"
  unfolding in_scope_length by (rule card_mono) simp_all

lemma scope_length_insert:
  assumes "set (firings_in_scope i s db') \<subseteq> insert x (set (firings_in_scope i s db))"
  shows "length (firings_in_scope i s db') \<le> length (firings_in_scope i s db) + 1"
proof -
  have "card (set (firings_in_scope i s db')) \<le> card (insert x (set (firings_in_scope i s db)))"
    using assms by (intro card_mono) simp_all
  also have "\<dots> \<le> card (set (firings_in_scope i s db)) + 1" by (simp add: card_insert_if)
  finally show ?thesis unfolding in_scope_length .
qed

lemma scopes_ok_step:
  assumes ok: "scopes_ok db log" and rows: "rows_logged db log"
    and scope: "\<And>i s. set (firings_in_scope i s db') \<subseteq> set (firings_in_scope i s db)
      \<or> (\<exists>x. set (firings_in_scope i s db') \<subseteq> insert x (set (firings_in_scope i s db))
          \<and> \<not> overlapPredicate i s db \<and> i \<in> au_id ` set (ad_automations db))"
  shows "scopes_ok db' (log @ es)"
  unfolding scopes_ok_def
proof (intro allI conjI)
  fix i k
  show "length (firings_in_scope i (ConcurrencyKeyScope k) db') \<le> 1"
    using scope [of i "ConcurrencyKeyScope k"]
  proof (elim disjE exE conjE)
    assume "set (firings_in_scope i (ConcurrencyKeyScope k) db') \<subseteq> set (firings_in_scope i (ConcurrencyKeyScope k) db)"
    from scope_length_mono [OF this] show ?thesis using ok unfolding scopes_ok_def by (meson le_trans)
  next
    fix x
    assume "set (firings_in_scope i (ConcurrencyKeyScope k) db') \<subseteq> insert x (set (firings_in_scope i (ConcurrencyKeyScope k) db))"
      "\<not> overlapPredicate i (ConcurrencyKeyScope k) db"
    from scope_length_insert [OF this(1)] key_scope_free [OF this(2)] show ?thesis by simp
  qed
next
  fix i
  show "firings_in_scope i AutomationScope db' = []
       \<or> (\<exists>m. BoundSet i m \<in> set (log @ es) \<and> int (length (firings_in_scope i AutomationScope db')) \<le> m)"
    using scope [of i AutomationScope]
  proof (elim disjE exE conjE)
    assume s: "set (firings_in_scope i AutomationScope db') \<subseteq> set (firings_in_scope i AutomationScope db)"
    consider "firings_in_scope i AutomationScope db = []"
      | m where "BoundSet i m \<in> set log" "int (length (firings_in_scope i AutomationScope db)) \<le> m"
      using ok by (auto simp: scopes_ok_def)
    then show ?thesis
    proof cases
      case (2 m)
      then show ?thesis using scope_length_mono [OF s] by (intro disjI2 exI [of _ m]) simp
    qed (use s in simp)
  next
    fix x
    assume s: "set (firings_in_scope i AutomationScope db') \<subseteq> insert x (set (firings_in_scope i AutomationScope db))"
      and o: "\<not> overlapPredicate i AutomationScope db" "i \<in> au_id ` set (ad_automations db)"
    obtain m where "BoundSet i m \<in> set log" "int (length (firings_in_scope i AutomationScope db)) < m"
      using automation_scope_room [OF o rows] by blast
    then show ?thesis using scope_length_insert [OF s] by (intro disjI2 exI [of _ m]) simp
  qed
qed

lemma pauses_ok_step:
  assumes ok: "pauses_ok ts log" and tasks: "\<And>a. AccountPause a \<in> set ts' \<Longrightarrow> AccountPause a \<in> set ts \<or> AUTO_PAUSE_THRESHOLD \<le> strikes_on a log"
    and es: "(\<forall>a. AutoPaused a \<notin> set es) \<or> (\<exists>a. es = [AutoPaused a] \<and> AccountPause a \<in> set ts)"
  shows "pauses_ok ts' (log @ es)"
  unfolding pauses_ok_def
proof (intro allI conjI impI)
  fix a assume "AccountPause a \<in> set ts'"
  then have "AUTO_PAUSE_THRESHOLD \<le> strikes_on a log" using tasks ok by (auto simp: pauses_ok_def)
  then show "AUTO_PAUSE_THRESHOLD \<le> strikes_on a (log @ es)" by simp
next
  fix xs a ys assume e: "log @ es = xs @ AutoPaused a # ys"
  have old: "AUTO_PAUSE_THRESHOLD \<le> strikes_on b us" if "log = us @ AutoPaused b # vs" for us b vs
    using ok that by (auto simp: pauses_ok_def)
  obtain us where "(xs = log @ us \<and> es = us @ AutoPaused a # ys) \<or> (log = xs @ us \<and> us @ es = AutoPaused a # ys)"
    using e by (auto simp: append_eq_append_conv2)
  then show "AUTO_PAUSE_THRESHOLD \<le> strikes_on a xs"
  proof (elim disjE conjE)
    assume u: "xs = log @ us" "es = us @ AutoPaused a # ys"
    then have "es = [AutoPaused a]" "AccountPause a \<in> set ts" using es by (auto simp: Cons_eq_append_conv append_eq_Cons_conv)
    then show ?thesis using ok u by (auto simp: pauses_ok_def)
  next
    assume u: "log = xs @ us" "us @ es = AutoPaused a # ys"
    show ?thesis
    proof (cases us)
      case Nil
      then have "AccountPause a \<in> set ts" using u es by auto
      then show ?thesis using ok u Nil by (simp add: pauses_ok_def)
    next
      case (Cons b vs)
      then show ?thesis using old u by auto
    qed
  qed
qed


lemma step_bounds: "task_step t r w \<Longrightarrow> BoundSet a m \<notin> set (snd (snd (snd r)))"
proof (induction rule: task_step.cases)
  case (launching g a v js k answer)
  then obtain db' j es where "launch_step answer (js ! k) (aw_db w) = Some (db', j, es)" "snd (snd (snd r)) = es"
    by (auto simp: launching_step_def split: if_splits)
  then show ?case using launch_step_log by force
qed (simp_all add: task_outcomes split: sum.split option.split list.split admission_answer.split)

lemma limits_task:
  assumes sound: "automation_sound w" and ok: "limits_ok w" and t: "t \<in> set (aw_tasks w)" and step: "task_step t r w"
  shows "limits_ok (resume_task t r w)"
proof -
  obtain db' ts ids es where r: "r = (db', ts, ids, es)" by (metis prod_cases4)
  have w: "strikes_ok w" "rows_logged (aw_db w) (aw_log w)" "bounds_logged (aw_log w)" "pauses_ok (aw_tasks w) (aw_log w)"
      "scopes_ok (aw_db w) (aw_log w)"
    using ok by (simp_all add: limits_ok_def)
  have struck: "AUTO_PAUSE_THRESHOLD \<le> strikes_on a (aw_log w)"
    if p: "AUTO_PAUSE_THRESHOLD \<le> consecutive_failures a (aw_db w)" for a
  proof -
    obtain b where "b \<in> set (ad_automations (aw_db w))" "au_id b = a" "AUTO_PAUSE_THRESHOLD \<le> au_consecutive_failures b"
      using p by (auto simp: consecutive_failures_def getAutomationById_def AUTO_PAUSE_THRESHOLD_def live_automation_def
          split: option.splits dest!: find_SomeD)
    then show ?thesis using w(2) by (auto simp: rows_logged_def)
  qed
  note strikes = strikes_ok_task [OF sound w(1) t step]
  have rows: "rows_logged db' (aw_log w @ es)"
    using rows_logged_step [OF w(2)] step_rows [OF step] by (simp add: r)
  have bounds: "bounds_logged (aw_log w @ es)"
    using w(3) step_bounds [OF step] by (auto simp: bounds_logged_def r)
  have pauses: "pauses_ok (ts @ remove1 t (aw_tasks w)) (aw_log w @ es)"
  proof (rule pauses_ok_step [OF w(4)])
    show "AccountPause a \<in> set (aw_tasks w) \<or> AUTO_PAUSE_THRESHOLD \<le> strikes_on a (aw_log w)"
      if "AccountPause a \<in> set (ts @ remove1 t (aw_tasks w))" for a
      using that task_step_pauses(1) [OF step, of a] struck [of a] set_remove1_subset [of t "aw_tasks w"]
      by (auto simp: r)
    show "(\<forall>a. AutoPaused a \<notin> set es) \<or> (\<exists>a. es = [AutoPaused a] \<and> AccountPause a \<in> set (aw_tasks w))"
    proof (cases "\<forall>a. AutoPaused a \<notin> set es")
      case False
      then obtain a where "AutoPaused a \<in> set (snd (snd (snd r)))" by (auto simp: r)
      then show ?thesis using task_step_pauses(2) [OF step] t by (auto simp: r)
    qed simp
  qed
  have scopes: "scopes_ok db' (aw_log w @ es)"
    using step_scope [OF soundD(1) [OF sound] step_context(1) [OF sound t step] soundD(5) [OF sound t]]
    by (intro scopes_ok_step [OF w(5,2)]) (simp add: r)
  show ?thesis using strikes rows bounds pauses scopes by (simp add: limits_ok_def resume_task_def r)
qed

lemma limits_request:
  assumes ok: "limits_ok w" and same: "ad_runs db' = ad_runs (aw_db w)" "ad_invocations db' = ad_invocations (aw_db w)"
    and rows: "rows_logged db' (aw_log w @ es)" and es: "\<And>e. e \<in> set es \<Longrightarrow> \<exists>a m. e = BoundSet a m \<and> 1 \<le> m \<and> m \<le> MAX_AUTOMATION_CONCURRENT_RUNS"
    and ts: "\<And>t. t \<in> set ts \<Longrightarrow> pending_strike t = None" "\<And>a. AccountPause a \<notin> set ts"
  shows "limits_ok (w\<lparr>aw_db := db', aw_tasks := ts @ aw_tasks w, aw_ids := ids, aw_log := aw_log w @ es\<rparr>)"
proof -
  have w: "strikes_ok w" "rows_logged (aw_db w) (aw_log w)" "bounds_logged (aw_log w)" "pauses_ok (aw_tasks w) (aw_log w)"
      "scopes_ok (aw_db w) (aw_log w)"
    using ok by (simp_all add: limits_ok_def)
  have quiet: "strikes_of v es = 0" for v using es by (intro no_strikes [THEN conjunct2]) blast
  have "counted_firing v db' = counted_firing v (aw_db w)" for v by (simp add: counted_firing_def same(2))
  then have "strikes_ok (w\<lparr>aw_db := db', aw_tasks := ts @ aw_tasks w, aw_ids := ids, aw_log := aw_log w @ es\<rparr>)"
    using w(1) striking_none [OF ts(1)] quiet by (simp add: strikes_ok_def del: striking_simps)
  moreover have "bounds_logged (aw_log w @ es)" using w(3) es by (fastforce simp: bounds_logged_def)
  moreover have "pauses_ok (ts @ aw_tasks w) (aw_log w @ es)"
  proof (rule pauses_ok_step [OF w(4)])
    show "(\<forall>a. AutoPaused a \<notin> set es) \<or> (\<exists>a. es = [AutoPaused a] \<and> AccountPause a \<in> set (aw_tasks w))" using es by blast
  qed (use ts(2) in simp)
  moreover have "firings_in_scope i s db' = firings_in_scope i s (aw_db w)" for i s
    by (simp add: firings_in_scope_def same)
  then have "scopes_ok db' (aw_log w @ es)" by (intro scopes_ok_step [OF w(5,2)]) simp
  ultimately show ?thesis using rows by (simp add: limits_ok_def)
qed

lemma limits_rows:
  assumes ok: "limits_ok w" and same: "ad_runs db' = ad_runs (aw_db w)" "ad_invocations db' = ad_invocations (aw_db w)"
    and rows: "rows_within (\<lambda>a. 0) (aw_db w) db'"
  shows "limits_ok (w\<lparr>aw_db := db'\<rparr>)"
proof -
  have "rows_logged db' (aw_log w @ [])"
    using ok rows by (intro rows_logged_step) (simp_all add: limits_ok_def)
  from limits_request [OF ok same this, of "[]" "aw_ids w"] show ?thesis by simp
qed

lemma limits_begin:
  assumes ok: "limits_ok w" and "\<And>t. t \<in> set ts \<Longrightarrow> pending_strike t = None" and "\<And>a. AccountPause a \<notin> set ts"
  shows "limits_ok (w\<lparr>aw_ids := ids, aw_tasks := ts @ aw_tasks w\<rparr>)"
proof -
  have "rows_logged (aw_db w) (aw_log w @ [])" using ok by (simp add: limits_ok_def)
  from limits_request [OF ok refl refl this _ assms(2,3), where ids = ids]
  have "limits_ok (w\<lparr>aw_db := aw_db w, aw_tasks := ts @ aw_tasks w, aw_ids := ids, aw_log := aw_log w @ []\<rparr>)" by simp
  moreover have "w\<lparr>aw_ids := ids, aw_tasks := ts @ aw_tasks w\<rparr>
      = w\<lparr>aw_db := aw_db w, aw_tasks := ts @ aw_tasks w, aw_ids := ids, aw_log := aw_log w @ []\<rparr>"
    by (cases w) simp
  ultimately show ?thesis by (simp only:)
qed

lemma limits_lost:
  assumes ok: "limits_ok w" and t: "t \<in> set (aw_tasks w)"
  shows "limits_ok (w\<lparr>aw_tasks := remove1 t (aw_tasks w)\<rparr>)"
proof -
  have fewer: "striking v (remove1 t (aw_tasks w)) \<le> striking v (aw_tasks w)" for v
    unfolding striking_remove [OF t, of v] by (rule le_add2)
  have "strikes_of v (aw_log w) + striking v (aw_tasks w) \<le> (if counted_firing v (aw_db w) then 1 else 0)" for v
    using ok unfolding limits_ok_def strikes_ok_def by blast
  then have "strikes_ok (w\<lparr>aw_tasks := remove1 t (aw_tasks w)\<rparr>)"
    unfolding strikes_ok_def using order_trans [OF add_left_mono [OF fewer]] by simp
  moreover have "pauses_ok (remove1 t (aw_tasks w)) (aw_log w)"
    using ok notin_set_remove1 unfolding limits_ok_def pauses_ok_def by metis
  ultimately show ?thesis using ok by (simp add: limits_ok_def)
qed

lemma edited_rows:
  assumes b: "bindAutomationUpdate (au_id a) f now = Some g" and e: "editable a f" and rows: "rows_logged db log"
  shows "rows_logged (fst (g db)) (log @ (case af_max_concurrent_runs f of None \<Rightarrow> [] | Some m \<Rightarrow> [BoundSet (au_id a) m]))"
    and "ad_runs (fst (g db)) = ad_runs db" and "ad_invocations (fst (g db)) = ad_invocations db"
proof -
  obtain h where g: "g = update_automations (live_automation (au_id a)) h"
    and h: "\<And>x. au_id (h x) = au_id x \<and> au_consecutive_failures (h x) = nullish (af_consecutive_failures f) (au_consecutive_failures x)
      \<and> au_max_concurrent_runs (h x) = nullish (af_max_concurrent_runs f) (au_max_concurrent_runs x)"
    using b by (simp add: bindAutomationUpdate_def split: if_splits) (rule that [OF sym], assumption, simp)
  show "ad_runs (fst (g db)) = ad_runs db" "ad_invocations (fst (g db)) = ad_invocations db"
    by (simp_all add: g update_automations_def)
  show "rows_logged (fst (g db)) (log @ (case af_max_concurrent_runs f of None \<Rightarrow> [] | Some m \<Rightarrow> [BoundSet (au_id a) m]))"
    unfolding rows_logged_def
  proof
    fix q
    assume "q \<in> set (ad_automations (fst (g db)))"
    then obtain x where x: "x \<in> set (ad_automations db)" "q = (if live_automation (au_id a) x then h x else x)"
      by (auto simp: g update_automations_def set_sql_update)
    have old: "au_consecutive_failures x \<le> strikes_on (au_id x) log" "1 \<le> au_max_concurrent_runs x"
      "BoundSet (au_id x) (au_max_concurrent_runs x) \<in> set log"
      using rows x(1) by (simp_all add: rows_logged_def)
    have cf: "af_consecutive_failures f = None" using e by (simp add: editable_def)
    show "au_consecutive_failures q \<le> strikes_on (au_id q) (log @ (case af_max_concurrent_runs f of None \<Rightarrow> [] | Some m \<Rightarrow> [BoundSet (au_id a) m]))
        \<and> 1 \<le> au_max_concurrent_runs q \<and> BoundSet (au_id q) (au_max_concurrent_runs q)
          \<in> set (log @ (case af_max_concurrent_runs f of None \<Rightarrow> [] | Some m \<Rightarrow> [BoundSet (au_id a) m]))"
      using x(2) old h [of x] cf e
      by (cases "af_max_concurrent_runs f") (auto simp: editable_def live_automation_def split: if_splits)
  qed
qed

lemma rows_firings [simp]: "ad_invocations (fst (update_automations p f db)) = ad_invocations db"
  by (simp add: update_automations_def)

lemma request_rows:
  "rows_within n db (fst (bindPause i now db))" "rows_within n db (fst (bindResume i nextRunAt now db))"
  "rows_within n db (fst (bindSoftDelete i now db))"
  unfolding bindPause_def bindResume_def bindSoftDelete_def by (rule rows_within_update; simp)+

lemma limits_step:
  assumes step: "automation_step w w'" and sound: "automation_sound w" and ok: "limits_ok w"
  shows "limits_ok w'"
proof -
  have rows: "rows_logged (aw_db w) (aw_log w)" using ok by (simp add: limits_ok_def)
  from step show ?thesis
  proof cases
    case (task t r)
    then show ?thesis using limits_task [OF sound ok] by simp
  next
    case (lost t)
    then show ?thesis using limits_lost [OF ok] by simp
  next
    case (create a db)
    have db: "db = (aw_db w)\<lparr>ad_automations := ad_automations (aw_db w) @ [a]\<rparr>"
      using create(4) by (auto simp: bindAutomationInsert_def split: if_splits)
    have a: "1 \<le> au_max_concurrent_runs a" "au_max_concurrent_runs a \<le> MAX_AUTOMATION_CONCURRENT_RUNS" "au_consecutive_failures a = 0"
      using create(2) by (simp_all add: createable_def)
    have "rows_logged db (aw_log w @ [BoundSet (au_id a) (au_max_concurrent_runs a)])"
      using rows a by (auto simp: rows_logged_def db)
    then have "limits_ok (w\<lparr>aw_db := db, aw_tasks := [] @ aw_tasks w, aw_ids := [au_id a] @ aw_ids w,
        aw_log := aw_log w @ [BoundSet (au_id a) (au_max_concurrent_runs a)]\<rparr>)"
      by (intro limits_request [OF ok]) (use a in \<open>simp_all add: db\<close>)
    moreover have "w' = w\<lparr>aw_db := db, aw_tasks := [] @ aw_tasks w, aw_ids := [au_id a] @ aw_ids w,
        aw_log := aw_log w @ [BoundSet (au_id a) (au_max_concurrent_runs a)]\<rparr>"
      using create(1) by (cases w) (simp add: generated_def logged_def)
    ultimately show ?thesis by (simp only:)
  next
    case (edit a f now g)
    let ?es = "case af_max_concurrent_runs f of None \<Rightarrow> [] | Some m \<Rightarrow> [BoundSet (au_id a) m]"
    note d = edited_rows [OF edit(4,3) rows]
    have "limits_ok (w\<lparr>aw_db := fst (g (aw_db w)), aw_tasks := [] @ aw_tasks w, aw_ids := aw_ids w, aw_log := aw_log w @ ?es\<rparr>)"
      by (rule limits_request [OF ok d(2,3,1)]) (use edit(3) in \<open>auto simp: editable_def split: option.splits\<close>)
    moreover have "w' = w\<lparr>aw_db := fst (g (aw_db w)), aw_tasks := [] @ aw_tasks w, aw_ids := aw_ids w, aw_log := aw_log w @ ?es\<rparr>"
      using edit(1) by (cases w) (simp add: logged_def in_db_def)
    ultimately show ?thesis by (simp only:)
  next
    case (pause i now)
    then show ?thesis using limits_rows [OF ok _ _ request_rows(1) [of _ _ i now]]
      by (simp add: in_db_def bindPause_def)
  next
    case (resume i nextRunAt now)
    then show ?thesis using limits_rows [OF ok _ _ request_rows(2) [of _ _ i nextRunAt now]]
      by (simp add: in_db_def bindResume_def)
  next
    case (delete i now)
    then show ?thesis using limits_rows [OF ok _ _ request_rows(3) [of _ _ i now]]
      by (simp add: in_db_def bindSoftDelete_def)
  next
    case (grants g)
    then show ?thesis using limits_rows [OF ok, of "aw_db w\<lparr>ad_grants := g\<rparr>"]
      by (simp add: in_db_def rows_within_same)
  next
    case (receipts rs)
    then show ?thesis using limits_rows [OF ok, of "aw_db w\<lparr>ad_receipts := rs\<rparr>"]
      by (simp add: in_db_def rows_within_same)
  next
    case (tick t now)
    then show ?thesis using limits_begin [OF ok, of "[t]" "aw_ids w"] by (auto simp: begin_tasks_def)
  next
    case (trigger i a userId actor)
    then show ?thesis using limits_begin [OF ok, of "[FiringOwner (manual_firing a userId actor)]" "aw_ids w"]
      by (simp add: begin_tasks_def)
  next
    case (event a claim actor key concurrencyKey metadata repositoryId)
    then show ?thesis
      using limits_begin [OF ok, of "[FiringOwner (event_firing a actor claim key concurrencyKey metadata repositoryId)]"]
      by (simp add: begin_tasks_def generated_def)
  next
    case (callback a i success message)
    then show ?thesis using limits_begin [OF ok, of "complete_begun a i success message (aw_db w)" "aw_ids w"]
      by (auto simp: begin_tasks_def complete_begun_def split: option.splits)
  qed
qed

lemma new_limits: "limits_ok (new_automations grants)"
  by (simp add: limits_ok_def new_automations_def strikes_ok_def counted_firing_def rows_logged_def bounds_logged_def
      pauses_ok_def scopes_ok_def firings_in_scope_def)

lemma reachable_limits: "automations_reachable w \<Longrightarrow> limits_ok w"
  by (induction rule: automations_reachable.induct) (auto intro: new_limits limits_step reachable_sound)

end
