(* ===== verification/Automation_Theorems.thy ===== *)
theory Automation_Theorems
  imports Automation_Limits
begin

text \<open>
  What the automations promise in every world they can reach, whatever the interleaving of requests,
  ticks and callbacks and wherever a task is lost.
\<close>

section \<open>Runs over time\<close>

lemma quiet_change_row:
  assumes "quiet_change db db'" and "r \<in> set (ad_runs db)"
  shows "\<exists>q \<in> set (ad_runs db'). row_move db r q"
  using assms(1)
proof cases
  case runs
  then show ?thesis using assms(2) by (auto simp: runs_moved_def)
qed (use assms(2) row_move_refl in \<open>auto simp: update_automations_def tryMarkInvocationFailureCounted_def update_invocations_def\<close>)

lemma change_row:
  assumes "db_change db db'" and "r \<in> set (ad_runs db)"
  shows "\<exists>q \<in> set (ad_runs db'). row_move db r q"
  using assms(1)
proof cases
  case quiet
  then show ?thesis using quiet_change_row assms(2) by blast
qed (use assms(2) row_move_refl in \<open>auto simp: admitted_db_def\<close>)

text \<open>A verdict on a run is changed once at most: by the completion of a run that had timed out.\<close>

definition verdict_kept :: "automation_run \<Rightarrow> automation_run \<Rightarrow> bool" where
  "verdict_kept r q \<longleftrightarrow> rn_id q = rn_id r \<and> rn_attempt q = rn_attempt r
     \<and> ((rn_status q = rn_status r \<and> rn_failure_reason q = rn_failure_reason r)
        \<or> (rn_status r = RunFailed \<and> rn_failure_reason r = Some EXECUTION_TIMEOUT_FAILURE_REASON \<and> rn_status q = RunCompleted))"

lemma row_move_verdict:
  assumes "row_move db r q" and "terminal_status (rn_status r)"
  shows "verdict_kept r q \<and> terminal_status (rn_status q)"
  using assms by (auto simp: row_move_def same_run_identity_def status_move_def verdict_kept_def)

lemma verdict_trans: "verdict_kept r q \<Longrightarrow> verdict_kept q s \<Longrightarrow> verdict_kept r s"
  by (auto simp: verdict_kept_def)

lemma changes_verdict:
  assumes "db_changes db db'" and "r \<in> set (ad_runs db)" and "terminal_status (rn_status r)"
  shows "\<exists>q \<in> set (ad_runs db'). verdict_kept r q \<and> terminal_status (rn_status q)"
  using assms(1)
proof (induction rule: rtranclp_induct)
  case base
  then show ?case using assms(2,3) by (intro bexI [of _ r]) (simp_all add: verdict_kept_def)
next
  case (step db1 db2)
  then obtain q where q: "q \<in> set (ad_runs db1)" "verdict_kept r q" "terminal_status (rn_status q)" by blast
  obtain s where "s \<in> set (ad_runs db2)" "row_move db1 q s" using change_row [OF step.hyps(2) q(1)] by blast
  with row_move_verdict [OF this(2) q(3)] verdict_trans [OF q(2)] show ?case by blast
qed

lemma step_changes:
  assumes step: "automation_step w w'" and sound: "automation_sound w"
  shows "db_changes (aw_db w) (aw_db w')"
  using step
proof cases
  case (task t r)
  then show ?thesis using step_context(2) [OF sound] by (simp add: resume_task_def case_prod_beta)
next
  case (create a db)
  then have "db_change (aw_db w) db"
    by (auto simp: bindAutomationInsert_def split: if_splits intro: db_change.created)
  then show ?thesis using create(1) by (auto simp: generated_def logged_def)
next
  case (edit a f now g)
  then show ?thesis
    using changes_quiet [OF quiet_edit [OF edit(4,3,2) soundD(1) [OF sound, THEN tables_okD(1)]]]
    by (simp add: logged_def in_db_def)
next
  case (receipts rs)
  then show ?thesis
    using changes_quiet [OF r_into_rtranclp, OF quiet_change.receipts] by (simp add: in_db_def)
next
  case (grants g)
  then show ?thesis
    using changes_quiet [OF r_into_rtranclp, OF quiet_change.grants] by (simp add: in_db_def)
qed (simp_all add: in_db_def changes_quiet quiet_pause quiet_resume quiet_delete begin_tasks_def generated_def)

lemma steps_changes:
  assumes "automation_step\<^sup>*\<^sup>* w w'" and "automations_reachable w"
  shows "automations_reachable w' \<and> db_changes (aw_db w) (aw_db w')"
  using assms
proof (induction rule: rtranclp_induct)
  case (step w1 w2)
  then have "automations_reachable w1" "db_changes (aw_db w) (aw_db w1)" by simp_all
  with step_changes [OF step.hyps(2) reachable_sound] step.hyps(2) show ?case
    by (auto intro: automations_reachable.step)
qed simp

section \<open>Launches\<close>

text \<open>
  C16. A run's instructions are sent to a session at most once, however often its launch is retried,
  recovered or reported twice: a launch that may have reached the prompt is never retried.\<close>

theorem first_prompt_is_sent_once:
  assumes "automations_reachable w"
  shows "prompts_of i (aw_log w) \<le> 1"
  using soundD(8) [OF reachable_sound [OF assms], of i] by (simp add: run_log_ok_def split: option.splits)

text \<open>
  C17. A run claims a session at most once per attempt, and has one attempt and at most
  \<open>MAX_AUTOMATION_RETRIES\<close> retries, whatever the automation is edited to in the meantime.\<close>

theorem launches_are_bounded:
  assumes "automations_reachable w"
  shows "claims_of i (aw_log w) \<le> 1 + MAX_AUTOMATION_RETRIES"
proof (cases "run_at (aw_db w) i")
  case None
  then show ?thesis using soundD(8) [OF reachable_sound [OF assms], of i] by (simp add: run_log_ok_def)
next
  case (Some r)
  have "rn_attempt r \<le> 1 + MAX_AUTOMATION_RETRIES"
    using tables_okD(8) [OF soundD(1) [OF reachable_sound [OF assms]]] run_at_id [OF Some] by blast
  with Some soundD(8) [OF reachable_sound [OF assms], of i] show ?thesis by (simp add: run_log_ok_def)
qed


text \<open>
  C39. Every run in progress comes due for a sweep of the scheduler: from some time on it is among the
  orphaned launches, the runs past their deadline or the retries to settle, for every sweep whose limit
  leaves room for it.\<close>

theorem every_active_run_comes_due:
  assumes "automations_reachable w" and "r \<in> set (ad_runs (aw_db w))" and "active_status (rn_status r)"
    and "length (ad_runs (aw_db w)) \<le> limit"
  shows "\<exists>due. \<forall>now \<ge> due.
       r \<in> set (getOrphanedStartingRuns now ORPHAN_THRESHOLD_MS limit (aw_db w))
         \<union> set (getRunsPastExecutionDeadline now deadlineMs limit (aw_db w))
         \<union> set (getRetriesToSettle now limit (aw_db w))"
proof -
  have all: "set (take limit (sort_key k (filter p (ad_runs (aw_db w))))) = set (filter p (ad_runs (aw_db w)))"
    for p and k :: "automation_run \<Rightarrow> int"
    using le_trans [OF length_filter_le assms(4)] by simp
  have row: "run_row_ok r" using tables_okD(7) [OF soundD(1) [OF reachable_sound [OF assms(1)]] assms(2)] .
  consider "rn_status r = RunStarting" | d where "rn_status r = RunRunning" "rn_execution_deadline_at r = Some d"
    | t where "rn_status r = RunRetrying" "rn_retry_at r = Some t"
    using assms(3) row by (auto simp: active_status_def run_row_ok_def)
  then show ?thesis
  proof cases
    case 1
    then show ?thesis
      using assms(2) unfolding getOrphanedStartingRuns_def all
      by (intro exI [of _ "rn_created_at r + ORPHAN_THRESHOLD_MS + 1"]) (auto simp: orphaned_starting_def)
  next
    case (2 d)
    then show ?thesis
      using assms(2) unfolding getRunsPastExecutionDeadline_def all
      by (intro exI [of _ "d + 1"]) (auto simp: past_execution_deadline_def)
  next
    case (3 t)
    then show ?thesis
      using assms(2) unfolding getRetriesToSettle_def all by (intro exI [of _ t]) auto
  qed
qed

section \<open>Firings\<close>

text \<open>
  C19. Firings do not pile up: an automation has at most as many active firings of its own scope as one of
  the bounds it was given, which is ten at most, and one active firing per concurrency key, even when
  ticks and events race for the last place.\<close>

theorem firings_stay_within_their_bound:
  assumes "automations_reachable w"
  shows "(firings_in_scope i AutomationScope (aw_db w) = []
       \<or> (\<exists>m. BoundSet i m \<in> set (aw_log w) \<and> m \<le> MAX_AUTOMATION_CONCURRENT_RUNS
             \<and> int (length (firings_in_scope i AutomationScope (aw_db w))) \<le> m))
    \<and> length (firings_in_scope i (ConcurrencyKeyScope k) (aw_db w)) \<le> 1"
  using reachable_limits [OF assms] unfolding limits_ok_def scopes_ok_def bounds_logged_def by meson

text \<open>
  C21. A one-shot is not lost: as long as it is live and enabled, it is due at its time or the firing for
  that time is on record.\<close>

theorem one_shots_are_not_lost:
  assumes "automations_reachable w" and "a \<in> set (ad_automations (aw_db w))"
    and "au_schedule_once_at a = Some t" and "au_enabled a" and "au_deleted_at a = None"
  shows "au_next_run_at a = Some t
    \<or> (\<exists>v \<in> set (ad_invocations (aw_db w)). iv_automation_id v = au_id a \<and> iv_source v = SourceSchedule
          \<and> iv_scheduled_at v = Some t)"
  using tables_okD(6) [OF soundD(1) [OF reachable_sound [OF assms(1)]] assms(2)] assms(3-5)
  by (auto simp: one_shot_ok_def slot_recorded_def)

section \<open>Failures\<close>

definition struck_firings :: "string \<Rightarrow> automation_events \<Rightarrow> string list" where
  "struck_firings a es = List.map_filter (\<lambda>e. case e of Struck x v \<Rightarrow> if x = a then Some v else None | _ \<Rightarrow> None) es"

lemma struck_simps [simp]:
  "struck_firings a [] = []" "struck_firings a (Struck x v # es) = (if x = a then v # struck_firings a es else struck_firings a es)"
  "(\<And>x v. e \<noteq> Struck x v) \<Longrightarrow> struck_firings a (e # es) = struck_firings a es"
  by (simp_all add: struck_firings_def map_filter_simps split: automation_event.split)

lemma struck_length: "length (struck_firings a es) = strikes_on a es"
  by (induction es) (auto simp: struck_firings_def map_filter_simps strikes_on_def split: automation_event.split)

lemma struck_count: "count_list (struck_firings a es) v \<le> strikes_of v es"
  by (induction es) (auto simp: struck_firings_def map_filter_simps strikes_of_def split: automation_event.split)

lemma distinct_by_count: "(\<And>v. count_list xs v \<le> 1) \<Longrightarrow> distinct xs"
proof (induction xs)
  case (Cons x xs)
  have "count_list xs v \<le> 1" for v using Cons.prems [of v] by (simp split: if_splits)
  moreover have "x \<notin> set xs" using Cons.prems [of x] by (simp add: count_list_0_iff)
  ultimately show ?case using Cons.IH by simp
qed simp


text \<open>
  C40. The status of a firing is the same whether the query derives it or the code does, from the counts of
  the firing's runs.\<close>

theorem derived_status_agrees:
  "DERIVED_INVOCATION_STATUS_SQL rs = deriveInvocationStatus
     \<lparr>ra_total = length rs, ra_active = sql_count (\<lambda>r. active_status (rn_status r)) rs,
      ra_retrying = status_count RunRetrying rs, ra_failed = status_count RunFailed rs,
      ra_completed = status_count RunCompleted rs, ra_skipped = status_count RunSkipped rs,
      rc_unauthorized = status_count RunUnauthorized rs, rc_starting = status_count RunStarting rs\<rparr>"
proof -
  have active: "sql_count (\<lambda>r. active_status (rn_status r)) rs
      = sql_count (\<lambda>r. rn_status r \<in> {RunStarting, RunRunning}) rs + status_count RunRetrying rs"
    by (induction rs) (auto simp: status_count_def active_status_def)
  have starting: "sql_count (\<lambda>r. rn_status r \<noteq> RunStarting) rs + status_count RunStarting rs = length rs"
    by (induction rs) (auto simp: status_count_def)
  show ?thesis
    using active starting by (auto simp: DERIVED_INVOCATION_STATUS_SQL_def deriveInvocationStatus_def)
qed


section \<open>A run of the scheduler\<close>

text \<open>Requests made one after another, each answered in the simplest way: an automation that anyone may
  trigger, on a repository that resolves or does not (\<open>err\<close>).\<close>

definition nightly :: automation_row where
  "nightly = \<lparr>au_id = ''n'', au_name = ''nightly'', au_instructions = ''tidy'', au_trigger_type = ''schedule'',
     au_schedule_cron = None, au_schedule_once_at = Some 100, au_schedule_tz = ''UTC'', au_harness = ''h'',
     au_model = ''m'', au_reasoning_effort = None, au_enabled = True, au_max_concurrent_runs = 1,
     au_next_run_at = Some 100, au_consecutive_failures = 0, au_max_retries = 2, au_created_by = ''u'',
     au_user_id = Some ''u'', au_owner_team_id = None, au_created_at = 1, au_updated_at = 1,
     au_deleted_at = None, au_event_type = None, au_trigger_config = None, au_trigger_auth_data = None\<rparr>"

definition demo_repository :: "string option \<Rightarrow> repository_resolution" where
  "demo_repository err = \<lparr>rr_requested = \<lparr>rp_owner = ''o'', rp_name = ''r'', rp_repoId = Some 1, rp_branch = None\<rparr>,
     rr_repository = None, rr_error = err\<rparr>"

definition demo_id :: "nat \<Rightarrow> automation_world \<Rightarrow> string" where
  "demo_id n w = replicate (n + length (aw_ids w)) (CHR ''i'')"

fun demo_answer :: "launch_stage \<Rightarrow> launch_answer" where
  "demo_answer ToClaim = AnswerClaim None ''s'' 200 1000 Replied"
| "demo_answer (ToCreate s c) = AnswerCreate None 1000 Replied"
| "demo_answer (ToInitialize s) = AnswerInitialize None"
| "demo_answer (ToPrompt s) = AnswerPrompt None"
| "demo_answer ToMark = AnswerMark Replied"
| "demo_answer (ToRecord e r) = AnswerRecord 200 Replied"
| "demo_answer Launched = AnswerMark Replied"

fun demo_outcome :: "string option \<Rightarrow> automation_task \<Rightarrow> automation_world \<Rightarrow> task_outcome option" where
  "demo_outcome err (FiringOwner f) w = Some (firing_owner f None None 150 (aw_db w))"
| "demo_outcome err (FiringOverlap f now) w = Some (firing_overlap f now (aw_db w))"
| "demo_outcome err (FiringAdmission f now) w =
     (if fresh_ids (demo_id 1 w # [demo_id 2 w]) w
      then Some (firing_admission f now (AdmissionGranted [demo_repository err] [] None) (demo_id 1 w) [demo_id 2 w] (aw_db w))
      else None)"
| "demo_outcome err (FiringInsert f v cs g now) w = Some (firing_insert f v cs g now (aw_db w))"
| "demo_outcome err (Launching g a v js) w =
     (if list_all (\<lambda>j. lj_stage j = Launched) js then Some (launching_over g a v js (aw_db w))
      else launching_step g a v js 0 (demo_answer (lj_stage (js ! 0))) (aw_db w))"
| "demo_outcome err (AccountRead a v) w = Some (account_read a v (aw_db w))"
| "demo_outcome err (AccountOneShot a v agg) w = Some (account_one_shot a v agg 300 (aw_db w))"
| "demo_outcome err (AccountMark a v) w = Some (account_mark a v 300 (aw_db w))"
| "demo_outcome err (AccountIncrement a v) w = Some (account_increment a v 300 (aw_db w))"
| "demo_outcome err (AccountThreshold a) w = Some (account_threshold a (aw_db w))"
| "demo_outcome err (AccountPause a) w = Some (account_pause a 300 (aw_db w))"
| "demo_outcome err (AccountReset a) w = Some (account_reset a 300 (aw_db w))"
| "demo_outcome err (CompleteMark r success m) w = Some (complete_mark r success m (aw_db w))"
| "demo_outcome err (CompleteUpdate r success m) w = Some (complete_update r success m 300 (aw_db w))"
| "demo_outcome err (CompleteCorrect r now) w = Some (complete_correct r now (aw_db w))"
| "demo_outcome err _ w = None"

lemma demo_outcome_step: "demo_outcome err t w = Some r \<Longrightarrow> task_step t r w"
  by (cases t) (auto split: if_splits intro: task_step.intros)

text \<open>The first task runs until there is none, or for \<open>n\<close> steps.\<close>

fun demo_tasks :: "nat \<Rightarrow> string option \<Rightarrow> automation_world \<Rightarrow> automation_world" where
  "demo_tasks 0 err w = w"
| "demo_tasks (Suc n) err w =
     (case aw_tasks w of
        [] \<Rightarrow> w
      | t # ts \<Rightarrow> (case demo_outcome err t w of None \<Rightarrow> w | Some r \<Rightarrow> demo_tasks n err (resume_task t r w)))"

lemma demo_run_steps: "automation_step\<^sup>*\<^sup>* w (demo_tasks n err w)"
proof (induction n arbitrary: w)
  case (Suc n)
  show ?case
  proof (cases "aw_tasks w")
    case (Cons t ts)
    show ?thesis
    proof (cases "demo_outcome err t w")
      case (Some r)
      then have "automation_step w (resume_task t r w)"
        using Cons demo_outcome_step by (intro automation_step.task) simp_all
      then show ?thesis using Cons Some Suc by (auto intro: converse_rtranclp_into_rtranclp)
    qed (simp add: Cons)
  qed simp
qed simp

definition demo_created :: automation_world where
  "demo_created = generated [''n''] (logged [BoundSet ''n'' 1] (new_automations []\<lparr>aw_db := (aw_db (new_automations []))\<lparr>ad_automations := [nightly]\<rparr>\<rparr>))"

text \<open>A person triggers it, and a callback reports how its first run ended.\<close>

definition demo_trigger :: "string option \<Rightarrow> automation_world \<Rightarrow> automation_world" where
  "demo_trigger err w = (case getAutomationById ''n'' (aw_db w) of
       None \<Rightarrow> w
     | Some a \<Rightarrow> demo_tasks 15 err (begin_tasks [FiringOwner (manual_firing a ''u'' ActorPerson)] w))"

definition demo_callback :: "bool \<Rightarrow> automation_world \<Rightarrow> automation_world" where
  "demo_callback success w = (case ad_runs (aw_db w) of
       [] \<Rightarrow> w
     | r # rs \<Rightarrow> demo_tasks 15 None (begin_tasks (complete_begun ''n'' (rn_id r) success ''lost'' (aw_db w)) w))"

lemma demo_created_reachable: "automations_reachable demo_created"
proof -
  have "automation_step (new_automations []) (generated [au_id nightly] (logged [BoundSet (au_id nightly) (au_max_concurrent_runs nightly)]
      (new_automations []\<lparr>aw_db := (aw_db (new_automations []))\<lparr>ad_automations := [nightly]\<rparr>\<rparr>)))"
    by (rule automation_step.create) code_simp+
  then have "automation_step (new_automations []) demo_created" by (simp add: demo_created_def nightly_def)
  then show ?thesis by (rule automations_reachable.step [OF automations_reachable.new])
qed

lemma demo_trigger_steps: "automation_step\<^sup>*\<^sup>* w (demo_trigger err w)"
proof (cases "getAutomationById ''n'' (aw_db w)")
  case (Some a)
  then have "automation_step w (begin_tasks [FiringOwner (manual_firing a ''u'' ActorPerson)] w)"
    by (rule automation_step.trigger)
  then show ?thesis using demo_run_steps Some by (auto simp: demo_trigger_def intro: converse_rtranclp_into_rtranclp)
qed (simp add: demo_trigger_def)

lemma demo_callback_steps: "automation_step\<^sup>*\<^sup>* w (demo_callback success w)"
  using demo_run_steps by (auto simp: demo_callback_def split: list.split
      intro: converse_rtranclp_into_rtranclp automation_step.callback)

definition demo_running :: automation_world where "demo_running = demo_trigger None demo_created"

definition demo_paused :: automation_world where
  "demo_paused = (demo_trigger (Some ''gone'') ^^ 5) demo_created"

lemma demo_reach: "automations_reachable w \<Longrightarrow> automation_step\<^sup>*\<^sup>* w w' \<Longrightarrow> automations_reachable w'"
  using steps_changes by blast

lemma demo_running_reachable: "automations_reachable demo_running"
  unfolding demo_running_def by (rule demo_reach [OF demo_created_reachable demo_trigger_steps])

lemma demo_paused_reachable: "automations_reachable demo_paused"
proof -
  have "automations_reachable ((demo_trigger err ^^ n) demo_created)" for err n
    by (induction n) (auto intro: demo_created_reachable demo_reach demo_trigger_steps)
  then show ?thesis by (simp add: demo_paused_def)
qed


theorem first_prompt_is_sent_once_witness:
  "prompts_of ''iii'' (aw_log demo_running) = 1 \<and> prompts_of ''iii'' (aw_log demo_running) \<le> 1"
proof
  show "prompts_of ''iii'' (aw_log demo_running) = 1" by code_simp
  show "prompts_of ''iii'' (aw_log demo_running) \<le> 1"
    by (rule first_prompt_is_sent_once [OF demo_running_reachable])
qed

theorem launches_are_bounded_witness:
  "claims_of ''iii'' (aw_log demo_running) = 1 \<and> claims_of ''iii'' (aw_log demo_running) \<le> 1 + MAX_AUTOMATION_RETRIES"
proof
  show "claims_of ''iii'' (aw_log demo_running) = 1" by code_simp
  show "claims_of ''iii'' (aw_log demo_running) \<le> 1 + MAX_AUTOMATION_RETRIES"
    by (rule launches_are_bounded [OF demo_running_reachable])
qed


theorem every_active_run_comes_due_witness:
  "\<exists>due. \<forall>now \<ge> due. hd (ad_runs (aw_db demo_running)) \<in>
     set (getOrphanedStartingRuns now ORPHAN_THRESHOLD_MS RECOVERY_SWEEP_LIMIT (aw_db demo_running))
     \<union> set (getRunsPastExecutionDeadline now 1000 RECOVERY_SWEEP_LIMIT (aw_db demo_running))
     \<union> set (getRetriesToSettle now RECOVERY_SWEEP_LIMIT (aw_db demo_running))"
proof -
  have "hd (ad_runs (aw_db demo_running)) \<in> set (ad_runs (aw_db demo_running))"
    "active_status (rn_status (hd (ad_runs (aw_db demo_running))))"
    "length (ad_runs (aw_db demo_running)) \<le> RECOVERY_SWEEP_LIMIT"
    by code_simp+
  from every_active_run_comes_due [OF demo_running_reachable this, of 1000] show ?thesis .
qed

theorem firings_stay_within_their_bound_witness:
  "firings_in_scope ''n'' AutomationScope (aw_db demo_running) = [''ii'']
   \<and> (\<exists>m. BoundSet ''n'' m \<in> set (aw_log demo_running) \<and> m \<le> MAX_AUTOMATION_CONCURRENT_RUNS \<and> 1 \<le> m)"
proof -
  have f: "firings_in_scope ''n'' AutomationScope (aw_db demo_running) = [''ii'']" by code_simp
  with firings_stay_within_their_bound [OF demo_running_reachable, of "''n''"] show ?thesis by simp
qed

theorem one_shots_are_not_lost_witness:
  "au_next_run_at nightly = Some 100 \<or> (\<exists>v \<in> set (ad_invocations (aw_db demo_created)).
     iv_automation_id v = au_id nightly \<and> iv_source v = SourceSchedule \<and> iv_scheduled_at v = Some 100)"
proof -
  have "nightly \<in> set (ad_automations (aw_db demo_created))" "au_schedule_once_at nightly = Some 100"
    "au_enabled nightly" "au_deleted_at nightly = None"
    by code_simp+
  from one_shots_are_not_lost [OF demo_created_reachable this] show ?thesis .
qed


end
