(* ===== verification/Spec2Isabelle.thy ===== *)
theory Spec2Isabelle
  imports Launch_Gate Host_Alarms Alarm_Policy Shutdown_Theorems Turn_Safety Access_Safety
    Connection_Theorems Job_Theorems Automation_Theorems
begin

text \<open>
  A verification development for the session control plane of
  \<open>packages/control-plane\<close>: the part of the program that keeps one coding session, its queue
  of prompts and its sandbox; and the scheduler that starts sessions of its own accord. Paths below are relative to \<open>packages/control-plane/src\<close> unless
  they say otherwise.

  \<^bold>\<open>The program.\<close> A session is one object (a Durable Object, or one actor of the Node host) with a
  small SQL database of its own. Clients and bots queue prompts in it; the prompt queue sends
  them, one at a time, to an agent inside a remote sandbox; the agent's events come back over a
  socket and are logged. The lifecycle manager launches, watches and stops the sandbox; the
  shutdown coordinator makes sure that the work in it is saved before it goes away and that saved
  work is what the next launch starts from. Everything that must happen later hangs off one
  alarm per session, which a scheduler multiplexes. Automations fire on a schedule, by hand or on an
  event: a firing launches one run per target, each of which claims a session and sends it its
  instructions; a failed launch is retried, a lost run is swept, and five failed firings in a row
  pause the automation.

  \<^bold>\<open>Theories and what they model.\<close>

  \<^item> \<open>Prelude\<close>: epoch times, nullish and truthy values, decimal text, and the SQL statements
    (\<open>sql_update\<close>, \<open>sql_count\<close>, \<open>first_by\<close>) over a table whose rows are kept in insertion order,
    with their lemmas. \<open>Text_Codec\<close>: JSON string literals, percent encoding and the cursors of
    \<open>session/message-cursor.ts\<close>. \<open>Paging\<close>: the locale of keyset pages.
  \<^item> \<open>Session_Types\<close>: the enumerations of \<open>packages/shared/src/types/sessions.ts\<close> and the
    predicates over them.
  \<^item> The tables. \<open>Session_Core\<close> (\<open>session/session-core-repository.ts\<close>,
    \<open>session/repository-target.ts\<close>), \<open>Event_Store\<close> (\<open>session/event-repository.ts\<close>),
    \<open>Attachment_Store\<close> (\<open>session/session-attachment-repository.ts\<close>), \<open>Message_Store\<close>
    (\<open>session/message-repository.ts\<close>), \<open>Sandbox_Row\<close> (\<open>session/sandbox-repository.ts\<close>): one
    function per statement or transaction, under the name the repository gives it.
    \<open>Prompt_Lifecycle\<close> holds what the prompt table guarantees over histories;
    \<open>Prompt_Ledger\<close> an abstract specification of it and the refinement.
  \<^item> The turns. \<open>Session_Status\<close> (\<open>session/session-status-service.ts\<close>), \<open>Execution_Stop\<close>
    (\<open>session/message-failure-service.ts\<close>, \<open>session/execution-stop-coordinator.ts\<close>,
    \<open>session/budget-service.ts\<close>, \<open>session/sandbox-events/execution.handler.ts\<close>) and
    \<open>Message_Queue\<close> (\<open>session/message-queue.ts\<close>, \<open>session/sandbox-recovery.ts\<close>,
    \<open>session/alarm/handler.ts\<close>, the session lifecycle requests) share one world.
    \<open>Dispatch_Order\<close> is the locale that says what the queue needs of the prompt table,
    \<open>Turn_Moves\<close> the step relation of the turns and its decomposition into guarded moves,
    \<open>Turn_Safety\<close> the invariant and the properties.
  \<^item> The sandbox. \<open>Lifecycle_Decisions\<close> (\<open>sandbox/lifecycle/decisions.ts\<close>), \<open>Alarm_Policy\<close>
    (\<open>sandbox/lifecycle/alarm-policy.ts\<close>), \<open>Launch_Gate\<close> (the circuit breaker, the reservation
    of a generation and the choice of a launch in \<open>sandbox/lifecycle/manager.ts\<close>).
  \<^item> Stopping. \<open>Shutdown_Record\<close> (\<open>session/sandbox-shutdown-repository.ts\<close>,
    \<open>checkpoint-settlement.ts\<close>, \<open>packages/shared/src/types/sandbox-shutdown.ts\<close>),
    \<open>Shutdown_Coordinator\<close> (\<open>session/sandbox-shutdown.ts\<close>), \<open>Shutdown_Safety\<close> its invariant,
    \<open>Shutdown_Theorems\<close> what it promises its callers.
  \<^item> Access. \<open>Access_Rules\<close> (\<open>packages/shared/src/rbac.ts\<close>,
    \<open>packages/shared/src/types/session-access.ts\<close>), \<open>Session_Admission\<close>
    (\<open>authorization/session-admission.ts\<close> and the scope a socket resolves), \<open>Route_Admission\<close>
    (\<open>routing/route-admission.ts\<close> and what it calls), \<open>Access_Safety\<close> what they guarantee.
  \<^item> Connections. \<open>Participants\<close> (\<open>session/participant-repository.ts\<close>,
    \<open>session/participant-service.ts\<close>), \<open>Session_Sockets\<close> (\<open>session/websocket-manager.ts\<close>,
    \<open>session/ws-client-mapping-repository.ts\<close>, \<open>session/messenger.ts\<close>: the host's sockets and
    their tags, the instance's own registry and the tables under it), \<open>Connection_Admission\<close>
    (\<open>session/connection-authenticator.ts\<close>, \<open>session/presence-service.ts\<close>), \<open>Connection_Routing\<close>
    (\<open>session/message-router.ts\<close>, \<open>session/disconnect-handler.ts\<close> and the step relation
    \<open>connection_step\<close>), \<open>Connection_Invariants\<close> and \<open>Connection_Safety\<close> its invariant,
    \<open>Connection_Demo\<close> worked runs of it, \<open>Connection_Theorems\<close> what it promises.
  \<^item> Alarms. \<open>Alarm_Scheduler\<close> (\<open>session/alarm/scheduler.ts\<close>) over the locale \<open>alarm_slot\<close>, which
    \<open>Host_Alarms\<close> (\<open>node/host-alarm-index.ts\<close>, \<open>node/host-alarm-clock.ts\<close>) implements.
  \<^item> Jobs. \<open>Job_Queue\<close> (\<open>jobs.ts\<close>, \<open>node/job-store.ts\<close>, \<open>node/job-queue.ts\<close>) the background jobs of
    the Node host and the step relation \<open>job_step\<close>, \<open>Job_Safety\<close> its invariant, \<open>Job_Theorems\<close> what it
    promises.
  \<^item> Automations. \<open>Automation_Store\<close> (\<open>db/automation-store.ts\<close>): the tables of automations, firings,
    runs and webhook receipts with their unique indexes, one function per statement or batch.
    \<open>Automation_Service\<close> (\<open>scheduler/invocation-service.ts\<close>, \<open>run-launch-service.ts\<close>,
    \<open>automation-session-service.ts\<close>, \<open>failure-service.ts\<close>, \<open>recovery-service.ts\<close>, \<open>scheduler.ts\<close>): each
    method as tasks, one per statement, and the step relation \<open>automation_step\<close>. \<open>Automation_Changes\<close>
    classifies the statements by what they may do to a row and keeps the tables' invariant;
    \<open>Automation_Safety\<close> ties the rows to the pending tasks and the log (\<open>automation_sound\<close>);
    \<open>Automation_Limits\<close> counts strikes and active firings (\<open>limits_ok\<close>); \<open>Automation_Theorems\<close> what
    it promises, with worked runs.

  This theory holds the properties that span components.

  \<^bold>\<open>How the code is read.\<close> A session's object runs one continuation at a time, so a synchronous
  stretch of code is one function on the component's world, with the source's tests in the
  source's order. An \<open>await\<close> of something outside cuts a method in two: the first part leaves a
  task or continuation, and a later step resumes it with whatever the awaited call answered, in
  any order the pending tasks allow. A nested \<open>await processMessageQueue()\<close> leaves a pump task;
  the pump may then run later than in the code, which only adds interleavings. A step of a
  crashed process loses its continuations and keeps its tables (the restart steps of the shutdown
  coordinator and the host clock; the scheduler keeps the order of an operation's writes).
  A statement or transaction that throws rolls back and is \<open>None\<close>.
  Calls that leave a component (a message to the sandbox or a client, a projection, a provider
  call) are entries of a log, each with the tables as they were when it was sent: the safety
  properties are statements about that log.
  What other components or the outside answer is a field of an environment record
  (\<open>turn_env\<close>, \<open>shutdown_env\<close>, \<open>connection_env\<close>) or an argument of the step that resumes the call.
  The step relation of the turns assumes of it only that the clock never goes back and that
  generated ids are new. That of the connections assumes that the ids of a new socket, of its tag and
  of a bridge are new, that a closed socket does not open again and that what the other components
  write to the sandbox row keeps the bridge it names or revokes it; it assumes nothing of the clock.
  That of the jobs assumes that job ids and claim tokens are new and that the clock never goes back.
  That of the automations assumes that generated ids are new and nothing of the clock. There any number of
  requests share one database, so every \<open>await\<close> cuts a task and a step may also lose a task (a crashed
  worker); a statement may fail before or after it took effect; grants and receipts may change
  between any two steps. Work that the code awaits in turn (the firings of a tick, the accounts of a sweep)
  is left as tasks of their own, which only adds interleavings.
  Times are whole milliseconds and costs exact rationals.

  \<^bold>\<open>What the lemmas show.\<close> The lemmas next to the statements of a table give its well-formedness
  invariant (\<open>messages_ok\<close>, \<open>sandbox_ok\<close> and so on) and that every statement keeps it. The
  lemmas of a step relation show its invariant by rule induction: \<open>turn_ok\<close> for the turns, by way
  of the moves; \<open>wok\<close> for the shutdown coordinator, which splits a record's
  schema by phase; \<open>world_sound\<close> for the connections, by way of the changes that leave the row
  and the registry alone (\<open>quiets\<close>, \<open>hushes\<close>); \<open>jobs_sound\<close> for the jobs; \<open>automation_sound\<close> and
  \<open>limits_ok\<close> for the automations, by way of \<open>db_change\<close>; the clock invariant for the host's alarms. The three locales are each proved
  once and interpreted on the code's model: \<open>keyset_source\<close> on the event timeline, \<open>alarm_slot\<close> on
  the deadline index, \<open>dispatch_store\<close> on the prompt table.

  \<^bold>\<open>Bounds and fuel.\<close> The queue holds at most \<open>MAX_UNFINISHED_PROMPTS\<close> prompts of which dispatch
  can return one, which is the bound the queue property states. Automatic retries of a failed save
  are limited by the record's attempt counter and its emergency window, so an unattended save
  ends. A run has one attempt and at most \<open>MAX_AUTOMATION_RETRIES\<close> retries. \<open>collect\<close> follows the cursors of a log with one step of fuel per row and one to spare;
  the page property is stated for any fuel above the number of rows.

  \<^bold>\<open>Not modelled.\<close> Provider adapters, source-control clients, chat bots, the web client and the
  Node and Durable Object glue are I/O against services the repository does not hold. The HTTP
  routes shape requests and responses over the stores. Authentication rests on cryptography and
  identity providers outside the repository; authorization starts from the principal it found. The other shared D1 stores (image builds,
  analytics, usage), memory, MCP and skill configuration are further state of the
  program that this development has not reached. Of the automations the listing queries, the
  selections of repositories and environments, the reassignment of an executor, prompts held for a
  session that is being launched, the matching of webhook and chat events and notifications are left out;
  resolution of targets, authorization and what a session does are answers of the outside. Of the modelled components the following are
  parameters or left out: the contents of a session snapshot and the schemas of frames, the model policy, the contents of a
  prompt command and of the MCP preparation, job rows that are not of the table's types, titles, the confirmation of an archive's projection
  and what it preserves, logging.
\<close>

section \<open>Start-up decisions and launches together\<close>

text \<open>
  C22. Saved or held work is never replaced by a clean sandbox. Whatever the session's shutdown
  record says short of plainly running, no spawn that follows its start-up decision launches
  fresh: it launches nothing, holds, or launches exactly the artifact of the receipt
  the record holds, captured by the configured provider, restoring a snapshot only into a
  compatible runtime. The one exception is the instance that is itself between invoking a
  restore and hearing of it.
\<close>

theorem saved_work_never_launched_fresh:
  assumes "shutdown_reachable e w" and "w_store w = Some s"
    and "sh_phase s \<noteq> PhRunning \<or> sh_checkpointInFlight s" and "\<not> restoring_here s w"
    and "startupDecision e now w = (w', d)"
    and "spawnSandbox cfg p d intent busy hasSocket now' t = (t', ns, l)"
  shows "l \<noteq> LaunchFresh
    \<and> (\<forall>img v. l = LaunchRestore img v \<longrightarrow> (\<exists>rp. sh_receipt s = Some rp \<and> rp_kind rp = SnapshotReceipt
          \<and> rp_artifactId rp = img \<and> rp_provider rp = e_name e \<and> rp_runtimeVersion rp = Some v
          \<and> isSnapshotRuntimeCompatible (Some v)))
    \<and> (\<forall>obj v saved. l = LaunchResume obj v saved \<longrightarrow> saved \<and> (\<exists>rp. sh_receipt s = Some rp
          \<and> rp_kind rp = RetainedReceipt \<and> rp_artifactId rp = obj \<and> rp_provider rp = e_name e))"
proof -
  have normal: "d \<noteq> StartNormal"
    using startup_normal [OF reachable_wok [OF assms(1)] assms(2)] assms(3-5) by blast
  have receipt: "\<exists>rp. sh_receipt s = Some rp \<and> rp_provider rp = e_name e \<and> rp_artifactId rp = a
      \<and> rp_runtimeVersion rp = v \<and> (rp_kind rp = SnapshotReceipt \<longleftrightarrow> d = StartRestoreSnapshot a v)"
    if "d = StartRestoreSnapshot a v \<or> d = StartResumeRetained a v" for a v
    using startup_receipt [OF assms(5) that] assms(2) by auto
  show ?thesis
  proof (cases d)
    case (StartHold reason)
    then show ?thesis using assms(6) by (simp add: spawnSandbox_def)
  next
    case (StartRestoreSnapshot a v)
    then obtain rp where "sh_receipt s = Some rp" "rp_provider rp = e_name e" "rp_artifactId rp = a"
        "rp_runtimeVersion rp = v" "rp_kind rp = SnapshotReceipt"
      using receipt by blast
    moreover have "l \<in> {NoLaunch, LaunchRestore a (the v)} \<or> (\<exists>why. l = HoldRecovery why)"
      "l = LaunchRestore a (the v) \<Longrightarrow> isSnapshotRuntimeCompatible v"
      using assms(6) StartRestoreSnapshot by (auto simp: spawnSandbox_def split: if_splits)
    moreover have "v = Some (the v)" if "isSnapshotRuntimeCompatible v"
      using that by (cases v) (simp_all add: isSnapshotRuntimeCompatible_def)
    ultimately show ?thesis by auto
  next
    case (StartResumeRetained a v)
    then obtain rp where "sh_receipt s = Some rp" "rp_provider rp = e_name e" "rp_artifactId rp = a"
        "rp_kind rp \<noteq> SnapshotReceipt"
      using receipt by blast
    then have rp: "sh_receipt s = Some rp" "rp_provider rp = e_name e" "rp_artifactId rp = a" "rp_kind rp = RetainedReceipt"
      by (auto intro: receipt_kind.exhaust [of "rp_kind rp"])
    have "l \<in> {NoLaunch, LaunchResume a v True} \<or> (\<exists>why. l = HoldRecovery why)"
      using assms(6) StartResumeRetained by (auto simp: spawnSandbox_def resumeOrFallBack_def split: if_splits)
    with rp show ?thesis by auto
  qed (use normal in simp)
qed

definition demo_launch :: launch_config where
  "demo_launch = \<lparr>lc_breaker = DEFAULT_CIRCUIT_BREAKER_CONFIG, lc_spawn = DEFAULT_SPAWN_CONFIG,
     lc_heartbeat = DEFAULT_HEARTBEAT_CONFIG\<rparr>"

definition demo_provider :: launch_provider where
  "demo_provider = \<lparr>lp_canRestore = True, lp_canResume = False, lp_supportsPersistentResume = False\<rparr>"

theorem saved_work_never_launched_fresh_witness:
  "snd (snd (spawnSandbox demo_launch demo_provider (snd (startupDecision demo_env 2000 demo_saving))
      IntentSpawn False False 2000 [])) \<noteq> LaunchFresh"
proof -
  obtain s where s: "w_store demo_saving = Some s" "sh_phase s = PhCapturing" using demo_saving_pending by blast
  have r: "shutdown_reachable demo_env demo_saving" unfolding demo_saving_def by (rule demo_shutdown_reachable)
  have h: "sh_phase s \<noteq> PhRunning \<or> sh_checkpointInFlight s" "\<not> restoring_here s demo_saving"
    using s(2) by (simp_all add: restoring_here_def)
  show ?thesis
    using saved_work_never_launched_fresh [OF r s(1) h] by (metis prod.collapse)
qed
end
